(* ===== verification/Adbc_Prelude.thy ===== *)
theory Adbc_Prelude
  imports Complex_Main "HOL-Library.Word" "HOL-Library.Sublist"
begin

text \<open>
  What every component of the development shares: the status codes of adbc.h, the exceptions the
  extension throws, results and effects as functions over an explicit world, the calls the
  extension makes of the ADBC C API with the replies they get, DuckDB's case-insensitive maps as
  association lists, and generic lemmas on them.

  The ADBC C API below the extension (driver manager and driver) is a parameter everywhere:
  a function from a call and a world to a reply and a world.  Nothing is assumed of it unless a
  theorem says so.
\<close>

section \<open>Lemma collections\<close>

named_theorems adbc_defs "definitions that unfold one operation of a component"
named_theorems adbc_inv "preservation of component invariants"

section \<open>Machine types and status codes\<close>

type_synonym idx_t = "64 word"
type_synonym status = "8 word"

definition ADBC_STATUS_OK :: status where [simp]: "ADBC_STATUS_OK = 0"
definition ADBC_STATUS_UNKNOWN :: status where [simp]: "ADBC_STATUS_UNKNOWN = 1"
definition ADBC_STATUS_NOT_IMPLEMENTED :: status where [simp]: "ADBC_STATUS_NOT_IMPLEMENTED = 2"
definition ADBC_STATUS_NOT_FOUND :: status where [simp]: "ADBC_STATUS_NOT_FOUND = 3"
definition ADBC_STATUS_ALREADY_EXISTS :: status where [simp]: "ADBC_STATUS_ALREADY_EXISTS = 4"
definition ADBC_STATUS_INVALID_ARGUMENT :: status where [simp]: "ADBC_STATUS_INVALID_ARGUMENT = 5"
definition ADBC_STATUS_INVALID_STATE :: status where [simp]: "ADBC_STATUS_INVALID_STATE = 6"
definition ADBC_STATUS_INVALID_DATA :: status where [simp]: "ADBC_STATUS_INVALID_DATA = 7"
definition ADBC_STATUS_INTEGRITY :: status where [simp]: "ADBC_STATUS_INTEGRITY = 8"
definition ADBC_STATUS_INTERNAL :: status where [simp]: "ADBC_STATUS_INTERNAL = 9"
definition ADBC_STATUS_IO :: status where [simp]: "ADBC_STATUS_IO = 10"
definition ADBC_STATUS_CANCELLED :: status where [simp]: "ADBC_STATUS_CANCELLED = 11"
definition ADBC_STATUS_TIMEOUT :: status where [simp]: "ADBC_STATUS_TIMEOUT = 12"
definition ADBC_STATUS_UNAUTHENTICATED :: status where [simp]: "ADBC_STATUS_UNAUTHENTICATED = 13"
definition ADBC_STATUS_UNAUTHORIZED :: status where [simp]: "ADBC_STATUS_UNAUTHORIZED = 14"

section \<open>Exceptions, results and effects\<close>

text \<open>
  The DuckDB exception classes the extension throws, those the C++ library throws by name, the
  internal error DuckDB's checked containers raise on an access out of range, and the two failures
  that are no C++ exception: reading through a null pointer and undefined behaviour of the language.
\<close>

datatype exn =
    BinderException string
  | IOException string
  | NotImplementedException string
  | InvalidInputException string
  | PermissionException string
  | EntryAlreadyExists string
  | StdException string
  | InternalException
  | NullDereference
  | UndefinedBehaviour

type_synonym ('w, 'a) io = "'w \<Rightarrow> (exn + 'a) \<times> 'w"

definition io_return :: "'a \<Rightarrow> ('w, 'a) io" where
  "io_return x w = (Inr x, w)"

definition io_throw :: "exn \<Rightarrow> ('w, 'a) io" where
  "io_throw e w = (Inl e, w)"

definition io_bind :: "('w, 'a) io \<Rightarrow> ('a \<Rightarrow> ('w, 'b) io) \<Rightarrow> ('w, 'b) io" where
  "io_bind m f w = (case m w of (Inl e, w') \<Rightarrow> (Inl e, w') | (Inr x, w') \<Rightarrow> f x w')"

text \<open>A destructor that runs on every exit of a scope, the exceptional one included.\<close>

definition io_finally :: "('w, 'a) io \<Rightarrow> ('w \<Rightarrow> 'w) \<Rightarrow> ('w, 'a) io" where
  "io_finally m d w = (case m w of (r, w') \<Rightarrow> (r, d w'))"

lemma io_bind_Inr [simp]: "m w = (Inr x, w') \<Longrightarrow> io_bind m f w = f x w'"
  by (simp add: io_bind_def)

lemma io_bind_Inl [simp]: "m w = (Inl e, w') \<Longrightarrow> io_bind m f w = (Inl e, w')"
  by (simp add: io_bind_def)

lemma io_bind_assoc: "io_bind (io_bind m f) g = io_bind m (\<lambda>x. io_bind (f x) g)"
  by (rule ext) (simp add: io_bind_def split: prod.splits sum.splits)

section \<open>Results without effects\<close>

text \<open>A computation that may throw, sequenced; and a loop whose passes each add to a vector.\<close>

definition r_bind :: "exn + 'a \<Rightarrow> ('a \<Rightarrow> exn + 'b) \<Rightarrow> exn + 'b" where
  "r_bind r f = (case r of Inl e \<Rightarrow> Inl e | Inr x \<Rightarrow> f x)"

lemma r_bind_simps [simp]: "r_bind (Inl e) f = Inl e" "r_bind (Inr x) f = f x"
  by (simp_all add: r_bind_def)

fun r_collect :: "('i \<Rightarrow> exn + 'a list) \<Rightarrow> 'i list \<Rightarrow> exn + 'a list" where
  "r_collect f [] = Inr []"
| "r_collect f (i # is) = r_bind (f i) (\<lambda>xs. r_bind (r_collect f is) (\<lambda>ys. Inr (xs @ ys)))"

lemma r_collect_Inr:
  "(\<And>i. i \<in> set is \<Longrightarrow> f i = Inr (g i)) \<Longrightarrow> r_collect f is = Inr (concat (map g is))"
  by (induction "is") simp_all

section \<open>Arrow arrays\<close>

text \<open>
  An ArrowArray of the C data interface, as far as the extension reads it: its length, its
  children and its buffers, each pointer possibly null, each buffer with the element type the
  code casts it to.  Doubles are exact rationals or one of the two other kinds of value.
\<close>

datatype double = Finite rat | Infinity bool | NaN

datatype buffer =
    Int8s "8 word list"
  | Int16s "16 word list"
  | Int32s "32 word list"
  | Doubles "double list"
  | Chars string
  | Bits "8 word list"

datatype arrow = Arrow
  (arr_length: int) (arr_children: "arrow option list") (arr_buffers: "buffer option list")

section \<open>The ADBC C API as the extension calls it\<close>

text \<open>
  A handle is the \<open>private_data\<close> of an AdbcDatabase, AdbcConnection or AdbcStatement struct:
  None is the null pointer.  A stream bound to a statement is named by what it will deliver.
\<close>

type_synonym hnd = "nat option"

datatype bound_stream = SchemaOnly "(string \<times> string) list" | InsertBuffer

datatype adbc_call =
    DatabaseNew
  | DatabaseSetOption hnd string string
  | DatabaseSetLoadFlags hnd "32 word"
  | DatabaseInit hnd
  | DatabaseRelease hnd
  | ConnectionNew
  | ConnectionInit hnd hnd
  | ConnectionRelease hnd
  | ConnectionGetOption hnd string nat
  | ConnectionGetObjects hnd nat "string option" "string option"
  | ConnectionGetStatistics hnd "string option" string string bool
  | StatementNew hnd
  | StatementSetSqlQuery hnd string
  | StatementSetOption hnd string string
  | StatementBindStream hnd bound_stream
  | StatementExecuteQuery hnd bool
  | StatementExecuteSchema hnd
  | StatementRelease hnd
  | StreamGetSchema hnd

text \<open>
  A reply: the status, the error message left in the AdbcError (None is a null message), the
  \<open>private_data\<close> the call leaves in the handle it works on, and the call's outputs (an option's
  value as the C string in the caller's buffer and the length written back, a schema, the batches
  a result stream will deliver).
\<close>

record reply =
  rp_status :: status
  rp_message :: "string option"
  rp_handle :: hnd
  rp_value :: string
  rp_length :: nat
  rp_schema :: "(string \<times> string) list"
  rp_batches :: "arrow list"

type_synonym 'w adbc = "adbc_call \<Rightarrow> 'w \<Rightarrow> reply \<times> 'w"

section \<open>Case-insensitive maps\<close>

text \<open>
  DuckDB's \<open>case_insensitive_map_t\<close>: entries in some order, keys compared through the case
  folding \<open>ci\<close> of the library, which is a parameter.  \<open>m[k] = v\<close> keeps the stored key when it
  replaces a value.
\<close>

type_synonym 'v ci_map = "(string \<times> 'v) list"

definition ci_find :: "(string \<Rightarrow> string) \<Rightarrow> 'v ci_map \<Rightarrow> string \<Rightarrow> 'v option" where
  "ci_find ci m k = map_option snd (find (\<lambda>(k', _). ci k' = ci k) m)"

fun ci_update :: "(string \<Rightarrow> string) \<Rightarrow> 'v ci_map \<Rightarrow> string \<Rightarrow> 'v \<Rightarrow> 'v ci_map" where
  "ci_update ci [] k v = [(k, v)]"
| "ci_update ci ((k', v') # m) k v =
     (if ci k' = ci k then (k', v) # m else (k', v') # ci_update ci m k v)"

definition ci_distinct :: "(string \<Rightarrow> string) \<Rightarrow> 'v ci_map \<Rightarrow> bool" where
  "ci_distinct ci m \<longleftrightarrow> distinct (map (ci \<circ> fst) m)"

lemma ci_find_Nil [simp]: "ci_find ci [] k = None"
  by (simp add: ci_find_def)

lemma ci_find_Cons: "ci_find ci ((k', v) # m) k = (if ci k' = ci k then Some v else ci_find ci m k)"
  by (simp add: ci_find_def)

lemma ci_find_update:
  "ci_find ci (ci_update ci m k v) k' = (if ci k = ci k' then Some v else ci_find ci m k')"
  by (induction ci m k v rule: ci_update.induct) (auto simp: ci_find_Cons)

lemma ci_update_keys:
  "(ci \<circ> fst) ` set (ci_update ci m k v) = insert (ci k) ((ci \<circ> fst) ` set m)"
  by (induction ci m k v rule: ci_update.induct) auto

lemma ci_distinct_Nil [simp]: "ci_distinct ci []"
  by (simp add: ci_distinct_def)

lemma ci_distinct_update: "ci_distinct ci m \<Longrightarrow> ci_distinct ci (ci_update ci m k v)"
proof (induction ci m k v rule: ci_update.induct)
  case (2 ci k' v' m k v)
  then show ?case
    using ci_update_keys [of ci m k v]
    by (cases "ci k' = ci k") (auto simp: ci_distinct_def image_iff Bex_def)
qed (simp add: ci_distinct_def)

lemma ci_find_Some_in: "ci_find ci m k = Some v \<Longrightarrow> v \<in> snd ` set m"
  by (induction m) (auto simp: ci_find_Cons split: if_splits)

lemma ci_find_None_iff: "ci_find ci m k = None \<longleftrightarrow> ci k \<notin> (ci \<circ> fst) ` set m"
  by (induction m) (auto simp: ci_find_Cons split: if_splits)

lemma ci_update_append:
  "ci_find ci m k = None \<Longrightarrow> ci_update ci m k v = m @ [(k, v)]"
  by (induction ci m k v rule: ci_update.induct) (auto simp: ci_find_Cons split: if_splits)

section \<open>Lists\<close>

lemma concat_drop_nth:
  "i < length xs \<Longrightarrow> concat (drop i xs) = xs ! i @ concat (drop (Suc i) xs)"
  by (simp add: Cons_nth_drop_Suc [symmetric])

lemma find_SomeD: "find P xs = Some x \<Longrightarrow> x \<in> set xs \<and> P x"
  by (auto simp: find_Some_iff)

section \<open>Decimal numerals\<close>

text \<open>What the formats \<open>%llu\<close> and \<open>%lld\<close> print.\<close>

fun nat_to_string :: "nat \<Rightarrow> string" where
  "nat_to_string n =
     (if n < 10 then [char_of (48 + n)] else nat_to_string (n div 10) @ [char_of (48 + n mod 10)])"

declare nat_to_string.simps [simp del]

definition int_to_string :: "int \<Rightarrow> string" where
  "int_to_string i = (if i < 0 then ''-'' @ nat_to_string (nat (- i)) else nat_to_string (nat i))"

section \<open>Counters kept in words\<close>

lemma unat_inc: "unat a < unat b \<Longrightarrow> unat (a + 1) = Suc (unat a)"
  for a b :: "'a::len word"
  by unat_arith

lemma unat_dec: "0 < unat a \<Longrightarrow> unat (a - 1) = unat a - 1"
  for a :: "'a::len word"
  by unat_arith

end
