(* ===== verification/Adbc_Util.thy ===== *)
theory Adbc_Util
  imports Adbc_Prelude "HOL-Library.Multiset"
begin

text \<open>
  src/include/adbc_util.hpp: status messages, the \<open>CHECK_ADBC\<close> guard, the owning \<open>Handle\<close>
  template with its releasers, and \<open>AdbcConnection\<close>, which opens a database and a connection
  through the ADBC C API and makes statements on it.
\<close>

section \<open>Status messages and CHECK\_ADBC\<close>

definition StatusCodeToString :: "status \<Rightarrow> string" where
  "StatusCodeToString code =
    (if code = ADBC_STATUS_OK then ''0 (OK)''
     else if code = ADBC_STATUS_UNKNOWN then ''1 (UNKNOWN)''
     else if code = ADBC_STATUS_NOT_IMPLEMENTED then ''2 (NOT_IMPLEMENTED)''
     else if code = ADBC_STATUS_NOT_FOUND then ''3 (NOT_FOUND)''
     else if code = ADBC_STATUS_ALREADY_EXISTS then ''4 (ALREADY_EXISTS)''
     else if code = ADBC_STATUS_INVALID_ARGUMENT then ''5 (INVALID_ARGUMENT)''
     else if code = ADBC_STATUS_INVALID_STATE then ''6 (INVALID_STATE)''
     else if code = ADBC_STATUS_INVALID_DATA then ''7 (INVALID_DATA)''
     else if code = ADBC_STATUS_INTEGRITY then ''8 (INTEGRITY)''
     else if code = ADBC_STATUS_INTERNAL then ''9 (INTERNAL)''
     else if code = ADBC_STATUS_IO then ''10 (IO)''
     else if code = ADBC_STATUS_CANCELLED then ''11 (CANCELLED)''
     else if code = ADBC_STATUS_TIMEOUT then ''12 (TIMEOUT)''
     else if code = ADBC_STATUS_UNAUTHENTICATED then ''13 (UNAUTHENTICATED)''
     else if code = ADBC_STATUS_UNAUTHORIZED then ''14 (UNAUTHORIZED)''
     else ''(unknown code)'')"

definition AdbcToString :: "string option \<Rightarrow> string" where
  "AdbcToString error_message = (case error_message of Some m \<Rightarrow> m | None \<Rightarrow> '''')"

text \<open>\<open>CHECK_ADBC(EXPR, EXCEPTION_TYPE)\<close>: throw the error's message unless the status is OK.\<close>

definition CHECK_ADBC :: "(string \<Rightarrow> exn) \<Rightarrow> reply \<Rightarrow> exn + reply" where
  "CHECK_ADBC exc r =
     (if rp_status r \<noteq> ADBC_STATUS_OK then Inl (exc (AdbcToString (rp_message r))) else Inr r)"

lemma CHECK_ADBC_OK [simp]: "rp_status r = ADBC_STATUS_OK \<Longrightarrow> CHECK_ADBC exc r = Inr r"
  by (simp add: CHECK_ADBC_def)

lemma CHECK_ADBC_err [simp]:
  "rp_status r \<noteq> ADBC_STATUS_OK \<Longrightarrow> CHECK_ADBC exc r = Inl (exc (AdbcToString (rp_message r)))"
  by (simp add: CHECK_ADBC_def)

lemma CHECK_ADBC_InrD: "CHECK_ADBC exc r = Inr r' \<Longrightarrow> r' = r \<and> rp_status r = ADBC_STATUS_OK"
  by (simp add: CHECK_ADBC_def split: if_splits)

text \<open>One checked call: the API is called, then its reply is checked.\<close>

definition checked :: "(string \<Rightarrow> exn) \<Rightarrow> 'w adbc \<Rightarrow> adbc_call \<Rightarrow> ('w, reply) io" where
  "checked exc adbc c w = (case adbc c w of (r, w') \<Rightarrow> (CHECK_ADBC exc r, w'))"

section \<open>Handle: exclusive ownership of one C struct\<close>

text \<open>
  A handle's \<open>value\<close> is the struct it owns, None when it is zeroed (a null \<open>release\<close> or
  \<open>private_data\<close>).  The log records, in order, the structs whose release ran.
\<close>

definition Releaser_Release :: "'r option \<Rightarrow> 'r list \<Rightarrow> 'r list" where
  "Releaser_Release value lg = (case value of None \<Rightarrow> lg | Some r \<Rightarrow> lg @ [r])"

text \<open>
  The handles of a program are variables; \<open>taken\<close> collects the structs that left a handle by
  \<open>release()\<close>, whose caller then owns them.
\<close>

record 'r handles =
  vars :: "nat \<Rightarrow> 'r option"
  released :: "'r list"
  taken :: "'r list"

datatype 'r handle_op =
    Construct nat
  | Fill nat 'r
  | MoveConstruct nat nat
  | MoveAssign nat nat
  | Destroy nat
  | Take nat
  | Reset nat

fun handle_step :: "'r handle_op \<Rightarrow> 'r handles \<Rightarrow> 'r handles" where
  "handle_step (Construct x) s = s\<lparr>vars := (vars s)(x := None)\<rparr>"
| "handle_step (Fill x r) s = s\<lparr>vars := (vars s)(x := Some r)\<rparr>"
| "handle_step (MoveConstruct x y) s = s\<lparr>vars := (vars s)(x := vars s y, y := None)\<rparr>"
| "handle_step (MoveAssign x y) s =
     (if x = y then s
      else s\<lparr>vars := (vars s)(x := vars s y, y := None),
             released := Releaser_Release (vars s x) (released s)\<rparr>)"
| "handle_step (Destroy x) s =
     s\<lparr>vars := (vars s)(x := None), released := Releaser_Release (vars s x) (released s)\<rparr>"
| "handle_step (Take x) s =
     s\<lparr>vars := (vars s)(x := None), taken := Releaser_Release (vars s x) (taken s)\<rparr>"
| "handle_step (Reset x) s =
     s\<lparr>vars := (vars s)(x := None), released := Releaser_Release (vars s x) (released s)\<rparr>"

text \<open>
  What the language and the API ask of a program: a variable is constructed only while it holds
  nothing, and the API fills only zeroed handles.
\<close>

fun handle_ok :: "'r handle_op \<Rightarrow> 'r handles \<Rightarrow> bool" where
  "handle_ok (Construct x) s = (vars s x = None)"
| "handle_ok (Fill x r) s = (vars s x = None)"
| "handle_ok (MoveConstruct x y) s = (vars s x = None \<and> x \<noteq> y)"
| "handle_ok _ s = True"

fun handle_run :: "'r handle_op list \<Rightarrow> 'r handles \<Rightarrow> 'r handles option" where
  "handle_run [] s = Some s"
| "handle_run (p # ps) s = (if handle_ok p s then handle_run ps (handle_step p s) else None)"

fun filled :: "'r handle_op list \<Rightarrow> 'r multiset" where
  "filled [] = {#}"
| "filled (Fill x r # ps) = add_mset r (filled ps)"
| "filled (_ # ps) = filled ps"

text \<open>The structs the variables below \<open>n\<close> hold, as a multiset.\<close>

definition opt_mset :: "'r option \<Rightarrow> 'r multiset" where
  "opt_mset v = (case v of None \<Rightarrow> {#} | Some r \<Rightarrow> {#r#})"

definition held :: "nat \<Rightarrow> 'r handles \<Rightarrow> 'r multiset" where
  "held n s = (\<Sum>x<n. opt_mset (vars s x))"

fun op_vars :: "'r handle_op \<Rightarrow> nat set" where
  "op_vars (Construct x) = {x}"
| "op_vars (Fill x r) = {x}"
| "op_vars (MoveConstruct x y) = {x, y}"
| "op_vars (MoveAssign x y) = {x, y}"
| "op_vars (Destroy x) = {x}"
| "op_vars (Take x) = {x}"
| "op_vars (Reset x) = {x}"

lemma opt_mset_simps [simp]: "opt_mset None = {#}" "opt_mset (Some r) = {#r#}"
  by (simp_all add: opt_mset_def)

lemma mset_Releaser [simp]: "mset (Releaser_Release v l) = mset l + opt_mset v"
  by (cases v) (simp_all add: Releaser_Release_def)

lemma sum_update_one:
  fixes f :: "nat \<Rightarrow> 'r option"
  assumes "x < n"
  shows "(\<Sum>i<n. opt_mset ((f(x := v)) i)) + opt_mset (f x) = (\<Sum>i<n. opt_mset (f i)) + opt_mset v"
proof -
  have x: "x \<in> {..<n}" using assms by simp
  have "(\<Sum>i<n. opt_mset ((f(x := v)) i)) = opt_mset v + (\<Sum>i\<in>{..<n} - {x}. opt_mset (f i))"
    using sum.remove [OF _ x, of "\<lambda>i. opt_mset ((f(x := v)) i)"] by simp
  moreover have "(\<Sum>i<n. opt_mset (f i)) = opt_mset (f x) + (\<Sum>i\<in>{..<n} - {x}. opt_mset (f i))"
    using sum.remove [OF _ x, of "\<lambda>i. opt_mset (f i)"] by simp
  ultimately show ?thesis by (simp add: ac_simps)
qed

lemma sum_update_move:
  fixes f :: "nat \<Rightarrow> 'r option"
  assumes "x < n" and "y < n" and "x \<noteq> y"
  shows "(\<Sum>i<n. opt_mset ((f(x := f y, y := None)) i)) + opt_mset (f x) = (\<Sum>i<n. opt_mset (f i))"
proof (rule add_right_imp_eq)
  have "(\<Sum>i<n. opt_mset ((f(x := f y, y := None)) i)) + opt_mset (f y)
      = (\<Sum>i<n. opt_mset ((f(x := f y)) i))" (is "?s3 + _ = ?s2")
    using sum_update_one [OF assms(2), of "f(x := f y)" None] assms(3) by simp
  then have "?s3 + opt_mset (f x) + opt_mset (f y) = ?s2 + opt_mset (f x)"
    by (metis (no_types, lifting) add.assoc add.commute)
  also have "\<dots> = (\<Sum>i<n. opt_mset (f i)) + opt_mset (f y)"
    by (rule sum_update_one [OF assms(1)])
  finally show "?s3 + opt_mset (f x) + opt_mset (f y) = (\<Sum>i<n. opt_mset (f i)) + opt_mset (f y)" .
qed

lemma handle_step_conserves:
  assumes "handle_ok p s" and "op_vars p \<subseteq> {..<n}"
  shows "held n (handle_step p s) + mset (released (handle_step p s)) + mset (taken (handle_step p s))
       = held n s + mset (released s) + mset (taken s) + filled [p]"
proof (cases p)
  case (MoveConstruct x y)
  with assms show ?thesis
    using sum_update_move [of x n y "vars s"] by (simp add: held_def ac_simps)
next
  case (MoveAssign x y)
  with assms show ?thesis
    using sum_update_move [of x n y "vars s"] by (simp add: held_def ac_simps)
next
  case (Construct x)
  with assms show ?thesis
    using sum_update_one [of x n "vars s" None] by (simp add: held_def ac_simps)
next
  case (Fill x r)
  with assms show ?thesis
    using sum_update_one [of x n "vars s" "Some r"] by (simp add: held_def ac_simps)
next
  case (Destroy x)
  with assms show ?thesis
    using sum_update_one [of x n "vars s" None] by (simp add: held_def ac_simps)
next
  case (Take x)
  with assms show ?thesis
    using sum_update_one [of x n "vars s" None] by (simp add: held_def ac_simps)
next
  case (Reset x)
  with assms show ?thesis
    using sum_update_one [of x n "vars s" None] by (simp add: held_def ac_simps)
qed

lemma filled_Cons: "filled (p # ps) = filled [p] + filled ps"
  by (cases p) simp_all

lemma handle_run_conserves:
  assumes "handle_run ps s = Some t" and "\<forall>p \<in> set ps. op_vars p \<subseteq> {..<n}"
  shows "held n t + mset (released t) + mset (taken t)
       = held n s + mset (released s) + mset (taken s) + filled ps"
  using assms
proof (induction ps arbitrary: s)
  case Nil
  then show ?case by simp
next
  case (Cons p ps)
  from Cons.prems have ok: "handle_ok p s" and run: "handle_run ps (handle_step p s) = Some t"
    by (auto split: if_splits)
  show ?case
    using Cons.IH [OF run] Cons.prems(2) handle_step_conserves [OF ok, of n] filled_Cons [of p ps]
    by (simp add: ac_simps)
qed

section \<open>AdbcConnection: a database and a connection on it\<close>

record adbc_connection =
  database :: hnd
  connection :: hnd

definition ADBC_LOAD_FLAG_DEFAULT :: "32 word" where
  "ADBC_LOAD_FLAG_DEFAULT = or (or 1 2) (or 4 8)"

definition release_database :: "'w adbc \<Rightarrow> hnd \<Rightarrow> 'w \<Rightarrow> 'w" where
  "release_database adbc h w = (case h of None \<Rightarrow> w | Some _ \<Rightarrow> snd (adbc (DatabaseRelease h) w))"

definition release_connection :: "'w adbc \<Rightarrow> hnd \<Rightarrow> 'w \<Rightarrow> 'w" where
  "release_connection adbc h w = (case h of None \<Rightarrow> w | Some _ \<Rightarrow> snd (adbc (ConnectionRelease h) w))"

definition release_statement :: "'w adbc \<Rightarrow> hnd \<Rightarrow> 'w \<Rightarrow> 'w" where
  "release_statement adbc h w = (case h of None \<Rightarrow> w | Some _ \<Rightarrow> snd (adbc (StatementRelease h) w))"

text \<open>
  A run of checked calls on one handle: it stops at the first status that is not OK, and gives
  the outcome, what the handle holds then, and the world.
\<close>

fun handle_calls ::
  "(string \<Rightarrow> exn) \<Rightarrow> 'w adbc \<Rightarrow> (hnd \<Rightarrow> adbc_call) list \<Rightarrow> hnd \<Rightarrow> 'w \<Rightarrow> (exn + unit) \<times> hnd \<times> 'w"
where
  "handle_calls exc adbc [] h w = (Inr (), h, w)"
| "handle_calls exc adbc (c # cs) h w =
     (case adbc (c h) w of (r, w') \<Rightarrow>
       (case CHECK_ADBC exc r of
          Inl e \<Rightarrow> (Inl e, rp_handle r, w')
        | Inr _ \<Rightarrow> handle_calls exc adbc cs (rp_handle r) w'))"

text \<open>
  The constructor.  When it throws, the members built so far are destroyed in reverse order of
  declaration: the connection, then the database.
\<close>

definition AdbcConnection_new :: "'w adbc \<Rightarrow> string \<Rightarrow> ('w, adbc_connection) io" where
  "AdbcConnection_new adbc uri w =
    (case handle_calls BinderException adbc
        [\<lambda>d. DatabaseNew,
         \<lambda>d. DatabaseSetOption d ''uri'' uri,
         \<lambda>d. DatabaseSetLoadFlags d ADBC_LOAD_FLAG_DEFAULT,
         \<lambda>d. DatabaseInit d] None w of
       (Inl e, db, w1) \<Rightarrow> (Inl e, release_database adbc db w1)
     | (Inr _, db, w1) \<Rightarrow>
         (case handle_calls BinderException adbc
             [\<lambda>c. ConnectionNew, \<lambda>c. ConnectionInit c db] None w1 of
            (Inl e, c, w2) \<Rightarrow> (Inl e, release_database adbc db (release_connection adbc c w2))
          | (Inr _, c, w2) \<Rightarrow> (Inr \<lparr>database = db, connection = c\<rparr>, w2)))"

definition AdbcConnection_destroy :: "'w adbc \<Rightarrow> adbc_connection \<Rightarrow> 'w \<Rightarrow> 'w" where
  "AdbcConnection_destroy adbc c w =
     release_database adbc (database c) (release_connection adbc (connection c) w)"

definition MakeStatement :: "'w adbc \<Rightarrow> adbc_connection \<Rightarrow> string \<Rightarrow> ('w, hnd) io" where
  "MakeStatement adbc c query_text w =
    (case handle_calls BinderException adbc
        [\<lambda>s. StatementNew (connection c), \<lambda>s. StatementSetSqlQuery s query_text] None w of
       (Inl e, s, w1) \<Rightarrow> (Inl e, release_statement adbc s w1)
     | (Inr _, s, w1) \<Rightarrow> (Inr s, w1))"

section \<open>The handle contract of the C API\<close>

text \<open>
  What adbc.h documents of handles: a \<open>New\<close> call that leaves something in its handle allocated
  it, a \<open>Release\<close> call frees what its handle holds and leaves it zeroed, and any other call on a
  handle leaves it alone or frees it.  \<open>live w\<close> is the set of allocated objects of a world.
\<close>

datatype hkind = Db | Conn | Stmt

fun call_handle :: "adbc_call \<Rightarrow> (hkind \<times> hnd) option" where
  "call_handle DatabaseNew = Some (Db, None)"
| "call_handle (DatabaseSetOption h _ _) = Some (Db, h)"
| "call_handle (DatabaseSetLoadFlags h _) = Some (Db, h)"
| "call_handle (DatabaseInit h) = Some (Db, h)"
| "call_handle (DatabaseRelease h) = Some (Db, h)"
| "call_handle ConnectionNew = Some (Conn, None)"
| "call_handle (ConnectionInit h _) = Some (Conn, h)"
| "call_handle (ConnectionRelease h) = Some (Conn, h)"
| "call_handle (StatementNew _) = Some (Stmt, None)"
| "call_handle (StatementSetSqlQuery h _) = Some (Stmt, h)"
| "call_handle (StatementSetOption h _ _) = Some (Stmt, h)"
| "call_handle (StatementBindStream h _) = Some (Stmt, h)"
| "call_handle (StatementExecuteQuery h _) = Some (Stmt, h)"
| "call_handle (StatementExecuteSchema h) = Some (Stmt, h)"
| "call_handle (StatementRelease h) = Some (Stmt, h)"
| "call_handle _ = None"

fun is_release :: "adbc_call \<Rightarrow> bool" where
  "is_release (DatabaseRelease _) = True"
| "is_release (ConnectionRelease _) = True"
| "is_release (StatementRelease _) = True"
| "is_release _ = False"

definition tag :: "hkind \<Rightarrow> hnd \<Rightarrow> (hkind \<times> nat) set" where
  "tag k h = (case h of None \<Rightarrow> {} | Some d \<Rightarrow> {(k, d)})"

definition handle_contract :: "'w adbc \<Rightarrow> ('w \<Rightarrow> (hkind \<times> nat) set) \<Rightarrow> bool" where
  "handle_contract adbc live \<longleftrightarrow>
    (\<forall>c w. case adbc c w of (r, w') \<Rightarrow>
      (case call_handle c of
         None \<Rightarrow> live w' = live w
       | Some (k, h) \<Rightarrow> tag k h \<subseteq> live w \<longrightarrow>
           live w' = (live w - tag k h) \<union> tag k (rp_handle r) \<and>
           tag k (rp_handle r) \<inter> (live w - tag k h) = {} \<and>
           (is_release c \<longrightarrow> rp_handle r = None)))"

lemma tag_simps [simp]: "tag k None = {}" "tag k (Some d) = {(k, d)}"
  by (simp_all add: tag_def)

lemma handle_contractD:
  assumes "handle_contract adbc live" and "adbc c w = (r, w')" and "call_handle c = Some (k, h)"
    and "tag k h \<subseteq> live w"
  shows "live w' = (live w - tag k h) \<union> tag k (rp_handle r)"
    and "tag k (rp_handle r) \<inter> (live w - tag k h) = {}"
    and "is_release c \<Longrightarrow> rp_handle r = None"
  using assms(1) [unfolded handle_contract_def, THEN spec [of _ c], THEN spec [of _ w]] assms(2-)
  by simp_all

text \<open>
  A run of calls on one handle only exchanges what that handle holds, also when it begins with
  the handle's \<open>New\<close>.
\<close>

definition exchanges :: "hkind \<Rightarrow> hnd \<Rightarrow> hnd \<Rightarrow> (hkind \<times> nat) set \<Rightarrow> (hkind \<times> nat) set \<Rightarrow> bool" where
  "exchanges k h h' L L' \<longleftrightarrow> L' = (L - tag k h) \<union> tag k h' \<and> tag k h' \<inter> (L - tag k h) = {}"

lemma exchanges_trans:
  "exchanges k h h1 L L1 \<Longrightarrow> exchanges k h1 h2 L1 L2 \<Longrightarrow> exchanges k h h2 L L2"
  unfolding exchanges_def by blast

lemma handle_calls_exchanges:
  assumes "handle_contract adbc live"
    and "\<And>c h. c \<in> set cs \<Longrightarrow> call_handle (c h) = Some (k, h)"
    and "handle_calls exc adbc cs h w = (res, h', w')"
    and "tag k h \<subseteq> live w"
  shows "exchanges k h h' (live w) (live w')"
  using assms(2-)
proof (induction cs arbitrary: h w)
  case Nil
  then show ?case by (auto simp: exchanges_def)
next
  case (Cons c cs)
  obtain r w1 where call: "adbc (c h) w = (r, w1)" by (cases "adbc (c h) w")
  have step: "exchanges k h (rp_handle r) (live w) (live w1)"
    using handle_contractD [OF assms(1) call] Cons.prems by (simp add: exchanges_def)
  show ?case
  proof (cases "rp_status r = ADBC_STATUS_OK")
    case True
    with Cons.prems(2) call
    have "handle_calls exc adbc cs (rp_handle r) w1 = (res, h', w')" by simp
    moreover have "tag k (rp_handle r) \<subseteq> live w1"
      using step by (auto simp: exchanges_def)
    ultimately have "exchanges k (rp_handle r) h' (live w1) (live w')"
      using Cons.IH Cons.prems(1) by simp
    with step show ?thesis by (rule exchanges_trans)
  next
    case False
    with Cons.prems(2) call step show ?thesis by simp
  qed
qed

lemma handle_calls_New_exchanges:
  assumes "handle_contract adbc live"
    and "\<And>h. call_handle (c0 h) = Some (k, None)"
    and "\<And>c h. c \<in> set cs \<Longrightarrow> call_handle (c h) = Some (k, h)"
    and "handle_calls exc adbc (c0 # cs) None w = (res, h', w')"
  shows "exchanges k None h' (live w) (live w')"
proof -
  obtain r w1 where call: "adbc (c0 None) w = (r, w1)" by (cases "adbc (c0 None) w")
  have step: "exchanges k None (rp_handle r) (live w) (live w1)"
    using handle_contractD [OF assms(1) call] assms(2) by (simp add: exchanges_def)
  show ?thesis
  proof (cases "rp_status r = ADBC_STATUS_OK")
    case True
    with assms(4) call have "handle_calls exc adbc cs (rp_handle r) w1 = (res, h', w')" by simp
    moreover have "tag k (rp_handle r) \<subseteq> live w1" using step by (auto simp: exchanges_def)
    ultimately have "exchanges k (rp_handle r) h' (live w1) (live w')"
      by (intro handle_calls_exchanges [OF assms(1)]) (use assms(3) in auto)
    with step show ?thesis by (rule exchanges_trans)
  next
    case False
    with assms(4) call step show ?thesis by simp
  qed
qed

lemma release_live:
  assumes "handle_contract adbc live"
  shows "tag Db h \<subseteq> live w \<Longrightarrow> live (release_database adbc h w) = live w - tag Db h"
    and "tag Conn h \<subseteq> live w \<Longrightarrow> live (release_connection adbc h w) = live w - tag Conn h"
    and "tag Stmt h \<subseteq> live w \<Longrightarrow> live (release_statement adbc h w) = live w - tag Stmt h"
proof -
  have *: "live (snd (adbc c w)) = live w - tag k h"
    if "call_handle c = Some (k, h)" "is_release c" "tag k h \<subseteq> live w" for c :: adbc_call and k
    using handle_contractD [OF assms surjective_pairing that(1,3)] that(2) by simp
  show "tag Db h \<subseteq> live w \<Longrightarrow> live (release_database adbc h w) = live w - tag Db h"
    by (cases h) (simp_all add: release_database_def *)
  show "tag Conn h \<subseteq> live w \<Longrightarrow> live (release_connection adbc h w) = live w - tag Conn h"
    by (cases h) (simp_all add: release_connection_def *)
  show "tag Stmt h \<subseteq> live w \<Longrightarrow> live (release_statement adbc h w) = live w - tag Stmt h"
    by (cases h) (simp_all add: release_statement_def *)
qed

text \<open>The objects a connection owns.\<close>

definition owned :: "adbc_connection \<Rightarrow> (hkind \<times> nat) set" where
  "owned c = tag Db (database c) \<union> tag Conn (connection c)"

lemma tag_kinds [simp]: "k \<noteq> k' \<Longrightarrow> tag k h \<inter> tag k' h' = {}"
  by (auto simp: tag_def split: option.splits)

lemma AdbcConnection_new_live:
  assumes "handle_contract adbc live" and "AdbcConnection_new adbc uri w = (res, w')"
  shows "case res of Inl _ \<Rightarrow> live w' = live w
       | Inr c \<Rightarrow> live w' = live w \<union> owned c \<and> owned c \<inter> live w = {}"
proof -
  let ?dcalls = "[\<lambda>d. DatabaseNew, \<lambda>d. DatabaseSetOption d ''uri'' uri,
    \<lambda>d. DatabaseSetLoadFlags d ADBC_LOAD_FLAG_DEFAULT, \<lambda>d. DatabaseInit d]"
  obtain r1 db w1 where d: "handle_calls BinderException adbc ?dcalls None w = (r1, db, w1)"
    by (metis prod_cases3)
  have "exchanges Db None db (live w) (live w1)"
    by (rule handle_calls_New_exchanges [OF assms(1) _ _ d]) auto
  then have db: "live w1 = live w \<union> tag Db db" "tag Db db \<inter> live w = {}"
    by (auto simp: exchanges_def)
  show ?thesis
  proof (cases r1)
    case (Inl e)
    with assms(2) d have "res = Inl e" "w' = release_database adbc db w1"
      by (simp_all add: AdbcConnection_new_def)
    with db release_live(1) [OF assms(1), of db w1] show ?thesis by auto
  next
    case (Inr u)
    let ?ccalls = "[\<lambda>c. ConnectionNew, \<lambda>c. ConnectionInit c db]"
    obtain r2 c w2 where c: "handle_calls BinderException adbc ?ccalls None w1 = (r2, c, w2)"
      by (metis prod_cases3)
    have "exchanges Conn None c (live w1) (live w2)"
      by (rule handle_calls_New_exchanges [OF assms(1) _ _ c]) auto
    then have conn: "live w2 = live w1 \<union> tag Conn c" "tag Conn c \<inter> live w1 = {}"
      by (auto simp: exchanges_def)
    show ?thesis
    proof (cases r2)
      case (Inl e)
      with assms(2) d c Inr
      have res: "res = Inl e" "w' = release_database adbc db (release_connection adbc c w2)"
        by (simp_all add: AdbcConnection_new_def)
      have "live (release_connection adbc c w2) = live w1"
        using release_live(2) [OF assms(1), of c w2] conn by auto
      with res db release_live(1) [OF assms(1), of db "release_connection adbc c w2"]
      show ?thesis by auto
    next
      case Inr2: (Inr u')
      with assms(2) d c Inr
      have "res = Inr \<lparr>database = db, connection = c\<rparr>" "w' = w2"
        by (simp_all add: AdbcConnection_new_def)
      with db conn show ?thesis by (auto simp: owned_def)
    qed
  qed
qed

lemma AdbcConnection_destroy_live:
  assumes "handle_contract adbc live" and "owned c \<subseteq> live w"
  shows "live (AdbcConnection_destroy adbc c w) = live w - owned c"
proof -
  have "live (release_connection adbc (connection c) w) = live w - tag Conn (connection c)"
    using release_live(2) [OF assms(1)] assms(2) by (simp add: owned_def)
  moreover have "tag Db (database c) \<subseteq> live w - tag Conn (connection c)"
    using assms(2) tag_kinds [of Db Conn "database c" "connection c"] by (auto simp: owned_def simp del: tag_kinds)
  ultimately show ?thesis
    using release_live(1) [OF assms(1), of "database c" "release_connection adbc (connection c) w"]
    by (auto simp: AdbcConnection_destroy_def owned_def)
qed

lemma MakeStatement_live:
  assumes "handle_contract adbc live" and "MakeStatement adbc c q w = (res, w')"
  shows "case res of Inl _ \<Rightarrow> live w' = live w
       | Inr s \<Rightarrow> live w' = live w \<union> tag Stmt s \<and> tag Stmt s \<inter> live w = {}"
proof -
  let ?calls = "[\<lambda>s. StatementNew (connection c), \<lambda>s. StatementSetSqlQuery s q]"
  obtain r s w1 where s: "handle_calls BinderException adbc ?calls None w = (r, s, w1)"
    by (metis prod_cases3)
  have "exchanges Stmt None s (live w) (live w1)"
    by (rule handle_calls_New_exchanges [OF assms(1) _ _ s]) auto
  then have "live w1 = live w \<union> tag Stmt s" "tag Stmt s \<inter> live w = {}"
    by (auto simp: exchanges_def)
  with assms(2) s release_live(3) [OF assms(1), of s w1] show ?thesis
    by (auto simp: MakeStatement_def split: sum.splits)
qed

section \<open>A concrete API, for worked examples\<close>

text \<open>
  A world that scripts the replies to the calls in order, lists what is allocated and records
  the calls: enough to run every operation of the development on concrete inputs.  A call past
  the end of the script gets \<open>ok_reply\<close>.
\<close>

definition ok_reply :: reply where
  "ok_reply = \<lparr>rp_status = ADBC_STATUS_OK, rp_message = None, rp_handle = None, rp_value = [],
     rp_length = 0, rp_schema = [], rp_batches = []\<rparr>"

definition fail_reply :: "status \<Rightarrow> string \<Rightarrow> reply" where
  "fail_reply s m = ok_reply\<lparr>rp_status := s, rp_message := Some m\<rparr>"

record script =
  allocated :: "(hkind \<times> nat) list"
  replies :: "reply list"
  calls :: "adbc_call list"

definition fresh_id :: "(hkind \<times> nat) list \<Rightarrow> nat" where
  "fresh_id l = Suc (sum_list (map snd l))"

definition scripted :: "script adbc" where
  "scripted c s =
    (let r = (case replies s of [] \<Rightarrow> ok_reply | r # _ \<Rightarrow> r);
         s1 = s\<lparr>replies := tl (replies s), calls := calls s @ [c]\<rparr>
     in case call_handle c of
          None \<Rightarrow> (r, s1)
        | Some (k, None) \<Rightarrow>
            if rp_status r = ADBC_STATUS_OK \<and> \<not> is_release c then
              (r\<lparr>rp_handle := Some (fresh_id (allocated s))\<rparr>,
               s1\<lparr>allocated := (k, fresh_id (allocated s)) # allocated s\<rparr>)
            else (r\<lparr>rp_handle := None\<rparr>, s1)
        | Some (k, Some d) \<Rightarrow>
            if is_release c then
              (r\<lparr>rp_handle := None\<rparr>, s1\<lparr>allocated := filter (\<lambda>x. x \<noteq> (k, d)) (allocated s)\<rparr>)
            else (r\<lparr>rp_handle := Some d\<rparr>, s1))"

lemma fresh_id_notin: "(k, fresh_id l) \<notin> set l"
proof
  assume "(k, fresh_id l) \<in> set l"
  then have "fresh_id l \<in> set (map snd l)" by force
  then have "fresh_id l \<le> sum_list (map snd l)" by (simp add: member_le_sum_list)
  then show False by (simp add: fresh_id_def)
qed

lemma scripted_contract: "handle_contract scripted (set \<circ> allocated)"
  unfolding handle_contract_def
  by (auto simp: scripted_def Let_def fresh_id_notin split: option.splits list.splits)

end
