(* ===== verification/Connection_Pool.thy ===== *)
theory Connection_Pool
  imports Adbc_Util
begin

text \<open>
  src/adbc\_connection\_pool.cpp and its header: the pool of ADBC connections an attached catalog
  keeps.  Every operation runs under the pool's mutex, so it is one atomic function of the pool
  and the world; the interleavings of several threads are the sequences of operations.
\<close>

section \<open>The pool and its leases\<close>

record pool =
  active_connections :: idx_t
  pool_uri :: string
  max_connections :: idx_t
  connections :: "adbc_connection list"

text \<open>
  An \<open>AdbcPooledConnection\<close> as constructed.  Its \<open>pool\<close> pointer is null exactly when it is
  ephemeral, so it is not a field of its own.
\<close>

record pooled =
  conn :: adbc_connection
  ephemeral :: bool

definition AdbcConnectionPool_new :: "string \<Rightarrow> idx_t \<Rightarrow> pool" where
  "AdbcConnectionPool_new uri limit =
     \<lparr>active_connections = 0, pool_uri = uri, max_connections = limit, connections = []\<rparr>"

definition GetEphemeralConnection :: "'w adbc \<Rightarrow> string \<Rightarrow> ('w, pooled) io" where
  "GetEphemeralConnection adbc uri w =
     (case AdbcConnection_new adbc uri w of
        (Inl e, w') \<Rightarrow> (Inl e, w')
      | (Inr c, w') \<Rightarrow> (Inr \<lparr>conn = c, ephemeral = True\<rparr>, w'))"

text \<open>The end of \<open>GetConnection\<close>: the last available connection is handed out.\<close>

definition take_connection :: "pool \<Rightarrow> pooled \<times> pool" where
  "take_connection p =
     (\<lparr>conn = last (connections p), ephemeral = False\<rparr>,
      p\<lparr>connections := butlast (connections p), active_connections := active_connections p + 1\<rparr>)"

definition GetConnection :: "'w adbc \<Rightarrow> pool \<Rightarrow> 'w \<Rightarrow> (exn + pooled) \<times> pool \<times> 'w" where
  "GetConnection adbc p w =
     (if connections p = [] then
        if active_connections p = max_connections p then
          (case GetEphemeralConnection adbc (pool_uri p) w of (r, w') \<Rightarrow> (r, p, w'))
        else
          (case AdbcConnection_new adbc (pool_uri p) w of
             (Inl e, w') \<Rightarrow> (Inl e, p, w')
           | (Inr c, w') \<Rightarrow>
               (case take_connection (p\<lparr>connections := connections p @ [c]\<rparr>) of
                  (l, p') \<Rightarrow> (Inr l, p', w')))
      else (case take_connection p of (l, p') \<Rightarrow> (Inr l, p', w)))"

definition ReturnConnection :: "adbc_connection \<Rightarrow> pool \<Rightarrow> pool" where
  "ReturnConnection c p =
     p\<lparr>active_connections := active_connections p - 1, connections := connections p @ [c]\<rparr>"

text \<open>
  The destructor of a lease: a pooled connection goes back, an ephemeral one is closed with the
  \<open>unique_ptr\<close> that owns it.
\<close>

definition AdbcPooledConnection_destroy ::
  "'w adbc \<Rightarrow> pooled \<Rightarrow> pool \<Rightarrow> 'w \<Rightarrow> pool \<times> 'w"
where
  "AdbcPooledConnection_destroy adbc l p w =
     (if \<not> ephemeral l then (ReturnConnection (conn l) p, w)
      else (p, AdbcConnection_destroy adbc (conn l) w))"

text \<open>The pool goes when its last user does: the idle connections are closed.\<close>

definition AdbcConnectionPool_destroy :: "'w adbc \<Rightarrow> pool \<Rightarrow> 'w \<Rightarrow> 'w" where
  "AdbcConnectionPool_destroy adbc p w = fold (AdbcConnection_destroy adbc) (connections p) w"

section \<open>Move construction\<close>

text \<open>
  The move constructor swaps with members that were default-initialised: null pointers and, as
  \<open>bool ephemeral\<close> has no initialiser, an indeterminate flag, which the moved-from object keeps.
\<close>

datatype pooled_object = Owning pooled | MovedFrom bool

definition AdbcPooledConnection_move ::
  "bool \<Rightarrow> pooled_object \<Rightarrow> pooled_object \<times> pooled_object"
where
  "AdbcPooledConnection_move indeterminate other = (other, MovedFrom indeterminate)"

fun pooled_object_destroy ::
  "'w adbc \<Rightarrow> pooled_object \<Rightarrow> pool \<Rightarrow> 'w \<Rightarrow> exn + pool \<times> 'w"
where
  "pooled_object_destroy adbc (Owning l) p w = Inr (AdbcPooledConnection_destroy adbc l p w)"
| "pooled_object_destroy adbc (MovedFrom eph) p w =
     (if \<not> eph then Inl NullDereference else Inr (p, w))"

section \<open>Invariants\<close>

definition pooled_leases :: "pooled list \<Rightarrow> nat" where
  "pooled_leases ls = length (filter (\<lambda>l. \<not> ephemeral l) ls)"

text \<open>
  The capacity invariant: the counter is the number of pooled leases, and with the idle
  connections they are at most \<open>max_connections\<close>.
\<close>

definition pool_bounded :: "idx_t \<Rightarrow> pooled list \<Rightarrow> pool \<Rightarrow> bool" where
  "pool_bounded limit ls p \<longleftrightarrow>
     max_connections p = limit \<and>
     unat (active_connections p) = pooled_leases ls \<and>
     unat (active_connections p) + length (connections p) \<le> unat (max_connections p)"

text \<open>How many of some connections own an object.\<close>

definition owners :: "hkind \<times> nat \<Rightarrow> adbc_connection list \<Rightarrow> nat" where
  "owners x cs = length (filter (\<lambda>c. x \<in> owned c) cs)"

text \<open>
  The ownership invariant: what is allocated beyond \<open>L0\<close> belongs to exactly one connection, idle
  or leased, and nothing else does.
\<close>

definition pool_exclusive ::
  "('w \<Rightarrow> (hkind \<times> nat) set) \<Rightarrow> (hkind \<times> nat) set \<Rightarrow> pooled list \<Rightarrow> pool \<Rightarrow> 'w \<Rightarrow> bool"
where
  "pool_exclusive live L0 ls p w \<longleftrightarrow>
     L0 \<subseteq> live w \<and>
     (\<forall>x. owners x (connections p @ map conn ls) = (if x \<in> live w - L0 then 1 else 0))"

lemma owners_simps [simp]:
  "owners x [] = 0"
  "owners x (c # cs) = (if x \<in> owned c then 1 else 0) + owners x cs"
  "owners x (as @ bs) = owners x as + owners x bs"
  by (simp_all add: owners_def)

lemma owners_butlast:
  "cs \<noteq> [] \<Longrightarrow> owners x (butlast cs) + owners x [last cs] = owners x cs"
  by (metis append_butlast_last_id owners_simps(3))

lemma owners_remove1:
  "l \<in> set ls \<Longrightarrow> owners x (map conn ls) = owners x [conn l] + owners x (map conn (remove1 l ls))"
  by (induction ls) (auto simp: owners_def)

lemma pooled_leases_simps [simp]:
  "pooled_leases [] = 0"
  "pooled_leases (l # ls) = (if ephemeral l then 0 else 1) + pooled_leases ls"
  by (simp_all add: pooled_leases_def)

lemma pooled_leases_remove1:
  "l \<in> set ls \<Longrightarrow> pooled_leases ls = pooled_leases [l] + pooled_leases (remove1 l ls)"
  by (induction ls) (auto simp: pooled_leases_def)

lemma AdbcConnection_new_cases:
  assumes "AdbcConnection_new adbc uri w = (r, w')"
  obtains e where "r = Inl e" | c where "r = Inr c"
  using that by (cases r) auto

lemma GetConnection_bounded [adbc_inv]:
  assumes "pool_bounded limit ls p" and "GetConnection adbc p w = (r, p', w')"
  shows "case r of Inl _ \<Rightarrow> pool_bounded limit ls p' | Inr l \<Rightarrow> pool_bounded limit (l # ls) p'"
proof -
  have neq: "active_connections p \<noteq> max_connections p \<Longrightarrow>
      unat (active_connections p) \<le> unat (max_connections p) \<Longrightarrow>
      unat (active_connections p) < unat (max_connections p)"
    by (simp add: word_unat_eq_iff)
  show ?thesis
    using assms neq unat_inc [of "active_connections p" "max_connections p"]
    by (auto simp: GetConnection_def GetEphemeralConnection_def take_connection_def
        pool_bounded_def length_greater_0_conv [symmetric]
        split: if_splits prod.splits sum.splits simp del: length_greater_0_conv)
qed

lemma destroy_bounded [adbc_inv]:
  assumes "pool_bounded limit ls p" and "l \<in> set ls"
  shows "pool_bounded limit (remove1 l ls) (fst (AdbcPooledConnection_destroy adbc l p w))"
  using assms pooled_leases_remove1 [OF assms(2)] unat_dec [of "active_connections p"]
  by (auto simp: AdbcPooledConnection_destroy_def ReturnConnection_def pool_bounded_def)

text \<open>Handing a connection out or taking it back moves its objects, never copies or drops them.\<close>

lemma take_connection_owners:
  "connections p \<noteq> [] \<Longrightarrow> take_connection p = (l, p') \<Longrightarrow>
   owners x (connections p') + owners x [conn l] = owners x (connections p)"
  using owners_butlast [of "connections p" x] by (auto simp: take_connection_def)

lemma pool_exclusiveD:
  assumes "pool_exclusive live L0 ls p w"
  shows "owners x (connections p) + owners x (map conn ls) = (if x \<in> live w - L0 then 1 else 0)"
    and "L0 \<subseteq> live w"
  using assms unfolding pool_exclusive_def owners_simps(3) by blast+

lemma GetConnection_exclusive [adbc_inv]:
  assumes "handle_contract adbc live" and inv: "pool_exclusive live L0 ls p w"
    and get: "GetConnection adbc p w = (r, p', w')"
  shows "case r of Inl _ \<Rightarrow> pool_exclusive live L0 ls p' w'
       | Inr l \<Rightarrow> pool_exclusive live L0 (l # ls) p' w'"
proof (cases "connections p = []")
  case False
  obtain l q where t: "take_connection p = (l, q)" by fastforce
  with get False have "r = Inr l" "p' = q" "w' = w"
    by (simp_all add: GetConnection_def)
  with inv take_connection_owners [OF False t] show ?thesis
    by (simp add: pool_exclusive_def add.assoc [symmetric])
next
  case True
  obtain r0 w0 where new: "AdbcConnection_new adbc (pool_uri p) w = (r0, w0)" by fastforce
  have live: "case r0 of Inl _ \<Rightarrow> live w0 = live w
       | Inr c \<Rightarrow> live w0 = live w \<union> owned c \<and> owned c \<inter> live w = {}"
    by (rule AdbcConnection_new_live [OF assms(1) new])
  show ?thesis
  proof (cases r0)
    case (Inl e)
    with get new True have "r = Inl e" "p' = p" "w' = w0"
      by (auto simp: GetConnection_def GetEphemeralConnection_def split: if_splits)
    with inv live Inl show ?thesis by (simp add: pool_exclusive_def)
  next
    case (Inr c)
    with get new True have "\<exists>l. r = Inr l \<and> conn l = c \<and> connections p' = [] \<and> w' = w0"
      by (auto simp: GetConnection_def GetEphemeralConnection_def take_connection_def
          split: if_splits)
    with inv live Inr True show ?thesis
      by (auto simp: pool_exclusive_def)
  qed
qed

lemma destroy_exclusive [adbc_inv]:
  assumes "handle_contract adbc live" and inv: "pool_exclusive live L0 ls p w" and "l \<in> set ls"
    and d: "AdbcPooledConnection_destroy adbc l p w = (p', w')"
  shows "pool_exclusive live L0 (remove1 l ls) p' w'"
proof (cases "ephemeral l")
  case False
  with d have "connections p' = connections p @ [conn l]" "w' = w"
    by (auto simp: AdbcPooledConnection_destroy_def ReturnConnection_def)
  with inv owners_remove1 [OF assms(3)] show ?thesis
    by (simp add: pool_exclusive_def add.assoc)
next
  case True
  with d have w': "p' = p" "w' = AdbcConnection_destroy adbc (conn l) w"
    by (auto simp: AdbcPooledConnection_destroy_def)
  have own: "owners x (connections p) + ((if x \<in> owned (conn l) then 1 else 0)
      + owners x (map conn (remove1 l ls))) = (if x \<in> live w - L0 then 1 else 0)" for x
    using pool_exclusiveD(1) [OF inv, of x] owners_remove1 [OF assms(3), of x] by simp
  have sub: "owned (conn l) \<subseteq> live w - L0"
  proof
    fix x assume "x \<in> owned (conn l)"
    with own [of x] show "x \<in> live w - L0" by (simp split: if_splits)
  qed
  then have live: "live w' = live w - owned (conn l)"
    using AdbcConnection_destroy_live [OF assms(1)] w' by auto
  have "owners x (connections p) + owners x (map conn (remove1 l ls))
      = (if x \<in> live w' - L0 then 1 else 0)" for x
    using own [of x] live sub by (auto split: if_splits)
  moreover have "L0 \<subseteq> live w'"
    using inv live sub by (auto simp: pool_exclusive_def)
  ultimately show ?thesis using w' by (simp add: pool_exclusive_def)
qed

section \<open>The interface to the pool's users\<close>

text \<open>
  What users of a pool do: acquire leases, drop them, and, most often, hold one for the length of
  a scope.  A failed acquire is an exception for the caller and leaves the pool usable.
\<close>

datatype lease_event = Acquire | Drop nat

fun lease_step ::
  "('p \<Rightarrow> 'w \<Rightarrow> (exn + 'l) \<times> 'p \<times> 'w) \<Rightarrow> ('l \<Rightarrow> 'p \<Rightarrow> 'w \<Rightarrow> 'p \<times> 'w) \<Rightarrow> lease_event \<Rightarrow>
   'l list \<times> 'p \<times> 'w \<Rightarrow> 'l list \<times> 'p \<times> 'w"
where
  "lease_step acquire drop_lease Acquire (ls, p, w) =
     (case acquire p w of
        (Inl e, p', w') \<Rightarrow> (ls, p', w')
      | (Inr l, p', w') \<Rightarrow> (l # ls, p', w'))"
| "lease_step acquire drop_lease (Drop i) (ls, p, w) =
     (if i < length ls then
        (case drop_lease (ls ! i) p w of (p', w') \<Rightarrow> (remove1 (ls ! i) ls, p', w'))
      else (ls, p, w))"

fun lease_run ::
  "('p \<Rightarrow> 'w \<Rightarrow> (exn + 'l) \<times> 'p \<times> 'w) \<Rightarrow> ('l \<Rightarrow> 'p \<Rightarrow> 'w \<Rightarrow> 'p \<times> 'w) \<Rightarrow> lease_event list \<Rightarrow>
   'l list \<times> 'p \<times> 'w \<Rightarrow> 'l list \<times> 'p \<times> 'w"
where
  "lease_run acquire drop_lease [] s = s"
| "lease_run acquire drop_lease (e # es) s =
     lease_run acquire drop_lease es (lease_step acquire drop_lease e s)"

definition with_lease ::
  "('p \<Rightarrow> 'w \<Rightarrow> (exn + 'l) \<times> 'p \<times> 'w) \<Rightarrow> ('l \<Rightarrow> 'p \<Rightarrow> 'w \<Rightarrow> 'p \<times> 'w) \<Rightarrow>
   ('l \<Rightarrow> ('w, 'a) io) \<Rightarrow> 'p \<Rightarrow> 'w \<Rightarrow> (exn + 'a) \<times> 'p \<times> 'w"
where
  "with_lease acquire drop_lease body p w =
     (case acquire p w of
        (Inl e, p1, w1) \<Rightarrow> (Inl e, p1, w1)
      | (Inr l, p1, w1) \<Rightarrow>
          (case body l w1 of (r, w2) \<Rightarrow> (case drop_lease l p1 w2 of (p3, w3) \<Rightarrow> (r, p3, w3))))"

locale leasing =
  fixes acquire :: "'p \<Rightarrow> 'w \<Rightarrow> (exn + 'l) \<times> 'p \<times> 'w"
    and drop_lease :: "'l \<Rightarrow> 'p \<Rightarrow> 'w \<Rightarrow> 'p \<times> 'w"
    and inv :: "'l list \<Rightarrow> 'p \<Rightarrow> 'w \<Rightarrow> bool"
    and same :: "'w \<Rightarrow> 'w \<Rightarrow> bool"
  assumes acquire_ok: "inv ls p w \<Longrightarrow> acquire p w = (Inr l, p', w') \<Longrightarrow> inv (l # ls) p' w'"
    and acquire_fail: "inv ls p w \<Longrightarrow> acquire p w = (Inl e, p', w') \<Longrightarrow> inv ls p' w'"
    and drop_ok:
      "inv ls p w \<Longrightarrow> l \<in> set ls \<Longrightarrow> drop_lease l p w = (p', w') \<Longrightarrow> inv (remove1 l ls) p' w'"
    and frame: "inv ls p w \<Longrightarrow> same w w' \<Longrightarrow> inv ls p w'"
begin

lemma step_inv:
  assumes "inv ls p w" and "lease_step acquire drop_lease e (ls, p, w) = (ls', p', w')"
  shows "inv ls' p' w'"
proof (cases e)
  case Acquire
  with assms show ?thesis
    by (auto split: prod.splits sum.splits dest: acquire_ok acquire_fail)
next
  case (Drop i)
  with assms show ?thesis
    by (auto split: prod.splits if_splits dest: drop_ok [OF _ nth_mem])
qed

lemma run_inv:
  "inv ls p w \<Longrightarrow> lease_run acquire drop_lease es (ls, p, w) = (ls', p', w') \<Longrightarrow> inv ls' p' w'"
proof (induction es arbitrary: ls p w)
  case Nil
  then show ?case by simp
next
  case (Cons e es)
  obtain ls1 p1 w1 where s: "lease_step acquire drop_lease e (ls, p, w) = (ls1, p1, w1)"
    by (metis prod_cases3)
  with Cons show ?case using step_inv [OF Cons.prems(1) s] by simp
qed

text \<open>A scoped use gives the pool back as it found it, whether its body returns or throws.\<close>

lemma with_lease_inv:
  assumes "inv ls p w" and "with_lease acquire drop_lease body p w = (r, p', w')"
    and body: "\<And>l p1 w1 r w2. inv (l # ls) p1 w1 \<Longrightarrow> body l w1 = (r, w2) \<Longrightarrow> same w1 w2"
  shows "inv ls p' w'"
proof -
  obtain r1 p1 w1 where acq: "acquire p w = (r1, p1, w1)" by (metis prod_cases3)
  show ?thesis
  proof (cases r1)
    case (Inl e)
    with assms(1,2) acq show ?thesis by (auto simp: with_lease_def dest: acquire_fail)
  next
    case (Inr l)
    have inv1: "inv (l # ls) p1 w1" using assms(1) acq Inr by (auto dest: acquire_ok)
    obtain r2 w2 where b: "body l w1 = (r2, w2)" by fastforce
    have inv2: "inv (l # ls) p1 w2" using frame [OF inv1 body [OF inv1 b]] .
    obtain p3 w3 where d: "drop_lease l p1 w2 = (p3, w3)" by fastforce
    have "inv ls p3 w3" using drop_ok [OF inv2 _ d] by simp
    with assms(2) acq Inr b d show ?thesis by (simp add: with_lease_def)
  qed
qed

end

interpretation capacity: leasing "GetConnection adbc" "AdbcPooledConnection_destroy adbc"
  "\<lambda>ls p w. pool_bounded limit ls p" "\<lambda>w w'. True"
  for adbc :: "'w adbc" and limit
proof unfold_locales
  fix ls p and w :: 'w and l p' w'
  show "pool_bounded limit ls p \<Longrightarrow> GetConnection adbc p w = (Inr l, p', w') \<Longrightarrow> pool_bounded limit (l # ls) p'"
    using GetConnection_bounded by fastforce
next
  fix ls p and w :: 'w and e p' w'
  show "pool_bounded limit ls p \<Longrightarrow> GetConnection adbc p w = (Inl e, p', w') \<Longrightarrow> pool_bounded limit ls p'"
    using GetConnection_bounded by fastforce
next
  fix ls p and w :: 'w and l p' w'
  assume "pool_bounded limit ls p" "l \<in> set ls" "AdbcPooledConnection_destroy adbc l p w = (p', w')"
  then show "pool_bounded limit (remove1 l ls) p'" using destroy_bounded [of limit ls p l adbc w] by simp
qed

definition pool_inv ::
  "'w adbc \<Rightarrow> ('w \<Rightarrow> (hkind \<times> nat) set) \<Rightarrow> (hkind \<times> nat) set \<Rightarrow> pooled list \<Rightarrow> pool \<Rightarrow> 'w \<Rightarrow> bool"
where
  "pool_inv adbc live L0 ls p w \<longleftrightarrow>
     handle_contract adbc live \<and> pool_exclusive live L0 ls p w"

interpretation ownership: leasing "GetConnection adbc" "AdbcPooledConnection_destroy adbc"
  "pool_inv adbc live L0" "\<lambda>w w'. live w' = live w"
  for adbc :: "'w adbc" and live L0
proof unfold_locales
  fix ls p and w :: 'w and l p' w'
  show "pool_inv adbc live L0 ls p w \<Longrightarrow> GetConnection adbc p w = (Inr l, p', w') \<Longrightarrow>
      pool_inv adbc live L0 (l # ls) p' w'"
    using GetConnection_exclusive [of adbc live L0 ls p w "Inr l" p' w'] by (simp add: pool_inv_def)
next
  fix ls p and w :: 'w and e p' w'
  show "pool_inv adbc live L0 ls p w \<Longrightarrow> GetConnection adbc p w = (Inl e, p', w') \<Longrightarrow>
      pool_inv adbc live L0 ls p' w'"
    using GetConnection_exclusive [of adbc live L0 ls p w "Inl e" p' w'] by (simp add: pool_inv_def)
next
  fix ls p and w :: 'w and l p' w'
  assume "pool_inv adbc live L0 ls p w" "l \<in> set ls"
    "AdbcPooledConnection_destroy adbc l p w = (p', w')"
  then show "pool_inv adbc live L0 (remove1 l ls) p' w'"
    using destroy_exclusive [of adbc live L0 ls p w l p' w'] by (simp add: pool_inv_def)
next
  fix ls p and w w' :: 'w
  show "pool_inv adbc live L0 ls p w \<Longrightarrow> live w' = live w \<Longrightarrow> pool_inv adbc live L0 ls p w'"
    by (simp add: pool_inv_def pool_exclusive_def)
qed

lemma pool_bounded_new [simp]: "pool_bounded limit [] (AdbcConnectionPool_new uri limit)"
  by (simp add: pool_bounded_def AdbcConnectionPool_new_def)

lemma pool_exclusive_new [simp]:
  "pool_exclusive live (live w) [] (AdbcConnectionPool_new uri limit) w"
  by (simp add: pool_exclusive_def AdbcConnectionPool_new_def)

lemma pool_destroy_live:
  assumes "handle_contract adbc live" and "pool_exclusive live L0 [] p w"
  shows "live (AdbcConnectionPool_destroy adbc p w) = L0"
proof -
  have "live (fold (AdbcConnection_destroy adbc) cs w) = L0"
    if "\<And>x. owners x cs = (if x \<in> live w - L0 then 1 else 0)" and "L0 \<subseteq> live w" for cs w
    using that
  proof (induction cs arbitrary: w)
    case Nil
    have "x \<in> live w \<Longrightarrow> x \<in> L0" for x using Nil.prems(1) [of x] by (auto split: if_splits)
    with Nil.prems(2) show ?case by auto
  next
    case (Cons c cs)
    have sub: "owned c \<subseteq> live w - L0"
    proof
      fix x assume "x \<in> owned c"
      with Cons.prems(1) [of x] show "x \<in> live w - L0" by (simp split: if_splits)
    qed
    then have live: "live (AdbcConnection_destroy adbc c w) = live w - owned c"
      using AdbcConnection_destroy_live [OF assms(1)] by auto
    have "owners x cs = (if x \<in> live (AdbcConnection_destroy adbc c w) - L0 then 1 else 0)" for x
      using Cons.prems(1) [of x] live sub by (auto split: if_splits)
    moreover have "L0 \<subseteq> live (AdbcConnection_destroy adbc c w)"
      using Cons.prems(2) live sub by auto
    ultimately show ?case using Cons.IH by simp
  qed
  then show ?thesis
    using assms(2) pool_exclusiveD [OF assms(2)]
    by (simp add: AdbcConnectionPool_destroy_def)
qed

section \<open>Properties\<close>

text \<open>
  C6: capacity.  However threads interleave their acquires and drops, the pool's counter is the
  number of pooled connections in use, and in use and idle they are never more than
  \<open>max_connections\<close>; so the counter never wraps and the idle list is bounded.
\<close>

theorem pool_capacity:
  assumes "lease_run (GetConnection adbc) (AdbcPooledConnection_destroy adbc) es
     ([], AdbcConnectionPool_new uri limit, w) = (ls, p, w')"
  shows "unat (active_connections p) = pooled_leases ls \<and>
     pooled_leases ls + length (connections p) \<le> unat limit"
  using capacity.run_inv [OF pool_bounded_new assms] by (auto simp: pool_bounded_def)

theorem pool_capacity_witness:
  "\<exists>ls p w'. lease_run (GetConnection scripted) (AdbcPooledConnection_destroy scripted)
      [Acquire, Acquire, Drop 0] ([], AdbcConnectionPool_new ''uri'' 1,
        \<lparr>allocated = [], replies = [], calls = []\<rparr>) = (ls, p, w') \<and>
     unat (active_connections p) = pooled_leases ls \<and>
     pooled_leases ls + length (connections p) \<le> 1"
proof -
  obtain ls p w' where run: "lease_run (GetConnection scripted) (AdbcPooledConnection_destroy scripted)
      [Acquire, Acquire, Drop 0] ([], AdbcConnectionPool_new ''uri'' 1,
        \<lparr>allocated = [], replies = [], calls = []\<rparr>) = (ls, p, w')"
    by (metis prod_cases3)
  with pool_capacity [OF run] show ?thesis by auto
qed

text \<open>
  C5: exclusive ownership.  Over any API that keeps the handle contract, in every state the
  pool's users can reach each allocated database or connection handle belongs to exactly one of
  the idle connections and leases: no connection is lent twice, none is both idle and lent, and
  none is leaked, also where opening one fails halfway.
\<close>

theorem pool_exclusive_ownership:
  assumes "handle_contract adbc live"
    and "lease_run (GetConnection adbc) (AdbcPooledConnection_destroy adbc) es
       ([], AdbcConnectionPool_new uri limit, w) = (ls, p, w')"
  shows "owners x (connections p @ map conn ls) = (if x \<in> live w' - live w then 1 else 0) \<and>
     live w \<subseteq> live w'"
proof -
  have "pool_inv adbc live (live w) [] (AdbcConnectionPool_new uri limit) w"
    using assms(1) by (simp add: pool_inv_def)
  then have "pool_inv adbc live (live w) ls p w'"
    by (rule ownership.run_inv [OF _ assms(2)])
  then show ?thesis unfolding pool_inv_def pool_exclusive_def by blast
qed

theorem pool_exclusive_ownership_witness:
  "\<exists>ls p w'. lease_run (GetConnection scripted) (AdbcPooledConnection_destroy scripted)
      [Acquire, Acquire, Acquire, Drop 1] ([], AdbcConnectionPool_new ''uri'' 1,
        \<lparr>allocated = [], replies = [ok_reply, ok_reply, fail_reply ADBC_STATUS_IO ''no''],
         calls = []\<rparr>) = (ls, p, w') \<and>
     owners (Conn, 3) (connections p @ map conn ls)
       = (if (Conn, 3) \<in> set (allocated w') then 1 else 0)"
proof -
  let ?w = "\<lparr>allocated = [], replies = [ok_reply, ok_reply, fail_reply ADBC_STATUS_IO ''no''],
    calls = []\<rparr>"
  obtain ls p w' where run: "lease_run (GetConnection scripted) (AdbcPooledConnection_destroy scripted)
      [Acquire, Acquire, Acquire, Drop 1] ([], AdbcConnectionPool_new ''uri'' 1, ?w) = (ls, p, w')"
    by (metis prod_cases3)
  with pool_exclusive_ownership [OF scripted_contract run, of "(Conn, 3)"] show ?thesis by auto
qed

text \<open>
  shutdown.  Once every lease has been dropped, destroying the pool closes every connection
  it ever opened: what is allocated is what was allocated before the pool existed.
\<close>

theorem pool_shutdown_no_leak:
  assumes "handle_contract adbc live"
    and "lease_run (GetConnection adbc) (AdbcPooledConnection_destroy adbc) es
       ([], AdbcConnectionPool_new uri limit, w) = ([], p, w')"
  shows "live (AdbcConnectionPool_destroy adbc p w') = live w"
proof -
  have "pool_inv adbc live (live w) [] (AdbcConnectionPool_new uri limit) w"
    using assms(1) by (simp add: pool_inv_def)
  then have "pool_inv adbc live (live w) [] p w'"
    by (rule ownership.run_inv [OF _ assms(2)])
  with assms(1) show ?thesis by (simp add: pool_inv_def pool_destroy_live)
qed

lemma pool_shutdown_example:
  "lease_run (GetConnection scripted) (AdbcPooledConnection_destroy scripted) [Acquire, Drop 0]
     ([], AdbcConnectionPool_new ''uri'' 2, \<lparr>allocated = [], replies = [], calls = []\<rparr>)
   = ([], \<lparr>active_connections = 0, pool_uri = ''uri'', max_connections = 2,
           connections = [\<lparr>database = Some 1, connection = Some 2\<rparr>]\<rparr>,
      \<lparr>allocated = [(Conn, 2), (Db, 1)], replies = [],
       calls = [DatabaseNew, DatabaseSetOption (Some 1) ''uri'' ''uri'',
         DatabaseSetLoadFlags (Some 1) ADBC_LOAD_FLAG_DEFAULT, DatabaseInit (Some 1),
         ConnectionNew, ConnectionInit (Some 2) (Some 1)]\<rparr>)"
  by (simp add: GetConnection_def AdbcConnectionPool_new_def AdbcConnection_new_def scripted_def
      take_connection_def AdbcPooledConnection_destroy_def ReturnConnection_def ok_reply_def
      fresh_id_def Let_def)

theorem pool_shutdown_no_leak_witness:
  "\<exists>p w'. lease_run (GetConnection scripted) (AdbcPooledConnection_destroy scripted) [Acquire, Drop 0]
     ([], AdbcConnectionPool_new ''uri'' 2, \<lparr>allocated = [], replies = [], calls = []\<rparr>) = ([], p, w') \<and>
     set (allocated w') \<noteq> {} \<and>
     set (allocated (AdbcConnectionPool_destroy scripted p w')) = {}"
  using pool_shutdown_no_leak [OF scripted_contract pool_shutdown_example] pool_shutdown_example
  by auto

text \<open>
  When a lease is ephemeral.  A request that succeeds gets an ephemeral connection exactly
  when none is idle and all \<open>max_connections\<close> pooled ones are in use, and then it leaves the pool
  as it is; and a returned connection is the next one handed out, without any call of the API.
\<close>

theorem ephemeral_only_when_exhausted:
  assumes "pool_bounded limit ls p" and "GetConnection adbc p w = (Inr l, p', w')"
  shows "(ephemeral l \<longleftrightarrow> connections p = [] \<and> pooled_leases ls = unat limit) \<and>
     (ephemeral l \<longrightarrow> p' = p) \<and>
     GetConnection adbc (ReturnConnection c p) w0 = (Inr \<lparr>conn = c, ephemeral = False\<rparr>, p, w0)"
  using assms
  by (auto simp: GetConnection_def GetEphemeralConnection_def take_connection_def
      pool_bounded_def ReturnConnection_def word_unat_eq_iff
      split: if_splits prod.splits sum.splits)

theorem ephemeral_only_when_exhausted_witness:
  "\<exists>l p' w'. GetConnection scripted (AdbcConnectionPool_new ''uri'' 0)
      \<lparr>allocated = [], replies = [], calls = []\<rparr> = (Inr l, p', w') \<and> ephemeral l"
proof -
  let ?p = "AdbcConnectionPool_new ''uri'' 0"
  let ?w = "\<lparr>allocated = [], replies = [], calls = []\<rparr>"
  obtain l p' w' where get: "GetConnection scripted ?p ?w = (Inr l, p', w')"
    by (simp add: GetConnection_def GetEphemeralConnection_def AdbcConnectionPool_new_def
        AdbcConnection_new_def scripted_def ok_reply_def Let_def)
  with ephemeral_only_when_exhausted [OF pool_bounded_new get]
  show ?thesis by (simp add: AdbcConnectionPool_new_def)
qed

end
