(* ===== verification/Insert_Buffer.thy ===== *)
theory Insert_Buffer
  imports Connection_Pool
begin

text \<open>
  src/adbc\_insert.cpp, the sequential part: the global sink state, the bodies of the critical
  sections of \<open>Sink\<close>, of the stream's \<open>get_next\<close> and \<open>release\<close>, of \<open>Finalize\<close> and of the
  destructor, the calls that create the table and that insert, and the contract of the row buffer
  as a locale.  Insert\_Protocol runs the two threads over these bodies.

  DuckDB's ColumnDataCollection is not part of the repository.  \<open>layout\<close> stands for it: the chunks
  a scan yields, as a function of the chunks appended since the last reset.  Its documented
  behaviour is \<open>layout_law\<close>: a scan yields the appended rows in order, in no more chunks than
  were appended (a chunk that is not full is filled up by the next append).
\<close>

definition layout_law :: "('r list list \<Rightarrow> 'r list list) \<Rightarrow> bool" where
  "layout_law layout \<longleftrightarrow> (\<forall>cs. concat (layout cs) = concat cs \<and> length (layout cs) \<le> length cs)"

lemma layout_lawD [dest]:
  "layout_law layout \<Longrightarrow> concat (layout cs) = concat cs"
  "layout_law layout \<Longrightarrow> length (layout cs) \<le> length cs"
  by (simp_all add: layout_law_def)

lemma layout_law_id [simp]: "layout_law (\<lambda>cs. cs)"
  by (simp add: layout_law_def)

section \<open>The global sink state\<close>

text \<open>\<open>collection\<close> lists the chunks appended since the collection was last reset.\<close>

record 'r gstate =
  is_done :: bool
  canceled :: bool
  full :: bool
  first_insert :: bool
  materialize_input :: bool
  max_chunks :: int
  active_chunks :: int
  ins_message :: "string option"
  ins_status :: status
  insert_count :: idx_t
  rows_affected :: "64 word"
  collection :: "'r list list"

definition AdbcInsertGlobalState_new :: "bool \<Rightarrow> int \<Rightarrow> 'r gstate" where
  "AdbcInsertGlobalState_new materialize limit =
     \<lparr>is_done = False, canceled = False, full = False, first_insert = True,
      materialize_input = materialize, max_chunks = limit, active_chunks = 0,
      ins_message = None, ins_status = ADBC_STATUS_OK, insert_count = 0, rows_affected = 0,
      collection = []\<rparr>"

text \<open>The destructor's flags; it then notifies both sides and joins the insert thread.\<close>

definition AdbcInsertGlobalState_destroy_flags :: "'r gstate \<Rightarrow> 'r gstate" where
  "AdbcInsertGlobalState_destroy_flags g = g\<lparr>canceled := True, is_done := True\<rparr>"

section \<open>Sink\<close>

datatype sink_result = NEED_MORE_INPUT | FINISHED

text \<open>The first call starts the insert thread; \<open>first_chunk\<close> is local to the call.\<close>

definition Sink_launch :: "'r gstate \<Rightarrow> bool \<times> 'r gstate" where
  "Sink_launch g = (if first_insert g then (True, g\<lparr>first_insert := False\<rparr>) else (False, g))"

definition producer_ready :: "'r gstate \<Rightarrow> bool" where
  "producer_ready g \<longleftrightarrow> \<not> full g \<or> is_done g"

text \<open>
  The rest of the critical section.  \<open>used_bytes\<close> measures the collection, \<open>free_bytes\<close> is the
  reservation the memory manager grants at this moment.
\<close>

definition Sink_body ::
  "('r list list \<Rightarrow> nat) \<Rightarrow> nat \<Rightarrow> bool \<Rightarrow> 'r list \<Rightarrow> 'r gstate \<Rightarrow> sink_result \<times> 'r gstate"
where
  "Sink_body used_bytes free_bytes first_chunk chunk g =
     (if canceled g then (FINISHED, g)
      else
        let g1 = g\<lparr>collection := collection g @ [chunk],
                   insert_count := insert_count g + of_nat (length chunk),
                   active_chunks := active_chunks g + 1\<rparr>;
            exhausted_memory = (2 * used_bytes (collection g1) \<ge> free_bytes);
            hit_chunk_limit = (active_chunks g1 \<ge> max_chunks g1)
        in (NEED_MORE_INPUT,
            if \<not> materialize_input g1 \<and> (first_chunk \<or> exhausted_memory \<or> hit_chunk_limit)
            then g1\<lparr>full := True\<rparr> else g1))"

section \<open>The stream over the buffer\<close>

text \<open>What one \<open>get_next\<close> leaves in the output array: a batch, or the released end-of-stream.\<close>

datatype 'r arrow_out = Batch "'r list" | EndOfStream

definition consumer_ready :: "'r gstate \<Rightarrow> bool" where
  "consumer_ready g \<longleftrightarrow> full g \<or> is_done g"

definition get_next_body ::
  "('r list list \<Rightarrow> 'r list list) \<Rightarrow> nat \<Rightarrow> 'r gstate \<Rightarrow> 'r arrow_out \<times> nat \<times> 'r gstate"
where
  "get_next_body layout pos g =
     (let chunks = layout (collection g) in
      if pos < length chunks then
        (Batch (chunks ! pos), Suc pos, g\<lparr>active_chunks := active_chunks g - 1\<rparr>)
      else
        let out = (if is_done g then EndOfStream else Batch []) in
        if full g then (out, 0, g\<lparr>full := False, collection := []\<rparr>)
        else (out, pos, g))"

definition ECANCELED :: int where [simp]: "ECANCELED = 125"

definition get_next_return :: "'r gstate \<Rightarrow> int" where
  "get_next_return g = (if canceled g then ECANCELED else 0)"

definition stream_release :: "'r gstate \<Rightarrow> 'r gstate" where
  "stream_release g = g\<lparr>is_done := True\<rparr>"

section \<open>Finalize and the operator's output\<close>

definition Finalize_signal :: "'r gstate \<Rightarrow> 'r gstate" where
  "Finalize_signal g = g\<lparr>is_done := True\<rparr>"

text \<open>
  The checks after the join: the status, then the number of rows, where the signed count of the
  driver is cast to unsigned for the comparison.
\<close>

definition row_count_message :: "idx_t \<Rightarrow> 64 word \<Rightarrow> string" where
  "row_count_message expected got =
     ''Row count mismatch: expected '' @ nat_to_string (unat expected) @
     '', got '' @ int_to_string (sint got)"

definition Finalize_check :: "'r gstate \<Rightarrow> exn + unit" where
  "Finalize_check g =
     (if ins_status g \<noteq> ADBC_STATUS_OK then Inl (IOException (AdbcToString (ins_message g)))
      else if rows_affected g \<noteq> -1 \<and> rows_affected g \<noteq> insert_count g then
        Inl (IOException (row_count_message (insert_count g) (rows_affected g)))
      else Inr ())"

definition GetDataInternal :: "'r gstate \<Rightarrow> int" where
  "GetDataInternal g = sint (insert_count g)"

datatype insert_mode = APPEND | CTAS

definition GetName :: "insert_mode \<Rightarrow> string" where
  "GetName m = (case m of APPEND \<Rightarrow> ''INSERT'' | CTAS \<Rightarrow> ''CREATE_TABLE_AS'')"

definition ParamsToString :: "string \<Rightarrow> string \<Rightarrow> (string \<times> string) list" where
  "ParamsToString schema_name table_name = [(''Table'', schema_name @ ''.'' @ table_name)]"

section \<open>The calls on the C API\<close>

record adbc_insert =
  column_types :: "string list"
  column_names :: "string list"
  ins_table :: string
  ins_schema :: string
  mode :: insert_mode

definition target_options :: "adbc_insert \<Rightarrow> (hnd \<Rightarrow> adbc_call) list" where
  "target_options op =
     (if ins_schema op \<noteq> [] then
        [\<lambda>s. StatementSetOption s ''adbc.ingest.target_db_schema'' (ins_schema op)] else []) @
     [\<lambda>s. StatementSetOption s ''adbc.ingest.target_table'' (ins_table op)]"

definition CTAS_calls :: "adbc_insert \<Rightarrow> hnd \<Rightarrow> (hnd \<Rightarrow> adbc_call) list" where
  "CTAS_calls op c =
     (\<lambda>s. StatementNew c) # target_options op @
     [\<lambda>s. StatementBindStream s (SchemaOnly (zip (column_names op) (column_types op))),
      \<lambda>s. StatementExecuteQuery s False]"

definition AsyncInsert_calls :: "adbc_insert \<Rightarrow> hnd \<Rightarrow> (hnd \<Rightarrow> adbc_call) list" where
  "AsyncInsert_calls op c =
     (\<lambda>s. StatementNew c) #
     (\<lambda>s. StatementSetOption s ''adbc.ingest.mode'' ''adbc.ingest.mode.append'') #
     target_options op @
     [\<lambda>s. StatementBindStream s InsertBuffer, \<lambda>s. StatementExecuteQuery s False]"

text \<open>
  \<open>GetGlobalSinkState\<close>: a connection is leased, and a CTAS creates the table with an empty
  stream.  An exception destroys the statement and the state, which drops the lease.
\<close>

definition GetGlobalSinkState ::
  "'w adbc \<Rightarrow> adbc_insert \<Rightarrow> bool \<Rightarrow> int \<Rightarrow> pool \<Rightarrow> 'w \<Rightarrow>
   (exn + pooled \<times> 'r gstate) \<times> pool \<times> 'w"
where
  "GetGlobalSinkState adbc op materialize limit p w =
     (case GetConnection adbc p w of
        (Inl e, p1, w1) \<Rightarrow> (Inl e, p1, w1)
      | (Inr l, p1, w1) \<Rightarrow>
          if mode op = CTAS then
            (case handle_calls IOException adbc (CTAS_calls op (connection (conn l))) None w1 of
               (res, s, w2) \<Rightarrow>
                 (case res of
                    Inr _ \<Rightarrow>
                      (Inr (l, AdbcInsertGlobalState_new materialize limit), p1,
                       release_statement adbc s w2)
                  | Inl e \<Rightarrow>
                      (case AdbcPooledConnection_destroy adbc l p1 (release_statement adbc s w2) of
                         (p3, w3) \<Rightarrow> (Inl e, p3, w3))))
          else (Inr (l, AdbcInsertGlobalState_new materialize limit), p1, w1))"

lemma CTAS_calls_tl:
  "c \<in> set (tl (CTAS_calls op h0)) \<Longrightarrow> call_handle (c h) = Some (Stmt, h)"
  by (auto simp: CTAS_calls_def target_options_def split: if_splits)

lemma CTAS_live:
  assumes "handle_contract adbc live"
    and "handle_calls IOException adbc (CTAS_calls op h0) None w1 = (res, s, w2)"
  shows "live (release_statement adbc s w2) = live w1"
proof -
  have calls: "CTAS_calls op h0 = (\<lambda>s. StatementNew h0) # tl (CTAS_calls op h0)"
    by (simp add: CTAS_calls_def)
  have "exchanges Stmt None s (live w1) (live w2)"
    by (rule handle_calls_New_exchanges [OF assms(1), of "\<lambda>s. StatementNew h0" Stmt
          "tl (CTAS_calls op h0)" IOException])
      (use assms(2) calls in \<open>auto dest: CTAS_calls_tl\<close>)
  then show ?thesis
    using release_live(3) [OF assms(1), of s w2] by (auto simp: exchanges_def)
qed

lemma GetGlobalSinkState_inv:
  assumes "pool_inv adbc live L0 ls p w"
    and "GetGlobalSinkState adbc op materialize limit p w = (r, p', w')"
  shows "case r of Inl _ \<Rightarrow> pool_inv adbc live L0 ls p' w'
       | Inr (l, g) \<Rightarrow> pool_inv adbc live L0 (l # ls) p' w'"
proof -
  have contract: "handle_contract adbc live" using assms(1) by (simp add: pool_inv_def)
  obtain r1 p1 w1 where get: "GetConnection adbc p w = (r1, p1, w1)" by (metis prod_cases3)
  show ?thesis
  proof (cases r1)
    case (Inl e)
    with assms get ownership.acquire_fail show ?thesis by (auto simp: GetGlobalSinkState_def)
  next
    case (Inr l)
    have inv: "pool_inv adbc live L0 (l # ls) p1 w1"
      by (rule ownership.acquire_ok [OF assms(1) get [unfolded Inr]])
    obtain res s w2 where calls:
      "handle_calls IOException adbc (CTAS_calls op (connection (conn l))) None w1 = (res, s, w2)"
      by (metis prod_cases3)
    have inv2: "pool_inv adbc live L0 (l # ls) p1 (release_statement adbc s w2)"
      by (rule ownership.frame [OF inv CTAS_live [OF contract calls]])
    obtain p3 w3 where drop:
      "AdbcPooledConnection_destroy adbc l p1 (release_statement adbc s w2) = (p3, w3)"
      by fastforce
    have "pool_inv adbc live L0 ls p3 w3"
      using ownership.drop_ok [OF inv2 _ drop] by simp
    with assms(2) get Inr calls drop inv inv2 show ?thesis
      by (auto simp: GetGlobalSinkState_def split: if_splits sum.splits)
  qed
qed

section \<open>The contract of the row buffer\<close>

text \<open>
  A buffer between a producer and a consumer: rows are put in while the buffer accepts, and taken
  out in batches, None when it is drained.  Once the buffer is closing every batch leaves less of
  it.  \<open>drain\<close> takes until None.
\<close>

primrec drain :: "('b \<Rightarrow> 'r list option \<times> 'b) \<Rightarrow> nat \<Rightarrow> 'b \<Rightarrow> 'r list option" where
  "drain take_rows 0 b = None"
| "drain take_rows (Suc n) b =
     (case take_rows b of
        (None, _) \<Rightarrow> Some []
      | (Some rows, b') \<Rightarrow> map_option (\<lambda>rest. rows @ rest) (drain take_rows n b'))"

locale row_buffer =
  fixes put :: "'r list \<Rightarrow> 'b \<Rightarrow> 'b"
    and take_rows :: "'b \<Rightarrow> 'r list option \<times> 'b"
    and contents :: "'b \<Rightarrow> 'r list"
    and valid :: "'b \<Rightarrow> bool"
    and accepts :: "'b \<Rightarrow> bool"
    and closing :: "'b \<Rightarrow> bool"
    and size_left :: "'b \<Rightarrow> nat"
  assumes put_ok: "valid b \<Longrightarrow> accepts b \<Longrightarrow> valid (put rows b) \<and> contents (put rows b) = contents b @ rows"
    and take_Some: "valid b \<Longrightarrow> take_rows b = (Some rows, b') \<Longrightarrow> valid b' \<and> contents b = rows @ contents b'"
    and take_None: "valid b \<Longrightarrow> take_rows b = (None, b') \<Longrightarrow> valid b' \<and> contents b = [] \<and> contents b' = []"
    and take_closing: "valid b \<Longrightarrow> closing b \<Longrightarrow> take_rows b = (Some rows, b') \<Longrightarrow>
      closing b' \<and> size_left b' < size_left b"
begin

lemma drain_total:
  "valid b \<Longrightarrow> closing b \<Longrightarrow> size_left b < n \<Longrightarrow> drain take_rows n b = Some (contents b)"
proof (induction n arbitrary: b)
  case 0
  then show ?case by simp
next
  case (Suc n)
  obtain r b' where t: "take_rows b = (r, b')" by fastforce
  show ?case
  proof (cases r)
    case None
    with t Suc.prems take_None show ?thesis by simp
  next
    case (Some rows)
    with t Suc take_closing [of b rows b'] take_Some [of b rows b'] show ?thesis by simp
  qed
qed

end

text \<open>
  The buffer of the insert: the collection with the position of the scan over it.  It accepts rows
  only at position 0; a take is one \<open>get_next\<close>, and the state is closing once \<open>done\<close> is set.
\<close>

definition buf_put :: "'r list \<Rightarrow> nat \<times> 'r gstate \<Rightarrow> nat \<times> 'r gstate" where
  "buf_put rows b = (fst b, (snd b)\<lparr>collection := collection (snd b) @ [rows]\<rparr>)"

definition buf_take ::
  "('r list list \<Rightarrow> 'r list list) \<Rightarrow> nat \<times> 'r gstate \<Rightarrow> 'r list option \<times> nat \<times> 'r gstate"
where
  "buf_take layout b =
     (case get_next_body layout (fst b) (snd b) of
        (Batch rows, b') \<Rightarrow> (Some rows, b')
      | (EndOfStream, b') \<Rightarrow> (None, b'))"

definition buf_contents :: "('r list list \<Rightarrow> 'r list list) \<Rightarrow> nat \<times> 'r gstate \<Rightarrow> 'r list" where
  "buf_contents layout b = concat (drop (fst b) (layout (collection (snd b))))"

definition buf_left :: "('r list list \<Rightarrow> 'r list list) \<Rightarrow> nat \<times> 'r gstate \<Rightarrow> nat" where
  "buf_left layout b = length (layout (collection (snd b))) - fst b"

definition buf_valid :: "('r list list \<Rightarrow> 'r list list) \<Rightarrow> nat \<times> 'r gstate \<Rightarrow> bool" where
  "buf_valid layout b \<longleftrightarrow>
     layout_law layout \<and> fst b \<le> length (layout (collection (snd b)))"

lemma layout_Nil: "layout_law layout \<Longrightarrow> layout [] = []"
  using layout_lawD(2) [of layout "[]"] by simp

interpretation insert_buffer: row_buffer buf_put "buf_take layout" "buf_contents layout"
  "buf_valid layout" "\<lambda>b. fst b = 0" "\<lambda>b. is_done (snd b)" "buf_left layout"
  for layout :: "'r list list \<Rightarrow> 'r list list"
proof unfold_locales
  fix b :: "nat \<times> 'r gstate" and rows :: "'r list"
  show "buf_valid layout b \<Longrightarrow> fst b = 0 \<Longrightarrow>
      buf_valid layout (buf_put rows b) \<and>
      buf_contents layout (buf_put rows b) = buf_contents layout b @ rows"
    by (simp add: buf_valid_def buf_put_def buf_contents_def layout_lawD)
next
  fix b b' :: "nat \<times> 'r gstate" and rows :: "'r list"
  show "buf_valid layout b \<Longrightarrow> buf_take layout b = (Some rows, b') \<Longrightarrow>
      buf_valid layout b' \<and> buf_contents layout b = rows @ buf_contents layout b'"
    by (auto simp: buf_valid_def buf_take_def buf_contents_def get_next_body_def Let_def
        concat_drop_nth layout_Nil split: if_splits)
next
  fix b b' :: "nat \<times> 'r gstate"
  show "buf_valid layout b \<Longrightarrow> buf_take layout b = (None, b') \<Longrightarrow>
      buf_valid layout b' \<and> buf_contents layout b = [] \<and> buf_contents layout b' = []"
    by (auto simp: buf_valid_def buf_take_def buf_contents_def get_next_body_def Let_def
        layout_Nil split: if_splits)
next
  fix b b' :: "nat \<times> 'r gstate" and rows :: "'r list"
  show "buf_valid layout b \<Longrightarrow> is_done (snd b) \<Longrightarrow> buf_take layout b = (Some rows, b') \<Longrightarrow>
      is_done (snd b') \<and> buf_left layout b' < buf_left layout b"
    by (auto simp: buf_valid_def buf_take_def buf_left_def get_next_body_def Let_def
        split: if_splits)
qed

text \<open>One call of \<open>get_next\<close> as a step of the buffer.\<close>

definition get_next_pull ::
  "('r list list \<Rightarrow> 'r list list) \<Rightarrow> nat \<times> 'r gstate \<Rightarrow> nat \<times> 'r gstate"
where
  "get_next_pull layout b = snd (get_next_body layout (fst b) (snd b))"

lemma get_next_pulls:
  "pos + n \<le> length (layout (collection g)) \<Longrightarrow>
   (get_next_pull layout ^^ n) (pos, g) = (pos + n, g\<lparr>active_chunks := active_chunks g - int n\<rparr>)"
  by (induction n) (simp_all add: get_next_pull_def get_next_body_def Let_def)

section \<open>Properties\<close>

text \<open>
  C27: the stream ends.  Once \<open>done\<close> is set, wherever the scan stands, calling \<open>get_next\<close> until
  end-of-stream takes at most one call more than there are chunks left and yields exactly the
  rows not yet read, in order.
\<close>

theorem get_next_drains:
  assumes "layout_law layout" and "pos \<le> length (layout (collection g))" and "is_done g"
    and "length (layout (collection g)) - pos < n"
  shows "drain (buf_take layout) n (pos, g) = Some (concat (drop pos (layout (collection g))))"
  using insert_buffer.drain_total [of layout "(pos, g)" n] assms
  by (simp add: buf_valid_def buf_left_def buf_contents_def)

theorem get_next_drains_witness:
  "drain (buf_take (\<lambda>cs. cs)) 3 (1, (AdbcInsertGlobalState_new False 8)\<lparr>is_done := True, full := True,
     collection := [[1, 2], [3], [4, 5::int]]\<rparr>) = Some [3, 4, 5]"
  using get_next_drains [of "\<lambda>cs. cs" 1 "(AdbcInsertGlobalState_new False 8)\<lparr>is_done := True,
     full := True, collection := [[1, 2], [3], [4, 5::int]]\<rparr>" 3]
  by simp

text \<open>
  A full buffer is handed back.  When the producer waits on a full buffer, pulling the stream
  once for each chunk left and once more gives the buffer back empty, the scan at its start and
  the producer free to go on, whatever else the state holds.
\<close>

theorem get_next_hands_back:
  assumes "full g" and "pos \<le> length (layout (collection g))"
  shows "(get_next_pull layout ^^ Suc (length (layout (collection g)) - pos)) (pos, g) =
     (0, g\<lparr>full := False, collection := [],
           active_chunks := active_chunks g - int (length (layout (collection g)) - pos)\<rparr>)"
  using get_next_pulls [of pos "length (layout (collection g)) - pos" layout g] assms
  by (simp add: get_next_pull_def get_next_body_def)

theorem get_next_hands_back_witness:
  "producer_ready (snd ((get_next_pull (\<lambda>cs. cs) ^^ 3) (0, (AdbcInsertGlobalState_new False 2)
     \<lparr>full := True, active_chunks := 2, collection := [[1], [2, 3::int]]\<rparr>)))"
  using get_next_hands_back [of "(AdbcInsertGlobalState_new False 2)
     \<lparr>full := True, active_chunks := 2, collection := [[1], [2, 3::int]]\<rparr>" 0 "\<lambda>cs. cs"]
  by (simp add: producer_ready_def numeral_eq_Suc)

text \<open>
  The result of an insert.  After the join \<open>Finalize\<close> succeeds exactly when the last status
  was OK and the driver either does not know the number of rows (-1) or reports the number of
  rows sunk; every other outcome is an IOException, with the driver's message when it failed.
\<close>

theorem Finalize_outcome:
  "(Finalize_check g = Inr () \<longleftrightarrow>
      ins_status g = ADBC_STATUS_OK \<and>
      (sint (rows_affected g) = -1 \<or> rows_affected g = insert_count g)) \<and>
   (Finalize_check g = Inl e \<longleftrightarrow>
      (ins_status g \<noteq> ADBC_STATUS_OK \<and> e = IOException (AdbcToString (ins_message g)) \<or>
       ins_status g = ADBC_STATUS_OK \<and> sint (rows_affected g) \<noteq> -1 \<and>
       rows_affected g \<noteq> insert_count g \<and>
       e = IOException (row_count_message (insert_count g) (rows_affected g))))"
proof -
  have "sint (rows_affected g) = -1 \<longleftrightarrow> rows_affected g = -1"
    by (metis signed_minus_1 signed_word_eqI)
  then show ?thesis by (auto simp: Finalize_check_def)
qed

text \<open>
  Setting up the sink leaks nothing.  Over an API that keeps the handle contract
  \<open>GetGlobalSinkState\<close> either gives one lease to the new state, or, when leasing the connection or
  any of the calls of a CREATE TABLE AS fails, throws with the pool's leases as they were; in both
  cases every statement it made is released.
\<close>

theorem GetGlobalSinkState_balanced:
  assumes "handle_contract adbc live" and "pool_exclusive live L0 ls p w"
    and "GetGlobalSinkState adbc op materialize limit p w = (r, p', w')"
  shows "case r of Inl _ \<Rightarrow> pool_exclusive live L0 ls p' w'
       | Inr (l, g) \<Rightarrow> pool_exclusive live L0 (l # ls) p' w' \<and>
           g = AdbcInsertGlobalState_new materialize limit"
proof -
  have "pool_inv adbc live L0 ls p w" using assms(1,2) by (simp add: pool_inv_def)
  moreover have "r = Inr (l, g) \<Longrightarrow> g = AdbcInsertGlobalState_new materialize limit" for l g
    using assms(3)
    by (auto simp: GetGlobalSinkState_def split: prod.splits sum.splits if_splits)
  ultimately show ?thesis
    using GetGlobalSinkState_inv [OF _ assms(3), of live L0 ls]
    by (auto simp: pool_inv_def split: sum.splits)
qed

lemma GetGlobalSinkState_example:
  "(case GetGlobalSinkState scripted
       \<lparr>column_types = [''INTEGER''], column_names = [''a''], ins_table = ''t'', ins_schema = ''s'',
        mode = CTAS\<rparr> False 8 (AdbcConnectionPool_new ''uri'' 2)
       \<lparr>allocated = [], replies = [ok_reply, ok_reply, ok_reply, ok_reply, ok_reply,
         ok_reply, ok_reply, ok_reply, ok_reply, fail_reply ADBC_STATUS_IO ''no''],
        calls = []\<rparr> of (r, p', w') \<Rightarrow> r = (Inl (IOException ''no'') :: exn + pooled \<times> int gstate))"
  by (simp add: GetGlobalSinkState_def GetConnection_def AdbcConnectionPool_new_def
      AdbcConnection_new_def scripted_def take_connection_def CTAS_calls_def target_options_def
      AdbcPooledConnection_destroy_def ReturnConnection_def ok_reply_def fail_reply_def
      fresh_id_def Let_def release_statement_def CHECK_ADBC_def AdbcToString_def)

theorem GetGlobalSinkState_balanced_witness:
  "\<exists>p' w'. GetGlobalSinkState scripted
       \<lparr>column_types = [''INTEGER''], column_names = [''a''], ins_table = ''t'', ins_schema = ''s'',
        mode = CTAS\<rparr> False 8 (AdbcConnectionPool_new ''uri'' 2)
       \<lparr>allocated = [], replies = [ok_reply, ok_reply, ok_reply, ok_reply, ok_reply,
         ok_reply, ok_reply, ok_reply, ok_reply, fail_reply ADBC_STATUS_IO ''no''],
        calls = []\<rparr> = (Inl (IOException ''no'') :: exn + pooled \<times> int gstate, p', w') \<and>
     pool_exclusive (set \<circ> allocated) {} [] p' w'"
proof -
  let ?op = "\<lparr>column_types = [''INTEGER''], column_names = [''a''], ins_table = ''t'',
     ins_schema = ''s'', mode = CTAS\<rparr>"
  let ?w = "\<lparr>allocated = [], replies = [ok_reply, ok_reply, ok_reply, ok_reply, ok_reply,
         ok_reply, ok_reply, ok_reply, ok_reply, fail_reply ADBC_STATUS_IO ''no''],
        calls = []\<rparr>"
  obtain p' w' where run: "GetGlobalSinkState scripted ?op False 8 (AdbcConnectionPool_new ''uri'' 2) ?w
     = (Inl (IOException ''no'') :: exn + pooled \<times> int gstate, p', w')"
    using GetGlobalSinkState_example by (auto split: prod.splits)
  have "pool_exclusive (set \<circ> allocated) {} [] (AdbcConnectionPool_new ''uri'' 2) ?w"
    using pool_exclusive_new [of "set \<circ> allocated" ?w] by simp
  with GetGlobalSinkState_balanced [OF scripted_contract _ run] run show ?thesis by auto
qed

end
