(* ===== verification/Insert_Protocol.thy ===== *)
theory Insert_Protocol
  imports Insert_Buffer
begin

text \<open>
  src/adbc\_insert.cpp, the two threads of an insert.  The producer is DuckDB's thread: it calls
  \<open>Sink\<close> for every chunk, then \<open>Finalize\<close>, and destroys the state.  The consumer is the thread
  \<open>AsyncInsert\<close> runs in; the ADBC driver pulls the stream on it.  A critical section is one step;
  a wait is left asleep or re-checks its predicate when woken, and each \<open>notify_one\<close> is a step of
  its own, after the critical section, so that a wake-up could be lost if the code allowed it.
\<close>

section \<open>Configurations\<close>

text \<open>
  Where the producer is.  \<open>PIdle\<close> is between calls; the asleep and woken states are inside the wait
  of \<open>Sink\<close> and carry \<open>first_chunk\<close> and the chunk; \<open>PSinkNotify\<close>, \<open>PFinNotify\<close> and the two of the
  destructor are before a \<open>notify_one\<close>; \<open>PFinJoin\<close> and \<open>PDtorJoin\<close> wait for the thread.
\<close>

datatype 'r producer =
    PIdle | PAsleep bool "'r list" | PWoken bool "'r list" | PSinkNotify
  | PFinNotify | PFinJoin | PFinalized "exn + unit"
  | PDtorNotify1 | PDtorNotify2 | PDtorJoin | PGone

text \<open>
  Where the consumer is.  \<open>CDriver\<close> is the driver's code or the calls of \<open>AsyncInsert\<close>, with the
  stream alive; asleep and woken are inside the wait of \<open>get_next\<close>; \<open>CNotify\<close> and \<open>CReturn\<close> end a
  \<open>get_next\<close> that filled its output; \<open>CRelNotify\<close> ends the release of the stream.
\<close>

datatype 'r consumer =
    CNone | CDriver | CAsleep | CWoken | CNotify "'r arrow_out" | CReturn "'r arrow_out"
  | CRelNotify | CReleased | CExited

text \<open>
  \<open>pending\<close> holds the calls \<open>AsyncInsert\<close> has still to make, \<open>scan_pos\<close> is the scan state of the
  stream.  The last three fields are history: the rows appended, the rows the driver has got, and
  whether it has seen the end of the stream.
\<close>

record 'r insert_sys =
  gs :: "'r gstate"
  scan_pos :: nat
  producer :: "'r producer"
  consumer :: "'r consumer"
  pending :: "(hnd \<Rightarrow> adbc_call) list"
  sunk :: "'r list"
  delivered :: "'r list"
  saw_end :: bool

definition insert_init :: "bool \<Rightarrow> int \<Rightarrow> 'r insert_sys" where
  "insert_init materialize limit =
     \<lparr>gs = AdbcInsertGlobalState_new materialize limit, scan_pos = 0, producer = PIdle,
      consumer = CNone, pending = [], sunk = [], delivered = [], saw_end = False\<rparr>"

section \<open>Steps\<close>

text \<open>
  The environment's choices are in the labels: the chunk and the memory figures of a \<open>Sink\<close>, what
  the driver does, and spurious wake-ups.
\<close>

datatype 'r insert_label =
    SinkCall "'r list" nat
  | SinkRecheck nat
  | SinkNotify
  | SpuriousProducer
  | FinalizeCall
  | FinalizeNotify
  | FinalizeJoin
  | Destroy
  | DestroyNotifyConsumer
  | DestroyNotifyProducer
  | DestroyJoin
  | CallReturns status "64 word" "string option"
  | GetNext
  | GetNextRecheck
  | GetNextNotify
  | GetNextReturn
  | SpuriousConsumer
  | Release
  | ReleaseNotify
  | ThreadExit

text \<open>Inside \<open>Sink\<close>: past the wait the body runs, else the thread sleeps.\<close>

definition sink_wait ::
  "('r list list \<Rightarrow> nat) \<Rightarrow> nat \<Rightarrow> bool \<Rightarrow> 'r list \<Rightarrow> 'r insert_sys \<Rightarrow> 'r insert_sys"
where
  "sink_wait used free first chunk s =
     (if producer_ready (gs s) then
        (case Sink_body used free first chunk (gs s) of
           (NEED_MORE_INPUT, g) \<Rightarrow> s\<lparr>gs := g, producer := PSinkNotify, sunk := sunk s @ chunk\<rparr>
         | (FINISHED, g) \<Rightarrow> s\<lparr>gs := g, producer := PIdle\<rparr>)
      else s\<lparr>producer := PAsleep first chunk\<rparr>)"

text \<open>Inside \<open>get_next\<close>.\<close>

definition get_next_wait ::
  "('r list list \<Rightarrow> 'r list list) \<Rightarrow> 'r insert_sys \<Rightarrow> 'r insert_sys"
where
  "get_next_wait layout s =
     (if consumer_ready (gs s) then
        (case get_next_body layout (scan_pos s) (gs s) of
           (out, pos, g) \<Rightarrow> s\<lparr>gs := g, scan_pos := pos, consumer := CNotify out\<rparr>)
      else s\<lparr>consumer := CAsleep\<rparr>)"

definition wake_producer :: "'r producer \<Rightarrow> 'r producer" where
  "wake_producer p = (case p of PAsleep first chunk \<Rightarrow> PWoken first chunk | _ \<Rightarrow> p)"

definition wake_consumer :: "'r consumer \<Rightarrow> 'r consumer" where
  "wake_consumer c = (case c of CAsleep \<Rightarrow> CWoken | _ \<Rightarrow> c)"

definition start_thread :: "adbc_insert \<Rightarrow> hnd \<Rightarrow> bool \<Rightarrow> 'r insert_sys \<Rightarrow> 'r insert_sys" where
  "start_thread op raw first s =
     (if first then s\<lparr>consumer := CDriver, pending := AsyncInsert_calls op raw, scan_pos := 0\<rparr> else s)"

definition take_delivery :: "'r arrow_out \<Rightarrow> 'r insert_sys \<Rightarrow> 'r insert_sys" where
  "take_delivery out s =
     (if get_next_return (gs s) = 0 then
        (case out of
           Batch rows \<Rightarrow> s\<lparr>delivered := delivered s @ rows, consumer := CDriver\<rparr>
         | EndOfStream \<Rightarrow> s\<lparr>saw_end := True, consumer := CDriver\<rparr>)
      else s\<lparr>consumer := CDriver\<rparr>)"

text \<open>
  The step relation, for an insert operator on a connection \<open>raw\<close>.  The driver may pull the stream
  and release it whenever it likes while the stream is alive, and each call of the API may return
  any status; a call that fails ends \<open>AsyncInsert\<close>, which releases the stream before it exits.
\<close>

inductive insert_step ::
  "('r list list \<Rightarrow> 'r list list) \<Rightarrow> ('r list list \<Rightarrow> nat) \<Rightarrow> adbc_insert \<Rightarrow> hnd \<Rightarrow>
   'r insert_label \<Rightarrow> 'r insert_sys \<Rightarrow> 'r insert_sys \<Rightarrow> bool"
  for layout used op raw
where
  SinkCall:
    "producer s = PIdle \<Longrightarrow> Sink_launch (gs s) = (first, g) \<Longrightarrow>
     insert_step layout used op raw (SinkCall chunk free) s
       (sink_wait used free first chunk (start_thread op raw first (s\<lparr>gs := g\<rparr>)))"
| SinkRecheck:
    "producer s = PWoken first chunk \<Longrightarrow>
     insert_step layout used op raw (SinkRecheck free) s (sink_wait used free first chunk s)"
| SinkNotify:
    "producer s = PSinkNotify \<Longrightarrow>
     insert_step layout used op raw SinkNotify s
       (s\<lparr>producer := PIdle, consumer := wake_consumer (consumer s)\<rparr>)"
| SpuriousProducer:
    "producer s = PAsleep first chunk \<Longrightarrow>
     insert_step layout used op raw SpuriousProducer s (s\<lparr>producer := PWoken first chunk\<rparr>)"
| FinalizeCall:
    "producer s = PIdle \<Longrightarrow>
     insert_step layout used op raw FinalizeCall s
       (s\<lparr>gs := Finalize_signal (gs s), producer := PFinNotify\<rparr>)"
| FinalizeNotify:
    "producer s = PFinNotify \<Longrightarrow>
     insert_step layout used op raw FinalizeNotify s
       (s\<lparr>producer := PFinJoin, consumer := wake_consumer (consumer s)\<rparr>)"
| FinalizeJoin:
    "producer s = PFinJoin \<Longrightarrow> consumer s \<in> {CNone, CExited} \<Longrightarrow>
     insert_step layout used op raw FinalizeJoin s
       (s\<lparr>producer := PFinalized (Finalize_check (gs s))\<rparr>)"
| Destroy:
    "producer s = PIdle \<or> producer s = PFinalized r \<Longrightarrow>
     insert_step layout used op raw Destroy s
       (s\<lparr>gs := AdbcInsertGlobalState_destroy_flags (gs s), producer := PDtorNotify1\<rparr>)"
| DestroyNotifyConsumer:
    "producer s = PDtorNotify1 \<Longrightarrow>
     insert_step layout used op raw DestroyNotifyConsumer s
       (s\<lparr>producer := PDtorNotify2, consumer := wake_consumer (consumer s)\<rparr>)"
| DestroyNotifyProducer:
    "producer s = PDtorNotify2 \<Longrightarrow>
     insert_step layout used op raw DestroyNotifyProducer s (s\<lparr>producer := PDtorJoin\<rparr>)"
| DestroyJoin:
    "producer s = PDtorJoin \<Longrightarrow> consumer s \<in> {CNone, CExited} \<Longrightarrow>
     insert_step layout used op raw DestroyJoin s (s\<lparr>producer := PGone\<rparr>)"
| CallReturns:
    "consumer s \<in> {CDriver, CReleased} \<Longrightarrow> pending s = c # cs \<Longrightarrow>
     insert_step layout used op raw (CallReturns st affected message) s
       (s\<lparr>gs := (gs s)\<lparr>ins_status := st, ins_message := message,
             rows_affected := (if cs = [] then affected else rows_affected (gs s))\<rparr>,
          pending := (if st = ADBC_STATUS_OK then cs else [])\<rparr>)"
| GetNext:
    "consumer s = CDriver \<Longrightarrow>
     insert_step layout used op raw GetNext s (get_next_wait layout s)"
| GetNextRecheck:
    "consumer s = CWoken \<Longrightarrow>
     insert_step layout used op raw GetNextRecheck s (get_next_wait layout s)"
| GetNextNotify:
    "consumer s = CNotify out \<Longrightarrow>
     insert_step layout used op raw GetNextNotify s
       (s\<lparr>consumer := CReturn out, producer := wake_producer (producer s)\<rparr>)"
| GetNextReturn:
    "consumer s = CReturn out \<Longrightarrow>
     insert_step layout used op raw GetNextReturn s (take_delivery out s)"
| SpuriousConsumer:
    "consumer s = CAsleep \<Longrightarrow>
     insert_step layout used op raw SpuriousConsumer s (s\<lparr>consumer := CWoken\<rparr>)"
| Release:
    "consumer s = CDriver \<Longrightarrow>
     insert_step layout used op raw Release s
       (s\<lparr>gs := stream_release (gs s), consumer := CRelNotify\<rparr>)"
| ReleaseNotify:
    "consumer s = CRelNotify \<Longrightarrow>
     insert_step layout used op raw ReleaseNotify s
       (s\<lparr>consumer := CReleased, producer := wake_producer (producer s)\<rparr>)"
| ThreadExit:
    "consumer s = CReleased \<Longrightarrow> pending s = [] \<Longrightarrow>
     insert_step layout used op raw ThreadExit s (s\<lparr>consumer := CExited\<rparr>)"

inductive_cases insert_stepE: "insert_step layout used op raw l s s'"

inductive insert_reach ::
  "('r list list \<Rightarrow> 'r list list) \<Rightarrow> ('r list list \<Rightarrow> nat) \<Rightarrow> adbc_insert \<Rightarrow> hnd \<Rightarrow> bool \<Rightarrow> int \<Rightarrow>
   'r insert_sys \<Rightarrow> bool"
  for layout used op raw materialize limit
where
  init: "insert_reach layout used op raw materialize limit (insert_init materialize limit)"
| step: "insert_reach layout used op raw materialize limit s \<Longrightarrow>
         insert_step layout used op raw l s s' \<Longrightarrow>
         insert_reach layout used op raw materialize limit s'"

section \<open>Control invariant\<close>

fun sinking :: "'r producer \<Rightarrow> bool" where
  "sinking PIdle = True"
| "sinking (PAsleep _ _) = True"
| "sinking (PWoken _ _) = True"
| "sinking PSinkNotify = True"
| "sinking _ = False"

fun in_sink :: "'r producer \<Rightarrow> bool" where
  "in_sink (PAsleep _ _) = True"
| "in_sink (PWoken _ _) = True"
| "in_sink PSinkNotify = True"
| "in_sink _ = False"

fun destroying :: "'r producer \<Rightarrow> bool" where
  "destroying PDtorNotify1 = True"
| "destroying PDtorNotify2 = True"
| "destroying PDtorJoin = True"
| "destroying PGone = True"
| "destroying _ = False"

fun released_stream :: "'r consumer \<Rightarrow> bool" where
  "released_stream CRelNotify = True"
| "released_stream CReleased = True"
| "released_stream CExited = True"
| "released_stream _ = False"

definition stream_alive :: "'r consumer \<Rightarrow> bool" where
  "stream_alive c \<longleftrightarrow> c \<noteq> CNone \<and> \<not> released_stream c"

fun will_notify_producer :: "'r consumer \<Rightarrow> bool" where
  "will_notify_producer (CNotify _) = True"
| "will_notify_producer CRelNotify = True"
| "will_notify_producer _ = False"

fun will_notify_consumer :: "'r producer \<Rightarrow> bool" where
  "will_notify_consumer PSinkNotify = True"
| "will_notify_consumer PFinNotify = True"
| "will_notify_consumer PDtorNotify1 = True"
| "will_notify_consumer _ = False"

text \<open>
  The flags say where the threads are, and a thread that sleeps has either a false predicate or a
  notification on its way.
\<close>

definition control_inv :: "'r insert_sys \<Rightarrow> bool" where
  "control_inv s \<longleftrightarrow>
     (consumer s = CNone \<longleftrightarrow> first_insert (gs s)) \<and>
     (consumer s = CNone \<longrightarrow> \<not> full (gs s) \<and> \<not> in_sink (producer s)) \<and>
     (is_done (gs s) \<longleftrightarrow> \<not> sinking (producer s) \<or> released_stream (consumer s)) \<and>
     (canceled (gs s) \<longleftrightarrow> destroying (producer s)) \<and>
     (\<forall>first chunk. producer s = PAsleep first chunk \<longrightarrow>
        \<not> producer_ready (gs s) \<or> will_notify_producer (consumer s)) \<and>
     (consumer s = CAsleep \<longrightarrow>
        \<not> consumer_ready (gs s) \<or> will_notify_consumer (producer s))"

lemma control_inv_init: "control_inv (insert_init materialize limit)"
  by (simp add: control_inv_def insert_init_def AdbcInsertGlobalState_new_def)

lemma Sink_body_flags:
  "Sink_body used free first chunk g = (r, g') \<Longrightarrow>
   is_done g' = is_done g \<and> canceled g' = canceled g \<and> first_insert g' = first_insert g \<and>
   materialize_input g' = materialize_input g \<and> max_chunks g' = max_chunks g \<and>
   (r = FINISHED \<longleftrightarrow> canceled g) \<and> (r = FINISHED \<longrightarrow> g' = g) \<and>
   (r = NEED_MORE_INPUT \<longrightarrow> collection g' = collection g @ [chunk] \<and>
      active_chunks g' = active_chunks g + 1 \<and>
      insert_count g' = insert_count g + of_nat (length chunk) \<and>
      (full g' \<longleftrightarrow> full g \<or> \<not> materialize_input g \<and>
         (first \<or> 2 * used (collection g @ [chunk]) \<ge> free \<or> active_chunks g + 1 \<ge> max_chunks g)))"
  by (auto simp: Sink_body_def Let_def split: if_splits)

lemma get_next_body_flags:
  "get_next_body layout pos g = (out, pos', g') \<Longrightarrow>
   is_done g' = is_done g \<and> canceled g' = canceled g \<and> first_insert g' = first_insert g \<and>
   materialize_input g' = materialize_input g \<and> max_chunks g' = max_chunks g \<and>
   insert_count g' = insert_count g \<and> (full g' \<longrightarrow> full g)"
  by (auto simp: get_next_body_def Let_def split: if_splits)

lemma Sink_launch_flags:
  "Sink_launch g = (first, g') \<Longrightarrow>
   g' = g\<lparr>first_insert := False\<rparr> \<and> (first \<longleftrightarrow> first_insert g)"
  by (auto simp: Sink_launch_def split: if_splits)

lemma wake_simps [simp]:
  "wake_producer (PAsleep first chunk) = PWoken first chunk"
  "wake_consumer CAsleep = CWoken"
  "wake_producer p = PAsleep first chunk \<longleftrightarrow> False"
  "wake_consumer c = CAsleep \<longleftrightarrow> False"
  "wake_consumer c = CNone \<longleftrightarrow> c = CNone"
  "sinking (wake_producer p) = sinking p"
  "in_sink (wake_producer p) = in_sink p"
  "destroying (wake_producer p) = destroying p"
  "released_stream (wake_consumer c) = released_stream c"
  "will_notify_producer (wake_consumer c) = will_notify_producer c"
  "will_notify_consumer (wake_producer p) = will_notify_consumer p"
  by (auto simp: wake_producer_def wake_consumer_def split: producer.splits consumer.splits)

lemma control_inv_sink_wait:
  assumes "consumer s \<noteq> CNone" and "\<not> first_insert (gs s)" and "\<not> canceled (gs s)"
    and "is_done (gs s) \<longleftrightarrow> released_stream (consumer s)"
    and "consumer s = CAsleep \<longrightarrow> \<not> consumer_ready (gs s)"
  shows "control_inv (sink_wait used free first chunk s)"
proof (cases "producer_ready (gs s)")
  case True
  obtain r g where b: "Sink_body used free first chunk (gs s) = (r, g)" by fastforce
  with assms True Sink_body_flags [OF b] show ?thesis
    by (cases r) (auto simp: sink_wait_def control_inv_def)
next
  case False
  with assms show ?thesis by (auto simp: sink_wait_def control_inv_def)
qed

lemma control_inv_get_next_wait:
  assumes "control_inv s" and "consumer s \<in> {CDriver, CWoken}"
  shows "control_inv (get_next_wait layout s)"
proof (cases "consumer_ready (gs s)")
  case True
  obtain out pos g where b: "get_next_body layout (scan_pos s) (gs s) = (out, pos, g)"
    by (metis prod_cases3)
  have s': "get_next_wait layout s = s\<lparr>gs := g, scan_pos := pos, consumer := CNotify out\<rparr>"
    using True b by (simp add: get_next_wait_def)
  have fl: "is_done g = is_done (gs s)" "canceled g = canceled (gs s)"
      "first_insert g = first_insert (gs s)"
    using get_next_body_flags [OF b] by simp_all
  from assms show ?thesis unfolding s' control_inv_def by (elim conjE insertE) (simp_all add: fl)
next
  case False
  with assms show ?thesis by (auto simp: get_next_wait_def control_inv_def)
qed

lemma control_inv_step:
  assumes "insert_step layout used op raw l s s'" and "control_inv s"
  shows "control_inv s'"
  using assms
proof (cases rule: insert_step.cases)
  case (SinkCall first g chunk free)
  let ?s1 = "start_thread op raw first (s\<lparr>gs := g\<rparr>)"
  have g: "g = (gs s)\<lparr>first_insert := False\<rparr>" "first \<longleftrightarrow> first_insert (gs s)"
    using Sink_launch_flags [OF SinkCall(4)] by simp_all
  have "control_inv (sink_wait used free first chunk ?s1)"
    using assms(2) SinkCall(3) g
    by (intro control_inv_sink_wait)
      (auto simp: start_thread_def control_inv_def consumer_ready_def)
  with SinkCall(2) show ?thesis by simp
next
  case (SinkRecheck first chunk free)
  have "control_inv (sink_wait used free first chunk s)"
    using assms(2) SinkRecheck(3) by (intro control_inv_sink_wait) (auto simp: control_inv_def)
  with SinkRecheck(2) show ?thesis by simp
next
  case GetNext
  with assms(2) show ?thesis by (simp add: control_inv_get_next_wait)
next
  case GetNextRecheck
  with assms(2) show ?thesis by (simp add: control_inv_get_next_wait)
next
  case SinkNotify
  with assms(2) show ?thesis by (auto simp: control_inv_def )
next
  case SpuriousProducer
  with assms(2) show ?thesis by (auto simp: control_inv_def )
next
  case FinalizeCall
  with assms(2) show ?thesis by (auto simp: control_inv_def Finalize_signal_def consumer_ready_def)
next
  case FinalizeNotify
  with assms(2) show ?thesis by (auto simp: control_inv_def )
next
  case FinalizeJoin
  with assms(2) show ?thesis by (auto simp: control_inv_def )
next
  case Destroy
  with assms(2) show ?thesis by (auto simp: control_inv_def AdbcInsertGlobalState_destroy_flags_def consumer_ready_def)
next
  case DestroyNotifyConsumer
  with assms(2) show ?thesis by (auto simp: control_inv_def )
next
  case DestroyNotifyProducer
  with assms(2) show ?thesis by (auto simp: control_inv_def )
next
  case DestroyJoin
  with assms(2) show ?thesis by (auto simp: control_inv_def )
next
  case CallReturns
  with assms(2) show ?thesis by (auto simp: control_inv_def producer_ready_def consumer_ready_def)
next
  case GetNextNotify
  with assms(2) show ?thesis by (auto simp: control_inv_def )
next
  case GetNextReturn
  with assms(2) show ?thesis by (auto simp: control_inv_def take_delivery_def producer_ready_def consumer_ready_def split: arrow_out.splits)
next
  case SpuriousConsumer
  with assms(2) show ?thesis by (auto simp: control_inv_def )
next
  case Release
  with assms(2) show ?thesis by (auto simp: control_inv_def stream_release_def producer_ready_def)
next
  case ReleaseNotify
  with assms(2) show ?thesis by (auto simp: control_inv_def )
next
  case ThreadExit
  with assms(2) show ?thesis by (auto simp: control_inv_def )
qed

lemma control_inv_reach:
  "insert_reach layout used op raw materialize limit s \<Longrightarrow> control_inv s"
  by (induction rule: insert_reach.induct) (auto intro: control_inv_init control_inv_step)

section \<open>Data invariant\<close>

fun in_flight :: "'r consumer \<Rightarrow> 'r list" where
  "in_flight (CNotify (Batch rows)) = rows"
| "in_flight (CReturn (Batch rows)) = rows"
| "in_flight _ = []"

fun ending :: "'r consumer \<Rightarrow> bool" where
  "ending (CNotify EndOfStream) = True"
| "ending (CReturn EndOfStream) = True"
| "ending _ = False"

abbreviation buffered :: "('r list list \<Rightarrow> 'r list list) \<Rightarrow> 'r insert_sys \<Rightarrow> 'r list" where
  "buffered layout s \<equiv> buf_contents layout (scan_pos s, gs s)"

text \<open>
  While the stream is alive the driver's rows, the batch in flight and what is left of the buffer
  are the rows sunk; the scan has moved only while the producer is held off.
\<close>

definition data_inv :: "('r list list \<Rightarrow> 'r list list) \<Rightarrow> 'r insert_sys \<Rightarrow> bool" where
  "data_inv layout s \<longleftrightarrow>
     (consumer s = CNone \<longrightarrow> sunk s = [] \<and> delivered s = [] \<and> collection (gs s) = [] \<and>
        scan_pos s = 0) \<and>
     (stream_alive (consumer s) \<longrightarrow> buf_valid layout (scan_pos s, gs s) \<and>
        (scan_pos s = 0 \<or> consumer_ready (gs s)) \<and>
        (\<not> canceled (gs s) \<longrightarrow> delivered s @ in_flight (consumer s) @ buffered layout s = sunk s)) \<and>
     (ending (consumer s) \<longrightarrow> is_done (gs s) \<and> buffered layout s = []) \<and>
     (saw_end s \<longrightarrow> delivered s = sunk s \<and> \<not> sinking (producer s)) \<and>
     prefix (delivered s) (sunk s)"

lemma buf_simps:
  "collection g' = collection g \<Longrightarrow> buf_contents layout (n, g') = buf_contents layout (n, g)"
  "collection g' = collection g \<Longrightarrow> buf_valid layout (n, g') = buf_valid layout (n, g)"
  by (simp_all add: buf_contents_def buf_valid_def)

lemma buf_append:
  assumes "buf_valid layout (0, g)" and "collection g' = collection g @ [rows]"
  shows "buf_valid layout (0, g')" and "buf_contents layout (0, g') = buf_contents layout (0, g) @ rows"
proof -
  have c: "collection g' = collection (snd (buf_put rows (0, g)))" and z: "fst (buf_put rows (0, g)) = 0"
    using assms(2) by (simp_all add: buf_put_def)
  show "buf_valid layout (0, g')" "buf_contents layout (0, g') = buf_contents layout (0, g) @ rows"
    using insert_buffer.put_ok [of layout "(0, g)" rows] assms(1) buf_simps [OF c, of layout 0] z
    by (metis fst_conv surjective_pairing)+
qed

lemma stream_alive_wake [simp]: "stream_alive (wake_consumer c) = stream_alive c"
  by (simp add: stream_alive_def)

lemma in_flight_wake [simp]: "in_flight (wake_consumer c) = in_flight c"
  by (cases c) (simp_all add: wake_consumer_def)

lemma ending_wake [simp]: "ending (wake_consumer c) = ending c"
  by (cases c) (simp_all add: wake_consumer_def)

lemma data_inv_init: "data_inv layout (insert_init materialize limit)"
  by (simp add: data_inv_def insert_init_def AdbcInsertGlobalState_new_def stream_alive_def)

text \<open>A \<open>Sink\<close> past its wait: the stream is released, or the scan is at its start.\<close>

lemma data_inv_sink_wait:
  assumes inv: "data_inv layout s" and "consumer s \<noteq> CNone" and "sinking (producer s)"
    and done_iff: "is_done (gs s) \<longleftrightarrow> released_stream (consumer s)"
  shows "data_inv layout (sink_wait used free first chunk s)"
proof (cases "producer_ready (gs s)")
  case False
  with assms show ?thesis by (auto simp: sink_wait_def data_inv_def)
next
  case True
  obtain r g where b: "Sink_body used free first chunk (gs s) = (r, g)" by fastforce
  note fl = Sink_body_flags [OF b]
  show ?thesis
  proof (cases r)
    case FINISHED
    with b True inv fl assms(3) show ?thesis by (auto simp: sink_wait_def data_inv_def)
  next
    case NEED_MORE_INPUT
    have not_end: "\<not> saw_end s" using inv assms(3) by (auto simp: data_inv_def)
    show ?thesis
    proof (cases "stream_alive (consumer s)")
      case alive: True
      then have nd: "\<not> is_done (gs s)" using done_iff by (simp add: stream_alive_def)
      then have pos: "scan_pos s = 0"
        using inv alive True by (auto simp: data_inv_def consumer_ready_def producer_ready_def)
      have "\<not> ending (consumer s)" using inv nd by (auto simp: data_inv_def)
      with b True NEED_MORE_INPUT inv fl pos not_end alive assms(2)
        buf_append [of layout "gs s" g chunk]
      show ?thesis
        by (auto simp: sink_wait_def data_inv_def prefix_def)
    next
      case dead: False
      then have "\<not> ending (consumer s)"
        using assms(2) by (cases "consumer s") (auto simp: stream_alive_def)
      with dead b True NEED_MORE_INPUT inv fl not_end assms(2) show ?thesis
        by (auto simp: sink_wait_def data_inv_def prefix_def)
    qed
  qed
qed

lemma data_inv_get_next_wait:
  assumes "data_inv layout s" and "consumer s \<in> {CDriver, CWoken}"
  shows "data_inv layout (get_next_wait layout s)"
proof (cases "consumer_ready (gs s)")
  case False
  with assms show ?thesis by (auto simp: get_next_wait_def data_inv_def stream_alive_def)
next
  case True
  obtain out pos g where b: "get_next_body layout (scan_pos s) (gs s) = (out, pos, g)"
    by (metis prod_cases3)
  have alive: "stream_alive (consumer s)" "in_flight (consumer s) = []" "\<not> ending (consumer s)"
    using assms(2) by (auto simp: stream_alive_def)
  have v: "buf_valid layout (scan_pos s, gs s)" using assms(1) alive by (simp add: data_inv_def)
  have pos: "pos = 0 \<or> consumer_ready g"
    using b True by (auto simp: get_next_body_def Let_def consumer_ready_def split: if_splits)
  note fl = get_next_body_flags [OF b]
  show ?thesis
  proof (cases out)
    case (Batch rows)
    have "buf_take layout (scan_pos s, gs s) = (Some rows, pos, g)"
      using b Batch by (simp add: buf_take_def)
    from insert_buffer.take_Some [OF v this] assms alive True b Batch fl pos show ?thesis
      by (auto simp: get_next_wait_def data_inv_def stream_alive_def)
  next
    case EndOfStream
    have t: "buf_take layout (scan_pos s, gs s) = (None, pos, g)"
      using b EndOfStream by (simp add: buf_take_def)
    have "is_done g"
      using b EndOfStream by (auto simp: get_next_body_def Let_def split: if_splits)
    with insert_buffer.take_None [OF v t] assms alive True b EndOfStream fl pos show ?thesis
      by (auto simp: get_next_wait_def data_inv_def stream_alive_def)
  qed
qed

lemma prefix_middle: "xs @ ys @ zs = ws \<Longrightarrow> prefix (xs @ ys) ws"
  by (auto simp: prefix_def)

lemma data_inv_take_delivery:
  assumes "data_inv layout s" and "control_inv s" and "consumer s = CReturn out"
  shows "data_inv layout (take_delivery out s)"
proof (cases out)
  case (Batch rows)
  with assms show ?thesis
    by (auto simp: data_inv_def take_delivery_def get_next_return_def stream_alive_def
        intro: prefix_middle)
next
  case EndOfStream
  with assms show ?thesis
    by (auto simp: data_inv_def control_inv_def take_delivery_def get_next_return_def
        stream_alive_def)
qed

lemma data_inv_step:
  assumes "layout_law layout" and "insert_step layout used op raw l s s'"
    and ctl: "control_inv s" and inv: "data_inv layout s"
  shows "data_inv layout s'"
  using assms(2)
proof (cases rule: insert_step.cases)
  case (SinkCall first g chunk free)
  let ?s1 = "start_thread op raw first (s\<lparr>gs := g\<rparr>)"
  have g: "g = (gs s)\<lparr>first_insert := False\<rparr>" "first \<longleftrightarrow> first_insert (gs s)"
    using Sink_launch_flags [OF SinkCall(4)] by simp_all
  have "data_inv layout ?s1"
  proof (cases first)
    case True
    with g ctl inv assms(1) SinkCall(3) show ?thesis
      by (auto simp: control_inv_def data_inv_def start_thread_def stream_alive_def
          buf_valid_def buf_contents_def layout_Nil)
  next
    case False
    with g ctl inv show ?thesis
      by (simp add: data_inv_def start_thread_def consumer_ready_def buf_valid_def buf_contents_def)
  qed
  then have "data_inv layout (sink_wait used free first chunk ?s1)"
    using ctl SinkCall(3) g
    by (intro data_inv_sink_wait) (auto simp: start_thread_def control_inv_def)
  with SinkCall(2) show ?thesis by simp
next
  case (SinkRecheck first chunk free)
  have "data_inv layout (sink_wait used free first chunk s)"
    using ctl SinkRecheck(3) by (intro data_inv_sink_wait inv) (auto simp: control_inv_def)
  with SinkRecheck(2) show ?thesis by simp
next
  case GetNext
  with inv show ?thesis by (simp add: data_inv_get_next_wait)
next
  case GetNextRecheck
  with inv show ?thesis by (simp add: data_inv_get_next_wait)
next
  case GetNextReturn
  with inv ctl show ?thesis by (simp add: data_inv_take_delivery)
next
  case SinkNotify
  with inv ctl show ?thesis by (auto simp: data_inv_def)
next
  case SpuriousProducer
  with inv show ?thesis by (auto simp: data_inv_def)
next
  case FinalizeCall
  with inv show ?thesis
    by (auto simp: data_inv_def Finalize_signal_def consumer_ready_def buf_contents_def
        buf_valid_def)
next
  case FinalizeNotify
  with inv show ?thesis by (auto simp: data_inv_def)
next
  case FinalizeJoin
  with inv show ?thesis by (auto simp: data_inv_def)
next
  case Destroy
  with inv show ?thesis
    by (auto simp: data_inv_def AdbcInsertGlobalState_destroy_flags_def consumer_ready_def buf_contents_def
        buf_valid_def)
next
  case DestroyNotifyConsumer
  with inv show ?thesis by (auto simp: data_inv_def)
next
  case DestroyNotifyProducer
  with inv show ?thesis by (auto simp: data_inv_def)
next
  case DestroyJoin
  with inv show ?thesis by (auto simp: data_inv_def)
next
  case CallReturns
  with inv show ?thesis by (auto simp: data_inv_def consumer_ready_def buf_contents_def
        buf_valid_def)
next
  case (GetNextNotify out)
  with inv show ?thesis by (cases out) (auto simp: data_inv_def stream_alive_def)
next
  case SpuriousConsumer
  with inv show ?thesis by (auto simp: data_inv_def stream_alive_def)
next
  case Release
  with inv show ?thesis by (auto simp: data_inv_def stream_release_def stream_alive_def
        buf_contents_def buf_valid_def)
next
  case ReleaseNotify
  with inv show ?thesis by (auto simp: data_inv_def stream_alive_def)
next
  case ThreadExit
  with inv show ?thesis by (auto simp: data_inv_def stream_alive_def)
qed

lemma data_inv_reach:
  assumes "layout_law layout" and "insert_reach layout used op raw materialize limit s"
  shows "data_inv layout s"
  using assms(2)
proof induction
  case init
  then show ?case by (rule data_inv_init)
next
  case (step s l s')
  then show ?case using data_inv_step assms(1) control_inv_reach by blast
qed

section \<open>Buffer bound\<close>

text \<open>
  Until the stream is released or the input has ended, \<open>active_chunks\<close> counts at least the chunks
  still to be read, and the collection has at most \<open>max_chunks\<close> chunks (one, if that is less).
\<close>

definition bound_inv :: "bool \<Rightarrow> int \<Rightarrow> 'r insert_sys \<Rightarrow> bool" where
  "bound_inv materialize limit s \<longleftrightarrow>
     materialize_input (gs s) = materialize \<and> max_chunks (gs s) = limit \<and>
     (\<not> materialize \<and> \<not> is_done (gs s) \<longrightarrow>
        int (length (collection (gs s))) - int (scan_pos s) \<le> active_chunks (gs s) \<and>
        int (length (collection (gs s))) \<le> max 1 limit \<and>
        (\<not> full (gs s) \<longrightarrow> collection (gs s) = [] \<or> active_chunks (gs s) < limit))"

lemma bound_inv_init: "bound_inv materialize limit (insert_init materialize limit)"
  by (auto simp: bound_inv_def insert_init_def AdbcInsertGlobalState_new_def)

lemma bound_inv_sink_wait:
  assumes inv: "bound_inv materialize limit s"
    and "\<not> is_done (gs s) \<Longrightarrow> \<not> full (gs s) \<Longrightarrow> scan_pos s = 0"
  shows "bound_inv materialize limit (sink_wait used free first chunk s)"
proof (cases "producer_ready (gs s)")
  case False
  with inv show ?thesis by (simp add: sink_wait_def bound_inv_def)
next
  case True
  obtain r g where b: "Sink_body used free first chunk (gs s) = (r, g)" by fastforce
  note fl = Sink_body_flags [OF b]
  show ?thesis
  proof (cases r)
    case FINISHED
    with b True inv fl show ?thesis by (simp add: sink_wait_def bound_inv_def)
  next
    case NEED_MORE_INPUT
    with b True inv fl assms(2) show ?thesis
      by (auto simp: sink_wait_def bound_inv_def producer_ready_def)
  qed
qed

lemma bound_inv_get_next_wait:
  assumes inv: "bound_inv materialize limit s" and v: "buf_valid layout (scan_pos s, gs s)"
  shows "bound_inv materialize limit (get_next_wait layout s)"
proof (cases "consumer_ready (gs s)")
  case False
  with inv show ?thesis by (simp add: get_next_wait_def bound_inv_def)
next
  case True
  have "scan_pos s \<le> length (collection (gs s))"
    using v by (auto simp: buf_valid_def intro: le_trans)
  with inv True show ?thesis
    by (auto simp: get_next_wait_def bound_inv_def get_next_body_def Let_def split: if_splits)
qed

lemma scan_at_start:
  assumes "control_inv s" and "data_inv layout s" and "\<not> is_done (gs s)" and "\<not> full (gs s)"
  shows "scan_pos s = 0"
proof (cases "consumer s = CNone")
  case False
  then have "stream_alive (consumer s)"
    using assms(1,3) by (simp add: stream_alive_def control_inv_def)
  with assms(2-) show ?thesis by (simp add: data_inv_def consumer_ready_def)
qed (use assms(2) in \<open>simp add: data_inv_def\<close>)

lemma bound_inv_step:
  assumes "insert_step layout used op raw l s s'"
    and ctl: "control_inv s" and data: "data_inv layout s" and inv: "bound_inv materialize limit s"
  shows "bound_inv materialize limit s'"
  using assms(1)
proof (cases rule: insert_step.cases)
  case (SinkCall first g chunk free)
  let ?s1 = "start_thread op raw first (s\<lparr>gs := g\<rparr>)"
  have g: "g = (gs s)\<lparr>first_insert := False\<rparr>" "first \<longleftrightarrow> first_insert (gs s)"
    using Sink_launch_flags [OF SinkCall(4)] by simp_all
  have start: "scan_pos s = 0" if first
    using that g(2) ctl data by (simp add: control_inv_def data_inv_def)
  have pos: "scan_pos ?s1 = scan_pos s" "gs ?s1 = g"
    using start by (simp_all add: start_thread_def)
  then have "bound_inv materialize limit ?s1"
    using g(1) inv by (simp add: bound_inv_def)
  moreover have "\<not> is_done (gs ?s1) \<Longrightarrow> \<not> full (gs ?s1) \<Longrightarrow> scan_pos ?s1 = 0"
    unfolding pos using g(1) scan_at_start [OF ctl data] by simp
  ultimately have "bound_inv materialize limit (sink_wait used free first chunk ?s1)"
    by (rule bound_inv_sink_wait)
  with SinkCall(2) show ?thesis by simp
next
  case (SinkRecheck first chunk free)
  have "bound_inv materialize limit (sink_wait used free first chunk s)"
    by (intro bound_inv_sink_wait inv scan_at_start [OF ctl data])
  with SinkRecheck(2) show ?thesis by simp
next
  case GetNext
  with inv data show ?thesis
    by (simp add: bound_inv_get_next_wait data_inv_def stream_alive_def)
next
  case GetNextRecheck
  with inv data show ?thesis
    by (simp add: bound_inv_get_next_wait data_inv_def stream_alive_def)
next
  case (GetNextReturn out)
  with inv show ?thesis by (cases out) (simp_all add: bound_inv_def take_delivery_def)
qed (use inv in \<open>simp_all add: bound_inv_def Finalize_signal_def stream_release_def
    AdbcInsertGlobalState_destroy_flags_def\<close>)

lemma bound_inv_reach:
  assumes "layout_law layout" and "insert_reach layout used op raw materialize limit s"
  shows "bound_inv materialize limit s"
  using assms(2)
proof induction
  case init
  then show ?case by (rule bound_inv_init)
next
  case (step s l s')
  show ?case
    by (rule bound_inv_step [OF step(2) control_inv_reach [OF step(1)]
          data_inv_reach [OF assms(1) step(1)] step(3)])
qed

section \<open>Outcome invariant\<close>

text \<open>
  The row counter counts the rows sunk, a failed call ends \<open>AsyncInsert\<close>, and the result of
  \<open>Finalize\<close> is the check of the state the joined thread left.
\<close>

definition result_inv :: "'r insert_sys \<Rightarrow> bool" where
  "result_inv s \<longleftrightarrow>
     insert_count (gs s) = of_nat (length (sunk s)) \<and>
     (ins_status (gs s) \<noteq> ADBC_STATUS_OK \<longrightarrow> pending s = []) \<and>
     (consumer s \<in> {CNone, CExited} \<longrightarrow> pending s = []) \<and>
     (\<forall>r. producer s = PFinalized r \<longrightarrow>
        consumer s \<in> {CNone, CExited} \<and> r = Finalize_check (gs s)) \<and>
     (consumer s = CNone \<longrightarrow> ins_status (gs s) = ADBC_STATUS_OK)"

lemma Sink_body_status:
  "Sink_body used free first chunk g = (r, g') \<Longrightarrow> ins_status g' = ins_status g"
  by (auto simp: Sink_body_def Let_def split: if_splits)

lemma get_next_body_status:
  "get_next_body layout pos g = (out, pos', g') \<Longrightarrow> ins_status g' = ins_status g"
  by (auto simp: get_next_body_def Let_def split: if_splits)

lemma result_inv_sink_wait:
  assumes "result_inv s" and "\<forall>r. producer s \<noteq> PFinalized r"
  shows "result_inv (sink_wait used free first chunk s)"
proof (cases "producer_ready (gs s)")
  case False
  with assms show ?thesis by (simp add: sink_wait_def result_inv_def)
next
  case True
  obtain r g where b: "Sink_body used free first chunk (gs s) = (r, g)" by fastforce
  note fl = Sink_body_flags [OF b] Sink_body_status [OF b]
  show ?thesis
  proof (cases r)
    case NEED_MORE_INPUT
    then have s': "sink_wait used free first chunk s =
        s\<lparr>gs := g, producer := PSinkNotify, sunk := sunk s @ chunk\<rparr>"
      using True b by (simp add: sink_wait_def)
    have "insert_count g = insert_count (gs s) + of_nat (length chunk)" "ins_status g = ins_status (gs s)"
      using fl NEED_MORE_INPUT by auto
    with assms(1) show ?thesis unfolding s' by (simp add: result_inv_def)
  next
    case FINISHED
    then have s': "sink_wait used free first chunk s = s\<lparr>gs := gs s, producer := PIdle\<rparr>"
      using True b fl by (simp add: sink_wait_def)
    from assms(1) show ?thesis unfolding s' by (simp add: result_inv_def)
  qed
qed

lemma result_inv_get_next_wait:
  assumes "result_inv s" and "consumer s \<in> {CDriver, CWoken}"
  shows "result_inv (get_next_wait layout s)"
proof (cases "consumer_ready (gs s)")
  case False
  with assms show ?thesis by (auto simp: get_next_wait_def result_inv_def)
next
  case True
  obtain out pos g where b: "get_next_body layout (scan_pos s) (gs s) = (out, pos, g)"
    by (metis prod_cases3)
  then have s': "get_next_wait layout s = s\<lparr>gs := g, scan_pos := pos, consumer := CNotify out\<rparr>"
    using True by (simp add: get_next_wait_def)
  have "insert_count g = insert_count (gs s)" "ins_status g = ins_status (gs s)"
    using get_next_body_flags [OF b] get_next_body_status [OF b] by simp_all
  with assms show ?thesis unfolding s' by (auto simp: result_inv_def)
qed

lemma result_inv_step:
  assumes "insert_step layout used op raw l s s'" and ctl: "control_inv s" and inv: "result_inv s"
  shows "result_inv s'"
  using assms(1)
proof (cases rule: insert_step.cases)
  case (SinkCall first g chunk free)
  let ?s1 = "start_thread op raw first (s\<lparr>gs := g\<rparr>)"
  have g: "g = (gs s)\<lparr>first_insert := False\<rparr>" "first \<longleftrightarrow> first_insert (gs s)"
    using Sink_launch_flags [OF SinkCall(4)] by simp_all
  have "first \<Longrightarrow> consumer s = CNone" using g ctl by (simp add: control_inv_def)
  then have "result_inv ?s1"
    using g inv SinkCall(3) by (cases first) (simp_all add: result_inv_def start_thread_def)
  then have "result_inv (sink_wait used free first chunk ?s1)"
    using SinkCall(3) by (intro result_inv_sink_wait) (simp_all add: start_thread_def)
  with SinkCall(2) show ?thesis by simp
next
  case (SinkRecheck first chunk free)
  with inv show ?thesis by (simp add: result_inv_sink_wait)
next
  case GetNext
  with inv show ?thesis by (simp add: result_inv_get_next_wait)
next
  case GetNextRecheck
  with inv show ?thesis by (simp add: result_inv_get_next_wait)
next
  case (GetNextReturn out)
  with inv show ?thesis by (cases out) (simp_all add: result_inv_def take_delivery_def)
next
  case ReleaseNotify
  with inv show ?thesis
    by (cases "producer s") (simp_all add: result_inv_def wake_producer_def)
next
  case GetNextNotify
  with inv show ?thesis
    by (cases "producer s") (simp_all add: result_inv_def wake_producer_def)
next
  case SinkNotify
  with inv show ?thesis
    by (cases "consumer s") (simp_all add: result_inv_def wake_consumer_def)
next
  case FinalizeNotify
  with inv show ?thesis
    by (cases "consumer s") (simp_all add: result_inv_def wake_consumer_def)
next
  case DestroyNotifyConsumer
  with inv show ?thesis
    by (cases "consumer s") (simp_all add: result_inv_def wake_consumer_def)
qed (use inv in \<open>auto simp: result_inv_def Finalize_signal_def stream_release_def
    AdbcInsertGlobalState_destroy_flags_def\<close>)

lemma result_inv_reach:
  "insert_reach layout used op raw materialize limit s \<Longrightarrow> result_inv s"
proof (induction rule: insert_reach.induct)
  case init
  then show ?case
    by (simp add: result_inv_def insert_init_def AdbcInsertGlobalState_new_def)
next
  case (step s l s')
  show ?case by (rule result_inv_step [OF step(2) control_inv_reach [OF step(1)] step(3)])
qed

end
