(* ===== verification/Insert_Properties.thy ===== *)
theory Insert_Properties
  imports Insert_Protocol
begin

text \<open>
  What holds of every run of an insert (src/adbc\_insert.cpp): an executable form of the step
  relation, the properties of the two threads, and runs that exercise them.
\<close>

section \<open>The step relation as a function\<close>

text \<open>A label decides its step, so that a run is a list of labels.\<close>

fun insert_exec ::
  "('r list list \<Rightarrow> 'r list list) \<Rightarrow> ('r list list \<Rightarrow> nat) \<Rightarrow> adbc_insert \<Rightarrow> hnd \<Rightarrow>
   'r insert_label \<Rightarrow> 'r insert_sys \<Rightarrow> 'r insert_sys option"
where
  "insert_exec layout used op raw (SinkCall chunk free) s =
     (case producer s of
        PIdle \<Rightarrow> (case Sink_launch (gs s) of (first, g) \<Rightarrow>
          Some (sink_wait used free first chunk (start_thread op raw first (s\<lparr>gs := g\<rparr>))))
      | _ \<Rightarrow> None)"
| "insert_exec layout used op raw (SinkRecheck free) s =
     (case producer s of PWoken first chunk \<Rightarrow> Some (sink_wait used free first chunk s) | _ \<Rightarrow> None)"
| "insert_exec layout used op raw SinkNotify s =
     (case producer s of
        PSinkNotify \<Rightarrow> Some (s\<lparr>producer := PIdle, consumer := wake_consumer (consumer s)\<rparr>)
      | _ \<Rightarrow> None)"
| "insert_exec layout used op raw SpuriousProducer s =
     (case producer s of PAsleep first chunk \<Rightarrow> Some (s\<lparr>producer := PWoken first chunk\<rparr>) | _ \<Rightarrow> None)"
| "insert_exec layout used op raw FinalizeCall s =
     (case producer s of
        PIdle \<Rightarrow> Some (s\<lparr>gs := Finalize_signal (gs s), producer := PFinNotify\<rparr>)
      | _ \<Rightarrow> None)"
| "insert_exec layout used op raw FinalizeNotify s =
     (case producer s of
        PFinNotify \<Rightarrow> Some (s\<lparr>producer := PFinJoin, consumer := wake_consumer (consumer s)\<rparr>)
      | _ \<Rightarrow> None)"
| "insert_exec layout used op raw FinalizeJoin s =
     (case (producer s, consumer s) of
        (PFinJoin, CNone) \<Rightarrow> Some (s\<lparr>producer := PFinalized (Finalize_check (gs s))\<rparr>)
      | (PFinJoin, CExited) \<Rightarrow> Some (s\<lparr>producer := PFinalized (Finalize_check (gs s))\<rparr>)
      | _ \<Rightarrow> None)"
| "insert_exec layout used op raw Destroy s =
     (case producer s of
        PIdle \<Rightarrow> Some (s\<lparr>gs := AdbcInsertGlobalState_destroy_flags (gs s), producer := PDtorNotify1\<rparr>)
      | PFinalized r \<Rightarrow>
          Some (s\<lparr>gs := AdbcInsertGlobalState_destroy_flags (gs s), producer := PDtorNotify1\<rparr>)
      | _ \<Rightarrow> None)"
| "insert_exec layout used op raw DestroyNotifyConsumer s =
     (case producer s of
        PDtorNotify1 \<Rightarrow> Some (s\<lparr>producer := PDtorNotify2, consumer := wake_consumer (consumer s)\<rparr>)
      | _ \<Rightarrow> None)"
| "insert_exec layout used op raw DestroyNotifyProducer s =
     (case producer s of PDtorNotify2 \<Rightarrow> Some (s\<lparr>producer := PDtorJoin\<rparr>) | _ \<Rightarrow> None)"
| "insert_exec layout used op raw DestroyJoin s =
     (case (producer s, consumer s) of
        (PDtorJoin, CNone) \<Rightarrow> Some (s\<lparr>producer := PGone\<rparr>)
      | (PDtorJoin, CExited) \<Rightarrow> Some (s\<lparr>producer := PGone\<rparr>)
      | _ \<Rightarrow> None)"
| "insert_exec layout used op raw (CallReturns st affected message) s =
     (if consumer s = CDriver \<or> consumer s = CReleased then
        (case pending s of
           [] \<Rightarrow> None
         | c # cs \<Rightarrow>
             Some (s\<lparr>gs := (gs s)\<lparr>ins_status := st, ins_message := message,
                 rows_affected := (if cs = [] then affected else rows_affected (gs s))\<rparr>,
               pending := (if st = ADBC_STATUS_OK then cs else [])\<rparr>))
      else None)"
| "insert_exec layout used op raw GetNext s =
     (if consumer s = CDriver then Some (get_next_wait layout s) else None)"
| "insert_exec layout used op raw GetNextRecheck s =
     (if consumer s = CWoken then Some (get_next_wait layout s) else None)"
| "insert_exec layout used op raw GetNextNotify s =
     (case consumer s of
        CNotify out \<Rightarrow> Some (s\<lparr>consumer := CReturn out, producer := wake_producer (producer s)\<rparr>)
      | _ \<Rightarrow> None)"
| "insert_exec layout used op raw GetNextReturn s =
     (case consumer s of CReturn out \<Rightarrow> Some (take_delivery out s) | _ \<Rightarrow> None)"
| "insert_exec layout used op raw SpuriousConsumer s =
     (if consumer s = CAsleep then Some (s\<lparr>consumer := CWoken\<rparr>) else None)"
| "insert_exec layout used op raw Release s =
     (if consumer s = CDriver then Some (s\<lparr>gs := stream_release (gs s), consumer := CRelNotify\<rparr>)
      else None)"
| "insert_exec layout used op raw ReleaseNotify s =
     (if consumer s = CRelNotify then
        Some (s\<lparr>consumer := CReleased, producer := wake_producer (producer s)\<rparr>)
      else None)"
| "insert_exec layout used op raw ThreadExit s =
     (if consumer s = CReleased \<and> pending s = [] then Some (s\<lparr>consumer := CExited\<rparr>) else None)"

lemma insert_exec_step:
  "insert_exec layout used op raw l s = Some s' \<Longrightarrow> insert_step layout used op raw l s s'"
proof (cases l)
  case (CallReturns st affected message)
  moreover assume "insert_exec layout used op raw l s = Some s'"
  ultimately obtain c cs where "consumer s \<in> {CDriver, CReleased}" and "pending s = c # cs"
    and "s' = s\<lparr>gs := (gs s)\<lparr>ins_status := st, ins_message := message,
             rows_affected := (if cs = [] then affected else rows_affected (gs s))\<rparr>,
           pending := (if st = ADBC_STATUS_OK then cs else [])\<rparr>"
    by (auto split: list.splits if_splits)
  with CallReturns show ?thesis by (simp only: insert_step.CallReturns)
qed (auto intro: insert_step.intros
      split: producer.splits consumer.splits list.splits if_splits prod.splits)

lemma insert_step_exec:
  "insert_step layout used op raw l s s' \<Longrightarrow> insert_exec layout used op raw l s = Some s'"
  by (induction rule: insert_step.induct) auto

fun insert_run ::
  "('r list list \<Rightarrow> 'r list list) \<Rightarrow> ('r list list \<Rightarrow> nat) \<Rightarrow> adbc_insert \<Rightarrow> hnd \<Rightarrow>
   'r insert_label list \<Rightarrow> 'r insert_sys \<Rightarrow> 'r insert_sys option"
where
  "insert_run layout used op raw [] s = Some s"
| "insert_run layout used op raw (l # ls) s =
     (case insert_exec layout used op raw l s of
        None \<Rightarrow> None
      | Some s' \<Rightarrow> insert_run layout used op raw ls s')"

lemma insert_run_reach:
  "insert_reach layout used op raw materialize limit s \<Longrightarrow>
   insert_run layout used op raw ls s = Some s' \<Longrightarrow>
   insert_reach layout used op raw materialize limit s'"
  by (induction ls arbitrary: s)
    (auto split: option.splits intro: insert_reach.step [OF _ insert_exec_step])

lemmas insert_run_init_reach = insert_run_reach [OF insert_reach.init]

section \<open>Runs\<close>

definition example_op :: adbc_insert where
  "example_op = \<lparr>column_types = [''INTEGER''], column_names = [''a''], ins_table = ''t'',
     ins_schema = [], mode = APPEND\<rparr>"

text \<open>
  Two chunks through a buffer of four: the first is taken at once, the second call sleeps until the
  buffer is handed back; then \<open>Finalize\<close> ends the stream.
\<close>

definition example_sleep :: "int insert_label list" where
  "example_sleep = [SinkCall [1, 2] 100, SinkNotify, SinkCall [3] 100]"

definition example_finish :: "int insert_label list" where
  "example_finish =
     [GetNext, GetNextNotify, GetNextReturn, GetNext, GetNextNotify, SinkRecheck 100, SinkNotify,
      GetNextReturn, GetNext, FinalizeCall, FinalizeNotify, GetNextRecheck, GetNextNotify,
      GetNextReturn, GetNext, GetNextNotify, GetNextReturn]"

definition example_exit :: "int insert_label list" where
  "example_exit =
     [Release, ReleaseNotify] @ replicate 5 (CallReturns ADBC_STATUS_OK 3 None) @
     [ThreadExit, FinalizeJoin]"

lemmas example_defs = example_op_def example_sleep_def example_finish_def example_exit_def
  insert_init_def AdbcInsertGlobalState_new_def sink_wait_def get_next_wait_def Sink_launch_def
  Sink_body_def get_next_body_def producer_ready_def consumer_ready_def start_thread_def
  wake_producer_def wake_consumer_def take_delivery_def get_next_return_def Finalize_signal_def
  stream_release_def AsyncInsert_calls_def target_options_def Let_def

abbreviation example_run :: "int insert_label list \<Rightarrow> int insert_sys option" where
  "example_run ls \<equiv> insert_run (\<lambda>cs. cs) length example_op (Some 1) ls (insert_init False 4)"

lemma example_sleep_state:
  "map_option (\<lambda>s. (producer s, consumer s, sunk s, full (gs s))) (example_run example_sleep)
   = Some (PAsleep False [3], CDriver, [1, 2], True)"
  by (simp add: example_defs)

lemma example_finish_state:
  "map_option (\<lambda>s. (producer s, consumer s, sunk s, delivered s, saw_end s))
     (example_run (example_sleep @ example_finish))
   = Some (PFinJoin, CDriver, [1, 2, 3], [1, 2, 3], True)"
  by (simp add: example_defs)

lemma example_exit_state:
  "map_option (\<lambda>s. (producer s, consumer s, sunk s, saw_end s))
     (example_run (example_sleep @ example_finish @ example_exit))
   = Some (PFinalized (Inr ()), CExited, [1, 2, 3], True)"
  by (simp add: example_defs numeral_eq_Suc Finalize_check_def)

section \<open>Properties\<close>



text \<open>
  C2: the driver gets everything.  When the driver has seen the end of the stream without an
  error, the producer has ended its input and the rows delivered are all the rows sunk, in order.
\<close>

theorem insert_complete:
  assumes "layout_law layout" and "insert_reach layout used op raw materialize limit s"
    and "saw_end s"
  shows "delivered s = sunk s \<and> \<not> sinking (producer s)"
  using data_inv_reach [OF assms(1,2)] assms(3) by (auto simp: data_inv_def)

theorem insert_complete_witness:
  "\<exists>s. example_run (example_sleep @ example_finish) = Some s \<and> sunk s = [1, 2, 3] \<and>
     delivered s = [1, 2, 3]"
proof -
  obtain s where run: "example_run (example_sleep @ example_finish) = Some s"
    and c: "sunk s = [1, 2, 3]" "saw_end s"
    using example_finish_state by auto
  from insert_complete [OF layout_law_id insert_run_init_reach [OF run] c(2)] run c
  show ?thesis by auto
qed

text \<open>
  C3: no wake-up is lost.  A thread asleep in a wait whose predicate holds has a notification
  coming from the other thread; and a released stream never holds the producer back.
\<close>

theorem insert_no_lost_wakeup:
  assumes "insert_reach layout used op raw materialize limit s"
  shows "(producer s = PAsleep first chunk \<and> producer_ready (gs s) \<longrightarrow>
            will_notify_producer (consumer s)) \<and>
         (consumer s = CAsleep \<and> consumer_ready (gs s) \<longrightarrow>
            will_notify_consumer (producer s)) \<and>
         (released_stream (consumer s) \<longrightarrow> producer_ready (gs s))"
  using control_inv_reach [OF assms] by (auto simp: control_inv_def producer_ready_def)

theorem insert_no_lost_wakeup_witness:
  "\<exists>s. example_run (example_sleep @
        [GetNext, GetNextNotify, SinkRecheck 100, GetNextReturn, GetNext]) = Some s \<and>
     producer s = PAsleep False [3] \<and> producer_ready (gs s) \<and> will_notify_producer (consumer s)"
proof -
  obtain s where run: "example_run (example_sleep @
        [GetNext, GetNextNotify, SinkRecheck 100, GetNextReturn, GetNext]) = Some s"
    and c: "producer s = PAsleep False [3]" "producer_ready (gs s)"
    by (simp add: example_defs)
  from insert_no_lost_wakeup [OF insert_run_init_reach [OF run], of False "[3]"] run c
  show ?thesis by auto
qed

text \<open>
  C4: the threads cannot deadlock.  In every reachable state in which the producer is inside a
  call, some step is possible that starts no new call and is no spurious wake-up.
\<close>

theorem insert_no_deadlock:
  assumes "insert_reach layout used op raw materialize limit s"
    and "producer s \<notin> {PIdle, PGone}" and "\<forall>r. producer s \<noteq> PFinalized r"
  shows "\<exists>l s'. insert_step layout used op raw l s s' \<and> l \<notin> {SpuriousProducer, SpuriousConsumer}"
proof -
  have consumer_moves: ?thesis if "consumer s \<notin> {CNone, CAsleep, CExited}"
  proof (cases "consumer s")
    case CDriver then show ?thesis using insert_step.GetNext by blast
  next
    case CWoken then show ?thesis using insert_step.GetNextRecheck by blast
  next
    case (CNotify out) then show ?thesis using insert_step.GetNextNotify by blast
  next
    case (CReturn out) then show ?thesis using insert_step.GetNextReturn by blast
  next
    case CRelNotify then show ?thesis using insert_step.ReleaseNotify by blast
  next
    case CReleased
    show ?thesis
    proof (cases "pending s")
      case Nil
      with CReleased show ?thesis using insert_step.ThreadExit by blast
    next
      case (Cons c cs)
      with CReleased show ?thesis using insert_step.CallReturns [of s c cs] by blast
    qed
  qed (use that in auto)
  note inv = control_inv_reach [OF assms(1), unfolded control_inv_def]
  show ?thesis
  proof (cases "producer s")
    case (PAsleep first chunk)
    with inv have "consumer s \<notin> {CNone, CAsleep, CExited}"
      by (auto simp: producer_ready_def consumer_ready_def)
    then show ?thesis by (rule consumer_moves)
  next
    case (PWoken first chunk) then show ?thesis using insert_step.SinkRecheck by blast
  next
    case PSinkNotify then show ?thesis using insert_step.SinkNotify by blast
  next
    case PFinNotify then show ?thesis using insert_step.FinalizeNotify by blast
  next
    case PFinJoin
    with inv have "consumer s \<noteq> CAsleep" by (auto simp: consumer_ready_def)
    with PFinJoin show ?thesis using insert_step.FinalizeJoin consumer_moves by blast
  next
    case PDtorNotify1 then show ?thesis using insert_step.DestroyNotifyConsumer by blast
  next
    case PDtorNotify2 then show ?thesis using insert_step.DestroyNotifyProducer by blast
  next
    case PDtorJoin
    with inv have "consumer s \<noteq> CAsleep" by (auto simp: consumer_ready_def)
    with PDtorJoin show ?thesis using insert_step.DestroyJoin consumer_moves by blast
  qed (use assms in auto)
qed

theorem insert_no_deadlock_witness:
  "\<exists>s l s'. example_run example_sleep = Some s \<and> producer s = PAsleep False [3] \<and>
     insert_step (\<lambda>cs. cs) length example_op (Some 1) l s s' \<and>
     l \<notin> {SpuriousProducer, SpuriousConsumer}"
proof -
  obtain s where run: "example_run example_sleep = Some s" and p: "producer s = PAsleep False [3]"
    using example_sleep_state by auto
  then have "producer s \<notin> {PIdle, PGone}" "\<forall>r. producer s \<noteq> PFinalized r" by auto
  from insert_no_deadlock [OF insert_run_init_reach [OF run] this] run p show ?thesis by blast
qed



text \<open>
  producer and consumer take turns.  Rows are appended while the stream is alive only when the
  scan is at the start of the collection, so an append never invalidates a scan under way.
\<close>

theorem insert_append_excludes_scan:
  assumes "layout_law layout" and "insert_reach layout used op raw materialize limit s"
    and "insert_step layout used op raw l s s'" and "sunk s' \<noteq> sunk s"
    and "stream_alive (consumer s)"
  shows "scan_pos s = 0 \<and> \<not> full (gs s)"
proof -
  note ctl = control_inv_reach [OF assms(2)] and data = data_inv_reach [OF assms(1,2)]
  have in_call: "producer_ready (gs s) \<and> sinking (producer s)"
    using assms(3,4)
  proof (cases rule: insert_step.cases)
    case (SinkCall first g chunk free)
    with assms(4) Sink_launch_flags [OF SinkCall(4)] show ?thesis
      by (auto simp: sink_wait_def start_thread_def producer_ready_def split: if_splits)
  next
    case (SinkRecheck first chunk free)
    with assms(4) show ?thesis by (auto simp: sink_wait_def split: if_splits)
  qed (auto simp: get_next_wait_def take_delivery_def split: if_splits prod.splits arrow_out.splits)
  moreover from in_call have "\<not> is_done (gs s)"
    using ctl assms(5) by (auto simp: control_inv_def stream_alive_def)
  ultimately have "\<not> full (gs s)" by (auto simp: producer_ready_def)
  with scan_at_start [OF ctl data \<open>\<not> is_done (gs s)\<close>] show ?thesis by simp
qed

theorem insert_append_excludes_scan_witness:
  "\<exists>s s'. example_run (example_sleep @ [GetNext, GetNextNotify, GetNextReturn, GetNext]) = Some s \<and>
     insert_step (\<lambda>cs. cs) length example_op (Some 1) (SinkRecheck 100) s s' \<and>
     sunk s' = sunk s @ [3] \<and> scan_pos s = 0"
proof -
  obtain s where run:
      "example_run (example_sleep @ [GetNext, GetNextNotify, GetNextReturn, GetNext]) = Some s"
    and c: "producer s = PWoken False [3]" "stream_alive (consumer s)"
      "sunk (sink_wait length 100 False [3] s) = sunk s @ [3]"
    by (simp add: example_defs stream_alive_def)
  have step: "insert_step (\<lambda>cs. cs) length example_op (Some 1) (SinkRecheck 100) s
      (sink_wait length 100 False [3] s)"
    by (rule insert_step.SinkRecheck [OF c(1)])
  from insert_append_excludes_scan [OF layout_law_id insert_run_init_reach [OF run] step _ c(2)]
    run c step
  show ?thesis by auto
qed

text \<open>
  \<open>Sink\<close> never declines input.  The cancel flag is set only by the destructor, so a chunk that
  gets past the wait is always appended and more input asked for, also after the driver has failed
  and dropped the stream: the error shows only in \<open>Finalize\<close>.
\<close>

theorem insert_sink_always_appends:
  assumes "insert_reach layout used op raw materialize limit s" and "sinking (producer s)"
  shows "\<exists>g. Sink_body used free first chunk (gs s) = (NEED_MORE_INPUT, g) \<and>
     collection g = collection (gs s) @ [chunk]"
proof -
  have "\<not> canceled (gs s)"
    using control_inv_reach [OF assms(1)] assms(2)
    by (cases "producer s") (auto simp: control_inv_def)
  then show ?thesis by (auto simp: Sink_body_def Let_def)
qed

theorem insert_sink_always_appends_witness:
  "\<exists>s g. example_run [SinkCall [1] 100, SinkNotify, Release, ReleaseNotify] = Some s \<and>
     is_done (gs s) \<and>
     Sink_body length 100 False [2] (gs s) = (NEED_MORE_INPUT, g) \<and>
     collection g = [[1], [2]]"
proof -
  obtain s where run: "example_run [SinkCall [1] 100, SinkNotify, Release, ReleaseNotify] = Some s"
    and c: "sinking (producer s)" "is_done (gs s)" "collection (gs s) = [[1]]"
    by (simp add: example_defs)
  from insert_sink_always_appends [OF insert_run_init_reach [OF run] c(1), of 100 False "[2]"] run c
  show ?thesis by auto
qed



text \<open>
  The first error stays.  Once a call of the API has failed no step changes the status or the
  message, so \<open>Finalize\<close> reports that failure.
\<close>

theorem insert_error_sticky:
  assumes "insert_reach layout used op raw materialize limit s"
    and "ins_status (gs s) \<noteq> ADBC_STATUS_OK"
    and "insert_step layout used op raw l s s'"
  shows "ins_status (gs s') = ins_status (gs s) \<and> ins_message (gs s') = ins_message (gs s)"
proof -
  have p: "pending s = []" "consumer s \<noteq> CNone"
    using result_inv_reach [OF assms(1)] assms(2) by (auto simp: result_inv_def)
  show ?thesis
    using assms(3)
  proof (cases rule: insert_step.cases)
    case (SinkCall first g chunk free)
    with Sink_launch_flags [OF SinkCall(4)] show ?thesis
      by (auto simp: sink_wait_def start_thread_def Sink_body_def Let_def)
  next
    case (SinkRecheck first chunk free)
    then show ?thesis by (auto simp: sink_wait_def Sink_body_def Let_def)
  next
    case (GetNextReturn out)
    then show ?thesis by (cases out) (simp_all add: take_delivery_def)
  qed (use p in \<open>auto simp: get_next_wait_def get_next_body_def Let_def Finalize_signal_def
      stream_release_def AdbcInsertGlobalState_destroy_flags_def\<close>)
qed

theorem insert_error_sticky_witness:
  "\<exists>s s'. example_run [SinkCall [1] 100, CallReturns ADBC_STATUS_IO 0 (Some ''no'')] = Some s \<and>
     insert_step (\<lambda>cs. cs) length example_op (Some 1) Release s s' \<and>
     ins_status (gs s') = ADBC_STATUS_IO"
proof -
  let ?ls = "[SinkCall [1] 100, CallReturns ADBC_STATUS_IO 0 (Some ''no'')]"
  obtain s where run: "example_run ?ls = Some s"
    and c: "consumer s = CDriver" "ins_status (gs s) = ADBC_STATUS_IO"
    by (simp add: example_defs)
  have step: "insert_step (\<lambda>cs. cs) length example_op (Some 1) Release s
      (s\<lparr>gs := stream_release (gs s), consumer := CRelNotify\<rparr>)"
    by (rule insert_step.Release [OF c(1)])
  have "ins_status (gs s) \<noteq> ADBC_STATUS_OK" using c by simp
  from insert_error_sticky [OF insert_run_init_reach [OF run] this step] run step c
  show ?thesis by auto
qed

end
