(* ===== verification/Adbc_Objects.thy ===== *)
theory Adbc_Objects
  imports Connection_Pool
begin

text \<open>
  src/adbc\_catalog.cpp and src/adbc\_table\_entry.cpp, the metadata a catalog reads through the C
  API: the current catalog's name, the names of schemas and tables out of the nested arrays of
  \<open>GetObjects\<close>, and a table's cardinality out of those of \<open>GetStatistics\<close>.  Raw reads through
  pointers fail in the model where the code would read through null or out of bounds.
\<close>

section \<open>Reading arrays\<close>

definition child_ptr :: "arrow \<Rightarrow> nat \<Rightarrow> exn + arrow option" where
  "child_ptr a i =
     (if i < length (arr_children a) then Inr (arr_children a ! i) else Inl UndefinedBehaviour)"

definition deref :: "'a option \<Rightarrow> exn + 'a" where
  "deref p = (case p of None \<Rightarrow> Inl NullDereference | Some x \<Rightarrow> Inr x)"

definition child :: "arrow \<Rightarrow> nat \<Rightarrow> exn + arrow" where
  "child a i = r_bind (child_ptr a i) deref"

definition buffer_ptr :: "arrow \<Rightarrow> nat \<Rightarrow> exn + buffer option" where
  "buffer_ptr a i =
     (if i < length (arr_buffers a) then Inr (arr_buffers a ! i) else Inl UndefinedBehaviour)"

text \<open>\<open>p[i]\<close> for a pointer to 32-bit integers.\<close>

definition int32_at :: "buffer option \<Rightarrow> int \<Rightarrow> exn + int" where
  "int32_at p i =
     r_bind (deref p) (\<lambda>b. case b of
       Int32s xs \<Rightarrow>
         if 0 \<le> i \<and> i < int (length xs) then Inr (sint (xs ! nat i)) else Inl UndefinedBehaviour
     | _ \<Rightarrow> Inl UndefinedBehaviour)"

text \<open>
  \<open>string(data + start, end - start)\<close>: a negative length is a huge one and throws; no byte is read
  for an empty string, whatever the pointer.
\<close>

definition string_of :: "buffer option \<Rightarrow> int \<Rightarrow> int \<Rightarrow> exn + string" where
  "string_of p start stop =
     (if stop < start then Inl (StdException ''length_error'')
      else if stop = start then Inr []
      else r_bind (deref p) (\<lambda>b. case b of
        Chars s \<Rightarrow>
          if 0 \<le> start \<and> stop \<le> int (length s) then
            Inr (take (nat (stop - start)) (drop (nat start) s))
          else Inl UndefinedBehaviour
      | _ \<Rightarrow> Inl UndefinedBehaviour))"

definition names_between :: "arrow \<Rightarrow> int \<Rightarrow> int \<Rightarrow> exn + string list" where
  "names_between a start stop =
     r_bind (buffer_ptr a 1) (\<lambda>offsets. r_bind (buffer_ptr a 2) (\<lambda>data.
       r_collect (\<lambda>k. r_bind (int32_at offsets k) (\<lambda>s. r_bind (int32_at offsets (k + 1)) (\<lambda>e.
         r_bind (string_of data s e) (\<lambda>n. Inr [n])))) [start..stop - 1]))"

section \<open>Schema and table names\<close>

text \<open>The callbacks of \<open>FetchSchemaNames\<close> and \<open>FetchTableNames\<close>, one batch at a time.\<close>

definition schema_names_of :: "arrow \<Rightarrow> exn + string list" where
  "schema_names_of batch =
     r_bind (child_ptr batch 1) (\<lambda>lp.
       r_collect (\<lambda>i.
         r_bind (deref lp) (\<lambda>schemas_list.
         r_bind (buffer_ptr schemas_list 1) (\<lambda>offsets.
         r_bind (int32_at offsets i) (\<lambda>start_idx.
         r_bind (int32_at offsets (i + 1)) (\<lambda>end_idx.
         r_bind (child schemas_list 0) (\<lambda>schemas_struct.
         r_bind (child schemas_struct 0) (\<lambda>name_array.
           names_between name_array start_idx end_idx)))))))
         [0..arr_length batch - 1])"

definition table_names_of :: "arrow \<Rightarrow> exn + string list" where
  "table_names_of batch =
     r_bind (child_ptr batch 1) (\<lambda>lp.
       r_collect (\<lambda>i.
         r_bind (deref lp) (\<lambda>schemas_list.
         r_bind (buffer_ptr schemas_list 1) (\<lambda>offsets.
         r_bind (int32_at offsets i) (\<lambda>schema_start.
         r_bind (int32_at offsets (i + 1)) (\<lambda>schema_end.
         r_bind (child_ptr schemas_list 0) (\<lambda>sp.
           r_collect (\<lambda>j.
             r_bind (deref sp) (\<lambda>schemas_struct.
             r_bind (child schemas_struct 1) (\<lambda>tables_list.
             r_bind (buffer_ptr tables_list 1) (\<lambda>table_offsets.
             r_bind (int32_at table_offsets j) (\<lambda>table_start.
             r_bind (int32_at table_offsets (j + 1)) (\<lambda>table_end.
             r_bind (child tables_list 0) (\<lambda>table_struct.
             r_bind (child table_struct 0) (\<lambda>table_names.
               names_between table_names table_start table_end))))))))
             [schema_start..schema_end - 1]))))))
         [0..arr_length batch - 1])"

definition ADBC_OBJECT_DEPTH_DB_SCHEMAS :: nat where "ADBC_OBJECT_DEPTH_DB_SCHEMAS = 2"
definition ADBC_OBJECT_DEPTH_TABLES :: nat where "ADBC_OBJECT_DEPTH_TABLES = 3"

text \<open>
  \<open>ForEachCatalog\<close> on a leased connection, for callbacks that collect names and never stop early:
  the batches of the reply are those before the end of the stream or an error of \<open>get_next\<close>.
\<close>

definition ForEachCatalog ::
  "'w adbc \<Rightarrow> string \<Rightarrow> string option \<Rightarrow> nat \<Rightarrow> (arrow \<Rightarrow> exn + string list) \<Rightarrow> pooled \<Rightarrow>
   ('w, string list) io"
where
  "ForEachCatalog adbc catalog_name schema_name depth callback l w =
     (case adbc (ConnectionGetObjects (connection (conn l)) depth
          (if catalog_name = [] then None else Some catalog_name) schema_name) w of
        (r, w1) \<Rightarrow>
          (case CHECK_ADBC IOException r of
             Inl e \<Rightarrow> (Inl e, w1)
           | Inr _ \<Rightarrow> (r_collect callback (rp_batches r), w1)))"

definition FetchSchemaNames ::
  "'w adbc \<Rightarrow> string \<Rightarrow> pool \<Rightarrow> 'w \<Rightarrow> (exn + string list) \<times> pool \<times> 'w"
where
  "FetchSchemaNames adbc catalog_name =
     with_lease (GetConnection adbc) (AdbcPooledConnection_destroy adbc)
       (ForEachCatalog adbc catalog_name None ADBC_OBJECT_DEPTH_DB_SCHEMAS schema_names_of)"

definition FetchTableNames ::
  "'w adbc \<Rightarrow> string \<Rightarrow> string \<Rightarrow> pool \<Rightarrow> 'w \<Rightarrow> (exn + string list) \<times> pool \<times> 'w"
where
  "FetchTableNames adbc catalog_name internal_schema =
     with_lease (GetConnection adbc) (AdbcPooledConnection_destroy adbc)
       (ForEachCatalog adbc catalog_name (Some internal_schema) ADBC_OBJECT_DEPTH_TABLES
          table_names_of)"

section \<open>The catalog's name\<close>

text \<open>
  A buffer on the stack first, then one of the length the driver asks for.  \<open>rp_value\<close> is the C
  string in the caller's buffer after the call, \<open>rp_length\<close> the length written back.
\<close>

definition FetchCatalogName_body :: "'w adbc \<Rightarrow> pooled \<Rightarrow> ('w, string) io" where
  "FetchCatalogName_body adbc l w =
     (let key = ''adbc.connection.catalog''; h = connection (conn l); stack_size = 4096 in
      case adbc (ConnectionGetOption h key stack_size) w of
        (r, w1) \<Rightarrow>
          if rp_status r = ADBC_STATUS_NOT_FOUND then (Inr [], w1)
          else
            (case CHECK_ADBC IOException r of
               Inl e \<Rightarrow> (Inl e, w1)
             | Inr _ \<Rightarrow>
                 if rp_length r \<le> stack_size then (Inr (rp_value r), w1)
                 else
                   (case adbc (ConnectionGetOption h key (rp_length r)) w1 of
                      (r2, w2) \<Rightarrow>
                        (case CHECK_ADBC BinderException r2 of
                           Inl e \<Rightarrow> (Inl e, w2)
                         | Inr _ \<Rightarrow> (Inr (rp_value r2), w2)))))"

definition FetchCatalogName ::
  "'w adbc \<Rightarrow> pool \<Rightarrow> 'w \<Rightarrow> (exn + string) \<times> pool \<times> 'w"
where
  "FetchCatalogName adbc =
     with_lease (GetConnection adbc) (AdbcPooledConnection_destroy adbc) (FetchCatalogName_body adbc)"

section \<open>Cardinality\<close>

definition ADBC_STATISTIC_ROW_COUNT_KEY :: "16 word" where "ADBC_STATISTIC_ROW_COUNT_KEY = 6"

text \<open>The cast of a double to an unsigned 64-bit integer truncates; out of range it is undefined.\<close>

definition double_to_idx :: "double \<Rightarrow> exn + idx_t" where
  "double_to_idx d =
     (case d of
        Finite q \<Rightarrow>
          if -1 < q \<and> q < 2 ^ 64 then Inr (of_int (if q < 0 then 0 else \<lfloor>q\<rfloor>))
          else Inl UndefinedBehaviour
      | _ \<Rightarrow> Inl UndefinedBehaviour)"

definition nth_or_undefined :: "'a list \<Rightarrow> int \<Rightarrow> exn + 'a" where
  "nth_or_undefined xs i =
     (if 0 \<le> i \<and> i < int (length xs) then Inr (xs ! nat i) else Inl UndefinedBehaviour)"

fun int16s :: "buffer \<Rightarrow> exn + 16 word list" where
  "int16s (Int16s xs) = Inr xs"
| "int16s _ = Inl UndefinedBehaviour"

fun int8s :: "buffer \<Rightarrow> exn + 8 word list" where
  "int8s (Int8s xs) = Inr xs"
| "int8s _ = Inl UndefinedBehaviour"

fun doubles :: "buffer \<Rightarrow> exn + double list" where
  "doubles (Doubles xs) = Inr xs"
| "doubles _ = Inl UndefinedBehaviour"

fun bits :: "buffer \<Rightarrow> exn + 8 word list" where
  "bits (Bits xs) = Inr xs"
| "bits _ = Inl UndefinedBehaviour"

text \<open>\<open>!validity || !((validity[i / 8] >> (i % 8)) & 1)\<close>.\<close>

definition is_whole_table :: "buffer option \<Rightarrow> int \<Rightarrow> exn + bool" where
  "is_whole_table validity i =
     (case validity of
        None \<Rightarrow> Inr True
      | Some b \<Rightarrow> r_bind (bits b) (\<lambda>bs. r_bind (nth_or_undefined bs (i div 8)) (\<lambda>byte.
          Inr (\<not> bit byte (nat (i mod 8))))))"

text \<open>The loop over the rows of one table's statistics, from row \<open>i\<close>, with \<open>n\<close> rows left.\<close>

primrec statistic_rows ::
  "buffer option \<Rightarrow> buffer \<Rightarrow> buffer \<Rightarrow> buffer option \<Rightarrow> buffer \<Rightarrow> nat \<Rightarrow> int \<Rightarrow> exn + idx_t option"
where
  "statistic_rows validity keys types offsets values 0 i = Inr None"
| "statistic_rows validity keys types offsets values (Suc n) i =
     r_bind (is_whole_table validity i) (\<lambda>whole.
       r_bind (if whole then r_bind (int16s keys) (\<lambda>ks. r_bind (nth_or_undefined ks i) (\<lambda>k.
                 Inr (k = ADBC_STATISTIC_ROW_COUNT_KEY))) else Inr False) (\<lambda>is_count.
       r_bind (if is_count then r_bind (int8s types) (\<lambda>ts. r_bind (nth_or_undefined ts i) (\<lambda>t.
                 Inr (t = 2))) else Inr False) (\<lambda>is_double.
       if is_double then
         r_bind (int32_at offsets i) (\<lambda>j.
         r_bind (doubles values) (\<lambda>vs.
         r_bind (nth_or_undefined vs j) (\<lambda>v.
         r_bind (double_to_idx v) (\<lambda>c. Inr (Some c)))))
       else statistic_rows validity keys types offsets values n (i + 1))))"

text \<open>A child that exists and is not null; None is where the code goes on to the next batch.\<close>

definition present_child :: "arrow \<Rightarrow> nat \<Rightarrow> nat \<Rightarrow> arrow option" where
  "present_child a n i = (if length (arr_children a) < n then None else arr_children a ! i)"

definition nonempty :: "arrow \<Rightarrow> bool" where
  "nonempty a \<longleftrightarrow> arr_length a \<noteq> 0"

definition batch_row_count :: "arrow \<Rightarrow> exn + idx_t option" where
  "batch_row_count batch =
     (case present_child batch 2 1 of None \<Rightarrow> Inr None | Some schemas_list \<Rightarrow>
      if \<not> nonempty schemas_list then Inr None else
      case present_child schemas_list 1 0 of None \<Rightarrow> Inr None | Some schema_struct \<Rightarrow>
      if \<not> nonempty schema_struct then Inr None else
      case present_child schema_struct 2 1 of None \<Rightarrow> Inr None | Some tables_list \<Rightarrow>
      if \<not> nonempty tables_list then Inr None else
      case present_child tables_list 1 0 of None \<Rightarrow> Inr None | Some table_struct \<Rightarrow>
      if \<not> nonempty table_struct then Inr None else
      case (present_child table_struct 4 1, present_child table_struct 4 2,
            present_child table_struct 4 3) of
        (Some col_name_col, Some stat_key_col, Some stat_val_col) \<Rightarrow>
          (case present_child stat_val_col 3 2 of None \<Rightarrow> Inr None | Some double_child \<Rightarrow>
           r_bind (buffer_ptr stat_key_col 1) (\<lambda>keys.
           r_bind (buffer_ptr stat_val_col 0) (\<lambda>types.
           r_bind (buffer_ptr stat_val_col 1) (\<lambda>offsets.
           r_bind (buffer_ptr double_child 1) (\<lambda>values.
             case (keys, types, offsets, values) of
               (Some k, Some t, Some offs, Some v) \<Rightarrow>
                 r_bind (buffer_ptr col_name_col 0) (\<lambda>validity.
                   statistic_rows validity k t offsets v (nat (arr_length table_struct)) 0)
             | _ \<Rightarrow> Inr None)))))
      | _ \<Rightarrow> Inr None)"

fun batches_row_count :: "arrow list \<Rightarrow> exn + idx_t option" where
  "batches_row_count [] = Inr None"
| "batches_row_count (b # bs) =
     r_bind (batch_row_count b) (\<lambda>c. case c of Some n \<Rightarrow> Inr (Some n) | None \<Rightarrow> batches_row_count bs)"

text \<open>The \<open>catalog_name\<close> the function takes is not used: the catalog passed on is null.\<close>

definition GetTableCardinality ::
  "'w adbc \<Rightarrow> hnd \<Rightarrow> string option \<Rightarrow> string \<Rightarrow> string \<Rightarrow> ('w, idx_t option) io"
where
  "GetTableCardinality adbc c catalog_name schema_name table_name w =
     (case adbc (ConnectionGetStatistics c None schema_name table_name True) w of
        (r, w1) \<Rightarrow>
          if rp_status r = ADBC_STATUS_NOT_IMPLEMENTED then (Inr None, w1)
          else
            (case CHECK_ADBC IOException r of
               Inl e \<Rightarrow> (Inl e, w1)
             | Inr _ \<Rightarrow> (batches_row_count (rp_batches r), w1)))"

section \<open>Encoding: what a driver sends\<close>

text \<open>
  The layout of nested lists in the Arrow C data interface: \<open>offsets\<close> are the running sums of the
  lengths, the children hold the concatenation.  A catalog is its name with its schemas, a schema
  its name with its tables.
\<close>

fun offsets_from :: "nat \<Rightarrow> nat list \<Rightarrow> nat list" where
  "offsets_from s [] = [s]"
| "offsets_from s (l # ls) = s # offsets_from (s + l) ls"

definition offset_buffer :: "nat list \<Rightarrow> buffer" where
  "offset_buffer ls = Int32s (map of_nat (offsets_from 0 ls))"

definition utf8_array :: "string list \<Rightarrow> arrow" where
  "utf8_array xs = Arrow (int (length xs)) []
     [None, Some (offset_buffer (map length xs)), Some (Chars (concat xs))]"

definition list_array :: "nat list \<Rightarrow> arrow \<Rightarrow> arrow" where
  "list_array ls c = Arrow (int (length ls)) [Some c] [None, Some (offset_buffer ls)]"

definition struct_array :: "nat \<Rightarrow> arrow list \<Rightarrow> arrow" where
  "struct_array n cs = Arrow (int n) (map Some cs) [None]"

definition objects_batch :: "(string \<times> (string \<times> string list) list) list \<Rightarrow> arrow" where
  "objects_batch cats =
     (let schemas = concat (map snd cats); tables = concat (map snd schemas);
          tables_list = list_array (map (length \<circ> snd) schemas)
            (struct_array (length tables) [utf8_array tables]);
          schemas_list = list_array (map (length \<circ> snd) cats)
            (struct_array (length schemas) [utf8_array (map fst schemas), tables_list])
      in struct_array (length cats) [utf8_array (map fst cats), schemas_list])"

text \<open>The offsets fit 32 bits.\<close>

definition objects_fit :: "(string \<times> (string \<times> string list) list) list \<Rightarrow> bool" where
  "objects_fit cats \<longleftrightarrow>
     (let schemas = concat (map snd cats); tables = concat (map snd schemas)
      in length schemas < 2 ^ 31 \<and> length tables < 2 ^ 31 \<and>
         length (concat (map fst schemas)) < 2 ^ 31 \<and> length (concat tables) < 2 ^ 31)"

lemma offsets_from_length [simp]: "length (offsets_from s ls) = Suc (length ls)"
  by (induction s ls rule: offsets_from.induct) simp_all

lemma offsets_from_nth: "i \<le> length ls \<Longrightarrow> offsets_from s ls ! i = s + sum_list (take i ls)"
proof (induction s ls arbitrary: i rule: offsets_from.induct)
  case (2 s l ls)
  then show ?case by (cases i) simp_all
qed simp

lemma sum_list_take_le: "sum_list (take i ls) \<le> sum_list ls" for ls :: "nat list"
  by (metis append_take_drop_id le_add1 sum_list_append)

lemma sint_of_nat32: "n < 2 ^ 31 \<Longrightarrow> sint (of_nat n :: 32 word) = int n"
  by (simp add: signed_of_nat signed_take_bit_int_eq_self)

lemma offset_at:
  assumes "sum_list ls < 2 ^ 31" and "i \<le> length ls"
  shows "int32_at (Some (offset_buffer ls)) (int i) = Inr (int (sum_list (take i ls)))"
proof -
  have "sum_list (take i ls) < 2 ^ 31" using sum_list_take_le [of i ls] assms(1) by linarith
  then show ?thesis
    using assms(2)
    by (simp add: int32_at_def deref_def offset_buffer_def offsets_from_nth sint_of_nat32)
qed

lemma take_concat:
  "i < length xs \<Longrightarrow>
   take (length (xs ! i)) (drop (sum_list (map length (take i xs))) (concat xs)) = xs ! i"
proof (induction xs arbitrary: i)
  case (Cons x xs)
  then show ?case by (cases i) simp_all
qed simp

lemma sum_list_map_length: "sum_list (map length xs) = length (concat xs)"
  by (simp add: length_concat)

text \<open>A string out of a UTF-8 array.\<close>

lemma utf8_name:
  assumes "length (concat xs) < 2 ^ 31" and "k < length xs"
  shows "r_bind (int32_at (Some (offset_buffer (map length xs))) (int k)) (\<lambda>s.
      r_bind (int32_at (Some (offset_buffer (map length xs))) (int k + 1)) (\<lambda>e.
        r_bind (string_of (Some (Chars (concat xs))) s e) (\<lambda>n. Inr [n]))) = Inr [xs ! k]"
proof -
  let ?s = "sum_list (map length (take k xs))"
  have fits: "sum_list (map length xs) < 2 ^ 31" using assms(1) by (simp add: length_concat)
  have s: "int32_at (Some (offset_buffer (map length xs))) (int k) = Inr (int ?s)"
    using offset_at [OF fits, of k] assms(2) by (simp add: take_map)
  have suc: "take (Suc k) xs = take k xs @ [xs ! k]" using assms(2) by (simp add: take_Suc_conv_app_nth)
  have e: "int32_at (Some (offset_buffer (map length xs))) (int k + 1) = Inr (int (?s + length (xs ! k)))"
    using offset_at [OF fits, of "Suc k"] assms(2) by (simp add: take_map suc add.commute)
  have "sum_list (take (Suc k) (map length xs)) = ?s + length (xs ! k)"
    by (simp add: take_map suc)
  moreover have "length (concat xs) = sum_list (map length xs)" by (simp add: length_concat)
  ultimately have le: "?s + length (xs ! k) \<le> length (concat xs)"
    using sum_list_take_le [of "Suc k" "map length xs"] by linarith
  have "string_of (Some (Chars (concat xs))) (int ?s) (int (?s + length (xs ! k))) = Inr (xs ! k)"
  proof (cases "xs ! k = []")
    case True
    then show ?thesis by (simp add: string_of_def)
  next
    case False
    with le take_concat [OF assms(2)] show ?thesis
      by (simp add: string_of_def deref_def)
  qed
  with s e show ?thesis by simp
qed

lemma upto_int_upt: "[int a..int b - 1] = map int [a..<b]"
  by (rule nth_equalityI) auto

lemma names_between_utf8:
  assumes "length (concat xs) < 2 ^ 31" and "b \<le> length xs"
  shows "names_between (utf8_array xs) (int a) (int b) = Inr (map ((!) xs) [a..<b])"
proof -
  let ?f = "\<lambda>k. r_bind (int32_at (Some (offset_buffer (map length xs))) k) (\<lambda>s.
      r_bind (int32_at (Some (offset_buffer (map length xs))) (k + 1)) (\<lambda>e.
        r_bind (string_of (Some (Chars (concat xs))) s e) (\<lambda>n. Inr [n])))"
  have "r_collect ?f (map int [a..<b]) = Inr (concat (map (\<lambda>k. [xs ! nat k]) (map int [a..<b])))"
    by (rule r_collect_Inr) (use assms utf8_name in auto)
  moreover have "concat (map (\<lambda>k. [xs ! nat k]) (map int [a..<b])) = map ((!) xs) [a..<b]"
    by (induction b) simp_all
  ultimately show ?thesis
    by (simp add: names_between_def buffer_ptr_def utf8_array_def upto_int_upt numeral_2_eq_2)
qed

text \<open>Visiting the ranges between neighbouring offsets visits everything once, in order.\<close>

lemma concat_ranges:
  "n \<le> length ls \<Longrightarrow>
   concat (map (\<lambda>i. concat (map h [sum_list (take i ls)..<sum_list (take (Suc i) ls)])) [0..<n])
   = concat (map h [0..<sum_list (take n ls)])" for ls :: "nat list"
proof (induction n)
  case (Suc n)
  have le: "sum_list (take n ls) \<le> sum_list (take (Suc n) ls)"
    using Suc.prems by (simp add: take_Suc_conv_app_nth)
  then have "[0..<sum_list (take (Suc n) ls)]
      = [0..<sum_list (take n ls)] @ [sum_list (take n ls)..<sum_list (take (Suc n) ls)]"
    using upt_add_eq_append [of 0 "sum_list (take n ls)"
        "sum_list (take (Suc n) ls) - sum_list (take n ls)"] by simp
  with Suc show ?case by simp
qed simp

lemma collect_range:
  assumes "\<And>j. a \<le> j \<Longrightarrow> j < b \<Longrightarrow> f (int j) = Inr (h j)"
  shows "r_collect f [int a..int b - 1] = Inr (concat (map h [a..<b]))"
proof -
  have "r_collect f (map int [a..<b]) = Inr (concat (map (h \<circ> nat) (map int [a..<b])))"
    by (rule r_collect_Inr) (use assms in auto)
  then show ?thesis by (simp add: upto_int_upt comp_def)
qed

lemma collect_list_array:
  assumes "\<And>i. i < length ls \<Longrightarrow>
     f (int i) = Inr (concat (map h [sum_list (take i ls)..<sum_list (take (Suc i) ls)]))"
  shows "r_collect f [0..int (length ls) - 1] = Inr (concat (map h [0..<sum_list ls]))"
  using collect_range [of 0 "length ls" f, OF assms] concat_ranges [of "length ls" ls h] by simp

lemma offsets_pair:
  assumes "sum_list ls < 2 ^ 31" and "i < length ls"
  shows "int32_at (Some (offset_buffer ls)) (int i) = Inr (int (sum_list (take i ls)))"
    and "int32_at (Some (offset_buffer ls)) (int i + 1) = Inr (int (sum_list (take (Suc i) ls)))"
    and "sum_list (take (Suc i) ls) \<le> sum_list ls"
  using offset_at [OF assms(1), of i] offset_at [OF assms(1), of "Suc i"] assms(2)
    sum_list_take_le [of "Suc i" ls]
  by (simp_all add: add.commute)

lemma names_of_utf8:
  assumes "length (concat xs) < 2 ^ 31" and "b \<le> length xs"
  shows "names_between (utf8_array xs) (int a) (int b) = Inr (concat (map (\<lambda>k. [xs ! k]) [a..<b]))"
  using names_between_utf8 [OF assms, of a] by simp

lemma sum_list_lengths: "sum_list (map (length \<circ> snd) xs) = length (concat (map snd xs))"
  by (induction xs) simp_all

lemma array_simps [simp]:
  "child_ptr (list_array ls c) 0 = Inr (Some c)"
  "buffer_ptr (list_array ls c) (Suc 0) = Inr (Some (offset_buffer ls))"
  "i < length cs \<Longrightarrow> child_ptr (struct_array n cs) i = Inr (Some (cs ! i))"
  "arr_length (struct_array n cs) = int n"
  "arr_length (list_array ls c) = int (length ls)"
  "deref (Some x) = Inr x"
  by (simp_all add: child_ptr_def list_array_def struct_array_def buffer_ptr_def deref_def)

text \<open>The two traversals on an encoded catalog.\<close>

lemma schema_names_of_batch:
  assumes "objects_fit cats"
  shows "schema_names_of (objects_batch cats) = Inr (map fst (concat (map snd cats)))"
proof -
  let ?names = "map fst (concat (map snd cats))"
  let ?ls = "map (length \<circ> snd) cats"
  have fits: "sum_list ?ls < 2 ^ 31" "length (concat ?names) < 2 ^ 31"
    and len: "sum_list ?ls = length ?names"
    using assms by (simp_all add: objects_fit_def Let_def sum_list_lengths)
  have "schema_names_of (objects_batch cats) = Inr (concat (map (\<lambda>k. [?names ! k]) [0..<sum_list ?ls]))"
    unfolding schema_names_of_def objects_batch_def Let_def
    using collect_list_array [of ?ls _ "\<lambda>k. [?names ! k]"]
      offsets_pair [OF fits(1)] names_of_utf8 [OF fits(2)] len
    by (simp add: child_def)
  then show ?thesis using len map_nth [of ?names] by simp
qed

lemma table_names_of_batch:
  assumes "objects_fit cats"
  shows "table_names_of (objects_batch cats) = Inr (concat (map snd (concat (map snd cats))))"
proof -
  let ?schemas = "concat (map snd cats)"
  let ?names = "concat (map snd ?schemas)"
  let ?ls = "map (length \<circ> snd) cats"
  let ?ts = "map (length \<circ> snd) ?schemas"
  let ?h = "\<lambda>j. concat (map (\<lambda>k. [?names ! k]) [sum_list (take j ?ts)..<sum_list (take (Suc j) ?ts)])"
  have fits: "sum_list ?ls < 2 ^ 31" "sum_list ?ts < 2 ^ 31" "length (concat ?names) < 2 ^ 31"
    and len: "sum_list ?ls = length ?ts" "sum_list ?ts = length ?names"
    using assms by (simp_all add: objects_fit_def Let_def sum_list_lengths)
  have inner: "r_collect (\<lambda>j.
         r_bind (int32_at (Some (offset_buffer ?ts)) j) (\<lambda>ts.
         r_bind (int32_at (Some (offset_buffer ?ts)) (j + 1)) (\<lambda>te.
           names_between (utf8_array ?names) ts te))) [int a..int b - 1]
      = Inr (concat (map ?h [a..<b]))" if "b \<le> length ?ts" for a b
    by (rule collect_range)
      (use that offsets_pair [OF fits(2)] names_of_utf8 [OF fits(3)] len in simp)
  have "table_names_of (objects_batch cats) = Inr (concat (map ?h [0..<sum_list ?ls]))"
    unfolding table_names_of_def objects_batch_def Let_def
    using collect_list_array [of ?ls _ ?h] offsets_pair [OF fits(1)] inner len
    by (simp add: child_def)
  moreover have "concat (map ?h [0..<sum_list ?ls]) = ?names"
    using concat_ranges [of "length ?ts" ?ts "\<lambda>k. [?names ! k]"] len map_nth [of ?names] by simp
  ultimately show ?thesis by simp
qed

section \<open>Encoded statistics\<close>

text \<open>
  One table's statistics: whether the row is about the whole table (its column name is null), its
  key, and its value when that is a double.  \<open>stats_batch\<close> lays them out as \<open>GetStatistics\<close> does:
  a validity bitmap for the column names, keys, and a dense union of values.
\<close>

type_synonym statistic = "bool \<times> 16 word \<times> double option"

definition validity_bytes :: "bool list \<Rightarrow> 8 word list" where
  "validity_bytes bs =
     map (\<lambda>k. horner_sum of_bool 2 (take 8 (drop (8 * k) bs))) [0..<(length bs + 7) div 8]"

definition union_values :: "statistic list \<Rightarrow> double list" where
  "union_values rows = concat (map (\<lambda>(_, _, v). case v of None \<Rightarrow> [] | Some d \<Rightarrow> [d]) rows)"

definition stats_batch :: "statistic list \<Rightarrow> arrow" where
  "stats_batch rows =
     (let n = length rows;
          columns = Arrow (int n) []
            [Some (Bits (validity_bytes (map (\<lambda>r. \<not> fst r) rows))), None, None];
          keys = Arrow (int n) [] [None, Some (Int16s (map (\<lambda>r. fst (snd r)) rows))];
          doubles = Arrow (int (length (union_values rows))) []
            [None, Some (Doubles (union_values rows))];
          vals = Arrow (int n) [None, None, Some doubles]
            [Some (Int8s (map (\<lambda>r. if snd (snd r) = None then 0 else 2) rows)),
             Some (Int32s (map (\<lambda>i. of_nat (length (union_values (take i rows)))) [0..<n]))];
          table = Arrow (int n) [None, Some columns, Some keys, Some vals] [None];
          tables = Arrow 1 [Some table] [None, None];
          schema = Arrow 1 [None, Some tables] [None];
          schemas = Arrow 1 [Some schema] [None, None]
      in Arrow 1 [None, Some schemas] [None])"

text \<open>What the table's cardinality should be: the first row count of the whole table.\<close>

fun first_row_count :: "statistic list \<Rightarrow> exn + idx_t option" where
  "first_row_count [] = Inr None"
| "first_row_count ((whole, key, v) # rows) =
     (case v of
        Some d \<Rightarrow>
          if whole \<and> key = ADBC_STATISTIC_ROW_COUNT_KEY then r_bind (double_to_idx d) (\<lambda>c. Inr (Some c))
          else first_row_count rows
      | None \<Rightarrow> first_row_count rows)"

lemma is_whole_table_bytes:
  assumes "i < length bs"
  shows "is_whole_table (Some (Bits (validity_bytes bs))) (int i) = Inr (\<not> bs ! i)"
proof -
  have k: "i div 8 < (length bs + 7) div 8" using assms by linarith
  have d: "int i div 8 = int (i div 8)" and m: "nat (int i mod 8) = i mod 8"
    by (simp_all add: zdiv_int nat_mod_distrib)
  have "i mod 8 < 8" by simp
  moreover have "8 * (i div 8) + i mod 8 = i" by simp
  ultimately have "bit (horner_sum of_bool 2 (take 8 (drop (8 * (i div 8)) bs)) :: 8 word) (i mod 8)
      = bs ! i"
    using assms less_diff_conv [of "i mod 8" "length bs" "8 * (i div 8)"]
    by (simp add: bit_horner_sum_bit_word_iff add.commute)
  with k d m show ?thesis
    by (simp add: is_whole_table_def nth_or_undefined_def validity_bytes_def)
qed

lemma union_values_nth:
  "i < length rows \<Longrightarrow> rows ! i = (whole, key, Some d) \<Longrightarrow>
   length (union_values (take i rows)) < length (union_values rows) \<and>
   union_values rows ! length (union_values (take i rows)) = d"
proof (induction rows arbitrary: i)
  case (Cons r rows)
  then show ?case by (cases i) (auto simp: union_values_def split: option.splits prod.splits)
qed simp

lemma union_values_length: "length (union_values (take i rows)) \<le> length rows"
proof -
  have "length (union_values xs) \<le> length xs" for xs
    by (induction xs) (auto simp: union_values_def split: option.splits)
  from this [of "take i rows"] show ?thesis by simp
qed

lemma statistic_rows_encoded:
  assumes "length rows < 2 ^ 31"
  shows "i + n = length rows \<Longrightarrow>
    statistic_rows (Some (Bits (validity_bytes (map (\<lambda>r. \<not> fst r) rows))))
      (Int16s (map (\<lambda>r. fst (snd r)) rows))
      (Int8s (map (\<lambda>r. if snd (snd r) = None then 0 else 2) rows))
      (Some (Int32s (map (\<lambda>i. of_nat (length (union_values (take i rows)))) [0..<length rows])))
      (Doubles (union_values rows)) n (int i)
    = first_row_count (drop i rows)"
proof (induction n arbitrary: i)
  case 0
  then show ?case by simp
next
  case (Suc n)
  then have i: "i < length rows" by simp
  obtain whole key v where row: "rows ! i = (whole, key, v)" by (cases "rows ! i") auto
  have whole: "is_whole_table (Some (Bits (validity_bytes (map (\<lambda>r. \<not> fst r) rows)))) (int i)
      = Inr whole"
    using is_whole_table_bytes [of i "map (\<lambda>r. \<not> fst r) rows"] i row by simp
  have "length (union_values (take i rows)) < 2 ^ 31"
    using union_values_length [of i rows] assms by linarith
  then have off: "int32_at (Some (Int32s (map (\<lambda>i. of_nat (length (union_values (take i rows)))) [0..<length rows])))
      (int i) = Inr (int (length (union_values (take i rows))))"
    using i by (simp add: int32_at_def sint_of_nat32)
  have next_row: "drop i rows = (whole, key, v) # drop (Suc i) rows"
    using i row by (metis Cons_nth_drop_Suc)
  have IH: "i + 1 + n = length rows" using Suc.prems by simp
  note IH = Suc.IH [of "i + 1", OF IH]
  show ?case
  proof (cases v)
    case None
    with i row whole next_row IH show ?thesis
      by (simp add: nth_or_undefined_def add.commute)
  next
    case (Some d)
    from union_values_nth [OF i row [unfolded Some]]
    have val: "nth_or_undefined (union_values rows) (int (length (union_values (take i rows)))) = Inr d"
      by (simp add: nth_or_undefined_def)
    show ?thesis
      using i row whole next_row IH off val Some
      by (simp add: nth_or_undefined_def add.commute)
  qed
qed

section \<open>Properties\<close>

text \<open>
  C31: names survive the trip.  On a batch that encodes a catalog in Arrow's nested lists, with
  offsets within 32 bits, the traversals neither fail nor read out of bounds, and return every
  schema name and every table name of every schema, once and in order.
\<close>

theorem objects_names_roundtrip:
  assumes "objects_fit cats"
  shows "schema_names_of (objects_batch cats) = Inr (map fst (concat (map snd cats))) \<and>
     table_names_of (objects_batch cats) = Inr (concat (map snd (concat (map snd cats))))"
  using schema_names_of_batch [OF assms] table_names_of_batch [OF assms] by simp

theorem objects_names_roundtrip_witness:
  "schema_names_of (objects_batch [(''c'', [(''s1'', [''t1'', '''']), ('''', [])]), (''d'', [(''s2'', [''t2''])])])
     = Inr [''s1'', '''', ''s2''] \<and>
   table_names_of (objects_batch [(''c'', [(''s1'', [''t1'', '''']), ('''', [])]), (''d'', [(''s2'', [''t2''])])])
     = Inr [''t1'', '''', ''t2'']"
  using objects_names_roundtrip
    [of "[(''c'', [(''s1'', [''t1'', '''']), ('''', [])]), (''d'', [(''s2'', [''t2''])])]"]
  by (simp add: objects_fit_def Let_def)

text \<open>What adbc.h says of string options: the length needed is reported, a large enough buffer filled.\<close>

definition option_contract :: "'w adbc \<Rightarrow> string \<Rightarrow> string \<Rightarrow> bool" where
  "option_contract adbc key v \<longleftrightarrow>
     (\<forall>h n w. case adbc (ConnectionGetOption h key n) w of
        (r, _) \<Rightarrow> rp_status r = ADBC_STATUS_OK \<and> rp_length r = Suc (length v) \<and>
          (Suc (length v) \<le> n \<longrightarrow> rp_value r = v))"

text \<open>
  The catalog's name is fetched whole.  From a driver that reports the length it needs and fills
  a buffer that is large enough, the name comes back whatever its length.
\<close>

theorem FetchCatalogName_any_length:
  assumes "option_contract adbc ''adbc.connection.catalog'' v"
  shows "fst (FetchCatalogName_body adbc l w) = Inr v"
proof -
  have *: "rp_status r = ADBC_STATUS_OK \<and> rp_length r = Suc (length v) \<and> (Suc (length v) \<le> n \<longrightarrow> rp_value r = v)"
    if "adbc (ConnectionGetOption h ''adbc.connection.catalog'' n) w = (r, w')" for h n w r w'
    using assms [unfolded option_contract_def, THEN spec [of _ h], THEN spec [of _ n], THEN spec [of _ w]]
      that by simp
  obtain r w1 where c1: "adbc (ConnectionGetOption (connection (conn l)) ''adbc.connection.catalog'' 4096) w = (r, w1)"
    by fastforce
  obtain r2 w2 where c2: "adbc (ConnectionGetOption (connection (conn l)) ''adbc.connection.catalog'' (rp_length r)) w1 = (r2, w2)"
    by fastforce
  show ?thesis
    using c1 c2 * [OF c1] * [OF c2] by (simp add: FetchCatalogName_body_def)
qed

theorem FetchCatalogName_any_length_witness:
  "fst (FetchCatalogName_body
     (\<lambda>c u. (case c of
        ConnectionGetOption _ _ n \<Rightarrow>
          ok_reply\<lparr>rp_length := 5001, rp_value := (if 5001 \<le> n then replicate 5000 CHR ''x'' else '''')\<rparr>
      | _ \<Rightarrow> ok_reply, u))
     \<lparr>conn = \<lparr>database = None, connection = Some 1\<rparr>, ephemeral = False\<rparr> ())
   = Inr (replicate 5000 CHR ''x'')"
  by (rule FetchCatalogName_any_length) (simp add: option_contract_def ok_reply_def)

text \<open>
  The cardinality is the table's first row count.  On encoded statistics of one table the value
  returned is that of the first row about the whole table with the row-count key and a double value,
  truncated; None when there is none; and no read is out of bounds.
\<close>

theorem cardinality_is_first_row_count:
  assumes "length rows < 2 ^ 31"
  shows "batches_row_count [stats_batch rows] = first_row_count rows"
proof (cases "rows = []")
  case True
  then show ?thesis
    by (simp add: stats_batch_def Let_def batch_row_count_def present_child_def nonempty_def)
next
  case False
  have opt: "r_bind x (\<lambda>c. case c of None \<Rightarrow> Inr None | Some n \<Rightarrow> Inr (Some n)) = x" for x :: "exn + idx_t option"
    by (cases x) (auto simp: r_bind_def split: option.splits)
  have "batch_row_count (stats_batch rows) = first_row_count rows"
    using statistic_rows_encoded [OF assms, of 0 "length rows"] False
    by (simp add: stats_batch_def Let_def batch_row_count_def present_child_def nonempty_def
        buffer_ptr_def numeral_2_eq_2 numeral_3_eq_3)
  then show ?thesis using opt by simp
qed

theorem cardinality_is_first_row_count_witness:
  "batches_row_count [stats_batch [(False, 6, Some (Finite 5)), (True, 4, Some (Finite 9)), (True, 6, None),
     (True, 6, Some (Finite (7 / 2)))]] = Inr (Some 3)"
proof -
  have "\<lfloor>7 / 2 :: rat\<rfloor> = 3" by (rule floor_unique) simp_all
  with cardinality_is_first_row_count [of "[(False, 6, Some (Finite 5)), (True, 4, Some (Finite 9)),
     (True, 6, None), (True, 6, Some (Finite (7 / 2)))]"]
  show ?thesis by (simp add: ADBC_STATISTIC_ROW_COUNT_KEY_def double_to_idx_def)
qed

section \<open>Fetching leaks nothing\<close>

lemma other_call_live:
  assumes "handle_contract adbc live" and "call_handle c = None"
  shows "live (snd (adbc c w)) = live w"
  using assms(1) [unfolded handle_contract_def, THEN spec [of _ c], THEN spec [of _ w]] assms(2)
  by (simp split: prod.splits)

lemma ForEachCatalog_live:
  assumes "handle_contract adbc live" and "ForEachCatalog adbc cn sn d cb l w = (r, w')"
  shows "live w' = live w"
  using assms(2) other_call_live [OF assms(1), of "ConnectionGetObjects (connection (conn l)) d
      (if cn = [] then None else Some cn) sn" w]
  by (auto simp: ForEachCatalog_def split: prod.splits sum.splits)

lemma FetchCatalogName_body_live:
  assumes "handle_contract adbc live" and "FetchCatalogName_body adbc l w = (r, w')"
  shows "live w' = live w"
proof -
  have *: "live w2 = live w1" if "adbc (ConnectionGetOption h k n) w1 = (r, w2)" for h k n w1 w2 r
    using other_call_live [OF assms(1), of "ConnectionGetOption h k n" w1] that by simp
  show ?thesis
    using assms(2) by (auto simp: FetchCatalogName_body_def Let_def split: prod.splits sum.splits if_splits dest!: *)
qed

lemma fetch_inv [adbc_inv]:
  assumes inv: "pool_inv adbc live L0 ls p w"
  shows "FetchSchemaNames adbc cn p w = (r, p', w') \<Longrightarrow> pool_inv adbc live L0 ls p' w'"
    and "FetchTableNames adbc cn sn p w = (r, p', w') \<Longrightarrow> pool_inv adbc live L0 ls p' w'"
    and "FetchCatalogName adbc p w = (r2, p', w') \<Longrightarrow> pool_inv adbc live L0 ls p' w'"
proof -
  have contract: "handle_contract adbc live" using inv by (simp add: pool_inv_def)
  show "FetchSchemaNames adbc cn p w = (r, p', w') \<Longrightarrow> pool_inv adbc live L0 ls p' w'"
    unfolding FetchSchemaNames_def
    by (rule ownership.with_lease_inv [OF inv]) (use ForEachCatalog_live [OF contract] in blast)+
  show "FetchTableNames adbc cn sn p w = (r, p', w') \<Longrightarrow> pool_inv adbc live L0 ls p' w'"
    unfolding FetchTableNames_def
    by (rule ownership.with_lease_inv [OF inv]) (use ForEachCatalog_live [OF contract] in blast)+
  show "FetchCatalogName adbc p w = (r2, p', w') \<Longrightarrow> pool_inv adbc live L0 ls p' w'"
    unfolding FetchCatalogName_def
    by (rule ownership.with_lease_inv [OF inv]) (use FetchCatalogName_body_live [OF contract] in blast)+
qed

end
