(* ===== verification/Scan.thy ===== *)
theory Scan
  imports Connection_Pool
begin

text \<open>
  src/adbc\_scan.cpp and its header: the factory that owns the connection and the statement of a
  scan, the schema query, projection pushdown into the SQL text, the stream it produces, and the
  scan function that cuts the batches of a stream into DuckDB chunks.
\<close>

section \<open>A statement held beside the pool\<close>

text \<open>
  The pool's ownership invariant while one statement is held: the statement belongs to its holder,
  everything else allocated beyond \<open>L0\<close> to exactly one connection.
\<close>

definition holds_statement ::
  "'w adbc \<Rightarrow> ('w \<Rightarrow> (hkind \<times> nat) set) \<Rightarrow> (hkind \<times> nat) set \<Rightarrow> pooled list \<Rightarrow> pool \<Rightarrow> 'w \<Rightarrow> hnd \<Rightarrow> bool"
where
  "holds_statement adbc live L0 ls p w s \<longleftrightarrow>
     pool_inv adbc live (L0 \<union> tag Stmt s) ls p w \<and> tag Stmt s \<inter> L0 = {}"

lemma holds_none: "holds_statement adbc live L0 ls p w None \<longleftrightarrow> pool_inv adbc live L0 ls p w"
  by (simp add: holds_statement_def)

lemma holds_contract: "holds_statement adbc live L0 ls p w s \<Longrightarrow> handle_contract adbc live"
  by (simp add: holds_statement_def pool_inv_def)

lemma holds_live: "holds_statement adbc live L0 ls p w s \<Longrightarrow> tag Stmt s \<subseteq> live w"
  by (simp add: holds_statement_def pool_inv_def pool_exclusive_def)

lemma holds_frame:
  "holds_statement adbc live L0 ls p w s \<Longrightarrow> live w' = live w \<Longrightarrow>
   holds_statement adbc live L0 ls p w' s"
  by (simp add: holds_statement_def pool_inv_def pool_exclusive_def)

lemma holds_exchange:
  assumes h: "holds_statement adbc live L0 ls p w s" and x: "exchanges Stmt s s' (live w) (live w')"
  shows "holds_statement adbc live L0 ls p w' s'"
proof -
  have L0: "L0 \<union> tag Stmt s \<subseteq> live w" and disj: "tag Stmt s \<inter> L0 = {}"
    and own: "\<And>y. owners y (connections p @ map conn ls)
      = (if y \<in> live w - (L0 \<union> tag Stmt s) then 1 else 0)"
    using h unfolding holds_statement_def pool_inv_def pool_exclusive_def by blast+
  have w': "live w' = (live w - tag Stmt s) \<union> tag Stmt s'" "tag Stmt s' \<inter> (live w - tag Stmt s) = {}"
    using x by (auto simp: exchanges_def)
  have "live w' - (L0 \<union> tag Stmt s') = live w - (L0 \<union> tag Stmt s)" using w' by blast
  moreover have "L0 \<union> tag Stmt s' \<subseteq> live w'" "tag Stmt s' \<inter> L0 = {}" using w' L0 disj by blast+
  ultimately show ?thesis
    using h own by (simp add: holds_statement_def pool_inv_def pool_exclusive_def)
qed

lemma holds_call:
  assumes h: "holds_statement adbc live L0 ls p w s" and "adbc c w = (r, w')"
    and "call_handle c = Some (Stmt, s)"
  shows "holds_statement adbc live L0 ls p w' (rp_handle r)"
  using handle_contractD [OF holds_contract [OF h] assms(2,3) holds_live [OF h]]
  by (intro holds_exchange [OF h]) (simp add: exchanges_def)

lemma holds_other_call:
  assumes h: "holds_statement adbc live L0 ls p w s" and "adbc c w = (r, w')"
    and "call_handle c = None"
  shows "holds_statement adbc live L0 ls p w' s"
proof -
  have "live w' = live w"
    using holds_contract [OF h, unfolded handle_contract_def, THEN spec [of _ c], THEN spec [of _ w]]
      assms(2,3) by simp
  with h show ?thesis by (rule holds_frame)
qed

lemma holds_release:
  assumes h: "holds_statement adbc live L0 ls p w s"
  shows "pool_inv adbc live L0 ls p (release_statement adbc s w)"
proof -
  have "live (release_statement adbc s w) = live w - tag Stmt s"
    by (rule release_live(3) [OF holds_contract [OF h] holds_live [OF h]])
  then have "exchanges Stmt s None (live w) (live (release_statement adbc s w))"
    by (simp add: exchanges_def)
  from holds_exchange [OF h this] show ?thesis by (simp add: holds_none)
qed

lemma MakeStatement_holds:
  assumes inv: "pool_inv adbc live L0 ls p w" and m: "MakeStatement adbc c q w = (r, w')"
  shows "case r of Inl _ \<Rightarrow> pool_inv adbc live L0 ls p w' | Inr s \<Rightarrow> holds_statement adbc live L0 ls p w' s"
proof -
  have contract: "handle_contract adbc live" using inv by (simp add: pool_inv_def)
  note live = MakeStatement_live [OF contract m]
  show ?thesis
  proof (cases r)
    case (Inl e)
    with live inv show ?thesis by (simp add: pool_inv_def pool_exclusive_def)
  next
    case (Inr s)
    with live have "exchanges Stmt None s (live w) (live w')" by (auto simp: exchanges_def)
    with inv have "holds_statement adbc live L0 ls p w' s"
      using holds_exchange holds_none by metis
    with Inr show ?thesis by simp
  qed
qed

text \<open>The invariant with one statement held, seen as the plain one above a larger base.\<close>

lemma holds_as_inv:
  "holds_statement adbc live L0 ls p w s \<Longrightarrow> pool_inv adbc live (L0 \<union> tag Stmt s) ls p w"
  by (simp add: holds_statement_def)

section \<open>The stream factory\<close>

record factory =
  fac_connection :: pooled
  query_text :: string
  fac_table :: string
  fac_delimiter :: string
  projection_pushdown :: bool
  fac_statement :: hnd

text \<open>
  \<open>s[i]\<close> of a std::string: the terminating zero at the end.  The delimiter of a catalog has two
  characters, so the cases beyond that, which are undefined, do not arise.
\<close>

definition string_at :: "string \<Rightarrow> nat \<Rightarrow> char" where
  "string_at s i = (if i < length s then s ! i else CHR 0x00)"

definition delimited :: "string \<Rightarrow> string \<Rightarrow> string" where
  "delimited delimiter name = string_at delimiter 0 # name @ [string_at delimiter 1]"

definition factory_destroy :: "'w adbc \<Rightarrow> factory \<Rightarrow> pool \<Rightarrow> 'w \<Rightarrow> pool \<times> 'w" where
  "factory_destroy adbc f p w =
     AdbcPooledConnection_destroy adbc (fac_connection f) p
       (release_statement adbc (fac_statement f) w)"

text \<open>
  The two constructors.  Members are initialised in order, the statement last; when making it
  throws, the connection, a complete member by then, is destroyed.
\<close>

definition factory_make :: "'w adbc \<Rightarrow> factory \<Rightarrow> pool \<Rightarrow> 'w \<Rightarrow> (exn + factory) \<times> pool \<times> 'w" where
  "factory_make adbc f p w =
     (case MakeStatement adbc (conn (fac_connection f)) (query_text f) w of
        (Inl e, w1) \<Rightarrow>
          (case AdbcPooledConnection_destroy adbc (fac_connection f) p w1 of
             (p2, w2) \<Rightarrow> (Inl e, p2, w2))
      | (Inr s, w1) \<Rightarrow> (Inr (f\<lparr>fac_statement := s\<rparr>), p, w1))"

definition factory_for_query ::
  "'w adbc \<Rightarrow> string \<Rightarrow> string \<Rightarrow> pool \<Rightarrow> 'w \<Rightarrow> (exn + factory) \<times> pool \<times> 'w"
where
  "factory_for_query adbc uri text p w =
     (case GetEphemeralConnection adbc uri w of
        (Inl e, w1) \<Rightarrow> (Inl e, p, w1)
      | (Inr l, w1) \<Rightarrow>
          factory_make adbc
            \<lparr>fac_connection = l, query_text = text, fac_table = [], fac_delimiter = [],
             projection_pushdown = False, fac_statement = None\<rparr> p w1)"

definition factory_for_table ::
  "'w adbc \<Rightarrow> pooled \<Rightarrow> string \<Rightarrow> string \<Rightarrow> pool \<Rightarrow> 'w \<Rightarrow> (exn + factory) \<times> pool \<times> 'w"
where
  "factory_for_table adbc l table delimiter p w =
     factory_make adbc
       \<lparr>fac_connection = l, query_text = ''SELECT * FROM '' @ table, fac_table = table,
        fac_delimiter = delimiter, projection_pushdown = True, fac_statement = None\<rparr> p w"

text \<open>The new statement is made before the old one is released by the move assignment.\<close>

definition ResetStatement :: "'w adbc \<Rightarrow> factory \<Rightarrow> 'w \<Rightarrow> (exn + unit) \<times> factory \<times> 'w" where
  "ResetStatement adbc f w =
     (case MakeStatement adbc (conn (fac_connection f)) (query_text f) w of
        (Inl e, w1) \<Rightarrow> (Inl e, f, w1)
      | (Inr s, w1) \<Rightarrow>
          (Inr (), f\<lparr>fac_statement := s\<rparr>, release_statement adbc (fac_statement f) w1))"

text \<open>The loop over the columns, with the \<open>first\<close> flag.\<close>

fun projected_columns :: "string \<Rightarrow> bool \<Rightarrow> string list \<Rightarrow> string" where
  "projected_columns delimiter first [] = []"
| "projected_columns delimiter first (col # cols) =
     (if first then [] else '', '') @ delimited delimiter col @
     projected_columns delimiter False cols"

definition projection_text :: "string \<Rightarrow> string \<Rightarrow> string list \<Rightarrow> string" where
  "projection_text delimiter table columns =
     ''SELECT '' @ (if columns = [] then ''1 '' else projected_columns delimiter True columns) @
     '' FROM '' @ table"

definition ApplyProjectionPushdown ::
  "'w adbc \<Rightarrow> string list \<Rightarrow> factory \<Rightarrow> 'w \<Rightarrow> (exn + unit) \<times> factory \<times> 'w"
where
  "ApplyProjectionPushdown adbc columns f w =
     (if projection_pushdown f then
        ResetStatement adbc
          (f\<lparr>query_text := projection_text (fac_delimiter f) (fac_table f) columns\<rparr>) w
      else (Inr (), f, w))"

text \<open>
  \<open>GetSchema\<close>: ask for the schema of the statement; a driver that cannot tell is made to execute
  the query for the schema of its result, and the statement is then made anew.
\<close>

definition GetSchema ::
  "'w adbc \<Rightarrow> factory \<Rightarrow> 'w \<Rightarrow> (exn + (string \<times> string) list) \<times> factory \<times> 'w"
where
  "GetSchema adbc f w =
     (case adbc (StatementExecuteSchema (fac_statement f)) w of
        (r, w1) \<Rightarrow>
          (let f1 = f\<lparr>fac_statement := rp_handle r\<rparr> in
           if rp_status r = ADBC_STATUS_NOT_IMPLEMENTED then
             (case adbc (StatementExecuteQuery (fac_statement f1) True) w1 of
                (r2, w2) \<Rightarrow>
                  (let f2 = f1\<lparr>fac_statement := rp_handle r2\<rparr> in
                   case CHECK_ADBC BinderException r2 of
                     Inl e \<Rightarrow> (Inl e, f2, w2)
                   | Inr _ \<Rightarrow>
                       (case adbc (StreamGetSchema (fac_statement f2)) w2 of
                          (r3, w3) \<Rightarrow>
                            if rp_status r3 \<noteq> ADBC_STATUS_OK then
                              (Inl (BinderException ''Failed to get schema from ADBC stream''), f2, w3)
                            else
                              (case ResetStatement adbc f2 w3 of
                                 (Inl e, f4, w4) \<Rightarrow> (Inl e, f4, w4)
                               | (Inr _, f4, w4) \<Rightarrow> (Inr (rp_schema r3), f4, w4)))))
           else
             (case CHECK_ADBC BinderException r of
                Inl e \<Rightarrow> (Inl e, f1, w1)
              | Inr _ \<Rightarrow> (Inr (rp_schema r), f1, w1))))"

definition ProduceStream ::
  "'w adbc \<Rightarrow> string list \<Rightarrow> factory \<Rightarrow> 'w \<Rightarrow> (exn + arrow list) \<times> factory \<times> 'w"
where
  "ProduceStream adbc columns f w =
     (case ApplyProjectionPushdown adbc columns f w of
        (Inl e, f1, w1) \<Rightarrow> (Inl e, f1, w1)
      | (Inr _, f1, w1) \<Rightarrow>
          (case adbc (StatementExecuteQuery (fac_statement f1) True) w1 of
             (r, w2) \<Rightarrow>
               (case CHECK_ADBC IOException r of
                  Inl e \<Rightarrow> (Inl e, f1\<lparr>fac_statement := rp_handle r\<rparr>, w2)
                | Inr _ \<Rightarrow> (Inr (rp_batches r), f1\<lparr>fac_statement := rp_handle r\<rparr>, w2))))"

section \<open>Bind data\<close>

text \<open>
  \<open>AdbcArrowScanFunctionData\<close>: the factory with the columns of its schema.  \<open>populate\<close> is DuckDB's
  \<open>PopulateArrowTableSchema\<close>, which may reject a type.  An exception destroys the factory.
\<close>

record scan_data =
  scan_factory :: factory
  arrow_table :: "(string \<times> string) list"
  cardinality :: "idx_t option"

definition AdbcArrowScanFunctionData_new ::
  "((string \<times> string) list \<Rightarrow> exn + (string \<times> string) list) \<Rightarrow> 'w adbc \<Rightarrow> factory \<Rightarrow> pool \<Rightarrow> 'w \<Rightarrow>
   (exn + scan_data) \<times> pool \<times> 'w"
where
  "AdbcArrowScanFunctionData_new populate adbc f p w =
     (case GetSchema adbc f w of
        (Inl e, f1, w1) \<Rightarrow>
          (case factory_destroy adbc f1 p w1 of (p2, w2) \<Rightarrow> (Inl e, p2, w2))
      | (Inr schema, f1, w1) \<Rightarrow>
          (case populate schema of
             Inl e \<Rightarrow> (case factory_destroy adbc f1 p w1 of (p2, w2) \<Rightarrow> (Inl e, p2, w2))
           | Inr columns \<Rightarrow>
               (Inr \<lparr>scan_factory = f1, arrow_table = columns, cardinality = None\<rparr>, p, w1)))"

definition AdbcScanBindFunction ::
  "((string \<times> string) list \<Rightarrow> exn + (string \<times> string) list) \<Rightarrow> 'w adbc \<Rightarrow> string list \<Rightarrow> pool \<Rightarrow> 'w \<Rightarrow>
   (exn + scan_data \<times> string list \<times> string list) \<times> pool \<times> 'w"
where
  "AdbcScanBindFunction populate adbc inputs p w =
     (case inputs of
        [uri, text] \<Rightarrow>
          (case factory_for_query adbc uri text p w of
             (Inl e, p1, w1) \<Rightarrow> (Inl e, p1, w1)
           | (Inr f, p1, w1) \<Rightarrow>
               (case AdbcArrowScanFunctionData_new populate adbc f p1 w1 of
                  (Inl e, p2, w2) \<Rightarrow> (Inl e, p2, w2)
                | (Inr d, p2, w2) \<Rightarrow>
                    (Inr (d, map fst (arrow_table d), map snd (arrow_table d)), p2, w2)))
      | _ \<Rightarrow>
          (Inl (BinderException (''read_adbc(...) requires two parameters: (1) the '' @
             ''adbc URI (2) the SQL query string'')), p, w))"

section \<open>Nothing leaks from a scan\<close>

text \<open>A factory in use: its lease is one of the pool's, its statement is held.\<close>

definition factory_inv ::
  "'w adbc \<Rightarrow> ('w \<Rightarrow> (hkind \<times> nat) set) \<Rightarrow> (hkind \<times> nat) set \<Rightarrow> pooled list \<Rightarrow> pool \<Rightarrow> 'w \<Rightarrow> factory \<Rightarrow> bool"
where
  "factory_inv adbc live L0 ls p w f \<longleftrightarrow>
     holds_statement adbc live L0 (fac_connection f # ls) p w (fac_statement f)"

lemma factory_destroy_inv:
  assumes "factory_inv adbc live L0 ls p w f" and "factory_destroy adbc f p w = (p', w')"
  shows "pool_inv adbc live L0 ls p' w'"
  using ownership.drop_ok [OF holds_release [OF assms(1) [unfolded factory_inv_def]] _
      assms(2) [unfolded factory_destroy_def]]
  by simp

lemma factory_make_inv:
  assumes "pool_inv adbc live L0 (fac_connection f # ls) p w"
    and "factory_make adbc f p w = (r, p', w')"
  shows "case r of Inl _ \<Rightarrow> pool_inv adbc live L0 ls p' w'
       | Inr f' \<Rightarrow> factory_inv adbc live L0 ls p' w' f'"
proof -
  obtain r1 w1 where m: "MakeStatement adbc (conn (fac_connection f)) (query_text f) w = (r1, w1)"
    by fastforce
  note h = MakeStatement_holds [OF assms(1) m]
  show ?thesis
  proof (cases r1)
    case (Inl e)
    obtain p2 w2 where d: "AdbcPooledConnection_destroy adbc (fac_connection f) p w1 = (p2, w2)"
      by fastforce
    from Inl h have "pool_inv adbc live L0 (fac_connection f # ls) p w1" by simp
    from ownership.drop_ok [OF this _ d] Inl m d assms(2) show ?thesis
      by (auto simp: factory_make_def)
  next
    case (Inr s)
    with h m assms(2) show ?thesis by (auto simp: factory_make_def factory_inv_def)
  qed
qed

lemma factory_for_query_inv:
  assumes "pool_inv adbc live L0 ls p w" and "factory_for_query adbc uri text p w = (r, p', w')"
  shows "case r of Inl _ \<Rightarrow> pool_inv adbc live L0 ls p' w'
       | Inr f \<Rightarrow> factory_inv adbc live L0 ls p' w' f"
proof -
  obtain r1 w1 where e: "GetEphemeralConnection adbc uri w = (r1, w1)" by fastforce
  have contract: "handle_contract adbc live" and x: "pool_exclusive live L0 ls p w"
    using assms(1) by (simp_all add: pool_inv_def)
  obtain r0 w0 where n: "AdbcConnection_new adbc uri w = (r0, w0)" by fastforce
  note live = AdbcConnection_new_live [OF contract n]
  have inv1: "case r1 of Inl _ \<Rightarrow> pool_inv adbc live L0 ls p w1
       | Inr l \<Rightarrow> pool_inv adbc live L0 (l # ls) p w1"
  proof (cases r0)
    case (Inl err)
    with e n live x contract show ?thesis
      by (auto simp: GetEphemeralConnection_def pool_inv_def pool_exclusive_def)
  next
    case (Inr c)
    then have r1: "r1 = Inr \<lparr>conn = c, ephemeral = True\<rparr>" "w1 = w0"
      using e n by (auto simp: GetEphemeralConnection_def)
    have own: "owners y (connections p @ map conn ls) = (if y \<in> live w - L0 then 1 else 0)" for y
      using x unfolding pool_exclusive_def by blast
    have "owners y (connections p @ map conn (\<lparr>conn = c, ephemeral = True\<rparr> # ls))
        = (if y \<in> live w0 - L0 then 1 else 0)" for y
      using own [of y] live Inr x by (auto simp: pool_exclusive_def split: if_splits)
    then show ?thesis using r1 live Inr x contract by (auto simp: pool_inv_def pool_exclusive_def)
  qed
  show ?thesis
  proof (cases r1)
    case (Inl err)
    with inv1 e assms(2) show ?thesis by (auto simp: factory_for_query_def)
  next
    case (Inr l)
    let ?f = "\<lparr>fac_connection = l, query_text = text, fac_table = [], fac_delimiter = [],
             projection_pushdown = False, fac_statement = None\<rparr>"
    have "factory_make adbc ?f p w1 = (r, p', w')"
      using Inr e assms(2) by (simp add: factory_for_query_def)
    from factory_make_inv [OF _ this] inv1 Inr show ?thesis by simp
  qed
qed

lemma factory_for_table_inv:
  assumes "pool_inv adbc live L0 (l # ls) p w"
    and "factory_for_table adbc l table delimiter p w = (r, p', w')"
  shows "case r of Inl _ \<Rightarrow> pool_inv adbc live L0 ls p' w'
       | Inr f \<Rightarrow> factory_inv adbc live L0 ls p' w' f"
  by (rule factory_make_inv [OF _ assms(2) [unfolded factory_for_table_def]]) (simp add: assms(1))

lemma ResetStatement_inv:
  assumes inv: "factory_inv adbc live L0 ls p w f"
    and reset: "ResetStatement adbc f w = (r, f', w')"
  shows "factory_inv adbc live L0 ls p w' f' \<and> fac_connection f' = fac_connection f"
proof -
  let ?s = "fac_statement f"
  have h: "holds_statement adbc live L0 (fac_connection f # ls) p w ?s"
    using inv by (simp add: factory_inv_def)
  have contract: "handle_contract adbc live" by (rule holds_contract [OF h])
  obtain r1 w1 where m: "MakeStatement adbc (conn (fac_connection f)) (query_text f) w = (r1, w1)"
    by fastforce
  note live = MakeStatement_live [OF contract m]
  show ?thesis
  proof (cases r1)
    case (Inl e)
    with live h m reset show ?thesis
      by (auto simp: ResetStatement_def factory_inv_def intro: holds_frame)
  next
    case (Inr s)
    have old: "tag Stmt ?s \<subseteq> live w" by (rule holds_live [OF h])
    with live Inr have old1: "tag Stmt ?s \<subseteq> live w1" by auto
    let ?w2 = "release_statement adbc ?s w1"
    have "live ?w2 = live w1 - tag Stmt ?s" by (rule release_live(3) [OF contract old1])
    then have "exchanges Stmt ?s s (live w) (live ?w2)"
      using live Inr old by (auto simp: exchanges_def)
    from holds_exchange [OF h this] Inr m reset show ?thesis
      by (auto simp: ResetStatement_def factory_inv_def)
  qed
qed

lemma factory_call_inv:
  assumes "factory_inv adbc live L0 ls p w f" and "adbc c w = (r, w')"
    and "call_handle c = Some (Stmt, fac_statement f)"
  shows "factory_inv adbc live L0 ls p w' (f\<lparr>fac_statement := rp_handle r\<rparr>)"
  using holds_call [OF assms(1) [unfolded factory_inv_def] assms(2,3)] by (simp add: factory_inv_def)

lemma factory_other_call_inv:
  assumes "factory_inv adbc live L0 ls p w f" and "adbc c w = (r, w')" and "call_handle c = None"
  shows "factory_inv adbc live L0 ls p w' f"
  using holds_other_call [OF assms(1) [unfolded factory_inv_def] assms(2,3)]
  by (simp add: factory_inv_def)

lemma factory_text_inv [simp]:
  "factory_inv adbc live L0 ls p w (f\<lparr>query_text := t\<rparr>) = factory_inv adbc live L0 ls p w f"
  by (simp add: factory_inv_def)

lemma GetSchema_inv:
  assumes inv: "factory_inv adbc live L0 ls p w f" and g: "GetSchema adbc f w = (r, f', w')"
  shows "factory_inv adbc live L0 ls p w' f' \<and> fac_connection f' = fac_connection f"
proof -
  obtain r1 w1 where c1: "adbc (StatementExecuteSchema (fac_statement f)) w = (r1, w1)" by fastforce
  let ?f1 = "f\<lparr>fac_statement := rp_handle r1\<rparr>"
  have inv1: "factory_inv adbc live L0 ls p w1 ?f1" by (rule factory_call_inv [OF inv c1]) simp
  obtain r2 w2 where c2: "adbc (StatementExecuteQuery (rp_handle r1) True) w1 = (r2, w2)" by fastforce
  let ?f2 = "?f1\<lparr>fac_statement := rp_handle r2\<rparr>"
  have inv2: "factory_inv adbc live L0 ls p w2 ?f2" by (rule factory_call_inv [OF inv1 c2]) simp
  obtain r3 w3 where c3: "adbc (StreamGetSchema (rp_handle r2)) w2 = (r3, w3)" by fastforce
  have inv3: "factory_inv adbc live L0 ls p w3 ?f2" by (rule factory_other_call_inv [OF inv2 c3]) simp
  obtain r4 f4 w4 where c4: "ResetStatement adbc ?f2 w3 = (r4, f4, w4)" by (metis prod_cases3)
  note inv4 = ResetStatement_inv [OF inv3 c4]
  show ?thesis
  proof (cases "rp_status r1 = ADBC_STATUS_NOT_IMPLEMENTED")
    case False
    with g c1 inv1 show ?thesis
      by (cases "rp_status r1 = ADBC_STATUS_OK") (auto simp: GetSchema_def Let_def)
  next
    case ni: True
    show ?thesis
    proof (cases "rp_status r2 = ADBC_STATUS_OK \<and> rp_status r3 = ADBC_STATUS_OK")
      case True
      with g c1 c2 c3 c4 ni have "f' = f4" "w' = w4"
        by (cases r4; simp add: GetSchema_def Let_def)+
      with inv4 show ?thesis by simp
    next
      case False
      with g c1 c2 c3 ni have "f' = ?f2 \<and> (w' = w2 \<or> w' = w3)"
        by (cases "rp_status r2 = ADBC_STATUS_OK"; simp add: GetSchema_def Let_def)
      with inv2 inv3 show ?thesis by auto
    qed
  qed
qed

lemma ProduceStream_inv:
  assumes inv: "factory_inv adbc live L0 ls p w f" and g: "ProduceStream adbc cols f w = (r, f', w')"
  shows "factory_inv adbc live L0 ls p w' f' \<and> fac_connection f' = fac_connection f"
proof -
  obtain r1 f1 w1 where a: "ApplyProjectionPushdown adbc cols f w = (r1, f1, w1)"
    by (metis prod_cases3)
  have inv1: "factory_inv adbc live L0 ls p w1 f1 \<and> fac_connection f1 = fac_connection f"
  proof (cases "projection_pushdown f")
    case True
    let ?g = "f\<lparr>query_text := projection_text (fac_delimiter f) (fac_table f) cols\<rparr>"
    from a True have "ResetStatement adbc ?g w = (r1, f1, w1)"
      by (simp add: ApplyProjectionPushdown_def)
    from ResetStatement_inv [OF _ this] inv show ?thesis by simp
  qed (use a inv in \<open>simp add: ApplyProjectionPushdown_def\<close>)
  obtain r2 w2 where c: "adbc (StatementExecuteQuery (fac_statement f1) True) w1 = (r2, w2)"
    by fastforce
  have inv2: "factory_inv adbc live L0 ls p w2 (f1\<lparr>fac_statement := rp_handle r2\<rparr>)"
    by (rule factory_call_inv [OF inv1 [THEN conjunct1] c]) simp
  show ?thesis
  proof (cases r1)
    case (Inl e)
    with g a inv1 show ?thesis by (simp add: ProduceStream_def)
  next
    case (Inr u)
    with g a c have "f' = f1\<lparr>fac_statement := rp_handle r2\<rparr>" "w' = w2"
      by (cases "rp_status r2 = ADBC_STATUS_OK"; simp add: ProduceStream_def)+
    with inv1 inv2 show ?thesis by simp
  qed
qed

lemma AdbcArrowScanFunctionData_new_inv:
  assumes inv: "factory_inv adbc live L0 ls p w f"
    and n: "AdbcArrowScanFunctionData_new populate adbc f p w = (r, p', w')"
  shows "case r of Inl _ \<Rightarrow> pool_inv adbc live L0 ls p' w'
       | Inr d \<Rightarrow> factory_inv adbc live L0 ls p' w' (scan_factory d)"
proof -
  obtain r1 f1 w1 where g: "GetSchema adbc f w = (r1, f1, w1)" by (metis prod_cases3)
  have inv1: "factory_inv adbc live L0 ls p w1 f1" using GetSchema_inv [OF inv g] by simp
  obtain p2 w2 where d: "factory_destroy adbc f1 p w1 = (p2, w2)" by fastforce
  note inv2 = factory_destroy_inv [OF inv1 d]
  show ?thesis
    using n g d inv1 inv2
    by (auto simp: AdbcArrowScanFunctionData_new_def split: sum.splits)
qed

section \<open>The scan function\<close>

text \<open>
  The rows a call emits.  DuckDB's \<open>ArrowToDuckDB\<close> is \<open>to_duckdb\<close>, told whether the stream has only
  the projected columns; columns needed for filters only are cut off afterwards.
\<close>

definition scan_output ::
  "(bool \<Rightarrow> 'r \<Rightarrow> 'v list) \<Rightarrow> bool \<Rightarrow> bool \<Rightarrow> nat list \<Rightarrow> 'r \<Rightarrow> 'v list"
where
  "scan_output to_duckdb can_remove_filter_columns is_projected projection_ids row =
     (if can_remove_filter_columns \<and> \<not> is_projected then
        map (\<lambda>i. to_duckdb False row ! i) projection_ids
      else to_duckdb is_projected row)"

definition STANDARD_VECTOR_SIZE :: nat where
  "STANDARD_VECTOR_SIZE = 2048"

text \<open>
  The local state of a scan: the current batch, the offset into it, and what DuckDB's
  \<open>ArrowScanParallelStateNext\<close>, the parameter \<open>next_chunk\<close>, takes the next batch from.
\<close>

record ('g, 'r) scan_local =
  chunk :: "'r list"
  chunk_offset :: nat
  source :: 'g
  lines_read :: nat

definition AdbcScanFunction ::
  "('g \<Rightarrow> ('r list \<times> 'g) option) \<Rightarrow> ('r \<Rightarrow> 'o) \<Rightarrow> ('g, 'r) scan_local \<Rightarrow>
   'o list \<times> ('g, 'r) scan_local"
where
  "AdbcScanFunction next_chunk out st =
     (case (if chunk_offset st \<ge> length (chunk st) then
              (case next_chunk (source st) of
                 None \<Rightarrow> None
               | Some (rows, g) \<Rightarrow> Some (st\<lparr>chunk := rows, chunk_offset := 0, source := g\<rparr>))
            else Some st) of
        None \<Rightarrow> ([], st)
      | Some st1 \<Rightarrow>
          (let output_size = min STANDARD_VECTOR_SIZE (length (chunk st1) - chunk_offset st1) in
           (map out (take output_size (drop (chunk_offset st1) (chunk st1))),
            st1\<lparr>lines_read := lines_read st1 + output_size,
                chunk_offset := chunk_offset st1 + output_size\<rparr>)))"

text \<open>DuckDB calls the function until it gets an empty chunk.\<close>

primrec scan_loop ::
  "nat \<Rightarrow> ('g \<Rightarrow> ('r list \<times> 'g) option) \<Rightarrow> ('r \<Rightarrow> 'o) \<Rightarrow> ('g, 'r) scan_local \<Rightarrow>
   ('o list list \<times> ('g, 'r) scan_local) option"
where
  "scan_loop 0 next_chunk out st = None"
| "scan_loop (Suc n) next_chunk out st =
     (case AdbcScanFunction next_chunk out st of
        ([], st') \<Rightarrow> Some ([], st')
      | (os, st') \<Rightarrow> map_option (\<lambda>(oss, st''). (os # oss, st'')) (scan_loop n next_chunk out st'))"

text \<open>
  What DuckDB's function does: it gives the batches of the stream in order and skips empty ones.
  \<open>rest g\<close> are the rows still to come.
\<close>

definition chunk_source :: "('g \<Rightarrow> ('r list \<times> 'g) option) \<Rightarrow> ('g \<Rightarrow> 'r list) \<Rightarrow> bool" where
  "chunk_source next_chunk rest \<longleftrightarrow>
     (\<forall>g. case next_chunk g of
        None \<Rightarrow> rest g = []
      | Some (rows, g') \<Rightarrow> rows \<noteq> [] \<and> rest g = rows @ rest g')"

definition scan_rest :: "('g \<Rightarrow> 'r list) \<Rightarrow> ('g, 'r) scan_local \<Rightarrow> 'r list" where
  "scan_rest rest st = drop (chunk_offset st) (chunk st) @ rest (source st)"

lemma map_cut: "map f (drop i xs) = map f (take n (drop i xs)) @ map f (drop (i + n) xs)"
  by (metis add.commute append_take_drop_id drop_drop map_append)

lemma AdbcScanFunction_step:
  assumes law: "chunk_source next_chunk rest" and f: "AdbcScanFunction next_chunk out st = (os, st')"
  shows "length os \<le> STANDARD_VECTOR_SIZE \<and>
     map out (scan_rest rest st) = os @ map out (scan_rest rest st') \<and>
     lines_read st' = lines_read st + length os \<and> (os = [] \<longrightarrow> scan_rest rest st = [])"
proof (cases "chunk_offset st \<ge> length (chunk st)")
  case False
  let ?n = "min STANDARD_VECTOR_SIZE (length (chunk st) - chunk_offset st)"
  have os: "os = map out (take ?n (drop (chunk_offset st) (chunk st)))"
    and st': "st' = st\<lparr>lines_read := lines_read st + ?n, chunk_offset := chunk_offset st + ?n\<rparr>"
    using f False by (simp_all add: AdbcScanFunction_def Let_def)
  have "map out (drop (chunk_offset st) (chunk st)) = os @ map out (drop (chunk_offset st + ?n) (chunk st))"
    unfolding os by (rule map_cut)
  moreover have "length os = ?n" "0 < ?n" using False by (simp_all add: os STANDARD_VECTOR_SIZE_def)
  ultimately show ?thesis by (auto simp: st' scan_rest_def)
next
  case True
  show ?thesis
  proof (cases "next_chunk (source st)")
    case None
    with law have "rest (source st) = []"
      by (auto simp: chunk_source_def dest: spec [of _ "source st"])
    with True None f show ?thesis by (simp add: AdbcScanFunction_def scan_rest_def)
  next
    case (Some x)
    obtain rows g where x: "x = (rows, g)" by fastforce
    with law Some have rows: "rows \<noteq> []" "rest (source st) = rows @ rest g"
      unfolding chunk_source_def by (auto dest!: spec [of _ "source st"])
    let ?n = "min STANDARD_VECTOR_SIZE (length rows)"
    have os: "os = map out (take ?n rows)"
      and st': "st' = st\<lparr>chunk := rows, source := g, lines_read := lines_read st + ?n, chunk_offset := ?n\<rparr>"
      using f True Some x by (simp_all add: AdbcScanFunction_def Let_def)
    have "map out rows = os @ map out (drop ?n rows)"
      unfolding os using map_cut [of out 0 rows ?n] by simp
    moreover have len: "length os = ?n" by (simp add: os STANDARD_VECTOR_SIZE_def)
    moreover have "0 < ?n" using rows by (simp add: STANDARD_VECTOR_SIZE_def)
    with len have "os \<noteq> []" by (metis length_greater_0_conv)
    ultimately have "os \<noteq> []" "length os = ?n" "map out rows = os @ map out (drop ?n rows)"
      by simp_all
    then show ?thesis using True rows by (simp add: st' scan_rest_def)
  qed
qed

section \<open>Properties\<close>

text \<open>
  C28: a scan delivers the stream.  Over any source of batches, calling the scan function until it
  returns an empty chunk takes at most one call more than there are rows; the chunks are never
  empty nor longer than a vector, together they are every row of the stream once and in order, and
  \<open>lines_read\<close> counts them.
\<close>

theorem scan_delivers_stream:
  assumes "chunk_source next_chunk rest" and "length (scan_rest rest st) < n"
  shows "\<exists>oss st'. scan_loop n next_chunk out st = Some (oss, st') \<and>
     concat oss = map out (scan_rest rest st) \<and>
     lines_read st' = lines_read st + length (scan_rest rest st) \<and>
     (\<forall>os \<in> set oss. os \<noteq> [] \<and> length os \<le> STANDARD_VECTOR_SIZE)"
  using assms(2)
proof (induction n arbitrary: st)
  case 0
  then show ?case by simp
next
  case (Suc n)
  obtain os st1 where f: "AdbcScanFunction next_chunk out st = (os, st1)" by fastforce
  note step = AdbcScanFunction_step [OF assms(1) f]
  show ?case
  proof (cases "os = []")
    case True
    with step f show ?thesis by simp
  next
    case False
    have len: "length (scan_rest rest st) = length os + length (scan_rest rest st1)"
      using step by (metis length_append length_map)
    have "0 < length os" using False by simp
    with len have "length (scan_rest rest st1) < n" using Suc.prems by linarith
    from Suc.IH [OF this] f False step len show ?thesis by (cases os) auto
  qed
qed

definition list_source :: "'r list list \<Rightarrow> ('r list \<times> 'r list list) option" where
  "list_source bs = (case filter (\<lambda>b. b \<noteq> []) bs of [] \<Rightarrow> None | b # rest \<Rightarrow> Some (b, rest))"

lemma list_source_law: "chunk_source list_source concat"
proof -
  have "case list_source bs of None \<Rightarrow> concat bs = []
      | Some (rows, g') \<Rightarrow> rows \<noteq> [] \<and> concat bs = rows @ concat g'" for bs :: "'a list list"
  proof -
    have c: "concat (filter (\<lambda>b. b \<noteq> []) bs) = concat bs" by (induction bs) auto
    show ?thesis
    proof (cases "filter (\<lambda>b. b \<noteq> []) bs")
      case Nil
      with c show ?thesis by (simp add: list_source_def)
    next
      case (Cons b rest)
      have "\<forall>x \<in> set (filter (\<lambda>b. b \<noteq> []) bs). x \<noteq> []" by simp
      with Cons have "b \<noteq> []" by (metis list.set_intros(1))
      moreover have "concat bs = b @ concat rest" using c Cons by (metis concat.simps(2))
      ultimately show ?thesis
        unfolding list_source_def Cons list.case option.case prod.case by blast
    qed
  qed
  then show ?thesis by (simp add: chunk_source_def)
qed

theorem scan_delivers_stream_witness:
  "\<exists>oss st'. scan_loop 4 list_source (scan_output (\<lambda>_ r. [r, r + 1]) True False [1])
       \<lparr>chunk = [], chunk_offset = 0, source = [[], [1], [2, 3::int]], lines_read = 0\<rparr>
     = Some (oss, st') \<and> concat oss = [[2], [3], [4]] \<and> lines_read st' = 3"
proof -
  define st :: "(int list list, int) scan_local" where
    "st = \<lparr>chunk = [], chunk_offset = 0, source = [[], [1], [2, 3]], lines_read = 0\<rparr>"
  define out :: "int \<Rightarrow> int list" where "out = scan_output (\<lambda>_ r. [r, r + 1]) True False [1]"
  have rest: "scan_rest concat st = [1, 2, 3]" and zero: "lines_read st = 0"
    by (simp_all add: scan_rest_def st_def)
  have "length (scan_rest concat st) < 4" unfolding rest by simp
  then obtain oss st' where run: "scan_loop 4 list_source out st = Some (oss, st')"
    and res: "concat oss = map out (scan_rest concat st)"
    and lines: "lines_read st' = lines_read st + length (scan_rest concat st)"
    using scan_delivers_stream [OF list_source_law, of st 4 out] by blast
  have "concat oss = [[2], [3], [4]]"
    unfolding res rest by (simp add: out_def scan_output_def)
  moreover have "lines_read st' = 3" unfolding lines rest zero by simp
  ultimately show ?thesis using run unfolding st_def out_def by blast
qed

text \<open>
  C29: a scan leaks nothing.  Binding \<open>read_adbc\<close> either throws with every connection and statement
  it made given back, or yields a factory that owns its connection and statement; producing the
  stream, with or without an error, and destroying the factory then gives them back.
\<close>

theorem scan_no_leak:
  assumes "handle_contract adbc live" and "pool_exclusive live L0 ls p w"
    and "AdbcScanBindFunction populate adbc inputs p w = (r, p1, w1)"
  shows "case r of
      Inl _ \<Rightarrow> pool_exclusive live L0 ls p1 w1
    | Inr (d, _) \<Rightarrow>
        (case ProduceStream adbc columns (scan_factory d) w1 of
           (_, f, w2) \<Rightarrow>
             (case factory_destroy adbc f p1 w2 of (p3, w3) \<Rightarrow> pool_exclusive live L0 ls p3 w3))"
proof -
  have inv: "pool_inv adbc live L0 ls p w" using assms(1,2) by (simp add: pool_inv_def)
  have bind: "case r of Inl _ \<Rightarrow> pool_inv adbc live L0 ls p1 w1
     | Inr (d, _) \<Rightarrow> factory_inv adbc live L0 ls p1 w1 (scan_factory d)"
  proof (cases "\<exists>uri text. inputs = [uri, text]")
    case False
    with assms(3) have "\<exists>e. r = Inl e" "p1 = p" "w1 = w"
      by (auto simp: AdbcScanBindFunction_def split: list.splits)
    with inv show ?thesis by auto
  next
    case True
    then obtain uri sql where i: "inputs = [uri, sql]" by blast
    obtain r0 p0 w0 where f: "factory_for_query adbc uri sql p w = (r0, p0, w0)"
      by (metis prod_cases3)
    note inv0 = factory_for_query_inv [OF inv f]
    show ?thesis
    proof (cases r0)
      case (Inl e)
      with inv0 f i assms(3) show ?thesis by (auto simp: AdbcScanBindFunction_def)
    next
      case (Inr fac)
      obtain r2 p2 w2 where n: "AdbcArrowScanFunctionData_new populate adbc fac p0 w0 = (r2, p2, w2)"
        by (metis prod_cases3)
      from Inr inv0 have "factory_inv adbc live L0 ls p0 w0 fac" by simp
      from AdbcArrowScanFunctionData_new_inv [OF this n] n f i Inr assms(3) show ?thesis
        by (auto simp: AdbcScanBindFunction_def split: sum.splits)
    qed
  qed
  show ?thesis
  proof (cases r)
    case (Inl e)
    with bind show ?thesis by (simp add: pool_inv_def)
  next
    case (Inr x)
    obtain d ns where x: "x = (d, ns)" by (cases x) blast
    obtain r2 f w2 where s: "ProduceStream adbc columns (scan_factory d) w1 = (r2, f, w2)"
      by (metis prod_cases3)
    obtain p3 w3 where d: "factory_destroy adbc f p1 w2 = (p3, w3)" by fastforce
    from bind Inr x have "factory_inv adbc live L0 ls p1 w1 (scan_factory d)" by simp
    from factory_destroy_inv [OF ProduceStream_inv [OF this s, THEN conjunct1] d] Inr x s d
    show ?thesis by (simp add: pool_inv_def)
  qed
qed

theorem scan_no_leak_witness:
  "\<exists>r p1 w1. AdbcScanBindFunction Inr scripted [''uri'', ''SELECT 1''] (AdbcConnectionPool_new ''x'' 1)
       \<lparr>allocated = [(Db, 7)], replies = [], calls = []\<rparr> = (r, p1, w1) \<and>
     (case r of
        Inl _ \<Rightarrow> pool_exclusive (set \<circ> allocated) {(Db, 7)} [] p1 w1
      | Inr (d, _) \<Rightarrow>
          (case ProduceStream scripted [] (scan_factory d) w1 of
             (_, f, w2) \<Rightarrow>
               (case factory_destroy scripted f p1 w2 of
                  (p3, w3) \<Rightarrow> pool_exclusive (set \<circ> allocated) {(Db, 7)} [] p3 w3)))"
proof -
  let ?w = "\<lparr>allocated = [(Db, 7)], replies = [], calls = []\<rparr>"
  let ?p = "AdbcConnectionPool_new ''x'' 1"
  obtain r p1 w1 where run: "AdbcScanBindFunction Inr scripted [''uri'', ''SELECT 1''] ?p ?w = (r, p1, w1)"
    by (metis prod_cases3)
  have "pool_exclusive (set \<circ> allocated) {(Db, 7)} [] ?p ?w"
    using pool_exclusive_new [of "set \<circ> allocated" ?w] by simp
  from scan_no_leak [OF scripted_contract this run] run show ?thesis by blast
qed

text \<open>The name before the closing delimiter can be read back when it does not contain it.\<close>

lemma delimited_split:
  assumes "length d = 2" and "d ! 1 \<notin> set c" and "d ! 1 \<notin> set c'"
    and "delimited d c @ rest = delimited d c' @ rest'"
  shows "c = c' \<and> rest = rest'"
proof -
  have tw: "takeWhile (\<lambda>x. x \<noteq> d ! 1) (n @ d ! 1 # r) = n" if "d ! 1 \<notin> set n" for n r
    using that by (induction n) auto
  from assms(1,4) have eq: "c @ d ! 1 # rest = c' @ d ! 1 # rest'"
    by (simp add: delimited_def string_at_def)
  have c: "c = c'" using tw [OF assms(2), of rest] tw [OF assms(3), of rest'] unfolding eq by (rule trans [OF sym])
  with eq show ?thesis by simp
qed

lemma projected_columns_inj:
  assumes "length d = 2" and "d ! 0 \<noteq> CHR '' ''" and "d ! 0 \<noteq> CHR '',''"
  shows "\<forall>c \<in> set cs \<union> set cs'. d ! 1 \<notin> set c \<Longrightarrow>
    projected_columns d b cs @ CHR '' '' # rest = projected_columns d b cs' @ CHR '' '' # rest' \<Longrightarrow> cs = cs'"
proof (induction cs arbitrary: cs' b)
  case Nil
  show ?case
  proof (cases cs')
    case (Cons c' t)
    with Nil assms show ?thesis by (cases b) (auto simp: delimited_def string_at_def)
  qed simp
next
  case (Cons c t)
  show ?case
  proof (cases cs')
    case Nil
    with Cons.prems assms show ?thesis by (cases b) (auto simp: delimited_def string_at_def)
  next
    case cs': (Cons c' t')
    from Cons.prems(2) cs'
    have "delimited d c @ projected_columns d False t @ CHR '' '' # rest =
        delimited d c' @ projected_columns d False t' @ CHR '' '' # rest'"
      by (cases b) simp_all
    from delimited_split [OF assms(1) _ _ this] Cons.prems(1) cs'
    have "c = c'" "projected_columns d False t @ CHR '' '' # rest =
        projected_columns d False t' @ CHR '' '' # rest'"
      by auto
    with Cons.IH [of t' False] Cons.prems(1) cs' show ?thesis by auto
  qed
qed



text \<open>
  Delimiters in names are not escaped.  One column whose name contains the closing delimiter
  gives the same SQL text as two other columns.
\<close>

theorem projection_text_not_escaped:
  "projection_text [d0, d1] table [a @ [d1] @ '', '' @ [d0] @ b] = projection_text [d0, d1] table [a, b]"
  by (simp add: projection_text_def delimited_def string_at_def)

end
