(* ===== verification/Catalog.thy ===== *)
theory Catalog
  imports Adbc_Objects Scan Insert_Buffer
begin

text \<open>
  src/adbc\_catalog.cpp, src/adbc\_schema\_entry.cpp and their headers: an attached catalog with its
  pool, the cache of schema entries and in each the cache of table entries, and the operations that
  read and fill them.  The names a user sees and those of the remote database differ for databases
  without schemas, whose single schema '''' is shown as ''main''.
\<close>

section \<open>Caches with case-insensitive keys\<close>

text \<open>
  What the caches need of a map: an entry is found under its key and every key that counts as the
  same, and inserting changes nothing else.  \<open>get_or_create\<close> is the cache access.
\<close>

definition get_or_create ::
  "('m \<Rightarrow> 'k \<Rightarrow> 'v option) \<Rightarrow> ('m \<Rightarrow> 'k \<Rightarrow> 'v \<Rightarrow> 'm) \<Rightarrow> ('k \<Rightarrow> 'v) \<Rightarrow> 'k \<Rightarrow> 'm \<Rightarrow> 'v \<times> 'm"
where
  "get_or_create find_entry insert_entry mk k m =
     (case find_entry m k of Some v \<Rightarrow> (v, m) | None \<Rightarrow> (mk k, insert_entry m k (mk k)))"

locale keyed_cache =
  fixes find_entry :: "'m \<Rightarrow> 'k \<Rightarrow> 'v option"
    and insert_entry :: "'m \<Rightarrow> 'k \<Rightarrow> 'v \<Rightarrow> 'm"
    and same_key :: "'k \<Rightarrow> 'k \<Rightarrow> bool"
  assumes find_insert: "find_entry (insert_entry m k v) k' = (if same_key k k' then Some v else find_entry m k')"
    and find_same: "same_key k k' \<Longrightarrow> find_entry m k = find_entry m k'"
    and same_refl: "same_key k k"
begin

lemma create_hit:
  "get_or_create find_entry insert_entry mk k m = (v, m') \<Longrightarrow> find_entry m' k = Some v"
  by (auto simp: get_or_create_def find_insert same_refl split: option.splits)

text \<open>What is cached stays, under the same entry.\<close>

lemma create_keeps:
  "get_or_create find_entry insert_entry mk k m = (v, m') \<Longrightarrow> find_entry m k' = Some u \<Longrightarrow>
   find_entry m' k' = Some u"
  using find_same [of k k' m] by (auto simp: get_or_create_def find_insert split: option.splits)

lemma create_again:
  "get_or_create find_entry insert_entry mk k m = (v, m') \<Longrightarrow> same_key k k' \<Longrightarrow>
   get_or_create find_entry insert_entry mk' k' m' = (v, m')"
  using create_hit [of mk k m v m'] find_same [of k k' m'] by (simp add: get_or_create_def)

end

interpretation ci_cache: keyed_cache "ci_find ci" "ci_update ci" "\<lambda>k k'. ci k = ci k'"
  for ci :: "string \<Rightarrow> string"
proof unfold_locales
  fix m :: "'v ci_map" and k v k'
  show "ci_find ci (ci_update ci m k v) k' = (if ci k = ci k' then Some v else ci_find ci m k')"
    by (rule ci_find_update)
  show "ci k = ci k' \<Longrightarrow> ci_find ci m k = ci_find ci m k'" by (simp add: ci_find_def)
qed simp

section \<open>State\<close>

record table_entry =
  table_name :: string
  table_columns :: "(string \<times> string) list"

record schema_entry =
  schema_name :: string
  owned_tables :: "table_entry ci_map"
  tables_loaded :: bool

record catalog =
  cat_uri :: string
  cat_delimiter :: string
  catalog_name :: string
  owned_schemas :: "schema_entry ci_map"
  cached_schema_names :: "string list"
  schema_names_loaded :: bool
  no_schemas :: bool

section \<open>Names\<close>

definition GetExternalSchemaName :: "catalog \<Rightarrow> string \<Rightarrow> string" where
  "GetExternalSchemaName cat schema = (if no_schemas cat \<and> schema = '''' then ''main'' else schema)"

definition GetInternalSchemaName :: "catalog \<Rightarrow> string \<Rightarrow> string" where
  "GetInternalSchemaName cat schema = (if no_schemas cat \<and> schema = ''main'' then '''' else schema)"

definition GetDelimitedInternalName :: "catalog \<Rightarrow> string \<Rightarrow> string \<Rightarrow> string" where
  "GetDelimitedInternalName cat schema table =
     (let quoted_schema = delimited (cat_delimiter cat) (GetInternalSchemaName cat schema);
          quoted_table = delimited (cat_delimiter cat) table
      in if no_schemas cat then quoted_table else quoted_schema @ ''.'' @ quoted_table)"

section \<open>The catalog\<close>

text \<open>
  The constructor: the pool, of the size the setting says, then the catalog's name, then the names
  of the schemas.  An exception destroys the pool.
\<close>

definition AdbcCatalog_new ::
  "'w adbc \<Rightarrow> string \<Rightarrow> string \<Rightarrow> idx_t \<Rightarrow> 'w \<Rightarrow> (exn + catalog \<times> pool) \<times> 'w"
where
  "AdbcCatalog_new adbc uri delimiter pool_size w =
     (case FetchCatalogName adbc (AdbcConnectionPool_new uri pool_size) w of
        (Inl e, p1, w1) \<Rightarrow> (Inl e, AdbcConnectionPool_destroy adbc p1 w1)
      | (Inr name, p1, w1) \<Rightarrow>
          (case FetchSchemaNames adbc name p1 w1 of
             (Inl e, p2, w2) \<Rightarrow> (Inl e, AdbcConnectionPool_destroy adbc p2 w2)
           | (Inr names, p2, w2) \<Rightarrow>
               (Inr (\<lparr>cat_uri = uri, cat_delimiter = delimiter, catalog_name = name, owned_schemas = [],
                      cached_schema_names = names, schema_names_loaded = True,
                      no_schemas = (length names = 1 \<and> hd names = '''')\<rparr>, p2), w2)))"

definition GetCachedSchemaNames ::
  "'w adbc \<Rightarrow> catalog \<Rightarrow> pool \<Rightarrow> 'w \<Rightarrow> (exn + string list) \<times> catalog \<times> pool \<times> 'w"
where
  "GetCachedSchemaNames adbc cat p w =
     (if schema_names_loaded cat then (Inr (cached_schema_names cat), cat, p, w)
      else
        (case FetchSchemaNames adbc (catalog_name cat) p w of
           (Inl e, p1, w1) \<Rightarrow> (Inl e, cat, p1, w1)
         | (Inr names, p1, w1) \<Rightarrow>
             (Inr names, cat\<lparr>cached_schema_names := names, schema_names_loaded := True\<rparr>, p1, w1)))"

definition GetCatalogEntry :: "(string \<Rightarrow> string) \<Rightarrow> catalog \<Rightarrow> string \<Rightarrow> schema_entry option" where
  "GetCatalogEntry ci cat name = ci_find ci (owned_schemas cat) (GetInternalSchemaName cat name)"

definition schema_entry_new :: "catalog \<Rightarrow> string \<Rightarrow> schema_entry" where
  "schema_entry_new cat name =
     \<lparr>schema_name = GetExternalSchemaName cat name, owned_tables = [], tables_loaded = False\<rparr>"

definition CreateCatalogEntry ::
  "(string \<Rightarrow> string) \<Rightarrow> catalog \<Rightarrow> string \<Rightarrow> schema_entry \<times> catalog"
where
  "CreateCatalogEntry ci cat name =
     (case get_or_create (ci_find ci) (ci_update ci) (\<lambda>_. schema_entry_new cat name)
          (GetInternalSchemaName cat name) (owned_schemas cat) of
        (entry, schemas) \<Rightarrow> (entry, cat\<lparr>owned_schemas := schemas\<rparr>))"

datatype on_not_found = RETURN_NULL | THROW_EXCEPTION

definition LookupSchema ::
  "(string \<Rightarrow> string) \<Rightarrow> 'w adbc \<Rightarrow> string \<Rightarrow> on_not_found \<Rightarrow> catalog \<Rightarrow> pool \<Rightarrow> 'w \<Rightarrow>
   (exn + schema_entry option) \<times> catalog \<times> pool \<times> 'w"
where
  "LookupSchema ci adbc name if_not_found cat p w =
     (let internal_name = GetInternalSchemaName cat name in
      case GetCatalogEntry ci cat internal_name of
        Some entry \<Rightarrow> (Inr (Some entry), cat, p, w)
      | None \<Rightarrow>
          (case GetCachedSchemaNames adbc cat p w of
             (Inl e, cat1, p1, w1) \<Rightarrow> (Inl e, cat1, p1, w1)
           | (Inr names, cat1, p1, w1) \<Rightarrow>
               if internal_name \<notin> set names then
                 (if if_not_found = RETURN_NULL then (Inr None, cat1, p1, w1)
                  else (Inl (IOException (''Unable to find schema with name: \"'' @ name @ ''\"'')),
                        cat1, p1, w1))
               else
                 (case CreateCatalogEntry ci cat1 internal_name of
                    (entry, cat2) \<Rightarrow> (Inr (Some entry), cat2, p1, w1))))"

text \<open>\<open>ScanSchemas\<close>: the callback sees the entries in the order of the names.\<close>

fun visit_schemas ::
  "(string \<Rightarrow> string) \<Rightarrow> string list \<Rightarrow> catalog \<Rightarrow> schema_entry list \<times> catalog"
where
  "visit_schemas ci [] cat = ([], cat)"
| "visit_schemas ci (name # names) cat =
     (case (case GetCatalogEntry ci cat (GetInternalSchemaName cat name) of
              Some entry \<Rightarrow> (entry, cat)
            | None \<Rightarrow> CreateCatalogEntry ci cat (GetInternalSchemaName cat name)) of
        (entry, cat1) \<Rightarrow>
          (case visit_schemas ci names cat1 of (entries, cat2) \<Rightarrow> (entry # entries, cat2)))"

definition ScanSchemas ::
  "(string \<Rightarrow> string) \<Rightarrow> 'w adbc \<Rightarrow> catalog \<Rightarrow> pool \<Rightarrow> 'w \<Rightarrow>
   (exn + schema_entry list) \<times> catalog \<times> pool \<times> 'w"
where
  "ScanSchemas ci adbc cat p w =
     (case GetCachedSchemaNames adbc cat p w of
        (Inl e, cat1, p1, w1) \<Rightarrow> (Inl e, cat1, p1, w1)
      | (Inr names, cat1, p1, w1) \<Rightarrow>
          (case visit_schemas ci names cat1 of
             (entries, cat2) \<Rightarrow> (Inr entries, cat2, p1, w1)))"

definition ClearCache :: "catalog \<Rightarrow> catalog" where
  "ClearCache cat = cat\<lparr>owned_schemas := [], cached_schema_names := [], schema_names_loaded := False\<rparr>"

section \<open>Catalog invariant\<close>

text \<open>
  Keys differ up to case, are internal names of known schemas, and an entry carries the external
  name of its key; while the names are not loaded nothing is cached.
\<close>

definition catalog_inv :: "(string \<Rightarrow> string) \<Rightarrow> catalog \<Rightarrow> bool" where
  "catalog_inv ci cat \<longleftrightarrow>
     ci_distinct ci (owned_schemas cat) \<and>
     (\<forall>(k, e) \<in> set (owned_schemas cat).
        schema_name e = GetExternalSchemaName cat k \<and> GetInternalSchemaName cat k = k \<and>
        k \<in> GetInternalSchemaName cat ` set (cached_schema_names cat)) \<and>
     (\<not> schema_names_loaded cat \<longrightarrow> owned_schemas cat = [])"

lemma Internal_idem [simp]:
  "GetInternalSchemaName cat (GetInternalSchemaName cat x) = GetInternalSchemaName cat x"
  by (simp add: GetInternalSchemaName_def)

lemma Internal_External:
  "GetInternalSchemaName cat k = k \<Longrightarrow> GetInternalSchemaName cat (GetExternalSchemaName cat k) = k"
  by (auto simp: GetInternalSchemaName_def GetExternalSchemaName_def split: if_splits)

lemma names_no_schemas_cong:
  "no_schemas cat' = no_schemas cat \<Longrightarrow> GetInternalSchemaName cat' = GetInternalSchemaName cat"
  "no_schemas cat' = no_schemas cat \<Longrightarrow> GetExternalSchemaName cat' = GetExternalSchemaName cat"
  by (auto simp: GetInternalSchemaName_def GetExternalSchemaName_def fun_eq_iff)

lemma ci_find_distinct: "ci_distinct ci m \<Longrightarrow> (k, v) \<in> set m \<Longrightarrow> ci_find ci m k = Some v"
  by (induction m) (force simp: ci_find_Cons ci_distinct_def)+

lemma ci_update_new:
  "ci_find ci m k = None \<Longrightarrow> set (ci_update ci m k v) = insert (k, v) (set m)"
  by (simp add: ci_update_append)

lemma CreateCatalogEntry_inv:
  assumes inv: "catalog_inv ci cat" and "schema_names_loaded cat"
    and key: "GetInternalSchemaName cat name = name"
    and known: "name \<in> GetInternalSchemaName cat ` set (cached_schema_names cat)"
    and c: "CreateCatalogEntry ci cat name = (e, cat')"
  shows "catalog_inv ci cat' \<and> GetCatalogEntry ci cat' name = Some e \<and>
     (\<forall>n f. GetCatalogEntry ci cat n = Some f \<longrightarrow> GetCatalogEntry ci cat' n = Some f) \<and>
     cat' = cat\<lparr>owned_schemas := owned_schemas cat'\<rparr>"
proof -
  obtain m where g: "get_or_create (ci_find ci) (ci_update ci) (\<lambda>_. schema_entry_new cat name) name
      (owned_schemas cat) = (e, m)" and cat': "cat' = cat\<lparr>owned_schemas := m\<rparr>"
    using c key by (auto simp: CreateCatalogEntry_def split: prod.splits)
  have same: "GetInternalSchemaName cat' = GetInternalSchemaName cat"
      "GetExternalSchemaName cat' = GetExternalSchemaName cat"
    by (rule names_no_schemas_cong; simp add: cat')+
  have "catalog_inv ci cat'"
  proof (cases "ci_find ci (owned_schemas cat) name")
    case (Some f)
    with g have "m = owned_schemas cat" by (simp add: get_or_create_def)
    with inv show ?thesis by (simp add: catalog_inv_def cat' GetInternalSchemaName_def GetExternalSchemaName_def)
  next
    case None
    with g have m: "m = ci_update ci (owned_schemas cat) name (schema_entry_new cat name)"
      by (auto simp: get_or_create_def)
    have "set m = insert (name, schema_entry_new cat name) (set (owned_schemas cat))"
      using None m by (simp add: ci_update_new)
    with inv assms(2) key known same ci_distinct_update [of ci "owned_schemas cat" name "schema_entry_new cat name"]
    show ?thesis
      by (simp add: catalog_inv_def m cat' schema_entry_new_def)
  qed
  moreover have "GetCatalogEntry ci cat' name = Some e"
    using ci_cache.create_hit [OF g] key same cat' by (simp add: GetCatalogEntry_def)
  moreover have "GetCatalogEntry ci cat n = Some f \<Longrightarrow> GetCatalogEntry ci cat' n = Some f" for n f
    using ci_cache.create_keeps [OF g, of "GetInternalSchemaName cat n" f] same cat'
    by (simp add: GetCatalogEntry_def)
  ultimately show ?thesis by (auto simp: cat')
qed

lemma GetCachedSchemaNames_inv:
  assumes inv: "catalog_inv ci cat" and g: "GetCachedSchemaNames adbc cat p w = (r, cat', p', w')"
  shows "catalog_inv ci cat' \<and> no_schemas cat' = no_schemas cat \<and>
     (\<forall>n f. GetCatalogEntry ci cat n = Some f \<longrightarrow> GetCatalogEntry ci cat' n = Some f) \<and>
     (\<forall>names. r = Inr names \<longrightarrow> schema_names_loaded cat' \<and> names = cached_schema_names cat')"
proof (cases "schema_names_loaded cat")
  case True
  with inv g show ?thesis by (auto simp: GetCachedSchemaNames_def)
next
  case False
  then have none: "owned_schemas cat = []" using inv by (simp add: catalog_inv_def)
  obtain r1 p1 w1 where f: "FetchSchemaNames adbc (catalog_name cat) p w = (r1, p1, w1)"
    by (metis prod_cases3)
  from f False none g inv show ?thesis
    by (cases r1) (auto simp: GetCachedSchemaNames_def catalog_inv_def GetCatalogEntry_def)
qed

lemma LookupSchema_inv:
  assumes inv: "catalog_inv ci cat" and l: "LookupSchema ci adbc name nf cat p w = (r, cat', p', w')"
  shows "catalog_inv ci cat' \<and> no_schemas cat' = no_schemas cat \<and>
     (\<forall>n f. GetCatalogEntry ci cat n = Some f \<longrightarrow> GetCatalogEntry ci cat' n = Some f) \<and>
     (\<forall>e. r = Inr (Some e) \<longrightarrow> GetCatalogEntry ci cat' name = Some e)"
proof (cases "GetCatalogEntry ci cat (GetInternalSchemaName cat name)")
  case (Some e)
  with l inv show ?thesis by (auto simp: LookupSchema_def GetCatalogEntry_def)
next
  case None
  obtain r1 cat1 p1 w1 where g: "GetCachedSchemaNames adbc cat p w = (r1, cat1, p1, w1)"
    by (metis prod_cases4)
  note inv1 = GetCachedSchemaNames_inv [OF inv g]
  have int: "GetInternalSchemaName cat1 = GetInternalSchemaName cat"
    using inv1 by (intro names_no_schemas_cong) simp
  show ?thesis
  proof (cases "\<exists>names. r1 = Inr names \<and> GetInternalSchemaName cat name \<in> set names")
    case False
    with None g l inv1 show ?thesis
      by (auto simp: LookupSchema_def Let_def split: sum.splits if_splits)
  next
    case True
    then obtain names where r1: "r1 = Inr names" and mem: "GetInternalSchemaName cat name \<in> set names"
      by blast
    obtain e cat2 where c: "CreateCatalogEntry ci cat1 (GetInternalSchemaName cat name) = (e, cat2)"
      by fastforce
    have known: "GetInternalSchemaName cat name \<in> GetInternalSchemaName cat1 ` set (cached_schema_names cat1)"
      using inv1 r1 mem int by (metis Internal_idem image_eqI)
    have "GetInternalSchemaName cat1 (GetInternalSchemaName cat name) = GetInternalSchemaName cat name"
      by (simp add: int)
    note inv2 = CreateCatalogEntry_inv [OF inv1 [THEN conjunct1] _ this known c]
    have eq: "r = Inr (Some e)" "cat' = cat2"
      using None g r1 mem c l by (simp_all add: LookupSchema_def Let_def)
    have loaded: "schema_names_loaded cat1" using inv1 r1 by blast
    have "no_schemas cat2 = no_schemas cat1"
      using inv2 [OF loaded] by (metis catalog.select_convs(7) catalog.surjective catalog.update_convs(4))
    moreover from this have "GetInternalSchemaName cat2 = GetInternalSchemaName cat"
      using inv1 by (intro names_no_schemas_cong) simp
    ultimately show ?thesis
      using inv2 [OF loaded] inv1 eq by (auto simp: GetCatalogEntry_def)
  qed
qed

lemma ClearCache_inv: "catalog_inv ci (ClearCache cat)"
  by (simp add: ClearCache_def catalog_inv_def)

lemma visit_schemas_inv:
  assumes "catalog_inv ci cat" and "schema_names_loaded cat"
    and "set names \<subseteq> set (cached_schema_names cat)"
    and "visit_schemas ci names cat = (es, cat')"
  shows "catalog_inv ci cat' \<and> cat' = cat\<lparr>owned_schemas := owned_schemas cat'\<rparr> \<and>
     (\<forall>n f. GetCatalogEntry ci cat n = Some f \<longrightarrow> GetCatalogEntry ci cat' n = Some f) \<and>
     length es = length names \<and>
     (\<forall>i < length names. GetCatalogEntry ci cat' (names ! i) = Some (es ! i))"
  using assms
proof (induction names arbitrary: cat es)
  case Nil
  then show ?case by simp
next
  case (Cons name names)
  let ?n = "GetInternalSchemaName cat name"
  obtain e cat1 where step: "(case GetCatalogEntry ci cat ?n of Some entry \<Rightarrow> (entry, cat)
      | None \<Rightarrow> CreateCatalogEntry ci cat ?n) = (e, cat1)" by fastforce
  obtain es' where rest: "visit_schemas ci names cat1 = (es', cat')" and eq: "es = e # es'"
    using Cons.prems(4) step by (auto split: prod.splits)
  have one: "catalog_inv ci cat1 \<and> cat1 = cat\<lparr>owned_schemas := owned_schemas cat1\<rparr> \<and>
     (\<forall>n f. GetCatalogEntry ci cat n = Some f \<longrightarrow> GetCatalogEntry ci cat1 n = Some f) \<and>
     GetCatalogEntry ci cat1 ?n = Some e"
  proof (cases "GetCatalogEntry ci cat ?n")
    case (Some f)
    with step Cons.prems(1) show ?thesis by simp
  next
    case None
    with step have c: "CreateCatalogEntry ci cat ?n = (e, cat1)" by simp
    have "?n \<in> GetInternalSchemaName cat ` set (cached_schema_names cat)" using Cons.prems(3) by simp
    from CreateCatalogEntry_inv [OF Cons.prems(1,2) Internal_idem this c] show ?thesis by blast
  qed
  have flags: "schema_names_loaded cat1 = schema_names_loaded cat"
      "cached_schema_names cat1 = cached_schema_names cat" "no_schemas cat1 = no_schemas cat"
    using one by (metis catalog.select_convs catalog.surjective catalog.update_convs(4))+
  have IH: "catalog_inv ci cat' \<and> cat' = cat1\<lparr>owned_schemas := owned_schemas cat'\<rparr> \<and>
     (\<forall>n f. GetCatalogEntry ci cat1 n = Some f \<longrightarrow> GetCatalogEntry ci cat' n = Some f) \<and>
     length es' = length names \<and> (\<forall>i < length names. GetCatalogEntry ci cat' (names ! i) = Some (es' ! i))"
    using Cons.IH [OF _ _ _ rest] one flags Cons.prems(2,3) by auto
  have "GetCatalogEntry ci cat1 name = Some e"
    using one flags(3) by (simp add: GetCatalogEntry_def names_no_schemas_cong(1) [of cat1 cat])
  then have "GetCatalogEntry ci cat' name = Some e" using IH by blast
  moreover have "cat' = cat\<lparr>owned_schemas := owned_schemas cat'\<rparr>"
    using IH one by (metis catalog.surjective catalog.update_convs(4))
  ultimately show ?case
    using IH one eq by (auto simp: nth_Cons split: nat.splits)
qed

lemma ScanSchemas_inv:
  assumes inv: "catalog_inv ci cat" and s: "ScanSchemas ci adbc cat p w = (r, cat', p', w')"
  shows "catalog_inv ci cat' \<and>
     (\<forall>n f. GetCatalogEntry ci cat n = Some f \<longrightarrow> GetCatalogEntry ci cat' n = Some f) \<and>
     (\<forall>es. r = Inr es \<longrightarrow> length es = length (cached_schema_names cat') \<and>
        (\<forall>i < length es. GetCatalogEntry ci cat' (cached_schema_names cat' ! i) = Some (es ! i)))"
proof -
  obtain r1 cat1 p1 w1 where g: "GetCachedSchemaNames adbc cat p w = (r1, cat1, p1, w1)"
    by (metis prod_cases4)
  note inv1 = GetCachedSchemaNames_inv [OF inv g]
  show ?thesis
  proof (cases r1)
    case (Inl e)
    with s g inv1 show ?thesis by (auto simp: ScanSchemas_def)
  next
    case (Inr names)
    then have loaded: "schema_names_loaded cat1" and names: "names = cached_schema_names cat1"
      using inv1 by blast+
    obtain es cat2 where v: "visit_schemas ci names cat1 = (es, cat2)" by fastforce
    note inv2 = visit_schemas_inv [OF inv1 [THEN conjunct1] loaded _ v]
    have "cached_schema_names cat2 = cached_schema_names cat1"
      using inv2 names by (metis order_refl catalog.select_convs(5) catalog.surjective catalog.update_convs(4))
    moreover have "r = Inr es" "cat' = cat2" using s g Inr v by (simp_all add: ScanSchemas_def)
    ultimately show ?thesis using inv2 inv1 names by auto
  qed
qed

text \<open>None of these operations keeps a connection.\<close>

lemma GetCachedSchemaNames_pool:
  assumes "pool_inv adbc live L0 ls p w" and "GetCachedSchemaNames adbc cat p w = (r, cat', p', w')"
  shows "pool_inv adbc live L0 ls p' w'"
proof (cases "schema_names_loaded cat")
  case True
  with assms show ?thesis by (simp add: GetCachedSchemaNames_def)
next
  case False
  obtain r1 p1 w1 where f: "FetchSchemaNames adbc (catalog_name cat) p w = (r1, p1, w1)"
    by (metis prod_cases3)
  from fetch_inv(1) [OF assms(1) f] f False assms(2) show ?thesis
    by (cases r1) (auto simp: GetCachedSchemaNames_def)
qed

lemma LookupSchema_pool:
  assumes "pool_inv adbc live L0 ls p w" and "LookupSchema ci adbc name nf cat p w = (r, cat', p', w')"
  shows "pool_inv adbc live L0 ls p' w'"
proof -
  obtain r1 cat1 p1 w1 where g: "GetCachedSchemaNames adbc cat p w = (r1, cat1, p1, w1)"
    by (metis prod_cases4)
  from GetCachedSchemaNames_pool [OF assms(1) g] g assms show ?thesis
    by (auto simp: LookupSchema_def Let_def split: option.splits sum.splits if_splits prod.splits)
qed

lemma ScanSchemas_pool:
  assumes "pool_inv adbc live L0 ls p w" and "ScanSchemas ci adbc cat p w = (r, cat', p', w')"
  shows "pool_inv adbc live L0 ls p' w'"
proof -
  obtain r1 cat1 p1 w1 where g: "GetCachedSchemaNames adbc cat p w = (r1, cat1, p1, w1)"
    by (metis prod_cases4)
  from GetCachedSchemaNames_pool [OF assms(1) g] g assms show ?thesis
    by (auto simp: ScanSchemas_def split: sum.splits prod.splits)
qed

lemma AdbcCatalog_new_live:
  assumes contract: "handle_contract adbc live"
    and n: "AdbcCatalog_new adbc uri delimiter sz w = (r, w')"
  shows "case r of Inl _ \<Rightarrow> live w' = live w
     | Inr (cat, p) \<Rightarrow> pool_inv adbc live (live w) [] p w' \<and> catalog_inv ci cat"
proof -
  have inv: "pool_inv adbc live (live w) [] (AdbcConnectionPool_new uri sz) w"
    using contract by (simp add: pool_inv_def)
  obtain r1 p1 w1 where f1: "FetchCatalogName adbc (AdbcConnectionPool_new uri sz) w = (r1, p1, w1)"
    by (metis prod_cases3)
  note inv1 = fetch_inv(3) [OF inv f1]
  show ?thesis
  proof (cases r1)
    case (Inl e)
    with n f1 inv1 contract pool_destroy_live [of adbc live "live w" p1 w1] show ?thesis
      by (auto simp: AdbcCatalog_new_def pool_inv_def)
  next
    case (Inr name)
    obtain r2 p2 w2 where f2: "FetchSchemaNames adbc name p1 w1 = (r2, p2, w2)" by (metis prod_cases3)
    note inv2 = fetch_inv(1) [OF inv1 f2]
    from n f1 f2 Inr inv2 contract pool_destroy_live [of adbc live "live w" p2 w2] show ?thesis
      by (cases r2) (auto simp: AdbcCatalog_new_def pool_inv_def catalog_inv_def)
  qed
qed

section \<open>Properties\<close>

text \<open>
  Names map back.  For every cached schema the name shown to the user maps to the key it is
  cached under, so looking the shown name up finds that very entry, without a call of the API; this
  holds in particular for the single schema of a database that has none.
\<close>

theorem shown_schema_names_resolve:
  assumes "catalog_inv ci cat" and "(k, e) \<in> set (owned_schemas cat)"
  shows "GetInternalSchemaName cat (schema_name e) = k \<and>
     LookupSchema ci adbc (schema_name e) nf cat p w = (Inr (Some e), cat, p, w)"
proof -
  have e: "schema_name e = GetExternalSchemaName cat k" "GetInternalSchemaName cat k = k"
    and d: "ci_distinct ci (owned_schemas cat)"
    using assms by (auto simp: catalog_inv_def)
  then have k: "GetInternalSchemaName cat (schema_name e) = k" by (simp add: Internal_External)
  have "ci_find ci (owned_schemas cat) k = Some e"
    by (rule ci_find_distinct [OF d assms(2)])
  with k e show ?thesis by (simp add: LookupSchema_def GetCatalogEntry_def)
qed

definition example_catalog :: "bool \<Rightarrow> string list \<Rightarrow> catalog" where
  "example_catalog none names =
     \<lparr>cat_uri = ''uri'', cat_delimiter = [CHR 0x22, CHR 0x22], catalog_name = '''', owned_schemas = [],
      cached_schema_names = names, schema_names_loaded = True, no_schemas = none\<rparr>"

text \<open>ASCII case folding, as a concrete \<open>ci\<close>.\<close>

definition lower :: "string \<Rightarrow> string" where
  "lower = map (\<lambda>c. let n = of_char c :: nat in if 65 \<le> n \<and> n \<le> 90 then char_of (n + 32) else c)"

lemma lower_examples [simp]:
  "lower ''Sales'' = ''sales''" "lower ''sales'' = ''sales''" "lower ''sALES'' = ''sales''"
  "lower ''a'' = ''a''" "lower ''B'' = ''b''"
  by code_simp+

lemmas example_catalog_defs = Let_def example_catalog_def catalog_inv_def GetInternalSchemaName_def
  GetExternalSchemaName_def LookupSchema_def GetCatalogEntry_def GetCachedSchemaNames_def
  CreateCatalogEntry_def get_or_create_def schema_entry_new_def

theorem shown_schema_names_resolve_witness:
  "LookupSchema id scripted ''main'' THROW_EXCEPTION
     ((example_catalog True [''''])
       \<lparr>owned_schemas := [('''', \<lparr>schema_name = ''main'', owned_tables = [], tables_loaded = False\<rparr>)]\<rparr>)
     (AdbcConnectionPool_new ''uri'' 1) \<lparr>allocated = [], replies = [], calls = []\<rparr>
   = (Inr (Some \<lparr>schema_name = ''main'', owned_tables = [], tables_loaded = False\<rparr>),
      (example_catalog True [''''])
       \<lparr>owned_schemas := [('''', \<lparr>schema_name = ''main'', owned_tables = [], tables_loaded = False\<rparr>)]\<rparr>,
      AdbcConnectionPool_new ''uri'' 1, \<lparr>allocated = [], replies = [], calls = []\<rparr>)"
  using shown_schema_names_resolve [of id "(example_catalog True [''''])
       \<lparr>owned_schemas := [('''', \<lparr>schema_name = ''main'', owned_tables = [], tables_loaded = False\<rparr>)]\<rparr>"
      "''''" "\<lparr>schema_name = ''main'', owned_tables = [], tables_loaded = False\<rparr>" scripted THROW_EXCEPTION
      "AdbcConnectionPool_new ''uri'' 1" "\<lparr>allocated = [], replies = [], calls = []\<rparr>"]
  by (simp add: example_catalog_def catalog_inv_def GetInternalSchemaName_def
      GetExternalSchemaName_def ci_distinct_def)

text \<open>
  Schema lookups are stable.  A lookup that found an entry leaves a catalog in which every
  spelling of the name that differs in case only finds the same entry, without a call of the API;
  and no lookup forgets an entry.
\<close>

theorem schema_lookup_stable:
  assumes "catalog_inv ci cat" and "LookupSchema ci adbc name nf cat p w = (Inr (Some e), cat', p', w')"
    and "ci (GetInternalSchemaName cat name') = ci (GetInternalSchemaName cat name)"
  shows "LookupSchema ci adbc name' nf' cat' p2 w2 = (Inr (Some e), cat', p2, w2) \<and>
     catalog_inv ci cat' \<and>
     (\<forall>n f. GetCatalogEntry ci cat n = Some f \<longrightarrow> GetCatalogEntry ci cat' n = Some f)"
proof -
  note inv = LookupSchema_inv [OF assms(1,2)]
  then have int: "GetInternalSchemaName cat' = GetInternalSchemaName cat"
    by (intro names_no_schemas_cong) simp
  have "GetCatalogEntry ci cat' name = Some e" using inv by blast
  then have "GetCatalogEntry ci cat' (GetInternalSchemaName cat' name') = Some e"
    using ci_cache.find_same [of ci "GetInternalSchemaName cat name'" "GetInternalSchemaName cat name"
        "owned_schemas cat'"] assms(3)
    by (simp add: GetCatalogEntry_def int)
  with inv show ?thesis by (simp add: LookupSchema_def Let_def)
qed

theorem schema_lookup_stable_witness:
  "\<exists>cat'. LookupSchema lower scripted ''Sales'' RETURN_NULL (example_catalog False [''Sales''])
       (AdbcConnectionPool_new ''uri'' 1) (\<lparr>allocated = [], replies = [], calls = []\<rparr>)
     = (Inr (Some \<lparr>schema_name = ''Sales'', owned_tables = [], tables_loaded = False\<rparr>), cat',
        AdbcConnectionPool_new ''uri'' 1, \<lparr>allocated = [], replies = [], calls = []\<rparr>) \<and>
     LookupSchema lower scripted ''sALES'' RETURN_NULL cat' (AdbcConnectionPool_new ''uri'' 1)
       \<lparr>allocated = [], replies = [], calls = []\<rparr>
     = (Inr (Some \<lparr>schema_name = ''Sales'', owned_tables = [], tables_loaded = False\<rparr>), cat',
        AdbcConnectionPool_new ''uri'' 1, \<lparr>allocated = [], replies = [], calls = []\<rparr>)"
proof -
  let ?p = "AdbcConnectionPool_new ''uri'' 1"
  let ?w = "\<lparr>allocated = [], replies = [], calls = []\<rparr>"
  let ?e = "\<lparr>schema_name = ''Sales'', owned_tables = [], tables_loaded = False\<rparr>"
  obtain cat' where l: "LookupSchema lower scripted ''Sales'' RETURN_NULL (example_catalog False [''Sales'']) ?p ?w
      = (Inr (Some ?e), cat', ?p, ?w)"
    by (simp add: example_catalog_defs)
  have "catalog_inv lower (example_catalog False [''Sales''])"
    by (simp add: example_catalog_def catalog_inv_def)
  from schema_lookup_stable [OF this l, of "''sALES''" RETURN_NULL ?p ?w] l show ?thesis
    by (simp add: example_catalog_def GetInternalSchemaName_def)
qed

text \<open>
  A scan of the schemas shows all of them.  When no two schemas differ in case only, the entries
  passed to the callback are those of the known names, in their order, each under its shown name.
\<close>

theorem ScanSchemas_shows_all:
  assumes "catalog_inv ci cat" and "ScanSchemas ci adbc cat p w = (Inr es, cat', p', w')"
    and "inj_on ci (GetInternalSchemaName cat' ` set (cached_schema_names cat'))"
  shows "map schema_name es
     = map (\<lambda>n. GetExternalSchemaName cat' (GetInternalSchemaName cat' n)) (cached_schema_names cat')"
proof (rule nth_equalityI)
  note inv = ScanSchemas_inv [OF assms(1,2)]
  show len: "length (map schema_name es)
      = length (map (\<lambda>n. GetExternalSchemaName cat' (GetInternalSchemaName cat' n)) (cached_schema_names cat'))"
    using inv by simp
  fix i assume "i < length (map schema_name es)"
  then have i: "i < length es" "i < length (cached_schema_names cat')" using inv by auto
  let ?n = "GetInternalSchemaName cat' (cached_schema_names cat' ! i)"
  have "ci_find ci (owned_schemas cat') ?n = Some (es ! i)"
    using inv i by (auto simp: GetCatalogEntry_def)
  then obtain k where k: "(k, es ! i) \<in> set (owned_schemas cat')" "ci k = ci ?n"
    by (auto simp: ci_find_def dest!: find_SomeD)
  have e: "schema_name (es ! i) = GetExternalSchemaName cat' k"
    "k \<in> GetInternalSchemaName cat' ` set (cached_schema_names cat')"
    using inv k(1) by (auto simp: catalog_inv_def)
  have "k = ?n" using inj_onD [OF assms(3) k(2) e(2)] i by simp
  with e i show "map schema_name es ! i
      = map (\<lambda>n. GetExternalSchemaName cat' (GetInternalSchemaName cat' n)) (cached_schema_names cat') ! i"
    by simp
qed

theorem ScanSchemas_shows_all_witness:
  "\<exists>es cat' p' w'. ScanSchemas lower scripted (example_catalog False [''a'', ''B''])
       (AdbcConnectionPool_new ''uri'' 1) \<lparr>allocated = [], replies = [], calls = []\<rparr>
     = (Inr es, cat', p', w') \<and> map schema_name es = [''a'', ''B'']"
proof -
  let ?w = "\<lparr>allocated = [], replies = [], calls = []\<rparr>"
  obtain es cat' where s: "ScanSchemas lower scripted (example_catalog False [''a'', ''B''])
       (AdbcConnectionPool_new ''uri'' 1) ?w = (Inr es, cat', AdbcConnectionPool_new ''uri'' 1, ?w)"
    and c: "cached_schema_names cat' = [''a'', ''B'']" "no_schemas cat' = False"
    by (simp add: ScanSchemas_def example_catalog_defs ci_find_def)
  have "catalog_inv lower (example_catalog False [''a'', ''B''])"
    by (simp add: example_catalog_def catalog_inv_def)
  from ScanSchemas_shows_all [OF this s] s c show ?thesis
    by (simp add: GetInternalSchemaName_def GetExternalSchemaName_def)
qed

text \<open>
  the first lookup is case-sensitive, later ones are not.  A name that differs in case from the
  database's is not found until some lookup has cached the schema under its exact name.
\<close>

theorem schema_lookup_depends_on_cache:
  "fst (LookupSchema lower adbc ''sales'' RETURN_NULL (example_catalog False [''Sales'']) p w) = Inr None \<and>
   (case LookupSchema lower adbc ''Sales'' RETURN_NULL (example_catalog False [''Sales'']) p w of
      (_, cat', p', w') \<Rightarrow>
        \<exists>e. fst (LookupSchema lower adbc ''sales'' RETURN_NULL cat' p' w') = Inr (Some e))"
  by (simp add: example_catalog_defs ci_find_def)

end
