(* ===== verification/Schema_Entry.thy ===== *)
theory Schema_Entry
  imports Catalog
begin

text \<open>
  src/adbc\_schema\_entry.cpp and src/adbc\_table\_entry.cpp: a schema's cache of tables, filled one
  table at a time or by a scan, the creation of a table, and the scan of a table with its
  cardinality.  The operations run under the schema's mutex.
\<close>

section \<open>Operations\<close>

definition LazyLoadNewTables :: "schema_entry \<Rightarrow> schema_entry" where
  "LazyLoadNewTables se = se\<lparr>tables_loaded := False\<rparr>"

text \<open>
  The body of the try block: a connection is leased, a scan of the table bound for its columns, and
  everything given back at the end.  \<open>populate\<close> is DuckDB's check of the columns.
\<close>

definition fetch_table ::
  "((string \<times> string) list \<Rightarrow> exn + (string \<times> string) list) \<Rightarrow> 'w adbc \<Rightarrow> catalog \<Rightarrow> string \<Rightarrow>
   string \<Rightarrow> pool \<Rightarrow> 'w \<Rightarrow> (exn + table_entry) \<times> pool \<times> 'w"
where
  "fetch_table populate adbc cat schema name p w =
     (case GetConnection adbc p w of
        (Inl e, p1, w1) \<Rightarrow> (Inl e, p1, w1)
      | (Inr l, p1, w1) \<Rightarrow>
          (case factory_for_table adbc l (GetDelimitedInternalName cat schema name)
              (cat_delimiter cat) p1 w1 of
             (Inl e, p2, w2) \<Rightarrow> (Inl e, p2, w2)
           | (Inr f, p2, w2) \<Rightarrow>
               (case AdbcArrowScanFunctionData_new populate adbc f p2 w2 of
                  (Inl e, p3, w3) \<Rightarrow> (Inl e, p3, w3)
                | (Inr d, p3, w3) \<Rightarrow>
                    (case factory_destroy adbc (scan_factory d) p3 w3 of
                       (p4, w4) \<Rightarrow>
                         (Inr \<lparr>table_name = name, table_columns = arrow_table d\<rparr>, p4, w4)))))"

definition GetOrCreateTableEntryInternal ::
  "(string \<Rightarrow> string) \<Rightarrow> ((string \<times> string) list \<Rightarrow> exn + (string \<times> string) list) \<Rightarrow> 'w adbc \<Rightarrow>
   catalog \<Rightarrow> string \<Rightarrow> schema_entry \<Rightarrow> pool \<Rightarrow> 'w \<Rightarrow> table_entry option \<times> schema_entry \<times> pool \<times> 'w"
where
  "GetOrCreateTableEntryInternal ci populate adbc cat name se p w =
     (case ci_find ci (owned_tables se) name of
        Some t \<Rightarrow> (Some t, se, p, w)
      | None \<Rightarrow>
          if tables_loaded se then (None, se, p, w)
          else
            (case fetch_table populate adbc cat (schema_name se) name p w of
               (Inl _, p1, w1) \<Rightarrow> (None, se, p1, w1)
             | (Inr t, p1, w1) \<Rightarrow>
                 (Some t, se\<lparr>owned_tables := ci_update ci (owned_tables se) name t\<rparr>, p1, w1)))"

definition LookupEntry ::
  "(string \<Rightarrow> string) \<Rightarrow> ((string \<times> string) list \<Rightarrow> exn + (string \<times> string) list) \<Rightarrow> 'w adbc \<Rightarrow>
   catalog \<Rightarrow> string \<Rightarrow> schema_entry \<Rightarrow> pool \<Rightarrow> 'w \<Rightarrow> table_entry option \<times> schema_entry \<times> pool \<times> 'w"
where
  "LookupEntry = GetOrCreateTableEntryInternal"

text \<open>The loop of \<open>Scan\<close> over the fetched names.\<close>

fun create_entries ::
  "(string \<Rightarrow> string) \<Rightarrow> ((string \<times> string) list \<Rightarrow> exn + (string \<times> string) list) \<Rightarrow> 'w adbc \<Rightarrow>
   catalog \<Rightarrow> string list \<Rightarrow> schema_entry \<Rightarrow> pool \<Rightarrow> 'w \<Rightarrow> schema_entry \<times> pool \<times> 'w"
where
  "create_entries ci populate adbc cat [] se p w = (se, p, w)"
| "create_entries ci populate adbc cat (name # names) se p w =
     (case GetOrCreateTableEntryInternal ci populate adbc cat name se p w of
        (_, se1, p1, w1) \<Rightarrow> create_entries ci populate adbc cat names se1 p1 w1)"

datatype entry_type = TABLE_ENTRY | OTHER_ENTRY

text \<open>The callback sees the entries of the map, in the map's order.\<close>

definition Scan ::
  "(string \<Rightarrow> string) \<Rightarrow> ((string \<times> string) list \<Rightarrow> exn + (string \<times> string) list) \<Rightarrow> 'w adbc \<Rightarrow>
   catalog \<Rightarrow> entry_type \<Rightarrow> schema_entry \<Rightarrow> pool \<Rightarrow> 'w \<Rightarrow>
   (exn + table_entry list) \<times> schema_entry \<times> pool \<times> 'w"
where
  "Scan ci populate adbc cat type se p w =
     (if type \<noteq> TABLE_ENTRY then (Inr [], se, p, w)
      else if tables_loaded se then (Inr (map snd (owned_tables se)), se, p, w)
      else
        (case FetchTableNames adbc (catalog_name cat)
            (GetInternalSchemaName cat (GetInternalSchemaName cat (schema_name se))) p w of
           (Inl e, p1, w1) \<Rightarrow> (Inl e, se, p1, w1)
         | (Inr names, p1, w1) \<Rightarrow>
             (case create_entries ci populate adbc cat names se p1 w1 of
                (se2, p2, w2) \<Rightarrow>
                  (Inr (map snd (owned_tables se2)), se2\<lparr>tables_loaded := True\<rparr>, p2, w2))))"

datatype on_conflict = ERROR_ON_CONFLICT | IGNORE_ON_CONFLICT | REPLACE_ON_CONFLICT

record create_info =
  ci_table :: string
  ci_schema :: string
  ci_columns :: "(string \<times> string) list"
  ci_conflict :: on_conflict

definition create_op :: "catalog \<Rightarrow> create_info \<Rightarrow> adbc_insert" where
  "create_op cat info =
     \<lparr>column_types = map snd (ci_columns info), column_names = map fst (ci_columns info),
      ins_table = ci_table info, ins_schema = GetInternalSchemaName cat (ci_schema info), mode = CTAS\<rparr>"

definition create_remote :: "'w adbc \<Rightarrow> adbc_insert \<Rightarrow> pooled \<Rightarrow> ('w, unit) io" where
  "create_remote adbc op l w =
     (case handle_calls IOException adbc (CTAS_calls op (connection (conn l))) None w of
        (r, s, w1) \<Rightarrow> (r, release_statement adbc s w1))"

definition CreateTable ::
  "(string \<Rightarrow> string) \<Rightarrow> ((string \<times> string) list \<Rightarrow> exn + (string \<times> string) list) \<Rightarrow> 'w adbc \<Rightarrow>
   catalog \<Rightarrow> create_info \<Rightarrow> schema_entry \<Rightarrow> pool \<Rightarrow> 'w \<Rightarrow>
   (exn + table_entry option) \<times> schema_entry \<times> pool \<times> 'w"
where
  "CreateTable ci populate adbc cat info se p w =
     (if ci_conflict info = REPLACE_ON_CONFLICT then
        (Inl (NotImplementedException
           ''CREATE OR REPLACE TABLE not yet supported with the ADBC extension''), se, p, w)
      else if ci_find ci (owned_tables se) (ci_table info) \<noteq> None then
        (Inl (EntryAlreadyExists (ci_table info)), se, p, w)
      else
        (case with_lease (GetConnection adbc) (AdbcPooledConnection_destroy adbc)
            (create_remote adbc (create_op cat info)) p w of
           (Inl e, p1, w1) \<Rightarrow> (Inl e, se, p1, w1)
         | (Inr _, p1, w1) \<Rightarrow>
             (case GetOrCreateTableEntryInternal ci populate adbc cat (ci_table info)
                 (se\<lparr>tables_loaded := False\<rparr>) p1 w1 of
                (entry, se2, p2, w2) \<Rightarrow> (Inr entry, se2\<lparr>tables_loaded := True\<rparr>, p2, w2))))"

text \<open>\<open>GetScanFunction\<close>: the cardinality first, then the factory that takes the lease over.\<close>

definition GetScanFunction ::
  "((string \<times> string) list \<Rightarrow> exn + (string \<times> string) list) \<Rightarrow> 'w adbc \<Rightarrow> catalog \<Rightarrow> string \<Rightarrow>
   table_entry \<Rightarrow> pool \<Rightarrow> 'w \<Rightarrow> (exn + scan_data) \<times> pool \<times> 'w"
where
  "GetScanFunction populate adbc cat schema t p w =
     (case GetConnection adbc p w of
        (Inl e, p1, w1) \<Rightarrow> (Inl e, p1, w1)
      | (Inr l, p1, w1) \<Rightarrow>
          (case GetTableCardinality adbc (connection (conn l))
              (if catalog_name cat = [] then None else Some (catalog_name cat))
              (GetInternalSchemaName cat schema) (table_name t) w1 of
             (Inl e, w2) \<Rightarrow>
               (case AdbcPooledConnection_destroy adbc l p1 w2 of (p3, w3) \<Rightarrow> (Inl e, p3, w3))
           | (Inr c, w2) \<Rightarrow>
               (case factory_for_table adbc l (GetDelimitedInternalName cat schema (table_name t))
                   (cat_delimiter cat) p1 w2 of
                  (Inl e, p3, w3) \<Rightarrow> (Inl e, p3, w3)
                | (Inr f, p3, w3) \<Rightarrow>
                    (case AdbcArrowScanFunctionData_new populate adbc f p3 w3 of
                       (Inl e, p4, w4) \<Rightarrow> (Inl e, p4, w4)
                     | (Inr d, p4, w4) \<Rightarrow> (Inr (d\<lparr>cardinality := c\<rparr>), p4, w4)))))"

section \<open>Nothing leaks\<close>

lemma fetch_table_inv [adbc_inv]:
  assumes inv: "pool_inv adbc live L0 ls p w"
    and f: "fetch_table populate adbc cat schema name p w = (r, p', w')"
  shows "pool_inv adbc live L0 ls p' w'"
proof -
  obtain r1 p1 w1 where get: "GetConnection adbc p w = (r1, p1, w1)" by (metis prod_cases3)
  show ?thesis
  proof (cases r1)
    case (Inl e)
    from ownership.acquire_fail [OF inv get [unfolded Inl]] f get Inl show ?thesis
      by (simp add: fetch_table_def)
  next
    case (Inr l)
    note inv1 = ownership.acquire_ok [OF inv get [unfolded Inr]]
    obtain r2 p2 w2 where mk: "factory_for_table adbc l (GetDelimitedInternalName cat schema name)
        (cat_delimiter cat) p1 w1 = (r2, p2, w2)" by (metis prod_cases3)
    note inv2 = factory_for_table_inv [OF inv1 mk]
    show ?thesis
    proof (cases r2)
      case (Inl e)
      with inv2 f get Inr mk show ?thesis by (simp add: fetch_table_def)
    next
      case fac: (Inr fac)
      obtain r3 p3 w3 where d: "AdbcArrowScanFunctionData_new populate adbc fac p2 w2 = (r3, p3, w3)"
        by (metis prod_cases3)
      from inv2 fac have "factory_inv adbc live L0 ls p2 w2 fac" by simp
      note inv3 = AdbcArrowScanFunctionData_new_inv [OF this d]
      show ?thesis
      proof (cases r3)
        case (Inl e)
        with inv3 f get Inr mk fac d show ?thesis by (simp add: fetch_table_def)
      next
        case sd: (Inr sd)
        obtain p4 w4 where e: "factory_destroy adbc (scan_factory sd) p3 w3 = (p4, w4)" by fastforce
        from inv3 sd have "factory_inv adbc live L0 ls p3 w3 (scan_factory sd)" by simp
        from factory_destroy_inv [OF this e] f get Inr mk fac d sd e show ?thesis
          by (simp add: fetch_table_def)
      qed
    qed
  qed
qed

lemma GetOrCreate_inv [adbc_inv]:
  assumes "pool_inv adbc live L0 ls p w"
    and "GetOrCreateTableEntryInternal ci populate adbc cat name se p w = (t, se', p', w')"
  shows "pool_inv adbc live L0 ls p' w'"
proof -
  obtain r1 p1 w1 where f: "fetch_table populate adbc cat (schema_name se) name p w = (r1, p1, w1)"
    by (metis prod_cases3)
  from fetch_table_inv [OF assms(1) f] f assms show ?thesis
    by (auto simp: GetOrCreateTableEntryInternal_def split: option.splits if_splits sum.splits)
qed

lemma create_entries_inv [adbc_inv]:
  "pool_inv adbc live L0 ls p w \<Longrightarrow> create_entries ci populate adbc cat names se p w = (se', p', w') \<Longrightarrow>
   pool_inv adbc live L0 ls p' w'"
proof (induction names arbitrary: se p w)
  case (Cons name names)
  obtain t se1 p1 w1 where g: "GetOrCreateTableEntryInternal ci populate adbc cat name se p w = (t, se1, p1, w1)"
    by (metis prod_cases4)
  from Cons.IH [OF GetOrCreate_inv [OF Cons.prems(1) g]] g Cons.prems(2) show ?case by simp
qed simp

lemma Scan_inv [adbc_inv]:
  assumes "pool_inv adbc live L0 ls p w" and "Scan ci populate adbc cat type se p w = (r, se', p', w')"
  shows "pool_inv adbc live L0 ls p' w'"
proof -
  obtain r1 p1 w1 where f: "FetchTableNames adbc (catalog_name cat)
      (GetInternalSchemaName cat (schema_name se)) p w = (r1, p1, w1)"
    by (metis prod_cases3)
  note inv1 = fetch_inv(2) [OF assms(1) f]
  show ?thesis
  proof (cases "type = TABLE_ENTRY \<and> \<not> tables_loaded se \<and> (\<exists>names. r1 = Inr names)")
    case True
    then obtain names where r1: "r1 = Inr names" by blast
    obtain se2 p2 w2 where c: "create_entries ci populate adbc cat names se p1 w1 = (se2, p2, w2)"
      by (metis prod_cases3)
    from create_entries_inv [OF inv1 c] c f r1 True assms(2) show ?thesis by (auto simp: Scan_def)
  next
    case False
    with f inv1 assms show ?thesis by (auto simp: Scan_def split: if_splits sum.splits)
  qed
qed

lemma create_remote_live:
  assumes "handle_contract adbc live" and "create_remote adbc op l w = (r, w')"
  shows "live w' = live w"
proof -
  obtain r1 s w1 where h: "handle_calls IOException adbc (CTAS_calls op (connection (conn l))) None w = (r1, s, w1)"
    by (metis prod_cases3)
  from CTAS_live [OF assms(1) h] h assms(2) show ?thesis by (simp add: create_remote_def)
qed

lemma CreateTable_inv [adbc_inv]:
  assumes inv: "pool_inv adbc live L0 ls p w"
    and c: "CreateTable ci populate adbc cat info se p w = (r, se', p', w')"
  shows "pool_inv adbc live L0 ls p' w'"
proof -
  have contract: "handle_contract adbc live" using inv by (simp add: pool_inv_def)
  obtain r1 p1 w1 where l: "with_lease (GetConnection adbc) (AdbcPooledConnection_destroy adbc)
      (create_remote adbc (create_op cat info)) p w = (r1, p1, w1)" by (metis prod_cases3)
  have inv1: "pool_inv adbc live L0 ls p1 w1"
    by (rule ownership.with_lease_inv [OF inv l]) (use create_remote_live [OF contract] in blast)
  obtain t se2 p2 w2 where g: "GetOrCreateTableEntryInternal ci populate adbc cat (ci_table info)
      (se\<lparr>tables_loaded := False\<rparr>) p1 w1 = (t, se2, p2, w2)" by (metis prod_cases4)
  from GetOrCreate_inv [OF inv1 g] inv inv1 l g c show ?thesis
    by (auto simp: CreateTable_def split: if_splits sum.splits)
qed

lemma GetScanFunction_inv:
  assumes inv: "pool_inv adbc live L0 ls p w"
    and s: "GetScanFunction populate adbc cat schema t p w = (r, p', w')"
  shows "case r of Inl _ \<Rightarrow> pool_inv adbc live L0 ls p' w'
     | Inr d \<Rightarrow> factory_inv adbc live L0 ls p' w' (scan_factory d)"
proof -
  have contract: "handle_contract adbc live" using inv by (simp add: pool_inv_def)
  obtain r1 p1 w1 where get: "GetConnection adbc p w = (r1, p1, w1)" by (metis prod_cases3)
  show ?thesis
  proof (cases r1)
    case (Inl e)
    from ownership.acquire_fail [OF inv get [unfolded Inl]] s get Inl show ?thesis
      by (auto simp: GetScanFunction_def)
  next
    case (Inr l)
    note inv1 = ownership.acquire_ok [OF inv get [unfolded Inr]]
    obtain r2 w2 where card: "GetTableCardinality adbc (connection (conn l))
        (if catalog_name cat = [] then None else Some (catalog_name cat))
        (GetInternalSchemaName cat schema) (table_name t) w1 = (r2, w2)" by fastforce
    have "live w2 = live w1"
      using card other_call_live [OF contract, of "ConnectionGetStatistics (connection (conn l)) None
          (GetInternalSchemaName cat schema) (table_name t) True" w1]
      by (auto simp: GetTableCardinality_def split: prod.splits if_splits sum.splits)
    note inv2 = ownership.frame [OF inv1 this]
    show ?thesis
    proof (cases r2)
      case (Inl e)
      obtain p3 w3 where d: "AdbcPooledConnection_destroy adbc l p1 w2 = (p3, w3)" by fastforce
      from ownership.drop_ok [OF inv2 _ d] s get Inr card Inl d show ?thesis
        by (auto simp: GetScanFunction_def)
    next
      case c: (Inr c)
      obtain r3 p3 w3 where mk: "factory_for_table adbc l (GetDelimitedInternalName cat schema (table_name t))
          (cat_delimiter cat) p1 w2 = (r3, p3, w3)" by (metis prod_cases3)
      note inv3 = factory_for_table_inv [OF inv2 mk]
      show ?thesis
      proof (cases r3)
        case (Inl e)
        with inv3 s get Inr card c mk show ?thesis by (auto simp: GetScanFunction_def)
      next
        case fac: (Inr fac)
        obtain r4 p4 w4 where d: "AdbcArrowScanFunctionData_new populate adbc fac p3 w3 = (r4, p4, w4)"
          by (metis prod_cases3)
        from inv3 fac have "factory_inv adbc live L0 ls p3 w3 fac" by simp
        from AdbcArrowScanFunctionData_new_inv [OF this d] s get Inr card c mk fac d show ?thesis
          by (cases r4) (auto simp: GetScanFunction_def)
      qed
    qed
  qed
qed

section \<open>The cache of tables\<close>

definition schema_inv :: "(string \<Rightarrow> string) \<Rightarrow> schema_entry \<Rightarrow> bool" where
  "schema_inv ci se \<longleftrightarrow>
     ci_distinct ci (owned_tables se) \<and> (\<forall>(k, t) \<in> set (owned_tables se). table_name t = k)"

definition keeps_tables :: "(string \<Rightarrow> string) \<Rightarrow> schema_entry \<Rightarrow> schema_entry \<Rightarrow> bool" where
  "keeps_tables ci se se' \<longleftrightarrow>
     schema_name se' = schema_name se \<and>
     (\<forall>n t. ci_find ci (owned_tables se) n = Some t \<longrightarrow> ci_find ci (owned_tables se') n = Some t)"

lemma keeps_tables_refl [simp]: "keeps_tables ci se se"
  by (simp add: keeps_tables_def)

lemma keeps_tables_trans: "keeps_tables ci a b \<Longrightarrow> keeps_tables ci b c \<Longrightarrow> keeps_tables ci a c"
  by (simp add: keeps_tables_def)

lemma keeps_tables_flag [simp]:
  "keeps_tables ci se (se'\<lparr>tables_loaded := b\<rparr>) = keeps_tables ci se se'"
  "keeps_tables ci (se\<lparr>tables_loaded := b\<rparr>) se' = keeps_tables ci se se'"
  by (simp_all add: keeps_tables_def)

lemma schema_inv_flag [simp]: "schema_inv ci (se\<lparr>tables_loaded := b\<rparr>) = schema_inv ci se"
  by (simp add: schema_inv_def)

lemma fetch_table_name:
  "fetch_table populate adbc cat schema name p w = (Inr t, p', w') \<Longrightarrow> table_name t = name"
  by (auto simp: fetch_table_def split: prod.splits sum.splits)

lemma GetOrCreate_cache:
  assumes "GetOrCreateTableEntryInternal ci populate adbc cat name se p w = (r, se', p', w')"
    and "schema_inv ci se"
  shows "schema_inv ci se' \<and> keeps_tables ci se se' \<and> tables_loaded se' = tables_loaded se \<and>
     r = ci_find ci (owned_tables se') name \<and>
     (tables_loaded se \<or> r \<noteq> None \<and> ci_find ci (owned_tables se) name = r \<longrightarrow>
        se' = se \<and> p' = p \<and> w' = w)"
proof (cases "ci_find ci (owned_tables se) name")
  case (Some t)
  with assms show ?thesis by (auto simp: GetOrCreateTableEntryInternal_def)
next
  case None
  obtain r1 p1 w1 where f: "fetch_table populate adbc cat (schema_name se) name p w = (r1, p1, w1)"
    by (metis prod_cases3)
  show ?thesis
  proof (cases "tables_loaded se \<or> (\<exists>e. r1 = Inl e)")
    case True
    with None f assms have "r = None \<and> se' = se \<and> (tables_loaded se \<longrightarrow> p' = p \<and> w' = w)"
      by (auto simp: GetOrCreateTableEntryInternal_def split: if_splits)
    with None assms(2) show ?thesis by auto
  next
    case False
    then obtain t where t: "r1 = Inr t" "\<not> tables_loaded se" by (cases r1) auto
    then have eq: "r = Some t" "se' = se\<lparr>owned_tables := ci_update ci (owned_tables se) name t\<rparr>"
      using None f assms(1) by (simp_all add: GetOrCreateTableEntryInternal_def)
    have "table_name t = name" using f unfolding t(1) by (rule fetch_table_name)
    moreover have "ci_find ci (owned_tables se) n = Some u \<Longrightarrow> ci name \<noteq> ci n" for n u
      using None by (auto simp: ci_find_def)
    ultimately show ?thesis
      using None assms(2) t(2) eq ci_distinct_update [of ci "owned_tables se" name t]
      by (auto simp: schema_inv_def keeps_tables_def ci_update_new ci_find_update)
  qed
qed

lemma create_entries_cache:
  "create_entries ci populate adbc cat names se p w = (se', p', w') \<Longrightarrow> schema_inv ci se \<Longrightarrow>
   schema_inv ci se' \<and> keeps_tables ci se se'"
proof (induction names arbitrary: se p w)
  case (Cons name names)
  obtain t se1 p1 w1 where g: "GetOrCreateTableEntryInternal ci populate adbc cat name se p w = (t, se1, p1, w1)"
    by (metis prod_cases4)
  note one = GetOrCreate_cache [OF g Cons.prems(2)]
  have "create_entries ci populate adbc cat names se1 p1 w1 = (se', p', w')"
    using g Cons.prems(1) by simp
  from Cons.IH [OF this] one show ?case using keeps_tables_trans by blast
qed simp

lemma Scan_cache:
  assumes "Scan ci populate adbc cat type se p w = (r, se', p', w')" and "schema_inv ci se"
  shows "schema_inv ci se' \<and> keeps_tables ci se se' \<and>
     (\<forall>ts. type = TABLE_ENTRY \<and> r = Inr ts \<longrightarrow> tables_loaded se' \<and> ts = map snd (owned_tables se'))"
proof -
  obtain r1 p1 w1 where f: "FetchTableNames adbc (catalog_name cat)
      (GetInternalSchemaName cat (schema_name se)) p w = (r1, p1, w1)"
    by (metis prod_cases3)
  show ?thesis
  proof (cases "type = TABLE_ENTRY \<and> \<not> tables_loaded se \<and> (\<exists>names. r1 = Inr names)")
    case True
    then obtain names where r1: "r1 = Inr names" by blast
    obtain se2 p2 w2 where c: "create_entries ci populate adbc cat names se p1 w1 = (se2, p2, w2)"
      by (metis prod_cases3)
    from create_entries_cache [OF c assms(2)] c f r1 True assms(1) show ?thesis
      by (auto simp: Scan_def)
  next
    case False
    with f assms show ?thesis by (auto simp: Scan_def split: if_splits sum.splits)
  qed
qed

lemma CreateTable_cache:
  assumes "CreateTable ci populate adbc cat info se p w = (r, se', p', w')" and "schema_inv ci se"
  shows "schema_inv ci se' \<and> keeps_tables ci se se' \<and>
     (\<forall>t. r = Inr t \<longrightarrow> tables_loaded se' \<and> t = ci_find ci (owned_tables se') (ci_table info) \<and>
        ci_find ci (owned_tables se) (ci_table info) = None)"
proof -
  obtain r1 p1 w1 where l: "with_lease (GetConnection adbc) (AdbcPooledConnection_destroy adbc)
      (create_remote adbc (create_op cat info)) p w = (r1, p1, w1)" by (metis prod_cases3)
  obtain t se2 p2 w2 where g: "GetOrCreateTableEntryInternal ci populate adbc cat (ci_table info)
      (se\<lparr>tables_loaded := False\<rparr>) p1 w1 = (t, se2, p2, w2)" by (metis prod_cases4)
  have "schema_inv ci (se\<lparr>tables_loaded := False\<rparr>)" using assms(2) by simp
  note c = GetOrCreate_cache [OF g this]
  show ?thesis
  proof (cases "ci_conflict info \<noteq> REPLACE_ON_CONFLICT \<and>
      ci_find ci (owned_tables se) (ci_table info) = None \<and> (\<exists>u. r1 = Inr u)")
    case True
    then obtain u where "ci_conflict info \<noteq> REPLACE_ON_CONFLICT"
      and none: "ci_find ci (owned_tables se) (ci_table info) = None" and r1: "r1 = Inr u" by blast
    then have "CreateTable ci populate adbc cat info se p w
        = (Inr t, se2\<lparr>tables_loaded := True\<rparr>, p2, w2)"
      unfolding CreateTable_def l [unfolded r1] by (simp add: g)
    with assms(1) have "r = Inr t" "se' = se2\<lparr>tables_loaded := True\<rparr>" by simp_all
    moreover have "schema_inv ci se2" "keeps_tables ci (se\<lparr>tables_loaded := False\<rparr>) se2"
        "t = ci_find ci (owned_tables se2) (ci_table info)"
      using c by blast+
    ultimately show ?thesis using none by simp
  next
    case False
    then have "se' = se" "\<exists>e. r = Inl e"
      using l assms(1) by (auto simp: CreateTable_def split: if_splits sum.splits)
    with assms(2) show ?thesis by auto
  qed
qed

section \<open>Worked examples\<close>

text \<open>A database that answers every call with OK, a handle and the same one-column schema.\<close>

definition ok_api :: "unit adbc" where
  "ok_api c u = (ok_reply\<lparr>rp_handle := Some 1, rp_schema := [(''x'', ''INTEGER'')]\<rparr>, u)"

definition example_schema :: schema_entry where
  "example_schema = \<lparr>schema_name = ''s'', owned_tables = [], tables_loaded = False\<rparr>"

definition example_table :: "string \<Rightarrow> table_entry" where
  "example_table name = \<lparr>table_name = name, table_columns = [(''x'', ''INTEGER'')]\<rparr>"

abbreviation example_pool :: pool where
  "example_pool \<equiv> AdbcConnectionPool_new ''uri'' 2"

definition used_pool :: pool where
  "used_pool = example_pool\<lparr>connections := [\<lparr>database = Some 1, connection = Some 1\<rparr>]\<rparr>"

lemmas example_table_defs = ok_api_def example_schema_def example_table_def used_pool_def
  fetch_table_def GetConnection_def AdbcConnectionPool_new_def AdbcConnection_new_def
  take_connection_def AdbcPooledConnection_destroy_def ReturnConnection_def factory_for_table_def
  factory_make_def MakeStatement_def AdbcArrowScanFunctionData_new_def GetSchema_def
  factory_destroy_def release_statement_def ok_reply_def

lemma example_fetch:
  "fetch_table Inr ok_api cat schema name example_pool () = (Inr (example_table name), used_pool, ())"
  "fetch_table Inr ok_api cat schema name used_pool () = (Inr (example_table name), used_pool, ())"
  by (simp_all add: example_table_defs Let_def)

lemma example_lookup:
  "LookupEntry lower Inr ok_api (example_catalog False [''s'']) ''Sales'' example_schema example_pool ()
   = (Some (example_table ''Sales''), example_schema\<lparr>owned_tables := [(''Sales'', example_table ''Sales'')]\<rparr>,
      used_pool, ())"
  by (simp add: LookupEntry_def GetOrCreateTableEntryInternal_def example_fetch example_schema_def)

lemma example_schema_inv: "schema_inv ci example_schema"
  by (simp add: example_schema_def schema_inv_def)

section \<open>Properties\<close>

text \<open>
  C40: table lookups are stable.  A table found is cached: every later lookup under a spelling that
  differs in case only gives the same entry without a call of the API, and no lookup, scan or
  creation of another table drops it.
\<close>

theorem table_lookup_stable:
  assumes "schema_inv ci se" and "LookupEntry ci populate adbc cat name se p w = (Some t, se', p', w')"
    and "ci name' = ci name"
  shows "LookupEntry ci populate adbc cat name' se' p2 w2 = (Some t, se', p2, w2) \<and>
     (\<forall>type r s q v. Scan ci populate adbc cat type se' p2 w2 = (r, s, q, v) \<longrightarrow>
        ci_find ci (owned_tables s) name' = Some t) \<and>
     (\<forall>info r s q v. CreateTable ci populate adbc cat info se' p2 w2 = (r, s, q, v) \<longrightarrow>
        ci_find ci (owned_tables s) name' = Some t)"
proof -
  note c = GetOrCreate_cache [OF assms(2) [unfolded LookupEntry_def] assms(1)]
  then have found: "ci_find ci (owned_tables se') name' = Some t"
    using ci_cache.find_same [of ci name' name "owned_tables se'"] assms(3) by simp
  have inv: "schema_inv ci se'" using c by blast
  have "LookupEntry ci populate adbc cat name' se' p2 w2 = (Some t, se', p2, w2)"
    using found by (simp add: LookupEntry_def GetOrCreateTableEntryInternal_def)
  moreover have "ci_find ci (owned_tables s) name' = Some t"
    if "Scan ci populate adbc cat type se' p2 w2 = (r, s, q, v)" for type r s q v
    using Scan_cache [OF that inv] found by (simp add: keeps_tables_def)
  moreover have "ci_find ci (owned_tables s) name' = Some t"
    if "CreateTable ci populate adbc cat info se' p2 w2 = (r, s, q, v)" for info r s q v
    using CreateTable_cache [OF that inv] found by (simp add: keeps_tables_def)
  ultimately show ?thesis by blast
qed

theorem table_lookup_stable_witness:
  "\<exists>se' p'. LookupEntry lower Inr ok_api (example_catalog False [''s'']) ''Sales'' example_schema
       example_pool () = (Some (example_table ''Sales''), se', p', ()) \<and>
     LookupEntry lower Inr ok_api (example_catalog False [''s'']) ''sALES'' se' p' ()
       = (Some (example_table ''Sales''), se', p', ())"
  using table_lookup_stable [OF example_schema_inv example_lookup, of "''sALES''"] example_lookup
  by (simp add: lower_examples)

text \<open>
  After a scan the schema is read from the cache.  Once the tables of a schema have been scanned,
  the scan having called back every cached entry, a lookup of any name is answered by the cache
  alone: found exactly when it is cached, and nothing is asked of the database.
\<close>

theorem scanned_schema_is_offline:
  assumes "schema_inv ci se" and "Scan ci populate adbc cat TABLE_ENTRY se p w = (Inr ts, se', p', w')"
  shows "ts = map snd (owned_tables se') \<and>
     LookupEntry ci populate adbc cat name se' p2 w2
       = (ci_find ci (owned_tables se') name, se', p2, w2) \<and>
     Scan ci populate adbc cat TABLE_ENTRY se' p2 w2 = (Inr ts, se', p2, w2)"
proof -
  have c: "tables_loaded se'" "ts = map snd (owned_tables se')"
    using Scan_cache [OF assms(2,1)] by blast+
  then show ?thesis
    by (auto simp: LookupEntry_def GetOrCreateTableEntryInternal_def Scan_def split: option.splits)
qed

lemma example_scan:
  "Scan lower Inr ok_api (example_catalog False [''s'']) TABLE_ENTRY example_schema example_pool ()
   = (Inr [], example_schema\<lparr>tables_loaded := True\<rparr>, used_pool, ())"
  by (simp add: Scan_def FetchTableNames_def with_lease_def ForEachCatalog_def example_table_defs)

theorem scanned_schema_is_offline_witness:
  "LookupEntry lower Inr ok_api (example_catalog False [''s'']) ''t''
     (example_schema\<lparr>tables_loaded := True\<rparr>) used_pool ()
   = (None, example_schema\<lparr>tables_loaded := True\<rparr>, used_pool, ())"
  using scanned_schema_is_offline [OF example_schema_inv example_scan, of "''t''" used_pool "()"]
  by (simp add: example_schema_def)

text \<open>
  creating a table hides the others.  A CREATE TABLE that succeeds marks the schema as loaded even
  when it was never scanned, and from then on every table that is not cached is reported as missing,
  without asking the database, until the cache is cleared.
\<close>

theorem create_table_hides_uncached:
  assumes "schema_inv ci se" and "CreateTable ci populate adbc cat info se p w = (Inr t, se', p', w')"
    and "ci_find ci (owned_tables se') name = None"
  shows "LookupEntry ci populate adbc cat name se' p2 w2 = (None, se', p2, w2)"
  using CreateTable_cache [OF assms(2,1)] assms(3)
  by (simp add: LookupEntry_def GetOrCreateTableEntryInternal_def)

definition example_create :: create_info where
  "example_create = \<lparr>ci_table = ''a'', ci_schema = ''s'', ci_columns = [(''x'', ''INTEGER'')],
     ci_conflict = ERROR_ON_CONFLICT\<rparr>"

lemma example_create_run:
  "CreateTable lower Inr ok_api (example_catalog False [''s'']) example_create example_schema example_pool ()
   = (Inr (Some (example_table ''a'')),
      example_schema\<lparr>owned_tables := [(''a'', example_table ''a'')], tables_loaded := True\<rparr>, used_pool, ())"
proof -
  have "with_lease (GetConnection ok_api) (AdbcPooledConnection_destroy ok_api)
      (create_remote ok_api (create_op (example_catalog False [''s'']) example_create)) example_pool ()
      = (Inr (), used_pool, ())"
    by (simp add: with_lease_def create_remote_def create_op_def CTAS_calls_def target_options_def
        example_table_defs)
  then show ?thesis
    by (simp add: CreateTable_def GetOrCreateTableEntryInternal_def example_fetch)
      (simp add: example_schema_def example_create_def)
qed

theorem create_table_hides_uncached_witness:
  "LookupEntry lower Inr ok_api (example_catalog False [''s'']) ''B''
     (example_schema\<lparr>owned_tables := [(''a'', example_table ''a'')], tables_loaded := True\<rparr>) used_pool ()
   = (None, example_schema\<lparr>owned_tables := [(''a'', example_table ''a'')], tables_loaded := True\<rparr>,
      used_pool, ()) \<and>
   fst (LookupEntry lower Inr ok_api (example_catalog False [''s'']) ''B'' example_schema example_pool ())
   = Some (example_table ''B'')"
  using create_table_hides_uncached [OF example_schema_inv example_create_run, of "''B''" used_pool "()"]
  by (simp add: ci_find_Cons LookupEntry_def GetOrCreateTableEntryInternal_def example_fetch example_schema_def)

text \<open>
  Planning a table scan leaks nothing.  \<open>GetScanFunction\<close> either throws with the pool as it was, or
  gives bind data whose factory owns one lease and one statement, and destroying it gives both back.
\<close>

theorem table_scan_no_leak:
  assumes "handle_contract adbc live" and "pool_exclusive live L0 ls p w"
    and "GetScanFunction populate adbc cat schema t p w = (r, p1, w1)"
  shows "case r of
      Inl _ \<Rightarrow> pool_exclusive live L0 ls p1 w1
    | Inr d \<Rightarrow>
        (case factory_destroy adbc (scan_factory d) p1 w1 of (p2, w2) \<Rightarrow> pool_exclusive live L0 ls p2 w2)"
proof -
  have inv: "pool_inv adbc live L0 ls p w" using assms(1,2) by (simp add: pool_inv_def)
  note s = GetScanFunction_inv [OF inv assms(3)]
  show ?thesis
  proof (cases r)
    case (Inl e)
    with s show ?thesis by (simp add: pool_inv_def)
  next
    case (Inr d)
    obtain p2 w2 where x: "factory_destroy adbc (scan_factory d) p1 w1 = (p2, w2)" by fastforce
    from s Inr have "factory_inv adbc live L0 ls p1 w1 (scan_factory d)" by simp
    from factory_destroy_inv [OF this x] x Inr show ?thesis by (simp add: pool_inv_def)
  qed
qed

theorem table_scan_no_leak_witness:
  "\<exists>r p1 w1. GetScanFunction Inr scripted (example_catalog False [''s'']) ''s'' (example_table ''t'')
       (AdbcConnectionPool_new ''uri'' 1) \<lparr>allocated = [], replies = [], calls = []\<rparr> = (r, p1, w1) \<and>
     (case r of
        Inl _ \<Rightarrow> pool_exclusive (set \<circ> allocated) {} [] p1 w1
      | Inr d \<Rightarrow>
          (case factory_destroy scripted (scan_factory d) p1 w1 of
             (p2, w2) \<Rightarrow> pool_exclusive (set \<circ> allocated) {} [] p2 w2))"
proof -
  let ?w = "\<lparr>allocated = [], replies = [], calls = []\<rparr>"
  obtain r p1 w1 where run: "GetScanFunction Inr scripted (example_catalog False [''s'']) ''s''
      (example_table ''t'') (AdbcConnectionPool_new ''uri'' 1) ?w = (r, p1, w1)"
    by (metis prod_cases3)
  have "pool_exclusive (set \<circ> allocated) {} [] (AdbcConnectionPool_new ''uri'' 1) ?w"
    using pool_exclusive_new [of "set \<circ> allocated" ?w] by simp
  from table_scan_no_leak [OF scripted_contract this run] run show ?thesis by blast
qed

end
