(* ===== verification/Plan.thy ===== *)
theory Plan
  imports Schema_Entry
begin

text \<open>
  The planning of writes in src/adbc\_catalog.cpp: the search of a query plan for ADBC reads, the
  guards and the column remapping of INSERT, and CREATE TABLE AS.
\<close>

section \<open>Query plans\<close>

text \<open>
  A physical operator: a table scan, with the name of the function it calls, or any other operator;
  both with their children.
\<close>

datatype physical_operator =
    TableScan string "physical_operator list"
  | OtherOperator "physical_operator list"

fun op_children :: "physical_operator \<Rightarrow> physical_operator list" where
  "op_children (TableScan _ cs) = cs"
| "op_children (OtherOperator cs) = cs"

fun reads_adbc :: "physical_operator \<Rightarrow> bool" where
  "reads_adbc (TableScan name _) \<longleftrightarrow> name = ''read_adbc''"
| "reads_adbc (OtherOperator _) \<longleftrightarrow> False"

fun ContainsAdbcReads :: "physical_operator \<Rightarrow> bool" where
  "ContainsAdbcReads (TableScan name cs) =
     (if name = ''read_adbc'' then True else list_ex ContainsAdbcReads cs)"
| "ContainsAdbcReads (OtherOperator cs) = list_ex ContainsAdbcReads cs"

text \<open>Every operator of a plan.\<close>

inductive in_plan :: "physical_operator \<Rightarrow> physical_operator \<Rightarrow> bool" where
  root: "in_plan p p"
| child: "in_plan q c \<Longrightarrow> c \<in> set (op_children p) \<Longrightarrow> in_plan q p"

inductive_cases in_planE: "in_plan q p"

lemma in_plan_children:
  "in_plan q c \<Longrightarrow> c \<in> set cs \<Longrightarrow> in_plan q (TableScan name cs)"
  "in_plan q c \<Longrightarrow> c \<in> set cs \<Longrightarrow> in_plan q (OtherOperator cs)"
  by (rule in_plan.child; simp)+

lemma ContainsAdbcReads_in_plan:
  "ContainsAdbcReads p \<longleftrightarrow> (\<exists>q. in_plan q p \<and> reads_adbc q)"
proof
  show "ContainsAdbcReads p \<Longrightarrow> \<exists>q. in_plan q p \<and> reads_adbc q"
  proof (induction p rule: ContainsAdbcReads.induct)
    case (1 name cs)
    show ?case
    proof (cases "name = ''read_adbc''")
      case True
      then have "reads_adbc (TableScan name cs)" by simp
      then show ?thesis using in_plan.root by blast
    next
      case False
      with 1 show ?thesis by (fastforce simp: list_ex_iff intro: in_plan_children)
    qed
  next
    case (2 cs)
    then show ?case by (fastforce simp: list_ex_iff intro: in_plan_children)
  qed
next
  have "in_plan q p \<Longrightarrow> reads_adbc q \<Longrightarrow> ContainsAdbcReads p" for q
  proof (induction rule: in_plan.induct)
    case (root p)
    then show ?case by (cases p) simp_all
  next
    case (child q c p)
    then show ?case by (cases p) (auto simp: list_ex_iff)
  qed
  then show "\<exists>q. in_plan q p \<and> reads_adbc q \<Longrightarrow> ContainsAdbcReads p" by blast
qed

section \<open>CREATE TABLE AS\<close>

text \<open>The planned operator: the insert with its one child.\<close>

record planned =
  insert_operator :: adbc_insert
  insert_children :: "physical_operator list"

definition mixing_message :: "string \<Rightarrow> string \<Rightarrow> string" where
  "mixing_message what name =
     ''This '' @ what @ '' mixes ADBC reads and writes, which may cause concurrency issues '' @
     ''depending on the underlying DBMS's transaction isolation level.'' @ [CHR 0x0A] @
     ''If the reads and writes target different DBMSs, this is likely safe; '' @
     ''if they target the same DBMS, consistency depends on that DBMS's isolation guarantees.'' @
     [CHR 0x0A] @ ''If you believe this '' @ name @
     '' is safe, turn off this check by running '' @
     [CHR 0x22] @ ''SET adbc_mix_reads_writes = true;'' @ [CHR 0x22]"

text \<open>An entry of the schema cache is changed in place.\<close>

definition set_entry :: "(string \<Rightarrow> string) \<Rightarrow> catalog \<Rightarrow> string \<Rightarrow> schema_entry \<Rightarrow> catalog" where
  "set_entry ci cat name entry =
     cat\<lparr>owned_schemas := ci_update ci (owned_schemas cat) (GetInternalSchemaName cat name) entry\<rparr>"

text \<open>
  The operator is made first; then the schema's entry is taken from the cache, where it may be
  missing, and told to look for new tables.
\<close>

definition PlanCreateTableAs ::
  "(string \<Rightarrow> string) \<Rightarrow> bool \<Rightarrow> create_info \<Rightarrow> physical_operator \<Rightarrow> catalog \<Rightarrow>
   (exn + planned) \<times> catalog"
where
  "PlanCreateTableAs ci can_mix info plan cat =
     (if ci_conflict info \<noteq> ERROR_ON_CONFLICT then
        (Inl (BinderException (''CREATE TABLE commands not yet supported with IF NOT '' @
           ''EXISTS or REPLACE with the ADBC extension'')), cat)
      else if ContainsAdbcReads plan \<and> \<not> can_mix then
        (Inl (NotImplementedException
           (mixing_message ''CREATE TABLE AS (SELECT ...) statement'' ''CREATE TABLE'')), cat)
      else
        let internal_schema = GetInternalSchemaName cat (ci_schema info);
            insert = \<lparr>insert_operator = create_op cat info, insert_children = [plan]\<rparr>
        in (case GetCatalogEntry ci cat internal_schema of
              None \<Rightarrow> (Inl NullDereference, cat)
            | Some entry \<Rightarrow>
                (Inr insert, set_entry ci cat internal_schema (LazyLoadNewTables entry))))"

section \<open>INSERT\<close>

datatype conflict_action = THROW | OTHER_ACTION

record logical_insert =
  return_chunk :: bool
  conflict_action :: conflict_action
  column_index_map :: "idx_t list"
  li_table :: string
  li_schema :: string
  li_columns :: "(string \<times> string) list"

definition INVALID_INDEX :: idx_t where "INVALID_INDEX = -1"

text \<open>
  The map gives, for each column of the table, the position of its value in the statement; the loop
  inverts it.  Accesses out of range are refused by DuckDB's vector and ColumnList.
\<close>

fun invert_map ::
  "idx_t \<Rightarrow> idx_t list \<Rightarrow> idx_t list \<Rightarrow> idx_t \<Rightarrow> exn + idx_t list \<times> idx_t"
where
  "invert_map c [] indexes n = Inr (indexes, n)"
| "invert_map c (mapped # rest) indexes n =
     (if mapped = INVALID_INDEX then invert_map (c + 1) rest indexes n
      else if unat mapped < length indexes then
        invert_map (c + 1) rest (indexes[unat mapped := c]) (n + 1)
      else Inl InternalException)"

definition column_at :: "(string \<times> string) list \<Rightarrow> idx_t list \<Rightarrow> nat \<Rightarrow> exn + (string \<times> string) list" where
  "column_at columns indexes c =
     (if c < length indexes \<and> unat (indexes ! c) < length columns
      then Inr [columns ! unat (indexes ! c)] else Inl InternalException)"

definition insert_columns :: "logical_insert \<Rightarrow> exn + (string \<times> string) list" where
  "insert_columns op =
     (if column_index_map op \<noteq> [] then
        r_bind (invert_map 0 (column_index_map op)
            (replicate (length (li_columns op)) INVALID_INDEX) 0)
          (\<lambda>(indexes, n). r_collect (column_at (li_columns op) indexes) [0..<unat n])
      else Inr (li_columns op))"

definition PlanInsert ::
  "bool \<Rightarrow> logical_insert \<Rightarrow> physical_operator option \<Rightarrow> catalog \<Rightarrow> exn + planned"
where
  "PlanInsert can_mix op plan cat =
     (if return_chunk op then
        Inl (BinderException ''RETURNING clause not yet supported for INSERTs into an ADBC table'')
      else if conflict_action op \<noteq> THROW then
        Inl (BinderException (''ON CONFLICT clause not yet supported for '' @
          ''INSERTs into ADBC table''))
      else
        (case plan of
           None \<Rightarrow> Inl InternalException
         | Some plan1 \<Rightarrow>
             if ContainsAdbcReads plan1 \<and> \<not> can_mix then
               Inl (NotImplementedException (mixing_message ''INSERT statement'' ''INSERT''))
             else
               r_bind (insert_columns op) (\<lambda>cols.
                 Inr \<lparr>insert_operator =
                        \<lparr>column_types = map snd cols, column_names = map fst cols,
                         ins_table = li_table op,
                         ins_schema = GetInternalSchemaName cat (li_schema op), mode = APPEND\<rparr>,
                      insert_children = [plan1]\<rparr>)))"

section \<open>The column remapping\<close>

text \<open>
  The map of an INSERT that names the columns at positions \<open>targets\<close>, in this order: a column of the
  table maps to the position of its value, the others to INVALID.
\<close>

definition names_columns :: "nat list \<Rightarrow> nat \<Rightarrow> idx_t list \<Rightarrow> bool" where
  "names_columns targets n m \<longleftrightarrow>
     length m = n \<and> distinct targets \<and> set targets \<subseteq> {..<n} \<and> n < 2 ^ 64 - 1 \<and>
     (\<forall>i < length targets. m ! (targets ! i) = of_nat i) \<and>
     (\<forall>c < n. c \<notin> set targets \<longrightarrow> m ! c = INVALID_INDEX)"

lemma names_columns_length:
  assumes "names_columns targets n m"
  shows "length targets \<le> n"
proof -
  have "card (set targets) \<le> card {..<n}"
    using assms by (intro card_mono) (auto simp: names_columns_def)
  then show ?thesis using assms by (simp add: names_columns_def distinct_card)
qed

lemma of_nat_idx:
  assumes "i < 2 ^ 64 - 1"
  shows "unat (of_nat i :: idx_t) = i" "(of_nat i :: idx_t) \<noteq> INVALID_INDEX"
proof -
  show u: "unat (of_nat i :: idx_t) = i" using assms by (simp add: unat_of_nat)
  have "unat (INVALID_INDEX :: idx_t) = 2 ^ 64 - 1" by (simp add: INVALID_INDEX_def unsigned_minus_1_eq_mask mask_eq_exp_minus_1)
  then show "(of_nat i :: idx_t) \<noteq> INVALID_INDEX" using u assms by auto
qed

definition seen_targets :: "nat list \<Rightarrow> nat \<Rightarrow> nat" where
  "seen_targets targets k = length [t \<leftarrow> targets. t < k]"

lemma seen_targets_Suc:
  "distinct targets \<Longrightarrow> seen_targets targets (Suc k) = seen_targets targets k + (if k \<in> set targets then 1 else 0)"
  unfolding seen_targets_def by (induction targets) (auto simp: less_Suc_eq)

lemma invert_map_run:
  assumes m: "names_columns targets n m" and "k \<le> n" and "length indexes = n"
    and "\<forall>j < length targets. targets ! j < k \<longrightarrow> indexes ! j = of_nat (targets ! j)"
  shows "\<exists>indexes'. invert_map (of_nat k) (drop k m) indexes (of_nat (seen_targets targets k))
           = Inr (indexes', of_nat (length targets)) \<and> length indexes' = n \<and>
         (\<forall>j < length targets. indexes' ! j = of_nat (targets ! j))"
  using assms(2-)
proof (induction "n - k" arbitrary: k indexes)
  case 0
  then have "k = n" by simp
  moreover have "[t \<leftarrow> targets. t < n] = targets"
    using m by (intro filter_True) (auto simp: names_columns_def)
  moreover have "targets ! j < n" if "j < length targets" for j
    using m nth_mem [OF that] by (auto simp: names_columns_def)
  ultimately show ?case using 0 m by (auto simp: names_columns_def seen_targets_def)
next
  case (Suc d)
  then have k: "k < n" and d: "d = n - Suc k" by auto
  have len: "length m = n" "distinct targets" using m by (simp_all add: names_columns_def)
  have drop: "drop k m = m ! k # drop (Suc k) m" using k len by (simp add: Cons_nth_drop_Suc)
  have suc: "of_nat k + 1 = (of_nat (Suc k) :: idx_t)" by simp
  show ?case
  proof (cases "k \<in> set targets")
    case False
    then have inv: "m ! k = INVALID_INDEX" using m k by (simp add: names_columns_def)
    have "\<forall>j < length targets. targets ! j < Suc k \<longrightarrow> indexes ! j = of_nat (targets ! j)"
      using Suc.prems(3) False by (metis less_Suc_eq nth_mem)
    from Suc.hyps(1) [OF d _ Suc.prems(2) this] k show ?thesis
      using inv False by (simp add: drop seen_targets_Suc [OF len(2)] add.commute)
  next
    case True
    then obtain i where i: "i < length targets" "targets ! i = k" by (auto simp: in_set_conv_nth)
    have "i < n" using i names_columns_length [OF m] by simp
    then have i2: "i < 2 ^ 64 - 1" using m by (simp add: names_columns_def)
    have mk: "m ! k = of_nat i" using m i by (auto simp: names_columns_def)
    have "\<forall>j < length targets. targets ! j < Suc k \<longrightarrow> indexes[i := of_nat k] ! j = of_nat (targets ! j)"
    proof (intro allI impI)
      fix j assume j: "j < length targets" "targets ! j < Suc k"
      show "indexes[i := of_nat k] ! j = of_nat (targets ! j)"
      proof (cases "j = i")
        case True
        then show ?thesis using i \<open>i < n\<close> Suc.prems(2) by simp
      next
        case False
        then have "targets ! j \<noteq> k" using i j(1) len(2) by (metis nth_eq_iff_index_eq)
        then show ?thesis using Suc.prems(3) j False by simp
      qed
    qed
    from Suc.hyps(1) [OF d _ _ this] k Suc.prems(2) \<open>i < n\<close> show ?thesis
      using mk of_nat_idx [OF i2] True
      by (simp add: drop seen_targets_Suc [OF len(2)] add.commute)
  qed
qed

lemma r_collect_all:
  "(\<And>i. i \<in> set is \<Longrightarrow> f i = Inr [g i]) \<Longrightarrow> r_collect f is = Inr (map g is)"
  by (induction "is") (simp_all add: r_bind_def)

lemma insert_columns_named:
  assumes "names_columns targets (length (li_columns op)) (column_index_map op)"
    and "li_columns op \<noteq> []"
  shows "insert_columns op = Inr (map ((!) (li_columns op)) targets)"
proof -
  let ?cols = "li_columns op"
  have n: "length ?cols < 2 ^ 64 - 1" "column_index_map op \<noteq> []"
    using assms by (auto simp: names_columns_def)
  obtain indexes where run: "invert_map 0 (column_index_map op)
      (replicate (length ?cols) INVALID_INDEX) 0 = Inr (indexes, of_nat (length targets))"
    and ix: "length indexes = length ?cols" "\<forall>j < length targets. indexes ! j = of_nat (targets ! j)"
    using invert_map_run [OF assms(1), of 0 "replicate (length ?cols) INVALID_INDEX"]
    by (auto simp: seen_targets_def)
  have le: "length targets \<le> length ?cols" by (rule names_columns_length [OF assms(1)])
  then have count: "unat (of_nat (length targets) :: idx_t) = length targets"
    using n by (intro of_nat_idx) simp
  have "column_at ?cols indexes i = Inr [?cols ! (targets ! i)]" if "i < length targets" for i
  proof -
    have "targets ! i < length ?cols" using assms(1) nth_mem [OF that] by (auto simp: names_columns_def)
    moreover from this have "unat (of_nat (targets ! i) :: idx_t) = targets ! i"
      using n by (intro of_nat_idx) simp
    ultimately show ?thesis using ix le that by (simp add: column_at_def)
  qed
  then have "r_collect (column_at ?cols indexes) [0..<length targets]
      = Inr (map (\<lambda>i. ?cols ! (targets ! i)) [0..<length targets])"
    by (intro r_collect_all) simp
  moreover have "map (\<lambda>i. ?cols ! (targets ! i)) [0..<length targets] = map ((!) ?cols) targets"
    by (rule nth_equalityI) simp_all
  moreover have "insert_columns op = r_collect (column_at ?cols indexes) [0..<length targets]"
    using n(2) unfolding insert_columns_def run by (simp add: r_bind_def count)
  ultimately show ?thesis by simp
qed

section \<open>Entries changed in place\<close>

lemma ci_update_present:
  assumes "ci_distinct ci m" and "ci_find ci m k = Some v"
  shows "\<exists>k0. (k0, v) \<in> set m \<and> ci k0 = ci k \<and>
     set (ci_update ci m k v') \<subseteq> insert (k0, v') (set m - {(k0, v)})"
  using assms
proof (induction m)
  case (Cons x m)
  obtain a b where x: "x = (a, b)" by (cases x)
  show ?case
  proof (cases "ci a = ci k")
    case True
    then have "b = v" using Cons.prems(2) x by (simp add: ci_find_Cons)
    moreover have "(a, v) \<notin> set m" using Cons.prems(1) x by (force simp: ci_distinct_def)
    ultimately show ?thesis using x True by (intro exI [of _ a]) auto
  next
    case False
    then obtain k0 where k0: "(k0, v) \<in> set m" "ci k0 = ci k"
        "set (ci_update ci m k v') \<subseteq> insert (k0, v') (set m - {(k0, v)})"
      using Cons x by (auto simp: ci_find_Cons ci_distinct_def)
    moreover have "x \<noteq> (k0, v)" using x False k0(2) by auto
    ultimately show ?thesis using x False by (intro exI [of _ k0]) auto
  qed
qed simp

text \<open>The invariant of an attached database: that of the catalog, and that of every cached schema.\<close>

definition attached_inv :: "(string \<Rightarrow> string) \<Rightarrow> catalog \<Rightarrow> bool" where
  "attached_inv ci cat \<longleftrightarrow>
     catalog_inv ci cat \<and> (\<forall>(k, e) \<in> set (owned_schemas cat). schema_inv ci e)"

lemma attached_inv_entry:
  "attached_inv ci cat \<Longrightarrow> GetCatalogEntry ci cat name = Some e \<Longrightarrow> schema_inv ci e"
  using ci_find_Some_in [of ci "owned_schemas cat" "GetInternalSchemaName cat name" e]
  by (auto simp: attached_inv_def GetCatalogEntry_def)

lemma set_entry_find:
  "GetCatalogEntry ci (set_entry ci cat name e) name' =
     (if ci (GetInternalSchemaName cat name) = ci (GetInternalSchemaName cat name') then Some e
      else GetCatalogEntry ci cat name')"
  using names_no_schemas_cong [of "set_entry ci cat name e" cat]
  by (simp add: GetCatalogEntry_def set_entry_def ci_find_update)

lemma set_entry_inv:
  assumes inv: "attached_inv ci cat" and e: "GetCatalogEntry ci cat name = Some e"
    and e': "schema_inv ci e'" "schema_name e' = schema_name e"
  shows "attached_inv ci (set_entry ci cat name e')"
proof -
  let ?m = "owned_schemas cat" and ?k = "GetInternalSchemaName cat name"
  have d: "ci_distinct ci ?m" using inv by (simp add: attached_inv_def catalog_inv_def)
  have f: "ci_find ci ?m ?k = Some e" using e by (simp add: GetCatalogEntry_def)
  obtain k0 where k0: "(k0, e) \<in> set ?m" "set (ci_update ci ?m ?k e') \<subseteq> insert (k0, e') (set ?m)"
    using ci_update_present [OF d f, of e'] by blast
  have same: "GetInternalSchemaName (set_entry ci cat name e') = GetInternalSchemaName cat"
      "GetExternalSchemaName (set_entry ci cat name e') = GetExternalSchemaName cat"
    by (rule names_no_schemas_cong; simp add: set_entry_def)+
  have "?m \<noteq> []" using k0(1) by auto
  then have loaded: "schema_names_loaded cat" using inv by (auto simp: attached_inv_def catalog_inv_def)
  let ?ok = "\<lambda>k x. schema_name x = GetExternalSchemaName cat k \<and> GetInternalSchemaName cat k = k \<and>
      k \<in> GetInternalSchemaName cat ` set (cached_schema_names cat) \<and> schema_inv ci x"
  have old: "?ok k x" if "(k, x) \<in> set ?m" for k x
    using inv that by (auto simp: attached_inv_def catalog_inv_def)
  have new: "?ok k x" if "(k, x) \<in> set (ci_update ci ?m ?k e')" for k x
  proof (cases "(k, x) = (k0, e')")
    case True
    then show ?thesis using old [OF k0(1)] e' by simp
  next
    case False
    then show ?thesis using old that k0(2) by blast
  qed
  have "\<forall>(k, x) \<in> set (ci_update ci ?m ?k e').
      schema_name x = GetExternalSchemaName cat k \<and> GetInternalSchemaName cat k = k \<and>
      k \<in> GetInternalSchemaName cat ` set (cached_schema_names cat) \<and> schema_inv ci x"
    using new by blast
  then show ?thesis
    using ci_distinct_update [OF d] loaded
    by (auto simp: attached_inv_def catalog_inv_def same) (auto simp: set_entry_def)
qed

lemma PlanCreateTableAs_inv:
  assumes "attached_inv ci cat" and "PlanCreateTableAs ci can_mix info plan cat = (r, cat')"
  shows "attached_inv ci cat'"
proof (cases "GetCatalogEntry ci cat (GetInternalSchemaName cat (ci_schema info))")
  case None
  with assms show ?thesis by (auto simp: PlanCreateTableAs_def Let_def split: if_splits)
next
  case (Some e)
  have "attached_inv ci (set_entry ci cat (GetInternalSchemaName cat (ci_schema info)) (LazyLoadNewTables e))"
    using set_entry_inv [OF assms(1) Some] attached_inv_entry [OF assms(1) Some]
    by (simp add: LazyLoadNewTables_def)
  with Some assms show ?thesis by (auto simp: PlanCreateTableAs_def Let_def split: if_splits)
qed

section \<open>Properties\<close>

text \<open>
  C32: INSERT sends the values to the columns the statement names.  For the map of a statement that
  lists distinct columns of the table, in any order, the operator's columns are exactly the listed
  ones in the order of the values, whatever columns are left out.
\<close>

theorem plan_insert_columns:
  assumes "names_columns targets (length (li_columns op)) (column_index_map op)"
    and "li_columns op \<noteq> []" and "\<not> return_chunk op" and "conflict_action op = THROW"
    and "ContainsAdbcReads plan \<longrightarrow> can_mix"
  shows "\<exists>planned. PlanInsert can_mix op (Some plan) cat = Inr planned \<and>
     column_names (insert_operator planned) = map (\<lambda>t. fst (li_columns op ! t)) targets \<and>
     column_types (insert_operator planned) = map (\<lambda>t. snd (li_columns op ! t)) targets \<and>
     mode (insert_operator planned) = APPEND \<and> insert_children planned = [plan]"
  using assms(3-5) insert_columns_named [OF assms(1,2)]
  by (auto simp: PlanInsert_def r_bind_def comp_def)

theorem plan_insert_columns_witness:
  "\<exists>planned. PlanInsert False
      \<lparr>return_chunk = False, conflict_action = THROW, column_index_map = [1, INVALID_INDEX, 0],
       li_table = ''t'', li_schema = ''s'',
       li_columns = [(''a'', ''INTEGER''), (''b'', ''DATE''), (''c'', ''VARCHAR'')]\<rparr>
      (Some (TableScan ''seq_scan'' [])) (example_catalog False [''s'']) = Inr planned \<and>
     column_names (insert_operator planned) = [''c'', ''a''] \<and>
     column_types (insert_operator planned) = [''VARCHAR'', ''INTEGER'']"
proof -
  let ?op = "\<lparr>return_chunk = False, conflict_action = THROW, column_index_map = [1, INVALID_INDEX, 0],
       li_table = ''t'', li_schema = ''s'',
       li_columns = [(''a'', ''INTEGER''), (''b'', ''DATE''), (''c'', ''VARCHAR'')]\<rparr>"
  have "names_columns [2, 0] (length (li_columns ?op)) (column_index_map ?op)"
    by (auto simp: names_columns_def less_Suc_eq nth_Cons')
  from plan_insert_columns [OF this, of "TableScan ''seq_scan'' []" False "example_catalog False [''s'']"]
  show ?thesis by auto
qed

text \<open>
  C33: reads and writes are not mixed.  Whenever INSERT or CREATE TABLE AS is planned without the
  setting that allows it, no operator anywhere in the plan of its input reads through ADBC.
\<close>

theorem plan_never_mixes:
  assumes "PlanInsert False op (Some plan) cat = Inr planned \<or>
     PlanCreateTableAs ci False info plan cat = (Inr planned, cat')"
    and "in_plan q plan"
  shows "\<not> reads_adbc q"
proof -
  have "\<not> ContainsAdbcReads plan"
    using assms(1) by (auto simp: PlanInsert_def PlanCreateTableAs_def split: if_splits)
  with assms(2) ContainsAdbcReads_in_plan [of plan] show ?thesis by blast
qed

theorem plan_never_mixes_witness:
  "\<not> reads_adbc (TableScan ''seq_scan'' [])"
proof (rule plan_never_mixes)
  let ?op = "\<lparr>return_chunk = False, conflict_action = THROW, column_index_map = [],
       li_table = ''t'', li_schema = ''s'', li_columns = []\<rparr>"
  show "PlanInsert False ?op (Some (OtherOperator [TableScan ''seq_scan'' []]))
        (example_catalog False [''s''])
      = Inr \<lparr>insert_operator = \<lparr>column_types = [], column_names = [], ins_table = ''t'',
          ins_schema = ''s'', mode = APPEND\<rparr>, insert_children = [OtherOperator [TableScan ''seq_scan'' []]]\<rparr> \<or>
      PlanCreateTableAs lower False example_create (OtherOperator [TableScan ''seq_scan'' []])
        (example_catalog False [''s''])
      = (Inr \<lparr>insert_operator = \<lparr>column_types = [], column_names = [], ins_table = ''t'',
          ins_schema = ''s'', mode = APPEND\<rparr>, insert_children = [OtherOperator [TableScan ''seq_scan'' []]]\<rparr>,
         example_catalog False [''s''])"
    by (simp add: PlanInsert_def insert_columns_def r_bind_def GetInternalSchemaName_def
        example_catalog_def)
  show "in_plan (TableScan ''seq_scan'' []) (OtherOperator [TableScan ''seq_scan'' []])"
    using in_plan_children(2) [OF in_plan.root] by simp
qed

text \<open>
  C34: CREATE TABLE AS makes the new table visible, if its schema is cached.  A plan that succeeds
  leaves the schema's tables to be looked up again, keeping those already cached, and changes no
  other schema; for a schema that is not in the cache the planner reads through a null pointer.
\<close>

theorem ctas_refreshes_schema:
  assumes "ci_conflict info = ERROR_ON_CONFLICT" and "ContainsAdbcReads plan \<longrightarrow> can_mix"
  shows "case PlanCreateTableAs ci can_mix info plan cat of
      (Inl err, cat') \<Rightarrow>
        err = NullDereference \<and> cat' = cat \<and> GetCatalogEntry ci cat (ci_schema info) = None
    | (Inr planned, cat') \<Rightarrow>
        \<exists>e. GetCatalogEntry ci cat (ci_schema info) = Some e \<and>
          GetCatalogEntry ci cat' (ci_schema info) = Some (e\<lparr>tables_loaded := False\<rparr>) \<and>
          (\<forall>n. ci (GetInternalSchemaName cat n) \<noteq> ci (GetInternalSchemaName cat (ci_schema info)) \<longrightarrow>
             GetCatalogEntry ci cat' n = GetCatalogEntry ci cat n)"
proof -
  have "GetCatalogEntry ci cat (GetInternalSchemaName cat n) = GetCatalogEntry ci cat n" for n
    by (simp add: GetCatalogEntry_def)
  with assms show ?thesis
    by (auto simp: PlanCreateTableAs_def Let_def set_entry_find LazyLoadNewTables_def split: option.splits)
qed

theorem ctas_refreshes_schema_witness:
  "fst (PlanCreateTableAs lower False example_create (OtherOperator []) (example_catalog False [''s'']))
     = Inl NullDereference"
  using ctas_refreshes_schema [of example_create "OtherOperator []" False "example_catalog False [''s'']" lower]
  by (auto simp: example_create_def GetCatalogEntry_def example_catalog_def split: prod.splits sum.splits)

end
