(* ===== verification/Attached.thy ===== *)
theory Attached
  imports Plan
begin

text \<open>
  An attached database from ATTACH to DETACH: the statements DuckDB runs against the catalog, its
  schemas and tables, one after the other, over the one connection pool they share.
\<close>

section \<open>Statements\<close>

text \<open>
  \<open>InsertOp\<close> carries the plan of its input and whether the input has a chunk, since the insert thread
  starts with the first one.
\<close>

datatype statement =
    LookupSchemaOp string on_not_found
  | ScanSchemasOp
  | ClearCacheOp
  | LookupTableOp string string
  | ScanTablesOp string entry_type
  | CreateTableOp create_info
  | TableScanOp string table_entry "string list"
  | InsertOp logical_insert physical_operator bool
  | CreateTableAsOp create_info physical_operator bool

text \<open>A table scan to its end: planned, the stream produced, the bind data destroyed.\<close>

definition run_scan ::
  "((string \<times> string) list \<Rightarrow> exn + (string \<times> string) list) \<Rightarrow> 'w adbc \<Rightarrow> catalog \<Rightarrow> string \<Rightarrow>
   table_entry \<Rightarrow> string list \<Rightarrow> pool \<Rightarrow> 'w \<Rightarrow> (exn + arrow list) \<times> pool \<times> 'w"
where
  "run_scan populate adbc cat schema t columns p w =
     (case GetScanFunction populate adbc cat schema t p w of
        (Inl e, p1, w1) \<Rightarrow> (Inl e, p1, w1)
      | (Inr d, p1, w1) \<Rightarrow>
          (case ProduceStream adbc columns (scan_factory d) w1 of
             (r, f, w2) \<Rightarrow>
               (case factory_destroy adbc f p1 w2 of (p3, w3) \<Rightarrow> (r, p3, w3))))"

text \<open>
  An insert to its end: the sink's state, the calls of the insert thread, then the state destroyed.
  The thread's status is read in \<open>Finalize\<close>.
\<close>

definition run_insert ::
  "'w adbc \<Rightarrow> bool \<Rightarrow> int \<Rightarrow> adbc_insert \<Rightarrow> bool \<Rightarrow> pool \<Rightarrow> 'w \<Rightarrow> (exn + unit) \<times> pool \<times> 'w"
where
  "run_insert adbc materialize limit op has_input p w =
     (case (GetGlobalSinkState adbc op materialize limit p w :: (exn + pooled \<times> unit gstate) \<times> pool \<times> 'w) of
        (Inl e, p1, w1) \<Rightarrow> (Inl e, p1, w1)
      | (Inr (l, g), p1, w1) \<Rightarrow>
          (case (if has_input
                 then (case handle_calls IOException adbc
                           (AsyncInsert_calls op (connection (conn l))) None w1 of
                         (r, s, w2) \<Rightarrow> (r, release_statement adbc s w2))
                 else (Inr (), w1)) of
             (r, w2) \<Rightarrow>
               (case AdbcPooledConnection_destroy adbc l p1 w2 of (p3, w3) \<Rightarrow> (r, p3, w3))))"

text \<open>An operation on the entry of a schema, which DuckDB holds from an earlier lookup.\<close>

definition on_entry ::
  "(string \<Rightarrow> string) \<Rightarrow> string \<Rightarrow>
   (schema_entry \<Rightarrow> pool \<Rightarrow> 'w \<Rightarrow> 'r \<times> schema_entry \<times> pool \<times> 'w) \<Rightarrow> catalog \<Rightarrow> pool \<Rightarrow> 'w \<Rightarrow>
   'r option \<times> catalog \<times> pool \<times> 'w"
where
  "on_entry ci name run cat p w =
     (case GetCatalogEntry ci cat name of
        None \<Rightarrow> (None, cat, p, w)
      | Some e \<Rightarrow> (case run e p w of (r, e', p', w') \<Rightarrow> (Some r, set_entry ci cat name e', p', w')))"

record settings =
  mix_reads_writes :: bool
  materialize_insert_rows :: bool
  insert_buffer_size :: int

fun run_statement ::
  "(string \<Rightarrow> string) \<Rightarrow> ((string \<times> string) list \<Rightarrow> exn + (string \<times> string) list) \<Rightarrow> settings \<Rightarrow> 'w adbc \<Rightarrow>
   statement \<Rightarrow> catalog \<times> pool \<times> 'w \<Rightarrow> catalog \<times> pool \<times> 'w"
where
  "run_statement ci populate st adbc (LookupSchemaOp name nf) (cat, p, w) =
     snd (LookupSchema ci adbc name nf cat p w)"
| "run_statement ci populate st adbc ScanSchemasOp (cat, p, w) = snd (ScanSchemas ci adbc cat p w)"
| "run_statement ci populate st adbc ClearCacheOp (cat, p, w) = (ClearCache cat, p, w)"
| "run_statement ci populate st adbc (LookupTableOp schema name) (cat, p, w) =
     snd (on_entry ci schema (LookupEntry ci populate adbc cat name) cat p w)"
| "run_statement ci populate st adbc (ScanTablesOp schema type) (cat, p, w) =
     snd (on_entry ci schema (Scan ci populate adbc cat type) cat p w)"
| "run_statement ci populate st adbc (CreateTableOp info) (cat, p, w) =
     snd (on_entry ci (ci_schema info) (CreateTable ci populate adbc cat info) cat p w)"
| "run_statement ci populate st adbc (TableScanOp schema t columns) (cat, p, w) =
     (cat, snd (run_scan populate adbc cat schema t columns p w))"
| "run_statement ci populate st adbc (InsertOp op plan has_input) (cat, p, w) =
     (case PlanInsert (mix_reads_writes st) op (Some plan) cat of
        Inl _ \<Rightarrow> (cat, p, w)
      | Inr planned \<Rightarrow>
          (cat, snd (run_insert adbc (materialize_insert_rows st) (insert_buffer_size st)
                       (insert_operator planned) has_input p w)))"
| "run_statement ci populate st adbc (CreateTableAsOp info plan has_input) (cat, p, w) =
     (case PlanCreateTableAs ci (mix_reads_writes st) info plan cat of
        (Inl _, cat1) \<Rightarrow> (cat1, p, w)
      | (Inr planned, cat1) \<Rightarrow>
          (cat1, snd (run_insert adbc (materialize_insert_rows st) (insert_buffer_size st)
                        (insert_operator planned) has_input p w)))"

text \<open>DETACH: the catalog goes, and with it the last owner of the pool.\<close>

definition AdbcCatalog_destroy :: "'w adbc \<Rightarrow> catalog \<times> pool \<times> 'w \<Rightarrow> 'w" where
  "AdbcCatalog_destroy adbc s = (case s of (cat, p, w) \<Rightarrow> AdbcConnectionPool_destroy adbc p w)"

section \<open>What every statement keeps\<close>

lemma AsyncInsert_live:
  assumes "handle_contract adbc live"
    and "handle_calls IOException adbc (AsyncInsert_calls op h0) None w1 = (res, s, w2)"
  shows "live (release_statement adbc s w2) = live w1"
proof -
  have calls: "AsyncInsert_calls op h0 = (\<lambda>s. StatementNew h0) # tl (AsyncInsert_calls op h0)"
    by (simp add: AsyncInsert_calls_def)
  have "exchanges Stmt None s (live w1) (live w2)"
    by (rule handle_calls_New_exchanges [OF assms(1), of "\<lambda>s. StatementNew h0" Stmt
          "tl (AsyncInsert_calls op h0)" IOException])
      (use assms(2) calls in \<open>auto simp: AsyncInsert_calls_def target_options_def split: if_splits\<close>)
  then show ?thesis
    using release_live(3) [OF assms(1), of s w2] by (auto simp: exchanges_def)
qed

lemma run_insert_inv:
  assumes inv: "pool_inv adbc live L0 ls p w"
    and run: "run_insert adbc materialize limit op has_input p w = (r, p', w')"
  shows "pool_inv adbc live L0 ls p' w'"
proof -
  have contract: "handle_contract adbc live" using inv by (simp add: pool_inv_def)
  obtain r1 p1 w1 where g: "(GetGlobalSinkState adbc op materialize limit p w ::
      (exn + pooled \<times> unit gstate) \<times> pool \<times> 'a) = (r1, p1, w1)" by (metis prod_cases3)
  note inv1 = GetGlobalSinkState_inv [OF inv g]
  show ?thesis
  proof (cases r1)
    case (Inl e)
    with inv1 run g show ?thesis by (simp add: run_insert_def)
  next
    case (Inr lg)
    obtain l gs where lg: "lg = (l, gs)" by (cases lg)
    obtain r2 s w2 where h: "handle_calls IOException adbc
        (AsyncInsert_calls op (connection (conn l))) None w1 = (r2, s, w2)" by (metis prod_cases3)
    define w3 where "w3 = (if has_input then release_statement adbc s w2 else w1)"
    have "live w3 = live w1" using AsyncInsert_live [OF contract h] by (simp add: w3_def)
    with inv1 Inr lg have inv3: "pool_inv adbc live L0 (l # ls) p1 w3"
      using ownership.frame by (simp add: pool_inv_def pool_exclusive_def)
    obtain p4 w4 where d: "AdbcPooledConnection_destroy adbc l p1 w3 = (p4, w4)" by fastforce
    from ownership.drop_ok [OF inv3 _ d] run g Inr lg h d show ?thesis
      by (auto simp: run_insert_def w3_def split: if_splits)
  qed
qed

lemma run_scan_inv:
  assumes inv: "pool_inv adbc live L0 ls p w"
    and run: "run_scan populate adbc cat schema t columns p w = (r, p', w')"
  shows "pool_inv adbc live L0 ls p' w'"
proof -
  obtain r1 p1 w1 where g: "GetScanFunction populate adbc cat schema t p w = (r1, p1, w1)"
    by (metis prod_cases3)
  note inv1 = GetScanFunction_inv [OF inv g]
  show ?thesis
  proof (cases r1)
    case (Inl e)
    with inv1 run g show ?thesis by (simp add: run_scan_def)
  next
    case (Inr d)
    obtain r2 f w2 where s: "ProduceStream adbc columns (scan_factory d) w1 = (r2, f, w2)"
      by (metis prod_cases3)
    from inv1 Inr have "factory_inv adbc live L0 ls p1 w1 (scan_factory d)" by simp
    from ProduceStream_inv [OF this s] have inv2: "factory_inv adbc live L0 ls p1 w2 f" by blast
    obtain p3 w3 where x: "factory_destroy adbc f p1 w2 = (p3, w3)" by fastforce
    from factory_destroy_inv [OF inv2 x] run g Inr s x show ?thesis by (simp add: run_scan_def)
  qed
qed

text \<open>On an entry, the operations of a schema keep both invariants.\<close>

lemma on_entry_inv:
  assumes a: "attached_inv ci cat" and p: "pool_inv adbc live L0 ls p w"
    and "on_entry ci name run cat p w = (r, cat', p', w')"
    and run: "\<And>e x e' p1 w1. run e p w = (x, e', p1, w1) \<Longrightarrow> schema_inv ci e \<Longrightarrow>
      schema_inv ci e' \<and> schema_name e' = schema_name e \<and> pool_inv adbc live L0 ls p1 w1"
  shows "attached_inv ci cat' \<and> pool_inv adbc live L0 ls p' w'"
proof (cases "GetCatalogEntry ci cat name")
  case None
  with assms show ?thesis by (simp add: on_entry_def)
next
  case (Some e)
  obtain x e' p1 w1 where x: "run e p w = (x, e', p1, w1)" by (metis prod_cases4)
  note k = run [OF x attached_inv_entry [OF a Some]]
  from k set_entry_inv [OF a Some, of e'] assms(3) Some x show ?thesis by (auto simp: on_entry_def)
qed

text \<open>The catalog's own operations add fresh schemas only.\<close>

definition entries_ok :: "(string \<Rightarrow> string) \<Rightarrow> catalog \<Rightarrow> bool" where
  "entries_ok ci cat \<longleftrightarrow> (\<forall>(k, e) \<in> set (owned_schemas cat). schema_inv ci e)"

lemma CreateCatalogEntry_entries:
  assumes "entries_ok ci cat" and "CreateCatalogEntry ci cat name = (e, cat')"
  shows "entries_ok ci cat'"
proof (cases "ci_find ci (owned_schemas cat) (GetInternalSchemaName cat name)")
  case None
  moreover have "schema_inv ci (schema_entry_new cat name)"
    by (simp add: schema_entry_new_def schema_inv_def)
  ultimately show ?thesis
    using assms by (auto simp: CreateCatalogEntry_def get_or_create_def entries_ok_def ci_update_append)
next
  case (Some f)
  with assms show ?thesis by (auto simp: CreateCatalogEntry_def get_or_create_def entries_ok_def)
qed

lemma GetCachedSchemaNames_entries:
  "entries_ok ci cat \<Longrightarrow> GetCachedSchemaNames adbc cat p w = (r, cat', p', w') \<Longrightarrow> entries_ok ci cat'"
  by (auto simp: GetCachedSchemaNames_def entries_ok_def split: if_splits prod.splits sum.splits)

lemma visit_schemas_entries:
  "entries_ok ci cat \<Longrightarrow> visit_schemas ci names cat = (es, cat') \<Longrightarrow> entries_ok ci cat'"
proof (induction names arbitrary: cat es)
  case (Cons name names)
  obtain e cat1 where one: "(case GetCatalogEntry ci cat (GetInternalSchemaName cat name) of
      Some entry \<Rightarrow> (entry, cat)
    | None \<Rightarrow> CreateCatalogEntry ci cat (GetInternalSchemaName cat name)) = (e, cat1)" by fastforce
  then have "entries_ok ci cat1"
    using Cons.prems(1) CreateCatalogEntry_entries by (auto split: option.splits)
  with Cons.IH [OF this] Cons.prems(2) one show ?case by (auto split: prod.splits)
qed simp

lemma LookupSchema_entries:
  assumes "entries_ok ci cat" and "LookupSchema ci adbc name nf cat p w = (r, cat', p', w')"
  shows "entries_ok ci cat'"
proof -
  obtain r1 cat1 p1 w1 where g: "GetCachedSchemaNames adbc cat p w = (r1, cat1, p1, w1)"
    by (metis prod_cases4)
  obtain e cat2 where c: "CreateCatalogEntry ci cat1 (GetInternalSchemaName cat name) = (e, cat2)"
    by fastforce
  have 1: "entries_ok ci cat1" by (rule GetCachedSchemaNames_entries [OF assms(1) g])
  have 2: "entries_ok ci cat2" by (rule CreateCatalogEntry_entries [OF 1 c])
  have "cat' \<in> {cat, cat1, cat2}"
    using assms(2) g c by (auto simp: LookupSchema_def Let_def split: option.splits sum.splits if_splits)
  with 1 2 assms(1) show ?thesis by auto
qed

lemma ScanSchemas_entries:
  assumes "entries_ok ci cat" and "ScanSchemas ci adbc cat p w = (r, cat', p', w')"
  shows "entries_ok ci cat'"
proof -
  obtain r1 cat1 p1 w1 where g: "GetCachedSchemaNames adbc cat p w = (r1, cat1, p1, w1)"
    by (metis prod_cases4)
  note 1 = GetCachedSchemaNames_entries [OF assms(1) g]
  show ?thesis
  proof (cases r1)
    case (Inl e)
    with 1 g assms(2) show ?thesis by (simp add: ScanSchemas_def)
  next
    case (Inr names)
    obtain es cat2 where v: "visit_schemas ci names cat1 = (es, cat2)" by fastforce
    from visit_schemas_entries [OF 1 v] g v Inr assms(2) show ?thesis by (simp add: ScanSchemas_def)
  qed
qed

lemma attached_inv_iff: "attached_inv ci cat \<longleftrightarrow> catalog_inv ci cat \<and> entries_ok ci cat"
  by (simp add: attached_inv_def entries_ok_def)

text \<open>The operations on an entry keep its invariant and name, and the pool.\<close>

lemma entry_operations:
  assumes "pool_inv adbc live L0 ls p w" and "schema_inv ci e"
  shows
    "LookupEntry ci populate adbc cat name e p w = (t, e', p1, w1) \<Longrightarrow>
       schema_inv ci e' \<and> schema_name e' = schema_name e \<and> pool_inv adbc live L0 ls p1 w1"
    "Scan ci populate adbc cat type e p w = (ts, e', p1, w1) \<Longrightarrow>
       schema_inv ci e' \<and> schema_name e' = schema_name e \<and> pool_inv adbc live L0 ls p1 w1"
    "CreateTable ci populate adbc cat info e p w = (c, e', p1, w1) \<Longrightarrow>
       schema_inv ci e' \<and> schema_name e' = schema_name e \<and> pool_inv adbc live L0 ls p1 w1"
proof -
  show "schema_inv ci e' \<and> schema_name e' = schema_name e \<and> pool_inv adbc live L0 ls p1 w1"
    if run: "LookupEntry ci populate adbc cat name e p w = (t, e', p1, w1)"
    using GetOrCreate_cache [OF run [unfolded LookupEntry_def] assms(2)] GetOrCreate_inv [OF assms(1) run [unfolded LookupEntry_def]]
    unfolding keeps_tables_def by blast
  show "schema_inv ci e' \<and> schema_name e' = schema_name e \<and> pool_inv adbc live L0 ls p1 w1"
    if run: "Scan ci populate adbc cat type e p w = (ts, e', p1, w1)"
    using Scan_cache [OF run assms(2)] Scan_inv [OF assms(1) run]
    unfolding keeps_tables_def by blast
  show "schema_inv ci e' \<and> schema_name e' = schema_name e \<and> pool_inv adbc live L0 ls p1 w1"
    if run: "CreateTable ci populate adbc cat info e p w = (c, e', p1, w1)"
    using CreateTable_cache [OF run assms(2)] CreateTable_inv [OF assms(1) run]
    unfolding keeps_tables_def by blast
qed

lemma on_entry_operation:
  assumes "attached_inv ci cat" and "pool_inv adbc live L0 ls p w"
    and "\<And>e x e' p1 w1. run e p w = (x, e', p1, w1) \<Longrightarrow> schema_inv ci e \<Longrightarrow>
      schema_inv ci e' \<and> schema_name e' = schema_name e \<and> pool_inv adbc live L0 ls p1 w1"
    and "snd (on_entry ci name run cat p w) = (cat', p', w')"
  shows "attached_inv ci cat' \<and> pool_inv adbc live L0 ls p' w'"
proof -
  obtain r where "on_entry ci name run cat p w = (r, cat', p', w')"
    using assms(4) by (cases "on_entry ci name run cat p w") simp
  then show ?thesis by (rule on_entry_inv [OF assms(1,2) _ assms(3)])
qed

lemma run_statement_inv:
  assumes a: "attached_inv ci cat" and p: "pool_inv adbc live L0 ls p w"
    and run: "run_statement ci populate st adbc c (cat, p, w) = (cat', p', w')"
  shows "attached_inv ci cat' \<and> pool_inv adbc live L0 ls p' w'"
proof (cases c)
  case (LookupSchemaOp name nf)
  then obtain r where l: "LookupSchema ci adbc name nf cat p w = (r, cat', p', w')"
    using run by (cases "LookupSchema ci adbc name nf cat p w") simp
  with LookupSchema_inv [OF _ l] LookupSchema_entries [OF _ l] LookupSchema_pool [OF p l] a
  show ?thesis by (simp add: attached_inv_iff)
next
  case ScanSchemasOp
  then obtain r where s: "ScanSchemas ci adbc cat p w = (r, cat', p', w')"
    using run by (cases "ScanSchemas ci adbc cat p w") simp
  with ScanSchemas_inv [OF _ s] ScanSchemas_entries [OF _ s] ScanSchemas_pool [OF p s] a
  show ?thesis by (simp add: attached_inv_iff)
next
  case ClearCacheOp
  with run p ClearCache_inv [of ci cat] show ?thesis
    by (auto simp: attached_inv_def ClearCache_def)
next
  case (LookupTableOp schema name)
  from run have s: "snd (on_entry ci schema (LookupEntry ci populate adbc cat name) cat p w) = (cat', p', w')"
    by (simp add: LookupTableOp)
  show ?thesis by (rule on_entry_operation [OF a p _ s]) (rule entry_operations(1) [OF p])
next
  case (ScanTablesOp schema type)
  from run have s: "snd (on_entry ci schema (Scan ci populate adbc cat type) cat p w) = (cat', p', w')"
    by (simp add: ScanTablesOp)
  show ?thesis by (rule on_entry_operation [OF a p _ s]) (rule entry_operations(2) [OF p])
next
  case (CreateTableOp info)
  from run have s: "snd (on_entry ci (ci_schema info) (CreateTable ci populate adbc cat info) cat p w)
      = (cat', p', w')"
    by (simp add: CreateTableOp)
  show ?thesis by (rule on_entry_operation [OF a p _ s]) (rule entry_operations(3) [OF p])
next
  case (TableScanOp schema t columns)
  obtain r p1 w1 where s: "run_scan populate adbc cat schema t columns p w = (r, p1, w1)"
    by (metis prod_cases3)
  from run_scan_inv [OF p s] s run a TableScanOp show ?thesis by simp
next
  case (InsertOp op plan has_input)
  show ?thesis
  proof (cases "PlanInsert (mix_reads_writes st) op (Some plan) cat")
    case (Inl e)
    with run a p InsertOp show ?thesis by simp
  next
    case (Inr planned)
    obtain r p1 w1 where i: "run_insert adbc (materialize_insert_rows st) (insert_buffer_size st)
        (insert_operator planned) has_input p w = (r, p1, w1)" by (metis prod_cases3)
    from run_insert_inv [OF p i] i run a InsertOp Inr show ?thesis by simp
  qed
next
  case (CreateTableAsOp info plan has_input)
  obtain r1 cat1 where c: "PlanCreateTableAs ci (mix_reads_writes st) info plan cat = (r1, cat1)"
    by fastforce
  note a1 = PlanCreateTableAs_inv [OF a c]
  show ?thesis
  proof (cases r1)
    case (Inl e)
    with run a1 p c CreateTableAsOp show ?thesis by simp
  next
    case (Inr planned)
    obtain r p1 w1 where i: "run_insert adbc (materialize_insert_rows st) (insert_buffer_size st)
        (insert_operator planned) has_input p w = (r, p1, w1)" by (metis prod_cases3)
    from run_insert_inv [OF p i] i run a1 c CreateTableAsOp Inr show ?thesis by simp
  qed
qed

lemma run_statements_inv:
  assumes "attached_inv ci (fst s)" and "pool_inv adbc live L0 [] (fst (snd s)) (snd (snd s))"
  shows "attached_inv ci (fst (fold (run_statement ci populate st adbc) cs s)) \<and>
     pool_inv adbc live L0 [] (fst (snd (fold (run_statement ci populate st adbc) cs s)))
       (snd (snd (fold (run_statement ci populate st adbc) cs s)))"
  using assms
proof (induction cs arbitrary: s)
  case (Cons c cs)
  obtain cat p w where s: "s = (cat, p, w)" by (metis prod_cases3)
  obtain cat1 p1 w1 where r: "run_statement ci populate st adbc c (cat, p, w) = (cat1, p1, w1)"
    by (metis prod_cases3)
  from run_statement_inv [OF _ _ r] Cons.prems s
  have "attached_inv ci cat1 \<and> pool_inv adbc live L0 [] p1 w1" by simp
  with Cons.IH [of "(cat1, p1, w1)"] s r show ?case by simp
qed simp

section \<open>Worked example\<close>

text \<open>A driver with one schema; attaching makes eight calls, the last of which lists the schemas.\<close>

definition example_world :: script where
  "example_world =
     \<lparr>allocated = [],
      replies = [ok_reply, ok_reply, ok_reply, ok_reply, ok_reply, ok_reply, ok_reply,
        ok_reply\<lparr>rp_batches := [objects_batch [(''c'', [(''s'', [])])]]\<rparr>],
      calls = []\<rparr>"

definition example_settings :: settings where
  "example_settings =
     \<lparr>mix_reads_writes = False, materialize_insert_rows = False, insert_buffer_size = 1000\<rparr>"

definition example_idle :: pool where
  "example_idle = \<lparr>active_connections = 0, pool_uri = ''uri'', max_connections = 2,
     connections = [\<lparr>database = Some 1, connection = Some 2\<rparr>]\<rparr>"

lemmas script_defs = scripted_def ok_reply_def fresh_id_def Let_def AdbcConnectionPool_new_def
  GetConnection_def AdbcConnection_new_def take_connection_def AdbcPooledConnection_destroy_def
  ReturnConnection_def with_lease_def example_idle_def

lemma example_attach:
  "\<exists>w. AdbcCatalog_new scripted ''uri'' [CHR 0x22, CHR 0x22] 2 example_world
     = (Inr (example_catalog False [''s''], example_idle), w) \<and>
   allocated w = [(Conn, 2), (Db, 1)] \<and> replies w = []"
proof -
  have "schema_names_of (objects_batch [(''c'', [(''s'', [])])]) = Inr [''s'']"
    using schema_names_of_batch [of "[(''c'', [(''s'', [])])]"] by (simp add: objects_fit_def)
  then show ?thesis
    by (simp add: example_world_def AdbcCatalog_new_def FetchCatalogName_def FetchCatalogName_body_def
        FetchSchemaNames_def ForEachCatalog_def example_catalog_def script_defs r_bind_def)
qed

lemma example_statements:
  assumes "allocated w = [(Conn, 2), (Db, 1)]" and "replies w = []"
  shows "\<exists>w'. fold (run_statement lower Inr example_settings scripted)
      [LookupSchemaOp ''s'' RETURN_NULL, LookupTableOp ''s'' ''t'']
      (example_catalog False [''s''], example_idle, w)
    = ((example_catalog False [''s''])\<lparr>owned_schemas := [(''s'',
         \<lparr>schema_name = ''s'', owned_tables = [(''t'', \<lparr>table_name = ''t'', table_columns = []\<rparr>)],
          tables_loaded = False\<rparr>)]\<rparr>,
       example_idle, w')"
  using assms
  by (simp add: on_entry_def LookupEntry_def GetOrCreateTableEntryInternal_def example_catalog_defs
      set_entry_def script_defs fetch_table_def factory_for_table_def factory_make_def MakeStatement_def
      AdbcArrowScanFunctionData_new_def GetSchema_def factory_destroy_def release_statement_def
      ci_find_def)

section \<open>Properties\<close>

text \<open>
  C8: from ATTACH to DETACH nothing leaks.  Whatever statements are run against an attached database
  and whatever the driver answers, errors included, every database, connection and statement handle
  opened since ATTACH is released by DETACH; an ATTACH that throws leaves nothing open.
\<close>

theorem attach_detach_no_leak:
  assumes "handle_contract adbc live" and "AdbcCatalog_new adbc uri delimiter pool_size w = (r, w1)"
  shows "case r of
      Inl _ \<Rightarrow> live w1 = live w
    | Inr (cat, p) \<Rightarrow>
        live (AdbcCatalog_destroy adbc (fold (run_statement ci populate st adbc) cs (cat, p, w1))) = live w"
proof -
  note n = AdbcCatalog_new_live [OF assms, of ci]
  show ?thesis
  proof (cases r)
    case (Inl e)
    with n show ?thesis by simp
  next
    case (Inr cp)
    obtain cat p where cp: "cp = (cat, p)" by (cases cp)
    have "owned_schemas cat = []" using assms(2) Inr cp
      by (auto simp: AdbcCatalog_new_def split: prod.splits sum.splits)
    with n Inr cp have inv: "attached_inv ci cat" "pool_inv adbc live (live w) [] p w1"
      by (simp_all add: attached_inv_def)
    obtain cat2 p2 w2 where run: "fold (run_statement ci populate st adbc) cs (cat, p, w1) = (cat2, p2, w2)"
      by (metis prod_cases3)
    have "pool_inv adbc live (live w) [] p2 w2"
      using run_statements_inv [of ci "(cat, p, w1)" adbc live "live w" populate st cs] inv run by simp
    with pool_destroy_live [OF assms(1), of "live w" p2 w2] Inr cp run show ?thesis
      by (simp add: AdbcCatalog_destroy_def pool_inv_def)
  qed
qed

theorem attach_detach_no_leak_witness:
  "\<exists>cat p w. AdbcCatalog_new scripted ''uri'' [CHR 0x22, CHR 0x22] 2 example_world = (Inr (cat, p), w) \<and>
     allocated w \<noteq> [] \<and>
     allocated (AdbcCatalog_destroy scripted (fold (run_statement lower Inr example_settings scripted)
       [LookupSchemaOp ''s'' RETURN_NULL, LookupTableOp ''s'' ''t'', ClearCacheOp] (cat, p, w))) = []"
proof -
  obtain w where n: "AdbcCatalog_new scripted ''uri'' [CHR 0x22, CHR 0x22] 2 example_world
      = (Inr (example_catalog False [''s''], example_idle), w)" and w: "allocated w \<noteq> []"
    using example_attach by force
  have "allocated (AdbcCatalog_destroy scripted (fold (run_statement lower Inr example_settings scripted)
      [LookupSchemaOp ''s'' RETURN_NULL, LookupTableOp ''s'' ''t'', ClearCacheOp]
      (example_catalog False [''s''], example_idle, w))) = []"
    using attach_detach_no_leak [OF scripted_contract n, of lower Inr example_settings
        "[LookupSchemaOp ''s'' RETURN_NULL, LookupTableOp ''s'' ''t'', ClearCacheOp]"]
    by (simp add: example_world_def del: fold_simps)
  with n w show ?thesis by blast
qed



end
