(* ===== verification/Extension.thy ===== *)
theory Extension
  imports Attached
begin

text \<open>
  Transactions (src/adbc\_transaction.cpp), ATTACH options (src/adbc\_storage.cpp), the settings and
  functions the extension registers (src/adbc\_extension.cpp), \<open>adbc\_execute\<close> (src/adbc\_execute.cpp)
  and \<open>adbc\_clear\_cache\<close> (src/adbc\_clear\_cache.cpp).
\<close>

section \<open>Transactions\<close>

text \<open>The manager holds its transactions by address; \<open>t\<close> is the address of the new one.\<close>

record transaction_manager =
  transactions :: "nat set"

definition AdbcTransactionManager_new :: transaction_manager where
  "AdbcTransactionManager_new = \<lparr>transactions = {}\<rparr>"

text \<open>The size of the longer of the two option values, with its terminator.\<close>

definition MAX_OPTION_LEN :: nat where
  "MAX_OPTION_LEN =
     (if Suc (length ''true'') > Suc (length ''false'') then Suc (length ''true'')
      else Suc (length ''false''))"

definition StartTransaction ::
  "'w adbc \<Rightarrow> nat \<Rightarrow> transaction_manager \<Rightarrow> pool \<Rightarrow> 'w \<Rightarrow>
   (exn + nat) \<times> transaction_manager \<times> pool \<times> 'w"
where
  "StartTransaction adbc t tm p w =
     (case with_lease (GetConnection adbc) (AdbcPooledConnection_destroy adbc)
         (\<lambda>l w1. case adbc (ConnectionGetOption (connection (conn l)) ''adbc.connection.autocommit''
                              MAX_OPTION_LEN) w1 of (r, w2) \<Rightarrow> (Inr r, w2)) p w of
        (Inl e, p1, w1) \<Rightarrow> (Inl e, tm, p1, w1)
      | (Inr r, p1, w1) \<Rightarrow>
          if rp_status r = ADBC_STATUS_NOT_FOUND then
            (Inr t, tm\<lparr>transactions := insert t (transactions tm)\<rparr>, p1, w1)
          else
            (case CHECK_ADBC IOException r of
               Inl e \<Rightarrow> (Inl e, tm, p1, w1)
             | Inr _ \<Rightarrow>
                 if rp_value r \<noteq> ''true'' then
                   (Inl (NotImplementedException
                      (''Running with the auto-commit option turned off is not yet supported '' @
                       ''with the ADBC extension'')), tm, p1, w1)
                 else (Inr t, tm\<lparr>transactions := insert t (transactions tm)\<rparr>, p1, w1)))"

definition CommitTransaction :: "nat \<Rightarrow> transaction_manager \<Rightarrow> exn option \<times> transaction_manager" where
  "CommitTransaction t tm = (None, tm\<lparr>transactions := transactions tm - {t}\<rparr>)"

definition RollbackTransaction :: "nat \<Rightarrow> transaction_manager \<Rightarrow> transaction_manager" where
  "RollbackTransaction t tm = tm\<lparr>transactions := transactions tm - {t}\<rparr>"

definition Checkpoint :: "transaction_manager \<Rightarrow> transaction_manager" where
  "Checkpoint tm = tm"

text \<open>adbc.h: an option that does not fit its buffer leaves the buffer as it was, here zeroed.\<close>

definition untouched_when_small :: "'w adbc \<Rightarrow> string \<Rightarrow> string \<Rightarrow> bool" where
  "untouched_when_small adbc key v \<longleftrightarrow>
     (\<forall>h n w. n < Suc (length v) \<longrightarrow> rp_value (fst (adbc (ConnectionGetOption h key n) w)) = [])"

lemma StartTransaction_pool:
  assumes inv: "pool_inv adbc live L0 ls p w"
    and s: "StartTransaction adbc t tm p w = (r, tm', p', w')"
  shows "pool_inv adbc live L0 ls p' w'"
proof -
  let ?body = "\<lambda>l w1. case adbc (ConnectionGetOption (connection (conn l)) ''adbc.connection.autocommit''
      MAX_OPTION_LEN) w1 of (r, w2) \<Rightarrow> (Inr r :: exn + reply, w2)"
  have contract: "handle_contract adbc live" using inv by (simp add: pool_inv_def)
  obtain r1 p1 w1 where l: "with_lease (GetConnection adbc) (AdbcPooledConnection_destroy adbc) ?body p w
      = (r1, p1, w1)" by (metis prod_cases3)
  have "live w3 = live w2" if "?body l w2 = (x, w3)" for l w2 x w3
    using other_call_live [OF contract, of "ConnectionGetOption (connection (conn l))
        ''adbc.connection.autocommit'' MAX_OPTION_LEN" w2] that by (auto split: prod.splits)
  then have "pool_inv adbc live L0 ls p1 w1" by (intro ownership.with_lease_inv [OF inv l])
  then show ?thesis
    using s l by (auto simp: StartTransaction_def split: sum.splits if_splits)
qed

section \<open>ATTACH\<close>

fun attach_delimiter ::
  "(string \<Rightarrow> string) \<Rightarrow> (string \<times> string) list \<Rightarrow> string \<Rightarrow> exn + string"
where
  "attach_delimiter to_lower [] delimiter = Inr delimiter"
| "attach_delimiter to_lower ((option, value) # options) delimiter =
     (if to_lower option \<noteq> ''delimiter'' then
        Inl (BinderException (''Unrecognized option for ADBC attach: '' @ option))
      else if length value \<noteq> 2 then
        Inl (InvalidInputException (''Invalid value '' @ [CHR 0x22] @ value @ [CHR 0x22] @
          '' for DELIMITER. It must be exactly two characters.''))
      else attach_delimiter to_lower options value)"

definition AdbcAttach ::
  "(string \<Rightarrow> string) \<Rightarrow> bool \<Rightarrow> idx_t \<Rightarrow> 'w adbc \<Rightarrow> string \<Rightarrow> (string \<times> string) list \<Rightarrow>
   ('w, catalog \<times> pool) io"
where
  "AdbcAttach to_lower external_access pool_size adbc path options w =
     (if \<not> external_access then
        (Inl (PermissionException ''Attaching via ADBC is turned off through configuration.''), w)
      else
        (case attach_delimiter to_lower options [CHR 0x22, CHR 0x22] of
           Inl e \<Rightarrow> (Inl e, w)
         | Inr delimiter \<Rightarrow> AdbcCatalog_new adbc path delimiter pool_size w))"

section \<open>Settings\<close>

definition default_settings :: settings where
  "default_settings =
     \<lparr>mix_reads_writes = False, materialize_insert_rows = False, insert_buffer_size = 1000\<rparr>"

definition default_pool_size :: int where
  "default_pool_size = 50"

definition check_insert_buffer_size :: "int \<Rightarrow> exn + unit" where
  "check_insert_buffer_size v =
     (if v \<le> 0 then Inl (InvalidInputException ''adbc_insert_buffer_size must be greater than zero!'')
      else Inr ())"

definition check_connection_pool_size :: "int \<Rightarrow> exn + unit" where
  "check_connection_pool_size v =
     (if v \<le> 0 then Inl (InvalidInputException ''adbc_connection_pool_size must be greater than zero!'')
      else Inr ())"

section \<open>The execute function\<close>

record execute_data =
  exec_connection :: adbc_connection
  exec_statement :: hnd
  exec_finished :: bool

text \<open>If the statement cannot be made the connection is destroyed with the object.\<close>

definition AdbcExecuteFunctionData_new :: "'w adbc \<Rightarrow> string \<Rightarrow> string \<Rightarrow> ('w, execute_data) io" where
  "AdbcExecuteFunctionData_new adbc uri query w =
     (case AdbcConnection_new adbc uri w of
        (Inl e, w1) \<Rightarrow> (Inl e, w1)
      | (Inr c, w1) \<Rightarrow>
          (case MakeStatement adbc c query w1 of
             (Inl e, w2) \<Rightarrow> (Inl e, AdbcConnection_destroy adbc c w2)
           | (Inr s, w2) \<Rightarrow>
               (Inr \<lparr>exec_connection = c, exec_statement = s, exec_finished = False\<rparr>, w2)))"

definition AdbcExecuteBindFunction :: "'w adbc \<Rightarrow> string list \<Rightarrow> ('w, execute_data \<times> string list) io" where
  "AdbcExecuteBindFunction adbc inputs w =
     (case inputs of
        [uri, query] \<Rightarrow>
          (case AdbcExecuteFunctionData_new adbc uri query w of
             (Inl e, w1) \<Rightarrow> (Inl e, w1)
           | (Inr d, w1) \<Rightarrow> (Inr (d, [''Success'']), w1))
      | _ \<Rightarrow>
          (Inl (BinderException (''adbc_execute(...) requires two parameters: (1) the '' @
             ''adbc URI (2) the SQL query string'')), w))"

text \<open>One call fills one chunk: the column of the rows it outputs.\<close>

definition AdbcExecuteFunction ::
  "'w adbc \<Rightarrow> execute_data \<Rightarrow> 'w \<Rightarrow> (exn + bool list) \<times> execute_data \<times> 'w"
where
  "AdbcExecuteFunction adbc d w =
     (if exec_finished d then (Inr [], d, w)
      else
        (case adbc (StatementExecuteQuery (exec_statement d) False) w of
           (r, w1) \<Rightarrow>
             (case CHECK_ADBC IOException r of
                Inl e \<Rightarrow> (Inl e, d\<lparr>exec_statement := rp_handle r\<rparr>, w1)
              | Inr _ \<Rightarrow>
                  (Inr [True], d\<lparr>exec_statement := rp_handle r, exec_finished := True\<rparr>, w1))))"

definition AdbcExecuteFunctionData_destroy :: "'w adbc \<Rightarrow> execute_data \<Rightarrow> 'w \<Rightarrow> 'w" where
  "AdbcExecuteFunctionData_destroy adbc d w =
     AdbcConnection_destroy adbc (exec_connection d) (release_statement adbc (exec_statement d) w)"

text \<open>DuckDB calls a table function until it outputs nothing; \<open>n\<close> bounds the calls.\<close>

fun pull_execute :: "'w adbc \<Rightarrow> nat \<Rightarrow> execute_data \<Rightarrow> 'w \<Rightarrow> (exn + bool list) option \<times> execute_data \<times> 'w" where
  "pull_execute adbc 0 d w = (None, d, w)"
| "pull_execute adbc (Suc n) d w =
     (case AdbcExecuteFunction adbc d w of
        (Inl e, d1, w1) \<Rightarrow> (Some (Inl e), d1, w1)
      | (Inr [], d1, w1) \<Rightarrow> (Some (Inr []), d1, w1)
      | (Inr rows, d1, w1) \<Rightarrow>
          (case pull_execute adbc n d1 w1 of
             (Some (Inr rest), d2, w2) \<Rightarrow> (Some (Inr (rows @ rest)), d2, w2)
           | r \<Rightarrow> r))"

section \<open>The cache-clearing function\<close>

text \<open>The databases DuckDB has, by the type of their catalog; null pointers are skipped.\<close>

datatype attached_catalog = AdbcAttached catalog | OtherAttached

definition clear_attached :: "attached_catalog option \<Rightarrow> attached_catalog option" where
  "clear_attached db =
     (case db of Some (AdbcAttached cat) \<Rightarrow> Some (AdbcAttached (ClearCache cat)) | _ \<Rightarrow> db)"

definition AdbcClearCacheBindFunction :: "string list \<Rightarrow> exn + string list" where
  "AdbcClearCacheBindFunction inputs =
     (if inputs \<noteq> [] then Inl (BinderException ''adbc_clear_cache() requires zero parameters'')
      else Inr [''Success''])"

definition AdbcClearCacheFunction ::
  "bool \<Rightarrow> attached_catalog option list \<Rightarrow> bool list \<times> bool \<times> attached_catalog option list"
where
  "AdbcClearCacheFunction finished dbs =
     (if finished then ([], finished, dbs) else ([True], True, map clear_attached dbs))"

section \<open>A driver with an option\<close>

definition option_api :: "string \<Rightarrow> script adbc" where
  "option_api v c s =
     (case c of
        ConnectionGetOption h key n \<Rightarrow>
          (ok_reply\<lparr>rp_length := Suc (length v), rp_value := (if Suc (length v) \<le> n then v else [])\<rparr>, s)
      | _ \<Rightarrow> scripted c s)"

lemma option_api_contract: "handle_contract (option_api v) (set \<circ> allocated)"
  unfolding handle_contract_def
proof (intro allI)
  fix c w
  show "case option_api v c w of (r, w') \<Rightarrow>
      (case call_handle c of
         None \<Rightarrow> (set \<circ> allocated) w' = (set \<circ> allocated) w
       | Some (k, h) \<Rightarrow> tag k h \<subseteq> (set \<circ> allocated) w \<longrightarrow>
           (set \<circ> allocated) w' = ((set \<circ> allocated) w - tag k h) \<union> tag k (rp_handle r) \<and>
           tag k (rp_handle r) \<inter> ((set \<circ> allocated) w - tag k h) = {} \<and>
           (is_release c \<longrightarrow> rp_handle r = None))"
    using scripted_contract [unfolded handle_contract_def, THEN spec [of _ c], THEN spec [of _ w]]
    by (cases "\<exists>h key n. c = ConnectionGetOption h key n") (auto simp: option_api_def split: adbc_call.splits)
qed

lemma option_api_options:
  "option_contract (option_api v) key v" "untouched_when_small (option_api v) key v"
  by (simp_all add: option_contract_def untouched_when_small_def option_api_def ok_reply_def)

section \<open>Properties\<close>



text \<open>
  ATTACH takes one option and checks it first.  A catalog is made only if external access is on
  and every option is a delimiter of two characters, with the last one or two double quotes as its
  delimiter, so that both characters the identifiers are quoted with exist; and an ATTACH refused
  for its options or by the configuration makes no call of the API.
\<close>

theorem attach_checks_options:
  "case AdbcAttach to_lower external_access pool_size adbc path options w of
     (Inr (cat, p), w') \<Rightarrow>
       external_access \<and> (\<forall>(k, v) \<in> set options. to_lower k = ''delimiter'' \<and> length v = 2) \<and>
       cat_delimiter cat = last ([CHR 0x22, CHR 0x22] # map snd options) \<and> length (cat_delimiter cat) = 2
   | (Inl e, w') \<Rightarrow>
       external_access \<and> (\<forall>(k, v) \<in> set options. to_lower k = ''delimiter'' \<and> length v = 2) \<or> w' = w"
proof -
  have ok: "case attach_delimiter to_lower opts d of
        Inr d' \<Rightarrow> (\<forall>(k, v) \<in> set opts. to_lower k = ''delimiter'' \<and> length v = 2) \<and>
          d' = last (d # map snd opts) \<and> length d' = 2
      | Inl e \<Rightarrow> \<not> (\<forall>(k, v) \<in> set opts. to_lower k = ''delimiter'' \<and> length v = 2)"
    if "length d = 2" for opts d
    using that
  proof (induction opts arbitrary: d)
    case (Cons x opts)
    obtain k v where x: "x = (k, v)" by (cases x)
    show ?case
    proof (cases "to_lower k = ''delimiter'' \<and> length v = 2")
      case True
      with Cons.IH [of v] x show ?thesis by (auto split: sum.splits)
    next
      case False
      with x show ?thesis by auto
    qed
  qed simp
  have dq: "length [CHR 0x22, CHR 0x22] = 2" by simp
  show ?thesis
  proof (cases "attach_delimiter to_lower options [CHR 0x22, CHR 0x22]")
    case (Inl e)
    then show ?thesis by (simp add: AdbcAttach_def)
  next
    case (Inr d)
    note k = ok [OF dq, of options, unfolded Inr sum.case]
    have "cat_delimiter cat = d" if "AdbcCatalog_new adbc path d pool_size w = (Inr (cat, p), w')" for cat p w'
      using that by (auto simp: AdbcCatalog_new_def split: prod.splits sum.splits)
    with k Inr show ?thesis
      by (auto simp: AdbcAttach_def split: prod.splits sum.splits)
  qed
qed

theorem attach_checks_options_witness:
  "snd (AdbcAttach lower True 2 scripted ''uri'' [(''DELIMITER'', ''[]''), (''x'', ''ab'')] example_world)
   = example_world"
proof -
  have "lower ''x'' \<noteq> ''delimiter''" by code_simp
  then show ?thesis
    using attach_checks_options [where to_lower = lower and external_access = True and pool_size = 2
        and adbc = scripted and path = "''uri''" and w = example_world
        and options = "[(''DELIMITER'', ''[]''), (''x'', ''ab'')]"]
    by (auto split: prod.splits sum.splits)
qed

text \<open>
  C36: \<open>adbc_execute\<close> runs its statement once and leaks nothing.  Pulled until it is empty, it ends
  within two calls; it executes the statement exactly once, answering one row of true if that
  succeeds and the error otherwise, and when its data is destroyed every handle is released, also
  when binding throws.
\<close>

theorem execute_once_no_leak:
  assumes "handle_contract adbc live" and "AdbcExecuteBindFunction adbc [uri, query] w = (r, w1)"
  shows "case r of
      Inl _ \<Rightarrow> live w1 = live w
    | Inr (d, names) \<Rightarrow>
        (case pull_execute adbc (Suc (Suc n)) d w1 of
           (res, d2, w2) \<Rightarrow>
             w2 = snd (adbc (StatementExecuteQuery (exec_statement d) False) w1) \<and>
             (res = Some (Inr [True]) \<or> (\<exists>m. res = Some (Inl (IOException m)))) \<and>
             live (AdbcExecuteFunctionData_destroy adbc d2 w2) = live w)"
proof -
  obtain r1 v1 where c: "AdbcConnection_new adbc uri w = (r1, v1)" by fastforce
  note live1 = AdbcConnection_new_live [OF assms(1) c]
  show ?thesis
  proof (cases r1)
    case (Inl e)
    with live1 c assms(2) show ?thesis
      by (auto simp: AdbcExecuteBindFunction_def AdbcExecuteFunctionData_new_def)
  next
    case conn: (Inr con)
    obtain r2 v2 where m: "MakeStatement adbc con query v1 = (r2, v2)" by fastforce
    note live2 = MakeStatement_live [OF assms(1) m]
    have own: "live v1 = live w \<union> owned con" "owned con \<inter> live w = {}" using live1 conn by simp_all
    show ?thesis
    proof (cases r2)
      case (Inl e)
      have "live (AdbcConnection_destroy adbc con v2) = live v2 - owned con"
        by (rule AdbcConnection_destroy_live [OF assms(1)]) (use live2 Inl own in auto)
      with live2 Inl own c conn m assms(2) show ?thesis
        by (auto simp: AdbcExecuteBindFunction_def AdbcExecuteFunctionData_new_def)
    next
      case stmt: (Inr s)
      define d where "d = \<lparr>exec_connection = con, exec_statement = s, exec_finished = False\<rparr>"
      have r: "r = Inr (d, [''Success''])" "w1 = v2"
        using c conn m stmt assms(2)
        by (simp_all add: AdbcExecuteBindFunction_def AdbcExecuteFunctionData_new_def d_def)
      have live: "live w1 = live w \<union> owned con \<union> tag Stmt s" "tag Stmt s \<inter> (live w \<union> owned con) = {}"
        using live2 stmt own r by auto
      obtain rep w2 where x: "adbc (StatementExecuteQuery s False) w1 = (rep, w2)" by fastforce
      have held: "tag Stmt s \<subseteq> live w1" using live by blast
      have live': "live w2 = (live w1 - tag Stmt s) \<union> tag Stmt (rp_handle rep)"
          "tag Stmt (rp_handle rep) \<inter> (live w1 - tag Stmt s) = {}"
        using handle_contractD [OF assms(1) x _ held] by simp_all
      have base: "live w1 - tag Stmt s = live w \<union> owned con" using live by blast
      have "live (release_statement adbc (rp_handle rep) w2) = live w2 - tag Stmt (rp_handle rep)"
        by (rule release_live(3) [OF assms(1)]) (use live' in blast)
      then have rel: "live (release_statement adbc (rp_handle rep) w2) = live w \<union> owned con"
        using live' base by auto
      have "live (AdbcConnection_destroy adbc con (release_statement adbc (rp_handle rep) w2))
          = live (release_statement adbc (rp_handle rep) w2) - owned con"
        by (rule AdbcConnection_destroy_live [OF assms(1)]) (use rel in blast)
      with rel own have done_live:
        "live (AdbcConnection_destroy adbc con (release_statement adbc (rp_handle rep) w2)) = live w" by blast
      have e: "exec_statement d = s" "exec_finished d = False" "exec_connection d = con"
        by (simp_all add: d_def)
      show ?thesis
        using x e done_live
        by (auto simp: r AdbcExecuteFunction_def AdbcExecuteFunctionData_destroy_def CHECK_ADBC_def
            split: prod.splits)
    qed
  qed
qed

theorem execute_once_no_leak_witness:
  "\<exists>d w1 d2 w2. AdbcExecuteBindFunction scripted [''uri'', ''DROP TABLE t'']
       \<lparr>allocated = [], replies = [], calls = []\<rparr> = (Inr (d, [''Success'']), w1) \<and>
     pull_execute scripted 2 d w1 = (Some (Inr [True]), d2, w2) \<and>
     length (allocated w2) = 3 \<and> allocated (AdbcExecuteFunctionData_destroy scripted d2 w2) = []"
proof -
  let ?w = "\<lparr>allocated = [], replies = [], calls = []\<rparr>"
  obtain d w1 where b: "AdbcExecuteBindFunction scripted [''uri'', ''DROP TABLE t''] ?w = (Inr (d, [''Success'']), w1)"
    and w1: "length (allocated w1) = 3" "replies w1 = []"
    and d: "exec_finished d = False" "exec_statement d = Some 4"
    by (simp add: AdbcExecuteBindFunction_def AdbcExecuteFunctionData_new_def MakeStatement_def script_defs)
  obtain d2 w2 where x: "pull_execute scripted 2 d w1 = (Some (Inr [True]), d2, w2)"
    and "length (allocated w2) = 3"
    using w1 d by (simp add: numeral_2_eq_2 AdbcExecuteFunction_def CHECK_ADBC_def scripted_def ok_reply_def)
  have "allocated (AdbcExecuteFunctionData_destroy scripted d2 w2) = []"
    using execute_once_no_leak [OF scripted_contract b, of 0] x
    by (auto simp: numeral_2_eq_2 simp del: pull_execute.simps)
  with b x \<open>length (allocated w2) = 3\<close> show ?thesis by blast
qed

end
