(* ===== verification/Driver_Options.thy ===== *)
theory Driver_Options
  imports Adbc_Prelude "HOL-Library.AList"
begin

text \<open>
  The driver manager's handling of options: its error slots, the parsing of path lists and driver
  URIs, and the options and profiles of a database before it is initialised
  (src/adbc-vendor/adbc\_driver\_manager.cpp and adbc\_driver\_manager\_profiles.cpp, as compiled for
  Linux).
\<close>

section \<open>Errors\<close>

text \<open>
  An \<open>AdbcError\<close>: its message, and whether it has a release callback.  The functions take the slot a
  caller's error points to; on a null pointer they do nothing, which is the same as giving them a
  slot and dropping it.
\<close>

record adbc_error =
  err_message :: "string option"
  err_release :: bool

definition no_error :: adbc_error where
  "no_error = \<lparr>err_message = None, err_release = False\<rparr>"

definition ReleaseError :: "adbc_error \<Rightarrow> adbc_error" where
  "ReleaseError e = no_error"

definition SetError :: "adbc_error \<Rightarrow> string \<Rightarrow> adbc_error" where
  "SetError e msg = \<lparr>err_message = Some (''[Driver Manager] '' @ msg), err_release = True\<rparr>"

definition AppendError :: "adbc_error \<Rightarrow> string \<Rightarrow> adbc_error" where
  "AppendError e msg =
     (case err_message e of
        Some m \<Rightarrow>
          if err_release e
          then \<lparr>err_message = Some (m @ [CHR 0x0A] @ msg), err_release = True\<rparr>
          else SetError e msg
      | None \<Rightarrow> SetError e msg)"

text \<open>The overload that copies an error and releases the source.\<close>

definition SetError_from :: "adbc_error \<Rightarrow> adbc_error \<Rightarrow> adbc_error \<times> adbc_error" where
  "SetError_from e src =
     (\<lparr>err_message = err_message src, err_release = True\<rparr>,
      if err_release src then ReleaseError src else src)"

section \<open>Path lists\<close>

text \<open>The loop over \<open>find(delimiter, start)\<close>, on what is left of the list.\<close>

function split_loop :: "char \<Rightarrow> string \<Rightarrow> string list" where
  "split_loop d rest =
     (if d \<notin> set rest then [rest]
      else takeWhile (\<lambda>c. c \<noteq> d) rest # split_loop d (drop 1 (dropWhile (\<lambda>c. c \<noteq> d) rest)))"
  by pat_completeness auto

termination
proof (relation "measure (length \<circ> snd)")
  fix d :: char and rest :: string
  assume "\<not> d \<notin> set rest"
  then have "dropWhile (\<lambda>c. c \<noteq> d) rest \<noteq> []" by (auto simp: dropWhile_eq_Nil_conv)
  moreover have "length (dropWhile (\<lambda>c. c \<noteq> d) rest) \<le> length rest" by (rule length_dropWhile_le)
  ultimately show "((d, drop 1 (dropWhile (\<lambda>c. c \<noteq> d) rest)), d, rest) \<in> measure (length \<circ> snd)"
    by (cases "dropWhile (\<lambda>c. c \<noteq> d) rest") auto
qed simp

declare split_loop.simps [simp del]

definition InternalAdbcParsePath :: "string \<Rightarrow> string list" where
  "InternalAdbcParsePath path =
     (if path = [] then [] else filter (\<lambda>p. p \<noteq> []) (split_loop CHR '':'' path))"

section \<open>Driver URIs\<close>

record driver_uri =
  du_driver :: string
  du_uri :: "string option"
  du_profile :: "string option"

definition InternalAdbcParseDriverUri :: "string \<Rightarrow> driver_uri option" where
  "InternalAdbcParseDriverUri str =
     (if CHR '':'' \<notin> set str then None
      else
        let d = takeWhile (\<lambda>c. c \<noteq> CHR '':'') str; pos = length d in
        Some
          (if length str \<le> pos + 1 then \<lparr>du_driver = d, du_uri = None, du_profile = None\<rparr>
           else if str ! (pos + 1) = CHR ''/'' then
             (if d = ''profile'' \<and> length str > pos + 2
              then \<lparr>du_driver = [], du_uri = None, du_profile = Some (drop (pos + 3) str)\<rparr>
              else \<lparr>du_driver = d, du_uri = Some str, du_profile = None\<rparr>)
           else \<lparr>du_driver = d, du_uri = Some (drop (pos + 1) str), du_profile = None\<rparr>))"

section \<open>Values with environment variables\<close>

text \<open>
  The pattern of two opening braces, blanks, text without braces taken lazily, blanks and two closing
  braces: what it matches, as the text before the first match, its group and the text after it.
\<close>

definition is_space :: "char \<Rightarrow> bool" where
  "is_space c \<longleftrightarrow> c \<in> {CHR 0x09, CHR 0x0A, CHR 0x0B, CHR 0x0C, CHR 0x0D, CHR 0x20}"

definition is_brace :: "char \<Rightarrow> bool" where
  "is_brace c \<longleftrightarrow> c = CHR 0x7B \<or> c = CHR 0x7D"

definition trim :: "string \<Rightarrow> string" where
  "trim s = rev (dropWhile is_space (rev (dropWhile is_space s)))"

definition match_at :: "string \<Rightarrow> (string \<times> string) option" where
  "match_at s =
     (if take 2 s = [CHR 0x7B, CHR 0x7B] then
        let inner = takeWhile (\<lambda>c. \<not> is_brace c) (drop 2 s);
            rest = dropWhile (\<lambda>c. \<not> is_brace c) (drop 2 s)
        in if take 2 rest = [CHR 0x7D, CHR 0x7D] then Some (trim inner, drop 2 rest) else None
      else None)"

fun first_match :: "string \<Rightarrow> (string \<times> string \<times> string) option" where
  "first_match [] = None"
| "first_match (c # s) =
     (case match_at (c # s) of
        Some (content, rest) \<Rightarrow> Some ([], content, rest)
      | None \<Rightarrow> map_option (\<lambda>(before, content, rest). (c # before, content, rest)) (first_match s))"

lemma match_at_shorter: "match_at s = Some (g, rest) \<Longrightarrow> length rest < length s"
proof -
  assume m: "match_at s = Some (g, rest)"
  let ?r = "dropWhile (\<lambda>c. \<not> is_brace c) (drop 2 s)"
  have r: "rest = drop 2 ?r" and t: "take 2 s = [CHR 0x7B, CHR 0x7B]"
    using m by (auto simp: match_at_def Let_def split: if_splits)
  have "length ?r \<le> length (drop 2 s)" by (rule length_dropWhile_le)
  moreover have "length s > 0" using t by auto
  ultimately show ?thesis using r arg_cong [OF t, of length] by simp
qed

lemma first_match_shorter: "first_match s = Some (b, g, rest) \<Longrightarrow> length rest < length s"
  by (induction s arbitrary: b) (fastforce split: option.splits dest: match_at_shorter)+

text \<open>What one match is replaced with.\<close>

definition starts_with :: "string \<Rightarrow> string \<Rightarrow> bool" where
  "starts_with p s \<longleftrightarrow> take (length p) s = p"

definition interpolate :: "(string \<Rightarrow> string option) \<Rightarrow> string \<Rightarrow> string \<Rightarrow> string + string" where
  "interpolate getenv key content =
     (if \<not> starts_with ''env_var('' content then
        Inl (''In profile: unsupported interpolation type in key `'' @ key @ ''`: `'' @ content @ ''`'')
      else if last content \<noteq> CHR '')'' then
        Inl (''In profile: malformed env_var() in key `'' @ key @ ''`: missing closing parenthesis'')
      else
        let name = take (length content - 9) (drop 8 content) in
        if name = [] then
          Inl (''In profile: malformed env_var() in key `'' @ key @ ''`: missing environment variable name'')
        else Inr (case getenv name of None \<Rightarrow> [] | Some v \<Rightarrow> v))"

text \<open>The loop over the matches.\<close>

function expand :: "(string \<Rightarrow> string option) \<Rightarrow> string \<Rightarrow> string \<Rightarrow> string + string" where
  "expand getenv key s =
     (case first_match s of
        None \<Rightarrow> Inr s
      | Some (before, content, rest) \<Rightarrow>
          (case interpolate getenv key content of
             Inl msg \<Rightarrow> Inl msg
           | Inr v \<Rightarrow>
               (case expand getenv key rest of
                  Inl msg \<Rightarrow> Inl msg
                | Inr tail \<Rightarrow> Inr (before @ v @ tail))))"
  by pat_completeness auto

termination
  by (relation "measure (\<lambda>(_, _, s). length s)") (auto dest: first_match_shorter)

declare expand.simps [simp del]

definition ProcessProfileValue ::
  "(string \<Rightarrow> string option) \<Rightarrow> string \<Rightarrow> string \<Rightarrow> adbc_error \<Rightarrow> status \<times> string \<times> adbc_error"
where
  "ProcessProfileValue getenv key v error =
     (if v = [] then (ADBC_STATUS_OK, [], error)
      else
        (case expand getenv key v of
           Inl msg \<Rightarrow> (ADBC_STATUS_INVALID_ARGUMENT, [], SetError error msg)
         | Inr out \<Rightarrow> (ADBC_STATUS_OK, out, error)))"

section \<open>Profile files\<close>

text \<open>What the TOML library parses; a table's entries in the order it iterates over them.\<close>

datatype toml =
    TomlString string
  | TomlInteger int
  | TomlFloat double
  | TomlBoolean bool
  | TomlTable "(string \<times> toml) list"
  | TomlOther

type_synonym toml_table = "(string \<times> toml) list"

record fs_profile =
  fsp_path :: string
  fsp_driver :: string
  fsp_options :: "(string \<times> string) list"
  fsp_int_options :: "(string \<times> int) list"
  fsp_double_options :: "(string \<times> double) list"

definition empty_profile :: fs_profile where
  "empty_profile = \<lparr>fsp_path = [], fsp_driver = [], fsp_options = [], fsp_int_options = [],
     fsp_double_options = []\<rparr>"

text \<open>The result is false on an unsupported value, and when the error slot has a message at the end.\<close>

fun VisitTable ::
  "string \<Rightarrow> string \<Rightarrow> toml_table \<Rightarrow> fs_profile \<Rightarrow> adbc_error \<Rightarrow> bool \<times> fs_profile \<times> adbc_error"
where
  "VisitTable path pre [] p e = (err_message e = None, p, e)"
| "VisitTable path pre ((key, TomlString v) # t) p e =
     VisitTable path pre t (p\<lparr>fsp_options := AList.update (pre @ key) v (fsp_options p)\<rparr>) e"
| "VisitTable path pre ((key, TomlInteger v) # t) p e =
     VisitTable path pre t (p\<lparr>fsp_int_options := AList.update (pre @ key) v (fsp_int_options p)\<rparr>) e"
| "VisitTable path pre ((key, TomlFloat v) # t) p e =
     VisitTable path pre t
       (p\<lparr>fsp_double_options := AList.update (pre @ key) v (fsp_double_options p)\<rparr>) e"
| "VisitTable path pre ((key, TomlBoolean v) # t) p e =
     VisitTable path pre t
       (p\<lparr>fsp_options := AList.update (pre @ key) (if v then ''true'' else ''false'') (fsp_options p)\<rparr>) e"
| "VisitTable path pre ((key, TomlTable sub) # t) p e =
     (case VisitTable path (pre @ key @ ''.'') sub p e of
        (ok, p1, e1) \<Rightarrow> if \<not> ok then (False, p1, e1) else VisitTable path pre t p1 e1)"
| "VisitTable path pre ((key, TomlOther) # t) p e =
     (False, p,
      SetError e (''Unsupported value type for key '' @ [CHR 0x27] @ key @ [CHR 0x27] @
        '' in profile '' @ [CHR 0x27] @ path @ [CHR 0x27]))"

definition string_or :: "string \<Rightarrow> toml option \<Rightarrow> string" where
  "string_or d v = (case v of Some (TomlString s) \<Rightarrow> s | _ \<Rightarrow> d)"

text \<open>\<open>parse_file\<close> is the TOML parser on a path: the text of its error, or the table.\<close>

definition LoadProfileFile ::
  "(string \<Rightarrow> string + toml_table) \<Rightarrow> string \<Rightarrow> adbc_error \<Rightarrow> status \<times> fs_profile \<times> adbc_error"
where
  "LoadProfileFile parse_file path e =
     (case parse_file path of
        Inl what \<Rightarrow>
          (ADBC_STATUS_INVALID_ARGUMENT, empty_profile,
           SetError e (''Could not open profile. '' @ what @ ''. Profile: '' @ path))
      | Inr config \<Rightarrow>
          (case map_of config ''profile_version'' of
             Some (TomlInteger version) \<Rightarrow>
               if version \<noteq> 1 then
                 (ADBC_STATUS_INVALID_ARGUMENT, empty_profile\<lparr>fsp_path := path\<rparr>,
                  SetError e (''Profile version '' @ [CHR 0x27] @ int_to_string version @ [CHR 0x27] @
                    '' is not supported by this driver manager. Profile: '' @ path))
               else
                 (let p = empty_profile\<lparr>fsp_path := path,
                            fsp_driver := string_or [] (map_of config ''driver'')\<rparr>
                  in case map_of config ''Options'' of
                       Some (TomlTable t) \<Rightarrow>
                         (case VisitTable path [] t p e of
                            (ok, p1, e1) \<Rightarrow>
                              (if ok then ADBC_STATUS_OK else ADBC_STATUS_INVALID_ARGUMENT, p1, e1))
                     | _ \<Rightarrow>
                         (ADBC_STATUS_INVALID_ARGUMENT, p,
                          SetError e (''Profile options is not a table in profile '' @ [CHR 0x27] @
                            path @ [CHR 0x27])))
           | _ \<Rightarrow>
               (ADBC_STATUS_INVALID_ARGUMENT, empty_profile\<lparr>fsp_path := path\<rparr>,
                SetError e (''Profile version is not an integer in profile '' @ [CHR 0x27] @
                  path @ [CHR 0x27]))))"

section \<open>Search paths\<close>

datatype search_source =
    Env | User | Registry | System | Additional | Conda | Unset | DoesNotExist
  | DisabledAtCompileTime | DisabledAtRunTime | OtherError

datatype search_type = Manifest | Profile

type_synonym search_paths = "(search_source \<times> string) list"

fun source_prefix :: "search_type \<Rightarrow> search_source \<Rightarrow> string" where
  "source_prefix Manifest Env = ''ADBC_DRIVER_PATH: ''"
| "source_prefix Profile Env = ''ADBC_PROFILE_PATH: ''"
| "source_prefix _ User = ''user config dir: ''"
| "source_prefix _ Registry = ''Registry: ''"
| "source_prefix _ System = ''system config dir: ''"
| "source_prefix _ Additional = ''additional search path: ''"
| "source_prefix _ Conda = ''Conda prefix: ''"
| "source_prefix _ Unset = ''not set: ''"
| "source_prefix _ DoesNotExist = ''does not exist: ''"
| "source_prefix _ DisabledAtCompileTime = ''not enabled at build time: ''"
| "source_prefix _ DisabledAtRunTime = ''not enabled at run time: ''"
| "source_prefix _ OtherError = []"

definition AddSearchPathsToError :: "search_paths \<Rightarrow> search_type \<Rightarrow> string \<Rightarrow> string" where
  "AddSearchPathsToError paths type msg =
     (if paths = [] then msg
      else msg @ [CHR 0x0A] @ ''Also searched these paths for'' @
        (case type of Manifest \<Rightarrow> '' manifests:'' | Profile \<Rightarrow> '' profiles:'') @
        concat (map (\<lambda>(source, path). [CHR 0x0A, CHR 0x09] @ source_prefix type source @ path) paths))"

text \<open>The sources that name no directory to look into.\<close>

definition skipped_source :: "search_source \<Rightarrow> bool" where
  "skipped_source source \<longleftrightarrow>
     source \<in> {Registry, Unset, DoesNotExist, DisabledAtCompileTime, DisabledAtRunTime, OtherError}"

definition GetEnvPaths :: "(string \<Rightarrow> string option) \<Rightarrow> string \<Rightarrow> search_paths" where
  "GetEnvPaths getenv var =
     (case getenv var of None \<Rightarrow> [] | Some path \<Rightarrow> map (Pair Env) (InternalAdbcParsePath path))"

text \<open>\<open>std::filesystem::path\<close> on POSIX names: joining, the last component and its extension.\<close>

definition path_join :: "string \<Rightarrow> string \<Rightarrow> string" where
  "path_join a b =
     (if starts_with ''/'' b then b
      else if a = [] \<or> last a = CHR ''/'' then a @ b
      else a @ ''/'' @ b)"

definition path_is_absolute :: "string \<Rightarrow> bool" where
  "path_is_absolute p = starts_with ''/'' p"

definition path_filename :: "string \<Rightarrow> string" where
  "path_filename p = rev (takeWhile (\<lambda>c. c \<noteq> CHR ''/'') (rev p))"

text \<open>The suffix from the last period of the last component, unless that begins the component.\<close>

definition path_extension :: "string \<Rightarrow> string" where
  "path_extension p =
     (let f = path_filename p; suffix = rev (takeWhile (\<lambda>c. c \<noteq> CHR ''.'') (rev f)) in
      if f = ''.'' \<or> f = ''..'' \<or> CHR ''.'' \<notin> set f \<or> length suffix + 1 = length f then []
      else CHR ''.'' # suffix)"

definition path_stem :: "string \<Rightarrow> string" where
  "path_stem p =
     take (length (path_filename p) - length (path_extension p)) (path_filename p)"

definition replace_extension :: "string \<Rightarrow> string \<Rightarrow> string" where
  "replace_extension p ext = take (length p - length (path_extension p)) p @ ext"

definition HasExtension :: "string \<Rightarrow> string \<Rightarrow> bool" where
  "HasExtension p ext \<longleftrightarrow> path_extension p = ext"

definition InternalAdbcUserConfigDir :: "(string \<Rightarrow> string option) \<Rightarrow> string" where
  "InternalAdbcUserConfigDir getenv =
     (let dir = (case getenv ''XDG_CONFIG_HOME'' of
                   None \<Rightarrow> (case getenv ''HOME'' of None \<Rightarrow> [] | Some home \<Rightarrow> path_join home ''.config'')
                 | Some d \<Rightarrow> d)
      in if dir = [] then [] else path_join dir ''adbc'')"

definition InternalAdbcSystemConfigDir :: string where
  "InternalAdbcSystemConfigDir = ''/etc/adbc/drivers''"

definition GetProfileSearchPaths :: "(string \<Rightarrow> string option) \<Rightarrow> string option \<Rightarrow> search_paths" where
  "GetProfileSearchPaths getenv additional =
     (case additional of None \<Rightarrow> [] | Some paths \<Rightarrow> map (Pair Additional) (InternalAdbcParsePath paths)) @
     GetEnvPaths getenv ''ADBC_PROFILE_PATH'' @
     [(DisabledAtCompileTime, ''Conda prefix''),
      (User, path_join (InternalAdbcUserConfigDir getenv) ''profiles'')]"

section \<open>The profile provider on the file system\<close>

text \<open>The environment the driver manager reads.\<close>

record fs_env =
  getenv :: "string \<Rightarrow> string option"
  file_exists :: "string \<Rightarrow> bool"
  parse_file :: "string \<Rightarrow> string + toml_table"

text \<open>
  A connection profile is what its four callbacks return: a status, their outputs and the error slot.
  An init function is named by a number.
\<close>

record connection_profile =
  GetDriverName :: "adbc_error \<Rightarrow> status \<times> string option \<times> nat option \<times> adbc_error"
  GetOptions :: "adbc_error \<Rightarrow> status \<times> (string \<times> string) list \<times> adbc_error"
  GetIntOptions :: "adbc_error \<Rightarrow> status \<times> (string \<times> int) list \<times> adbc_error"
  GetDoubleOptions :: "adbc_error \<Rightarrow> status \<times> (string \<times> double) list \<times> adbc_error"

type_synonym profile_provider =
  "string \<Rightarrow> string \<Rightarrow> adbc_error \<Rightarrow> status \<times> connection_profile option \<times> adbc_error"

definition PopulateConnectionProfile :: "fs_profile \<Rightarrow> connection_profile" where
  "PopulateConnectionProfile p =
     \<lparr>GetDriverName = (\<lambda>e. (ADBC_STATUS_OK, Some (fsp_driver p), None, e)),
      GetOptions = (\<lambda>e. (ADBC_STATUS_OK, fsp_options p, e)),
      GetIntOptions = (\<lambda>e. (ADBC_STATUS_OK, fsp_int_options p, e)),
      GetDoubleOptions = (\<lambda>e. (ADBC_STATUS_OK, fsp_double_options p, e))\<rparr>"

definition provide_file ::
  "fs_env \<Rightarrow> string \<Rightarrow> adbc_error \<Rightarrow> status \<times> connection_profile option \<times> adbc_error"
where
  "provide_file env path e =
     (case LoadProfileFile (parse_file env) path e of
        (st, p, e1) \<Rightarrow>
          (st, if st = ADBC_STATUS_OK then Some (PopulateConnectionProfile p) else None, e1))"

text \<open>
  The loop over the search paths; \<open>all\<close> are the paths it will report, \<open>extra\<close> what it found on the
  way.  The driver manager's prefix of 17 characters is cut off a message that is passed on.
\<close>

fun search_profiles ::
  "fs_env \<Rightarrow> string \<Rightarrow> search_paths \<Rightarrow> search_paths \<Rightarrow> search_paths \<Rightarrow> adbc_error \<Rightarrow>
   status \<times> connection_profile option \<times> adbc_error"
where
  "search_profiles env name all extra [] e =
     (ADBC_STATUS_NOT_FOUND, None,
      SetError e (AddSearchPathsToError (all @ extra) Profile (''Profile not found: '' @ name)))"
| "search_profiles env name all extra ((source, dir) # paths) e =
     (let full_path = replace_extension (path_join dir name) ''.toml'' in
      if skipped_source source \<or> \<not> file_exists env full_path then
        search_profiles env name all extra paths e
      else
        (case LoadProfileFile (parse_file env) full_path no_error of
           (st, p, e1) \<Rightarrow>
             if st = ADBC_STATUS_OK then (st, Some (PopulateConnectionProfile p), e)
             else if st = ADBC_STATUS_INVALID_ARGUMENT then
               (st, None,
                (case err_message e1 of
                   None \<Rightarrow> e
                 | Some m \<Rightarrow> SetError e (AddSearchPathsToError (all @ extra) Profile (drop 17 m))))
             else
               search_profiles env name all
                 (extra @ [(OtherError, ''found '' @ full_path @ '' but: '' @
                    (case err_message e1 of
                       Some m \<Rightarrow> drop 17 m
                     | None \<Rightarrow> ''could not load the profile''))]) paths e))"

definition AdbcProfileProviderFilesystem :: "fs_env \<Rightarrow> profile_provider" where
  "AdbcProfileProviderFilesystem env name additional e =
     (if name = [] then (ADBC_STATUS_INVALID_ARGUMENT, None, SetError e ''Profile name is empty'')
      else if path_extension name \<noteq> [] \<and> HasExtension name ''.toml'' then
        (if \<not> file_exists env name then
           (ADBC_STATUS_NOT_FOUND, None, SetError e (''Profile file does not exist: '' @ name))
         else provide_file env name e)
      else if path_is_absolute name then provide_file env (replace_extension name ''.toml'') e
      else
        (let paths = GetProfileSearchPaths (getenv env) (Some additional)
         in search_profiles env name paths [] paths e))"

section \<open>A database before it is initialised\<close>

definition ADBC_LOAD_FLAG_SEARCH_ENV :: "32 word" where "ADBC_LOAD_FLAG_SEARCH_ENV = 1"
definition ADBC_LOAD_FLAG_SEARCH_USER :: "32 word" where "ADBC_LOAD_FLAG_SEARCH_USER = 2"
definition ADBC_LOAD_FLAG_SEARCH_SYSTEM :: "32 word" where "ADBC_LOAD_FLAG_SEARCH_SYSTEM = 4"
definition ADBC_LOAD_FLAG_ALLOW_RELATIVE_PATHS :: "32 word" where "ADBC_LOAD_FLAG_ALLOW_RELATIVE_PATHS = 8"

record temp_database =
  td_options :: "(string \<times> string) list"
  td_bytes_options :: "(string \<times> string) list"
  td_int_options :: "(string \<times> int) list"
  td_double_options :: "(string \<times> double) list"
  td_driver :: string
  td_entrypoint :: string
  td_init_func :: "nat option"
  td_load_flags :: "32 word"
  td_manifest_paths :: string
  td_profile_paths :: string
  td_provider :: "profile_provider option"

definition TempDatabase_new :: temp_database where
  "TempDatabase_new =
     \<lparr>td_options = [], td_bytes_options = [], td_int_options = [], td_double_options = [],
      td_driver = [], td_entrypoint = [], td_init_func = None,
      td_load_flags = ADBC_LOAD_FLAG_ALLOW_RELATIVE_PATHS,
      td_manifest_paths = [], td_profile_paths = [], td_provider = None\<rparr>"

definition try_emplace :: "string \<Rightarrow> 'v \<Rightarrow> (string \<times> 'v) list \<Rightarrow> (string \<times> 'v) list" where
  "try_emplace k v m = (if k \<in> fst ` set m then m else m @ [(k, v)])"

text \<open>The loop over a profile's string options; an error leaves those already added.\<close>

fun add_profile_options ::
  "(string \<Rightarrow> string option) \<Rightarrow> (string \<times> string) list \<Rightarrow> (string \<times> string) list \<Rightarrow> adbc_error \<Rightarrow>
   status \<times> (string \<times> string) list \<times> adbc_error"
where
  "add_profile_options genv [] m e = (ADBC_STATUS_OK, m, e)"
| "add_profile_options genv ((k, v) # opts) m e =
     (case ProcessProfileValue genv k v e of
        (st, processed, e1) \<Rightarrow>
          if st \<noteq> ADBC_STATUS_OK then (st, m, e1)
          else add_profile_options genv opts (try_emplace k processed m) e1)"

text \<open>
  A provider that returns OK must have set the profile; the code would call through null callbacks
  otherwise, and the model returns \<open>INTERNAL\<close>.
\<close>

definition InternalInitializeProfile ::
  "fs_env \<Rightarrow> temp_database \<Rightarrow> string \<Rightarrow> adbc_error \<Rightarrow> status \<times> temp_database \<times> adbc_error"
where
  "InternalInitializeProfile env args0 profile e =
     (let provider = (case td_provider args0 of
                        None \<Rightarrow> AdbcProfileProviderFilesystem env | Some pr \<Rightarrow> pr);
          args = args0\<lparr>td_provider := Some provider\<rparr>
      in case provider profile (td_profile_paths args) e of
        (st, None, e1) \<Rightarrow>
          (if st = ADBC_STATUS_OK then ADBC_STATUS_INTERNAL else st, args, e1)
      | (st, Some pr, e1) \<Rightarrow>
          if st \<noteq> ADBC_STATUS_OK then (st, args, e1)
          else
            (case GetDriverName pr e1 of
               (st, driver_name, init, e2) \<Rightarrow>
                 if st \<noteq> ADBC_STATUS_OK then (st, args, e2)
                 else
                   let name = (case driver_name of None \<Rightarrow> [] | Some n \<Rightarrow> n) in
                   if name \<noteq> [] \<and> td_driver args \<noteq> [] \<and> td_driver args \<noteq> name then
                     (ADBC_STATUS_INVALID_ARGUMENT, args,
                      SetError e2 (''Profile `'' @ profile @ ''` specifies driver `'' @ name @
                        ''` which does not match requested driver `'' @ td_driver args @ ''`''))
                   else
                     let args1 = args\<lparr>td_driver := (if name \<noteq> [] then name else td_driver args),
                                      td_init_func := (case init of None \<Rightarrow> td_init_func args | _ \<Rightarrow> init)\<rparr>
                     in case GetOptions pr e2 of
                          (st, opts, e3) \<Rightarrow>
                            if st \<noteq> ADBC_STATUS_OK then (st, args1, e3)
                            else
                              (case add_profile_options (getenv env) opts (td_options args1) e3 of
                                 (st, m, e4) \<Rightarrow>
                                   let args2 = args1\<lparr>td_options := m\<rparr> in
                                   if st \<noteq> ADBC_STATUS_OK then (st, args2, e4)
                                   else
                                     (case GetIntOptions pr e4 of
                                        (st, ints, e5) \<Rightarrow>
                                          if st \<noteq> ADBC_STATUS_OK then (st, args2, e5)
                                          else
                                            let args3 = args2\<lparr>td_int_options :=
                                                  fold (\<lambda>(k, v). try_emplace k v) ints (td_int_options args2)\<rparr>
                                            in case GetDoubleOptions pr e5 of
                                                 (st, doubles, e6) \<Rightarrow>
                                                   if st \<noteq> ADBC_STATUS_OK then (st, args3, e6)
                                                   else
                                                     (ADBC_STATUS_OK,
                                                      args3\<lparr>td_double_options :=
                                                        fold (\<lambda>(k, v). try_emplace k v) doubles
                                                          (td_double_options args3)\<rparr>, e6)))))"

text \<open>The choice of the profile, which consumes the option, URI or driver that names it.\<close>

definition has_profile :: "driver_uri option \<Rightarrow> bool" where
  "has_profile d \<longleftrightarrow> (case d of None \<Rightarrow> False | Some u \<Rightarrow> du_profile u \<noteq> None)"

definition choose_profile ::
  "temp_database \<Rightarrow> adbc_error \<Rightarrow> (status \<times> adbc_error) + string \<times> temp_database"
where
  "choose_profile db e =
     (let parsed_driver = (if td_driver db \<noteq> [] then InternalAdbcParseDriverUri (td_driver db) else None);
          parsed_uri = (case map_of (td_options db) ''uri'' of
                          None \<Rightarrow> None | Some u \<Rightarrow> InternalAdbcParseDriverUri u);
          have_profile = (map_of (td_options db) ''profile'' \<noteq> None);
          have_profile_driver = has_profile parsed_driver;
          have_profile_uri = has_profile parsed_uri
      in if of_bool have_profile + of_bool have_profile_uri + of_bool have_profile_driver > (1 :: int) then
           Inl (ADBC_STATUS_INVALID_ARGUMENT,
             SetError e (''Multiple profiles specified; only one of `profile` option, `profile://` '' @
               ''URI, or `profile://` driver is allowed''))
         else if have_profile then
           Inr (the (map_of (td_options db) ''profile''),
                db\<lparr>td_options := AList.delete ''profile'' (td_options db)\<rparr>)
         else if have_profile_uri then
           Inr (the (du_profile (the parsed_uri)), db\<lparr>td_options := AList.delete ''uri'' (td_options db)\<rparr>)
         else if have_profile_driver then
           Inr (the (du_profile (the parsed_driver)), db\<lparr>td_driver := []\<rparr>)
         else Inr ([], db))"

definition recursive_profile :: string where
  "recursive_profile = ''Profile cannot specify a profile:// URI''"

text \<open>
  What follows the profile: the driver option as a URI, then the \<open>uri\<close> option if there is no driver
  yet, then the check that there is a driver.
\<close>

definition split_driver :: "temp_database \<Rightarrow> adbc_error \<Rightarrow> (status \<times> adbc_error) + temp_database" where
  "split_driver db e =
     (case InternalAdbcParseDriverUri (td_driver db) of
        None \<Rightarrow> Inr db
      | Some parsed \<Rightarrow>
          if du_profile parsed \<noteq> None then
            Inl (ADBC_STATUS_INVALID_ARGUMENT, SetError e recursive_profile)
          else
            (case du_uri parsed of
               None \<Rightarrow> Inr db
             | Some u \<Rightarrow>
                 Inr (db\<lparr>td_driver := du_driver parsed,
                         td_options := AList.update ''uri'' u (td_options db)\<rparr>)))"

definition split_uri :: "temp_database \<Rightarrow> adbc_error \<Rightarrow> (status \<times> adbc_error) + temp_database" where
  "split_uri db e =
     (if td_driver db \<noteq> [] then Inr db
      else
        (case map_of (td_options db) ''uri'' of
           None \<Rightarrow> Inr db
         | Some owned_uri \<Rightarrow>
             (case InternalAdbcParseDriverUri owned_uri of
                None \<Rightarrow> Inr (db\<lparr>td_driver := owned_uri\<rparr>)
              | Some parsed \<Rightarrow>
                  if du_profile parsed \<noteq> None then
                    Inl (ADBC_STATUS_INVALID_ARGUMENT, SetError e recursive_profile)
                  else
                    (case du_uri parsed of
                       None \<Rightarrow> Inr db
                     | Some u \<Rightarrow>
                         Inr (db\<lparr>td_driver := du_driver parsed,
                                 td_options := AList.update ''uri'' u (td_options db)\<rparr>)))))"

definition resolve_driver :: "temp_database \<Rightarrow> adbc_error \<Rightarrow> status \<times> temp_database \<times> adbc_error" where
  "resolve_driver db e =
     (case split_driver db e of
        Inl (st, e1) \<Rightarrow> (st, db, e1)
      | Inr db1 \<Rightarrow>
          (case split_uri db1 e of
             Inl (st, e1) \<Rightarrow> (st, db1, e1)
           | Inr db2 \<Rightarrow>
               if td_driver db2 = [] then
                 (ADBC_STATUS_INVALID_ARGUMENT, db2,
                  SetError e (''Must set '' @ [CHR 0x27] @ ''driver'' @ [CHR 0x27] @
                    '' option before AdbcDatabaseInit''))
               else (ADBC_STATUS_OK, db2, e)))"

definition InternalAdbcParseOptions ::
  "fs_env \<Rightarrow> temp_database \<Rightarrow> adbc_error \<Rightarrow> status \<times> temp_database \<times> adbc_error"
where
  "InternalAdbcParseOptions env db e =
     (if td_init_func db \<noteq> None then (ADBC_STATUS_OK, db, e)
      else
        (case choose_profile db e of
           Inl (st, e1) \<Rightarrow> (st, db, e1)
         | Inr (profile, db1) \<Rightarrow>
             (case (if profile \<noteq> [] then InternalInitializeProfile env db1 profile e
                    else (ADBC_STATUS_OK, db1, e)) of
                (st, db2, e2) \<Rightarrow>
                  if st \<noteq> ADBC_STATUS_OK then (st, db2, e2) else resolve_driver db2 e2)))"

end
