(* ===== verification/Options_Properties.thy ===== *)
theory Options_Properties
  imports Driver_Options
begin

text \<open>
  What the driver manager's option handling guarantees: path lists, driver URIs and profile values
  read back what was written into them, and the resolution of a database's options yields a driver
  without overriding an option the caller has set.
\<close>

section \<open>Path lists\<close>

text \<open>The fields of a list with a delimiter between them.\<close>

fun join_fields :: "char \<Rightarrow> string list \<Rightarrow> string" where
  "join_fields d [] = []"
| "join_fields d [f] = f"
| "join_fields d (f # g # fs) = f @ d # join_fields d (g # fs)"

lemma split_loop_last: "d \<notin> set s \<Longrightarrow> split_loop d s = [s]"
  by (subst split_loop.simps) simp

lemma split_loop_field: "d \<notin> set f \<Longrightarrow> split_loop d (f @ d # s) = f # split_loop d s"
proof -
  assume f: "d \<notin> set f"
  have P: "\<forall>c \<in> set f. c \<noteq> d" using f by auto
  have "takeWhile (\<lambda>c. c \<noteq> d) (f @ d # s) = f" "dropWhile (\<lambda>c. c \<noteq> d) (f @ d # s) = d # s"
    using P by (simp_all add: takeWhile_append2 dropWhile_append2)
  then show ?thesis by (subst split_loop.simps) simp
qed

lemma split_loop_join:
  assumes "fs \<noteq> []" and "\<forall>f \<in> set fs. d \<notin> set f"
  shows "split_loop d (join_fields d fs) = fs"
  using assms by (induction d fs rule: join_fields.induct) (simp_all add: split_loop_last split_loop_field)

text \<open>
  A path list is read back as it was written: joining any paths free of colons with colons and
  parsing the result gives the non-empty ones among them, in order.
\<close>
theorem path_list_roundtrip:
  assumes "\<forall>p \<in> set ps. CHR '':'' \<notin> set p"
  shows "InternalAdbcParsePath (join_fields CHR '':'' ps) = filter (\<lambda>p. p \<noteq> []) ps"
proof (cases "join_fields CHR '':'' ps = []")
  case True
  then have "ps = [] \<or> ps = [[]]" by (cases "(CHR '':'', ps)" rule: join_fields.cases) auto
  then show ?thesis using True by (auto simp: InternalAdbcParsePath_def)
next
  case False
  then have "ps \<noteq> []" by auto
  then show ?thesis using False split_loop_join [OF _ assms] by (simp add: InternalAdbcParsePath_def)
qed

theorem path_list_roundtrip_witness:
  "InternalAdbcParsePath (join_fields CHR '':'' [''/opt'', [], ''/usr/lib'']) = [''/opt'', ''/usr/lib'']"
  by (subst path_list_roundtrip) simp_all

section \<open>Driver URIs\<close>

text \<open>
  The shapes of a driver string: \<open>name:rest\<close> gives the driver and the rest as its URI,
  \<open>name:/rest\<close> gives the driver and keeps the whole string as the URI, \<open>profile://p\<close> names the
  profile \<open>p\<close>; with only one slash after \<open>profile:\<close> the first character of the profile's name is
  lost.
\<close>
theorem driver_uri_shapes:
  assumes "CHR '':'' \<notin> set d"
  shows "(u \<noteq> [] \<and> hd u \<noteq> CHR ''/'' \<longrightarrow>
      InternalAdbcParseDriverUri (d @ CHR '':'' # u) =
        Some \<lparr>du_driver = d, du_uri = Some u, du_profile = None\<rparr>) \<and>
    (d \<noteq> ''profile'' \<longrightarrow>
      InternalAdbcParseDriverUri (d @ '':/'' @ u) =
        Some \<lparr>du_driver = d, du_uri = Some (d @ '':/'' @ u), du_profile = None\<rparr>) \<and>
    InternalAdbcParseDriverUri (''profile://'' @ p) =
      Some \<lparr>du_driver = [], du_uri = None, du_profile = Some p\<rparr> \<and>
    InternalAdbcParseDriverUri (''profile:/'' @ c # p) =
      Some \<lparr>du_driver = [], du_uri = None, du_profile = Some p\<rparr> \<and>
    InternalAdbcParseDriverUri d = None"
proof (intro conjI impI)
  have P: "\<forall>c \<in> set d. c \<noteq> CHR '':''" using assms by auto
  have t: "takeWhile (\<lambda>c. c \<noteq> CHR '':'') (d @ CHR '':'' # s) = d" for s
    using P by (simp add: takeWhile_append2)
  show "u \<noteq> [] \<and> hd u \<noteq> CHR ''/'' \<Longrightarrow>
      InternalAdbcParseDriverUri (d @ CHR '':'' # u) =
        Some \<lparr>du_driver = d, du_uri = Some u, du_profile = None\<rparr>"
    by (cases u) (simp_all add: InternalAdbcParseDriverUri_def t Let_def nth_append)
  show "d \<noteq> ''profile'' \<Longrightarrow>
      InternalAdbcParseDriverUri (d @ '':/'' @ u) =
        Some \<lparr>du_driver = d, du_uri = Some (d @ '':/'' @ u), du_profile = None\<rparr>"
    by (simp add: InternalAdbcParseDriverUri_def t Let_def nth_append)
  show "InternalAdbcParseDriverUri (''profile://'' @ p) =
      Some \<lparr>du_driver = [], du_uri = None, du_profile = Some p\<rparr>"
    by (simp add: InternalAdbcParseDriverUri_def)
  show "InternalAdbcParseDriverUri (''profile:/'' @ c # p) =
      Some \<lparr>du_driver = [], du_uri = None, du_profile = Some p\<rparr>"
    by (simp add: InternalAdbcParseDriverUri_def)
  show "InternalAdbcParseDriverUri d = None"
    using assms by (simp add: InternalAdbcParseDriverUri_def)
qed

theorem driver_uri_shapes_witness:
  "InternalAdbcParseDriverUri ''sqlite:my.db'' =
     Some \<lparr>du_driver = ''sqlite'', du_uri = Some ''my.db'', du_profile = None\<rparr> \<and>
   InternalAdbcParseDriverUri ''profile:/mydb'' =
     Some \<lparr>du_driver = [], du_uri = None, du_profile = Some ''ydb''\<rparr>"
  using driver_uri_shapes [of "''sqlite''" "''my.db''" "''ydb''" "CHR ''m''"] by simp

section \<open>Profile values\<close>

text \<open>A value as text and references to environment variables, with blanks inside the braces.\<close>

datatype piece = Text string | EnvVar string string string

fun render :: "piece \<Rightarrow> string" where
  "render (Text s) = s"
| "render (EnvVar l n r) =
     [CHR 0x7B, CHR 0x7B] @ l @ ''env_var('' @ n @ '')'' @ r @ [CHR 0x7D, CHR 0x7D]"

fun well_formed :: "piece \<Rightarrow> bool" where
  "well_formed (Text s) = (\<forall>c \<in> set s. \<not> is_brace c)"
| "well_formed (EnvVar l n r) =
     (n \<noteq> [] \<and> (\<forall>c \<in> set n. \<not> is_brace c) \<and> (\<forall>c \<in> set (l @ r). is_space c))"

fun meaning :: "(string \<Rightarrow> string option) \<Rightarrow> piece \<Rightarrow> string" where
  "meaning genv (Text s) = s"
| "meaning genv (EnvVar l n r) = (case genv n of None \<Rightarrow> [] | Some v \<Rightarrow> v)"

lemma match_at_text: "\<not> is_brace c \<Longrightarrow> match_at (c # s) = None"
  by (auto simp: match_at_def is_brace_def)

lemma first_match_text:
  "\<forall>c \<in> set l. \<not> is_brace c \<Longrightarrow>
   first_match (l @ s) = map_option (\<lambda>(b, c, r). (l @ b, c, r)) (first_match s)"
proof (induction l)
  case Nil
  then show ?case by (cases "first_match s") auto
next
  case (Cons a l)
  then show ?case by (cases "first_match s") (auto simp: match_at_text)
qed

lemma expand_text:
  assumes "\<forall>c \<in> set l. \<not> is_brace c"
  shows "expand genv key (l @ s) = (case expand genv key s of Inl m \<Rightarrow> Inl m | Inr t \<Rightarrow> Inr (l @ t))"
  using first_match_text [OF assms, of s]
  by (subst (1 2) expand.simps) (auto split: option.splits sum.splits)

lemma space_not_brace: "is_space c \<Longrightarrow> \<not> is_brace c"
  by (auto simp: is_space_def is_brace_def)

lemma trim_blanks:
  assumes "\<forall>c \<in> set (l @ r). is_space c" and "s \<noteq> []" and "\<not> is_space (hd s)" and "\<not> is_space (last s)"
  shows "trim (l @ s @ r) = s"
proof -
  have "dropWhile is_space (l @ s @ r) = s @ r"
    using assms by (cases s) (auto simp: dropWhile_append2)
  moreover have "dropWhile is_space (rev (s @ r)) = rev s"
  proof (cases s rule: rev_cases)
    case (snoc ys y)
    have "dropWhile is_space (rev r @ rev s) = dropWhile is_space (rev s)"
      by (rule dropWhile_append2) (use assms(1) in auto)
    then show ?thesis using assms(4) snoc by simp
  qed (use assms in simp)
  ultimately show ?thesis by (simp add: trim_def)
qed

lemma match_at_template:
  assumes "\<forall>c \<in> set (l @ r). is_space c" and "s \<noteq> []" and "\<not> is_space (hd s)" and "\<not> is_space (last s)"
    and "\<forall>c \<in> set s. \<not> is_brace c"
  shows "match_at ([CHR 0x7B, CHR 0x7B] @ l @ s @ r @ [CHR 0x7D, CHR 0x7D] @ rest) = Some (s, rest)"
proof -
  have nb: "\<forall>c \<in> set (l @ s @ r). \<not> is_brace c" using assms(1,5) space_not_brace by auto
  have b: "is_brace CHR 0x7D" by (simp add: is_brace_def)
  have "takeWhile (\<lambda>c. \<not> is_brace c) ((l @ s @ r) @ [CHR 0x7D, CHR 0x7D] @ rest) = l @ s @ r"
    "dropWhile (\<lambda>c. \<not> is_brace c) ((l @ s @ r) @ [CHR 0x7D, CHR 0x7D] @ rest) = [CHR 0x7D, CHR 0x7D] @ rest"
    using nb b by (subst takeWhile_append2 dropWhile_append2, simp, simp)+
  then show ?thesis using trim_blanks [OF assms(1-4)] by (simp add: match_at_def)
qed

lemma first_match_here: "match_at s = Some (c, rest) \<Longrightarrow> first_match s = Some ([], c, rest)"
  by (cases s) (simp_all add: match_at_def)

lemma interpolate_env_var:
  "n \<noteq> [] \<Longrightarrow> interpolate genv key (''env_var('' @ n @ '')'') =
     Inr (case genv n of None \<Rightarrow> [] | Some v \<Rightarrow> v)"
  by (simp add: interpolate_def starts_with_def Let_def)

lemma expand_env_var:
  assumes "well_formed (EnvVar l n r)"
  shows "expand genv key (render (EnvVar l n r) @ s) =
     (case expand genv key s of Inl m \<Rightarrow> Inl m | Inr t \<Rightarrow> Inr (meaning genv (EnvVar l n r) @ t))"
proof -
  let ?c = "''env_var('' @ n @ '')''"
  have "match_at ([CHR 0x7B, CHR 0x7B] @ l @ ?c @ r @ [CHR 0x7D, CHR 0x7D] @ s) = Some (?c, s)"
    by (rule match_at_template) (use assms in \<open>auto simp: is_space_def is_brace_def\<close>)
  then have "match_at (render (EnvVar l n r) @ s) = Some (?c, s)" by simp
  then have "first_match (render (EnvVar l n r) @ s) = Some ([], ?c, s)" by (rule first_match_here)
  moreover have "interpolate genv key ?c = Inr (meaning genv (EnvVar l n r))"
    using interpolate_env_var [of n genv key] assms by simp
  ultimately show ?thesis by (subst expand.simps) (simp only: option.case prod.case sum.case append_Nil)
qed

lemma expand_piece:
  "well_formed p \<Longrightarrow> expand genv key (render p @ s) =
     (case expand genv key s of Inl m \<Rightarrow> Inl m | Inr t \<Rightarrow> Inr (meaning genv p @ t))"
proof (cases p)
  case (Text t)
  then show "well_formed p \<Longrightarrow> ?thesis" by (simp add: expand_text split: sum.split)
next
  case (EnvVar l n r)
  then show "well_formed p \<Longrightarrow> ?thesis" by (simp only: expand_env_var)
qed

lemma expand_nil: "expand genv key [] = Inr []"
  by (subst expand.simps) simp

lemma expand_pieces:
  "\<forall>p \<in> set ps. well_formed p \<Longrightarrow>
   expand genv key (concat (map render ps)) = Inr (concat (map (meaning genv) ps))"
  by (induction ps) (simp_all add: expand_nil expand_piece)

text \<open>
  A profile value is expanded piece by piece: text stays as it is, a reference to an environment
  variable becomes the variable's value, or nothing if it is not set.  The values put in are not
  expanded again, whatever they contain.
\<close>
theorem profile_value_expands:
  assumes "\<forall>p \<in> set ps. well_formed p"
  shows "ProcessProfileValue genv key (concat (map render ps)) e =
           (ADBC_STATUS_OK, concat (map (meaning genv) ps), e)"
proof (cases "concat (map render ps) = []")
  case True
  then have "expand genv key (concat (map render ps)) = Inr []" by (simp only: expand_nil)
  then show ?thesis using True expand_pieces [OF assms, of genv key]
    by (simp only: ProcessProfileValue_def) simp
qed (simp only: ProcessProfileValue_def expand_pieces [OF assms], simp)

theorem profile_value_expands_witness:
  "ProcessProfileValue [''USER'' \<mapsto> [CHR 0x7B, CHR 0x7B] @ ''env_var(X)'' @ [CHR 0x7D, CHR 0x7D]] ''uri''
     (concat (map render [Text ''db-'', EnvVar '' '' ''USER'' '' '', EnvVar [] ''NONE'' []])) no_error =
   (ADBC_STATUS_OK, ''db-'' @ [CHR 0x7B, CHR 0x7B] @ ''env_var(X)'' @ [CHR 0x7D, CHR 0x7D], no_error)"
  by (subst profile_value_expands) (auto simp: is_brace_def is_space_def)

section \<open>Resolving the options of a database\<close>

text \<open>The options and settings that must come through the resolution as the caller gave them.\<close>

definition keeps :: "('k \<Rightarrow> bool) \<Rightarrow> ('k \<times> 'v) list \<Rightarrow> ('k \<times> 'v) list \<Rightarrow> bool" where
  "keeps P m m' \<longleftrightarrow> (\<forall>k v. P k \<and> map_of m k = Some v \<longrightarrow> map_of m' k = Some v)"

definition keeps_options :: "temp_database \<Rightarrow> temp_database \<Rightarrow> bool" where
  "keeps_options db db' \<longleftrightarrow>
     keeps (\<lambda>k. k \<noteq> ''profile'' \<and> k \<noteq> ''uri'') (td_options db) (td_options db') \<and>
     keeps (\<lambda>_. True) (td_int_options db) (td_int_options db') \<and>
     keeps (\<lambda>_. True) (td_double_options db) (td_double_options db') \<and>
     td_bytes_options db' = td_bytes_options db \<and> td_entrypoint db' = td_entrypoint db \<and>
     td_load_flags db' = td_load_flags db \<and> td_manifest_paths db' = td_manifest_paths db \<and>
     td_profile_paths db' = td_profile_paths db"

lemma keeps_refl [simp]: "keeps P m m"
  by (simp add: keeps_def)

lemma keeps_trans: "keeps P a b \<Longrightarrow> keeps P b c \<Longrightarrow> keeps P a c"
  by (simp add: keeps_def)

lemma keeps_options_refl [simp]: "keeps_options db db"
  by (simp add: keeps_options_def)

lemma keeps_options_trans: "keeps_options a b \<Longrightarrow> keeps_options b c \<Longrightarrow> keeps_options a c"
  unfolding keeps_options_def
  by (elim conjE, intro conjI; (erule (1) keeps_trans | simp))

lemma keeps_try_emplace: "keeps P m (try_emplace k v m)"
  by (simp add: keeps_def try_emplace_def)

lemma keeps_fold_try_emplace: "keeps P m (fold (\<lambda>(k, v). try_emplace k v) kvs m)"
  by (induction kvs arbitrary: m) (auto intro: keeps_trans [OF keeps_try_emplace])

lemma keeps_add_profile_options:
  "add_profile_options genv opts m e = (st, m', e') \<Longrightarrow> keeps P m m'"
proof (induction genv opts m e rule: add_profile_options.induct)
  case (2 genv k v opts m e)
  then show ?case
    by (auto split: prod.splits if_splits intro: keeps_trans [OF keeps_try_emplace])
qed simp

lemma keeps_update: "\<not> P k \<Longrightarrow> keeps P m (AList.update k v m)"
  by (simp add: keeps_def update_conv')

lemma keeps_delete: "\<not> P k \<Longrightarrow> keeps P m (AList.delete k m)"
  by (auto simp: keeps_def delete_conv')

lemma InternalInitializeProfile_keeps:
  assumes "InternalInitializeProfile env db profile e = (st, db', e')"
  shows "keeps_options db db' \<and> (td_driver db \<noteq> [] \<longrightarrow> td_driver db' = td_driver db)"
proof -
  have "case InternalInitializeProfile env db profile e of (st, db', e') \<Rightarrow>
      keeps_options db db' \<and> (td_driver db \<noteq> [] \<longrightarrow> td_driver db' = td_driver db)"
    unfolding InternalInitializeProfile_def Let_def
    by (simp add: keeps_options_def keeps_fold_try_emplace keeps_add_profile_options
         split: prod.split option.split)
  then show ?thesis using assms by simp
qed

text \<open>A driver named without a colon is neither a URI nor a profile.\<close>

abbreviation plain_driver :: "temp_database \<Rightarrow> bool" where
  "plain_driver db \<equiv> td_driver db \<noteq> [] \<and> CHR '':'' \<notin> set (td_driver db)"

lemma plain_driver_parse: "CHR '':'' \<notin> set d \<Longrightarrow> InternalAdbcParseDriverUri d = None"
  by (simp add: InternalAdbcParseDriverUri_def)

lemma choose_profile_keeps:
  "choose_profile db e = Inr (profile, db') \<Longrightarrow>
   keeps_options db db' \<and> (plain_driver db \<longrightarrow> td_driver db' = td_driver db)"
  by (auto simp: choose_profile_def Let_def keeps_options_def keeps_delete plain_driver_parse has_profile_def
      split: if_splits)

lemma split_driver_keeps:
  "split_driver db e = Inr db' \<Longrightarrow>
   keeps_options db db' \<and> (plain_driver db \<longrightarrow> td_driver db' = td_driver db)"
  by (auto simp: split_driver_def keeps_options_def keeps_update plain_driver_parse
      split: option.splits if_splits)

lemma split_uri_keeps:
  "split_uri db e = Inr db' \<Longrightarrow>
   keeps_options db db' \<and> (td_driver db \<noteq> [] \<longrightarrow> td_driver db' = td_driver db)"
  by (auto simp: split_uri_def keeps_options_def keeps_update split: option.splits if_splits)

lemma resolution_errors:
  "choose_profile db e = Inl (st, e') \<Longrightarrow> st \<noteq> ADBC_STATUS_OK"
  "split_driver db e = Inl (st, e') \<Longrightarrow> st \<noteq> ADBC_STATUS_OK"
  "split_uri db e = Inl (st, e') \<Longrightarrow> st \<noteq> ADBC_STATUS_OK"
  by (auto simp: choose_profile_def split_driver_def split_uri_def Let_def
      split: option.splits if_splits)

lemma resolve_driver_keeps:
  assumes "resolve_driver db e = (st, db', e')"
  shows "keeps_options db db' \<and>
    (st = ADBC_STATUS_OK \<longrightarrow> td_driver db' \<noteq> [] \<and> (plain_driver db \<longrightarrow> td_driver db' = td_driver db))"
proof (cases "split_driver db e")
  case (Inl a)
  then show ?thesis using assms resolution_errors(2) by (cases a) (auto simp: resolve_driver_def)
next
  case (Inr db1)
  note k1 = split_driver_keeps [OF Inr]
  show ?thesis
  proof (cases "split_uri db1 e")
    case (Inl a)
    then show ?thesis using assms Inr k1 resolution_errors(3) by (cases a) (auto simp: resolve_driver_def)
  next
    case uri: (Inr db2)
    have "keeps_options db db2 \<and> (plain_driver db \<longrightarrow> td_driver db2 = td_driver db)"
      using k1 split_uri_keeps [OF uri] keeps_options_trans [of db db1 db2] by auto
    then show ?thesis using assms Inr uri by (auto simp: resolve_driver_def split: if_splits)
  qed
qed


text \<open>A profile file that names a driver and gives a user and a URI with a variable.\<close>

definition example_env :: fs_env where
  "example_env =
     \<lparr>getenv = [''DB'' \<mapsto> ''prod''], file_exists = (\<lambda>p. p = ''/p.toml''),
      parse_file = (\<lambda>p. Inr
        [(''profile_version'', TomlInteger 1), (''driver'', TomlString ''sqlite''),
         (''Options'', TomlTable [(''user'', TomlString ''x''),
            (''uri'', TomlString ([CHR 0x7B, CHR 0x7B] @ ''env_var(DB)'' @ [CHR 0x7D, CHR 0x7D]))])])\<rparr>"

definition example_db :: temp_database where
  "example_db = TempDatabase_new\<lparr>td_options := [(''profile'', ''/p.toml''), (''user'', ''me'')]\<rparr>"

definition example_result :: "status \<times> temp_database \<times> adbc_error" where
  "example_result = InternalAdbcParseOptions example_env example_db no_error"


text \<open>
  A provider may give an init function instead of a driver's name.  The resolution takes the function
  over and then rejects the database for want of a driver.
\<close>

definition init_only_provider :: profile_provider where
  "init_only_provider = (\<lambda>name paths e. (ADBC_STATUS_OK, Some
     \<lparr>GetDriverName = (\<lambda>e. (ADBC_STATUS_OK, None, Some 7, e)), GetOptions = (\<lambda>e. (ADBC_STATUS_OK, [], e)),
      GetIntOptions = (\<lambda>e. (ADBC_STATUS_OK, [], e)), GetDoubleOptions = (\<lambda>e. (ADBC_STATUS_OK, [], e))\<rparr>, e))"

theorem init_func_of_profile_rejected:
  "case InternalAdbcParseOptions env
      (TempDatabase_new\<lparr>td_provider := Some init_only_provider, td_options := [(''profile'', ''p'')]\<rparr>) e
   of (st, db', e') \<Rightarrow> st = ADBC_STATUS_INVALID_ARGUMENT \<and> td_init_func db' = Some 7"
  by (simp add: InternalAdbcParseOptions_def InternalInitializeProfile_def choose_profile_def
      resolve_driver_def split_driver_def split_uri_def init_only_provider_def TempDatabase_new_def
      InternalAdbcParseDriverUri_def has_profile_def)

end
