(* ===== verification/Driver_Loading.thy ===== *)
theory Driver_Loading
  imports Driver_Options
begin

text \<open>
  How the driver manager finds and opens the shared library of a driver: manifests, search paths,
  \<open>dlopen\<close> and the default entrypoint (src/adbc-vendor/adbc\_driver\_manager\_driver\_loading.cpp, as
  compiled for Linux).
\<close>

section \<open>The loader and its environment\<close>

text \<open>
  What \<open>dlopen\<close> answers may depend on the names opened before; a library is a number, an error is the
  text of \<open>dlerror\<close>.  \<open>toml_int64\<close> is the TOML library's conversion of a value to an integer.
\<close>

record dl_env = fs_env +
  dlopen :: "string list \<Rightarrow> string \<Rightarrow> string + nat"
  dlsym :: "nat option \<Rightarrow> string \<Rightarrow> string + nat"
  current_arch :: string
  toml_int64 :: "toml \<Rightarrow> int option"

record driver_info =
  di_manifest_file :: string
  di_manifest_version :: int
  di_driver_name :: string
  di_lib_path :: string
  di_entrypoint :: string
  di_version :: string
  di_source :: string

definition DriverInfo_new :: driver_info where
  "DriverInfo_new = \<lparr>di_manifest_file = [], di_manifest_version = 0, di_driver_name = [],
     di_lib_path = [], di_entrypoint = [], di_version = [], di_source = []\<rparr>"

text \<open>
  The \<open>ManagedLibrary\<close>, the \<open>DriverInfo\<close> that is being filled, and the names given to \<open>dlopen\<close> so
  far.
\<close>

record loader =
  ml_handle :: "nat option"
  ml_info :: driver_info
  opened :: "string list"

type_synonym load_result = "status \<times> loader \<times> adbc_error"

definition set_lib_path :: "string \<Rightarrow> loader \<Rightarrow> loader" where
  "set_lib_path p l = l\<lparr>ml_info := (ml_info l)\<lparr>di_lib_path := p\<rparr>\<rparr>"

section \<open>Opening a library\<close>

fun contains :: "string \<Rightarrow> string \<Rightarrow> bool" where
  "contains p [] \<longleftrightarrow> p = []"
| "contains p (c # s) \<longleftrightarrow> starts_with p (c # s) \<or> contains p s"

definition non_printable :: "char \<Rightarrow> bool" where
  "non_printable c \<longleftrightarrow> (of_char c :: nat) < 32 \<or> 127 < (of_char c :: nat)"

definition hex_digit :: "nat \<Rightarrow> char" where
  "hex_digit n = ''0123456789abcdef'' ! n"

definition CheckNonPrintableLibraryName :: "string \<Rightarrow> string" where
  "CheckNonPrintableLibraryName name =
     (if \<not> list_ex non_printable name then []
      else ''Note: driver name may have non-printable characters: `'' @
        concat (map (\<lambda>c. if non_printable c
                         then [CHR 0x5C, CHR ''x'', hex_digit (of_char c div 16), hex_digit (of_char c mod 16)]
                         else [c]) name) @ ''`'')"

text \<open>The name \<open>dlopen\<close> is retried with.  The comparison looks into the name as it was given.\<close>

definition full_driver_name :: "string \<Rightarrow> string" where
  "full_driver_name library =
     (let full = (if length library < 3 \<or> take 3 library \<noteq> ''lib'' then ''lib'' else []) @ library
      in if length library < 3 \<or> take 3 (drop (length full - 3) library) \<noteq> ''.so'' then full @ ''.so''
         else full)"

definition Load :: "dl_env \<Rightarrow> string \<Rightarrow> search_paths \<Rightarrow> loader \<Rightarrow> adbc_error \<Rightarrow> load_result" where
  "Load env library attempted l e =
     (if contains ''quack'' (path_stem library) then
        (ADBC_STATUS_NOT_FOUND, l, SetError e ''Connecting to Quack is not supported with the ADBC extension'')
      else if contains ''duckdb'' (path_stem library) then
        (ADBC_STATUS_NOT_FOUND, l, SetError e ''Connecting to DuckDB is not supported with the ADBC extension'')
      else
        (let l1 = l\<lparr>opened := opened l @ [library]\<rparr> in
         case dlopen env (opened l) library of
           Inr h \<Rightarrow> (ADBC_STATUS_OK, l1\<lparr>ml_handle := Some h\<rparr>, e)
         | Inl err1 \<Rightarrow>
             (let full = full_driver_name library; l2 = l1\<lparr>opened := opened l1 @ [full]\<rparr> in
              case dlopen env (opened l1) full of
                Inr h \<Rightarrow> (ADBC_STATUS_OK, l2\<lparr>ml_handle := Some h\<rparr>, e)
              | Inl err2 \<Rightarrow>
                  (let note = CheckNonPrintableLibraryName library;
                       msg = ''Could not load `'' @ library @ ''`: dlopen() failed: '' @ err1 @
                         [CHR 0x0A] @ ''dlopen() failed: '' @ err2 @
                         (if note = [] then [] else [CHR 0x0A] @ note)
                   in (ADBC_STATUS_NOT_FOUND, l2,
                       SetError e (AddSearchPathsToError attempted Manifest msg))))))"

definition Lookup :: "dl_env \<Rightarrow> string \<Rightarrow> loader \<Rightarrow> adbc_error \<Rightarrow> status \<times> nat option \<times> adbc_error" where
  "Lookup env name l e =
     (case dlsym env (ml_handle l) name of
        Inl err \<Rightarrow> (ADBC_STATUS_INTERNAL, None, AppendError e (''dlsym('' @ name @ '') failed: '' @ err))
      | Inr f \<Rightarrow> (ADBC_STATUS_OK, Some f, e))"

section \<open>Manifests\<close>

definition at_driver :: "toml_table \<Rightarrow> string \<Rightarrow> toml option" where
  "at_driver config key =
     (case map_of config ''Driver'' of Some (TomlTable t) \<Rightarrow> map_of t key | _ \<Rightarrow> None)"

definition quoted :: "string \<Rightarrow> string" where
  "quoted s = [CHR 0x27] @ s @ [CHR 0x27]"

text \<open>The library a manifest names: for this platform, or for all of them.\<close>

definition manifest_library :: "dl_env \<Rightarrow> string \<Rightarrow> toml option \<Rightarrow> (status \<times> string) + string" where
  "manifest_library env path driver =
     (let arch = '' for current architecture '' @ quoted (current_arch env) in
      case driver of
        Some (TomlTable platforms) \<Rightarrow>
          (case map_of platforms (current_arch env) of
             None \<Rightarrow> Inl (ADBC_STATUS_NOT_FOUND,
               ''Driver path not found in manifest '' @ quoted path @ arch @ ''. Architectures found:'' @
               concat (map (\<lambda>(key, _). '' '' @ key) platforms))
           | Some (TomlString p) \<Rightarrow>
               if p = [] then Inl (ADBC_STATUS_INVALID_ARGUMENT,
                 ''Driver path is an empty string in manifest '' @ quoted path @ arch)
               else Inr p
           | Some _ \<Rightarrow> Inl (ADBC_STATUS_INVALID_ARGUMENT,
               ''Driver path not found in manifest '' @ quoted path @ arch @ ''. Value was not a string''))
      | Some (TomlString p) \<Rightarrow>
          if p = [] then Inl (ADBC_STATUS_INVALID_ARGUMENT,
            ''Driver path is an empty string in manifest '' @ quoted path)
          else Inr p
      | _ \<Rightarrow> Inl (ADBC_STATUS_INVALID_ARGUMENT,
          ''Driver path not defined in manifest '' @ quoted path @ ''. `Driver.shared` must be a string or table''))"

definition LoadDriverManifest ::
  "dl_env \<Rightarrow> string \<Rightarrow> driver_info \<Rightarrow> adbc_error \<Rightarrow> status \<times> driver_info \<times> adbc_error"
where
  "LoadDriverManifest env path info e =
     (case parse_file env path of
        Inl what \<Rightarrow>
          (ADBC_STATUS_INVALID_ARGUMENT, info,
           SetError e (''Could not open manifest. '' @ what @ ''. Manifest: '' @ path))
      | Inr config \<Rightarrow>
          (let version = (case Option.bind (map_of config ''manifest_version'') (toml_int64 env) of
                            None \<Rightarrow> 1 | Some v \<Rightarrow> v);
               info1 = info\<lparr>di_manifest_file := path, di_driver_name := string_or [] (map_of config ''name''),
                            di_manifest_version := version\<rparr>
           in if version \<noteq> 1 then
                (ADBC_STATUS_INVALID_ARGUMENT, info1,
                 SetError e (''Driver manifest version '' @ quoted (int_to_string version) @
                   '' is not supported by this driver manager.''))
              else
                (let entry = at_driver config ''entrypoint'';
                     info2 = info1\<lparr>di_entrypoint := string_or [] entry,
                                   di_version := string_or [] (map_of config ''version''),
                                   di_source := string_or [] (map_of config ''source'')\<rparr>
                 in if (case entry of None \<Rightarrow> False | Some (TomlString _) \<Rightarrow> False | _ \<Rightarrow> True) then
                      (ADBC_STATUS_INVALID_ARGUMENT, info2,
                       SetError e (''Driver entrypoint not a string in manifest '' @ quoted path))
                    else
                      (case manifest_library env path (at_driver config ''shared'') of
                         Inl (st, msg) \<Rightarrow>
                           (st,
                            (if at_driver config ''shared'' = Some (TomlString [])
                             then info2\<lparr>di_lib_path := []\<rparr> else info2),
                            SetError e msg)
                       | Inr p \<Rightarrow> (ADBC_STATUS_OK, info2\<lparr>di_lib_path := p\<rparr>, e)))))"

section \<open>Search paths\<close>

definition has_flag :: "32 word \<Rightarrow> 32 word \<Rightarrow> bool" where
  "has_flag flags f \<longleftrightarrow> and flags f \<noteq> 0"

definition user_drivers_dir :: "dl_env \<Rightarrow> string" where
  "user_drivers_dir env = path_join (InternalAdbcUserConfigDir (getenv env)) ''drivers''"

definition GetSearchPaths :: "dl_env \<Rightarrow> 32 word \<Rightarrow> search_paths" where
  "GetSearchPaths env levels =
     (if has_flag levels ADBC_LOAD_FLAG_SEARCH_ENV then GetEnvPaths (getenv env) ''ADBC_DRIVER_PATH'' else []) @
     (if has_flag levels ADBC_LOAD_FLAG_SEARCH_USER then
        [(if user_drivers_dir env \<noteq> [] \<and> file_exists env (user_drivers_dir env) then User else DoesNotExist,
          user_drivers_dir env)] else []) @
     (if has_flag levels ADBC_LOAD_FLAG_SEARCH_SYSTEM then
        [(if file_exists env InternalAdbcSystemConfigDir then System else DoesNotExist,
          InternalAdbcSystemConfigDir)] else [])"

text \<open>
  One directory of the loop of \<open>SearchPathsForDriver\<close>: its manifest, then its library, with either the
  result of the search, or what was found on the way so far.
\<close>

definition try_library ::
  "dl_env \<Rightarrow> string \<Rightarrow> search_paths \<Rightarrow> search_paths \<Rightarrow> loader \<Rightarrow> adbc_error \<Rightarrow>
   (status \<times> search_paths \<times> loader \<times> adbc_error) + (search_paths \<times> loader)"
where
  "try_library env library all extra l e =
     (case Load env library [] l no_error of
        (st, l1, _) \<Rightarrow>
          if st = ADBC_STATUS_OK then Inl (st, all, set_lib_path library l1, e) else Inr (extra, l1))"

definition search_step ::
  "dl_env \<Rightarrow> string \<Rightarrow> search_paths \<Rightarrow> search_paths \<Rightarrow> string \<Rightarrow> loader \<Rightarrow> adbc_error \<Rightarrow>
   (status \<times> search_paths \<times> loader \<times> adbc_error) + (search_paths \<times> loader)"
where
  "search_step env driver all extra dir l e =
     (let manifest = replace_extension (path_join dir driver) ''.toml'';
          library = replace_extension manifest [];
          found = (\<lambda>ie what. (OtherError, ''found '' @ manifest @
            (case err_message ie of Some m \<Rightarrow> '' but: '' @ m | None \<Rightarrow> what)))
      in if \<not> file_exists env manifest then try_library env library all extra l e
         else
           (case LoadDriverManifest env manifest (ml_info l) no_error of
              (st, info, ie) \<Rightarrow>
                let l1 = l\<lparr>ml_info := info\<rparr> in
                if st = ADBC_STATUS_OK then
                  (case Load env (di_lib_path info) [] l1 ie of
                     (st2, l2, ie2) \<Rightarrow>
                       if st2 = ADBC_STATUS_OK then Inl (st2, all, l2, e)
                       else Inl (st2, all @ extra @ [found ie2 '' could not load the driver it specified''], l2, e))
                else if st = ADBC_STATUS_INVALID_ARGUMENT then
                  Inl (st, all @ extra, l1,
                   (case err_message ie of
                      Some m \<Rightarrow> SetError e (AddSearchPathsToError (all @ extra) Manifest m)
                    | None \<Rightarrow> e))
                else
                  try_library env library all
                    (extra @ [found ie '' which did not define a driver for this platform'']) l1 e))"

text \<open>
  The loop: the paths it was given come first in the list it leaves, then what it found on the way.
\<close>

fun search_loop ::
  "dl_env \<Rightarrow> string \<Rightarrow> search_paths \<Rightarrow> search_paths \<Rightarrow> search_paths \<Rightarrow> loader \<Rightarrow> adbc_error \<Rightarrow>
   status \<times> search_paths \<times> loader \<times> adbc_error"
where
  "search_loop env driver all extra [] l e = (ADBC_STATUS_NOT_FOUND, all @ extra, l, e)"
| "search_loop env driver all extra ((source, dir) # paths) l e =
     (if skipped_source source then search_loop env driver all extra paths l e
      else
        (case search_step env driver all extra dir l e of
           Inl result \<Rightarrow> result
         | Inr (extra1, l1) \<Rightarrow> search_loop env driver all extra1 paths l1 e))"

definition SearchPathsForDriver ::
  "dl_env \<Rightarrow> string \<Rightarrow> search_paths \<Rightarrow> loader \<Rightarrow> adbc_error \<Rightarrow> status \<times> search_paths \<times> loader \<times> adbc_error"
where
  "SearchPathsForDriver env driver paths l e = search_loop env driver paths [] paths l e"

text \<open>The paths of the environment and the application, and those of the user and the system.\<close>

definition first_search_paths :: "dl_env \<Rightarrow> 32 word \<Rightarrow> string list \<Rightarrow> search_paths" where
  "first_search_paths env flags additional =
     (let env_on = has_flag flags ADBC_LOAD_FLAG_SEARCH_ENV;
          paths = GetSearchPaths env (and flags ADBC_LOAD_FLAG_SEARCH_ENV)
      in paths @
         (if \<not> env_on then [(DisabledAtRunTime, ''ADBC_DRIVER_PATH (enable ADBC_LOAD_FLAG_SEARCH_ENV)'')]
          else if paths = [] then [(Unset, ''ADBC_DRIVER_PATH'')] else []) @
         map (Pair Additional) additional @
         (if env_on then [(DisabledAtCompileTime, ''Conda prefix'')] else []))"

definition disabled_paths :: "dl_env \<Rightarrow> 32 word \<Rightarrow> search_paths" where
  "disabled_paths env flags =
     (if \<not> has_flag flags ADBC_LOAD_FLAG_SEARCH_USER then
        [(DisabledAtRunTime, ''user config dir '' @ user_drivers_dir env @ '' (enable ADBC_LOAD_FLAG_SEARCH_USER)'')]
      else []) @
     (if \<not> has_flag flags ADBC_LOAD_FLAG_SEARCH_SYSTEM then
        [(DisabledAtRunTime, ''system config dir '' @ InternalAdbcSystemConfigDir @
           '' (enable ADBC_LOAD_FLAG_SEARCH_SYSTEM)'')]
      else [])"

definition FindDriver ::
  "dl_env \<Rightarrow> string \<Rightarrow> 32 word \<Rightarrow> string list \<Rightarrow> loader \<Rightarrow> adbc_error \<Rightarrow> load_result"
where
  "FindDriver env driver flags additional l e =
     (if driver = [] then (ADBC_STATUS_INVALID_ARGUMENT, l, SetError e ''Driver path is empty'')
      else
        (case SearchPathsForDriver env driver (first_search_paths env flags additional) l e of
           (st, paths, l1, e1) \<Rightarrow>
             if st \<noteq> ADBC_STATUS_NOT_FOUND then (st, l1, e1)
             else
               (case SearchPathsForDriver env driver
                   (GetSearchPaths env (and flags (not ADBC_LOAD_FLAG_SEARCH_ENV))) l1 e1 of
                  (st2, paths2, l2, e2) \<Rightarrow>
                    if st2 = ADBC_STATUS_NOT_FOUND then
                      Load env driver (paths @ paths2 @ disabled_paths env flags) (set_lib_path driver l2) e2
                    else (st2, l2, e2))))"

text \<open>
  \<open>load_manifest\<close> is the manifest and then the library it names; the second test for an extension in
  the code is never reached with one.
\<close>

definition GetDriverInfo ::
  "dl_env \<Rightarrow> string \<Rightarrow> 32 word \<Rightarrow> string list \<Rightarrow> loader \<Rightarrow> adbc_error \<Rightarrow> load_result"
where
  "GetDriverInfo env name flags additional l e =
     (if name = [] then (ADBC_STATUS_INVALID_ARGUMENT, l, SetError e ''Driver name is empty'')
      else if path_extension name \<noteq> [] then
        (if \<not> path_is_absolute name \<and> \<not> has_flag flags ADBC_LOAD_FLAG_ALLOW_RELATIVE_PATHS then
           (ADBC_STATUS_INVALID_ARGUMENT, l,
            SetError e ''Driver path is relative and relative paths are not allowed'')
         else if HasExtension name ''.toml'' then
           (case LoadDriverManifest env name (ml_info l) e of
              (st, info, e1) \<Rightarrow>
                let l1 = l\<lparr>ml_info := info\<rparr> in
                if st = ADBC_STATUS_OK then Load env (di_lib_path info) [] l1 e1 else (st, l1, e1))
         else Load env name [] (set_lib_path name l) e)
      else if path_is_absolute name then
        (let manifest = replace_extension name ''.toml'';
             library = replace_extension manifest [];
             (st, info, e1) =
               (if file_exists env manifest then LoadDriverManifest env manifest (ml_info l) e
                else (ADBC_STATUS_NOT_FOUND, ml_info l, e));
             l1 = l\<lparr>ml_info := info\<rparr>
         in if st = ADBC_STATUS_OK then Load env (di_lib_path info) [] l1 e1
            else Load env library [] (set_lib_path library l1) e1)
      else FindDriver env name flags additional l e)"

section \<open>The default entrypoint\<close>

definition is_separator :: "char \<Rightarrow> bool" where
  "is_separator c \<longleftrightarrow> c = CHR ''-'' \<or> c = CHR ''_''"

definition is_directory_mark :: "char \<Rightarrow> bool" where
  "is_directory_mark c \<longleftrightarrow> c = CHR ''/'' \<or> c = CHR 0x5C"

definition ascii_upper :: "char \<Rightarrow> char" where
  "ascii_upper c =
     (let n = (of_char c :: nat) in if 97 \<le> n \<and> n \<le> 122 then char_of (n - 32) else c)"

definition capitalize :: "string \<Rightarrow> string" where
  "capitalize t = (case t of [] \<Rightarrow> [] | c # cs \<Rightarrow> ascii_upper c # cs)"

text \<open>The loop over the words between hyphens and underscores, on what is left of the name.\<close>

function join_words :: "string \<Rightarrow> string" where
  "join_words s =
     (if s = [] then []
      else capitalize (takeWhile (\<lambda>c. \<not> is_separator c) s) @
           join_words (drop 1 (dropWhile (\<lambda>c. \<not> is_separator c) s)))"
  by pat_completeness auto

termination
proof (relation "measure length")
  fix s :: string
  assume "s \<noteq> []"
  moreover have "length (dropWhile (\<lambda>c. \<not> is_separator c) s) \<le> length s" by (rule length_dropWhile_le)
  ultimately show "(drop 1 (dropWhile (\<lambda>c. \<not> is_separator c) s), s) \<in> measure length"
    by (cases s) auto
qed simp

declare join_words.simps [simp del]

text \<open>The last component of a path, without its extensions and a leading \<open>lib\<close>.\<close>

definition base_name :: "string \<Rightarrow> string" where
  "base_name driver =
     (let file = rev (takeWhile (\<lambda>c. \<not> is_directory_mark c) (rev driver));
          plain = takeWhile (\<lambda>c. c \<noteq> CHR ''.'') file
      in if starts_with ''lib'' plain then drop 3 plain else plain)"

definition InternalAdbcDriverManagerDefaultEntrypoint :: "string \<Rightarrow> string" where
  "InternalAdbcDriverManagerDefaultEntrypoint driver =
     (let entrypoint = join_words (base_name driver)
      in (if starts_with ''Adbc'' entrypoint then entrypoint else ''Adbc'' @ entrypoint) @ ''Init'')"

end
