(* ===== verification/Loading_Properties.thy ===== *)
theory Loading_Properties
  imports Driver_Loading
begin

text \<open>
  What the search for a driver guarantees: which libraries may be opened, what a search that succeeds
  leaves behind, and what the default entrypoint depends on.
\<close>

section \<open>One library\<close>

definition permitted :: "string \<Rightarrow> bool" where
  "permitted library \<longleftrightarrow>
     \<not> contains ''quack'' (path_stem library) \<and> \<not> contains ''duckdb'' (path_stem library)"

text \<open>Every name given to \<open>dlopen\<close> is a permitted library's or its decorated form.\<close>

definition only_permitted :: "loader \<Rightarrow> bool" where
  "only_permitted l \<longleftrightarrow>
     (\<forall>n \<in> set (opened l). \<exists>library. permitted library \<and> (n = library \<or> n = full_driver_name library))"

text \<open>The last name opened is the library the loader's information names, and its handle is kept.\<close>

definition loaded :: "dl_env \<Rightarrow> loader \<Rightarrow> bool" where
  "loaded env l \<longleftrightarrow>
     (let library = di_lib_path (ml_info l); name = last (opened l) in
      library \<noteq> [] \<and> opened l \<noteq> [] \<and> (name = library \<or> name = full_driver_name library) \<and>
      (\<exists>h. dlopen env (butlast (opened l)) name = Inr h \<and> ml_handle l = Some h))"

definition load_contract :: "dl_env \<Rightarrow> loader \<Rightarrow> status \<Rightarrow> loader \<Rightarrow> bool" where
  "load_contract env l st l' \<longleftrightarrow>
     (only_permitted l \<longrightarrow> only_permitted l') \<and>
     (if st = ADBC_STATUS_OK then loaded env l' else ml_handle l' = ml_handle l) \<and>
     st \<in> {ADBC_STATUS_OK, ADBC_STATUS_NOT_FOUND, ADBC_STATUS_INVALID_ARGUMENT}"

lemma load_contract_refl:
  assumes "st \<in> {ADBC_STATUS_NOT_FOUND, ADBC_STATUS_INVALID_ARGUMENT}"
  shows "load_contract env l st l" and "load_contract env l st (l\<lparr>ml_info := i\<rparr>)"
  using assms by (auto simp: load_contract_def only_permitted_def)

lemma load_contract_trans:
  "load_contract env l st1 l1 \<Longrightarrow> st1 \<noteq> ADBC_STATUS_OK \<Longrightarrow> load_contract env l1 st l2 \<Longrightarrow> load_contract env l st l2"
  by (auto simp: load_contract_def split: if_splits)

lemma load_contract_info [simp]:
  "load_contract env (l\<lparr>ml_info := i\<rparr>) st l' = load_contract env l st l'"
  by (simp add: load_contract_def only_permitted_def)

lemma SetError_message [simp]: "err_message (SetError e m) = Some (''[Driver Manager] '' @ m)"
  by (simp add: SetError_def)

lemma only_permitted_append:
  "permitted library \<Longrightarrow> n = library \<or> n = full_driver_name library \<Longrightarrow>
   only_permitted (l\<lparr>opened := opened l @ [n]\<rparr>) = only_permitted l"
  by (auto simp: only_permitted_def)

lemma Load_contract:
  assumes "Load env library attempted l e = (st, l', e')" and "library \<noteq> []"
  shows "load_contract env l st (set_lib_path library l') \<and> ml_info l' = ml_info l \<and>
    (st \<noteq> ADBC_STATUS_OK \<longrightarrow> err_message e' \<noteq> None) \<and> (st = ADBC_STATUS_OK \<longrightarrow> e' = e)"
  using assms
  by (auto simp: Load_def Let_def load_contract_def loaded_def only_permitted_def permitted_def SetError_def
      set_lib_path_def butlast_append split: if_splits sum.splits)

lemma Load_OK_contract:
  assumes "Load env library attempted l e = (st, l', e')" and "library \<noteq> []"
    and "di_lib_path (ml_info l) = library"
  shows "load_contract env l st l' \<and> (st \<noteq> ADBC_STATUS_OK \<longrightarrow> err_message e' \<noteq> None)"
proof -
  note c = Load_contract [OF assms(1,2)]
  have "set_lib_path library l' = l'" using c assms(3) by (auto simp: set_lib_path_def)
  then show ?thesis using c by metis
qed

lemma manifest_library_contract:
  "manifest_library env path d = Inr p \<Longrightarrow> p \<noteq> []"
  "manifest_library env path d = Inl (st, msg) \<Longrightarrow>
     st = ADBC_STATUS_NOT_FOUND \<or> st = ADBC_STATUS_INVALID_ARGUMENT"
  by (auto simp: manifest_library_def Let_def split: option.splits toml.splits if_splits)

lemma LoadDriverManifest_contract:
  assumes "LoadDriverManifest env path info e = (st, info', e')"
  shows "(if st = ADBC_STATUS_OK then di_lib_path info' \<noteq> [] \<and> e' = e else err_message e' \<noteq> None) \<and>
    st \<in> {ADBC_STATUS_OK, ADBC_STATUS_NOT_FOUND, ADBC_STATUS_INVALID_ARGUMENT}"
proof -
  have "case LoadDriverManifest env path info e of (st, info', e') \<Rightarrow>
    (if st = ADBC_STATUS_OK then di_lib_path info' \<noteq> [] \<and> e' = e else err_message e' \<noteq> None) \<and>
    st \<in> {ADBC_STATUS_OK, ADBC_STATUS_NOT_FOUND, ADBC_STATUS_INVALID_ARGUMENT}"
    unfolding LoadDriverManifest_def Let_def
    by (auto simp del: not_None_eq dest: manifest_library_contract split: sum.split)
  then show ?thesis using assms by simp
qed

section \<open>The search\<close>

lemma path_extension_shorter: "p \<noteq> [] \<Longrightarrow> length (path_extension p) < length p"
proof -
  assume p: "p \<noteq> []"
  let ?f = "path_filename p" and ?s = "takeWhile (\<lambda>c. c \<noteq> CHR ''.'') (rev (path_filename p))"
  have f: "length ?f \<le> length p"
    using length_takeWhile_le [of "\<lambda>c. c \<noteq> CHR ''/''" "rev p"] by (simp add: path_filename_def)
  have "length ?s < length ?f" if "CHR ''.'' \<in> set ?f"
  proof -
    have "?s \<noteq> rev ?f" using that by (metis (mono_tags, lifting) set_rev set_takeWhileD)
    then show ?thesis
      by (metis length_rev length_takeWhile_le linorder_le_less_linear order_antisym_conv takeWhile_eq_take take_all_iff)
  qed
  then show ?thesis using f p by (auto simp: path_extension_def Let_def)
qed

lemma replace_extension_nonempty: "p \<noteq> [] \<Longrightarrow> replace_extension p x \<noteq> []"
  using path_extension_shorter [of p] by (simp add: replace_extension_def)

lemma try_library_contract:
  assumes "library \<noteq> []"
  shows "case try_library env library all extra l e of
      Inl (st, _, l', _) \<Rightarrow> st = ADBC_STATUS_OK \<and> load_contract env l st l'
    | Inr (_, l') \<Rightarrow> load_contract env l ADBC_STATUS_NOT_FOUND l'"
proof -
  obtain st l1 e1 where ld: "Load env library [] l no_error = (st, l1, e1)" by (metis prod_cases3)
  have "st = ADBC_STATUS_OK \<or> st = ADBC_STATUS_NOT_FOUND"
    using ld by (auto simp: Load_def Let_def split: if_splits sum.splits)
  moreover have c: "load_contract env l st (set_lib_path library l1)"
    using Load_contract [OF ld assms] by blast
  then have "load_contract env l st l1" if "st \<noteq> ADBC_STATUS_OK"
    using that by (simp add: load_contract_def only_permitted_def set_lib_path_def)
  ultimately show ?thesis using ld c
    by (auto simp: try_library_def)
qed

lemma search_step_contract:
  "case search_step env driver all extra dir l e of
     Inl (st, _, l', e') \<Rightarrow>
       load_contract env l st l' \<and> (st = ADBC_STATUS_INVALID_ARGUMENT \<longrightarrow> err_message e' \<noteq> None)
   | Inr (_, l') \<Rightarrow> load_contract env l ADBC_STATUS_NOT_FOUND l'"
proof -
  let ?m = "replace_extension (path_join dir driver) ''.toml''"
  have "replace_extension ?m [] \<noteq> []"
    by (rule replace_extension_nonempty) (simp add: replace_extension_def)
  note attempt = try_library_contract [OF this, where env = env and all = all and e = e]
  obtain st info ie where ldm: "LoadDriverManifest env ?m (ml_info l) no_error = (st, info, ie)"
    by (metis prod_cases3)
  note m = LoadDriverManifest_contract [OF ldm]
  obtain st2 l2 ie2 where ld: "Load env (di_lib_path info) [] (l\<lparr>ml_info := info\<rparr>) ie = (st2, l2, ie2)"
    by (metis prod_cases3)
  have st2: "st2 = ADBC_STATUS_OK \<or> st2 = ADBC_STATUS_NOT_FOUND"
    using ld by (auto simp: Load_def Let_def split: if_splits sum.splits)
  show ?thesis
  proof (cases "file_exists env ?m")
    case False
    then show ?thesis using attempt [where extra = extra and l = l]
      by (auto simp: search_step_def Let_def split: sum.splits)
  next
    case exists: True
    have bad: "st = ADBC_STATUS_INVALID_ARGUMENT \<or> st = ADBC_STATUS_NOT_FOUND" if "st \<noteq> ADBC_STATUS_OK"
      using m that by auto
    have good: "load_contract env l st2 l2" if "st = ADBC_STATUS_OK"
      using Load_OK_contract [OF ld] m that by auto
    show ?thesis
    proof (cases "st = ADBC_STATUS_NOT_FOUND")
      case True
      let ?x = "extra @ [(OtherError, ''found '' @ ?m @ (case err_message ie of Some m \<Rightarrow> '' but: '' @ m
        | None \<Rightarrow> '' which did not define a driver for this platform''))]"
      show ?thesis using exists True ldm attempt [where extra = ?x and l = "l\<lparr>ml_info := info\<rparr>"]
        by (auto simp: search_step_def Let_def split: sum.splits)
    qed (use exists ldm ld good bad st2 m in
        \<open>auto simp: search_step_def Let_def load_contract_refl split: option.splits\<close>)
  qed
qed

lemma search_loop_contract:
  "search_loop env driver all extra paths l e = (st, ps, l', e') \<Longrightarrow>
   load_contract env l st l' \<and> (st = ADBC_STATUS_INVALID_ARGUMENT \<longrightarrow> err_message e' \<noteq> None)"
proof (induction env driver all extra paths l e rule: search_loop.induct)
  case (2 env driver all extra source dir paths l e)
  show ?case
  proof (cases "skipped_source source")
    case False
    show ?thesis
    proof (cases "search_step env driver all extra dir l e")
      case (Inl r)
      then show ?thesis using "2.prems" False search_step_contract [where env = env and driver = driver and all = all and extra = extra and dir = dir and l = l and e = e] by simp
    next
      case (Inr r)
      obtain extra1 l1 where r: "r = (extra1, l1)" by (cases r)
      have c: "load_contract env l ADBC_STATUS_NOT_FOUND l1"
        using search_step_contract [where env = env and driver = driver and all = all and extra = extra and dir = dir and l = l and e = e] Inr r by simp
      have "search_loop env driver all extra1 paths l1 e = (st, ps, l', e')" using "2.prems" False Inr r by simp
      from "2.IH"(2) [OF False Inr r [symmetric] this] load_contract_trans [OF c] show ?thesis by simp
    qed
  qed (use 2 in simp)
qed (simp add: load_contract_def)

lemma FindDriver_contract:
  assumes "FindDriver env driver flags additional l e = (st, l', e')"
  shows "load_contract env l st l' \<and> (st \<noteq> ADBC_STATUS_OK \<longrightarrow> err_message e' \<noteq> None)"
proof (cases "driver = []")
  case True
  then show ?thesis using assms by (auto simp: FindDriver_def load_contract_refl)
next
  case driver: False
  let ?first = "first_search_paths env flags additional"
  let ?more = "GetSearchPaths env (and flags (not ADBC_LOAD_FLAG_SEARCH_ENV))"
  obtain st1 ps1 l1 e1 where s1: "SearchPathsForDriver env driver ?first l e = (st1, ps1, l1, e1)"
    by (metis prod_cases4)
  note c1 = search_loop_contract [OF s1 [unfolded SearchPathsForDriver_def]]
  show ?thesis
  proof (cases "st1 = ADBC_STATUS_NOT_FOUND")
    case False
    then have "(st, l', e') = (st1, l1, e1)" using assms s1 driver by (simp add: FindDriver_def)
    then show ?thesis using c1 False by (auto simp: load_contract_def)
  next
    case nf1: True
    obtain st2 ps2 l2 e2 where s2: "SearchPathsForDriver env driver ?more l1 e1 = (st2, ps2, l2, e2)"
      by (metis prod_cases4)
    note c2 = search_loop_contract [OF s2 [unfolded SearchPathsForDriver_def]]
    have c12: "load_contract env l st2 l2"
      using load_contract_trans [of env l st1 l1 st2 l2] c1 c2 nf1 by simp
    show ?thesis
    proof (cases "st2 = ADBC_STATUS_NOT_FOUND")
      case False
      then have "(st, l', e') = (st2, l2, e2)" using assms s1 s2 nf1 driver by (simp add: FindDriver_def)
      then show ?thesis using c12 c2 False by (auto simp: load_contract_def)
    next
      case nf2: True
      have ld: "Load env driver (ps1 @ ps2 @ disabled_paths env flags) (set_lib_path driver l2) e2 = (st, l', e')"
        using assms s1 s2 nf1 nf2 driver by (simp add: FindDriver_def)
      have "load_contract env l2 st l' \<and> (st \<noteq> ADBC_STATUS_OK \<longrightarrow> err_message e' \<noteq> None)"
        using Load_OK_contract [OF ld driver] by (simp add: set_lib_path_def)
      then show ?thesis using load_contract_trans [OF c12, of st l'] nf2 by simp
    qed
  qed
qed

text \<open>Any way a manifest is loaded outside the search: the library it names is opened next.\<close>

lemma manifest_load_contract:
  assumes "LoadDriverManifest env path (ml_info l) e = (st1, info, e1)" and "st1 = ADBC_STATUS_OK"
    and "Load env (di_lib_path info) [] (l\<lparr>ml_info := info\<rparr>) e1 = (st, l', e')"
  shows "load_contract env l st l' \<and> (st \<noteq> ADBC_STATUS_OK \<longrightarrow> err_message e' \<noteq> None)"
  using Load_OK_contract [OF assms(3)] LoadDriverManifest_contract [OF assms(1)] assms(2) by simp

lemma library_load_contract:
  assumes "Load env library [] (set_lib_path library (l\<lparr>ml_info := i\<rparr>)) e = (st, l', e')" and "library \<noteq> []"
  shows "load_contract env l st l' \<and> (st \<noteq> ADBC_STATUS_OK \<longrightarrow> err_message e' \<noteq> None)"
  using Load_OK_contract [OF assms] by (simp add: set_lib_path_def)

lemma absolute_contract:
  assumes "GetDriverInfo env name flags additional l e = (st, l', e')"
    and "name \<noteq> []" and "path_extension name = []" and "path_is_absolute name"
  shows "load_contract env l st l' \<and> (st \<noteq> ADBC_STATUS_OK \<longrightarrow> err_message e' \<noteq> None)"
proof -
  let ?m = "replace_extension name ''.toml''"
  have lib: "replace_extension ?m [] \<noteq> []"
    by (rule replace_extension_nonempty) (simp add: replace_extension_def)
  obtain st1 info e1 where m: "(if file_exists env ?m then LoadDriverManifest env ?m (ml_info l) e
      else (ADBC_STATUS_NOT_FOUND, ml_info l, e)) = (st1, info, e1)" by (metis prod_cases3)
  have eq: "(if st1 = ADBC_STATUS_OK then Load env (di_lib_path info) [] (l\<lparr>ml_info := info\<rparr>) e1
      else Load env (replace_extension ?m []) []
        (set_lib_path (replace_extension ?m []) (l\<lparr>ml_info := info\<rparr>)) e1) = (st, l', e')"
    using assms by (simp add: GetDriverInfo_def Let_def m [simplified])
  show ?thesis
  proof (cases "st1 = ADBC_STATUS_OK")
    case True
    have "LoadDriverManifest env ?m (ml_info l) e = (st1, info, e1)" using m True by (auto split: if_splits)
    then show ?thesis using manifest_load_contract [OF _ True] eq True by simp
  next
    case False
    then show ?thesis using library_load_contract [OF _ lib] eq by simp
  qed
qed

lemma toml_contract:
  assumes "(case LoadDriverManifest env path (ml_info l) e of
      (st, info, e1) \<Rightarrow>
        let l1 = l\<lparr>ml_info := info\<rparr> in
        if st = ADBC_STATUS_OK then Load env (di_lib_path info) [] l1 e1 else (st, l1, e1)) = (st, l', e')"
  shows "load_contract env l st l' \<and> (st \<noteq> ADBC_STATUS_OK \<longrightarrow> err_message e' \<noteq> None)"
proof -
  obtain st1 info e1 where m: "LoadDriverManifest env path (ml_info l) e = (st1, info, e1)" by (metis prod_cases3)
  show ?thesis
  proof (cases "st1 = ADBC_STATUS_OK")
    case True
    then show ?thesis using manifest_load_contract [OF m True] assms m by simp
  next
    case False
    then show ?thesis using LoadDriverManifest_contract [OF m] assms m by (auto simp: load_contract_refl)
  qed
qed

lemma GetDriverInfo_contract:
  assumes "GetDriverInfo env name flags additional l e = (st, l', e')"
  shows "load_contract env l st l' \<and> (st \<noteq> ADBC_STATUS_OK \<longrightarrow> err_message e' \<noteq> None)"
proof (cases "name = []")
  case True
  then show ?thesis using assms by (auto simp: GetDriverInfo_def load_contract_refl)
next
  case name: False
  show ?thesis
  proof (cases "path_extension name = []")
    case True
    then show ?thesis
      using assms name absolute_contract [OF assms name True]
        FindDriver_contract [of env name flags additional l e st l' e']
      by (cases "path_is_absolute name") (simp_all add: GetDriverInfo_def)
  next
    case False
    consider "\<not> path_is_absolute name \<and> \<not> has_flag flags ADBC_LOAD_FLAG_ALLOW_RELATIVE_PATHS"
      | "path_is_absolute name \<or> has_flag flags ADBC_LOAD_FLAG_ALLOW_RELATIVE_PATHS" "HasExtension name ''.toml''"
      | "path_is_absolute name \<or> has_flag flags ADBC_LOAD_FLAG_ALLOW_RELATIVE_PATHS" "\<not> HasExtension name ''.toml''"
      by blast
    then show ?thesis
    proof cases
      case 1
      then show ?thesis using assms name False by (auto simp: GetDriverInfo_def load_contract_refl)
    next
      case 2
      show ?thesis
        by (rule toml_contract [where env = env and path = name]) (use assms name False 2 in \<open>auto simp: GetDriverInfo_def\<close>)
    next
      case 3
      have "Load env name [] (set_lib_path name (l\<lparr>ml_info := ml_info l\<rparr>)) e = (st, l', e')"
        using assms name False 3 by (auto simp: GetDriverInfo_def)
      then show ?thesis by (rule library_load_contract) (rule name)
    qed
  qed
qed

section \<open>The properties of the search\<close>

text \<open>An environment with a manifest for the driver \<open>pg\<close> and its library in \<open>/d\<close>.\<close>

definition example_dl :: dl_env where
  "example_dl =
     \<lparr>getenv = [''ADBC_DRIVER_PATH'' \<mapsto> ''/d''], file_exists = (\<lambda>p. p = ''/d/pg.toml''),
      parse_file = (\<lambda>p. Inr [(''Driver'', TomlTable [(''shared'',
        TomlTable [(''linux_amd64'', TomlString ''/d/libpg.so'')])])]),
      dlopen = (\<lambda>before n. if n = ''/d/libpg.so'' then Inr (length before) else Inl ''no such file''),
      dlsym = (\<lambda>_ _. Inl ''undefined symbol''), current_arch = ''linux_amd64'',
      toml_int64 = (\<lambda>_. None)\<rparr>"

definition new_loader :: loader where
  "new_loader = \<lparr>ml_handle = None, ml_info = DriverInfo_new, opened = []\<rparr>"

text \<open>
  C15: Resolving a driver's name either fails with a message, leaving the library handle as it was, or
  succeeds with the loader complete, on every path through manifests and directories: the library path
  of the driver information is not empty, it is what was opened last (or its decorated form), and the
  handle is the one \<open>dlopen\<close> returned for it.
\<close>
theorem driver_info_complete:
  assumes "GetDriverInfo env name flags additional l e = (st, l', e')"
  shows "(if st = ADBC_STATUS_OK then loaded env l'
     else ml_handle l' = ml_handle l \<and> err_message e' \<noteq> None) \<and>
    st \<in> {ADBC_STATUS_OK, ADBC_STATUS_NOT_FOUND, ADBC_STATUS_INVALID_ARGUMENT}"
  using GetDriverInfo_contract [OF assms] by (auto simp: load_contract_def)

theorem driver_info_complete_witness:
  "\<exists>l'. GetDriverInfo example_dl ''pg'' ADBC_LOAD_FLAG_SEARCH_ENV [] new_loader no_error =
      (ADBC_STATUS_OK, l', no_error) \<and>
    loaded example_dl l' \<and> di_lib_path (ml_info l') = ''/d/libpg.so''"
proof -
  let ?r = "GetDriverInfo example_dl ''pg'' ADBC_LOAD_FLAG_SEARCH_ENV [] new_loader no_error"
  have r: "?r = (fst ?r, fst (snd ?r), snd (snd ?r))" by simp
  have f: "fst ?r = ADBC_STATUS_OK \<and> snd (snd ?r) = no_error \<and>
      di_lib_path (ml_info (fst (snd ?r))) = ''/d/libpg.so''" by code_simp
  then have "loaded example_dl (fst (snd ?r))" using driver_info_complete [OF r] by simp
  then show ?thesis using f r by metis
qed

section \<open>Names that are refused\<close>

lemma takeWhile_rev_append:
  "\<forall>c \<in> set a. P c \<Longrightarrow> takeWhile P (rev a @ b) = rev a @ takeWhile P b"
  by (subst takeWhile_append2) auto

lemma takeWhile_rev_all: "\<forall>c \<in> set a. P c \<Longrightarrow> takeWhile P (rev a) = rev a"
  by (simp add: takeWhile_eq_all_conv)

lemma path_filename_append: "CHR ''/'' \<notin> set x \<Longrightarrow> path_filename (p @ x) = path_filename p @ x"
proof -
  assume "CHR ''/'' \<notin> set x"
  then have "\<forall>c \<in> set x. c \<noteq> CHR ''/''" by auto
  from takeWhile_rev_append [OF this] show ?thesis by (simp add: path_filename_def)
qed

lemma path_filename_prepend:
  "path_filename (a @ p) = path_filename p \<or> path_filename p = p \<and> path_filename (a @ p) = path_filename a @ p"
proof (cases "CHR ''/'' \<in> set p")
  case True
  then show ?thesis by (simp add: path_filename_def takeWhile_append1)
next
  case False
  have "path_filename p = p" using path_filename_append [OF False, of "[]"] by (simp add: path_filename_def)
  then show ?thesis using path_filename_append [OF False, of a] by simp
qed

lemma path_stem_dotless: "CHR ''.'' \<notin> set (path_filename p) \<Longrightarrow> path_stem p = path_filename p"
  by (simp add: path_stem_def path_extension_def)

lemma path_stem_so:
  assumes "path_filename p = b @ ''.so''" and "CHR ''.'' \<notin> set b" and "b \<noteq> []"
  shows "path_stem p = b"
proof -
  have "takeWhile (\<lambda>c. c \<noteq> CHR ''.'') (rev (b @ ''.so'')) = ''os''" by simp
  then show ?thesis using assms
    by (cases b) (auto simp: path_stem_def path_extension_def Let_def)
qed

definition refused :: "string \<Rightarrow> bool" where
  "refused s \<longleftrightarrow> contains ''quack'' s \<or> contains ''duckdb'' s"

lemma refused_lib: "refused (''lib'' @ s) = refused s"
  by (simp add: refused_def starts_with_def)

lemma not_permitted: "refused (path_stem library) \<Longrightarrow> \<not> permitted library"
  by (simp add: refused_def permitted_def)

lemma full_driver_name_cases:
  "full_driver_name library = library \<or>
   full_driver_name library = library @ ''.so'' \<or> full_driver_name library = ''lib'' @ library @ ''.so''"
  by (auto simp: full_driver_name_def Let_def)

lemma refused_not_opened:
  assumes n: "path_filename n = b @ ''.so''" and dots: "CHR ''.'' \<notin> set b" and ref: "refused b"
    and name: "n = library \<or> n = full_driver_name library"
  shows "\<not> permitted library"
proof -
  have b: "b \<noteq> []" using ref by (auto simp: refused_def)
  consider "n = library" | "n = library @ ''.so''" | "n = (''lib'' @ library) @ ''.so''"
    using name full_driver_name_cases [of library] by auto
  then show ?thesis
  proof cases
    case 1
    then show ?thesis using path_stem_so [of library b] n dots b ref not_permitted by simp
  next
    case 2
    then have "path_filename library = b" using n path_filename_append [of "''.so''" library] by simp
    then show ?thesis using path_stem_dotless [of library] dots ref not_permitted by simp
  next
    case 3
    then have f: "path_filename (''lib'' @ library) = b"
      using n path_filename_append [of "''.so''" "''lib'' @ library"] by simp
    have "path_filename ''lib'' = ''lib''" by (simp add: path_filename_def)
    then have "b = path_filename library \<or> b = ''lib'' @ path_filename library"
      using path_filename_prepend [of "''lib''" library] f by auto
    then show ?thesis using path_stem_dotless [of library] dots ref refused_lib not_permitted by auto
  qed
qed



text \<open>
  The name a library is retried with after it could not be opened: a name that begins with \<open>lib\<close>
  and ends with the suffix is tried again unchanged, one that only begins with \<open>lib\<close> gets the suffix,
  and any other gets both, also when it ends with the suffix already or is a path to a directory.
\<close>
theorem library_name_decoration:
  "full_driver_name (''lib'' @ s @ ''.so'') = ''lib'' @ s @ ''.so'' \<and>
   ((\<nexists>t. ''lib'' @ s = t @ ''.so'') \<longrightarrow> full_driver_name (''lib'' @ s) = ''lib'' @ s @ ''.so'') \<and>
   (take 3 s \<noteq> ''lib'' \<longrightarrow> full_driver_name s = ''lib'' @ s @ ''.so'')"
proof (intro conjI impI)
  show "full_driver_name (''lib'' @ s @ ''.so'') = ''lib'' @ s @ ''.so''"
    by (simp add: full_driver_name_def Let_def)
next
  assume s: "\<nexists>t. ''lib'' @ s = t @ ''.so''"
  have "take 3 (drop (length s) (''lib'' @ s)) \<noteq> ''.so''"
  proof
    assume e: "take 3 (drop (length s) (''lib'' @ s)) = ''.so''"
    have "take 3 (drop (length s) (''lib'' @ s)) = drop (length s) (''lib'' @ s)" by (rule take_all) simp
    then have "''lib'' @ s = take (length s) (''lib'' @ s) @ ''.so''"
      by (metis e append_take_drop_id)
    then show False using s by blast
  qed
  then show "full_driver_name (''lib'' @ s) = ''lib'' @ s @ ''.so''"
    by (simp add: full_driver_name_def Let_def)
next
  assume "take 3 s \<noteq> ''lib''"
  then show "full_driver_name s = ''lib'' @ s @ ''.so''"
    by (simp add: full_driver_name_def Let_def)
qed

theorem library_name_decoration_witness:
  "full_driver_name ''libfoo'' = ''libfoo.so'' \<and> full_driver_name ''foo.so'' = ''libfoo.so.so'' \<and>
   full_driver_name ''/opt/foo'' = ''lib/opt/foo.so''"
proof -
  have "(\<nexists>t. ''lib'' @ ''foo'' = t @ ''.so'')"
  proof
    assume "\<exists>t. ''lib'' @ ''foo'' = t @ ''.so''"
    then obtain t where "''libfoo'' = t @ ''.so''" by auto
    then have "rev ''libfoo'' = rev (t @ ''.so'')" by simp
    then show False by simp
  qed
  then show ?thesis
    using library_name_decoration [of "''foo''"] library_name_decoration [of "''foo.so''"]
      library_name_decoration [of "''/opt/foo''"] by simp
qed

section \<open>The default entrypoint\<close>

lemma starts_with_drop: "starts_with p s \<Longrightarrow> length p = n \<Longrightarrow> p @ drop n s = s"
  using append_take_drop_id [of n s] by (auto simp: starts_with_def)

lemma base_name_file:
  assumes "\<forall>c \<in> set f. \<not> is_directory_mark c" and "is_directory_mark m"
  shows "base_name (dir @ m # f) = base_name f"
proof -
  have "takeWhile (\<lambda>c. \<not> is_directory_mark c) (rev f @ m # rev dir) = rev f"
    using takeWhile_rev_append [OF assms(1)] assms(2) by simp
  then have "rev (takeWhile (\<lambda>c. \<not> is_directory_mark c) (rev (dir @ m # f))) =
      rev (takeWhile (\<lambda>c. \<not> is_directory_mark c) (rev f))"
    by (simp add: takeWhile_rev_all [OF assms(1)])
  then show ?thesis by (simp only: base_name_def)
qed

text \<open>Without a directory, only the first period and the prefix matter.\<close>

lemma base_name_plain:
  "\<forall>c \<in> set f. \<not> is_directory_mark c \<Longrightarrow>
   base_name f =
     (let plain = takeWhile (\<lambda>c. c \<noteq> CHR ''.'') f
      in if starts_with ''lib'' plain then drop 3 plain else plain)"
  by (simp only: base_name_def takeWhile_rev_all rev_rev_ident Let_def)

lemma base_name_extension:
  assumes "\<forall>c \<in> set (f @ x). \<not> is_directory_mark c" and "CHR ''.'' \<notin> set f"
  shows "base_name (f @ CHR ''.'' # x) = base_name f"
proof -
  have n: "\<forall>c \<in> set (rev f). c \<noteq> CHR ''.''" using assms(2) by auto
  have p: "takeWhile (\<lambda>c. c \<noteq> CHR ''.'') (f @ CHR ''.'' # x) = f" "takeWhile (\<lambda>c. c \<noteq> CHR ''.'') f = f"
    using takeWhile_rev_append [OF n, of "CHR ''.'' # x"] takeWhile_rev_append [OF n, of "[]"] by simp_all
  have d: "\<forall>c \<in> set (f @ CHR ''.'' # x). \<not> is_directory_mark c" "\<forall>c \<in> set f. \<not> is_directory_mark c"
    using assms(1) by (auto simp: is_directory_mark_def)
  show ?thesis by (simp only: base_name_plain [OF d(1)] base_name_plain [OF d(2)] p)
qed

lemma base_name_lib:
  assumes "\<forall>c \<in> set f. \<not> is_directory_mark c" and "CHR ''.'' \<notin> set f" and "\<not> starts_with ''lib'' f"
  shows "base_name (''lib'' @ f) = base_name f"
proof -
  have d: "\<forall>c \<in> set (''lib'' @ f). \<not> is_directory_mark c"
    using assms(1) by (auto simp: is_directory_mark_def)
  have p: "takeWhile (\<lambda>c. c \<noteq> CHR ''.'') f = f" using assms(2) by (auto simp: takeWhile_eq_all_conv)
  have q: "takeWhile (\<lambda>c. c \<noteq> CHR ''.'') (''lib'' @ f) = ''lib'' @ f" using p by simp
  show ?thesis using assms(3)
    by (simp only: base_name_plain [OF d] base_name_plain [OF assms(1)] p q Let_def)
      (simp add: starts_with_def)
qed

text \<open>
  The default entrypoint depends only on the bare name of the library: neither its directory, with
  either kind of separator, nor the prefix \<open>lib\<close>, nor any number of extensions changes it; and it is
  always of the form \<open>Adbc...Init\<close>.
\<close>
theorem entrypoint_of_bare_name:
  assumes "\<forall>c \<in> set (f @ x). \<not> is_directory_mark c" and "is_directory_mark m"
    and "CHR ''.'' \<notin> set f" and "\<not> starts_with ''lib'' f"
  shows "InternalAdbcDriverManagerDefaultEntrypoint (dir @ m # ''lib'' @ f @ CHR ''.'' # x) =
      InternalAdbcDriverManagerDefaultEntrypoint f \<and>
    (\<exists>s. InternalAdbcDriverManagerDefaultEntrypoint f = ''Adbc'' @ s @ ''Init'')"
proof
  have "base_name (dir @ m # (''lib'' @ f) @ CHR ''.'' # x) = base_name ((''lib'' @ f) @ CHR ''.'' # x)"
    by (rule base_name_file) (use assms in \<open>auto simp: is_directory_mark_def\<close>)
  also have "\<dots> = base_name (''lib'' @ f)"
    by (rule base_name_extension) (use assms in \<open>auto simp: is_directory_mark_def\<close>)
  also have "\<dots> = base_name f" by (rule base_name_lib) (use assms in auto)
  finally show "InternalAdbcDriverManagerDefaultEntrypoint (dir @ m # ''lib'' @ f @ CHR ''.'' # x) =
      InternalAdbcDriverManagerDefaultEntrypoint f"
    by (simp add: InternalAdbcDriverManagerDefaultEntrypoint_def)
  show "\<exists>s. InternalAdbcDriverManagerDefaultEntrypoint f = ''Adbc'' @ s @ ''Init''"
  proof (cases "starts_with ''Adbc'' (join_words (base_name f))")
    case True
    let ?w = "join_words (base_name f)"
    have e: "?w = ''Adbc'' @ drop 4 ?w" by (rule starts_with_drop [OF True, symmetric]) simp
    have "InternalAdbcDriverManagerDefaultEntrypoint f = ?w @ ''Init''"
      using True by (simp add: InternalAdbcDriverManagerDefaultEntrypoint_def)
    also have "\<dots> = (''Adbc'' @ drop 4 ?w) @ ''Init''" by (rule arg_cong [OF e])
    finally show ?thesis by (intro exI [of _ "drop 4 ?w"]) simp
  qed (simp add: InternalAdbcDriverManagerDefaultEntrypoint_def)
qed

theorem entrypoint_of_bare_name_witness:
  "InternalAdbcDriverManagerDefaultEntrypoint ''/usr/lib/libadbc_driver_sqlite.so.2.0.0'' = ''AdbcDriverSqliteInit''"
proof -
  have "InternalAdbcDriverManagerDefaultEntrypoint ''adbc_driver_sqlite'' = ''AdbcDriverSqliteInit''"
    by code_simp
  then show ?thesis
    using entrypoint_of_bare_name [of "''adbc_driver_sqlite''" "''so.2.0.0''" "CHR ''/''" "''/usr/lib''"]
    by (simp add: is_directory_mark_def starts_with_def)
qed

end
