(* ===== verification/Driver_Table.thy ===== *)
theory Driver_Table
  imports Driver_Loading
begin

text \<open>
  The table of functions of a loaded driver: the stubs the driver manager puts where a driver has no
  function of its own, the completion of the table after the driver's init function ran, the loading
  of a driver from its name, and the release of the library (src/adbc-vendor/adbc\_driver\_manager\_api.cpp
  and adbc\_driver\_manager.cpp).
\<close>

section \<open>Drivers\<close>

text \<open>
  The functions of \<open>AdbcDriver\<close> are named as in the struct.  A slot is a null pointer, a stub of the
  driver manager or a function of the driver.  The release callback is absent, the driver's, or the
  driver manager's own, which keeps the driver's in its private state together with the library.
\<close>

datatype slot = Null | Stub | Own

datatype release_callback = NoRelease | DriverRelease | ManagerRelease

record driver =
  impl :: nat
  slots :: "string \<Rightarrow> slot"
  drv_release :: release_callback
  private_manager :: "(release_callback \<times> nat option) option"

text \<open>\<open>memset\<close> to zero.\<close>

definition empty_driver :: driver where
  "empty_driver = \<lparr>impl = 0, slots = (\<lambda>_. Null), drv_release = NoRelease, private_manager = None\<rparr>"

text \<open>
  What passes between the manager and a driver.  A stream is absent (its release is null), one the
  driver made, or one the manager has wrapped together with the address of its driver.
\<close>

datatype arg = AString string | ABytes string | AInt int | ADouble double | AHandle hnd

datatype stream = NoStream | DriverStream nat | ErrorStream nat nat

record driver_reply =
  dr_status :: status
  dr_data :: hnd
  dr_error :: adbc_error
  dr_out :: "arg list"
  dr_stream :: stream

text \<open>
  The drivers: a function of a driver on the private data of an object, and the init functions, which
  fill the table for a version with the functions the driver has.  A release callback of a driver is
  called by the name \<open>release\<close>.
\<close>

record driver_table =
  dt_impl :: nat
  dt_functions :: "string \<Rightarrow> bool"
  dt_release :: bool

definition fill_table :: "driver_table \<Rightarrow> driver \<Rightarrow> driver" where
  "fill_table t d =
     d\<lparr>impl := dt_impl t, slots := (\<lambda>f. if dt_functions t f then Own else slots d f),
       drv_release := (if dt_release t then DriverRelease else drv_release d)\<rparr>"

type_synonym 'w driver_calls =
  "nat \<Rightarrow> string \<Rightarrow> hnd \<Rightarrow> arg list \<Rightarrow> adbc_error \<Rightarrow> 'w \<Rightarrow> driver_reply \<times> 'w"

type_synonym 'w init_funcs =
  "nat \<Rightarrow> int \<Rightarrow> adbc_error \<Rightarrow> 'w \<Rightarrow> status \<times> driver_table \<times> adbc_error \<times> 'w"

record 'w driver_env =
  dl :: dl_env
  init_funcs :: "'w init_funcs"
  driver_calls :: "'w driver_calls"

section \<open>Stubs\<close>

text \<open>The status each stub returns; all of them set the same message.\<close>

definition database_stubs :: "(string \<times> status) list" where
  "database_stubs =
     [(''DatabaseGetOption'', ADBC_STATUS_NOT_FOUND),
      (''DatabaseGetOptionBytes'', ADBC_STATUS_NOT_FOUND),
      (''DatabaseGetOptionInt'', ADBC_STATUS_NOT_FOUND),
      (''DatabaseGetOptionDouble'', ADBC_STATUS_NOT_FOUND),
      (''DatabaseSetOption'', ADBC_STATUS_NOT_IMPLEMENTED),
      (''DatabaseSetOptionBytes'', ADBC_STATUS_NOT_IMPLEMENTED),
      (''DatabaseSetOptionInt'', ADBC_STATUS_NOT_IMPLEMENTED),
      (''DatabaseSetOptionDouble'', ADBC_STATUS_NOT_IMPLEMENTED)]"

definition connection_stubs :: "(string \<times> status) list" where
  "connection_stubs =
     [(''ConnectionCancel'', ADBC_STATUS_NOT_IMPLEMENTED),
      (''ConnectionCommit'', ADBC_STATUS_NOT_IMPLEMENTED),
      (''ConnectionGetInfo'', ADBC_STATUS_NOT_IMPLEMENTED),
      (''ConnectionGetObjects'', ADBC_STATUS_NOT_IMPLEMENTED),
      (''ConnectionGetOption'', ADBC_STATUS_NOT_FOUND),
      (''ConnectionGetOptionBytes'', ADBC_STATUS_NOT_FOUND),
      (''ConnectionGetOptionInt'', ADBC_STATUS_NOT_FOUND),
      (''ConnectionGetOptionDouble'', ADBC_STATUS_NOT_FOUND),
      (''ConnectionGetStatistics'', ADBC_STATUS_NOT_IMPLEMENTED),
      (''ConnectionGetStatisticNames'', ADBC_STATUS_NOT_IMPLEMENTED),
      (''ConnectionGetTableSchema'', ADBC_STATUS_NOT_IMPLEMENTED),
      (''ConnectionGetTableTypes'', ADBC_STATUS_NOT_IMPLEMENTED),
      (''ConnectionReadPartition'', ADBC_STATUS_NOT_IMPLEMENTED),
      (''ConnectionRollback'', ADBC_STATUS_NOT_IMPLEMENTED),
      (''ConnectionSetOption'', ADBC_STATUS_NOT_IMPLEMENTED),
      (''ConnectionSetOptionBytes'', ADBC_STATUS_NOT_IMPLEMENTED),
      (''ConnectionSetOptionInt'', ADBC_STATUS_NOT_IMPLEMENTED),
      (''ConnectionSetOptionDouble'', ADBC_STATUS_NOT_IMPLEMENTED)]"

definition statement_stubs :: "(string \<times> status) list" where
  "statement_stubs =
     [(''StatementBind'', ADBC_STATUS_NOT_IMPLEMENTED),
      (''StatementBindStream'', ADBC_STATUS_NOT_IMPLEMENTED),
      (''StatementCancel'', ADBC_STATUS_NOT_IMPLEMENTED),
      (''StatementExecutePartitions'', ADBC_STATUS_NOT_IMPLEMENTED),
      (''StatementExecuteSchema'', ADBC_STATUS_NOT_IMPLEMENTED),
      (''StatementGetOption'', ADBC_STATUS_NOT_FOUND),
      (''StatementGetOptionBytes'', ADBC_STATUS_NOT_FOUND),
      (''StatementGetOptionInt'', ADBC_STATUS_NOT_FOUND),
      (''StatementGetOptionDouble'', ADBC_STATUS_NOT_FOUND),
      (''StatementGetParameterSchema'', ADBC_STATUS_NOT_IMPLEMENTED),
      (''StatementPrepare'', ADBC_STATUS_NOT_IMPLEMENTED),
      (''StatementSetOption'', ADBC_STATUS_NOT_IMPLEMENTED),
      (''StatementSetOptionBytes'', ADBC_STATUS_NOT_IMPLEMENTED),
      (''StatementSetOptionInt'', ADBC_STATUS_NOT_IMPLEMENTED),
      (''StatementSetOptionDouble'', ADBC_STATUS_NOT_IMPLEMENTED),
      (''StatementSetSqlQuery'', ADBC_STATUS_NOT_IMPLEMENTED),
      (''StatementSetSubstraitPlan'', ADBC_STATUS_NOT_IMPLEMENTED)]"

definition stub_status :: "string \<Rightarrow> status option" where
  "stub_status = map_of (database_stubs @ connection_stubs @ statement_stubs)"

text \<open>
  A call through the table.  A stub leaves the object and the outputs alone; the required functions
  have none.
\<close>

definition call_driver ::
  "'w driver_env \<Rightarrow> driver \<Rightarrow> string \<Rightarrow> hnd \<Rightarrow> arg list \<Rightarrow> adbc_error \<Rightarrow> 'w \<Rightarrow> exn + driver_reply \<times> 'w"
where
  "call_driver env d f h args e w =
     (case slots d f of
        Null \<Rightarrow> Inl NullDereference
      | Stub \<Rightarrow>
          (case stub_status f of
             None \<Rightarrow> Inl UndefinedBehaviour
           | Some st \<Rightarrow> Inr (\<lparr>dr_status = st, dr_data = h,
               dr_error = SetError e (''Adbc'' @ f @ '' not implemented''),
               dr_out = [], dr_stream = NoStream\<rparr>, w))
      | Own \<Rightarrow> Inr (driver_calls env (impl d) f h args e w))"

section \<open>Completing the table\<close>

definition ADBC_VERSION_1_0_0 :: int where "ADBC_VERSION_1_0_0 = 1000000"
definition ADBC_VERSION_1_1_0 :: int where "ADBC_VERSION_1_1_0 = 1001000"

datatype table_check = CHECK_REQUIRED string | FILL_DEFAULT string

definition checks_1_0_0 :: "table_check list" where
  "checks_1_0_0 =
     [CHECK_REQUIRED ''DatabaseNew'', CHECK_REQUIRED ''DatabaseInit'', CHECK_REQUIRED ''DatabaseRelease'',
      FILL_DEFAULT ''DatabaseSetOption'',
      CHECK_REQUIRED ''ConnectionNew'', CHECK_REQUIRED ''ConnectionInit'', CHECK_REQUIRED ''ConnectionRelease'',
      FILL_DEFAULT ''ConnectionCommit'', FILL_DEFAULT ''ConnectionGetInfo'', FILL_DEFAULT ''ConnectionGetObjects'',
      FILL_DEFAULT ''ConnectionGetTableSchema'', FILL_DEFAULT ''ConnectionGetTableTypes'',
      FILL_DEFAULT ''ConnectionReadPartition'', FILL_DEFAULT ''ConnectionRollback'',
      FILL_DEFAULT ''ConnectionSetOption'',
      FILL_DEFAULT ''StatementExecutePartitions'', CHECK_REQUIRED ''StatementExecuteQuery'',
      CHECK_REQUIRED ''StatementNew'', CHECK_REQUIRED ''StatementRelease'',
      FILL_DEFAULT ''StatementBind'', FILL_DEFAULT ''StatementBindStream'',
      FILL_DEFAULT ''StatementGetParameterSchema'', FILL_DEFAULT ''StatementPrepare'',
      FILL_DEFAULT ''StatementSetOption'', FILL_DEFAULT ''StatementSetSqlQuery'',
      FILL_DEFAULT ''StatementSetSubstraitPlan'']"

definition checks_1_1_0 :: "table_check list" where
  "checks_1_1_0 =
     [FILL_DEFAULT ''ErrorGetDetailCount'', FILL_DEFAULT ''ErrorGetDetail'', FILL_DEFAULT ''ErrorFromArrayStream'',
      FILL_DEFAULT ''DatabaseGetOption'', FILL_DEFAULT ''DatabaseGetOptionBytes'',
      FILL_DEFAULT ''DatabaseGetOptionDouble'', FILL_DEFAULT ''DatabaseGetOptionInt'',
      FILL_DEFAULT ''DatabaseSetOptionBytes'', FILL_DEFAULT ''DatabaseSetOptionDouble'',
      FILL_DEFAULT ''DatabaseSetOptionInt'',
      FILL_DEFAULT ''ConnectionCancel'', FILL_DEFAULT ''ConnectionGetOption'',
      FILL_DEFAULT ''ConnectionGetOptionBytes'', FILL_DEFAULT ''ConnectionGetOptionDouble'',
      FILL_DEFAULT ''ConnectionGetOptionInt'', FILL_DEFAULT ''ConnectionGetStatistics'',
      FILL_DEFAULT ''ConnectionGetStatisticNames'', FILL_DEFAULT ''ConnectionSetOptionBytes'',
      FILL_DEFAULT ''ConnectionSetOptionDouble'', FILL_DEFAULT ''ConnectionSetOptionInt'',
      FILL_DEFAULT ''StatementCancel'', FILL_DEFAULT ''StatementExecuteSchema'',
      FILL_DEFAULT ''StatementGetOption'', FILL_DEFAULT ''StatementGetOptionBytes'',
      FILL_DEFAULT ''StatementGetOptionDouble'', FILL_DEFAULT ''StatementGetOptionInt'',
      FILL_DEFAULT ''StatementSetOptionBytes'', FILL_DEFAULT ''StatementSetOptionDouble'',
      FILL_DEFAULT ''StatementSetOptionInt'']"

fun run_checks :: "table_check list \<Rightarrow> driver \<Rightarrow> adbc_error \<Rightarrow> status \<times> driver \<times> adbc_error" where
  "run_checks [] d e = (ADBC_STATUS_OK, d, e)"
| "run_checks (CHECK_REQUIRED f # cs) d e =
     (if slots d f = Null then
        (ADBC_STATUS_INTERNAL, d, SetError e (''Driver does not implement required function Adbc'' @ f))
      else run_checks cs d e)"
| "run_checks (FILL_DEFAULT f # cs) d e =
     run_checks cs (if slots d f = Null then d\<lparr>slots := (slots d)(f := Stub)\<rparr> else d) e"

text \<open>The loop over the supported versions, newest first, with the last result.\<close>

fun try_versions ::
  "(int \<Rightarrow> adbc_error \<Rightarrow> 'w \<Rightarrow> status \<times> driver_table \<times> adbc_error \<times> 'w) \<Rightarrow> int \<Rightarrow> int list \<Rightarrow>
   driver \<Rightarrow> adbc_error \<Rightarrow> 'w \<Rightarrow> status \<times> driver \<times> adbc_error \<times> 'w"
where
  "try_versions init version [] d e w = (ADBC_STATUS_NOT_IMPLEMENTED, d, e, w)"
| "try_versions init version (v # vs) d e w =
     (if v > version then try_versions init version vs d e w
      else
        (case init v e w of
           (st, t, e1, w1) \<Rightarrow>
             if st \<noteq> ADBC_STATUS_NOT_IMPLEMENTED then (st, fill_table t d, e1, w1)
             else try_versions init version vs (fill_table t d) e1 w1))"

definition AdbcLoadDriverFromInitFunc ::
  "'w driver_env \<Rightarrow> nat \<Rightarrow> int \<Rightarrow> driver option \<Rightarrow> adbc_error \<Rightarrow> 'w \<Rightarrow>
   status \<times> driver option \<times> adbc_error \<times> 'w"
where
  "AdbcLoadDriverFromInitFunc env f version raw_driver e w =
     (case raw_driver of
        None \<Rightarrow> (ADBC_STATUS_INVALID_ARGUMENT, None, SetError e ''Must provide non-NULL raw_driver'', w)
      | Some d \<Rightarrow>
          if version \<noteq> ADBC_VERSION_1_0_0 \<and> version \<noteq> ADBC_VERSION_1_1_0 then
            (ADBC_STATUS_NOT_IMPLEMENTED, Some d, SetError e ''Only ADBC 1.0.0 and 1.1.0 are supported'', w)
          else
            (case try_versions (init_funcs env f) version [ADBC_VERSION_1_1_0, ADBC_VERSION_1_0_0] d e w of
               (st, d1, e1, w1) \<Rightarrow>
                 if st \<noteq> ADBC_STATUS_OK then (st, Some d1, e1, w1)
                 else
                   (case run_checks ((if version \<ge> ADBC_VERSION_1_0_0 then checks_1_0_0 else []) @
                         (if version \<ge> ADBC_VERSION_1_1_0 then checks_1_1_0 else [])) d1 e1 of
                      (st, d2, e2) \<Rightarrow> (st, Some d2, e2, w1))))"

section \<open>Loading and releasing a driver\<close>

definition kDefaultEntrypoint :: string where
  "kDefaultEntrypoint = ''AdbcDriverInit''"

text \<open>The entrypoint: the one named, or the default for the library and then the generic one.\<close>

definition find_entrypoint :: "dl_env \<Rightarrow> loader \<Rightarrow> adbc_error \<Rightarrow> status \<times> nat option \<times> adbc_error" where
  "find_entrypoint env l e =
     (if di_entrypoint (ml_info l) \<noteq> [] then Lookup env (di_entrypoint (ml_info l)) l e
      else
        (case Lookup env (InternalAdbcDriverManagerDefaultEntrypoint (di_lib_path (ml_info l))) l e of
           (st, f, e1) \<Rightarrow>
             if st \<noteq> ADBC_STATUS_OK then Lookup env kDefaultEntrypoint l e1 else (st, f, e1)))"

definition AdbcFindLoadDriver ::
  "'w driver_env \<Rightarrow> string option \<Rightarrow> string option \<Rightarrow> int \<Rightarrow> 32 word \<Rightarrow> string option \<Rightarrow> driver option \<Rightarrow>
   adbc_error \<Rightarrow> 'w \<Rightarrow> status \<times> driver option \<times> adbc_error \<times> 'w"
where
  "AdbcFindLoadDriver env driver_name entrypoint version flags additional raw_driver e w =
     (if version \<noteq> ADBC_VERSION_1_0_0 \<and> version \<noteq> ADBC_VERSION_1_1_0 then
        (ADBC_STATUS_NOT_IMPLEMENTED, raw_driver, SetError e ''Only ADBC 1.0.0 and 1.1.0 are supported'', w)
      else
        (case (raw_driver, driver_name) of
           (None, _) \<Rightarrow> (ADBC_STATUS_INVALID_ARGUMENT, None, SetError e ''Driver pointer is null'', w)
         | (Some d, None) \<Rightarrow> (ADBC_STATUS_INVALID_ARGUMENT, Some d, SetError e ''Driver name is null'', w)
         | (Some d, Some name) \<Rightarrow>
             (let info = (case entrypoint of None \<Rightarrow> DriverInfo_new
                          | Some ep \<Rightarrow> DriverInfo_new\<lparr>di_entrypoint := ep\<rparr>);
                  paths = (case additional of None \<Rightarrow> [] | Some ps \<Rightarrow> InternalAdbcParsePath ps)
              in case GetDriverInfo (dl env) name flags paths \<lparr>ml_handle = None, ml_info = info, opened = []\<rparr> e of
                   (st, l, e1) \<Rightarrow>
                     if st \<noteq> ADBC_STATUS_OK then (st, Some (d\<lparr>drv_release := NoRelease\<rparr>), e1, w)
                     else
                       (case find_entrypoint (dl env) l e1 of
                          (st, f, e2) \<Rightarrow>
                            if st \<noteq> ADBC_STATUS_OK then (st, Some d, e2, w)
                            else
                              (case AdbcLoadDriverFromInitFunc env (the f) version (Some d) e2 w of
                                 (st, d1, e3, w1) \<Rightarrow>
                                   if st = ADBC_STATUS_OK then
                                     (st, map_option (\<lambda>t. t\<lparr>drv_release := ManagerRelease,
                                        private_manager := Some (drv_release t, ml_handle l)\<rparr>) d1, e3, w1)
                                   else (st, d1, e3, w1))))))"

definition AdbcLoadDriver ::
  "'w driver_env \<Rightarrow> string option \<Rightarrow> string option \<Rightarrow> int \<Rightarrow> driver option \<Rightarrow> adbc_error \<Rightarrow> 'w \<Rightarrow>
   status \<times> driver option \<times> adbc_error \<times> 'w"
where
  "AdbcLoadDriver env driver_name entrypoint version raw_driver e w =
     AdbcFindLoadDriver env driver_name entrypoint version ADBC_LOAD_FLAG_ALLOW_RELATIVE_PATHS None raw_driver e w"

text \<open>The library itself is never closed.\<close>

definition call_release :: "'w driver_env \<Rightarrow> driver \<Rightarrow> adbc_error \<Rightarrow> 'w \<Rightarrow> status \<times> adbc_error \<times> 'w" where
  "call_release env d e w =
     (case driver_calls env (impl d) ''release'' None [] e w of (r, w1) \<Rightarrow> (dr_status r, dr_error r, w1))"

definition ReleaseDriverInternal ::
  "'w driver_env \<Rightarrow> driver \<Rightarrow> adbc_error \<Rightarrow> 'w \<Rightarrow> status \<times> driver \<times> adbc_error \<times> 'w"
where
  "ReleaseDriverInternal env d e w =
     (case private_manager d of
        None \<Rightarrow> (ADBC_STATUS_OK, d, e, w)
      | Some (rel, lib) \<Rightarrow>
          (case (if rel \<noteq> NoRelease then call_release env d e w else (ADBC_STATUS_OK, e, w)) of
             (st, e1, w1) \<Rightarrow> (st, d\<lparr>private_manager := None\<rparr>, e1, w1)))"

text \<open>A call of the release callback of a table, if there is one.\<close>

definition release_driver :: "'w driver_env \<Rightarrow> driver \<Rightarrow> adbc_error \<Rightarrow> 'w \<Rightarrow> adbc_error \<times> 'w" where
  "release_driver env d e w =
     (case drv_release d of
        NoRelease \<Rightarrow> (e, w)
      | DriverRelease \<Rightarrow> snd (call_release env d e w)
      | ManagerRelease \<Rightarrow> (case ReleaseDriverInternal env d e w of (_, _, e1, w1) \<Rightarrow> (e1, w1)))"

section \<open>Status texts\<close>

definition AdbcStatusCodeMessage :: "status \<Rightarrow> string" where
  "AdbcStatusCodeMessage code =
     (if code = ADBC_STATUS_OK then ''OK''
      else if code = ADBC_STATUS_UNKNOWN then ''UNKNOWN''
      else if code = ADBC_STATUS_NOT_IMPLEMENTED then ''NOT_IMPLEMENTED''
      else if code = ADBC_STATUS_NOT_FOUND then ''NOT_FOUND''
      else if code = ADBC_STATUS_ALREADY_EXISTS then ''ALREADY_EXISTS''
      else if code = ADBC_STATUS_INVALID_ARGUMENT then ''INVALID_ARGUMENT''
      else if code = ADBC_STATUS_INVALID_STATE then ''INVALID_STATE''
      else if code = ADBC_STATUS_INVALID_DATA then ''INVALID_DATA''
      else if code = ADBC_STATUS_INTEGRITY then ''INTEGRITY''
      else if code = ADBC_STATUS_INTERNAL then ''INTERNAL''
      else if code = ADBC_STATUS_IO then ''IO''
      else if code = ADBC_STATUS_CANCELLED then ''CANCELLED''
      else if code = ADBC_STATUS_TIMEOUT then ''TIMEOUT''
      else if code = ADBC_STATUS_UNAUTHENTICATED then ''UNAUTHENTICATED''
      else if code = ADBC_STATUS_UNAUTHORIZED then ''UNAUTHORIZED''
      else ''(invalid code)'')"

end
