(* ===== verification/Driver_Api.thy ===== *)
theory Driver_Api
  imports Driver_Table
begin

text \<open>
  The ADBC C API as the driver manager implements it: databases, connections and statements before
  and after they are initialised, and the streams it wraps
  (src/adbc-vendor/adbc\_driver\_manager\_api.cpp).
\<close>

section \<open>Memory\<close>

text \<open>
  The objects the API allocates: the loaded drivers by address, and how many of the temporary
  structures are allocated.  \<open>ext\<close> is the world of the drivers.
\<close>

record 'w memory =
  ext :: 'w
  drivers :: "nat \<rightharpoonup> driver"
  next_driver :: nat
  temp_databases :: int
  temp_connections :: int

text \<open>What the private data of a struct points to.\<close>

datatype 't data_pointer = is_null: NullData | TempData 't | DriverData nat

record temp_connection =
  tc_options :: "(string \<times> string) list"
  tc_bytes_options :: "(string \<times> string) list"
  tc_int_options :: "(string \<times> int) list"
  tc_double_options :: "(string \<times> double) list"

definition TempConnection_new :: temp_connection where
  "TempConnection_new = \<lparr>tc_options = [], tc_bytes_options = [], tc_int_options = [], tc_double_options = []\<rparr>"

record 't object =
  private_data :: "'t data_pointer"
  private_driver :: "nat option"

type_synonym database = "temp_database object"
type_synonym connection = "temp_connection object"
type_synonym statement = "unit object"

definition null_object :: "'t object" where
  "null_object = \<lparr>private_data = NullData, private_driver = None\<rparr>"

text \<open>
  The private data as a driver sees it, and as the driver leaves it.  A driver given one of the
  manager's temporary structures would misread it.
\<close>

fun driver_data :: "'t data_pointer \<Rightarrow> exn + hnd" where
  "driver_data NullData = Inr None"
| "driver_data (DriverData n) = Inr (Some n)"
| "driver_data (TempData _) = Inl UndefinedBehaviour"

definition data_of :: "hnd \<Rightarrow> 't data_pointer" where
  "data_of h = (case h of None \<Rightarrow> NullData | Some n \<Rightarrow> DriverData n)"

text \<open>
  Every function returns a status, its outputs, a stream and the error, besides the object and the
  memory it leaves; or it fails as a C++ program does.
\<close>

record result =
  rs_status :: status
  rs_out :: "arg list"
  rs_stream :: stream
  rs_error :: adbc_error

definition result_of :: "status \<Rightarrow> adbc_error \<Rightarrow> result" where
  "result_of st e = \<lparr>rs_status = st, rs_out = [], rs_stream = NoStream, rs_error = e\<rparr>"

definition result_out :: "arg list \<Rightarrow> adbc_error \<Rightarrow> result" where
  "result_out out e = \<lparr>rs_status = ADBC_STATUS_OK, rs_out = out, rs_stream = NoStream, rs_error = e\<rparr>"

type_synonym ('t, 'w) api = "exn + result \<times> 't object \<times> 'w memory"

text \<open>
  A call of a function of the driver at an address on an object.  The address dangles when the driver
  was deleted.
\<close>

definition driver_at :: "nat \<Rightarrow> 'w memory \<Rightarrow> exn + driver" where
  "driver_at a m = (case drivers m a of None \<Rightarrow> Inl UndefinedBehaviour | Some d \<Rightarrow> Inr d)"

definition object_call ::
  "'w driver_env \<Rightarrow> nat \<Rightarrow> string \<Rightarrow> arg list \<Rightarrow> 't object \<Rightarrow> adbc_error \<Rightarrow> 'w memory \<Rightarrow> ('t, 'w) api"
where
  "object_call env a f args x e m =
     r_bind (driver_at a m) (\<lambda>d.
     r_bind (driver_data (private_data x)) (\<lambda>h.
     r_bind (call_driver env d f h args e (ext m)) (\<lambda>(r, w).
       Inr (\<lparr>rs_status = dr_status r, rs_out = dr_out r, rs_stream = dr_stream r, rs_error = dr_error r\<rparr>,
            x\<lparr>private_data := data_of (dr_data r)\<rparr>, m\<lparr>ext := w\<rparr>))))"

section \<open>Streams\<close>

text \<open>
  A stream of the driver is wrapped with the address of its driver if the driver claims support for
  errors of streams.
\<close>

definition ErrorArrayStreamInit :: "nat \<Rightarrow> 'w memory \<Rightarrow> stream \<Rightarrow> exn + stream" where
  "ErrorArrayStreamInit a m out =
     (case out of
        NoStream \<Rightarrow> Inr out
      | DriverStream s \<Rightarrow>
          r_bind (driver_at a m) (\<lambda>d.
            Inr (if slots d ''ErrorFromArrayStream'' = Stub then out else ErrorStream s a))
      | ErrorStream _ _ \<Rightarrow> Inr out)"

text \<open>
  The callbacks of a stream: the wrapper forwards to the stream inside; after its release it is
  zeroed, so that a further call goes through a null pointer.
\<close>

type_synonym 'w stream_calls = "nat \<Rightarrow> string \<Rightarrow> 'w \<Rightarrow> arg list \<times> 'w"

definition stream_call :: "'w stream_calls \<Rightarrow> string \<Rightarrow> stream \<Rightarrow> 'w memory \<Rightarrow> exn + arg list \<times> 'w memory" where
  "stream_call calls f s m =
     (case s of
        NoStream \<Rightarrow> Inl NullDereference
      | DriverStream n \<Rightarrow> (case calls n f (ext m) of (out, w) \<Rightarrow> Inr (out, m\<lparr>ext := w\<rparr>))
      | ErrorStream n _ \<Rightarrow> (case calls n f (ext m) of (out, w) \<Rightarrow> Inr (out, m\<lparr>ext := w\<rparr>)))"

definition ErrorArrayStreamGetNext :: "'w stream_calls \<Rightarrow> stream \<Rightarrow> 'w memory \<Rightarrow> exn + arg list \<times> 'w memory" where
  "ErrorArrayStreamGetNext calls = stream_call calls ''get_next''"

definition ErrorArrayStreamGetSchema :: "'w stream_calls \<Rightarrow> stream \<Rightarrow> 'w memory \<Rightarrow> exn + arg list \<times> 'w memory" where
  "ErrorArrayStreamGetSchema calls = stream_call calls ''get_schema''"

definition ErrorArrayStreamGetLastError :: "'w stream_calls \<Rightarrow> stream \<Rightarrow> 'w memory \<Rightarrow> exn + arg list \<times> 'w memory" where
  "ErrorArrayStreamGetLastError calls = stream_call calls ''get_last_error''"

definition ErrorArrayStreamRelease :: "'w stream_calls \<Rightarrow> stream \<Rightarrow> 'w memory \<Rightarrow> exn + stream \<times> 'w memory" where
  "ErrorArrayStreamRelease calls s m =
     r_bind (stream_call calls ''release'' s m) (\<lambda>(_, m1). Inr (NoStream, m1))"

section \<open>Databases before they are initialised\<close>

text \<open>Access to the temporary structure behind the private data.\<close>

definition temp_data :: "'t object \<Rightarrow> exn + 't" where
  "temp_data x =
     (case private_data x of
        NullData \<Rightarrow> Inl NullDereference | TempData t \<Rightarrow> Inr t | DriverData _ \<Rightarrow> Inl UndefinedBehaviour)"

definition answer :: "result \<Rightarrow> 't object \<Rightarrow> 'w memory \<Rightarrow> ('t, 'w) api" where
  "answer r x m = Inr (r, x, m)"

definition store_temp :: "'t \<Rightarrow> adbc_error \<Rightarrow> 't object \<Rightarrow> 'w memory \<Rightarrow> ('t, 'w) api" where
  "store_temp t e x m = answer (result_of ADBC_STATUS_OK e) (x\<lparr>private_data := TempData t\<rparr>) m"

text \<open>
  A function that goes to the driver once there is one.  \<open>INIT_ERROR\<close> only tells an error that asks for
  details which driver it comes from.
\<close>

definition or_driver ::
  "'w driver_env \<Rightarrow> string \<Rightarrow> arg list \<Rightarrow> 't object \<Rightarrow> adbc_error \<Rightarrow> 'w memory \<Rightarrow> ('t, 'w) api \<Rightarrow> ('t, 'w) api"
where
  "or_driver env f args x e m before =
     (case private_driver x of Some a \<Rightarrow> object_call env a f args x e m | None \<Rightarrow> before)"

definition AdbcDatabaseNew :: "database \<Rightarrow> adbc_error \<Rightarrow> 'w memory \<Rightarrow> (temp_database, 'w) api" where
  "AdbcDatabaseNew db e m =
     answer (result_of ADBC_STATUS_OK e) \<lparr>private_data = TempData TempDatabase_new, private_driver = None\<rparr>
       (m\<lparr>temp_databases := temp_databases m + 1\<rparr>)"

text \<open>The functions of the driver manager alone are refused after the initialisation.\<close>

definition before_init ::
  "string \<Rightarrow> (temp_database \<Rightarrow> temp_database) \<Rightarrow> database \<Rightarrow> adbc_error \<Rightarrow> 'w memory \<Rightarrow> (temp_database, 'w) api"
where
  "before_init what f db e m =
     (if private_driver db \<noteq> None then
        answer (result_of ADBC_STATUS_INVALID_STATE (SetError e (''Cannot '' @ what @ '' after AdbcDatabaseInit''))) db m
      else r_bind (temp_data db) (\<lambda>t. store_temp (f t) e db m))"

definition AdbcDriverManagerDatabaseSetProfileProvider ::
  "profile_provider option \<Rightarrow> database \<Rightarrow> adbc_error \<Rightarrow> 'w memory \<Rightarrow> (temp_database, 'w) api"
where
  "AdbcDriverManagerDatabaseSetProfileProvider provider =
     before_init ''SetProfileProvider'' (\<lambda>t. t\<lparr>td_provider := provider\<rparr>)"

definition AdbcDriverManagerDatabaseSetLoadFlags ::
  "32 word \<Rightarrow> database \<Rightarrow> adbc_error \<Rightarrow> 'w memory \<Rightarrow> (temp_database, 'w) api"
where
  "AdbcDriverManagerDatabaseSetLoadFlags flags = before_init ''SetLoadFlags'' (\<lambda>t. t\<lparr>td_load_flags := flags\<rparr>)"

definition or_empty :: "string option \<Rightarrow> string" where
  "or_empty s = (case s of None \<Rightarrow> [] | Some v \<Rightarrow> v)"

definition AdbcDriverManagerDatabaseSetAdditionalSearchPathList ::
  "string option \<Rightarrow> database \<Rightarrow> adbc_error \<Rightarrow> 'w memory \<Rightarrow> (temp_database, 'w) api"
where
  "AdbcDriverManagerDatabaseSetAdditionalSearchPathList paths =
     before_init ''SetAdditionalSearchPathList'' (\<lambda>t. t\<lparr>td_manifest_paths := or_empty paths\<rparr>)"

definition AdbcDriverManagerDatabaseSetInitFunc ::
  "nat option \<Rightarrow> database \<Rightarrow> adbc_error \<Rightarrow> 'w memory \<Rightarrow> (temp_database, 'w) api"
where
  "AdbcDriverManagerDatabaseSetInitFunc f = before_init ''SetInitFunc'' (\<lambda>t. t\<lparr>td_init_func := f\<rparr>)"

section \<open>Options of a database\<close>

text \<open>A value copied into the caller's buffer if it fits, and its length with the final zero.\<close>

definition copy_string :: "nat \<Rightarrow> string \<Rightarrow> arg list" where
  "copy_string len v = (if len \<ge> length v + 1 then [AString v] else []) @ [AInt (int (length v) + 1)]"

definition copy_bytes :: "nat \<Rightarrow> string \<Rightarrow> arg list" where
  "copy_bytes len v = (if len \<ge> length v then [ABytes v] else []) @ [AInt (int (length v))]"

definition option_not_found :: "string \<Rightarrow> adbc_error \<Rightarrow> result" where
  "option_not_found key e = result_of ADBC_STATUS_NOT_FOUND (SetError e (''Option not found: '' @ key))"

definition found_option :: "string \<Rightarrow> ('v \<Rightarrow> arg list) \<Rightarrow> (string \<times> 'v) list \<Rightarrow> adbc_error \<Rightarrow> result" where
  "found_option key out m e =
     (case map_of m key of None \<Rightarrow> option_not_found key e | Some v \<Rightarrow> result_out (out v) e)"

definition AdbcDatabaseGetOption ::
  "'w driver_env \<Rightarrow> string \<Rightarrow> nat \<Rightarrow> database \<Rightarrow> adbc_error \<Rightarrow> 'w memory \<Rightarrow> (temp_database, 'w) api"
where
  "AdbcDatabaseGetOption env key len db e m =
     or_driver env ''DatabaseGetOption'' [AString key, AInt (int len)] db e m
       (r_bind (temp_data db) (\<lambda>t.
          answer (if key = ''driver'' then result_out (copy_string len (td_driver t)) e
                  else if key = ''entrypoint'' then result_out (copy_string len (td_entrypoint t)) e
                  else found_option key (copy_string len) (td_options t) e) db m))"

definition AdbcDatabaseGetOptionBytes ::
  "'w driver_env \<Rightarrow> string \<Rightarrow> nat \<Rightarrow> database \<Rightarrow> adbc_error \<Rightarrow> 'w memory \<Rightarrow> (temp_database, 'w) api"
where
  "AdbcDatabaseGetOptionBytes env key len db e m =
     or_driver env ''DatabaseGetOptionBytes'' [AString key, AInt (int len)] db e m
       (r_bind (temp_data db) (\<lambda>t.
          answer (found_option key (copy_bytes len) (td_bytes_options t) e) db m))"

definition AdbcDatabaseGetOptionInt ::
  "'w driver_env \<Rightarrow> string \<Rightarrow> database \<Rightarrow> adbc_error \<Rightarrow> 'w memory \<Rightarrow> (temp_database, 'w) api"
where
  "AdbcDatabaseGetOptionInt env key db e m =
     or_driver env ''DatabaseGetOptionInt'' [AString key] db e m
       (r_bind (temp_data db) (\<lambda>t.
          answer (found_option key (\<lambda>v. [AInt v]) (td_int_options t) e) db m))"

definition AdbcDatabaseGetOptionDouble ::
  "'w driver_env \<Rightarrow> string \<Rightarrow> database \<Rightarrow> adbc_error \<Rightarrow> 'w memory \<Rightarrow> (temp_database, 'w) api"
where
  "AdbcDatabaseGetOptionDouble env key db e m =
     or_driver env ''DatabaseGetOptionDouble'' [AString key] db e m
       (r_bind (temp_data db) (\<lambda>t.
          answer (found_option key (\<lambda>v. [ADouble v]) (td_double_options t) e) db m))"

text \<open>The setters check that there is a temporary structure; a null value is only taken by the path lists.\<close>

definition set_before_init ::
  "string \<Rightarrow> (temp_database \<Rightarrow> exn + temp_database) \<Rightarrow> database \<Rightarrow> adbc_error \<Rightarrow> 'w memory \<Rightarrow>
   (temp_database, 'w) api"
where
  "set_before_init name f db e m =
     (if is_null (private_data db) then
        answer (result_of ADBC_STATUS_INVALID_STATE (SetError e (name @ '': database not initialized''))) db m
      else r_bind (temp_data db) (\<lambda>t. r_bind (f t) (\<lambda>t1. store_temp t1 e db m)))"

definition non_null :: "'a option \<Rightarrow> exn + 'a" where
  "non_null v = (case v of None \<Rightarrow> Inl NullDereference | Some x \<Rightarrow> Inr x)"

definition set_string_option :: "string \<Rightarrow> string option \<Rightarrow> temp_database \<Rightarrow> exn + temp_database" where
  "set_string_option key v t =
     (if key = ''driver'' then r_bind (non_null v) (\<lambda>s. Inr (t\<lparr>td_driver := s\<rparr>))
      else if key = ''entrypoint'' then r_bind (non_null v) (\<lambda>s. Inr (t\<lparr>td_entrypoint := s\<rparr>))
      else if key = ''additional_manifest_search_path_list'' then Inr (t\<lparr>td_manifest_paths := or_empty v\<rparr>)
      else if key = ''additional_profile_search_path_list'' then Inr (t\<lparr>td_profile_paths := or_empty v\<rparr>)
      else r_bind (non_null v) (\<lambda>s. Inr (t\<lparr>td_options := AList.update key s (td_options t)\<rparr>)))"

definition arg_of :: "string option \<Rightarrow> arg" where
  "arg_of v = (case v of None \<Rightarrow> AHandle None | Some s \<Rightarrow> AString s)"

definition AdbcDatabaseSetOption ::
  "'w driver_env \<Rightarrow> string \<Rightarrow> string option \<Rightarrow> database \<Rightarrow> adbc_error \<Rightarrow> 'w memory \<Rightarrow> (temp_database, 'w) api"
where
  "AdbcDatabaseSetOption env key v db e m =
     or_driver env ''DatabaseSetOption'' [AString key, arg_of v] db e m
       (set_before_init ''AdbcDatabaseSetOption'' (set_string_option key v) db e m)"

definition AdbcDatabaseSetOptionBytes ::
  "'w driver_env \<Rightarrow> string \<Rightarrow> string \<Rightarrow> database \<Rightarrow> adbc_error \<Rightarrow> 'w memory \<Rightarrow> (temp_database, 'w) api"
where
  "AdbcDatabaseSetOptionBytes env key v db e m =
     or_driver env ''DatabaseSetOptionBytes'' [AString key, ABytes v] db e m
       (set_before_init ''AdbcDatabaseSetOptionBytes''
          (\<lambda>t. Inr (t\<lparr>td_bytes_options := AList.update key v (td_bytes_options t)\<rparr>)) db e m)"

definition AdbcDatabaseSetOptionInt ::
  "'w driver_env \<Rightarrow> string \<Rightarrow> int \<Rightarrow> database \<Rightarrow> adbc_error \<Rightarrow> 'w memory \<Rightarrow> (temp_database, 'w) api"
where
  "AdbcDatabaseSetOptionInt env key v db e m =
     or_driver env ''DatabaseSetOptionInt'' [AString key, AInt v] db e m
       (set_before_init ''AdbcDatabaseSetOptionInt''
          (\<lambda>t. Inr (t\<lparr>td_int_options := AList.update key v (td_int_options t)\<rparr>)) db e m)"

definition AdbcDatabaseSetOptionDouble ::
  "'w driver_env \<Rightarrow> string \<Rightarrow> double \<Rightarrow> database \<Rightarrow> adbc_error \<Rightarrow> 'w memory \<Rightarrow> (temp_database, 'w) api"
where
  "AdbcDatabaseSetOptionDouble env key v db e m =
     or_driver env ''DatabaseSetOptionDouble'' [AString key, ADouble v] db e m
       (set_before_init ''AdbcDatabaseSetOptionDouble''
          (\<lambda>t. Inr (t\<lparr>td_double_options := AList.update key v (td_double_options t)\<rparr>)) db e m)"

section \<open>Initialising and releasing a database\<close>

text \<open>The driver of a database: by its init function, or by its name.\<close>

definition load_database_driver ::
  "'w driver_env \<Rightarrow> temp_database \<Rightarrow> adbc_error \<Rightarrow> 'w \<Rightarrow> status \<times> driver option \<times> adbc_error \<times> 'w"
where
  "load_database_driver env args e w =
     (case td_init_func args of
        Some f \<Rightarrow> AdbcLoadDriverFromInitFunc env f ADBC_VERSION_1_1_0 (Some empty_driver) e w
      | None \<Rightarrow>
          AdbcFindLoadDriver env (Some (td_driver args))
            (if td_entrypoint args = [] then None else Some (td_entrypoint args)) ADBC_VERSION_1_1_0
            (td_load_flags args)
            (if td_manifest_paths args = [] then None else Some (td_manifest_paths args))
            (Some empty_driver) e w)"

text \<open>
  A loop over options, which stops at the first one refused.  The status before the loop is kept when
  there are none.
\<close>

fun send_options ::
  "'w driver_env \<Rightarrow> nat \<Rightarrow> string \<Rightarrow> ('v \<Rightarrow> arg) \<Rightarrow> (string \<times> 'v) list \<Rightarrow> status \<Rightarrow> 't object \<Rightarrow>
   adbc_error \<Rightarrow> 'w memory \<Rightarrow> exn + status \<times> 't object \<times> adbc_error \<times> 'w memory"
where
  "send_options env a f mk [] st x e m = Inr (st, x, e, m)"
| "send_options env a f mk ((k, v) # opts) st x e m =
     r_bind (object_call env a f [AString k, mk v] x e m) (\<lambda>(r, x1, m1).
       if rs_status r \<noteq> ADBC_STATUS_OK then Inr (rs_status r, x1, rs_error r, m1)
       else send_options env a f mk opts (rs_status r) x1 (rs_error r) m1)"

definition delete_driver :: "nat \<Rightarrow> 'w memory \<Rightarrow> 'w memory" where
  "delete_driver a m = m\<lparr>drivers := (drivers m)(a := None)\<rparr>"

text \<open>
  The end of a database whose driver refused it: the driver's error is copied and the driver released
  if it has a release callback, and deleted.
\<close>

definition abandon_driver ::
  "'w driver_env \<Rightarrow> nat \<Rightarrow> adbc_error \<Rightarrow> adbc_error \<Rightarrow> 'w memory \<Rightarrow> exn + adbc_error \<times> 'w memory"
where
  "abandon_driver env a driver_error e m =
     r_bind (driver_at a m) (\<lambda>d.
       Inr (if drv_release d \<noteq> NoRelease
            then (fst (SetError_from e driver_error),
                  delete_driver a (m\<lparr>ext := snd (release_driver env d no_error (ext m))\<rparr>))
            else (e, delete_driver a m)))"

definition send_all_options ::
  "'w driver_env \<Rightarrow> nat \<Rightarrow> temp_database \<Rightarrow> database \<Rightarrow> adbc_error \<Rightarrow> 'w memory \<Rightarrow>
   exn + status \<times> database \<times> adbc_error \<times> 'w memory"
where
  "send_all_options env a args db e m =
     r_bind (send_options env a ''DatabaseSetOption'' AString (td_options args) ADBC_STATUS_OK db e m)
       (\<lambda>(st, db1, e1, m1).
     r_bind (send_options env a ''DatabaseSetOptionBytes'' ABytes (td_bytes_options args) st db1 e1 m1)
       (\<lambda>(st, db2, e2, m2).
     r_bind (send_options env a ''DatabaseSetOptionInt'' AInt (td_int_options args) st db2 e2 m2)
       (\<lambda>(st, db3, e3, m3).
     send_options env a ''DatabaseSetOptionDouble'' ADouble (td_double_options args) st db3 e3 m3)))"

text \<open>
  From the driver's \<open>DatabaseNew\<close> on.  The temporary structure is deleted only after that succeeded.
\<close>

definition configure_database ::
  "'w driver_env \<Rightarrow> nat \<Rightarrow> temp_database \<Rightarrow> database \<Rightarrow> adbc_error \<Rightarrow> 'w memory \<Rightarrow> (temp_database, 'w) api"
where
  "configure_database env a args db e m =
     r_bind (object_call env a ''DatabaseNew'' [] db no_error m) (\<lambda>(r, db1, m1).
       if rs_status r \<noteq> ADBC_STATUS_OK then
         r_bind (abandon_driver env a (rs_error r) e m1) (\<lambda>(e1, m2).
           answer (result_of (rs_status r) e1) (db1\<lparr>private_driver := None\<rparr>) m2)
       else
         r_bind (send_all_options env a args db1 (rs_error r) (m1\<lparr>temp_databases := temp_databases m1 - 1\<rparr>))
           (\<lambda>(st, db2, de, m2).
              if st \<noteq> ADBC_STATUS_OK then
                r_bind (object_call env a ''DatabaseRelease'' [] db2 no_error m2) (\<lambda>(_, db3, m3).
                r_bind (abandon_driver env a de e m3) (\<lambda>(e1, m4).
                  answer (result_of st e1) null_object m4))
              else object_call env a ''DatabaseInit'' [] db2 e m2))"

definition AdbcDatabaseInit ::
  "'w driver_env \<Rightarrow> database \<Rightarrow> adbc_error \<Rightarrow> 'w memory \<Rightarrow> (temp_database, 'w) api"
where
  "AdbcDatabaseInit env db e m =
     (if is_null (private_data db) then
        answer (result_of ADBC_STATUS_INVALID_STATE
          (SetError e ''Must call AdbcDatabaseNew before AdbcDatabaseInit'')) db m
      else r_bind (temp_data db) (\<lambda>args0.
        case InternalAdbcParseOptions (fs_env.truncate (dl env)) args0 e of
          (st, args, e1) \<Rightarrow>
            if st \<noteq> ADBC_STATUS_OK then answer (result_of st e1) (db\<lparr>private_data := TempData args\<rparr>) m
            else
              (case load_database_driver env args e1 (ext m) of
                 (st, d, e2, w) \<Rightarrow>
                   let a = next_driver m; m1 = m\<lparr>next_driver := Suc a\<rparr> in
                   if st \<noteq> ADBC_STATUS_OK then
                     (case release_driver env (the d) e2 w of
                        (e3, w1) \<Rightarrow>
                          answer (result_of st e3) \<lparr>private_data = TempData args, private_driver = None\<rparr>
                            (m1\<lparr>ext := w1\<rparr>))
                   else
                     configure_database env a args \<lparr>private_data = NullData, private_driver = Some a\<rparr> e2
                       (m1\<lparr>ext := w, drivers := (drivers m)(a \<mapsto> the d)\<rparr>))))"

definition AdbcDatabaseRelease ::
  "'w driver_env \<Rightarrow> database \<Rightarrow> adbc_error \<Rightarrow> 'w memory \<Rightarrow> (temp_database, 'w) api"
where
  "AdbcDatabaseRelease env db e m =
     (case private_driver db of
        None \<Rightarrow>
          if \<not> is_null (private_data db) then
            r_bind (temp_data db) (\<lambda>_. answer (result_of ADBC_STATUS_OK e) (db\<lparr>private_data := NullData\<rparr>)
              (m\<lparr>temp_databases := temp_databases m - 1\<rparr>))
          else answer (result_of ADBC_STATUS_INVALID_STATE e) db m
      | Some a \<Rightarrow>
          r_bind (object_call env a ''DatabaseRelease'' [] db e m) (\<lambda>(r, db1, m1).
          r_bind (driver_at a m1) (\<lambda>d.
            (case release_driver env d (rs_error r) (ext m1) of
               (e1, w) \<Rightarrow> answer (r\<lparr>rs_error := e1\<rparr>) null_object (delete_driver a (m1\<lparr>ext := w\<rparr>))))))"

end
