(* ===== verification/Driver_Connections.thy ===== *)
theory Driver_Connections
  imports Driver_Api
begin

text \<open>
  The functions of the ADBC C API on connections and statements
  (src/adbc-vendor/adbc\_driver\_manager\_api.cpp).  Arguments that are only passed on to the driver are
  one list.
\<close>

section \<open>Connections\<close>

text \<open>
  Most functions of a connection or a statement only check that it has a driver and pass the call on;
  some wrap the stream they get.
\<close>

definition guarded ::
  "'w driver_env \<Rightarrow> string \<Rightarrow> string \<Rightarrow> string \<Rightarrow> arg list \<Rightarrow> 't object \<Rightarrow> adbc_error \<Rightarrow> 'w memory \<Rightarrow> ('t, 'w) api"
where
  "guarded env name before f args x e m =
     (case private_driver x of
        None \<Rightarrow> answer (result_of ADBC_STATUS_INVALID_STATE
            (SetError e (name @ '': must call '' @ before @ '' first''))) x m
      | Some a \<Rightarrow> object_call env a f args x e m)"

definition WRAP_STREAM :: "bool \<Rightarrow> 't object \<Rightarrow> ('t, 'w) api \<Rightarrow> ('t, 'w) api" where
  "WRAP_STREAM out x call =
     (case private_driver x of
        None \<Rightarrow> call
      | Some a \<Rightarrow>
          if \<not> out then call
          else r_bind call (\<lambda>(r, x1, m1).
            r_bind (ErrorArrayStreamInit a m1 (rs_stream r)) (\<lambda>s. Inr (r\<lparr>rs_stream := s\<rparr>, x1, m1))))"

definition connection_call ::
  "'w driver_env \<Rightarrow> string \<Rightarrow> arg list \<Rightarrow> connection \<Rightarrow> adbc_error \<Rightarrow> 'w memory \<Rightarrow> (temp_connection, 'w) api"
where
  "connection_call env f = guarded env (''Adbc'' @ f) ''AdbcConnectionNew'' f"

definition connection_stream ::
  "'w driver_env \<Rightarrow> string \<Rightarrow> arg list \<Rightarrow> bool \<Rightarrow> connection \<Rightarrow> adbc_error \<Rightarrow> 'w memory \<Rightarrow>
   (temp_connection, 'w) api"
where
  "connection_stream env f args out c e m = WRAP_STREAM out c (connection_call env f args c e m)"

definition AdbcConnectionCancel ::
  "'w driver_env \<Rightarrow> arg list \<Rightarrow> connection \<Rightarrow> adbc_error \<Rightarrow> 'w memory \<Rightarrow> (temp_connection, 'w) api"
where
  "AdbcConnectionCancel env = connection_call env ''ConnectionCancel''"

definition AdbcConnectionCommit ::
  "'w driver_env \<Rightarrow> arg list \<Rightarrow> connection \<Rightarrow> adbc_error \<Rightarrow> 'w memory \<Rightarrow> (temp_connection, 'w) api"
where
  "AdbcConnectionCommit env = connection_call env ''ConnectionCommit''"

definition AdbcConnectionRollback ::
  "'w driver_env \<Rightarrow> arg list \<Rightarrow> connection \<Rightarrow> adbc_error \<Rightarrow> 'w memory \<Rightarrow> (temp_connection, 'w) api"
where
  "AdbcConnectionRollback env = connection_call env ''ConnectionRollback''"

definition AdbcConnectionGetTableSchema ::
  "'w driver_env \<Rightarrow> arg list \<Rightarrow> connection \<Rightarrow> adbc_error \<Rightarrow> 'w memory \<Rightarrow> (temp_connection, 'w) api"
where
  "AdbcConnectionGetTableSchema env = connection_call env ''ConnectionGetTableSchema''"

definition AdbcConnectionGetInfo ::
  "'w driver_env \<Rightarrow> arg list \<Rightarrow> bool \<Rightarrow> connection \<Rightarrow> adbc_error \<Rightarrow> 'w memory \<Rightarrow> (temp_connection, 'w) api"
where
  "AdbcConnectionGetInfo env = connection_stream env ''ConnectionGetInfo''"

definition AdbcConnectionGetObjects ::
  "'w driver_env \<Rightarrow> arg list \<Rightarrow> bool \<Rightarrow> connection \<Rightarrow> adbc_error \<Rightarrow> 'w memory \<Rightarrow> (temp_connection, 'w) api"
where
  "AdbcConnectionGetObjects env = connection_stream env ''ConnectionGetObjects''"

definition AdbcConnectionGetStatistics ::
  "'w driver_env \<Rightarrow> arg list \<Rightarrow> bool \<Rightarrow> connection \<Rightarrow> adbc_error \<Rightarrow> 'w memory \<Rightarrow> (temp_connection, 'w) api"
where
  "AdbcConnectionGetStatistics env = connection_stream env ''ConnectionGetStatistics''"

definition AdbcConnectionGetStatisticNames ::
  "'w driver_env \<Rightarrow> arg list \<Rightarrow> bool \<Rightarrow> connection \<Rightarrow> adbc_error \<Rightarrow> 'w memory \<Rightarrow> (temp_connection, 'w) api"
where
  "AdbcConnectionGetStatisticNames env = connection_stream env ''ConnectionGetStatisticNames''"

definition AdbcConnectionGetTableTypes ::
  "'w driver_env \<Rightarrow> arg list \<Rightarrow> bool \<Rightarrow> connection \<Rightarrow> adbc_error \<Rightarrow> 'w memory \<Rightarrow> (temp_connection, 'w) api"
where
  "AdbcConnectionGetTableTypes env = connection_stream env ''ConnectionGetTableTypes''"

definition AdbcConnectionReadPartition ::
  "'w driver_env \<Rightarrow> arg list \<Rightarrow> bool \<Rightarrow> connection \<Rightarrow> adbc_error \<Rightarrow> 'w memory \<Rightarrow> (temp_connection, 'w) api"
where
  "AdbcConnectionReadPartition env = connection_stream env ''ConnectionReadPartition''"

section \<open>Options of a connection\<close>

text \<open>
  Before the initialisation the options are kept in the temporary structure; all variants report a
  missing one under the name of the first.
\<close>

definition connection_option ::
  "'w driver_env \<Rightarrow> string \<Rightarrow> string \<Rightarrow> arg list \<Rightarrow> connection \<Rightarrow> adbc_error \<Rightarrow> 'w memory \<Rightarrow>
   (temp_connection \<Rightarrow> (temp_connection, 'w) api) \<Rightarrow> (temp_connection, 'w) api"
where
  "connection_option env name f args c e m before =
     (if is_null (private_data c) then
        answer (result_of ADBC_STATUS_INVALID_STATE (SetError e (name @ '': must call AdbcConnectionNew first''))) c m
      else or_driver env f args c e m (r_bind (temp_data c) before))"

definition saved_option :: "string \<Rightarrow> ('v \<Rightarrow> arg list) \<Rightarrow> (string \<times> 'v) list \<Rightarrow> adbc_error \<Rightarrow> result" where
  "saved_option key out m e =
     (case map_of m key of None \<Rightarrow> result_of ADBC_STATUS_NOT_FOUND e | Some v \<Rightarrow> result_out (out v) e)"

definition AdbcConnectionGetOption ::
  "'w driver_env \<Rightarrow> string \<Rightarrow> nat \<Rightarrow> connection \<Rightarrow> adbc_error \<Rightarrow> 'w memory \<Rightarrow> (temp_connection, 'w) api"
where
  "AdbcConnectionGetOption env key len c e m =
     connection_option env ''AdbcConnectionGetOption'' ''ConnectionGetOption'' [AString key, AInt (int len)] c e m
       (\<lambda>t. answer (saved_option key (copy_string len) (tc_options t) e) c m)"

definition AdbcConnectionGetOptionBytes ::
  "'w driver_env \<Rightarrow> string \<Rightarrow> nat \<Rightarrow> connection \<Rightarrow> adbc_error \<Rightarrow> 'w memory \<Rightarrow> (temp_connection, 'w) api"
where
  "AdbcConnectionGetOptionBytes env key len c e m =
     connection_option env ''AdbcConnectionGetOption'' ''ConnectionGetOptionBytes'' [AString key, AInt (int len)] c e m
       (\<lambda>t. answer (saved_option key (copy_bytes len) (tc_bytes_options t) e) c m)"

definition AdbcConnectionGetOptionInt ::
  "'w driver_env \<Rightarrow> string \<Rightarrow> connection \<Rightarrow> adbc_error \<Rightarrow> 'w memory \<Rightarrow> (temp_connection, 'w) api"
where
  "AdbcConnectionGetOptionInt env key c e m =
     connection_option env ''AdbcConnectionGetOption'' ''ConnectionGetOptionInt'' [AString key] c e m
       (\<lambda>t. answer (saved_option key (\<lambda>v. [AInt v]) (tc_int_options t) e) c m)"

definition AdbcConnectionGetOptionDouble ::
  "'w driver_env \<Rightarrow> string \<Rightarrow> connection \<Rightarrow> adbc_error \<Rightarrow> 'w memory \<Rightarrow> (temp_connection, 'w) api"
where
  "AdbcConnectionGetOptionDouble env key c e m =
     connection_option env ''AdbcConnectionGetOption'' ''ConnectionGetOptionDouble'' [AString key] c e m
       (\<lambda>t. answer (saved_option key (\<lambda>v. [ADouble v]) (tc_double_options t) e) c m)"

definition AdbcConnectionSetOption ::
  "'w driver_env \<Rightarrow> string \<Rightarrow> string option \<Rightarrow> connection \<Rightarrow> adbc_error \<Rightarrow> 'w memory \<Rightarrow> (temp_connection, 'w) api"
where
  "AdbcConnectionSetOption env key v c e m =
     connection_option env ''AdbcConnectionSetOption'' ''ConnectionSetOption'' [AString key, arg_of v] c e m
       (\<lambda>t. r_bind (non_null v) (\<lambda>s. store_temp (t\<lparr>tc_options := AList.update key s (tc_options t)\<rparr>) e c m))"

definition AdbcConnectionSetOptionBytes ::
  "'w driver_env \<Rightarrow> string \<Rightarrow> string \<Rightarrow> connection \<Rightarrow> adbc_error \<Rightarrow> 'w memory \<Rightarrow> (temp_connection, 'w) api"
where
  "AdbcConnectionSetOptionBytes env key v c e m =
     connection_option env ''AdbcConnectionSetOption'' ''ConnectionSetOptionBytes'' [AString key, ABytes v] c e m
       (\<lambda>t. store_temp (t\<lparr>tc_bytes_options := AList.update key v (tc_bytes_options t)\<rparr>) e c m)"

definition AdbcConnectionSetOptionInt ::
  "'w driver_env \<Rightarrow> string \<Rightarrow> int \<Rightarrow> connection \<Rightarrow> adbc_error \<Rightarrow> 'w memory \<Rightarrow> (temp_connection, 'w) api"
where
  "AdbcConnectionSetOptionInt env key v c e m =
     connection_option env ''AdbcConnectionSetOption'' ''ConnectionSetOptionInt'' [AString key, AInt v] c e m
       (\<lambda>t. store_temp (t\<lparr>tc_int_options := AList.update key v (tc_int_options t)\<rparr>) e c m)"

definition AdbcConnectionSetOptionDouble ::
  "'w driver_env \<Rightarrow> string \<Rightarrow> double \<Rightarrow> connection \<Rightarrow> adbc_error \<Rightarrow> 'w memory \<Rightarrow> (temp_connection, 'w) api"
where
  "AdbcConnectionSetOptionDouble env key v c e m =
     connection_option env ''AdbcConnectionSetOption'' ''ConnectionSetOptionDouble'' [AString key, ADouble v] c e m
       (\<lambda>t. store_temp (t\<lparr>tc_double_options := AList.update key v (tc_double_options t)\<rparr>) e c m)"

section \<open>Initialising and releasing a connection\<close>

definition AdbcConnectionNew :: "connection \<Rightarrow> adbc_error \<Rightarrow> 'w memory \<Rightarrow> (temp_connection, 'w) api" where
  "AdbcConnectionNew c e m =
     answer (result_of ADBC_STATUS_OK e) \<lparr>private_data = TempData TempConnection_new, private_driver = None\<rparr>
       (m\<lparr>temp_connections := temp_connections m + 1\<rparr>)"

text \<open>The saved options in turn; the first one refused ends the initialisation.\<close>

definition then_options ::
  "'w driver_env \<Rightarrow> nat \<Rightarrow> string \<Rightarrow> ('v \<Rightarrow> arg) \<Rightarrow> (string \<times> 'v) list \<Rightarrow>
   (connection \<Rightarrow> adbc_error \<Rightarrow> 'w memory \<Rightarrow> (temp_connection, 'w) api) \<Rightarrow>
   connection \<Rightarrow> adbc_error \<Rightarrow> 'w memory \<Rightarrow> (temp_connection, 'w) api"
where
  "then_options env a f mk opts continue c e m =
     r_bind (send_options env a f mk opts ADBC_STATUS_OK c e m) (\<lambda>(st, c1, e1, m1).
       if st \<noteq> ADBC_STATUS_OK then answer (result_of st e1) c1 m1 else continue c1 e1 m1)"

definition AdbcConnectionInit ::
  "'w driver_env \<Rightarrow> connection \<Rightarrow> database \<Rightarrow> adbc_error \<Rightarrow> 'w memory \<Rightarrow> (temp_connection, 'w) api"
where
  "AdbcConnectionInit env c db e m =
     (if is_null (private_data c) then
        answer (result_of ADBC_STATUS_INVALID_STATE (SetError e ''Must call AdbcConnectionNew first'')) c m
      else
        (case private_driver db of
           None \<Rightarrow> answer (result_of ADBC_STATUS_INVALID_ARGUMENT (SetError e ''Database is not initialized'')) c m
         | Some a \<Rightarrow>
             r_bind (temp_data c) (\<lambda>t.
             r_bind (driver_data (private_data db)) (\<lambda>h.
             r_bind (object_call env a ''ConnectionNew'' [] (c\<lparr>private_data := NullData\<rparr>) e
                 (m\<lparr>temp_connections := temp_connections m - 1\<rparr>)) (\<lambda>(r, c1, m1).
               if rs_status r \<noteq> ADBC_STATUS_OK then answer r c1 m1
               else
                 then_options env a ''ConnectionSetOption'' AString (tc_options t)
                   (then_options env a ''ConnectionSetOptionBytes'' ABytes (tc_bytes_options t)
                     (then_options env a ''ConnectionSetOptionInt'' AInt (tc_int_options t)
                       (then_options env a ''ConnectionSetOptionDouble'' ADouble (tc_double_options t)
                         (object_call env a ''ConnectionInit'' [AHandle h]))))
                   (c1\<lparr>private_driver := Some a\<rparr>) (rs_error r) m1)))))"

definition AdbcConnectionRelease ::
  "'w driver_env \<Rightarrow> connection \<Rightarrow> adbc_error \<Rightarrow> 'w memory \<Rightarrow> (temp_connection, 'w) api"
where
  "AdbcConnectionRelease env c e m =
     (case private_driver c of
        None \<Rightarrow>
          if \<not> is_null (private_data c) then
            r_bind (temp_data c) (\<lambda>_. answer (result_of ADBC_STATUS_OK e) (c\<lparr>private_data := NullData\<rparr>)
              (m\<lparr>temp_connections := temp_connections m - 1\<rparr>))
          else answer (result_of ADBC_STATUS_INVALID_STATE e) c m
      | Some a \<Rightarrow>
          r_bind (object_call env a ''ConnectionRelease'' [] c e m) (\<lambda>(r, c1, m1).
            answer r (c1\<lparr>private_driver := None\<rparr>) m1))"

section \<open>Statements\<close>

definition statement_call ::
  "'w driver_env \<Rightarrow> string \<Rightarrow> arg list \<Rightarrow> statement \<Rightarrow> adbc_error \<Rightarrow> 'w memory \<Rightarrow> (unit, 'w) api"
where
  "statement_call env f = guarded env (''Adbc'' @ f) ''AdbcStatementNew'' f"

definition statement_stream ::
  "'w driver_env \<Rightarrow> string \<Rightarrow> arg list \<Rightarrow> bool \<Rightarrow> statement \<Rightarrow> adbc_error \<Rightarrow> 'w memory \<Rightarrow> (unit, 'w) api"
where
  "statement_stream env f args out s e m = WRAP_STREAM out s (statement_call env f args s e m)"

definition AdbcStatementNew ::
  "'w driver_env \<Rightarrow> connection \<Rightarrow> statement \<Rightarrow> adbc_error \<Rightarrow> 'w memory \<Rightarrow> (unit, 'w) api"
where
  "AdbcStatementNew env c s e m =
     (case private_driver c of
        None \<Rightarrow> answer (result_of ADBC_STATUS_INVALID_STATE
            (SetError e ''AdbcStatementNew: must call AdbcConnectionInit first'')) s m
      | Some a \<Rightarrow>
          r_bind (driver_data (private_data c)) (\<lambda>h.
          r_bind (object_call env a ''StatementNew'' [AHandle h] s e m) (\<lambda>(r, s1, m1).
            answer r (s1\<lparr>private_driver := Some a\<rparr>) m1)))"

definition AdbcStatementRelease ::
  "'w driver_env \<Rightarrow> statement \<Rightarrow> adbc_error \<Rightarrow> 'w memory \<Rightarrow> (unit, 'w) api"
where
  "AdbcStatementRelease env s e m =
     r_bind (statement_call env ''StatementRelease'' [] s e m) (\<lambda>(r, s1, m1).
       answer r (s1\<lparr>private_driver := None\<rparr>) m1)"

definition AdbcStatementExecuteQuery ::
  "'w driver_env \<Rightarrow> arg list \<Rightarrow> bool \<Rightarrow> statement \<Rightarrow> adbc_error \<Rightarrow> 'w memory \<Rightarrow> (unit, 'w) api"
where
  "AdbcStatementExecuteQuery env = statement_stream env ''StatementExecuteQuery''"

definition AdbcStatementBind ::
  "'w driver_env \<Rightarrow> arg list \<Rightarrow> statement \<Rightarrow> adbc_error \<Rightarrow> 'w memory \<Rightarrow> (unit, 'w) api"
where
  "AdbcStatementBind env = statement_call env ''StatementBind''"

definition AdbcStatementBindStream ::
  "'w driver_env \<Rightarrow> arg list \<Rightarrow> statement \<Rightarrow> adbc_error \<Rightarrow> 'w memory \<Rightarrow> (unit, 'w) api"
where
  "AdbcStatementBindStream env = statement_call env ''StatementBindStream''"

definition AdbcStatementCancel ::
  "'w driver_env \<Rightarrow> arg list \<Rightarrow> statement \<Rightarrow> adbc_error \<Rightarrow> 'w memory \<Rightarrow> (unit, 'w) api"
where
  "AdbcStatementCancel env = statement_call env ''StatementCancel''"

definition AdbcStatementExecutePartitions ::
  "'w driver_env \<Rightarrow> arg list \<Rightarrow> statement \<Rightarrow> adbc_error \<Rightarrow> 'w memory \<Rightarrow> (unit, 'w) api"
where
  "AdbcStatementExecutePartitions env = statement_call env ''StatementExecutePartitions''"

definition AdbcStatementExecuteSchema ::
  "'w driver_env \<Rightarrow> arg list \<Rightarrow> statement \<Rightarrow> adbc_error \<Rightarrow> 'w memory \<Rightarrow> (unit, 'w) api"
where
  "AdbcStatementExecuteSchema env = statement_call env ''StatementExecuteSchema''"

definition AdbcStatementGetOption ::
  "'w driver_env \<Rightarrow> arg list \<Rightarrow> statement \<Rightarrow> adbc_error \<Rightarrow> 'w memory \<Rightarrow> (unit, 'w) api"
where
  "AdbcStatementGetOption env = statement_call env ''StatementGetOption''"

definition AdbcStatementGetOptionBytes ::
  "'w driver_env \<Rightarrow> arg list \<Rightarrow> statement \<Rightarrow> adbc_error \<Rightarrow> 'w memory \<Rightarrow> (unit, 'w) api"
where
  "AdbcStatementGetOptionBytes env = statement_call env ''StatementGetOptionBytes''"

definition AdbcStatementGetOptionInt ::
  "'w driver_env \<Rightarrow> arg list \<Rightarrow> statement \<Rightarrow> adbc_error \<Rightarrow> 'w memory \<Rightarrow> (unit, 'w) api"
where
  "AdbcStatementGetOptionInt env = statement_call env ''StatementGetOptionInt''"

definition AdbcStatementGetOptionDouble ::
  "'w driver_env \<Rightarrow> arg list \<Rightarrow> statement \<Rightarrow> adbc_error \<Rightarrow> 'w memory \<Rightarrow> (unit, 'w) api"
where
  "AdbcStatementGetOptionDouble env = statement_call env ''StatementGetOptionDouble''"

definition AdbcStatementGetParameterSchema ::
  "'w driver_env \<Rightarrow> arg list \<Rightarrow> statement \<Rightarrow> adbc_error \<Rightarrow> 'w memory \<Rightarrow> (unit, 'w) api"
where
  "AdbcStatementGetParameterSchema env = statement_call env ''StatementGetParameterSchema''"

definition AdbcStatementPrepare ::
  "'w driver_env \<Rightarrow> arg list \<Rightarrow> statement \<Rightarrow> adbc_error \<Rightarrow> 'w memory \<Rightarrow> (unit, 'w) api"
where
  "AdbcStatementPrepare env = statement_call env ''StatementPrepare''"

definition AdbcStatementSetOption ::
  "'w driver_env \<Rightarrow> arg list \<Rightarrow> statement \<Rightarrow> adbc_error \<Rightarrow> 'w memory \<Rightarrow> (unit, 'w) api"
where
  "AdbcStatementSetOption env = statement_call env ''StatementSetOption''"

definition AdbcStatementSetOptionBytes ::
  "'w driver_env \<Rightarrow> arg list \<Rightarrow> statement \<Rightarrow> adbc_error \<Rightarrow> 'w memory \<Rightarrow> (unit, 'w) api"
where
  "AdbcStatementSetOptionBytes env = statement_call env ''StatementSetOptionBytes''"

definition AdbcStatementSetOptionInt ::
  "'w driver_env \<Rightarrow> arg list \<Rightarrow> statement \<Rightarrow> adbc_error \<Rightarrow> 'w memory \<Rightarrow> (unit, 'w) api"
where
  "AdbcStatementSetOptionInt env = statement_call env ''StatementSetOptionInt''"

definition AdbcStatementSetOptionDouble ::
  "'w driver_env \<Rightarrow> arg list \<Rightarrow> statement \<Rightarrow> adbc_error \<Rightarrow> 'w memory \<Rightarrow> (unit, 'w) api"
where
  "AdbcStatementSetOptionDouble env = statement_call env ''StatementSetOptionDouble''"

definition AdbcStatementSetSqlQuery ::
  "'w driver_env \<Rightarrow> arg list \<Rightarrow> statement \<Rightarrow> adbc_error \<Rightarrow> 'w memory \<Rightarrow> (unit, 'w) api"
where
  "AdbcStatementSetSqlQuery env = statement_call env ''StatementSetSqlQuery''"

definition AdbcStatementSetSubstraitPlan ::
  "'w driver_env \<Rightarrow> arg list \<Rightarrow> statement \<Rightarrow> adbc_error \<Rightarrow> 'w memory \<Rightarrow> (unit, 'w) api"
where
  "AdbcStatementSetSubstraitPlan env = statement_call env ''StatementSetSubstraitPlan''"

end
