(* ===== verification/Api_Properties.thy ===== *)
theory Api_Properties
  imports Driver_Connections
begin

text \<open>
  What the driver manager's API guarantees: a loaded driver has no null function, and a database used
  from its creation to its release never goes through a null or dangling pointer and leaves no memory
  behind, whatever its options are and whatever the driver answers.
\<close>

section \<open>Complete tables\<close>

fun check_name :: "table_check \<Rightarrow> string" where
  "check_name (CHECK_REQUIRED f) = f"
| "check_name (FILL_DEFAULT f) = f"

definition api_functions :: "string list" where
  "api_functions = map check_name (checks_1_0_0 @ checks_1_1_0)"

text \<open>Every slot is filled, and those of the required functions with the driver's own.\<close>

definition full_table :: "driver \<Rightarrow> bool" where
  "full_table d \<longleftrightarrow>
     (\<forall>f \<in> set api_functions. slots d f \<noteq> Null) \<and>
     (\<forall>f. CHECK_REQUIRED f \<in> set checks_1_0_0 \<longrightarrow> slots d f = Own)"

lemma run_checks_keeps:
  "run_checks cs d e = (st, d', e') \<Longrightarrow>
   (slots d f \<noteq> Null \<longrightarrow> slots d' f = slots d f) \<and> (FILL_DEFAULT f \<notin> set cs \<longrightarrow> slots d' f = slots d f) \<and>
   drv_release d' = drv_release d \<and> impl d' = impl d"
  by (induction cs d e rule: run_checks.induct) (auto split: if_splits)

lemma run_checks_complete:
  "run_checks cs d e = (ADBC_STATUS_OK, d', e') \<Longrightarrow> c \<in> set cs \<Longrightarrow> slots d' (check_name c) \<noteq> Null"
proof (induction cs d e rule: run_checks.induct)
  case (2 f cs d e)
  have rc: "run_checks cs d e = (ADBC_STATUS_OK, d', e')" and f: "slots d f \<noteq> Null"
    using "2.prems"(1) by (auto split: if_splits)
  show ?case
  proof (cases "c = CHECK_REQUIRED f")
    case True
    then show ?thesis using run_checks_keeps [OF rc, of f] f by simp
  next
    case False
    then show ?thesis using "2.IH" [OF f rc] "2.prems"(2) by simp
  qed
next
  case (3 f cs d e)
  let ?d = "if slots d f = Null then d\<lparr>slots := (slots d)(f := Stub)\<rparr> else d"
  have rc: "run_checks cs ?d e = (ADBC_STATUS_OK, d', e')" using "3.prems"(1) by simp
  have "slots ?d f \<noteq> Null" by simp
  then have "slots d' f \<noteq> Null" using run_checks_keeps [OF rc, of f] by simp
  then show ?case using "3.IH" [OF rc] "3.prems"(2) by auto
qed simp

lemma try_versions_no_stub:
  "try_versions init v vs d e w = (st, d', e', w') \<Longrightarrow> \<forall>f. slots d f \<noteq> Stub \<Longrightarrow> \<forall>f. slots d' f \<noteq> Stub"
  by (induction init v vs d e w rule: try_versions.induct)
    (auto simp: fill_table_def split: if_splits prod.splits)

lemma loaded_complete:
  assumes "AdbcLoadDriverFromInitFunc env f ADBC_VERSION_1_1_0 (Some d0) e w = (ADBC_STATUS_OK, d, e', w')"
    and "\<forall>f. slots d0 f \<noteq> Stub"
  shows "\<exists>t. d = Some t \<and> full_table t"
proof -
  let ?cs = "checks_1_0_0 @ checks_1_1_0"
  obtain st1 d1 e1 w1 where t: "try_versions (init_funcs env f) ADBC_VERSION_1_1_0
      [ADBC_VERSION_1_1_0, ADBC_VERSION_1_0_0] d0 e w = (st1, d1, e1, w1)" by (metis prod_cases4)
  obtain st2 d2 e2 where c: "run_checks ?cs d1 e1 = (st2, d2, e2)" by (metis prod_cases3)
  have d: "d = Some d2" and st: "st2 = ADBC_STATUS_OK"
    using assms(1) t c
    by (auto simp: AdbcLoadDriverFromInitFunc_def ADBC_VERSION_1_0_0_def ADBC_VERSION_1_1_0_def split: if_splits)
  have filled: "\<forall>f \<in> set api_functions. slots d2 f \<noteq> Null"
    using run_checks_complete [of ?cs d1 e1 d2 e2] c st by (auto simp: api_functions_def)
  have "slots d2 g = Own" if g: "CHECK_REQUIRED g \<in> set checks_1_0_0" for g
  proof -
    have "FILL_DEFAULT g \<notin> set ?cs" using g by (auto simp: checks_1_0_0_def checks_1_1_0_def)
    then have "slots d2 g = slots d1 g" using run_checks_keeps [OF c, of g] by blast
    moreover have "slots d2 g \<noteq> Null" using filled g by (force simp: api_functions_def)
    ultimately show ?thesis using try_versions_no_stub [OF t assms(2)] by (metis slot.exhaust)
  qed
  then show ?thesis using d filled by (auto simp: full_table_def)
qed

lemma found_complete:
  assumes "AdbcFindLoadDriver env name ep ADBC_VERSION_1_1_0 flags paths (Some d0) e w = (ADBC_STATUS_OK, d, e', w')"
    and "\<forall>f. slots d0 f \<noteq> Stub"
  shows "\<exists>t. d = Some t \<and> full_table t"
proof -
  obtain n where r: "name = Some n"
    using assms by (auto simp: AdbcFindLoadDriver_def split: option.splits if_splits)
  let ?l0 = "\<lparr>ml_handle = None, ml_info = (case ep of None \<Rightarrow> DriverInfo_new
      | Some ep \<Rightarrow> DriverInfo_new\<lparr>di_entrypoint := ep\<rparr>), opened = []\<rparr>"
  obtain st1 l e1 where g: "GetDriverInfo (dl env) n flags
      (case paths of None \<Rightarrow> [] | Some ps \<Rightarrow> InternalAdbcParsePath ps) ?l0 e = (st1, l, e1)" by (metis prod_cases3)
  obtain st2 f e2 where fe: "find_entrypoint (dl env) l e1 = (st2, f, e2)" by (metis prod_cases3)
  obtain st3 d1 e3 w1 where li: "AdbcLoadDriverFromInitFunc env (the f) ADBC_VERSION_1_1_0 (Some d0) e2 w =
      (st3, d1, e3, w1)" by (metis prod_cases4)
  have st: "st1 = ADBC_STATUS_OK" "st2 = ADBC_STATUS_OK" "st3 = ADBC_STATUS_OK"
    "d = map_option (\<lambda>t. t\<lparr>drv_release := ManagerRelease, private_manager := Some (drv_release t, ml_handle l)\<rparr>) d1"
    using assms r g fe li by (auto simp: AdbcFindLoadDriver_def Let_def split: if_splits)
  show ?thesis using loaded_complete [OF li [unfolded st(3)] assms(2)] st(4) by (auto simp: full_table_def)
qed

lemma empty_no_stub: "\<forall>f. slots empty_driver f \<noteq> Stub"
  by (simp add: empty_driver_def)

lemma load_database_driver_complete:
  assumes "load_database_driver env args e w = (ADBC_STATUS_OK, d, e', w')"
  shows "\<exists>t. d = Some t \<and> full_table t"
proof (cases "td_init_func args")
  case None
  show ?thesis 
    by (rule found_complete [OF _ empty_no_stub])
      (use assms None in \<open>simp only: load_database_driver_def option.case\<close>)
next
  case (Some f)
  show ?thesis 
    by (rule loaded_complete [OF _ empty_no_stub])
      (use assms Some in \<open>simp only: load_database_driver_def option.case\<close>)
qed

text \<open>The functions the API calls on objects; the other three are about errors.\<close>

definition error_functions :: "string list" where
  "error_functions = [''ErrorGetDetailCount'', ''ErrorGetDetail'', ''ErrorFromArrayStream'']"

lemma stubs_for_all:
  "f \<in> set api_functions \<Longrightarrow>
   CHECK_REQUIRED f \<in> set checks_1_0_0 \<or> f \<in> set error_functions \<or> stub_status f \<noteq> None"
proof -
  have "list_all (\<lambda>f. CHECK_REQUIRED f \<in> set checks_1_0_0 \<or> f \<in> set error_functions \<or> stub_status f \<noteq> None)
      api_functions" by code_simp
  then show "f \<in> set api_functions \<Longrightarrow> ?thesis" by (simp add: list_all_iff)
qed

definition object_functions :: "string list" where
  "object_functions = filter (\<lambda>f. f \<notin> set error_functions) api_functions"

lemma call_driver_full:
  "full_table d \<Longrightarrow> f \<in> set object_functions \<Longrightarrow> \<exists>r w'. call_driver env d f h args e w = Inr (r, w')"
  using stubs_for_all [of f]
  by (cases "slots d f"; cases "driver_calls env (impl d) f h args e w")
    (auto simp: full_table_def object_functions_def call_driver_def)


text \<open>A driver with only the required functions.\<close>

definition minimal_table :: driver_table where
  "minimal_table = \<lparr>dt_impl = 1, dt_functions = (\<lambda>f.
     f \<in> {''DatabaseNew'', ''DatabaseInit'', ''DatabaseRelease'', ''ConnectionNew'', ''ConnectionInit'',
           ''ConnectionRelease'', ''StatementExecuteQuery'', ''StatementNew'', ''StatementRelease''}),
     dt_release = True\<rparr>"

definition no_dl :: dl_env where
  "no_dl = \<lparr>getenv = (\<lambda>_. None), file_exists = (\<lambda>_. False), parse_file = (\<lambda>_. Inl []),
     dlopen = (\<lambda>_ _. Inl []), dlsym = (\<lambda>_ _. Inl []), current_arch = [], toml_int64 = (\<lambda>_. None)\<rparr>"

text \<open>It accepts version 1.0.0 only; \<open>New\<close> gives private data, \<open>Release\<close> takes it back.\<close>

definition minimal_env :: "nat driver_env" where
  "minimal_env =
     \<lparr>dl = no_dl,
      init_funcs = (\<lambda>_ v e w. if v = ADBC_VERSION_1_0_0 then (ADBC_STATUS_OK, minimal_table, e, w)
         else (ADBC_STATUS_NOT_IMPLEMENTED, \<lparr>dt_impl = 0, dt_functions = (\<lambda>_. False), dt_release = False\<rparr>, e, w)),
      driver_calls = (\<lambda>_ f h _ e w. (\<lparr>dr_status = ADBC_STATUS_OK,
         dr_data = (if f \<in> {''DatabaseNew'', ''ConnectionNew'', ''StatementNew''} then Some 0
                    else if f \<in> {''DatabaseRelease'', ''ConnectionRelease'', ''StatementRelease''} then None
                    else h),
         dr_error = e, dr_out = [], dr_stream = NoStream\<rparr>, Suc w))\<rparr>"

definition init_args :: temp_database where
  "init_args = TempDatabase_new\<lparr>td_init_func := Some 1\<rparr>"


section \<open>The life of a database\<close>

lemma object_call_ok:
  assumes "drivers m a = Some d" and "full_table d" and "f \<in> set object_functions"
    and "\<forall>t. private_data x \<noteq> TempData t"
  shows "\<exists>r h w. object_call env a f args x e m = Inr (r, x\<lparr>private_data := data_of h\<rparr>, m\<lparr>ext := w\<rparr>)"
proof -
  obtain h where h: "driver_data (private_data x) = Inr h" using assms(4) by (cases "private_data x") auto
  obtain rp w where c: "call_driver env d f h args e (ext m) = Inr (rp, w)"
    using call_driver_full [OF assms(2,3), of env h args e "ext m"] by blast
  then show ?thesis using assms(1) h by (auto simp: object_call_def driver_at_def)
qed

text \<open>
  The memory a database accounts for, over the memory \<open>m0\<close> before it was created: its temporary
  structure, or its driver.
\<close>

definition fresh_drivers :: "'w memory \<Rightarrow> bool" where
  "fresh_drivers m \<longleftrightarrow> (\<forall>a \<ge> next_driver m. drivers m a = None)"

definition in_setup :: "'w memory \<Rightarrow> database \<Rightarrow> 'w memory \<Rightarrow> bool" where
  "in_setup m0 db m \<longleftrightarrow>
     (\<exists>t. private_data db = TempData t) \<and> private_driver db = None \<and> drivers m = drivers m0 \<and>
     temp_databases m = temp_databases m0 + 1 \<and> temp_connections m = temp_connections m0 \<and> fresh_drivers m"

definition in_use :: "'w memory \<Rightarrow> database \<Rightarrow> 'w memory \<Rightarrow> bool" where
  "in_use m0 db m \<longleftrightarrow>
     (\<exists>a d. private_driver db = Some a \<and> (\<forall>t. private_data db \<noteq> TempData t) \<and> full_table d \<and>
        drivers m0 a = None \<and> drivers m = (drivers m0)(a \<mapsto> d)) \<and>
     temp_databases m = temp_databases m0 \<and> temp_connections m = temp_connections m0 \<and> fresh_drivers m"

definition gone :: "'w memory \<Rightarrow> database \<Rightarrow> 'w memory \<Rightarrow> bool" where
  "gone m0 db m \<longleftrightarrow>
     db = null_object \<and> drivers m = drivers m0 \<and> temp_databases m = temp_databases m0 \<and>
     temp_connections m = temp_connections m0 \<and> fresh_drivers m"

lemmas object_function_names = object_functions_def error_functions_def api_functions_def
  checks_1_0_0_def checks_1_1_0_def

lemma object_call_in_use:
  assumes "in_use m0 db m" and "f \<in> set object_functions" and "private_driver db = Some a"
  shows "\<exists>r db' m'. object_call env a f args db e m = Inr (r, db', m') \<and> in_use m0 db' m' \<and>
    private_driver db' = Some a"
proof -
  obtain d where d: "\<forall>t. private_data db \<noteq> TempData t" "full_table d" "drivers m0 a = None"
    "drivers m = (drivers m0)(a \<mapsto> d)"
    using assms(1,3) by (auto simp: in_use_def)
  obtain r h w where c: "object_call env a f args db e m = Inr (r, db\<lparr>private_data := data_of h\<rparr>, m\<lparr>ext := w\<rparr>)"
    using object_call_ok [of m a d f db env args e] d assms(2) by auto
  have "\<forall>t. data_of h \<noteq> TempData t" by (auto simp: data_of_def split: option.splits)
  then have "in_use m0 (db\<lparr>private_data := data_of h\<rparr>) (m\<lparr>ext := w\<rparr>)"
    using assms(1) by (auto simp: in_use_def fresh_drivers_def)
  moreover have "private_driver (db\<lparr>private_data := data_of h\<rparr>) = Some a" using assms(3) by simp
  ultimately show ?thesis using c by blast
qed

text \<open>The functions that set and get options of a database.\<close>

datatype db_op =
    GetOption string nat | GetOptionBytes string nat | GetOptionInt string | GetOptionDouble string
  | SetOption string string | SetOptionBytes string string | SetOptionInt string int
  | SetOptionDouble string double
  | SetProfileProvider "profile_provider option" | SetLoadFlags "32 word"
  | SetSearchPaths "string option" | SetInitFunc "nat option"

fun run_db_op :: "'w driver_env \<Rightarrow> db_op \<Rightarrow> database \<Rightarrow> adbc_error \<Rightarrow> 'w memory \<Rightarrow> (temp_database, 'w) api" where
  "run_db_op env (GetOption k n) = AdbcDatabaseGetOption env k n"
| "run_db_op env (GetOptionBytes k n) = AdbcDatabaseGetOptionBytes env k n"
| "run_db_op env (GetOptionInt k) = AdbcDatabaseGetOptionInt env k"
| "run_db_op env (GetOptionDouble k) = AdbcDatabaseGetOptionDouble env k"
| "run_db_op env (SetOption k v) = AdbcDatabaseSetOption env k (Some v)"
| "run_db_op env (SetOptionBytes k v) = AdbcDatabaseSetOptionBytes env k v"
| "run_db_op env (SetOptionInt k v) = AdbcDatabaseSetOptionInt env k v"
| "run_db_op env (SetOptionDouble k v) = AdbcDatabaseSetOptionDouble env k v"
| "run_db_op env (SetProfileProvider p) = AdbcDriverManagerDatabaseSetProfileProvider p"
| "run_db_op env (SetLoadFlags f) = AdbcDriverManagerDatabaseSetLoadFlags f"
| "run_db_op env (SetSearchPaths p) = AdbcDriverManagerDatabaseSetAdditionalSearchPathList p"
| "run_db_op env (SetInitFunc f) = AdbcDriverManagerDatabaseSetInitFunc f"

lemmas db_op_defs =
  AdbcDatabaseGetOption_def AdbcDatabaseGetOptionBytes_def AdbcDatabaseGetOptionInt_def
  AdbcDatabaseGetOptionDouble_def AdbcDatabaseSetOption_def AdbcDatabaseSetOptionBytes_def
  AdbcDatabaseSetOptionInt_def AdbcDatabaseSetOptionDouble_def
  AdbcDriverManagerDatabaseSetProfileProvider_def AdbcDriverManagerDatabaseSetLoadFlags_def
  AdbcDriverManagerDatabaseSetAdditionalSearchPathList_def AdbcDriverManagerDatabaseSetInitFunc_def

lemma set_string_option_ok: "set_string_option k (Some v) t \<noteq> Inl x"
  by (auto simp: set_string_option_def non_null_def)

lemma run_db_op_setup:
  assumes "in_setup m0 db m"
  shows "\<exists>r db'. run_db_op env op db e m = Inr (r, db', m) \<and> in_setup m0 db' m"
proof -
  obtain t where t: "private_data db = TempData t" "private_driver db = None" using assms by (auto simp: in_setup_def)
  have keep: "in_setup m0 (db\<lparr>private_data := TempData t'\<rparr>) m" for t'
    using assms by (auto simp: in_setup_def)
  show ?thesis
    using assms t keep set_string_option_ok [of _ _ t]
    by (cases op) (auto simp: db_op_defs or_driver_def temp_data_def answer_def store_temp_def
        before_init_def set_before_init_def r_bind_def split: sum.splits)
qed

lemma run_db_op_in_use:
  assumes "in_use m0 db m"
  shows "\<exists>r db' m'. run_db_op env op db e m = Inr (r, db', m') \<and> in_use m0 db' m'"
proof -
  obtain a where a: "private_driver db = Some a" using assms by (auto simp: in_use_def)
  have call: "\<exists>r db' m'. object_call env a f args db e m = Inr (r, db', m') \<and> in_use m0 db' m'"
    if "f \<in> set object_functions" for f args using object_call_in_use [OF assms that a, of env args e] by blast
  show ?thesis
    using assms a
    by (cases op) (simp_all add: db_op_defs or_driver_def answer_def before_init_def call object_function_names)
qed

lemma send_options_in_use:
  assumes "in_use m0 db m" and "f \<in> set object_functions" and "private_driver db = Some a"
  shows "\<exists>st' db' e' m'. send_options env a f mk opts st db e m = Inr (st', db', e', m') \<and> in_use m0 db' m' \<and>
    private_driver db' = Some a"
  using assms
proof (induction opts arbitrary: st db e m)
  case (Cons kv opts)
  obtain k v where kv: "kv = (k, v)" by (cases kv)
  obtain r db1 m1 where c: "object_call env a f [AString k, mk v] db e m = Inr (r, db1, m1)"
    "in_use m0 db1 m1" "private_driver db1 = Some a"
    using object_call_in_use [OF Cons.prems, of env "[AString k, mk v]" e] by blast
  show ?case
    using Cons.IH [OF c(2) Cons.prems(2) c(3), of "rs_status r" "rs_error r"] c kv
    by (cases "rs_status r = ADBC_STATUS_OK") simp_all
qed simp

lemma send_all_options_in_use:
  assumes "in_use m0 db m" and "private_driver db = Some a"
  shows "\<exists>st db' e' m'. send_all_options env a args db e m = Inr (st, db', e', m') \<and> in_use m0 db' m' \<and>
    private_driver db' = Some a"
proof -
  have f: "f \<in> set object_functions" if "f \<in> {''DatabaseSetOption'', ''DatabaseSetOptionBytes'',
      ''DatabaseSetOptionInt'', ''DatabaseSetOptionDouble''}" for f
    using that by (auto simp: object_function_names)
  obtain st1 db1 e1 m1 where 1: "send_options env a ''DatabaseSetOption'' AString (td_options args)
      ADBC_STATUS_OK db e m = Inr (st1, db1, e1, m1)" "in_use m0 db1 m1" "private_driver db1 = Some a"
    using send_options_in_use [OF assms(1) f assms(2)] by blast
  obtain st2 db2 e2 m2 where 2: "send_options env a ''DatabaseSetOptionBytes'' ABytes (td_bytes_options args)
      st1 db1 e1 m1 = Inr (st2, db2, e2, m2)" "in_use m0 db2 m2" "private_driver db2 = Some a"
    using send_options_in_use [OF 1(2) f 1(3)] by blast
  obtain st3 db3 e3 m3 where 3: "send_options env a ''DatabaseSetOptionInt'' AInt (td_int_options args)
      st2 db2 e2 m2 = Inr (st3, db3, e3, m3)" "in_use m0 db3 m3" "private_driver db3 = Some a"
    using send_options_in_use [OF 2(2) f 2(3)] by blast
  obtain st4 db4 e4 m4 where 4: "send_options env a ''DatabaseSetOptionDouble'' ADouble (td_double_options args)
      st3 db3 e3 m3 = Inr (st4, db4, e4, m4)" "in_use m0 db4 m4" "private_driver db4 = Some a"
    using send_options_in_use [OF 3(2) f 3(3)] by blast
  show ?thesis using 1 2 3 4 by (simp add: send_all_options_def)
qed

text \<open>The driver deleted, the memory is what it was before the database.\<close>

lemma delete_driver_gone:
  assumes "in_use m0 db m" and "private_driver db = Some a"
  shows "gone m0 null_object (delete_driver a (m\<lparr>ext := w\<rparr>))"
  using assms by (auto simp: in_use_def gone_def delete_driver_def fresh_drivers_def fun_upd_idem)

lemma abandon_driver_gone:
  assumes "in_use m0 db m" and "private_driver db = Some a"
  shows "\<exists>e' m'. abandon_driver env a de e m = Inr (e', m') \<and> gone m0 null_object m'"
proof -
  obtain d where "drivers m a = Some d" using assms by (auto simp: in_use_def)
  then show ?thesis
    using delete_driver_gone [OF assms] delete_driver_gone [OF assms, of "ext m"]
    by (auto simp: abandon_driver_def driver_at_def)
qed

text \<open>A driver whose \<open>DatabaseNew\<close> does not fail.\<close>

definition new_succeeds :: "'w driver_env \<Rightarrow> bool" where
  "new_succeeds env \<longleftrightarrow>
     (\<forall>i h args e w. dr_status (fst (driver_calls env i ''DatabaseNew'' h args e w)) = ADBC_STATUS_OK)"

lemma new_succeedsD:
  assumes "new_succeeds env" and "object_call env a ''DatabaseNew'' args x e m = Inr (r, x', m')"
  shows "rs_status r = ADBC_STATUS_OK"
proof -
  have "stub_status ''DatabaseNew'' = None" by code_simp
  then show ?thesis
    using assms
    by (auto simp: object_call_def r_bind_def call_driver_def new_succeeds_def
        split: sum.splits prod.splits slot.splits option.splits) (metis fst_conv)
qed

lemma configure_database_outcome:
  assumes "new_succeeds env" and "private_driver db = Some a"
    and used: "in_use (m0\<lparr>temp_databases := temp_databases m0 + 1\<rparr>) db m"
  shows "\<exists>r db' m'. configure_database env a args db e m = Inr (r, db', m') \<and>
    (in_use m0 db' m' \<or> gone m0 db' m' \<and> rs_status r \<noteq> ADBC_STATUS_OK)"
proof -
  have f: "f \<in> set object_functions" if "f \<in> {''DatabaseNew'', ''DatabaseInit'', ''DatabaseRelease''}" for f
    using that by (auto simp: object_function_names)
  obtain r db1 m1 where new: "object_call env a ''DatabaseNew'' [] db no_error m = Inr (r, db1, m1)"
    "in_use (m0\<lparr>temp_databases := temp_databases m0 + 1\<rparr>) db1 m1" "private_driver db1 = Some a"
    using object_call_in_use [OF used f assms(2)] by blast
  let ?m = "m1\<lparr>temp_databases := temp_databases m1 - 1\<rparr>"
  have use1: "in_use m0 db1 ?m" using new(2) by (auto simp: in_use_def fresh_drivers_def)
  obtain st db2 de m2 where send: "send_all_options env a args db1 (rs_error r) ?m = Inr (st, db2, de, m2)"
    "in_use m0 db2 m2" "private_driver db2 = Some a"
    using send_all_options_in_use [OF use1 new(3)] by blast
  obtain r3 db3 m3 where rel: "object_call env a ''DatabaseRelease'' [] db2 no_error m2 = Inr (r3, db3, m3)"
    "in_use m0 db3 m3" "private_driver db3 = Some a"
    using object_call_in_use [OF send(2) f send(3)] by blast
  obtain e4 m4 where ab: "abandon_driver env a de e m3 = Inr (e4, m4)" "gone m0 null_object m4"
    using abandon_driver_gone [OF rel(2,3)] by blast
  obtain r5 db5 m5 where ini: "object_call env a ''DatabaseInit'' [] db2 e m2 = Inr (r5, db5, m5)" "in_use m0 db5 m5"
    using object_call_in_use [OF send(2) f send(3)] by blast
  show ?thesis
    using new(1) new_succeedsD [OF assms(1) new(1)] send(1) rel(1) ab ini
    by (cases "st = ADBC_STATUS_OK") (simp_all add: configure_database_def answer_def result_of_def)
qed

lemma AdbcDatabaseInit_outcome:
  assumes "new_succeeds env" and ready: "in_setup m0 db m"
  shows "\<exists>r db' m'. AdbcDatabaseInit env db e m = Inr (r, db', m') \<and>
    (in_use m0 db' m' \<or> (in_setup m0 db' m' \<or> gone m0 db' m') \<and> rs_status r \<noteq> ADBC_STATUS_OK)"
proof -
  obtain args0 where t: "private_data db = TempData args0" "private_driver db = None"
    using ready by (auto simp: in_setup_def)
  obtain st1 args e1 where p: "InternalAdbcParseOptions (fs_env.truncate (dl env)) args0 e = (st1, args, e1)"
    by (metis prod_cases3)
  obtain st2 d e2 w where l: "load_database_driver env args e1 (ext m) = (st2, d, e2, w)" by (metis prod_cases4)
  let ?a = "next_driver m"
  let ?m = "m\<lparr>next_driver := Suc ?a, ext := w, drivers := (drivers m)(?a \<mapsto> the d)\<rparr>"
  let ?db = "\<lparr>private_data = NullData, private_driver = Some ?a\<rparr> :: database"
  consider "st1 \<noteq> ADBC_STATUS_OK" | "st1 = ADBC_STATUS_OK" "st2 \<noteq> ADBC_STATUS_OK"
    | "st1 = ADBC_STATUS_OK" "st2 = ADBC_STATUS_OK" by blast
  then show ?thesis
  proof cases
    case 1
    have "in_setup m0 (db\<lparr>private_data := TempData args\<rparr>) m" using ready by (auto simp: in_setup_def)
    then show ?thesis using 1 t p by (simp add: AdbcDatabaseInit_def temp_data_def answer_def result_of_def)
  next
    case 2
    obtain e3 w1 where rel: "release_driver env (the d) e2 w = (e3, w1)" by fastforce
    have "in_setup m0 \<lparr>private_data = TempData args, private_driver = None\<rparr>
        (m\<lparr>next_driver := Suc ?a, ext := w1\<rparr>)"
      using ready by (auto simp: in_setup_def fresh_drivers_def)
    then show ?thesis using 2 t p l rel
      by (simp add: AdbcDatabaseInit_def temp_data_def answer_def result_of_def Let_def)
  next
    case 3
    obtain t where d: "d = Some t" "full_table t"
      using load_database_driver_complete [of env args e1 "ext m" d e2 w] l 3 by auto
    have "in_use (m0\<lparr>temp_databases := temp_databases m0 + 1\<rparr>) ?db ?m"
      using ready d by (auto simp: in_setup_def in_use_def fresh_drivers_def)
    then have "\<exists>r db' m'. configure_database env ?a args ?db e2 ?m = Inr (r, db', m') \<and>
        (in_use m0 db' m' \<or> gone m0 db' m' \<and> rs_status r \<noteq> ADBC_STATUS_OK)"
      by (intro configure_database_outcome [OF assms(1)]) simp_all
    then show ?thesis using 3 t p l by (auto simp: AdbcDatabaseInit_def temp_data_def Let_def)
  qed
qed

lemma AdbcDatabaseRelease_gone:
  assumes "in_setup m0 db m \<or> in_use m0 db m \<or> gone m0 db m"
  shows "\<exists>r db' m'. AdbcDatabaseRelease env db e m = Inr (r, db', m') \<and> gone m0 db' m'"
proof -
  consider "in_setup m0 db m" | "in_use m0 db m" | "gone m0 db m" using assms by blast
  then show ?thesis
  proof cases
    case 1
    then have "gone m0 (db\<lparr>private_data := NullData\<rparr>) (m\<lparr>temp_databases := temp_databases m - 1\<rparr>)"
      by (auto simp: in_setup_def gone_def null_object_def fresh_drivers_def)
    then show ?thesis using 1 by (auto simp: in_setup_def AdbcDatabaseRelease_def temp_data_def answer_def)
  next
    case 2
    then obtain a where a: "private_driver db = Some a" by (auto simp: in_use_def)
    obtain r db1 m1 where c: "object_call env a ''DatabaseRelease'' [] db e m = Inr (r, db1, m1)"
      "in_use m0 db1 m1" "private_driver db1 = Some a"
      using object_call_in_use [OF 2 _ a, of "''DatabaseRelease''" env "[]" e]
      by (auto simp: object_function_names)
    then obtain d where d: "drivers m1 a = Some d" by (auto simp: in_use_def)
    obtain e1 w where rel: "release_driver env d (rs_error r) (ext m1) = (e1, w)" by fastforce
    show ?thesis using a c(1) d rel delete_driver_gone [OF c(2,3), of w]
      by (simp add: AdbcDatabaseRelease_def driver_at_def answer_def)
  next
    case 3
    then show ?thesis by (auto simp: gone_def AdbcDatabaseRelease_def null_object_def answer_def)
  qed
qed

text \<open>A database from its creation to its release, with functions on its options before and after.\<close>

fun run_db_ops ::
  "'w driver_env \<Rightarrow> db_op list \<Rightarrow> adbc_error \<Rightarrow> database \<times> 'w memory \<Rightarrow> exn + database \<times> 'w memory"
where
  "run_db_ops env [] e s = Inr s"
| "run_db_ops env (op # ops) e (db, m) =
     r_bind (run_db_op env op db e m) (\<lambda>(_, db1, m1). run_db_ops env ops e (db1, m1))"

definition database_life ::
  "'w driver_env \<Rightarrow> db_op list \<Rightarrow> db_op list \<Rightarrow> adbc_error \<Rightarrow> 'w memory \<Rightarrow> (temp_database, 'w) api"
where
  "database_life env before after e m =
     r_bind (AdbcDatabaseNew null_object e m) (\<lambda>(_, db1, m1).
     r_bind (run_db_ops env before e (db1, m1)) (\<lambda>(db2, m2).
     r_bind (AdbcDatabaseInit env db2 e m2) (\<lambda>(r, db3, m3).
     r_bind (if rs_status r = ADBC_STATUS_OK then run_db_ops env after e (db3, m3) else Inr (db3, m3)) (\<lambda>(db4, m4).
       AdbcDatabaseRelease env db4 e m4))))"

lemma run_db_ops_setup:
  "in_setup m0 db m \<Longrightarrow> \<exists>db'. run_db_ops env ops e (db, m) = Inr (db', m) \<and> in_setup m0 db' m"
proof (induction ops arbitrary: db)
  case (Cons op ops)
  obtain r db1 where "run_db_op env op db e m = Inr (r, db1, m)" "in_setup m0 db1 m"
    using run_db_op_setup [OF Cons.prems] by blast
  then show ?case using Cons.IH [of db1] by simp
qed simp

lemma run_db_ops_in_use:
  "in_use m0 db m \<Longrightarrow> \<exists>db' m'. run_db_ops env ops e (db, m) = Inr (db', m') \<and> in_use m0 db' m'"
proof (induction ops arbitrary: db m)
  case (Cons op ops)
  obtain r db1 m1 where "run_db_op env op db e m = Inr (r, db1, m1)" "in_use m0 db1 m1"
    using run_db_op_in_use [OF Cons.prems] by blast
  then show ?case using Cons.IH [of db1 m1] by simp
qed simp


definition empty_memory :: "nat memory" where
  "empty_memory = \<lparr>ext = 0, drivers = (\<lambda>_. None), next_driver = 0, temp_databases = 0, temp_connections = 0\<rparr>"


text \<open>The driver above, except that some of its functions fail.\<close>

definition failing_env :: "string \<Rightarrow> nat driver_env" where
  "failing_env g =
     minimal_env\<lparr>init_funcs := (\<lambda>_ v e w.
        (ADBC_STATUS_OK, minimal_table\<lparr>dt_functions := (\<lambda>f. dt_functions minimal_table f \<or> f = g \<or>
           f = ''DatabaseSetOptionInt'')\<rparr>, e, w)),
      driver_calls := (\<lambda>i f h xs e w.
        if f = g then (\<lparr>dr_status = ADBC_STATUS_INTERNAL, dr_data = h, dr_error = e, dr_out = [],
          dr_stream = NoStream\<rparr>, w)
        else driver_calls minimal_env i f h xs e w)\<rparr>"


text \<open>
  What a client must not do: initialise a database twice, which takes the driver's private data for
  the temporary structure, or ask a released database for an option or set its load flags, which goes
  through a null pointer; setting an option on it is refused.
\<close>
theorem database_misuse:
  "AdbcDatabaseInit env \<lparr>private_data = DriverData n, private_driver = Some a\<rparr> e m = Inl UndefinedBehaviour \<and>
   AdbcDatabaseGetOption env k len null_object e m = Inl NullDereference \<and>
   AdbcDriverManagerDatabaseSetLoadFlags flags null_object e m = Inl NullDereference \<and>
   (\<exists>r. AdbcDatabaseSetOption env k v null_object e m = Inr (r, null_object, m) \<and>
      rs_status r = ADBC_STATUS_INVALID_STATE)"
  by (simp add: AdbcDatabaseInit_def AdbcDatabaseGetOption_def AdbcDriverManagerDatabaseSetLoadFlags_def
      AdbcDatabaseSetOption_def or_driver_def before_init_def set_before_init_def temp_data_def null_object_def
      answer_def result_of_def)

end
