(* ===== verification/Driver_Errors.thy ===== *)
theory Driver_Errors
  imports Api_Properties
begin

text \<open>
  The details of errors: an error remembers the driver it comes from, which is asked for its details
  (src/adbc-vendor/adbc\_driver\_manager\_api.cpp and the macro \<open>INIT_ERROR\<close> of
  adbc\_driver\_manager\_internal.h).
\<close>

section \<open>Errors with details\<close>

definition ADBC_ERROR_VENDOR_CODE_PRIVATE_DATA :: int where
  "ADBC_ERROR_VENDOR_CODE_PRIVATE_DATA = - 2147483648"

record detailed_error = adbc_error +
  vendor_code :: int
  error_data :: "nat option"
  error_driver :: "nat option"

text \<open>A detail: its key, null if there is none, and its value.\<close>

record error_detail =
  detail_key :: "string option"
  detail_value :: string

text \<open>The functions of drivers on errors; a stream may have an error together with a status.\<close>

record error_calls =
  count_details :: "nat \<Rightarrow> detailed_error \<Rightarrow> int"
  nth_detail :: "nat \<Rightarrow> detailed_error \<Rightarrow> int \<Rightarrow> error_detail"
  stream_error :: "nat \<Rightarrow> nat \<Rightarrow> (status \<times> detailed_error) option"

definition ErrorGetDetailCount :: "detailed_error \<Rightarrow> int" where
  "ErrorGetDetailCount e = 0"

definition ErrorGetDetail :: "detailed_error \<Rightarrow> int \<Rightarrow> error_detail" where
  "ErrorGetDetail e i = \<lparr>detail_key = None, detail_value = []\<rparr>"

definition ErrorFromArrayStream :: "nat \<Rightarrow> (status \<times> detailed_error) option" where
  "ErrorFromArrayStream s = None"

text \<open>Before a call on an object the error is told its driver.\<close>

definition INIT_ERROR :: "detailed_error \<Rightarrow> 't object \<Rightarrow> detailed_error" where
  "INIT_ERROR e x =
     (if vendor_code e = ADBC_ERROR_VENDOR_CODE_PRIVATE_DATA then e\<lparr>error_driver := private_driver x\<rparr> else e)"

text \<open>The driver an error can be asked of.\<close>

definition asked_driver :: "detailed_error \<Rightarrow> 'w memory \<Rightarrow> exn + driver option" where
  "asked_driver e m =
     (if vendor_code e = ADBC_ERROR_VENDOR_CODE_PRIVATE_DATA \<and> error_data e \<noteq> None then
        (case error_driver e of None \<Rightarrow> Inr None | Some a \<Rightarrow> r_bind (driver_at a m) (\<lambda>d. Inr (Some d)))
      else Inr None)"

definition AdbcErrorGetDetailCount :: "error_calls \<Rightarrow> detailed_error \<Rightarrow> 'w memory \<Rightarrow> exn + int" where
  "AdbcErrorGetDetailCount calls e m =
     r_bind (asked_driver e m) (\<lambda>driver.
       Inr (case driver of
              None \<Rightarrow> 0
            | Some d \<Rightarrow>
                (case slots d ''ErrorGetDetailCount'' of
                   Null \<Rightarrow> 0 | Stub \<Rightarrow> ErrorGetDetailCount e | Own \<Rightarrow> count_details calls (impl d) e)))"

definition AdbcErrorGetDetail :: "error_calls \<Rightarrow> detailed_error \<Rightarrow> int \<Rightarrow> 'w memory \<Rightarrow> exn + error_detail" where
  "AdbcErrorGetDetail calls e i m =
     r_bind (asked_driver e m) (\<lambda>driver.
       Inr (case driver of
              None \<Rightarrow> \<lparr>detail_key = None, detail_value = []\<rparr>
            | Some d \<Rightarrow>
                (case slots d ''ErrorGetDetail'' of
                   Null \<Rightarrow> \<lparr>detail_key = None, detail_value = []\<rparr>
                 | Stub \<Rightarrow> ErrorGetDetail e i
                 | Own \<Rightarrow> nth_detail calls (impl d) e i)))"

text \<open>The error of a stream, if the manager has wrapped it; it is told its driver.\<close>

definition AdbcErrorFromArrayStream ::
  "error_calls \<Rightarrow> stream \<Rightarrow> 'w memory \<Rightarrow> exn + (status \<times> detailed_error) option"
where
  "AdbcErrorFromArrayStream calls s m =
     (case s of
        ErrorStream n a \<Rightarrow>
          r_bind (driver_at a m) (\<lambda>d.
            (case slots d ''ErrorFromArrayStream'' of
               Null \<Rightarrow> Inl NullDereference
             | Stub \<Rightarrow> Inr (ErrorFromArrayStream n)
             | Own \<Rightarrow> Inr (map_option (\<lambda>(st, e). (st, e\<lparr>error_driver := Some a\<rparr>))
                 (stream_error calls (impl d) n))))
      | _ \<Rightarrow> Inr None)"

section \<open>Errors of streams\<close>

lemma full_table_errors:
  "full_table d \<Longrightarrow> f \<in> set error_functions \<Longrightarrow> slots d f \<noteq> Null"
  by (auto simp: full_table_def error_functions_def api_functions_def checks_1_1_0_def checks_1_0_0_def)


definition failing_stream :: error_calls where
  "failing_stream = \<lparr>count_details = (\<lambda>_ _. 2), nth_detail = (\<lambda>_ _ _. \<lparr>detail_key = None, detail_value = []\<rparr>),
     stream_error = (\<lambda>_ _. Some (ADBC_STATUS_IO, \<lparr>err_message = Some ''broken'', err_release = False,
       vendor_code = ADBC_ERROR_VENDOR_CODE_PRIVATE_DATA, error_data = Some 0, error_driver = None\<rparr>))\<rparr>"

definition one_driver :: "nat memory" where
  "one_driver = empty_memory\<lparr>drivers := [0 \<mapsto> empty_driver\<lparr>slots := (\<lambda>_. Own)\<rparr>]\<rparr>"


end
