(* ===== verification/Composition.thy ===== *)
theory Composition
  imports Api_Properties Attached
begin

text \<open>
  The extension on top of the driver manager.  The extension's model takes the ADBC C API as a function
  from calls to replies; here that function is built from the driver manager's own operations, on the
  structs that the extension's handles hold, and the contract the extension relies on is proved of it.
\<close>

section \<open>The structs of a program\<close>

text \<open>
  The structs, each named by its place; \<open>stream_of\<close> is the stream of the last query of a statement.
  A call that fails as a C++ program does ends the program; \<open>crashed\<close> records it.
\<close>

record 'w client =
  mem :: "'w memory"
  db_structs :: "temp_database object list"
  conn_structs :: "temp_connection object list"
  stmt_structs :: "unit object list"
  stream_of :: "hnd \<Rightarrow> stream"
  crashed :: "exn option"

text \<open>
  Besides the drivers: the callbacks of their streams, what an Arrow schema or stream decodes to, and
  the stream a caller binds as an argument.
\<close>

record 'w client_env =
  denv :: "'w driver_env"
  stream_callbacks :: "'w stream_calls"
  decode :: "arg list \<Rightarrow> stream \<Rightarrow> (string \<times> string) list \<times> arrow list"
  bind_args :: "bound_stream \<Rightarrow> arg list"

text \<open>A handle is zeroed when the private data of its struct is null.\<close>

definition has_data :: "'t object \<Rightarrow> bool" where
  "has_data x \<longleftrightarrow> \<not> is_null (private_data x)"

definition is_statement :: "unit object \<Rightarrow> bool" where
  "is_statement s \<longleftrightarrow> has_data s \<and> private_driver s \<noteq> None"

definition struct_at :: "'t object list \<Rightarrow> hnd \<Rightarrow> 't object" where
  "struct_at xs h = (case h of Some i \<Rightarrow> if i < length xs then xs ! i else null_object | None \<Rightarrow> null_object)"

definition put_struct :: "('t object \<Rightarrow> bool) \<Rightarrow> 't object list \<Rightarrow> hnd \<Rightarrow> 't object \<Rightarrow> hnd \<times> 't object list" where
  "put_struct used xs h x =
     (case h of
        Some i \<Rightarrow> (if used x then h else None, xs[i := x])
      | None \<Rightarrow> if used x then (Some (length xs), xs @ [x]) else (None, xs))"

section \<open>Replies\<close>

definition string_out :: "arg list \<Rightarrow> string" where
  "string_out out = (case out of AString s # _ \<Rightarrow> s | _ \<Rightarrow> [])"

definition length_out :: "arg list \<Rightarrow> nat" where
  "length_out out = (case out of [] \<Rightarrow> 0 | _ \<Rightarrow> (case last out of AInt n \<Rightarrow> nat n | _ \<Rightarrow> 0))"

definition reply_of :: "'w client_env \<Rightarrow> result \<Rightarrow> hnd \<Rightarrow> reply" where
  "reply_of env r h =
     \<lparr>rp_status = rs_status r, rp_message = err_message (rs_error r), rp_handle = h,
      rp_value = string_out (rs_out r), rp_length = length_out (rs_out r),
      rp_schema = fst (decode env (rs_out r) (rs_stream r)),
      rp_batches = snd (decode env (rs_out r) (rs_stream r))\<rparr>"

definition crash_reply :: reply where
  "crash_reply = fail_reply ADBC_STATUS_INTERNAL []"

text \<open>The world and the reply after a call on a struct: one that works on the handle, or one that reads.\<close>

definition on_database :: "'w client_env \<Rightarrow> hnd \<Rightarrow> (temp_database, 'w) api \<Rightarrow> 'w client \<Rightarrow> reply \<times> 'w client" where
  "on_database env h result w =
     (case result of
        Inl ex \<Rightarrow> (crash_reply,
          w\<lparr>crashed := Some ex, db_structs := snd (put_struct has_data (db_structs w) h null_object)\<rparr>)
      | Inr (r, x, m) \<Rightarrow>
          (case put_struct has_data (db_structs w) h x of
             (h1, xs) \<Rightarrow> (reply_of env r h1, w\<lparr>mem := m, db_structs := xs\<rparr>)))"

definition on_connection :: "'w client_env \<Rightarrow> hnd \<Rightarrow> (temp_connection, 'w) api \<Rightarrow> 'w client \<Rightarrow> reply \<times> 'w client" where
  "on_connection env h result w =
     (case result of
        Inl ex \<Rightarrow> (crash_reply,
          w\<lparr>crashed := Some ex, conn_structs := snd (put_struct has_data (conn_structs w) h null_object)\<rparr>)
      | Inr (r, x, m) \<Rightarrow>
          (case put_struct has_data (conn_structs w) h x of
             (h1, xs) \<Rightarrow> (reply_of env r h1, w\<lparr>mem := m, conn_structs := xs\<rparr>)))"

definition on_statement :: "'w client_env \<Rightarrow> hnd \<Rightarrow> (unit, 'w) api \<Rightarrow> 'w client \<Rightarrow> reply \<times> 'w client" where
  "on_statement env h result w =
     (case result of
        Inl ex \<Rightarrow> (crash_reply,
          w\<lparr>crashed := Some ex, stmt_structs := snd (put_struct is_statement (stmt_structs w) h null_object)\<rparr>)
      | Inr (r, x, m) \<Rightarrow>
          (case put_struct is_statement (stmt_structs w) h x of
             (h1, xs) \<Rightarrow> (reply_of env r h1,
               w\<lparr>mem := m, stmt_structs := xs, stream_of := (stream_of w)(h1 := rs_stream r)\<rparr>)))"

definition read_connection :: "'w client_env \<Rightarrow> hnd \<Rightarrow> (temp_connection, 'w) api \<Rightarrow> 'w client \<Rightarrow> reply \<times> 'w client" where
  "read_connection env h result w =
     (case result of
        Inl ex \<Rightarrow> (crash_reply, w\<lparr>crashed := Some ex\<rparr>)
      | Inr (r, x, m) \<Rightarrow>
          (reply_of env r h,
           w\<lparr>mem := m, conn_structs := (case h of Some i \<Rightarrow> (conn_structs w)[i := x] | None \<Rightarrow> conn_structs w)\<rparr>))"

section \<open>The C API of the driver manager\<close>

text \<open>Every call of the extension's model, on a zeroed error.\<close>

fun manager_api :: "'w client_env \<Rightarrow> 'w client adbc" where
  "manager_api env DatabaseNew w = on_database env None (AdbcDatabaseNew null_object no_error (mem w)) w"
| "manager_api env (DatabaseSetOption h k v) w =
     on_database env h (AdbcDatabaseSetOption (denv env) k (Some v) (struct_at (db_structs w) h) no_error (mem w)) w"
| "manager_api env (DatabaseSetLoadFlags h fl) w =
     on_database env h
       (AdbcDriverManagerDatabaseSetLoadFlags fl (struct_at (db_structs w) h) no_error (mem w)) w"
| "manager_api env (DatabaseInit h) w =
     on_database env h (AdbcDatabaseInit (denv env) (struct_at (db_structs w) h) no_error (mem w)) w"
| "manager_api env (DatabaseRelease h) w =
     on_database env h (AdbcDatabaseRelease (denv env) (struct_at (db_structs w) h) no_error (mem w)) w"
| "manager_api env ConnectionNew w = on_connection env None (AdbcConnectionNew null_object no_error (mem w)) w"
| "manager_api env (ConnectionInit h d) w =
     on_connection env h (AdbcConnectionInit (denv env) (struct_at (conn_structs w) h)
       (struct_at (db_structs w) d) no_error (mem w)) w"
| "manager_api env (ConnectionRelease h) w =
     on_connection env h (AdbcConnectionRelease (denv env) (struct_at (conn_structs w) h) no_error (mem w)) w"
| "manager_api env (ConnectionGetOption h k n) w =
     read_connection env h
       (AdbcConnectionGetOption (denv env) k n (struct_at (conn_structs w) h) no_error (mem w)) w"
| "manager_api env (ConnectionGetObjects h depth cat sch) w =
     read_connection env h
       (AdbcConnectionGetObjects (denv env) [AInt (int depth), arg_of cat, arg_of sch] True
         (struct_at (conn_structs w) h) no_error (mem w)) w"
| "manager_api env (ConnectionGetStatistics h cat sch tab approximate) w =
     read_connection env h
       (AdbcConnectionGetStatistics (denv env)
         [arg_of cat, AString sch, AString tab, AInt (if approximate then 1 else 0)] True
         (struct_at (conn_structs w) h) no_error (mem w)) w"
| "manager_api env (StatementNew c) w =
     on_statement env None (AdbcStatementNew (denv env) (struct_at (conn_structs w) c) null_object no_error (mem w)) w"
| "manager_api env (StatementSetSqlQuery h q) w =
     on_statement env h
       (AdbcStatementSetSqlQuery (denv env) [AString q] (struct_at (stmt_structs w) h) no_error (mem w)) w"
| "manager_api env (StatementSetOption h k v) w =
     on_statement env h
       (AdbcStatementSetOption (denv env) [AString k, AString v] (struct_at (stmt_structs w) h) no_error (mem w)) w"
| "manager_api env (StatementBindStream h b) w =
     on_statement env h
       (AdbcStatementBindStream (denv env) (bind_args env b) (struct_at (stmt_structs w) h) no_error (mem w)) w"
| "manager_api env (StatementExecuteQuery h out) w =
     on_statement env h
       (AdbcStatementExecuteQuery (denv env) [] out (struct_at (stmt_structs w) h) no_error (mem w)) w"
| "manager_api env (StatementExecuteSchema h) w =
     on_statement env h
       (AdbcStatementExecuteSchema (denv env) [] (struct_at (stmt_structs w) h) no_error (mem w)) w"
| "manager_api env (StatementRelease h) w =
     on_statement env h (AdbcStatementRelease (denv env) (struct_at (stmt_structs w) h) no_error (mem w)) w"
| "manager_api env (StreamGetSchema h) w =
     (case ErrorArrayStreamGetSchema (stream_callbacks env) (stream_of w h) (mem w) of
        Inl ex \<Rightarrow> (crash_reply, w\<lparr>crashed := Some ex\<rparr>)
      | Inr (out, m) \<Rightarrow> (reply_of env (result_out out no_error) None, w\<lparr>mem := m\<rparr>))"

section \<open>The contract of the handles\<close>

text \<open>The structs that hold something, as the handles of the extension see them.\<close>

definition live_of :: "('t object \<Rightarrow> bool) \<Rightarrow> 't object list \<Rightarrow> nat set" where
  "live_of used xs = {i. i < length xs \<and> used (xs ! i)}"

definition live_structs :: "'w client \<Rightarrow> (hkind \<times> nat) set" where
  "live_structs w =
     Pair Db ` live_of has_data (db_structs w) \<union> Pair Conn ` live_of has_data (conn_structs w) \<union>
     Pair Stmt ` live_of is_statement (stmt_structs w)"

text \<open>
  What the API's documentation asks of drivers: a release clears the private data, and no function but
  those that create or release an object changes it; a creation that fails leaves it null, and the
  creation of a database does not fail.
\<close>

definition creates :: "string set" where
  "creates = {''DatabaseNew'', ''ConnectionNew'', ''StatementNew''}"

definition releases :: "string set" where
  "releases = {''DatabaseRelease'', ''ConnectionRelease'', ''StatementRelease''}"

definition driver_contract :: "'w driver_env \<Rightarrow> bool" where
  "driver_contract env \<longleftrightarrow>
     (\<forall>i f h args e w. case fst (driver_calls env i f h args e w) of r \<Rightarrow>
        (f = ''DatabaseNew'' \<longrightarrow> dr_status r = ADBC_STATUS_OK) \<and>
        (f \<in> creates \<longrightarrow> (dr_data r = None \<longleftrightarrow> dr_status r \<noteq> ADBC_STATUS_OK)) \<and>
        (f \<in> releases \<longrightarrow> dr_data r = None) \<and>
        (f \<notin> creates \<union> releases \<longrightarrow> dr_data r = h))"

lemma live_of_update:
  "i < length xs \<Longrightarrow> live_of used (xs[i := x]) = live_of used xs - {i} \<union> (if used x then {i} else {})"
  by (auto simp: live_of_def nth_list_update)

lemma live_of_append: "live_of used (xs @ [x]) = live_of used xs \<union> (if used x then {length xs} else {})"
  by (auto simp: live_of_def nth_append less_Suc_eq)

lemma live_of_length: "length xs \<notin> live_of used xs"
  by (simp add: live_of_def)

lemma null_object_unused [simp]: "\<not> has_data null_object" "\<not> is_statement null_object"
  by (simp_all add: has_data_def is_statement_def null_object_def)

lemma put_struct_live:
  assumes "put_struct used xs h x = (h', xs')" and "set_option h \<subseteq> live_of used xs"
  shows "live_of used xs' = live_of used xs - set_option h \<union> set_option h'"
    and "set_option h' \<inter> (live_of used xs - set_option h) = {}"
    and "\<not> used x \<Longrightarrow> h' = None"
  using assms
  by (cases h; force simp: put_struct_def live_of_update live_of_append live_of_def nth_list_update
      nth_append less_Suc_eq split: if_splits)+

lemma tag_image: "tag k h = Pair k ` set_option h"
  by (cases h) simp_all

lemma tag_live:
  "tag Db h \<subseteq> live_structs w \<longleftrightarrow> set_option h \<subseteq> live_of has_data (db_structs w)"
  "tag Conn h \<subseteq> live_structs w \<longleftrightarrow> set_option h \<subseteq> live_of has_data (conn_structs w)"
  "tag Stmt h \<subseteq> live_structs w \<longleftrightarrow> set_option h \<subseteq> live_of is_statement (stmt_structs w)"
  by (auto simp: tag_image live_structs_def)

text \<open>What the contract asks of a call on a handle.\<close>

definition exchange_ok :: "hkind \<Rightarrow> hnd \<Rightarrow> 'w client \<Rightarrow> reply \<times> 'w client \<Rightarrow> bool" where
  "exchange_ok k h w r \<longleftrightarrow>
     live_structs (snd r) = (live_structs w - tag k h) \<union> tag k (rp_handle (fst r)) \<and>
     tag k (rp_handle (fst r)) \<inter> (live_structs w - tag k h) = {}"

lemma crash_handle [simp]: "rp_handle crash_reply = None"
  by (simp add: crash_reply_def fail_reply_def ok_reply_def)

lemma reply_handle [simp]: "rp_handle (reply_of env r h) = h"
  by (simp add: reply_of_def)

lemma put_null:
  "put_struct has_data xs h null_object = (None, snd (put_struct has_data xs h null_object))"
  "put_struct is_statement ys h null_object = (None, snd (put_struct is_statement ys h null_object))"
  by (cases h; simp add: put_struct_def)+

lemma exchange_database:
  assumes "tag Db h \<subseteq> live_structs w" and "put_struct has_data (db_structs w) h x = (rp_handle r, db_structs w')"
    and "conn_structs w' = conn_structs w" and "stmt_structs w' = stmt_structs w"
  shows "exchange_ok Db h w (r, w')"
proof -
  have h: "set_option h \<subseteq> live_of has_data (db_structs w)" using assms(1) by (simp add: tag_live)
  show ?thesis
    using put_struct_live(1,2) [OF assms(2) h] assms(3,4)
    by (auto simp: exchange_ok_def live_structs_def tag_image)
qed

lemma exchange_connection:
  assumes "tag Conn h \<subseteq> live_structs w" and "put_struct has_data (conn_structs w) h x = (rp_handle r, conn_structs w')"
    and "db_structs w' = db_structs w" and "stmt_structs w' = stmt_structs w"
  shows "exchange_ok Conn h w (r, w')"
proof -
  have h: "set_option h \<subseteq> live_of has_data (conn_structs w)" using assms(1) by (simp add: tag_live)
  show ?thesis
    using put_struct_live(1,2) [OF assms(2) h] assms(3,4)
    by (auto simp: exchange_ok_def live_structs_def tag_image)
qed

lemma exchange_statement:
  assumes "tag Stmt h \<subseteq> live_structs w" and "put_struct is_statement (stmt_structs w) h x = (rp_handle r, stmt_structs w')"
    and "db_structs w' = db_structs w" and "conn_structs w' = conn_structs w"
  shows "exchange_ok Stmt h w (r, w')"
proof -
  have h: "set_option h \<subseteq> live_of is_statement (stmt_structs w)" using assms(1) by (simp add: tag_live)
  show ?thesis
    using put_struct_live(1,2) [OF assms(2) h] assms(3,4)
    by (auto simp: exchange_ok_def live_structs_def tag_image)
qed

lemma on_database_ok:
  assumes "tag Db h \<subseteq> live_structs w"
  shows "exchange_ok Db h w (on_database env h res w)"
proof (cases res)
  case (Inl ex)
  show ?thesis unfolding Inl on_database_def sum.case
    by (rule exchange_database [OF assms, where x = null_object], simp_all) (rule put_null)
next
  case (Inr t)
  with assms show ?thesis
    by (cases t) (auto simp: on_database_def split: prod.splits intro: exchange_database)
qed

lemma on_connection_ok:
  assumes "tag Conn h \<subseteq> live_structs w"
  shows "exchange_ok Conn h w (on_connection env h res w)"
proof (cases res)
  case (Inl ex)
  show ?thesis unfolding Inl on_connection_def sum.case
    by (rule exchange_connection [OF assms, where x = null_object], simp_all) (rule put_null)
next
  case (Inr t)
  with assms show ?thesis
    by (cases t) (auto simp: on_connection_def split: prod.splits intro: exchange_connection)
qed

lemma on_statement_ok:
  assumes "tag Stmt h \<subseteq> live_structs w"
  shows "exchange_ok Stmt h w (on_statement env h res w)"
proof (cases res)
  case (Inl ex)
  show ?thesis unfolding Inl on_statement_def sum.case
    by (rule exchange_statement [OF assms, where x = null_object], simp_all) (rule put_null)
next
  case (Inr t)
  with assms show ?thesis
    by (cases t) (auto simp: on_statement_def split: prod.splits intro: exchange_statement)
qed

lemma on_handle_none:
  "(\<And>r x m. res = Inr (r, x, m) \<Longrightarrow> \<not> has_data x) \<Longrightarrow> rp_handle (fst (on_database env h res w)) = None"
  "(\<And>r x m. res2 = Inr (r, x, m) \<Longrightarrow> \<not> has_data x) \<Longrightarrow> rp_handle (fst (on_connection env h res2 w)) = None"
  "(\<And>r x m. res3 = Inr (r, x, m) \<Longrightarrow> \<not> is_statement x) \<Longrightarrow> rp_handle (fst (on_statement env h res3 w)) = None"
  by (cases res; cases res2; cases res3; cases h;
      auto simp: on_database_def on_connection_def on_statement_def put_struct_def)+

lemma driver_contractD:
  assumes "driver_contract env" and "r = fst (driver_calls env i f h args e w)"
  shows "(f = ''DatabaseNew'' \<longrightarrow> dr_status r = ADBC_STATUS_OK) \<and>
     (f \<in> creates \<longrightarrow> (dr_data r = None \<longleftrightarrow> dr_status r \<noteq> ADBC_STATUS_OK)) \<and>
     (f \<in> releases \<longrightarrow> dr_data r = None) \<and> (f \<notin> creates \<union> releases \<longrightarrow> dr_data r = h)"
  using assms(1) unfolding driver_contract_def assms(2) by blast

text \<open>What a call through the table of a driver that keeps its contract does to the object.\<close>

lemma object_call_effect:
  assumes "driver_contract env" and "object_call env a f args x e m = Inr (r, x', m')"
  shows "private_driver x' = private_driver x" and "m' = m\<lparr>ext := ext m'\<rparr>"
    and "f \<notin> creates \<union> releases \<Longrightarrow> private_data x' = private_data x"
    and "f \<in> releases \<Longrightarrow> \<not> has_data x'"
    and "f \<in> creates \<Longrightarrow> has_data x' \<longleftrightarrow> rs_status r = ADBC_STATUS_OK"
    and "f = ''DatabaseNew'' \<Longrightarrow> rs_status r = ADBC_STATUS_OK"
proof -
  obtain d h rp w where c: "driver_data (private_data x) = Inr h" "call_driver env d f h args e (ext m) = Inr (rp, w)"
    and x': "x' = x\<lparr>private_data := data_of (dr_data rp)\<rparr>" "m' = m\<lparr>ext := w\<rparr>" "rs_status r = dr_status rp"
    using assms(2) by (auto simp: object_call_def r_bind_def split: sum.splits)
  have h: "data_of h = private_data x" using c(1) by (cases "private_data x") (auto simp: data_of_def)
  have data: "has_data x' \<longleftrightarrow> dr_data rp \<noteq> None"
    by (auto simp: x' has_data_def data_of_def split: option.splits)
  have stub: "stub_status f = None" if "f \<in> creates \<union> releases"
  proof -
    have "list_all (\<lambda>f. stub_status f = None) [''DatabaseNew'', ''ConnectionNew'', ''StatementNew'',
        ''DatabaseRelease'', ''ConnectionRelease'', ''StatementRelease'']" by code_simp
    then show ?thesis using that by (auto simp: creates_def releases_def)
  qed
  have own: "rp = fst (driver_calls env (impl d) f h args e (ext m)) \<or>
      f \<notin> creates \<union> releases \<and> dr_data rp = h"
    using c(2) stub by (auto simp: call_driver_def split: slot.splits option.splits)
  have con: "(f = ''DatabaseNew'' \<longrightarrow> dr_status rp = ADBC_STATUS_OK) \<and>
      (f \<in> creates \<longrightarrow> (dr_data rp = None \<longleftrightarrow> dr_status rp \<noteq> ADBC_STATUS_OK)) \<and>
      (f \<in> releases \<longrightarrow> dr_data rp = None) \<and> (f \<notin> creates \<union> releases \<longrightarrow> dr_data rp = h)"
    using own driver_contractD [OF assms(1)] by (metis UnI1 creates_def insertI1)
  show "private_driver x' = private_driver x" "m' = m\<lparr>ext := ext m'\<rparr>" by (simp_all add: x')
  show "f \<notin> creates \<union> releases \<Longrightarrow> private_data x' = private_data x" using con h by (simp add: x')
  show "f \<in> releases \<Longrightarrow> \<not> has_data x'" using con data by simp
  show "f \<in> creates \<Longrightarrow> has_data x' \<longleftrightarrow> rs_status r = ADBC_STATUS_OK" using con data x'(3) by auto
  show "f = ''DatabaseNew'' \<Longrightarrow> rs_status r = ADBC_STATUS_OK" using con x'(3) by simp
qed

lemma function_kinds [simp]:
  "''DatabaseRelease'' \<in> releases" "''ConnectionRelease'' \<in> releases" "''StatementRelease'' \<in> releases"
  "''DatabaseNew'' \<in> creates" "''ConnectionNew'' \<in> creates" "''StatementNew'' \<in> creates"
  by (simp_all add: releases_def creates_def)

lemma release_clears:
  "driver_contract env \<Longrightarrow> AdbcDatabaseRelease env db e m = Inr (r, x, m') \<Longrightarrow> \<not> has_data x"
  "driver_contract env \<Longrightarrow> AdbcConnectionRelease env c e m = Inr (r2, y, m') \<Longrightarrow> \<not> has_data y"
  "driver_contract env \<Longrightarrow> AdbcStatementRelease env s e m = Inr (r3, z, m') \<Longrightarrow> \<not> is_statement z"
    apply (auto simp: AdbcDatabaseRelease_def answer_def has_data_def null_object_def r_bind_def
      split: option.splits if_splits sum.splits prod.splits) [1]
   apply (auto simp: AdbcConnectionRelease_def answer_def has_data_def r_bind_def
      split: option.splits if_splits sum.splits prod.splits dest!: object_call_effect(4)) [1]
  apply (auto simp: AdbcStatementRelease_def answer_def is_statement_def r_bind_def
      split: option.splits if_splits sum.splits prod.splits) [1]
  done

lemma read_keeps:
  assumes "driver_contract env"
  shows "AdbcConnectionGetOption env k n c e m = Inr (r, c', m') \<Longrightarrow> has_data c' = has_data c"
    and "AdbcConnectionGetObjects env args out c e m = Inr (r, c', m') \<Longrightarrow> has_data c' = has_data c"
    and "AdbcConnectionGetStatistics env args out c e m = Inr (r, c', m') \<Longrightarrow> has_data c' = has_data c"
proof -
  have keep: "has_data x' = has_data x"
    if "object_call env a f args x e m = Inr (r, x', m')" "f \<notin> creates \<union> releases" for a f args x e m r x' m'
    using object_call_effect(3) [OF assms that] by (simp add: has_data_def)
  note splits = option.splits if_splits sum.splits prod.splits
  show "AdbcConnectionGetOption env k n c e m = Inr (r, c', m') \<Longrightarrow> has_data c' = has_data c"
    by (auto simp: AdbcConnectionGetOption_def connection_option_def or_driver_def answer_def r_bind_def
        creates_def releases_def split: splits dest!: keep)
  show "AdbcConnectionGetObjects env args out c e m = Inr (r, c', m') \<Longrightarrow> has_data c' = has_data c"
    by (auto simp: AdbcConnectionGetObjects_def connection_stream_def connection_call_def WRAP_STREAM_def
        guarded_def answer_def r_bind_def creates_def releases_def split: splits dest!: keep)
  show "AdbcConnectionGetStatistics env args out c e m = Inr (r, c', m') \<Longrightarrow> has_data c' = has_data c"
    by (auto simp: AdbcConnectionGetStatistics_def connection_stream_def connection_call_def WRAP_STREAM_def
        guarded_def answer_def r_bind_def creates_def releases_def split: splits dest!: keep)
qed

lemma read_connection_live:
  assumes "\<And>r x m. res = Inr (r, x, m) \<Longrightarrow> has_data x = has_data (struct_at (conn_structs w) h)"
  shows "live_structs (snd (read_connection env h res w)) = live_structs w"
proof (cases res)
  case (Inr t)
  obtain r x m where t: "t = (r, x, m)" by (cases t)
  have "live_of has_data ((conn_structs w)[i := x]) = live_of has_data (conn_structs w)" if "h = Some i" for i
    using assms [OF Inr [unfolded t]] that
    by (cases "i < length (conn_structs w)") (auto simp: struct_at_def live_of_update, auto simp: live_of_def)
  then show ?thesis by (auto simp: Inr t read_connection_def live_structs_def split: option.splits)
qed (simp add: read_connection_def live_structs_def)

lemma stream_schema_live: "live_structs (snd (manager_api env (StreamGetSchema h) w)) = live_structs w"
  by (auto simp: live_structs_def split: sum.split prod.split)


definition minimal_client_env :: "nat client_env" where
  "minimal_client_env = \<lparr>denv = minimal_env, stream_callbacks = (\<lambda>_ _ w. ([], w)),
     decode = (\<lambda>_ _. ([], [])), bind_args = (\<lambda>_. [])\<rparr>"

lemma minimal_contract: "driver_contract minimal_env"
  by (auto simp: driver_contract_def minimal_env_def creates_def releases_def)


section \<open>The life of a connection of the extension\<close>

lemma conn_call:
  assumes "in_use m0 db m" and "private_driver db = Some a" and "\<forall>t. private_data c \<noteq> TempData t"
    and "f \<in> set object_functions"
  shows "\<exists>r c' m'. object_call env a f args c e m = Inr (r, c', m') \<and> in_use m0 db m' \<and>
    private_driver c' = private_driver c \<and> (\<forall>t. private_data c' \<noteq> TempData t)"
proof -
  obtain d where "drivers m a = Some d" "full_table d" using assms(1,2) by (auto simp: in_use_def)
  then obtain r h w where
    c: "object_call env a f args c e m = Inr (r, c\<lparr>private_data := data_of h\<rparr>, m\<lparr>ext := w\<rparr>)"
    using object_call_ok [of m a d f c env args e] assms(3,4) by auto
  have "in_use m0 db (m\<lparr>ext := w\<rparr>)" using assms(1) by (auto simp: in_use_def fresh_drivers_def)
  moreover have "\<forall>t. data_of h \<noteq> TempData t" by (auto simp: data_of_def split: option.splits)
  ultimately show ?thesis using c by simp
qed

text \<open>A connection on a driver: no temporary structure is left in it.\<close>

definition conn_on :: "nat \<Rightarrow> connection \<Rightarrow> bool" where
  "conn_on a c \<longleftrightarrow> private_driver c = Some a \<and> (\<forall>t. private_data c \<noteq> TempData t)"

definition conn_result :: "'w memory \<Rightarrow> database \<Rightarrow> nat \<Rightarrow> (temp_connection, 'w) api \<Rightarrow> bool" where
  "conn_result m0 db a res \<longleftrightarrow>
     (\<exists>r c m. res = Inr (r, c, m) \<and> in_use m0 db m \<and> (has_data c \<longrightarrow> conn_on a c))"

lemma conn_send_options:
  assumes "in_use m0 db m" and "private_driver db = Some a" and "conn_on a c" and "f \<in> set object_functions"
  shows "\<exists>st' c' e' m'. send_options env a f mk opts st c e m = Inr (st', c', e', m') \<and> in_use m0 db m' \<and>
    conn_on a c'"
  using assms
proof (induction opts arbitrary: st c e m)
  case (Cons kv opts)
  obtain k v where kv: "kv = (k, v)" by (cases kv)
  obtain r c1 m1 where c: "object_call env a f [AString k, mk v] c e m = Inr (r, c1, m1)" "in_use m0 db m1" "conn_on a c1"
    using conn_call [OF Cons.prems(1,2) _ Cons.prems(4), of c env "[AString k, mk v]" e] Cons.prems(3)
    by (auto simp: conn_on_def)
  show ?case
    using Cons.IH [OF c(2) Cons.prems(2) c(3) Cons.prems(4), of "rs_status r" "rs_error r"] c kv
    by (cases "rs_status r = ADBC_STATUS_OK") simp_all
qed simp

lemma then_options_result:
  assumes "in_use m0 db m" and "private_driver db = Some a" and "conn_on a c" and "f \<in> set object_functions"
    and "\<And>c e m. in_use m0 db m \<Longrightarrow> conn_on a c \<Longrightarrow> conn_result m0 db a (next c e m)"
  shows "conn_result m0 db a (then_options env a f mk opts next c e m)"
proof -
  obtain st c1 e1 m1 where s: "send_options env a f mk opts ADBC_STATUS_OK c e m = Inr (st, c1, e1, m1)"
    "in_use m0 db m1" "conn_on a c1"
    using conn_send_options [OF assms(1-4), of env mk opts ADBC_STATUS_OK e] by blast
  then show ?thesis using assms(5) [OF s(2,3), of e1]
    by (cases "st = ADBC_STATUS_OK") (auto simp: then_options_def conn_result_def answer_def)
qed

lemma conn_functions:
  "{''ConnectionNew'', ''ConnectionInit'', ''ConnectionRelease'', ''ConnectionSetOption'',
    ''ConnectionSetOptionBytes'', ''ConnectionSetOptionInt'', ''ConnectionSetOptionDouble''}
   \<subseteq> set object_functions"
  by (auto simp: object_function_names)

lemma AdbcConnectionInit_result:
  assumes "driver_contract env" and "in_use m0 db (m\<lparr>temp_connections := temp_connections m - 1\<rparr>)"
    and "private_data c = TempData t" and "private_driver c = None"
  shows "conn_result m0 db (the (private_driver db)) (AdbcConnectionInit env c db e m)"
proof -
  let ?m = "m\<lparr>temp_connections := temp_connections m - 1\<rparr>"
  obtain a where a: "private_driver db = Some a" "\<forall>t. private_data db \<noteq> TempData t"
    using assms(2) by (auto simp: in_use_def)
  obtain h where h: "driver_data (private_data db) = Inr h" using a(2) by (cases "private_data db") auto
  obtain r c1 m1 where new: "object_call env a ''ConnectionNew'' [] (c\<lparr>private_data := NullData\<rparr>) e ?m = Inr (r, c1, m1)"
    "in_use m0 db m1" "private_driver c1 = None" "\<forall>t. private_data c1 \<noteq> TempData t"
    using conn_call [OF assms(2) a(1), of "c\<lparr>private_data := NullData\<rparr>" "''ConnectionNew''" env "[]" e]
      conn_functions assms(4) by auto
  have fails: "\<not> has_data c1" if "rs_status r \<noteq> ADBC_STATUS_OK"
    using object_call_effect(5) [OF assms(1) new(1)] that by simp
  have init: "conn_result m0 db a (object_call env a ''ConnectionInit'' [AHandle h] c e m)"
    if "in_use m0 db m" "conn_on a c" for c e m
    using conn_call [OF that(1) a(1), of c "''ConnectionInit''" env "[AHandle h]" e] that(2) conn_functions
    by (auto simp: conn_result_def conn_on_def)
  note opts = then_options_result [OF _ a(1)]
  have rest: "conn_result m0 db a
      (then_options env a ''ConnectionSetOption'' AString (tc_options t)
        (then_options env a ''ConnectionSetOptionBytes'' ABytes (tc_bytes_options t)
          (then_options env a ''ConnectionSetOptionInt'' AInt (tc_int_options t)
            (then_options env a ''ConnectionSetOptionDouble'' ADouble (tc_double_options t)
              (object_call env a ''ConnectionInit'' [AHandle h]))))
        (c1\<lparr>private_driver := Some a\<rparr>) (rs_error r) m1)"
    by (intro opts init) (use new conn_functions in \<open>auto simp: conn_on_def\<close>)
  show ?thesis
    using a h new fails rest assms(3)
    by (cases "rs_status r = ADBC_STATUS_OK")
      (auto simp: AdbcConnectionInit_def temp_data_def answer_def conn_result_def)
qed

text \<open>After the initialisation of a database the driver's private data is there.\<close>

lemma send_options_keeps:
  assumes "driver_contract env" and "f \<notin> creates \<union> releases"
    and "send_options env a f mk opts st x e m = Inr (st', x', e', m')"
  shows "has_data x' = has_data x"
  using assms(3)
proof (induction opts arbitrary: st x e m)
  case (Cons kv opts)
  obtain k v where kv: "kv = (k, v)" by (cases kv)
  obtain r x1 m1 where c: "object_call env a f [AString k, mk v] x e m = Inr (r, x1, m1)"
    using Cons.prems kv by (cases "object_call env a f [AString k, mk v] x e m") auto
  then have "has_data x1 = has_data x" using object_call_effect(3) [OF assms(1) c assms(2)] by (simp add: has_data_def)
  then show ?case using Cons c kv by (auto split: if_splits)
qed simp

lemma send_all_options_keeps:
  assumes "driver_contract env" and "send_all_options env a args x e m = Inr (st', x', e', m')"
  shows "has_data x' = has_data x"
proof -
  have f: "''DatabaseSetOption'' \<notin> creates \<union> releases" "''DatabaseSetOptionBytes'' \<notin> creates \<union> releases"
    "''DatabaseSetOptionInt'' \<notin> creates \<union> releases" "''DatabaseSetOptionDouble'' \<notin> creates \<union> releases"
    by (auto simp: creates_def releases_def)
  show ?thesis
    using assms(2)
    by (auto simp: send_all_options_def r_bind_def split: sum.splits prod.splits
        dest!: send_options_keeps [OF assms(1) f(1)] send_options_keeps [OF assms(1) f(2)]
          send_options_keeps [OF assms(1) f(3)] send_options_keeps [OF assms(1) f(4)])
qed

lemma configure_database_data:
  assumes "driver_contract env" and "configure_database env a args db e m = Inr (r, db', m')"
    and "private_driver db' \<noteq> None"
  shows "has_data db'"
proof -
  obtain r1 db1 m1 where new: "object_call env a ''DatabaseNew'' [] db no_error m = Inr (r1, db1, m1)"
    using assms(2) by (auto simp: configure_database_def r_bind_def split: sum.splits)
  have ok: "rs_status r1 = ADBC_STATUS_OK" and d1: "has_data db1"
    using object_call_effect(5,6) [OF assms(1) new] by simp_all
  obtain st db2 e2 m2 where opts: "send_all_options env a args db1 (rs_error r1)
      (m1\<lparr>temp_databases := temp_databases m1 - 1\<rparr>) = Inr (st, db2, e2, m2)"
    using assms(2) new ok by (auto simp: configure_database_def r_bind_def split: sum.splits)
  have d2: "has_data db2" using send_all_options_keeps [OF assms(1) opts] d1 by simp
  show ?thesis
  proof (cases "st = ADBC_STATUS_OK")
    case True
    then have init: "object_call env a ''DatabaseInit'' [] db2 e m2 = Inr (r, db', m')"
      using assms(2) new ok opts by (simp add: configure_database_def)
    show ?thesis
      using object_call_effect(3) [OF assms(1) init] d2 by (simp add: has_data_def creates_def releases_def)
  next
    case False
    then have "db' = null_object"
      using assms(2) new ok opts
      by (auto simp: configure_database_def r_bind_def answer_def split: sum.splits)
    then show ?thesis using assms(3) by (simp add: null_object_def)
  qed
qed

lemma AdbcDatabaseInit_data:
  assumes "driver_contract env" and "AdbcDatabaseInit env db e m = Inr (r, db', m')"
    and "private_driver db = None" and "private_driver db' \<noteq> None"
  shows "has_data db'"
proof -
  obtain a args db1 e1 m1 where "configure_database env a args db1 e1 m1 = Inr (r, db', m')"
    using assms(2-4)
    by (auto simp: AdbcDatabaseInit_def answer_def r_bind_def Let_def split: if_splits sum.splits prod.splits)
  then show ?thesis using configure_database_data [OF assms(1)] assms(4) by blast
qed

lemma contract_new_succeeds: "driver_contract env \<Longrightarrow> new_succeeds env"
  using driver_contractD [OF _ refl, of env "''DatabaseNew''"] by (simp add: new_succeeds_def)

text \<open>A world with the database of a handle in some state; or one where it is gone.\<close>

definition holds_db :: "('w memory \<Rightarrow> database \<Rightarrow> 'w memory \<Rightarrow> bool) \<Rightarrow> 'w memory \<Rightarrow> nat \<Rightarrow> 'w client \<Rightarrow> bool" where
  "holds_db S m0 n w \<longleftrightarrow>
     crashed w = None \<and> n < length (db_structs w) \<and> S m0 (db_structs w ! n) (mem w) \<and>
     has_data (db_structs w ! n)"

definition restored :: "'w memory \<Rightarrow> 'w client \<Rightarrow> bool" where
  "restored m0 w \<longleftrightarrow>
     crashed w = None \<and> drivers (mem w) = drivers m0 \<and> temp_databases (mem w) = temp_databases m0 \<and>
     temp_connections (mem w) = temp_connections m0"

lemma in_setup_data: "in_setup m0 db m \<Longrightarrow> has_data db"
  by (auto simp: in_setup_def has_data_def)

lemma database_op_step:
  assumes "holds_db in_setup m0 n w" and "manager_api env c w =
      on_database env (Some n) (run_db_op (denv env) op (struct_at (db_structs w) (Some n)) no_error (mem w)) w"
  shows "\<exists>r w'. manager_api env c w = (r, w') \<and> rp_handle r = Some n \<and> holds_db in_setup m0 n w'"
proof -
  have s: "struct_at (db_structs w) (Some n) = db_structs w ! n" "in_setup m0 (db_structs w ! n) (mem w)"
    using assms(1) by (simp_all add: holds_db_def struct_at_def)
  obtain r db' where "run_db_op (denv env) op (db_structs w ! n) no_error (mem w) = Inr (r, db', mem w)"
    "in_setup m0 db' (mem w)" using run_db_op_setup [OF s(2)] by blast
  then show ?thesis using assms s(1) in_setup_data
    by (simp add: on_database_def put_struct_def holds_db_def)
qed

lemma database_init_step:
  assumes "driver_contract (denv env)" and "holds_db in_setup m0 n w"
  shows "\<exists>r w'. manager_api env (DatabaseInit (Some n)) w = (r, w') \<and>
    (rp_handle r = Some n \<and> holds_db in_use m0 n w' \<or>
     rp_status r \<noteq> ADBC_STATUS_OK \<and>
       (rp_handle r = Some n \<and> holds_db in_setup m0 n w' \<or> rp_handle r = None \<and> restored m0 w'))"
proof -
  let ?db = "db_structs w ! n"
  have w: "crashed w = None" "n < length (db_structs w)" "in_setup m0 ?db (mem w)"
    using assms(2) by (simp_all add: holds_db_def)
  obtain r db' m' where i: "AdbcDatabaseInit (denv env) ?db no_error (mem w) = Inr (r, db', m')"
    "in_use m0 db' m' \<or> (in_setup m0 db' m' \<or> gone m0 db' m') \<and> rs_status r \<noteq> ADBC_STATUS_OK"
    using AdbcDatabaseInit_outcome [OF contract_new_succeeds [OF assms(1)] w(3)] by blast
  have data: "has_data db'" if "in_use m0 db' m'"
    using AdbcDatabaseInit_data [OF assms(1) i(1)] w(3) that by (auto simp: in_setup_def in_use_def)
  have none: "\<not> has_data db'" if "gone m0 db' m'" using that by (simp add: gone_def)
  have "struct_at (db_structs w) (Some n) = ?db" using w(2) by (simp add: struct_at_def)
  then show ?thesis
    using i w(1,2) data none in_setup_data
    by (auto simp: on_database_def put_struct_def holds_db_def restored_def gone_def reply_of_def)
qed

lemma database_release_step:
  assumes "holds_db in_setup m0 n w \<or> holds_db in_use m0 n w"
  shows "restored m0 (release_database (manager_api env) (Some n) w)"
proof -
  let ?db = "db_structs w ! n"
  have w: "crashed w = None" "n < length (db_structs w)" "in_setup m0 ?db (mem w) \<or> in_use m0 ?db (mem w)"
    using assms by (auto simp: holds_db_def)
  obtain r db' m' where "AdbcDatabaseRelease (denv env) ?db no_error (mem w) = Inr (r, db', m')" "gone m0 db' m'"
    using AdbcDatabaseRelease_gone [of m0 ?db "mem w" "denv env" no_error] w(3) by blast
  then show ?thesis using w(1,2)
    by (simp add: release_database_def on_database_def put_struct_def struct_at_def restored_def gone_def)
qed

lemma open_database:
  assumes "driver_contract (denv env)" and "fresh_drivers (mem w)" and "crashed w = None"
    and calls: "handle_calls BinderException (manager_api env)
        [\<lambda>d. DatabaseNew, \<lambda>d. DatabaseSetOption d ''uri'' uri, \<lambda>d. DatabaseSetLoadFlags d ADBC_LOAD_FLAG_DEFAULT,
         \<lambda>d. DatabaseInit d] None w = (res, h, w')"
  shows "(\<exists>n. h = Some n \<and> (holds_db in_use (mem w) n w' \<or> holds_db in_setup (mem w) n w' \<and> isl res)) \<or>
    h = None \<and> isl res \<and> restored (mem w) w'"
proof -
  let ?n = "length (db_structs w)"
  obtain r1 w1 where 1: "manager_api env DatabaseNew w = (r1, w1)" "rp_status r1 = ADBC_STATUS_OK"
    "rp_handle r1 = Some ?n" "holds_db in_setup (mem w) ?n w1"
    using assms(2,3)
    by (simp add: on_database_def AdbcDatabaseNew_def answer_def put_struct_def has_data_def holds_db_def
        in_setup_def fresh_drivers_def reply_of_def result_of_def)
  obtain r2 w2 where 2: "manager_api env (DatabaseSetOption (Some ?n) ''uri'' uri) w1 = (r2, w2)"
    "rp_handle r2 = Some ?n" "holds_db in_setup (mem w) ?n w2"
    using database_op_step [OF 1(4), of env "DatabaseSetOption (Some ?n) ''uri'' uri" "SetOption ''uri'' uri"]
    by auto
  obtain r3 w3 where 3: "manager_api env (DatabaseSetLoadFlags (Some ?n) ADBC_LOAD_FLAG_DEFAULT) w2 = (r3, w3)"
    "rp_handle r3 = Some ?n" "holds_db in_setup (mem w) ?n w3"
    using database_op_step [OF 2(3), of env "DatabaseSetLoadFlags (Some ?n) ADBC_LOAD_FLAG_DEFAULT"
        "SetLoadFlags ADBC_LOAD_FLAG_DEFAULT"] by auto
  obtain r4 w4 where 4: "manager_api env (DatabaseInit (Some ?n)) w3 = (r4, w4)"
    "rp_handle r4 = Some ?n \<and> holds_db in_use (mem w) ?n w4 \<or>
     rp_status r4 \<noteq> ADBC_STATUS_OK \<and>
       (rp_handle r4 = Some ?n \<and> holds_db in_setup (mem w) ?n w4 \<or> rp_handle r4 = None \<and> restored (mem w) w4)"
    using database_init_step [OF assms(1) 3(3)] by blast
  show ?thesis
    using calls 1 2 3 4
    by (cases "rp_status r2 = ADBC_STATUS_OK"; cases "rp_status r3 = ADBC_STATUS_OK";
        cases "rp_status r4 = ADBC_STATUS_OK") (auto simp del: manager_api.simps)
qed

text \<open>A connection next to its database.\<close>

definition holds_conn :: "'w memory \<Rightarrow> nat \<Rightarrow> nat \<Rightarrow> 'w client \<Rightarrow> bool" where
  "holds_conn m0 n c w \<longleftrightarrow>
     holds_db in_use m0 n w \<and> c < length (conn_structs w) \<and> has_data (conn_structs w ! c) \<and>
     conn_on (the (private_driver (db_structs w ! n))) (conn_structs w ! c)"

lemma open_connection:
  assumes "driver_contract (denv env)" and "holds_db in_use m0 n w"
    and calls: "handle_calls BinderException (manager_api env)
        [\<lambda>c. ConnectionNew, \<lambda>c. ConnectionInit c (Some n)] None w = (res, h, w')"
  shows "(case h of None \<Rightarrow> holds_db in_use m0 n w' | Some c \<Rightarrow> holds_conn m0 n c w')"
proof -
  let ?c = "length (conn_structs w)" and ?db = "db_structs w ! n"
  let ?conn = "\<lparr>private_data = TempData TempConnection_new, private_driver = None\<rparr>"
  let ?w1 = "w\<lparr>mem := (mem w)\<lparr>temp_connections := temp_connections (mem w) + 1\<rparr>,
    conn_structs := conn_structs w @ [?conn]\<rparr>"
  obtain r1 where 1: "manager_api env ConnectionNew w = (r1, ?w1)" "rp_status r1 = ADBC_STATUS_OK"
    "rp_handle r1 = Some ?c"
    by (simp add: on_connection_def AdbcConnectionNew_def answer_def put_struct_def has_data_def
        reply_of_def result_of_def)
  have w: "crashed w = None" "n < length (db_structs w)" "in_use m0 ?db (mem w)" "has_data ?db"
    using assms(2) by (simp_all add: holds_db_def)
  have at: "struct_at (conn_structs ?w1) (Some ?c) = ?conn" "struct_at (db_structs ?w1) (Some n) = ?db"
    using w(2) by (simp_all add: struct_at_def)
  obtain r c m where i: "AdbcConnectionInit (denv env) ?conn ?db no_error (mem ?w1) = Inr (r, c, m)"
    "in_use m0 ?db m" "has_data c \<longrightarrow> conn_on (the (private_driver ?db)) c"
    using AdbcConnectionInit_result [OF assms(1), of m0 ?db "mem ?w1" ?conn TempConnection_new no_error] w(3)
    by (auto simp: conn_result_def)
  have 2: "manager_api env (ConnectionInit (Some ?c) (Some n)) ?w1 =
      (reply_of env r (if has_data c then Some ?c else None), ?w1\<lparr>mem := m, conn_structs := conn_structs w @ [c]\<rparr>)"
    by (simp only: manager_api.simps at i(1)) (simp add: on_connection_def put_struct_def)
  show ?thesis
    using calls 1 2 i(2,3) w
    by (cases "rs_status r = ADBC_STATUS_OK")
      (auto simp: holds_conn_def holds_db_def reply_of_def simp del: manager_api.simps split: if_splits option.splits)
qed

lemma connection_release_step:
  assumes "holds_conn m0 n c w"
  shows "holds_db in_use m0 n (release_connection (manager_api env) (Some c) w)"
proof -
  let ?db = "db_structs w ! n" and ?c = "conn_structs w ! c"
  obtain a where a: "private_driver ?db = Some a" "in_use m0 ?db (mem w)"
    using assms by (auto simp: holds_conn_def holds_db_def in_use_def)
  have c: "private_driver ?c = Some a" "\<forall>t. private_data ?c \<noteq> TempData t" "c < length (conn_structs w)"
    using assms a(1) by (simp_all add: holds_conn_def conn_on_def)
  obtain r c' m where "object_call (denv env) a ''ConnectionRelease'' [] ?c no_error (mem w) = Inr (r, c', m)"
    "in_use m0 ?db m"
    using conn_call [OF a(2,1) c(2), of "''ConnectionRelease''" "denv env" "[]" no_error] conn_functions by auto
  then show ?thesis
    using assms c
    by (simp add: release_connection_def on_connection_def AdbcConnectionRelease_def answer_def put_struct_def
        struct_at_def holds_conn_def holds_db_def)
qed


text \<open>
  A machine on which every library opens and has every entrypoint, with the driver above and the
  setting of options besides.
\<close>

definition example_client_env :: "nat client_env" where
  "example_client_env = minimal_client_env\<lparr>denv := minimal_env\<lparr>
     dl := no_dl\<lparr>dlopen := (\<lambda>_ _. Inr 1), dlsym := (\<lambda>_ _. Inr 1)\<rparr>,
     init_funcs := (\<lambda>_ v e w. (ADBC_STATUS_OK, minimal_table\<lparr>dt_functions :=
       (\<lambda>f. dt_functions minimal_table f \<or> f = ''DatabaseSetOption'')\<rparr>, e, w))\<rparr>\<rparr>"

definition example_client :: "nat client" where
  "example_client = \<lparr>mem = empty_memory, db_structs = [], conn_structs = [], stmt_structs = [],
     stream_of = (\<lambda>_. NoStream), crashed = None\<rparr>"

lemma example_client_contract:
  "driver_contract (denv example_client_env)" "fresh_drivers (mem example_client)" "crashed example_client = None"
  using minimal_contract
  by (simp_all add: driver_contract_def example_client_env_def example_client_def fresh_drivers_def empty_memory_def)


end
