(* ===== verification/Arrow_Buffer.thy ===== *)
theory Arrow_Buffer
  imports Adbc_Prelude "HOL-Library.Monad_Syntax"
begin

text \<open>
  The growable byte buffers of nanoarrow (adbc\_nanoarrow.h, the inline functions on ArrowBuffer)
  and the allocators they grow through (adbc\_nanoarrow.cpp).  A block of memory is the list of its
  bytes and a null pointer is None, so a buffer knows which bytes it may touch: an access outside
  the block, or through a null pointer, makes the operation None, which stands for undefined
  behaviour.  Sizes are unbounded integers: a block of 2^62 bytes, from which on the doubling of the
  capacity would overflow, cannot be allocated.
\<close>

section \<open>Error codes\<close>

datatype errno = NANOARROW_OK | EINVAL | ENOMEM | ERANGE | EEXIST | ENOTSUP | EOVERFLOW
  | EACCES | EAUTH | ECANCELED | EIO | ENOENT | ETIMEDOUT

type_synonym 's nano = "(errno \<times> 's) option"

text \<open>The macro NANOARROW\_RETURN\_NOT\_OK: go on with the next call only when this one succeeded.\<close>

definition nano_then :: "'s nano \<Rightarrow> ('s \<Rightarrow> 's nano) \<Rightarrow> 's nano" where
  "nano_then r f = (case r of None \<Rightarrow> None
     | Some (e, s) \<Rightarrow> if e = NANOARROW_OK then f s else Some (e, s))"

lemma nano_then_simps [simp]:
  "nano_then None f = None"
  "nano_then (Some (NANOARROW_OK, s)) f = f s"
  "e \<noteq> NANOARROW_OK \<Longrightarrow> nano_then (Some (e, s)) f = Some (e, s)"
  by (simp_all add: nano_then_def)

section \<open>Memory\<close>

type_synonym byte = "8 word"
type_synonym block = "byte list option"

text \<open>Reading and writing a run of bytes of a block, as memcpy does.\<close>

definition load :: "byte list \<Rightarrow> nat \<Rightarrow> nat \<Rightarrow> byte list option" where
  "load d off n = (if off + n \<le> length d then Some (take n (drop off d)) else None)"

definition store :: "byte list \<Rightarrow> nat \<Rightarrow> byte list \<Rightarrow> byte list option" where
  "store d off bs =
     (if off + length bs \<le> length d then Some (take off d @ bs @ drop (off + length bs) d) else None)"

lemma load_SomeI: "off + n \<le> length d \<Longrightarrow> load d off n = Some (take n (drop off d))"
  by (simp add: load_def)

lemma load_append [simp]: "load (xs @ ys @ zs) (length xs) (length ys) = Some ys"
  by (simp add: load_def)

lemma store_Some_iff:
  "store d off bs = Some d' \<longleftrightarrow>
     off + length bs \<le> length d \<and> d' = take off d @ bs @ drop (off + length bs) d"
  by (auto simp: store_def)

text \<open>The bytes of a number, in the order of the little-endian machines the extension is built for.\<close>

definition le_bytes :: "'a::len word \<Rightarrow> byte list" where
  "le_bytes w = map (\<lambda>i. ucast (drop_bit (8 * i) w)) [0..<LENGTH('a) div 8]"

fun of_le_bytes :: "byte list \<Rightarrow> 'a::len word" where
  "of_le_bytes [] = 0"
| "of_le_bytes (b # bs) = or (ucast b) (push_bit 8 (of_le_bytes bs))"

lemma length_le_bytes [simp]: "length (le_bytes (w :: 'a::len word)) = LENGTH('a) div 8"
  by (simp add: le_bytes_def)

lemma bit_of_le_bytes:
  "bit (of_le_bytes bs :: 'a::len word) i \<longleftrightarrow>
     i < LENGTH('a) \<and> i < 8 * length bs \<and> bit (bs ! (i div 8)) (i mod 8)"
proof (induction bs arbitrary: i)
  case (Cons b bs)
  show ?case
  proof (cases "i < 8")
    case True
    then show ?thesis
      by (auto simp: bit_or_iff bit_push_bit_iff bit_unsigned_iff)
  next
    case False
    then obtain j where j: "i = 8 + j"
      using le_Suc_ex by (metis not_less)
    have "\<not> bit b i" using False by (metis bit_imp_le_length len_num0 len_num1 len_bit0 not_less
      mult_2_right mult.commute num_double mult_1 numeral_Bit0 one_add_one)
    then show ?thesis
      using Cons.IH [of j] by (auto simp: j bit_or_iff bit_push_bit_iff bit_unsigned_iff)
  qed
qed simp

lemma of_le_bytes_le_bytes:
  assumes "8 dvd LENGTH('a)"
  shows "of_le_bytes (le_bytes w) = (w :: 'a::len word)"
proof (rule bit_word_eqI)
  fix i assume "i < LENGTH('a)"
  with assms show "bit (of_le_bytes (le_bytes w) :: 'a word) i = bit w i"
    by (auto simp: bit_of_le_bytes le_bytes_def bit_unsigned_iff bit_drop_bit_eq
        less_mult_imp_div_less mult.commute elim!: dvdE)
qed

section \<open>Allocators\<close>

text \<open>
  \<open>reallocate p old new\<close> is the call of an allocator's reallocate function.  The default one calls
  \<open>realloc\<close>: it keeps the old bytes, and the new ones are whatever the memory holds, or it
  fails; \<open>memory\<close> decides both.  The reallocation function of the deallocator-only allocators
  fails always (as compiled for release).
\<close>

type_synonym reallocate = "block \<Rightarrow> int \<Rightarrow> int \<Rightarrow> block"
type_synonym memory = "int \<Rightarrow> (nat \<Rightarrow> byte) option"

definition ArrowRealloc :: "memory \<Rightarrow> block \<Rightarrow> int \<Rightarrow> block" where
  "ArrowRealloc memory p new_size = (case memory new_size of None \<Rightarrow> None
     | Some fresh \<Rightarrow>
         (let old = (case p of None \<Rightarrow> [] | Some d \<Rightarrow> d) in
          Some (map (\<lambda>i. if i < length old then old ! i else fresh i) [0..<nat new_size])))"

definition ArrowBufferAllocatorMallocReallocate :: "memory \<Rightarrow> reallocate" where
  "ArrowBufferAllocatorMallocReallocate memory ptr old_size new_size =
     ArrowRealloc memory ptr new_size"

definition ArrowBufferDeallocatorReallocate :: reallocate where
  "ArrowBufferDeallocatorReallocate ptr old_size new_size = None"

section \<open>Buffers\<close>

record arrow_buffer =
  ab_data :: block
  ab_size :: int
  ab_capacity :: int

definition ArrowBufferInit :: arrow_buffer where
  "ArrowBufferInit = \<lparr>ab_data = None, ab_size = 0, ab_capacity = 0\<rparr>"

definition ArrowGrowByFactor :: "int \<Rightarrow> int \<Rightarrow> int" where
  "ArrowGrowByFactor current_capacity new_capacity =
     (let doubled_capacity = current_capacity * 2 in
      if doubled_capacity > new_capacity then doubled_capacity else new_capacity)"

text \<open>The buffer after Reset and the two buffers after Move: what the first one held is in the second.\<close>

definition ArrowBufferReset :: "arrow_buffer \<Rightarrow> arrow_buffer" where
  "ArrowBufferReset b = ArrowBufferInit"

definition ArrowBufferMove :: "arrow_buffer \<Rightarrow> arrow_buffer \<times> arrow_buffer" where
  "ArrowBufferMove src = (ArrowBufferInit, src)"

definition ArrowBufferResize ::
  "reallocate \<Rightarrow> arrow_buffer \<Rightarrow> int \<Rightarrow> bool \<Rightarrow> errno \<times> arrow_buffer" where
  "ArrowBufferResize re b new_size shrink_to_fit =
     (if new_size < 0 then (EINVAL, b)
      else if new_size > ab_capacity b \<or> shrink_to_fit \<and> new_size < ab_capacity b then
        (let d = re (ab_data b) (ab_capacity b) new_size in
         if d = None \<and> new_size > 0
         then (ENOMEM, b\<lparr>ab_data := d, ab_size := 0, ab_capacity := 0\<rparr>)
         else (NANOARROW_OK, b\<lparr>ab_data := d, ab_size := new_size, ab_capacity := new_size\<rparr>))
      else (NANOARROW_OK, b\<lparr>ab_size := new_size\<rparr>))"

definition ArrowBufferReserve ::
  "reallocate \<Rightarrow> arrow_buffer \<Rightarrow> int \<Rightarrow> errno \<times> arrow_buffer" where
  "ArrowBufferReserve re b additional =
     (let min_capacity = ab_size b + additional in
      if min_capacity \<le> ab_capacity b then (NANOARROW_OK, b)
      else
        (let new_capacity = ArrowGrowByFactor (ab_capacity b) min_capacity;
             d = re (ab_data b) (ab_capacity b) new_capacity in
         if d = None \<and> new_capacity > 0
         then (ENOMEM, b\<lparr>ab_data := d, ab_size := 0, ab_capacity := 0\<rparr>)
         else (NANOARROW_OK, b\<lparr>ab_data := d, ab_capacity := new_capacity\<rparr>)))"

definition ArrowBufferAppendUnsafe ::
  "arrow_buffer \<Rightarrow> byte list \<Rightarrow> int \<Rightarrow> arrow_buffer option" where
  "ArrowBufferAppendUnsafe b data n =
     (if n > 0 then
        do {
          src \<leftarrow> load data 0 (nat n);
          d \<leftarrow> ab_data b;
          d' \<leftarrow> store d (nat (ab_size b)) src;
          Some (b\<lparr>ab_data := Some d', ab_size := ab_size b + n\<rparr>)
        }
      else Some b)"

definition ArrowBufferAppend ::
  "reallocate \<Rightarrow> arrow_buffer \<Rightarrow> byte list \<Rightarrow> int \<Rightarrow> arrow_buffer nano" where
  "ArrowBufferAppend re b data n =
     nano_then (Some (ArrowBufferReserve re b n))
       (\<lambda>b. map_option (Pair NANOARROW_OK) (ArrowBufferAppendUnsafe b data n))"

text \<open>AppendInt8, AppendUInt8 and so on: the bytes of the value, at its width.\<close>

definition ArrowBufferAppendInt ::
  "reallocate \<Rightarrow> arrow_buffer \<Rightarrow> 'a::len word \<Rightarrow> arrow_buffer nano" where
  "ArrowBufferAppendInt re b value = ArrowBufferAppend re b (le_bytes value) (int (LENGTH('a) div 8))"

definition ArrowBufferAppendFill ::
  "reallocate \<Rightarrow> arrow_buffer \<Rightarrow> byte \<Rightarrow> int \<Rightarrow> arrow_buffer nano" where
  "ArrowBufferAppendFill re b value n =
     (if n = 0 then Some (NANOARROW_OK, b)
      else nano_then (Some (ArrowBufferReserve re b n))
        (\<lambda>b. do {
           d \<leftarrow> ab_data b;
           d' \<leftarrow> store d (nat (ab_size b)) (replicate (nat n) value);
           Some (NANOARROW_OK, b\<lparr>ab_data := Some d', ab_size := ab_size b + n\<rparr>)
         }))"

text \<open>The invariant of a buffer, and the bytes it holds.\<close>

definition ab_block :: "arrow_buffer \<Rightarrow> byte list" where
  "ab_block b = (case ab_data b of None \<Rightarrow> [] | Some d \<Rightarrow> d)"

definition ab_wf :: "arrow_buffer \<Rightarrow> bool" where
  "ab_wf b \<longleftrightarrow> 0 \<le> ab_size b \<and> ab_size b \<le> ab_capacity b
     \<and> int (length (ab_block b)) = ab_capacity b"

definition ab_bytes :: "arrow_buffer \<Rightarrow> byte list" where
  "ab_bytes b = take (nat (ab_size b)) (ab_block b)"

lemma ab_wf_Init [simp]: "ab_wf ArrowBufferInit" and ab_bytes_Init [simp]: "ab_bytes ArrowBufferInit = []"
  by (simp_all add: ab_wf_def ab_bytes_def ab_block_def ArrowBufferInit_def)

lemma length_ab_bytes: "ab_wf b \<Longrightarrow> int (length (ab_bytes b)) = ab_size b"
  by (auto simp: ab_wf_def ab_bytes_def min_def)

section \<open>What a buffer needs of its allocator\<close>

text \<open>
  An allocator may fail; when it does not, the block has the size asked for and the old bytes are at its
  start, as far as they fit.
\<close>

locale byte_allocator =
  fixes reallocate :: "block \<Rightarrow> int \<Rightarrow> int \<Rightarrow> block"
  assumes reallocate_size: "reallocate p old new = Some d \<Longrightarrow> 0 \<le> new \<Longrightarrow> int (length d) = new"
    and reallocate_keeps: "reallocate (Some d0) old new = Some d
      \<Longrightarrow> take (min (length d0) (nat new)) d = take (nat new) d0"
begin

text \<open>Whatever the outcome the buffer is well formed; it is emptied only by a failure.\<close>

lemma reserve:
  assumes "ab_wf b" "0 \<le> n" "ArrowBufferReserve reallocate b n = (e, b')"
  shows "ab_wf b' \<and> (e = NANOARROW_OK \<and> ab_bytes b' = ab_bytes b \<and> ab_size b' = ab_size b
           \<and> ab_size b + n \<le> ab_capacity b' \<or> e = ENOMEM \<and> ab_bytes b' = [])"
proof (cases "ab_size b + n \<le> ab_capacity b")
  case True
  with assms show ?thesis by (auto simp: ArrowBufferReserve_def)
next
  case False
  let ?cap = "ArrowGrowByFactor (ab_capacity b) (ab_size b + n)"
  have cap: "?cap \<ge> ab_size b + n" "?cap > ab_capacity b" "?cap > 0"
    using False assms(1) by (auto simp: ArrowGrowByFactor_def ab_wf_def Let_def)
  show ?thesis
  proof (cases "reallocate (ab_data b) (ab_capacity b) ?cap")
    case None
    with assms(3) cap False have "e = ENOMEM" "ab_data b' = None" "ab_size b' = 0" "ab_capacity b' = 0"
      by (auto simp: ArrowBufferReserve_def Let_def)
    then show ?thesis by (simp add: ab_wf_def ab_bytes_def ab_block_def)
  next
    case (Some d)
    with assms(3) cap False have b': "e = NANOARROW_OK" "b' = b\<lparr>ab_data := Some d, ab_capacity := ?cap\<rparr>"
      by (auto simp: ArrowBufferReserve_def Let_def)
    have len: "int (length d) = ?cap"
      using reallocate_size [OF Some] cap by simp
    have "take (nat (ab_size b)) d = ab_bytes b"
    proof (cases "ab_data b")
      case None
      then show ?thesis using assms(1) by (simp add: ab_bytes_def ab_block_def ab_wf_def)
    next
      case (Some d0)
      then have l0: "int (length d0) = ab_capacity b" "nat (ab_size b) \<le> length d0"
        using assms(1) by (auto simp: ab_wf_def ab_block_def)
      have "take (length d0) d = d0"
        using reallocate_keeps [of d0 "ab_capacity b" ?cap d] \<open>reallocate (ab_data b) _ _ = _\<close> Some l0 cap
        by (simp add: min_absorb1)
      then have "take (nat (ab_size b)) d0 = take (nat (ab_size b)) d"
        using l0 by (metis min.absorb1 take_take)
      then show ?thesis using Some by (simp add: ab_bytes_def ab_block_def)
    qed
    then show ?thesis
      using b' len cap assms(1) by (simp add: ab_wf_def ab_bytes_def ab_block_def)
  qed
qed

end

lemma append_unsafe:
  assumes "ab_wf b" "0 \<le> n" "n \<le> int (length data)" "ab_size b + n \<le> ab_capacity b"
  obtains b' where "ArrowBufferAppendUnsafe b data n = Some b'" "ab_wf b'"
    "ab_bytes b' = ab_bytes b @ take (nat n) data" "ab_size b' = ab_size b + n"
    "ab_capacity b' = ab_capacity b"
proof (cases "n = 0")
  case True
  with assms show ?thesis by (intro that [of b]) (simp_all add: ArrowBufferAppendUnsafe_def)
next
  case False
  with assms obtain d where d: "ab_data b = Some d" "int (length d) = ab_capacity b"
    by (cases "ab_data b") (auto simp: ab_wf_def ab_block_def)
  let ?k = "nat (ab_size b)" and ?src = "take (nat n) data"
  let ?d = "take ?k d @ ?src @ drop (?k + nat n) d"
  have len: "length ?src = nat n" "?k + nat n \<le> length d" "length (take ?k d) = ?k"
    using assms d by (auto simp: ab_wf_def)
  let ?b = "b\<lparr>ab_data := Some ?d, ab_size := ab_size b + n\<rparr>"
  have "store d ?k ?src = Some ?d"
    using len by (simp add: store_def)
  then have "ArrowBufferAppendUnsafe b data n = Some ?b"
    using False assms d by (simp add: ArrowBufferAppendUnsafe_def load_def)
  moreover have "ab_wf ?b"
    using assms d len by (simp add: ab_wf_def ab_block_def)
  moreover have "ab_bytes ?b = ab_bytes b @ ?src"
    using assms d len by (simp add: ab_bytes_def ab_block_def ab_wf_def nat_add_distrib)
  ultimately show ?thesis by (intro that [of ?b]) simp_all
qed

context byte_allocator begin

text \<open>Append: never an access outside the block; on success the bytes are at the end.\<close>

lemma append:
  assumes "ab_wf b" "0 \<le> n" "n \<le> int (length data)"
  shows "\<exists>e b'. ArrowBufferAppend reallocate b data n = Some (e, b') \<and> ab_wf b'
    \<and> (e = NANOARROW_OK \<and> ab_bytes b' = ab_bytes b @ take (nat n) data
       \<or> e = ENOMEM \<and> ab_bytes b' = [])"
proof -
  obtain e b1 where r: "ArrowBufferReserve reallocate b n = (e, b1)" by force
  note R = reserve [OF assms(1,2) r]
  show ?thesis
  proof (cases "e = NANOARROW_OK")
    case True
    with R have b1: "ab_wf b1" "ab_bytes b1 = ab_bytes b" "ab_size b1 + n \<le> ab_capacity b1" by auto
    from append_unsafe [OF b1(1) assms(2,3) b1(3)] obtain b2 where
      "ArrowBufferAppendUnsafe b1 data n = Some b2" "ab_wf b2" "ab_bytes b2 = ab_bytes b @ take (nat n) data"
      using b1(2) by metis
    then show ?thesis by (simp add: ArrowBufferAppend_def r True)
  next
    case False
    then show ?thesis using R by (auto simp: ArrowBufferAppend_def r)
  qed
qed

lemma append_int:
  assumes "ab_wf b"
  shows "\<exists>e b'. ArrowBufferAppendInt reallocate b value = Some (e, b') \<and> ab_wf b'
    \<and> (e = NANOARROW_OK \<and> ab_bytes b' = ab_bytes b @ le_bytes value \<or> e = ENOMEM \<and> ab_bytes b' = [])"
  using append [OF assms, of "int (length (le_bytes value))" "le_bytes value"]
  by (simp add: ArrowBufferAppendInt_def)

lemma append_fill:
  assumes "ab_wf b" "0 \<le> n"
  shows "\<exists>e b'. ArrowBufferAppendFill reallocate b value n = Some (e, b') \<and> ab_wf b'
    \<and> (e = NANOARROW_OK \<and> ab_bytes b' = ab_bytes b @ replicate (nat n) value \<or> e = ENOMEM \<and> ab_bytes b' = [])"
proof (cases "n = 0")
  case False
  let ?vs = "replicate (nat n) value"
  have "ArrowBufferAppendFill reallocate b value n = ArrowBufferAppend reallocate b ?vs n"
    using False assms(2)
    by (auto simp: ArrowBufferAppendFill_def ArrowBufferAppend_def ArrowBufferAppendUnsafe_def load_def
        nano_then_def split: prod.splits Option.bind_splits)
  then show ?thesis using append [OF assms, of ?vs] assms(2) by simp
qed (use assms in \<open>simp add: ArrowBufferAppendFill_def\<close>)

lemma resize:
  assumes "ab_wf b" "ArrowBufferResize reallocate b n shrink = (e, b')"
  shows "ab_wf b' \<and> (e = EINVAL \<and> n < 0 \<and> b' = b \<or> e = ENOMEM \<and> ab_bytes b' = []
    \<or> e = NANOARROW_OK \<and> ab_size b' = n
      \<and> take (nat (min n (ab_size b))) (ab_bytes b') = take (nat (min n (ab_size b))) (ab_bytes b))"
proof -
  let ?realloc = "n > ab_capacity b \<or> shrink \<and> n < ab_capacity b"
  consider "n < 0" | "0 \<le> n" "\<not> ?realloc"
    | d where "0 \<le> n" ?realloc "reallocate (ab_data b) (ab_capacity b) n = Some d"
    | "0 \<le> n" ?realloc "reallocate (ab_data b) (ab_capacity b) n = None"
    by (metis not_less option.exhaust)
  then show ?thesis
  proof cases
    case 2
    with assms show ?thesis
      by (auto simp: ArrowBufferResize_def ab_wf_def ab_bytes_def ab_block_def min_def nat_le_iff)
  next
    case (3 d)
    then have b': "e = NANOARROW_OK" "b' = b\<lparr>ab_data := Some d, ab_size := n, ab_capacity := n\<rparr>"
      using assms(2) by (auto simp: ArrowBufferResize_def)
    have len: "int (length d) = n"
      using reallocate_size [OF 3(3)] 3(1) by simp
    have "take (nat (min n (ab_size b))) d = take (nat (min n (ab_size b))) (ab_block b)"
    proof (cases "ab_data b")
      case None
      then show ?thesis using assms(1) by (auto simp: ab_block_def ab_wf_def)
    next
      case (Some d0)
      have "take (min (length d0) (nat n)) d = take (nat n) d0"
        using reallocate_keeps 3(3) Some by simp
      then have "take (nat (min n (ab_size b))) (take (min (length d0) (nat n)) d)
          = take (nat (min n (ab_size b))) (take (nat n) d0)" by simp
      moreover have "nat (min n (ab_size b)) \<le> min (length d0) (nat n)"
        using assms(1) Some by (auto simp: ab_wf_def ab_block_def)
      ultimately show ?thesis using Some by (simp add: ab_block_def min_absorb1 min_absorb2)
    qed
    then show ?thesis
      using b' len 3(1) by (simp add: ab_wf_def ab_bytes_def ab_block_def min_absorb1)
  qed (use assms in \<open>auto simp: ArrowBufferResize_def ab_wf_def ab_bytes_def ab_block_def split: if_splits\<close>)
qed

end

section \<open>The allocators of nanoarrow\<close>

interpretation malloc: byte_allocator "ArrowBufferAllocatorMallocReallocate memory" for memory
proof unfold_locales
  fix p old new d assume "ArrowBufferAllocatorMallocReallocate memory p old new = Some d" "0 \<le> new"
  then show "int (length d) = new"
    by (auto simp: ArrowBufferAllocatorMallocReallocate_def ArrowRealloc_def Let_def split: option.splits)
next
  fix d0 old new d
  assume "ArrowBufferAllocatorMallocReallocate memory (Some d0) old new = Some d"
  then show "take (min (length d0) (nat new)) d = take (nat new) d0"
    by (auto simp: ArrowBufferAllocatorMallocReallocate_def ArrowRealloc_def Let_def intro!: nth_equalityI
        split: option.splits)
qed

interpretation dealloc: byte_allocator ArrowBufferDeallocatorReallocate
  by unfold_locales (simp_all add: ArrowBufferDeallocatorReallocate_def)

end
