(* ===== verification/Arrow_Metadata.thy ===== *)
theory Arrow_Metadata
  imports Arrow_Buffer
begin

text \<open>
  The key-value metadata of Arrow schemas (adbc\_nanoarrow.cpp, ArrowMetadataReader* and
  ArrowMetadataBuilder*): a 32-bit number of pairs, then for each pair a 32-bit size and the bytes of
  the key and of the value.  A metadata pointer is the list of the bytes of memory from it on, None when
  null; the text is not told its size, so a read can run past the end, which is None.
\<close>

section \<open>Views\<close>

record string_view =
  sv_data :: "byte list option"
  sv_size :: int

definition null_view :: string_view where
  "null_view = \<lparr>sv_data = None, sv_size = 0\<rparr>"

text \<open>What a view shows, where its size is right.\<close>

definition view_of :: "string_view \<Rightarrow> byte list \<Rightarrow> bool" where
  "view_of v bs \<longleftrightarrow> sv_size v = int (length bs)
     \<and> (case sv_data v of None \<Rightarrow> bs = [] | Some d \<Rightarrow> take (length bs) d = bs)"

definition view_memory :: "string_view \<Rightarrow> byte list" where
  "view_memory v = (case sv_data v of None \<Rightarrow> [] | Some d \<Rightarrow> d)"

text \<open>
  The comparison of keys: the sizes, and strncmp, which stops at a null byte.  The size is converted to
  an unsigned number of 64 bits.
\<close>

fun strncmp_eq :: "byte list \<Rightarrow> byte list \<Rightarrow> nat \<Rightarrow> bool option" where
  "strncmp_eq a b 0 = Some True"
| "strncmp_eq (x # a) (y # b) (Suc n) =
     (if x \<noteq> y then Some False else if x = 0 then Some True else strncmp_eq a b n)"
| "strncmp_eq a b (Suc n) = None"

definition key_equal :: "string_view \<Rightarrow> string_view \<Rightarrow> bool option" where
  "key_equal key existing =
     (if sv_size key = sv_size existing
      then strncmp_eq (view_memory key) (view_memory existing) (unat (word_of_int (sv_size existing) :: 64 word))
      else Some False)"

section \<open>The reader\<close>

record metadata_reader =
  mr_metadata :: "byte list option"
  mr_offset :: int
  mr_remaining :: "32 word"

definition read_int32 :: "byte list \<Rightarrow> int \<Rightarrow> (32 word) option" where
  "read_int32 m off = (if off < 0 then None else map_option of_le_bytes (load m (nat off) 4))"

text \<open>A pointer into the memory; one outside it is undefined.\<close>

definition view_at :: "byte list \<Rightarrow> int \<Rightarrow> int \<Rightarrow> string_view option" where
  "view_at m off n =
     (if 0 \<le> off \<and> off \<le> int (length m) then Some \<lparr>sv_data = Some (drop (nat off) m), sv_size = n\<rparr> else None)"

definition ArrowMetadataReaderInit :: "byte list option \<Rightarrow> metadata_reader option" where
  "ArrowMetadataReaderInit metadata = (case metadata of
     None \<Rightarrow> Some \<lparr>mr_metadata = None, mr_offset = 0, mr_remaining = 0\<rparr>
   | Some m \<Rightarrow> do {
       n \<leftarrow> read_int32 m 0;
       Some \<lparr>mr_metadata = Some m, mr_offset = 4, mr_remaining = n\<rparr>
     })"

text \<open>The last two arguments are the key and value the caller passes to be overwritten.\<close>

definition ArrowMetadataReaderRead ::
  "metadata_reader \<Rightarrow> string_view \<Rightarrow> string_view
   \<Rightarrow> (errno \<times> metadata_reader \<times> string_view \<times> string_view) option" where
  "ArrowMetadataReaderRead r key_out value_out =
     (if sint (mr_remaining r) \<le> 0 then Some (EINVAL, r, key_out, value_out)
      else do {
        m \<leftarrow> mr_metadata r;
        key_size \<leftarrow> read_int32 m (mr_offset r);
        let pos = 4;
        key \<leftarrow> view_at m (mr_offset r + pos) (sint key_size);
        let pos = pos + sint key_size;
        value_size \<leftarrow> read_int32 m (mr_offset r + pos);
        let pos = pos + 4;
        value \<leftarrow> view_at m (mr_offset r + pos) (sint value_size);
        let pos = pos + sint value_size;
        Some (NANOARROW_OK, r\<lparr>mr_offset := mr_offset r + pos, mr_remaining := mr_remaining r - 1\<rparr>, key, value)
      })"

text \<open>Every successful read leaves fewer pairs, so the loops over a reader end.\<close>

definition remaining_pairs :: "metadata_reader \<Rightarrow> nat" where
  "remaining_pairs r = nat (sint (mr_remaining r))"

lemma sint_small: "- (2 ^ 31) \<le> k \<Longrightarrow> k < 2 ^ 31 \<Longrightarrow> sint (word_of_int k :: 32 word) = k"
  by (simp add: signed_of_int signed_take_bit_int_eq_self)

lemma sint_dec: "0 < sint w \<Longrightarrow> sint (w - 1) = sint w - 1" for w :: "32 word"
proof -
  assume "0 < sint w"
  moreover have "sint w < 2 ^ 31" using sint_lt [of w] by simp
  ultimately have "sint (word_of_int (sint w - 1) :: 32 word) = sint w - 1"
    by (intro sint_small) auto
  moreover have "word_of_int (sint w - 1) = w - 1"
    by simp
  ultimately show ?thesis by simp
qed

lemma read_remaining:
  "ArrowMetadataReaderRead r k v = Some (NANOARROW_OK, r', k', v') \<Longrightarrow> remaining_pairs r' < remaining_pairs r"
  by (auto simp: ArrowMetadataReaderRead_def Let_def remaining_pairs_def sint_dec
      split: if_splits Option.bind_splits)

function metadata_size_loop :: "metadata_reader \<Rightarrow> int \<Rightarrow> int option" where
  "metadata_size_loop r n = (case ArrowMetadataReaderRead r null_view null_view of
     None \<Rightarrow> None
   | Some (e, r', key, value) \<Rightarrow>
       if e = NANOARROW_OK then metadata_size_loop r' (n + (4 + sv_size key + 4 + sv_size value))
       else Some n)"
  by auto
termination
  by (relation "measure (\<lambda>(r, n). remaining_pairs r)") (auto simp: read_remaining)

definition ArrowMetadataSizeOf :: "byte list option \<Rightarrow> int option" where
  "ArrowMetadataSizeOf metadata =
     (if metadata = None then Some 0
      else do { r \<leftarrow> ArrowMetadataReaderInit metadata; metadata_size_loop r 4 })"

function get_value_loop :: "metadata_reader \<Rightarrow> string_view \<Rightarrow> string_view \<Rightarrow> string_view option" where
  "get_value_loop r key value_out = (case ArrowMetadataReaderRead r null_view null_view of
     None \<Rightarrow> None
   | Some (e, r', existing_key, existing_value) \<Rightarrow>
       if e = NANOARROW_OK then
         do {
           eq \<leftarrow> key_equal key existing_key;
           if eq then Some existing_value else get_value_loop r' key value_out
         }
       else Some value_out)"
  by auto
termination
  by (relation "measure (\<lambda>(r, k, v). remaining_pairs r)") (auto simp: read_remaining)

declare metadata_size_loop.simps [simp del] get_value_loop.simps [simp del]

definition ArrowMetadataGetValueInternal ::
  "byte list option \<Rightarrow> string_view \<Rightarrow> string_view \<Rightarrow> string_view option" where
  "ArrowMetadataGetValueInternal metadata key value_out =
     do { r \<leftarrow> ArrowMetadataReaderInit metadata; get_value_loop r key value_out }"

text \<open>The caller's \<open>value_out\<close> is None when it passes a null pointer.\<close>

definition ArrowMetadataGetValue ::
  "byte list option \<Rightarrow> string_view \<Rightarrow> string_view option \<Rightarrow> (errno \<times> string_view option) option" where
  "ArrowMetadataGetValue metadata key value_out = (case value_out of
     None \<Rightarrow> Some (EINVAL, None)
   | Some v \<Rightarrow> do { v' \<leftarrow> ArrowMetadataGetValueInternal metadata key v; Some (NANOARROW_OK, Some v') })"

definition ArrowMetadataHasKey :: "byte list option \<Rightarrow> string_view \<Rightarrow> bool option" where
  "ArrowMetadataHasKey metadata key =
     do {
       (e, v) \<leftarrow> ArrowMetadataGetValue metadata key (Some null_view);
       Some (if e \<noteq> NANOARROW_OK then False else (case v of None \<Rightarrow> False | Some v \<Rightarrow> sv_data v \<noteq> None))
     }"

section \<open>The builder\<close>

definition ArrowMetadataBuilderInit :: "reallocate \<Rightarrow> byte list option \<Rightarrow> arrow_buffer nano" where
  "ArrowMetadataBuilderInit re metadata =
     do {
       n \<leftarrow> ArrowMetadataSizeOf metadata;
       ArrowBufferAppend re ArrowBufferInit (case metadata of None \<Rightarrow> [] | Some m \<Rightarrow> m) n
     }"

text \<open>A null \<open>value\<close> appends nothing.  Counting past the largest number of pairs overflows.\<close>

definition ArrowMetadataBuilderAppendInternal ::
  "reallocate \<Rightarrow> arrow_buffer \<Rightarrow> string_view \<Rightarrow> string_view option \<Rightarrow> arrow_buffer nano" where
  "ArrowMetadataBuilderAppendInternal re buffer key value = (case value of
     None \<Rightarrow> Some (NANOARROW_OK, buffer)
   | Some value \<Rightarrow>
       nano_then (if ab_capacity buffer = 0 then ArrowBufferAppendInt re buffer (0 :: 32 word)
                  else Some (NANOARROW_OK, buffer))
         (\<lambda>buffer. if ab_capacity buffer < 4 then Some (EINVAL, buffer)
          else do {
            d \<leftarrow> ab_data buffer;
            n_keys \<leftarrow> read_int32 d 0;
            let key_size = (word_of_int (sv_size key) :: 32 word);
            let value_size = (word_of_int (sv_size value) :: 32 word);
            nano_then (Some (ArrowBufferReserve re buffer (4 + sint key_size + 4 + sint value_size)))
              (\<lambda>buffer. do {
                 buffer \<leftarrow> ArrowBufferAppendUnsafe buffer (le_bytes key_size) 4;
                 buffer \<leftarrow> ArrowBufferAppendUnsafe buffer (view_memory key) (sint key_size);
                 buffer \<leftarrow> ArrowBufferAppendUnsafe buffer (le_bytes value_size) 4;
                 buffer \<leftarrow> ArrowBufferAppendUnsafe buffer (view_memory value) (sint value_size);
                 n_keys \<leftarrow> (if sint n_keys = 2 ^ 31 - 1 then None else Some (n_keys + 1));
                 d \<leftarrow> ab_data buffer;
                 d' \<leftarrow> store d 0 (le_bytes n_keys);
                 Some (NANOARROW_OK, buffer\<lparr>ab_data := Some d'\<rparr>)
               })
          }))"

function set_loop ::
  "reallocate \<Rightarrow> metadata_reader \<Rightarrow> string_view \<Rightarrow> string_view option \<Rightarrow> arrow_buffer \<Rightarrow> arrow_buffer nano" where
  "set_loop re r key value new_buffer =
     (if sint (mr_remaining r) \<le> 0 then Some (NANOARROW_OK, new_buffer)
      else (case ArrowMetadataReaderRead r null_view null_view of
        None \<Rightarrow> None
      | Some (e, r', existing_key, existing_value) \<Rightarrow>
          if e = NANOARROW_OK then
            do {
              eq \<leftarrow> key_equal key existing_key;
              nano_then
                (if eq then ArrowMetadataBuilderAppendInternal re new_buffer key value
                 else ArrowMetadataBuilderAppendInternal re new_buffer existing_key (Some existing_value))
                (set_loop re r' key (if eq then None else value))
            }
          else Some (e, ArrowBufferReset new_buffer)))"
  by pat_completeness auto
termination
  by (relation "measure (\<lambda>(re, r, k, v, b). remaining_pairs r)") (auto simp: read_remaining)

declare set_loop.simps [simp del]

text \<open>On an error of the loop the new buffer is dropped and the old one is left as it was.\<close>

definition ArrowMetadataBuilderSetInternal ::
  "reallocate \<Rightarrow> arrow_buffer \<Rightarrow> string_view \<Rightarrow> string_view option \<Rightarrow> arrow_buffer nano" where
  "ArrowMetadataBuilderSetInternal re buffer key value =
     do {
       current_value \<leftarrow> ArrowMetadataGetValueInternal (ab_data buffer) key null_view;
       if value = None \<and> sv_data current_value = None then Some (NANOARROW_OK, buffer)
       else if value \<noteq> None \<and> sv_data current_value = None
       then ArrowMetadataBuilderAppendInternal re buffer key value
       else do {
         r \<leftarrow> ArrowMetadataReaderInit (ab_data buffer);
         (e, new_buffer) \<leftarrow> ArrowMetadataBuilderInit re None;
         if e \<noteq> NANOARROW_OK then Some (e, buffer)
         else do {
           (e, new_buffer) \<leftarrow> set_loop re r key value new_buffer;
           if e \<noteq> NANOARROW_OK then Some (e, buffer)
           else Some (NANOARROW_OK, snd (ArrowBufferMove new_buffer))
         }
       }
     }"

definition ArrowMetadataBuilderAppend ::
  "reallocate \<Rightarrow> arrow_buffer \<Rightarrow> string_view \<Rightarrow> string_view \<Rightarrow> arrow_buffer nano" where
  "ArrowMetadataBuilderAppend re buffer key value = ArrowMetadataBuilderAppendInternal re buffer key (Some value)"

definition ArrowMetadataBuilderSet ::
  "reallocate \<Rightarrow> arrow_buffer \<Rightarrow> string_view \<Rightarrow> string_view \<Rightarrow> arrow_buffer nano" where
  "ArrowMetadataBuilderSet re buffer key value = ArrowMetadataBuilderSetInternal re buffer key (Some value)"

definition ArrowMetadataBuilderRemove ::
  "reallocate \<Rightarrow> arrow_buffer \<Rightarrow> string_view \<Rightarrow> arrow_buffer nano" where
  "ArrowMetadataBuilderRemove re buffer key = ArrowMetadataBuilderSetInternal re buffer key None"

section \<open>The pairs a metadata text holds\<close>

type_synonym pairs = "(byte list \<times> byte list) list"

definition size32 :: "byte list \<Rightarrow> 32 word" where
  "size32 bs = of_nat (length bs)"

definition enc_pair :: "byte list \<times> byte list \<Rightarrow> byte list" where
  "enc_pair p = le_bytes (size32 (fst p)) @ fst p @ le_bytes (size32 (snd p)) @ snd p"

definition enc_pairs :: "pairs \<Rightarrow> byte list" where
  "enc_pairs es = le_bytes (of_nat (length es) :: 32 word) @ concat (map enc_pair es)"

definition fits :: "pairs \<Rightarrow> bool" where
  "fits es \<longleftrightarrow> length es < 2 ^ 31 \<and> (\<forall>(k, v) \<in> set es. length k < 2 ^ 31 \<and> length v < 2 ^ 31)"

lemma fits_Cons [simp]:
  "fits ((k, v) # es) \<longleftrightarrow> Suc (length es) < 2 ^ 31 \<and> length k < 2 ^ 31 \<and> length v < 2 ^ 31 \<and> fits es"
  by (auto simp: fits_def)

lemma sint_nat32: "n < 2 ^ 31 \<Longrightarrow> sint (of_nat n :: 32 word) = int n"
  using sint_small [of "int n"] by simp

lemma sint_size32: "length bs < 2 ^ 31 \<Longrightarrow> sint (size32 bs) = int (length bs)"
  by (simp add: size32_def sint_nat32)

lemma of_le_bytes32 [simp]: "of_le_bytes (le_bytes w) = (w :: 32 word)"
  by (rule of_le_bytes_le_bytes) simp

lemma length_le_bytes32 [simp]: "length (le_bytes (w :: 32 word)) = 4"
  by simp

lemma read_int32_append: "off = int (length pre) \<Longrightarrow> read_int32 (pre @ le_bytes w @ post) off = Some w"
  using load_append [of pre "le_bytes w" post] by (simp add: read_int32_def)

lemma view_at_append:
  "off = int (length pre) \<Longrightarrow> view_at (pre @ post) off n = Some \<lparr>sv_data = Some post, sv_size = n\<rparr>"
  by (simp add: view_at_def)

text \<open>A reader that stands before the given pairs.\<close>

definition reads :: "metadata_reader \<Rightarrow> pairs \<Rightarrow> bool" where
  "reads r es \<longleftrightarrow> fits es \<and> mr_remaining r = of_nat (length es)
     \<and> (es \<noteq> [] \<longrightarrow> (\<exists>pre post. mr_metadata r = Some (pre @ concat (map enc_pair es) @ post)
          \<and> mr_offset r = int (length pre)))"

lemma readsI:
  "fits es \<Longrightarrow> mr_remaining r = of_nat (length es) \<Longrightarrow> mr_metadata r = Some (pre @ concat (map enc_pair es) @ post)
    \<Longrightarrow> mr_offset r = int (length pre) \<Longrightarrow> reads r es"
  by (auto simp: reads_def)

lemma reads_remaining: "reads r es \<Longrightarrow> sint (mr_remaining r) = int (length es)"
  by (simp add: reads_def fits_def sint_nat32)

lemma read_Nil: "reads r [] \<Longrightarrow> ArrowMetadataReaderRead r k v = Some (EINVAL, r, k, v)"
  by (simp add: ArrowMetadataReaderRead_def reads_def)

lemma read_Cons:
  assumes "reads r ((k, v) # es)"
  shows "\<exists>r' kv vv. ArrowMetadataReaderRead r k0 v0 = Some (NANOARROW_OK, r', kv, vv) \<and> reads r' es
    \<and> view_of kv k \<and> view_of vv v \<and> sv_data vv \<noteq> None"
proof -
  from assms obtain pre post where
    m: "mr_metadata r = Some (pre @ enc_pair (k, v) @ concat (map enc_pair es) @ post)"
      "mr_offset r = int (length pre)" and f: "fits ((k, v) # es)"
    by (auto simp: reads_def)
  let ?m = "pre @ le_bytes (size32 k) @ k @ le_bytes (size32 v) @ v @ concat (map enc_pair es) @ post"
  have m': "mr_metadata r = Some ?m" using m(1) by (simp add: enc_pair_def)
  have sizes: "sint (size32 k) = int (length k)" "sint (size32 v) = int (length v)"
    using f by (simp_all add: sint_size32)
  have rem: "sint (mr_remaining r) = 1 + int (length es)" "mr_remaining r - 1 = of_nat (length es)"
    using reads_remaining [OF assms] assms by (simp_all add: reads_def)
  let ?o = "int (length pre)"
  have k1: "read_int32 ?m ?o = Some (size32 k)"
    by (rule read_int32_append) simp
  have k2: "view_at ?m (?o + 4) n = Some \<lparr>sv_data = Some (k @ le_bytes (size32 v) @ v @ concat (map enc_pair es) @ post),
      sv_size = n\<rparr>" for n
    using view_at_append [of "?o + 4" "pre @ le_bytes (size32 k)"] by simp
  have k3: "read_int32 ?m (?o + (4 + int (length k))) = Some (size32 v)"
    using read_int32_append [of "?o + (4 + int (length k))" "pre @ le_bytes (size32 k) @ k"] by simp
  have k4: "view_at ?m (?o + (4 + int (length k) + 4)) n = Some \<lparr>sv_data = Some (v @ concat (map enc_pair es) @ post),
      sv_size = n\<rparr>" for n
    using view_at_append [of "?o + (4 + int (length k) + 4)" "pre @ le_bytes (size32 k) @ k @ le_bytes (size32 v)"] by simp
  let ?r = "r\<lparr>mr_offset := ?o + (4 + int (length k) + 4 + int (length v)), mr_remaining := mr_remaining r - 1\<rparr>"
  have "reads ?r es"
    using f m' rem(2)
    by (intro readsI [where pre = "pre @ le_bytes (size32 k) @ k @ le_bytes (size32 v) @ v" and post = post]) simp_all
  moreover have "ArrowMetadataReaderRead r k0 v0 = Some (NANOARROW_OK, ?r,
      \<lparr>sv_data = Some (k @ le_bytes (size32 v) @ v @ concat (map enc_pair es) @ post), sv_size = int (length k)\<rparr>,
      \<lparr>sv_data = Some (v @ concat (map enc_pair es) @ post), sv_size = int (length v)\<rparr>)"
    using rem(1) m' m(2) k1 k2 k3 k4 sizes by (simp add: ArrowMetadataReaderRead_def)
  ultimately show ?thesis by (auto simp: view_of_def)
qed

lemma reader_init:
  assumes "fits es" "metadata = Some (enc_pairs es @ post)"
  shows "\<exists>r. ArrowMetadataReaderInit metadata = Some r \<and> reads r es"
proof -
  have "read_int32 (enc_pairs es @ post) 0 = Some (of_nat (length es))"
    using read_int32_append [of 0 "[]" "of_nat (length es)" "concat (map enc_pair es) @ post"]
    by (simp add: enc_pairs_def)
  moreover have "reads \<lparr>mr_metadata = metadata, mr_offset = 4, mr_remaining = of_nat (length es)\<rparr> es"
    using assms
    by (intro readsI [where pre = "le_bytes (of_nat (length es) :: 32 word)" and post = post])
      (simp_all add: enc_pairs_def)
  ultimately show ?thesis using assms(2) by (simp add: ArrowMetadataReaderInit_def)
qed

section \<open>Reading\<close>

text \<open>Keys are told apart up to their first null byte.\<close>

definition key_eq :: "byte list \<Rightarrow> byte list \<Rightarrow> bool" where
  "key_eq k e \<longleftrightarrow> length k = length e \<and> takeWhile (\<lambda>b. b \<noteq> 0) k = takeWhile (\<lambda>b. b \<noteq> 0) e"

lemma key_eq_refl [simp]: "key_eq k k"
  by (simp add: key_eq_def)

lemma key_eq_no_null: "0 \<notin> set k \<Longrightarrow> 0 \<notin> set e \<Longrightarrow> key_eq k e \<longleftrightarrow> k = e"
proof -
  have t: "takeWhile (\<lambda>b. b \<noteq> 0) x = x" if "0 \<notin> set x" for x :: "byte list"
    using that by (simp add: takeWhile_eq_all_conv) metis
  show "0 \<notin> set k \<Longrightarrow> 0 \<notin> set e \<Longrightarrow> key_eq k e \<longleftrightarrow> k = e"
    by (auto simp: key_eq_def t)
qed

lemma strncmp_eq: "length k = length e \<Longrightarrow>
  strncmp_eq (k @ x) (e @ y) (length e) = Some (takeWhile (\<lambda>b. b \<noteq> 0) k = takeWhile (\<lambda>b. b \<noteq> 0) e)"
proof (induction k arbitrary: e)
  case (Cons b k)
  then obtain c e' where "e = c # e'" by (cases e) auto
  with Cons show ?case by auto
qed simp

lemma view_of_memory: "view_of v bs \<Longrightarrow> \<exists>rest. view_memory v = bs @ rest"
  by (auto simp: view_of_def view_memory_def split: option.splits) (metis append_take_drop_id)

lemma key_equal:
  assumes "view_of kv k" "view_of ev e" "length e < 2 ^ 31"
  shows "key_equal kv ev = Some (key_eq k e)"
proof (cases "length k = length e")
  case True
  from view_of_memory [OF assms(1)] view_of_memory [OF assms(2)] obtain x y where
    "view_memory kv = k @ x" "view_memory ev = e @ y" by blast
  moreover have "unat (word_of_int (int (length e)) :: 64 word) = length e"
    using assms(3) by (simp add: unsigned_of_nat take_bit_nat_eq_self)
  ultimately show ?thesis
    using assms(1,2) True strncmp_eq [OF True] by (simp add: key_equal_def key_eq_def view_of_def)
next
  case False
  then show ?thesis using assms(1,2) by (simp add: key_equal_def key_eq_def view_of_def)
qed

definition lookup :: "byte list \<Rightarrow> pairs \<Rightarrow> byte list option" where
  "lookup k es = map_option snd (find (\<lambda>(k', v). key_eq k k') es)"

lemma lookup_Nil [simp]: "lookup k [] = None"
  and lookup_Cons [simp]: "lookup k ((k', v) # es) = (if key_eq k k' then Some v else lookup k es)"
  by (simp_all add: lookup_def)

lemma size_loop: "reads r es \<Longrightarrow> metadata_size_loop r n = Some (n + int (length (concat (map enc_pair es))))"
proof (induction es arbitrary: r n)
  case Nil
  then show ?case by (simp add: metadata_size_loop.simps [of r] read_Nil)
next
  case (Cons p es)
  obtain k v where p: "p = (k, v)" by (cases p)
  from read_Cons [of r k v es null_view null_view] Cons.prems obtain r' kv vv where
    r: "ArrowMetadataReaderRead r null_view null_view = Some (NANOARROW_OK, r', kv, vv)" "reads r' es"
      "view_of kv k" "view_of vv v" unfolding p by blast
  then show ?case
    using Cons.IH [OF r(2)] by (simp add: metadata_size_loop.simps [of r] p enc_pair_def view_of_def)
qed

lemma metadata_size: "fits es \<Longrightarrow> ArrowMetadataSizeOf (Some (enc_pairs es @ post)) = Some (int (length (enc_pairs es)))"
  using reader_init [of es "Some (enc_pairs es @ post)" post] size_loop [of _ es 4]
  by (auto simp: ArrowMetadataSizeOf_def enc_pairs_def)

lemma get_value_loop:
  assumes "reads r es" "view_of kv k"
  shows "\<exists>v'. get_value_loop r kv vout = Some v' \<and> (case lookup k es of None \<Rightarrow> v' = vout
    | Some v \<Rightarrow> view_of v' v \<and> sv_data v' \<noteq> None)"
  using assms
proof (induction es arbitrary: r)
  case Nil
  then show ?case by (simp add: get_value_loop.simps [of r] read_Nil)
next
  case (Cons p es)
  obtain k' v where p: "p = (k', v)" by (cases p)
  from read_Cons [of r k' v es null_view null_view] Cons.prems obtain r' kv' vv where
    r: "ArrowMetadataReaderRead r null_view null_view = Some (NANOARROW_OK, r', kv', vv)" "reads r' es"
      "view_of kv' k'" "view_of vv v" "sv_data vv \<noteq> None" unfolding p by blast
  have "length k' < 2 ^ 31" using Cons.prems(1) by (simp add: reads_def p)
  from key_equal [OF Cons.prems(2) r(3) this] Cons.IH [OF r(2) Cons.prems(2)] show ?case
    using r by (simp add: get_value_loop.simps [of r] p)
qed

text \<open>A metadata pointer that is null or leads to the text of some pairs.\<close>

definition points_to :: "byte list option \<Rightarrow> pairs \<Rightarrow> bool" where
  "points_to metadata es \<longleftrightarrow> metadata = None \<and> es = [] \<or> fits es \<and> (\<exists>post. metadata = Some (enc_pairs es @ post))"

lemma points_to_init: "points_to metadata es \<Longrightarrow> \<exists>r. ArrowMetadataReaderInit metadata = Some r \<and> reads r es"
  by (auto simp: points_to_def reader_init) (simp add: ArrowMetadataReaderInit_def reads_def fits_def)

lemma get_value:
  assumes "points_to metadata es" "view_of kv k"
  shows "\<exists>v'. ArrowMetadataGetValueInternal metadata kv vout = Some v' \<and> (case lookup k es of None \<Rightarrow> v' = vout
    | Some v \<Rightarrow> view_of v' v \<and> sv_data v' \<noteq> None)"
  using points_to_init [OF assms(1)] get_value_loop [OF _ assms(2)]
  by (auto simp: ArrowMetadataGetValueInternal_def)

lemma has_key:
  assumes "points_to metadata es" "view_of kv k"
  shows "ArrowMetadataHasKey metadata kv = Some (lookup k es \<noteq> None)"
  using get_value [OF assms, of null_view]
  by (auto simp: ArrowMetadataHasKey_def ArrowMetadataGetValue_def null_view_def split: option.splits)

section \<open>Building\<close>

text \<open>What Set does to the pairs: the first one with the key gets the value, the others are dropped.\<close>

fun replace_pairs :: "byte list \<Rightarrow> byte list option \<Rightarrow> pairs \<Rightarrow> pairs" where
  "replace_pairs k v [] = []"
| "replace_pairs k v ((k', v') # es) =
     (if key_eq k k' then (case v of None \<Rightarrow> replace_pairs k None es | Some x \<Rightarrow> (k, x) # replace_pairs k None es)
      else (k', v') # replace_pairs k v es)"

definition set_pair :: "byte list \<Rightarrow> byte list \<Rightarrow> pairs \<Rightarrow> pairs" where
  "set_pair k v es = (if lookup k es = None then es @ [(k, v)] else replace_pairs k (Some v) es)"

definition remove_pair :: "byte list \<Rightarrow> pairs \<Rightarrow> pairs" where
  "remove_pair k es = filter (\<lambda>(k', v). \<not> key_eq k k') es"

lemma replace_None: "replace_pairs k None es = remove_pair k es"
  by (induction k "None :: byte list option" es rule: replace_pairs.induct) (auto simp: remove_pair_def)

text \<open>A buffer that holds the text of some pairs, or nothing yet.\<close>

definition holds :: "arrow_buffer \<Rightarrow> pairs \<Rightarrow> bool" where
  "holds b es \<longleftrightarrow> ab_wf b \<and> (if ab_capacity b = 0 then es = [] \<and> ab_data b = None else ab_bytes b = enc_pairs es)"

lemma holds_Init [simp]: "holds ArrowBufferInit []"
  by (simp add: holds_def) (simp add: ArrowBufferInit_def)

lemma holds_points_to:
  assumes "holds b es" "fits es"
  shows "points_to (ab_data b) es"
proof (cases "ab_capacity b = 0")
  case True
  with assms show ?thesis by (simp add: holds_def points_to_def)
next
  case False
  with assms(1) obtain d where d: "ab_data b = Some d"
    by (cases "ab_data b") (auto simp: holds_def ab_wf_def ab_block_def)
  with False assms(1) have "take (nat (ab_size b)) d = enc_pairs es" by (simp add: holds_def ab_bytes_def ab_block_def)
  then have "d = enc_pairs es @ drop (nat (ab_size b)) d" by (metis append_take_drop_id)
  with assms(2) d show ?thesis unfolding points_to_def by metis
qed

text \<open>The four writes of a pair into memory that was reserved, and the new number of pairs.\<close>

lemma append_view:
  assumes "ab_wf b" "view_of v bs" "ab_size b + int (length bs) \<le> ab_capacity b"
  obtains b' where "ArrowBufferAppendUnsafe b (view_memory v) (int (length bs)) = Some b'" "ab_wf b'"
    "ab_bytes b' = ab_bytes b @ bs" "ab_size b' = ab_size b + int (length bs)" "ab_capacity b' = ab_capacity b"
proof -
  obtain rest where "view_memory v = bs @ rest" using view_of_memory [OF assms(2)] by blast
  with append_unsafe [OF assms(1) _ _ assms(3), of "view_memory v"] that show thesis by auto
qed

lemma append_size:
  assumes "ab_wf b" "ab_size b + 4 \<le> ab_capacity b"
  obtains b' where "ArrowBufferAppendUnsafe b (le_bytes (w :: 32 word)) 4 = Some b'" "ab_wf b'"
    "ab_bytes b' = ab_bytes b @ le_bytes w" "ab_size b' = ab_size b + 4" "ab_capacity b' = ab_capacity b"
  using append_unsafe [OF assms(1) _ _ assms(2), of "le_bytes w"] that by auto

lemma write_pair:
  assumes "ab_wf b" "view_of kv k" "view_of vv v"
    "ab_size b + (4 + int (length k) + 4 + int (length v)) \<le> ab_capacity b"
  shows "\<exists>b'. do {
        b \<leftarrow> ArrowBufferAppendUnsafe b (le_bytes (size32 k)) 4;
        b \<leftarrow> ArrowBufferAppendUnsafe b (view_memory kv) (int (length k));
        b \<leftarrow> ArrowBufferAppendUnsafe b (le_bytes (size32 v)) 4;
        ArrowBufferAppendUnsafe b (view_memory vv) (int (length v))
      } = Some b' \<and> ab_wf b' \<and> ab_bytes b' = ab_bytes b @ enc_pair (k, v)"
proof -
  have "ab_size b + 4 \<le> ab_capacity b" using assms(4) by simp
  from append_size [OF assms(1) this, of "size32 k"] obtain b1 where b1:
    "ArrowBufferAppendUnsafe b (le_bytes (size32 k)) 4 = Some b1" "ab_wf b1"
    "ab_bytes b1 = ab_bytes b @ le_bytes (size32 k)" "ab_size b1 = ab_size b + 4" "ab_capacity b1 = ab_capacity b" .
  have "ab_size b1 + int (length k) \<le> ab_capacity b1" using assms(4) b1 by simp
  from append_view [OF b1(2) assms(2) this] obtain b2 where b2:
    "ArrowBufferAppendUnsafe b1 (view_memory kv) (int (length k)) = Some b2" "ab_wf b2"
    "ab_bytes b2 = ab_bytes b1 @ k" "ab_size b2 = ab_size b1 + int (length k)" "ab_capacity b2 = ab_capacity b1" .
  have "ab_size b2 + 4 \<le> ab_capacity b2" using assms(4) b1 b2 by simp
  from append_size [OF b2(2) this, of "size32 v"] obtain b3 where b3:
    "ArrowBufferAppendUnsafe b2 (le_bytes (size32 v)) 4 = Some b3" "ab_wf b3"
    "ab_bytes b3 = ab_bytes b2 @ le_bytes (size32 v)" "ab_size b3 = ab_size b2 + 4" "ab_capacity b3 = ab_capacity b2" .
  have "ab_size b3 + int (length v) \<le> ab_capacity b3" using assms(4) b1 b2 b3 by simp
  from append_view [OF b3(2) assms(3) this] obtain b4 where
    "ArrowBufferAppendUnsafe b3 (view_memory vv) (int (length v)) = Some b4" "ab_wf b4" "ab_bytes b4 = ab_bytes b3 @ v" .
  with b1 b2 b3 show ?thesis by (simp add: enc_pair_def)
qed

lemma store_count:
  assumes "ab_wf b" "ab_bytes b = le_bytes (w :: 32 word) @ body"
  shows "\<exists>d d'. ab_data b = Some d \<and> store d 0 (le_bytes (w' :: 32 word)) = Some d'
    \<and> ab_wf (b\<lparr>ab_data := Some d'\<rparr>) \<and> ab_bytes (b\<lparr>ab_data := Some d'\<rparr>) = le_bytes w' @ body
    \<and> read_int32 d 0 = Some w"
proof -
  from assms obtain d where d: "ab_data b = Some d"
    by (cases "ab_data b") (auto simp: ab_bytes_def ab_block_def dest: arg_cong [where f = length])
  with assms have "take (nat (ab_size b)) d = le_bytes w @ body" by (simp add: ab_bytes_def ab_block_def)
  then obtain rest where split: "d = le_bytes w @ body @ rest" by (metis append.assoc append_take_drop_id)
  have size: "nat (ab_size b) = 4 + length body"
    using length_ab_bytes [OF assms(1)] assms(2) by simp
  have "store d 0 (le_bytes w') = Some (le_bytes w' @ body @ rest)"
    by (simp add: split store_def)
  moreover have "read_int32 d 0 = Some w"
    using read_int32_append [of 0 "[]" w "body @ rest"] by (simp add: split)
  ultimately show ?thesis
    using assms(1) d size by (simp add: ab_wf_def ab_block_def ab_bytes_def split)
qed

context byte_allocator begin

lemma append_pair:
  assumes b: "ab_wf b" "ab_bytes b = enc_pairs es" and f: "fits (es @ [(k, v)])"
    and views: "view_of kv k" "view_of vv v" and c: "ab_capacity b \<noteq> 0"
  shows "\<exists>e b'. ArrowMetadataBuilderAppendInternal reallocate b kv (Some vv) = Some (e, b')
    \<and> (e = NANOARROW_OK \<and> holds b' (es @ [(k, v)]) \<or> e = ENOMEM)"
proof -
  let ?n = "4 + int (length k) + 4 + int (length v)"
  have small: "length k < 2 ^ 31" "length v < 2 ^ 31" "Suc (length es) < 2 ^ 31"
    using f by (auto simp: fits_def)
  have kv: "word_of_int (sv_size kv) = size32 k" "word_of_int (sv_size vv) = size32 v"
    using views by (simp_all add: view_of_def size32_def)
  have cap: "4 \<le> ab_capacity b"
    using length_ab_bytes [OF b(1)] b by (simp add: enc_pairs_def ab_wf_def)
  obtain d where d: "ab_data b = Some d" "read_int32 d 0 = Some (of_nat (length es))"
    using store_count [OF b(1) b(2) [unfolded enc_pairs_def]] by auto
  have count: "sint (of_nat (length es) :: 32 word) \<noteq> 2 ^ 31 - 1"
    using small(3) sint_nat32 [of "length es"] by simp
  obtain e b1 where r: "ArrowBufferReserve reallocate b ?n = (e, b1)" by force
  note R = reserve [OF b(1) _ r]
  show ?thesis
  proof (cases "e = NANOARROW_OK")
    case False
    with R have "e = ENOMEM" by simp
    with False show ?thesis
      using c cap d r small by (simp add: ArrowMetadataBuilderAppendInternal_def kv sint_size32)
  next
    case True
    with R have b1: "ab_wf b1" "ab_bytes b1 = enc_pairs es" "ab_size b1 + ?n \<le> ab_capacity b1"
      using b by auto
    from write_pair [OF b1(1) views b1(3)] obtain b2 where b2: "do {
        b \<leftarrow> ArrowBufferAppendUnsafe b1 (le_bytes (size32 k)) 4;
        b \<leftarrow> ArrowBufferAppendUnsafe b (view_memory kv) (int (length k));
        b \<leftarrow> ArrowBufferAppendUnsafe b (le_bytes (size32 v)) 4;
        ArrowBufferAppendUnsafe b (view_memory vv) (int (length v))
      } = Some b2" "ab_wf b2" "ab_bytes b2 = enc_pairs es @ enc_pair (k, v)"
      using b1(2) by auto
    from store_count [OF b2(2), of "of_nat (length es)" "concat (map enc_pair es) @ enc_pair (k, v)" "of_nat (length es) + 1"]
      b2(3) obtain d1 d2 where d12: "ab_data b2 = Some d1" "store d1 0 (le_bytes (of_nat (length es) + 1 :: 32 word)) = Some d2"
        "ab_wf (b2\<lparr>ab_data := Some d2\<rparr>)" "ab_bytes (b2\<lparr>ab_data := Some d2\<rparr>) = enc_pairs (es @ [(k, v)])"
      by (auto simp: enc_pairs_def add.commute)
    have "ab_capacity b2 \<noteq> 0"
      using length_ab_bytes [OF b2(2)] b2 by (auto simp: enc_pairs_def ab_wf_def)
    then have "holds (b2\<lparr>ab_data := Some d2\<rparr>) (es @ [(k, v)])"
      using d12 by (simp add: holds_def)
    moreover have "ArrowMetadataBuilderAppendInternal reallocate b kv (Some vv) = Some (NANOARROW_OK, b2\<lparr>ab_data := Some d2\<rparr>)"
      using c cap d r True small count b2(1) d12(1,2)
      by (auto simp: ArrowMetadataBuilderAppendInternal_def kv sint_size32 split: Option.bind_splits)
    ultimately show ?thesis by blast
  qed
qed

lemma append_internal:
  assumes "holds b es" "fits (es @ [(k, v)])" "view_of kv k" "view_of vv v"
  shows "\<exists>e b'. ArrowMetadataBuilderAppendInternal reallocate b kv (Some vv) = Some (e, b')
    \<and> (e = NANOARROW_OK \<and> holds b' (es @ [(k, v)]) \<or> e = ENOMEM)"
proof (cases "ab_capacity b = 0")
  case True
  with assms(1) have b: "ab_wf b" "es = []" "ab_bytes b = []"
    by (auto simp: holds_def ab_bytes_def ab_block_def)
  from append_int [OF b(1), of "0 :: 32 word"] obtain e b1 where
    b1: "ArrowBufferAppendInt reallocate b (0 :: 32 word) = Some (e, b1)" "ab_wf b1"
      "e = NANOARROW_OK \<and> ab_bytes b1 = enc_pairs es \<or> e = ENOMEM"
    using b by (auto simp: enc_pairs_def)
  show ?thesis
  proof (cases "e = NANOARROW_OK")
    case True
    with b1 have "ab_bytes b1 = enc_pairs es" by simp
    moreover have "ab_capacity b1 \<noteq> 0"
      using length_ab_bytes [OF b1(2)] calculation b1(2) by (auto simp: enc_pairs_def ab_wf_def)
    moreover have "ArrowMetadataBuilderAppendInternal reallocate b kv (Some vv)
        = ArrowMetadataBuilderAppendInternal reallocate b1 kv (Some vv)"
      using b1(1) True \<open>ab_capacity b = 0\<close> calculation(2) by (simp add: ArrowMetadataBuilderAppendInternal_def)
    ultimately show ?thesis using append_pair [OF b1(2) _ assms(2-4)] by simp
  next
    case False
    with b1 True show ?thesis by (simp add: ArrowMetadataBuilderAppendInternal_def)
  qed
next
  case False
  with assms(1) append_pair [OF _ _ assms(2-4), of b] show ?thesis by (simp add: holds_def)
qed

lemma set_loop:
  assumes "reads r rest" "holds nb acc" "fits (acc @ rest)" "view_of kv k" "length k < 2 ^ 31"
    "rel_option view_of value vo" "pred_option (\<lambda>v. length v < 2 ^ 31) vo"
  shows "\<exists>e b'. set_loop reallocate r kv value nb = Some (e, b')
    \<and> (e = NANOARROW_OK \<and> holds b' (acc @ replace_pairs k vo rest) \<or> e = ENOMEM)"
  using assms
proof (induction rest arbitrary: r nb acc "value" vo)
  case Nil
  then show ?case using reads_remaining [OF Nil(1)] by (simp add: set_loop.simps [of _ r])
next
  case (Cons p rest)
  obtain k' v' where p: "p = (k', v')" by (cases p)
  from read_Cons [of r k' v' rest null_view null_view] Cons.prems(1) obtain r' kv' vv' where
    r: "ArrowMetadataReaderRead r null_view null_view = Some (NANOARROW_OK, r', kv', vv')" "reads r' rest"
      "view_of kv' k'" "view_of vv' v'" unfolding p by blast
  have rem: "\<not> sint (mr_remaining r) \<le> 0" using reads_remaining [OF Cons.prems(1)] by simp
  have bounds: "length k' < 2 ^ 31" "fits (acc @ [(k', v')])" "fits (acc @ rest)"
    "fits ((acc @ [(k', v')]) @ rest)"
    using Cons.prems(3) by (auto simp: fits_def p)
  have eq: "key_equal kv kv' = Some (key_eq k k')" by (rule key_equal [OF Cons.prems(4) r(3) bounds(1)])
  show ?case
  proof (cases "key_eq k k'")
    case False
    from append_internal [OF Cons.prems(2) bounds(2) r(3,4)] obtain e nb' where
      a: "ArrowMetadataBuilderAppendInternal reallocate nb kv' (Some vv') = Some (e, nb')"
        "e = NANOARROW_OK \<and> holds nb' (acc @ [(k', v')]) \<or> e = ENOMEM" by blast
    then show ?thesis
      using Cons.IH [OF r(2) _ bounds(4) Cons.prems(4-7), of nb'] False rem r(1) eq
      by (auto simp: set_loop.simps [of _ r] p)
  next
    case True
    show ?thesis
    proof (cases "value")
      case None
      with Cons.prems(6) have "vo = None" by simp
      with Cons.IH [OF r(2) Cons.prems(2) bounds(3) Cons.prems(4,5), of None None] True None rem r(1) eq show ?thesis
        by (simp add: set_loop.simps [of _ r] p ArrowMetadataBuilderAppendInternal_def)
    next
      case (Some vv)
      with Cons.prems(6,7) obtain v where vo: "vo = Some v" "view_of vv v" "length v < 2 ^ 31"
        by (cases vo) auto
      have f: "fits (acc @ [(k, v)])" "fits ((acc @ [(k, v)]) @ rest)"
        using Cons.prems(3,5) vo(3) by (auto simp: fits_def p)
      from append_internal [OF Cons.prems(2) f(1) Cons.prems(4) vo(2)] obtain e nb' where
        a: "ArrowMetadataBuilderAppendInternal reallocate nb kv (Some vv) = Some (e, nb')"
          "e = NANOARROW_OK \<and> holds nb' (acc @ [(k, v)]) \<or> e = ENOMEM" by blast
      then show ?thesis
        using Cons.IH [OF r(2) _ f(2) Cons.prems(4,5), of nb' None None] True Some rem r(1) eq vo(1)
        by (auto simp: set_loop.simps [of _ r] p)
    qed
  qed
qed

lemma builder_init_null: "ArrowMetadataBuilderInit reallocate None = Some (NANOARROW_OK, ArrowBufferInit)"
  by (simp add: ArrowMetadataBuilderInit_def ArrowMetadataSizeOf_def ArrowBufferAppend_def ArrowBufferReserve_def
      ArrowBufferAppendUnsafe_def ArrowBufferInit_def)

lemma replace_all:
  assumes "holds b es" "fits es" "view_of kv k" "length k < 2 ^ 31"
    "rel_option view_of value vo" "pred_option (\<lambda>v. length v < 2 ^ 31) vo" "lookup k es \<noteq> None"
  shows "\<exists>e b'. ArrowMetadataBuilderSetInternal reallocate b kv value = Some (e, b')
    \<and> (e = NANOARROW_OK \<and> holds b' (replace_pairs k vo es) \<or> e = ENOMEM)"
proof -
  note pt = holds_points_to [OF assms(1,2)]
  from get_value [OF pt assms(3), of null_view] assms(7) obtain cur where
    cur: "ArrowMetadataGetValueInternal (ab_data b) kv null_view = Some cur" "sv_data cur \<noteq> None" by auto
  from points_to_init [OF pt] obtain r where
    r: "ArrowMetadataReaderInit (ab_data b) = Some r" "reads r es" by blast
  from set_loop [OF r(2) holds_Init _ assms(3-6)] assms(2) obtain e b' where
    "set_loop reallocate r kv value ArrowBufferInit = Some (e, b')"
    "e = NANOARROW_OK \<and> holds b' (replace_pairs k vo es) \<or> e = ENOMEM" by auto
  then show ?thesis
    using cur r(1) by (auto simp: ArrowMetadataBuilderSetInternal_def builder_init_null ArrowBufferMove_def)
qed

lemma metadata_set:
  assumes "holds b es" "fits (es @ [(k, v)])" "view_of kv k" "view_of vv v"
  shows "\<exists>e b'. ArrowMetadataBuilderSet reallocate b kv vv = Some (e, b')
    \<and> (e = NANOARROW_OK \<and> holds b' (set_pair k v es) \<or> e = ENOMEM)"
proof (cases "lookup k es")
  case None
  have "fits es" using assms(2) by (auto simp: fits_def)
  with get_value [OF holds_points_to [OF assms(1)] assms(3), of null_view] None
  have "ArrowMetadataGetValueInternal (ab_data b) kv null_view = Some null_view" by auto
  with append_internal [OF assms] None show ?thesis
    by (simp add: ArrowMetadataBuilderSet_def ArrowMetadataBuilderSetInternal_def null_view_def set_pair_def)
next
  case (Some x)
  have "fits es" "length k < 2 ^ 31" "length v < 2 ^ 31" using assms(2) by (auto simp: fits_def)
  with replace_all [of b es kv k "Some vv" "Some v"] assms Some show ?thesis
    by (simp add: ArrowMetadataBuilderSet_def set_pair_def)
qed

lemma lookup_None_remove: "lookup k es = None \<Longrightarrow> remove_pair k es = es"
  by (induction es) (auto simp: remove_pair_def split: if_splits)

lemma metadata_remove:
  assumes "holds b es" "fits es" "view_of kv k" "length k < 2 ^ 31"
  shows "\<exists>e b'. ArrowMetadataBuilderRemove reallocate b kv = Some (e, b')
    \<and> (e = NANOARROW_OK \<and> holds b' (remove_pair k es) \<or> e = ENOMEM)"
proof (cases "lookup k es")
  case None
  with get_value [OF holds_points_to [OF assms(1,2)] assms(3), of null_view]
  have "ArrowMetadataGetValueInternal (ab_data b) kv null_view = Some null_view" by auto
  with assms(1) None show ?thesis
    by (simp add: ArrowMetadataBuilderRemove_def ArrowMetadataBuilderSetInternal_def null_view_def lookup_None_remove)
next
  case (Some x)
  with replace_all [OF assms, of None None] show ?thesis
    by (simp add: ArrowMetadataBuilderRemove_def replace_None)
qed

lemma builder_init:
  assumes "points_to metadata es"
  shows "\<exists>e b. ArrowMetadataBuilderInit reallocate metadata = Some (e, b)
    \<and> (e = NANOARROW_OK \<and> holds b es \<or> e = ENOMEM)"
proof (cases metadata)
  case None
  with assms show ?thesis by (simp add: points_to_def builder_init_null)
next
  case (Some m)
  with assms obtain post where m: "fits es" "m = enc_pairs es @ post" by (auto simp: points_to_def)
  from append [OF ab_wf_Init, of "int (length (enc_pairs es))" m] obtain e b where
    b: "ArrowBufferAppend reallocate ArrowBufferInit m (int (length (enc_pairs es))) = Some (e, b)" "ab_wf b"
      "e = NANOARROW_OK \<and> ab_bytes b = enc_pairs es \<or> e = ENOMEM \<and> ab_bytes b = []" by (auto simp: m(2))
  have "holds b es" if "ab_bytes b = enc_pairs es"
    using length_ab_bytes [OF b(2)] that b(2) by (auto simp: holds_def enc_pairs_def ab_wf_def)
  with b Some metadata_size [OF m(1), of post] show ?thesis
    by (auto simp: ArrowMetadataBuilderInit_def m(2))
qed

end

section \<open>Properties\<close>

text \<open>
  The calls a client makes on a builder, each with views of the bytes it has, to the first error; and what
  they do to the pairs.
\<close>

datatype metadata_op = Append "byte list" "byte list" | Put "byte list" "byte list" | Remove "byte list"

definition view :: "byte list \<Rightarrow> string_view" where
  "view bs = \<lparr>sv_data = Some bs, sv_size = int (length bs)\<rparr>"

lemma view_of_view [simp]: "view_of (view bs) bs"
  by (simp add: view_def view_of_def)

fun run_op :: "reallocate \<Rightarrow> metadata_op \<Rightarrow> arrow_buffer \<Rightarrow> arrow_buffer nano" where
  "run_op re (Append k v) b = ArrowMetadataBuilderAppend re b (view k) (view v)"
| "run_op re (Put k v) b = ArrowMetadataBuilderSet re b (view k) (view v)"
| "run_op re (Remove k) b = ArrowMetadataBuilderRemove re b (view k)"

fun run_ops :: "reallocate \<Rightarrow> metadata_op list \<Rightarrow> arrow_buffer \<Rightarrow> arrow_buffer nano" where
  "run_ops re [] b = Some (NANOARROW_OK, b)"
| "run_ops re (op # ops) b = nano_then (run_op re op b) (run_ops re ops)"

fun spec_op :: "metadata_op \<Rightarrow> pairs \<Rightarrow> pairs" where
  "spec_op (Append k v) es = es @ [(k, v)]"
| "spec_op (Put k v) es = set_pair k v es"
| "spec_op (Remove k) es = remove_pair k es"

fun op_fits :: "metadata_op \<Rightarrow> bool" where
  "op_fits (Append k v) \<longleftrightarrow> length k < 2 ^ 31 \<and> length v < 2 ^ 31"
| "op_fits (Put k v) \<longleftrightarrow> length k < 2 ^ 31 \<and> length v < 2 ^ 31"
| "op_fits (Remove k) \<longleftrightarrow> length k < 2 ^ 31"

lemma replace_pairs_fits: "length (replace_pairs k vo es) \<le> length es
  \<and> set (replace_pairs k vo es) \<subseteq> set es \<union> (case vo of None \<Rightarrow> {} | Some v \<Rightarrow> {(k, v)})"
  by (induction k vo es rule: replace_pairs.induct) (auto split: option.splits)

lemma spec_op_fits:
  assumes "fits es" "op_fits op" "Suc (length es) < 2 ^ 31"
  shows "fits (spec_op op es) \<and> length (spec_op op es) \<le> Suc (length es)"
proof (cases op)
  case (Append k v)
  with assms show ?thesis by (auto simp: fits_def)
next
  case (Put k v)
  with assms replace_pairs_fits [of k "Some v" es] show ?thesis
    by (auto simp: fits_def set_pair_def)
next
  case (Remove k)
  with assms show ?thesis
    using length_filter_le [of "\<lambda>(k', v). \<not> key_eq k k'" es]
    by (auto simp: fits_def remove_pair_def simp del: length_filter_le)
qed

lemma run_op:
  assumes "holds b es" "fits es" "op_fits op" "Suc (length es) < 2 ^ 31"
  shows "\<exists>e b'. run_op (ArrowBufferAllocatorMallocReallocate memory) op b = Some (e, b')
    \<and> (e = NANOARROW_OK \<and> holds b' (spec_op op es) \<or> e = ENOMEM)"
proof (cases op)
  case (Append k v)
  have "fits (es @ [(k, v)])" using assms Append by (auto simp: fits_def)
  from malloc.append_internal [OF assms(1) this view_of_view view_of_view] show ?thesis
    by (simp add: Append ArrowMetadataBuilderAppend_def)
next
  case (Put k v)
  have "fits (es @ [(k, v)])" using assms Put by (auto simp: fits_def)
  from malloc.metadata_set [OF assms(1) this view_of_view view_of_view] show ?thesis
    by (simp add: Put)
next
  case (Remove k)
  with assms malloc.metadata_remove [OF assms(1,2) view_of_view] show ?thesis by simp
qed

lemma run_ops:
  assumes "holds b es" "fits es" "\<forall>op \<in> set ops. op_fits op" "length es + length ops < 2 ^ 31"
  shows "\<exists>e b'. run_ops (ArrowBufferAllocatorMallocReallocate memory) ops b = Some (e, b')
    \<and> (e = NANOARROW_OK \<and> holds b' (fold spec_op ops es) \<and> fits (fold spec_op ops es) \<or> e = ENOMEM)"
  using assms
proof (induction ops arbitrary: b es)
  case (Cons op ops)
  have op: "op_fits op" "Suc (length es) < 2 ^ 31" using Cons.prems by auto
  from run_op [OF Cons.prems(1,2) op] obtain e b1 where
    b1: "run_op (ArrowBufferAllocatorMallocReallocate memory) op b = Some (e, b1)"
      "e = NANOARROW_OK \<and> holds b1 (spec_op op es) \<or> e = ENOMEM" by blast
  note f = spec_op_fits [OF Cons.prems(2) op]
  have rest: "\<forall>op \<in> set ops. op_fits op" "length (spec_op op es) + length ops < 2 ^ 31"
    using Cons.prems(3,4) f by auto
  show ?case using b1 Cons.IH [OF _ f [THEN conjunct1] rest, of b1] by auto
qed simp

text \<open>
  C20: A metadata builder, started from null or from an existing text and changed by any calls of Append, Set
  and Remove, never accesses memory it may not; unless memory runs out its buffer is the text of exactly the
  pairs these calls leave, so that the reader finds a key there if and only if one of the pairs has it.
\<close>

theorem metadata_builder_pairs:
  assumes "points_to metadata es" "\<forall>op \<in> set ops. op_fits op" "length es + length ops < 2 ^ 31"
  shows "\<exists>e b. (do {
        (e, b) \<leftarrow> ArrowMetadataBuilderInit (ArrowBufferAllocatorMallocReallocate memory) metadata;
        nano_then (Some (e, b)) (run_ops (ArrowBufferAllocatorMallocReallocate memory) ops)
      }) = Some (e, b)
    \<and> (e = NANOARROW_OK \<and> points_to (ab_data b) (fold spec_op ops es)
         \<and> (\<forall>k. ArrowMetadataHasKey (ab_data b) (view k) = Some (lookup k (fold spec_op ops es) \<noteq> None))
       \<or> e = ENOMEM)"
proof -
  have f: "fits es" using assms(1) by (auto simp: points_to_def) (simp add: fits_def)
  from malloc.builder_init [OF assms(1), of memory] obtain e b where
    b: "ArrowMetadataBuilderInit (ArrowBufferAllocatorMallocReallocate memory) metadata = Some (e, b)"
      "e = NANOARROW_OK \<and> holds b es \<or> e = ENOMEM" by blast
  have "ArrowMetadataHasKey (ab_data b') (view k) = Some (lookup k es' \<noteq> None)" if "holds b' es'" "fits es'" for b' es' k
    by (rule has_key [OF holds_points_to [OF that] view_of_view])
  then show ?thesis
    using b run_ops [OF _ f assms(2,3), of b memory] holds_points_to by fastforce
qed

lemma metadata_builder_pairs_witness:
  "\<exists>e b. (do {
        (e, b) \<leftarrow> ArrowMetadataBuilderInit (ArrowBufferAllocatorMallocReallocate (\<lambda>n. Some (\<lambda>i. 7))) None;
        nano_then (Some (e, b)) (run_ops (ArrowBufferAllocatorMallocReallocate (\<lambda>n. Some (\<lambda>i. 7)))
          [Append [1] [2], Append [3] [4], Put [1] [5, 6], Remove [3]])
      }) = Some (e, b)
    \<and> (e = NANOARROW_OK \<and> points_to (ab_data b) [([1], [5, 6])]
         \<and> (\<forall>k. ArrowMetadataHasKey (ab_data b) (view k) = Some (lookup k [([1], [5, 6])] \<noteq> None)) \<or> e = ENOMEM)"
  using metadata_builder_pairs [of None "[]" "[Append [1] [2], Append [3] [4], Put [1] [5, 6], Remove [3]]"
      "\<lambda>n. Some (\<lambda>i. 7)"]
  by (simp add: points_to_def set_pair_def remove_pair_def key_eq_def)

lemma replace_pairs_contract:
  "lookup k es \<noteq> None \<Longrightarrow> filter (\<lambda>p. key_eq k (fst p)) (replace_pairs k (Some v) es) = [(k, v)]
    \<and> filter (\<lambda>p. \<not> key_eq k (fst p)) (replace_pairs k (Some v) es) = filter (\<lambda>p. \<not> key_eq k (fst p)) es
    \<and> takeWhile (\<lambda>p. \<not> key_eq k (fst p)) (replace_pairs k (Some v) es) = takeWhile (\<lambda>p. \<not> key_eq k (fst p)) es
    \<and> lookup k (replace_pairs k (Some v) es) = Some v"
  by (induction es) (auto simp: replace_None remove_pair_def case_prod_unfold filter_empty_conv)

lemma append_pair_contract:
  "lookup k es = None \<Longrightarrow> filter (\<lambda>p. key_eq k (fst p)) (es @ [(k, v)]) = [(k, v)]
    \<and> filter (\<lambda>p. \<not> key_eq k (fst p)) (es @ [(k, v)]) = filter (\<lambda>p. \<not> key_eq k (fst p)) es
    \<and> takeWhile (\<lambda>p. \<not> key_eq k (fst p)) (es @ [(k, v)]) = takeWhile (\<lambda>p. \<not> key_eq k (fst p)) es
    \<and> lookup k (es @ [(k, v)]) = Some v"
  by (induction es) (auto simp del: filter_append split: if_splits)

text \<open>
  Set makes the pair it is given the only one with a key that compares equal: on success the others are
  unchanged and in order, the pair is where the first such one was or at the end, and getting the key
  gives the value.
\<close>

theorem metadata_set_single:
  assumes "holds b es" "fits (es @ [(k, v)])"
    and "ArrowMetadataBuilderSet (ArrowBufferAllocatorMallocReallocate memory) b (view k) (view v)
      = Some (NANOARROW_OK, b')"
  shows "\<exists>es'. holds b' es'
    \<and> filter (\<lambda>p. key_eq k (fst p)) es' = [(k, v)]
    \<and> filter (\<lambda>p. \<not> key_eq k (fst p)) es' = filter (\<lambda>p. \<not> key_eq k (fst p)) es
    \<and> takeWhile (\<lambda>p. \<not> key_eq k (fst p)) es' = takeWhile (\<lambda>p. \<not> key_eq k (fst p)) es
    \<and> (\<exists>vv. ArrowMetadataGetValue (ab_data b') (view k) (Some null_view) = Some (NANOARROW_OK, Some vv) \<and> view_of vv v)"
proof -
  let ?es = "set_pair k v es"
  have h: "holds b' ?es"
    using malloc.metadata_set [OF assms(1,2) view_of_view view_of_view, of memory] assms(3) by auto
  have c: "filter (\<lambda>p. key_eq k (fst p)) ?es = [(k, v)]
      \<and> filter (\<lambda>p. \<not> key_eq k (fst p)) ?es = filter (\<lambda>p. \<not> key_eq k (fst p)) es
      \<and> takeWhile (\<lambda>p. \<not> key_eq k (fst p)) ?es = takeWhile (\<lambda>p. \<not> key_eq k (fst p)) es \<and> lookup k ?es = Some v"
  proof (cases "lookup k es")
    case None
    then show ?thesis using append_pair_contract [of k es v] by (simp add: set_pair_def)
  next
    case (Some x)
    then show ?thesis using replace_pairs_contract [of k es v] by (simp add: set_pair_def)
  qed
  have "fits ?es"
    using assms(2) replace_pairs_fits [of k "Some v" es] by (auto simp: fits_def set_pair_def)
  from get_value [OF holds_points_to [OF h this] view_of_view, of k null_view] c
  have "\<exists>vv. ArrowMetadataGetValue (ab_data b') (view k) (Some null_view) = Some (NANOARROW_OK, Some vv) \<and> view_of vv v"
    by (auto simp: ArrowMetadataGetValue_def)
  with h c show ?thesis by blast
qed

lemma metadata_set_single_witness:
  "let re = ArrowBufferAllocatorMallocReallocate (\<lambda>n. Some (\<lambda>i. 0)) in
   \<exists>b' es'. ArrowMetadataBuilderSet re ArrowBufferInit (view [1]) (view [2]) = Some (NANOARROW_OK, b')
    \<and> holds b' es' \<and> filter (\<lambda>p. key_eq [1] (fst p)) es' = [([1], [2])]"
proof -
  let ?re = "ArrowBufferAllocatorMallocReallocate (\<lambda>n. Some (\<lambda>i. 0))"
  have "map_option fst (ArrowMetadataBuilderSet ?re ArrowBufferInit (view [1]) (view [2])) = Some NANOARROW_OK"
    by code_simp
  then obtain b' where b': "ArrowMetadataBuilderSet ?re ArrowBufferInit (view [1]) (view [2]) = Some (NANOARROW_OK, b')"
    by auto
  then show ?thesis
    using metadata_set_single [OF holds_Init _ b'] by (auto simp: Let_def fits_def)
qed

end
