(* ===== verification/Arrow_Types.thy ===== *)
theory Arrow_Types
  imports Arrow_Metadata
begin

text \<open>
  The types of Arrow as nanoarrow knows them (adbc\_nanoarrow.h, adbc\_nanoarrow.cpp): the enumeration
  and its names, the layout of the buffers of each type, the format strings of the C data interface,
  and the parser of format strings.  Format strings are lists of characters without the final null
  character; \<open>format[i]\<close> is null at the end.
\<close>

section \<open>The enumerations\<close>

datatype arrow_type =
  NANOARROW_TYPE_UNINITIALIZED | NANOARROW_TYPE_NA | NANOARROW_TYPE_BOOL | NANOARROW_TYPE_UINT8
  | NANOARROW_TYPE_INT8 | NANOARROW_TYPE_UINT16 | NANOARROW_TYPE_INT16 | NANOARROW_TYPE_UINT32
  | NANOARROW_TYPE_INT32 | NANOARROW_TYPE_UINT64 | NANOARROW_TYPE_INT64 | NANOARROW_TYPE_HALF_FLOAT
  | NANOARROW_TYPE_FLOAT | NANOARROW_TYPE_DOUBLE | NANOARROW_TYPE_STRING | NANOARROW_TYPE_BINARY
  | NANOARROW_TYPE_FIXED_SIZE_BINARY | NANOARROW_TYPE_DATE32 | NANOARROW_TYPE_DATE64
  | NANOARROW_TYPE_TIMESTAMP | NANOARROW_TYPE_TIME32 | NANOARROW_TYPE_TIME64
  | NANOARROW_TYPE_INTERVAL_MONTHS | NANOARROW_TYPE_INTERVAL_DAY_TIME | NANOARROW_TYPE_DECIMAL128
  | NANOARROW_TYPE_DECIMAL256 | NANOARROW_TYPE_LIST | NANOARROW_TYPE_STRUCT
  | NANOARROW_TYPE_SPARSE_UNION | NANOARROW_TYPE_DENSE_UNION | NANOARROW_TYPE_DICTIONARY
  | NANOARROW_TYPE_MAP | NANOARROW_TYPE_EXTENSION | NANOARROW_TYPE_FIXED_SIZE_LIST
  | NANOARROW_TYPE_DURATION | NANOARROW_TYPE_LARGE_STRING | NANOARROW_TYPE_LARGE_BINARY
  | NANOARROW_TYPE_LARGE_LIST | NANOARROW_TYPE_INTERVAL_MONTH_DAY_NANO | NANOARROW_TYPE_RUN_END_ENCODED
  | NANOARROW_TYPE_BINARY_VIEW | NANOARROW_TYPE_STRING_VIEW | NANOARROW_TYPE_DECIMAL32
  | NANOARROW_TYPE_DECIMAL64 | NANOARROW_TYPE_LIST_VIEW | NANOARROW_TYPE_LARGE_LIST_VIEW

datatype time_unit =
  NANOARROW_TIME_UNIT_SECOND | NANOARROW_TIME_UNIT_MILLI | NANOARROW_TIME_UNIT_MICRO | NANOARROW_TIME_UNIT_NANO

text \<open>The printed name of a type; None is the null pointer.\<close>

fun ArrowTypeString :: "arrow_type \<Rightarrow> string option" where
  "ArrowTypeString NANOARROW_TYPE_NA = Some ''na''"
| "ArrowTypeString NANOARROW_TYPE_BOOL = Some ''bool''"
| "ArrowTypeString NANOARROW_TYPE_UINT8 = Some ''uint8''"
| "ArrowTypeString NANOARROW_TYPE_INT8 = Some ''int8''"
| "ArrowTypeString NANOARROW_TYPE_UINT16 = Some ''uint16''"
| "ArrowTypeString NANOARROW_TYPE_INT16 = Some ''int16''"
| "ArrowTypeString NANOARROW_TYPE_UINT32 = Some ''uint32''"
| "ArrowTypeString NANOARROW_TYPE_INT32 = Some ''int32''"
| "ArrowTypeString NANOARROW_TYPE_UINT64 = Some ''uint64''"
| "ArrowTypeString NANOARROW_TYPE_INT64 = Some ''int64''"
| "ArrowTypeString NANOARROW_TYPE_HALF_FLOAT = Some ''half_float''"
| "ArrowTypeString NANOARROW_TYPE_FLOAT = Some ''float''"
| "ArrowTypeString NANOARROW_TYPE_DOUBLE = Some ''double''"
| "ArrowTypeString NANOARROW_TYPE_STRING = Some ''string''"
| "ArrowTypeString NANOARROW_TYPE_BINARY = Some ''binary''"
| "ArrowTypeString NANOARROW_TYPE_FIXED_SIZE_BINARY = Some ''fixed_size_binary''"
| "ArrowTypeString NANOARROW_TYPE_DATE32 = Some ''date32''"
| "ArrowTypeString NANOARROW_TYPE_DATE64 = Some ''date64''"
| "ArrowTypeString NANOARROW_TYPE_TIMESTAMP = Some ''timestamp''"
| "ArrowTypeString NANOARROW_TYPE_TIME32 = Some ''time32''"
| "ArrowTypeString NANOARROW_TYPE_TIME64 = Some ''time64''"
| "ArrowTypeString NANOARROW_TYPE_INTERVAL_MONTHS = Some ''interval_months''"
| "ArrowTypeString NANOARROW_TYPE_INTERVAL_DAY_TIME = Some ''interval_day_time''"
| "ArrowTypeString NANOARROW_TYPE_DECIMAL128 = Some ''decimal128''"
| "ArrowTypeString NANOARROW_TYPE_DECIMAL256 = Some ''decimal256''"
| "ArrowTypeString NANOARROW_TYPE_LIST = Some ''list''"
| "ArrowTypeString NANOARROW_TYPE_STRUCT = Some ''struct''"
| "ArrowTypeString NANOARROW_TYPE_SPARSE_UNION = Some ''sparse_union''"
| "ArrowTypeString NANOARROW_TYPE_DENSE_UNION = Some ''dense_union''"
| "ArrowTypeString NANOARROW_TYPE_DICTIONARY = Some ''dictionary''"
| "ArrowTypeString NANOARROW_TYPE_MAP = Some ''map''"
| "ArrowTypeString NANOARROW_TYPE_EXTENSION = Some ''extension''"
| "ArrowTypeString NANOARROW_TYPE_FIXED_SIZE_LIST = Some ''fixed_size_list''"
| "ArrowTypeString NANOARROW_TYPE_DURATION = Some ''duration''"
| "ArrowTypeString NANOARROW_TYPE_LARGE_STRING = Some ''large_string''"
| "ArrowTypeString NANOARROW_TYPE_LARGE_BINARY = Some ''large_binary''"
| "ArrowTypeString NANOARROW_TYPE_LARGE_LIST = Some ''large_list''"
| "ArrowTypeString NANOARROW_TYPE_INTERVAL_MONTH_DAY_NANO = Some ''interval_month_day_nano''"
| "ArrowTypeString NANOARROW_TYPE_RUN_END_ENCODED = Some ''run_end_encoded''"
| "ArrowTypeString NANOARROW_TYPE_BINARY_VIEW = Some ''binary_view''"
| "ArrowTypeString NANOARROW_TYPE_STRING_VIEW = Some ''string_view''"
| "ArrowTypeString NANOARROW_TYPE_DECIMAL32 = Some ''decimal32''"
| "ArrowTypeString NANOARROW_TYPE_DECIMAL64 = Some ''decimal64''"
| "ArrowTypeString NANOARROW_TYPE_LIST_VIEW = Some ''list_view''"
| "ArrowTypeString NANOARROW_TYPE_LARGE_LIST_VIEW = Some ''large_list_view''"
| "ArrowTypeString _ = None"

fun ArrowTimeUnitString :: "time_unit \<Rightarrow> string" where
  "ArrowTimeUnitString NANOARROW_TIME_UNIT_SECOND = ''s''"
| "ArrowTimeUnitString NANOARROW_TIME_UNIT_MILLI = ''ms''"
| "ArrowTimeUnitString NANOARROW_TIME_UNIT_MICRO = ''us''"
| "ArrowTimeUnitString NANOARROW_TIME_UNIT_NANO = ''ns''"

section \<open>Format strings\<close>

text \<open>The types whose format has no parameters.\<close>

fun ArrowSchemaFormatTemplate :: "arrow_type \<Rightarrow> string option" where
  "ArrowSchemaFormatTemplate NANOARROW_TYPE_NA = Some ''n''"
| "ArrowSchemaFormatTemplate NANOARROW_TYPE_BOOL = Some ''b''"
| "ArrowSchemaFormatTemplate NANOARROW_TYPE_UINT8 = Some ''C''"
| "ArrowSchemaFormatTemplate NANOARROW_TYPE_INT8 = Some ''c''"
| "ArrowSchemaFormatTemplate NANOARROW_TYPE_UINT16 = Some ''S''"
| "ArrowSchemaFormatTemplate NANOARROW_TYPE_INT16 = Some ''s''"
| "ArrowSchemaFormatTemplate NANOARROW_TYPE_UINT32 = Some ''I''"
| "ArrowSchemaFormatTemplate NANOARROW_TYPE_INT32 = Some ''i''"
| "ArrowSchemaFormatTemplate NANOARROW_TYPE_UINT64 = Some ''L''"
| "ArrowSchemaFormatTemplate NANOARROW_TYPE_INT64 = Some ''l''"
| "ArrowSchemaFormatTemplate NANOARROW_TYPE_HALF_FLOAT = Some ''e''"
| "ArrowSchemaFormatTemplate NANOARROW_TYPE_FLOAT = Some ''f''"
| "ArrowSchemaFormatTemplate NANOARROW_TYPE_DOUBLE = Some ''g''"
| "ArrowSchemaFormatTemplate NANOARROW_TYPE_STRING = Some ''u''"
| "ArrowSchemaFormatTemplate NANOARROW_TYPE_LARGE_STRING = Some ''U''"
| "ArrowSchemaFormatTemplate NANOARROW_TYPE_STRING_VIEW = Some ''vu''"
| "ArrowSchemaFormatTemplate NANOARROW_TYPE_BINARY = Some ''z''"
| "ArrowSchemaFormatTemplate NANOARROW_TYPE_BINARY_VIEW = Some ''vz''"
| "ArrowSchemaFormatTemplate NANOARROW_TYPE_LARGE_BINARY = Some ''Z''"
| "ArrowSchemaFormatTemplate NANOARROW_TYPE_DATE32 = Some ''tdD''"
| "ArrowSchemaFormatTemplate NANOARROW_TYPE_DATE64 = Some ''tdm''"
| "ArrowSchemaFormatTemplate NANOARROW_TYPE_INTERVAL_MONTHS = Some ''tiM''"
| "ArrowSchemaFormatTemplate NANOARROW_TYPE_INTERVAL_DAY_TIME = Some ''tiD''"
| "ArrowSchemaFormatTemplate NANOARROW_TYPE_INTERVAL_MONTH_DAY_NANO = Some ''tin''"
| "ArrowSchemaFormatTemplate NANOARROW_TYPE_LIST = Some ''+l''"
| "ArrowSchemaFormatTemplate NANOARROW_TYPE_LARGE_LIST = Some ''+L''"
| "ArrowSchemaFormatTemplate NANOARROW_TYPE_LIST_VIEW = Some ''+vl''"
| "ArrowSchemaFormatTemplate NANOARROW_TYPE_LARGE_LIST_VIEW = Some ''+vL''"
| "ArrowSchemaFormatTemplate NANOARROW_TYPE_STRUCT = Some ''+s''"
| "ArrowSchemaFormatTemplate NANOARROW_TYPE_MAP = Some ''+m''"
| "ArrowSchemaFormatTemplate NANOARROW_TYPE_RUN_END_ENCODED = Some ''+r''"
| "ArrowSchemaFormatTemplate _ = None"

fun ArrowTimeUnitFormatString :: "time_unit \<Rightarrow> string" where
  "ArrowTimeUnitFormatString NANOARROW_TIME_UNIT_SECOND = ''s''"
| "ArrowTimeUnitFormatString NANOARROW_TIME_UNIT_MILLI = ''m''"
| "ArrowTimeUnitFormatString NANOARROW_TIME_UNIT_MICRO = ''u''"
| "ArrowTimeUnitFormatString NANOARROW_TIME_UNIT_NANO = ''n''"

section \<open>Layouts\<close>

datatype buffer_type =
    NANOARROW_BUFFER_TYPE_NONE
  | NANOARROW_BUFFER_TYPE_VALIDITY
  | NANOARROW_BUFFER_TYPE_TYPE_ID
  | NANOARROW_BUFFER_TYPE_UNION_OFFSET
  | NANOARROW_BUFFER_TYPE_DATA_OFFSET
  | NANOARROW_BUFFER_TYPE_DATA
  | NANOARROW_BUFFER_TYPE_VARIADIC_DATA
  | NANOARROW_BUFFER_TYPE_VARIADIC_SIZE
  | NANOARROW_BUFFER_TYPE_VIEW_OFFSET
  | NANOARROW_BUFFER_TYPE_SIZE

record arrow_layout =
  ly_type :: "buffer_type list"
  ly_data_type :: "arrow_type list"
  ly_bits :: "int list"
  ly_child :: int

text \<open>What the branches of ArrowLayoutInit assign to buffer \<open>i\<close>.\<close>

definition set_buffer :: "nat \<Rightarrow> buffer_type \<Rightarrow> arrow_type \<Rightarrow> int \<Rightarrow> arrow_layout \<Rightarrow> arrow_layout" where
  "set_buffer i bt dt bits l = l\<lparr>ly_type := (ly_type l)[i := bt], ly_data_type := (ly_data_type l)[i := dt],
     ly_bits := (ly_bits l)[i := bits]\<rparr>"

definition set_size :: "int \<Rightarrow> arrow_layout \<Rightarrow> arrow_layout" where
  "set_size bits l = l\<lparr>ly_bits := (ly_bits l)[1 := bits]\<rparr>"

definition ArrowLayoutInit :: "arrow_type \<Rightarrow> arrow_layout" where
  "ArrowLayoutInit st =
     (let l = \<lparr>ly_type = [NANOARROW_BUFFER_TYPE_VALIDITY, NANOARROW_BUFFER_TYPE_DATA, NANOARROW_BUFFER_TYPE_NONE],
            ly_data_type = [NANOARROW_TYPE_BOOL, st, NANOARROW_TYPE_UNINITIALIZED],
            ly_bits = [1, 0, 0], ly_child = 0\<rparr>;
          none = (\<lambda>i. set_buffer i NANOARROW_BUFFER_TYPE_NONE NANOARROW_TYPE_UNINITIALIZED 0)
      in if st \<in> {NANOARROW_TYPE_UNINITIALIZED, NANOARROW_TYPE_NA, NANOARROW_TYPE_RUN_END_ENCODED}
         then none 0 (none 1 l)
      else if st \<in> {NANOARROW_TYPE_LIST, NANOARROW_TYPE_MAP}
         then set_buffer 1 NANOARROW_BUFFER_TYPE_DATA_OFFSET NANOARROW_TYPE_INT32 32 l
      else if st = NANOARROW_TYPE_LARGE_LIST
         then set_buffer 1 NANOARROW_BUFFER_TYPE_DATA_OFFSET NANOARROW_TYPE_INT64 64 l
      else if st \<in> {NANOARROW_TYPE_STRUCT, NANOARROW_TYPE_FIXED_SIZE_LIST} then none 1 l
      else if st = NANOARROW_TYPE_BOOL then set_size 1 l
      else if st \<in> {NANOARROW_TYPE_UINT8, NANOARROW_TYPE_INT8} then set_size 8 l
      else if st \<in> {NANOARROW_TYPE_UINT16, NANOARROW_TYPE_INT16, NANOARROW_TYPE_HALF_FLOAT} then set_size 16 l
      else if st \<in> {NANOARROW_TYPE_UINT32, NANOARROW_TYPE_INT32, NANOARROW_TYPE_FLOAT, NANOARROW_TYPE_DECIMAL32}
         then set_size 32 l
      else if st = NANOARROW_TYPE_INTERVAL_MONTHS
         then set_buffer 1 NANOARROW_BUFFER_TYPE_DATA NANOARROW_TYPE_INT32 32 l
      else if st \<in> {NANOARROW_TYPE_UINT64, NANOARROW_TYPE_INT64, NANOARROW_TYPE_DOUBLE,
                    NANOARROW_TYPE_INTERVAL_DAY_TIME, NANOARROW_TYPE_DECIMAL64} then set_size 64 l
      else if st \<in> {NANOARROW_TYPE_DECIMAL128, NANOARROW_TYPE_INTERVAL_MONTH_DAY_NANO} then set_size 128 l
      else if st = NANOARROW_TYPE_DECIMAL256 then set_size 256 l
      else if st = NANOARROW_TYPE_FIXED_SIZE_BINARY
         then set_buffer 1 NANOARROW_BUFFER_TYPE_DATA NANOARROW_TYPE_BINARY 0 l
      else if st = NANOARROW_TYPE_DENSE_UNION
         then set_buffer 0 NANOARROW_BUFFER_TYPE_TYPE_ID NANOARROW_TYPE_INT8 8
           (set_buffer 1 NANOARROW_BUFFER_TYPE_UNION_OFFSET NANOARROW_TYPE_INT32 32 l)
      else if st = NANOARROW_TYPE_SPARSE_UNION
         then set_buffer 0 NANOARROW_BUFFER_TYPE_TYPE_ID NANOARROW_TYPE_INT8 8 (none 1 l)
      else if st \<in> {NANOARROW_TYPE_STRING, NANOARROW_TYPE_BINARY}
         then set_buffer 1 NANOARROW_BUFFER_TYPE_DATA_OFFSET NANOARROW_TYPE_INT32 32
           (set_buffer 2 NANOARROW_BUFFER_TYPE_DATA st 0 l)
      else if st = NANOARROW_TYPE_LARGE_STRING
         then set_buffer 1 NANOARROW_BUFFER_TYPE_DATA_OFFSET NANOARROW_TYPE_INT64 64
           (set_buffer 2 NANOARROW_BUFFER_TYPE_DATA NANOARROW_TYPE_STRING 0 l)
      else if st = NANOARROW_TYPE_LARGE_BINARY
         then set_buffer 1 NANOARROW_BUFFER_TYPE_DATA_OFFSET NANOARROW_TYPE_INT64 64
           (set_buffer 2 NANOARROW_BUFFER_TYPE_DATA NANOARROW_TYPE_BINARY 0 l)
      else if st \<in> {NANOARROW_TYPE_BINARY_VIEW, NANOARROW_TYPE_STRING_VIEW}
         then set_buffer 1 NANOARROW_BUFFER_TYPE_DATA st 128 l
      else if st = NANOARROW_TYPE_LIST_VIEW
         then set_buffer 1 NANOARROW_BUFFER_TYPE_VIEW_OFFSET NANOARROW_TYPE_INT32 32
           (set_buffer 2 NANOARROW_BUFFER_TYPE_SIZE NANOARROW_TYPE_INT32 32 l)
      else if st = NANOARROW_TYPE_LARGE_LIST_VIEW
         then set_buffer 1 NANOARROW_BUFFER_TYPE_VIEW_OFFSET NANOARROW_TYPE_INT64 64
           (set_buffer 2 NANOARROW_BUFFER_TYPE_SIZE NANOARROW_TYPE_INT64 64 l)
      else l)"

section \<open>Numbers in text\<close>

text \<open>
  The strtol of C for base 10 on a long of 64 bits: white space, a sign, digits, the value clamped to the
  range; the rest of the text follows the digits, or is the whole text when there are none.
\<close>

definition isspace :: "char \<Rightarrow> bool" where
  "isspace c \<longleftrightarrow> c \<in> {CHR 0x09, CHR 0x0A, CHR 0x0B, CHR 0x0C, CHR 0x0D, CHR 0x20}"

definition isdigit :: "char \<Rightarrow> bool" where
  "isdigit c \<longleftrightarrow> 48 \<le> (of_char c :: nat) \<and> (of_char c :: nat) \<le> 57"

definition digits_value :: "string \<Rightarrow> nat" where
  "digits_value = foldl (\<lambda>n c. 10 * n + (of_char c - 48)) 0"

definition clamp_long :: "int \<Rightarrow> int" where
  "clamp_long i = max (- (2 ^ 63)) (min (2 ^ 63 - 1) i)"

definition strtol :: "string \<Rightarrow> int \<times> string" where
  "strtol s =
     (let t = dropWhile isspace s;
          neg = (t \<noteq> [] \<and> hd t = CHR ''-'');
          u = (if t \<noteq> [] \<and> (hd t = CHR ''-'' \<or> hd t = CHR ''+'') then tl t else t);
          digits = takeWhile isdigit u
      in if digits = [] then (0, s)
         else (clamp_long (if neg then - int (digits_value digits) else int (digits_value digits)),
               dropWhile isdigit u))"

text \<open>The conversion to int32\_t.\<close>

definition to_int32 :: "int \<Rightarrow> int" where
  "to_int32 i = sint (word_of_int i :: 32 word)"

lemma strtol_rest: "length (snd (strtol s)) \<le> length s"
proof -
  let ?t = "dropWhile isspace s"
  have "length (dropWhile isdigit u) \<le> length u" for u by (rule length_dropWhile_le)
  then have "length (dropWhile isdigit ?t) \<le> length s" "length (dropWhile isdigit (tl ?t)) \<le> length s"
    by (meson le_trans length_dropWhile_le, metis diff_le_self le_trans length_dropWhile_le length_tl)
  then show ?thesis by (auto simp: strtol_def Let_def)
qed

text \<open>The number of type ids of a union in text, or -1 when they are malformed.  Each pass uses up a character.\<close>

function count_type_ids :: "string \<Rightarrow> int \<Rightarrow> int" where
  "count_type_ids type_ids i =
     (let (type_id, end_ptr) = strtol type_ids in
      if end_ptr = type_ids \<or> type_id < 0 \<or> type_id > 127 then - 1
      else if end_ptr = [] then i + 1
      else if hd end_ptr \<noteq> CHR '','' then - 1
      else count_type_ids (tl end_ptr) (i + 1))"
  by pat_completeness auto
termination
proof (relation "measure (\<lambda>(s, i). length s)", goal_cases)
  case (2 s i p n rest)
  then show ?case using strtol_rest [of s] by (cases "strtol s"; cases rest) auto
qed simp

declare count_type_ids.simps [simp del]

definition ArrowParseUnionTypeIds :: "string \<Rightarrow> int" where
  "ArrowParseUnionTypeIds type_ids = (if type_ids = [] then 0 else count_type_ids type_ids 0)"

section \<open>Parsing a format\<close>

text \<open>
  The view of a schema, as far as parsing and ViewInit set it; the timezone and the union's type ids
  point into the format and are the text from there on.
\<close>

record schema_view =
  vw_type :: arrow_type
  vw_storage :: arrow_type
  vw_layout :: arrow_layout
  vw_extension_name :: string_view
  vw_extension_metadata :: string_view
  vw_fixed_size :: int
  vw_decimal_bitwidth :: int
  vw_decimal_precision :: int
  vw_decimal_scale :: int
  vw_time_unit :: time_unit
  vw_timezone :: string
  vw_union_type_ids :: string

definition char_at :: "string \<Rightarrow> nat \<Rightarrow> char" where
  "char_at s i = (if i < length s then s ! i else CHR 0x00)"

definition sq :: "string \<Rightarrow> string" where
  "sq s = [CHR 0x27] @ s @ [CHR 0x27]"

text \<open>A message in an ArrowError: 1024 bytes with the null character.\<close>

definition ArrowErrorSet :: "string \<Rightarrow> errno \<times> string" where
  "ArrowErrorSet text_needed =
     (if length text_needed \<ge> 1024 then (ERANGE, take 1023 text_needed) else (NANOARROW_OK, text_needed))"

abbreviation einval :: "string \<Rightarrow> string + 'a" where
  "einval m \<equiv> Inl (snd (ArrowErrorSet m))"

definition ArrowSchemaViewSetPrimitive :: "schema_view \<Rightarrow> arrow_type \<Rightarrow> schema_view" where
  "ArrowSchemaViewSetPrimitive vw type = vw\<lparr>vw_type := type, vw_storage := type\<rparr>"

text \<open>
  The parser returns EINVAL with a message, or the view and the rest of the format; \<open>n_children\<close> is that of
  the schema of the view.
\<close>

definition parse_decimal :: "schema_view \<Rightarrow> string \<Rightarrow> string + schema_view \<times> string" where
  "parse_decimal vw format =
     (if char_at format 1 \<noteq> CHR '':'' \<or> char_at format 2 = CHR 0x00
      then einval (''Expected '' @ sq '':precision,scale[,bitwidth]'' @ '' following '' @ sq ''d'')
      else
        (let parse_start = drop 2 format; (precision, parse_end) = strtol parse_start;
             vw = vw\<lparr>vw_decimal_precision := to_int32 precision\<rparr> in
         if parse_end = parse_start \<or> char_at parse_end 0 \<noteq> CHR '',''
         then einval (''Expected '' @ sq ''precision,scale[,bitwidth]'' @ '' following '' @ sq ''d:'')
         else
           (let parse_start = tl parse_end; (scale, parse_end) = strtol parse_start;
                vw = vw\<lparr>vw_decimal_scale := to_int32 scale\<rparr>;
                finish = (\<lambda>vw rest. let bitwidth = vw_decimal_bitwidth vw in
                  if bitwidth = 32 then Inr (ArrowSchemaViewSetPrimitive vw NANOARROW_TYPE_DECIMAL32, rest)
                  else if bitwidth = 64 then Inr (ArrowSchemaViewSetPrimitive vw NANOARROW_TYPE_DECIMAL64, rest)
                  else if bitwidth = 128 then Inr (ArrowSchemaViewSetPrimitive vw NANOARROW_TYPE_DECIMAL128, rest)
                  else if bitwidth = 256 then Inr (ArrowSchemaViewSetPrimitive vw NANOARROW_TYPE_DECIMAL256, rest)
                  else einval (''Expected decimal bitwidth of 128 or 256 but found '' @ int_to_string bitwidth))
            in if parse_end = parse_start
               then einval (''Expected '' @ sq ''scale[,bitwidth]'' @ '' following '' @ sq ''d:precision,'')
               else if char_at parse_end 0 \<noteq> CHR '',''
               then finish (vw\<lparr>vw_decimal_bitwidth := 128\<rparr>) parse_end
               else
                 (let parse_start = tl parse_end; (bitwidth, parse_end) = strtol parse_start;
                      vw = vw\<lparr>vw_decimal_bitwidth := to_int32 bitwidth\<rparr>
                  in if parse_start = parse_end
                     then einval (''Expected precision following '' @ sq ''d:precision,scale,'')
                     else finish vw parse_end))))"

definition parse_nested :: "int \<Rightarrow> schema_view \<Rightarrow> string \<Rightarrow> string + schema_view \<times> string" where
  "parse_nested n_children vw format =
     (let prim = (\<lambda>t n. Inr (ArrowSchemaViewSetPrimitive vw t, drop n format)); c1 = char_at format 1;
          c2 = char_at format 2;
          union_error = einval (''Expected union format string +us:<type_ids> or +ud:<type_ids> but found '' @ sq format)
      in if c1 = CHR ''l'' then prim NANOARROW_TYPE_LIST 2
         else if c1 = CHR ''L'' then prim NANOARROW_TYPE_LARGE_LIST 2
         else if c1 = CHR ''r'' then prim NANOARROW_TYPE_RUN_END_ENCODED 2
         else if c1 = CHR ''w'' then
           (if c2 \<noteq> CHR '':'' \<or> char_at format 3 = CHR 0x00
            then einval (''Expected '' @ sq '':<width>'' @ '' following '' @ sq ''+w'')
            else (let (fixed_size, rest) = strtol (drop 3 format) in
              Inr ((ArrowSchemaViewSetPrimitive vw NANOARROW_TYPE_FIXED_SIZE_LIST)\<lparr>vw_fixed_size := to_int32 fixed_size\<rparr>,
                   rest)))
         else if c1 = CHR ''s'' then prim NANOARROW_TYPE_STRUCT 2
         else if c1 = CHR ''m'' then prim NANOARROW_TYPE_MAP 2
         else if c1 = CHR ''u'' then
           (if c2 \<noteq> CHR ''d'' \<and> c2 \<noteq> CHR ''s'' then union_error
            else if char_at format 3 = CHR '':'' then
              (let type_ids = drop 4 format; n_type_ids = ArrowParseUnionTypeIds type_ids in
               if n_type_ids \<noteq> n_children
               then einval (''Expected union type_ids parameter to be a comma-separated list of '' @
                      int_to_string n_children @ '' values between 0 and 127 but found '' @ sq type_ids)
               else Inr ((ArrowSchemaViewSetPrimitive vw
                   (if c2 = CHR ''d'' then NANOARROW_TYPE_DENSE_UNION else NANOARROW_TYPE_SPARSE_UNION))
                     \<lparr>vw_union_type_ids := type_ids\<rparr>, []))
            else union_error)
         else if c1 = CHR ''v'' then
           (if c2 = CHR ''l'' then prim NANOARROW_TYPE_LIST_VIEW 3
            else if c2 = CHR ''L'' then prim NANOARROW_TYPE_LARGE_LIST_VIEW 3
            else einval (''Expected view format string +vl or +vL but found '' @ sq format))
         else einval (''Expected nested type format string but found '' @ sq format))"

text \<open>The unit of a time in the third character.\<close>

definition parse_unit :: "char \<Rightarrow> time_unit option" where
  "parse_unit c =
     (if c = CHR ''s'' then Some NANOARROW_TIME_UNIT_SECOND
      else if c = CHR ''m'' then Some NANOARROW_TIME_UNIT_MILLI
      else if c = CHR ''u'' then Some NANOARROW_TIME_UNIT_MICRO
      else if c = CHR ''n'' then Some NANOARROW_TIME_UNIT_NANO
      else None)"

definition parse_datetime :: "schema_view \<Rightarrow> string \<Rightarrow> string + schema_view \<times> string" where
  "parse_datetime vw format =
     (let c1 = char_at format 1; c2 = char_at format 2;
          as = (\<lambda>st t. (ArrowSchemaViewSetPrimitive vw st)\<lparr>vw_type := t\<rparr>);
          units = ''Expected '' @ sq ''s'' @ '', '' @ sq ''m'' @ '', '' @ sq ''u'' @ '', or '' @ sq ''n'' @ '' following ''
      in if c1 = CHR ''d'' then
           (if c2 = CHR ''D'' then Inr (as NANOARROW_TYPE_INT32 NANOARROW_TYPE_DATE32, drop 3 format)
            else if c2 = CHR ''m'' then Inr (as NANOARROW_TYPE_INT64 NANOARROW_TYPE_DATE64, drop 3 format)
            else einval (''Expected '' @ sq ''D'' @ '' or '' @ sq ''m'' @ '' following '' @ sq ''td'' @ '' but found '' @
                   sq (drop 2 format)))
         else if c1 = CHR ''t'' then
           (case parse_unit c2 of
              None \<Rightarrow> einval (units @ sq ''tt'' @ '' but found '' @ sq (drop 2 format))
            | Some u \<Rightarrow>
                Inr ((if u \<in> {NANOARROW_TIME_UNIT_SECOND, NANOARROW_TIME_UNIT_MILLI}
                      then as NANOARROW_TYPE_INT32 NANOARROW_TYPE_TIME32
                      else as NANOARROW_TYPE_INT64 NANOARROW_TYPE_TIME64)\<lparr>vw_time_unit := u\<rparr>, drop 3 format))
         else if c1 = CHR ''s'' then
           (case parse_unit c2 of
              None \<Rightarrow> einval (units @ sq ''ts'' @ '' but found '' @ sq (drop 2 format))
            | Some u \<Rightarrow>
                if char_at format 3 \<noteq> CHR '':''
                then einval (''Expected '' @ sq '':'' @ '' following '' @ sq (take 3 format) @ '' but found '' @
                       sq (drop 3 format))
                else Inr ((as NANOARROW_TYPE_INT64 NANOARROW_TYPE_TIMESTAMP)
                       \<lparr>vw_time_unit := u, vw_timezone := drop 4 format\<rparr>, []))
         else if c1 = CHR ''D'' then
           (case parse_unit c2 of
              None \<Rightarrow> einval (''Expected '' @ sq ''s'' @ '', '' @ sq ''m'' @ '', u'' @ [CHR 0x27] @ '', or '' @ sq ''n'' @
                       '' following '' @ sq ''tD'' @ '' but found '' @ sq (drop 2 format))
            | Some u \<Rightarrow>
                Inr ((as NANOARROW_TYPE_INT64 NANOARROW_TYPE_DURATION)\<lparr>vw_time_unit := u\<rparr>, drop 3 format))
         else if c1 = CHR ''i'' then
           (let prim = (\<lambda>t. Inr (ArrowSchemaViewSetPrimitive vw t, drop 3 format)) in
            if c2 = CHR ''M'' then prim NANOARROW_TYPE_INTERVAL_MONTHS
            else if c2 = CHR ''D'' then prim NANOARROW_TYPE_INTERVAL_DAY_TIME
            else if c2 = CHR ''n'' then prim NANOARROW_TYPE_INTERVAL_MONTH_DAY_NANO
            else einval (''Expected '' @ sq ''M'' @ '', '' @ sq ''D'' @ '', or '' @ sq ''n'' @ '' following '' @ sq ''ti'' @
                   '' but found '' @ sq (drop 2 format)))
         else einval (''Expected '' @ sq ''d'' @ '', '' @ sq ''t'' @ '', '' @ sq ''s'' @ '', '' @ sq ''D'' @ '', or '' @
                sq ''i'' @ '' following '' @ sq ''t'' @ '' but found '' @ sq (tl format)))"

definition ArrowSchemaViewParse :: "int \<Rightarrow> schema_view \<Rightarrow> string \<Rightarrow> string + schema_view \<times> string" where
  "ArrowSchemaViewParse n_children vw format =
     (let c = char_at format 0; prim = (\<lambda>t. Inr (ArrowSchemaViewSetPrimitive vw t, drop 1 format)) in
      if c = CHR ''n'' then prim NANOARROW_TYPE_NA
      else if c = CHR ''b'' then prim NANOARROW_TYPE_BOOL
      else if c = CHR ''c'' then prim NANOARROW_TYPE_INT8
      else if c = CHR ''C'' then prim NANOARROW_TYPE_UINT8
      else if c = CHR ''s'' then prim NANOARROW_TYPE_INT16
      else if c = CHR ''S'' then prim NANOARROW_TYPE_UINT16
      else if c = CHR ''i'' then prim NANOARROW_TYPE_INT32
      else if c = CHR ''I'' then prim NANOARROW_TYPE_UINT32
      else if c = CHR ''l'' then prim NANOARROW_TYPE_INT64
      else if c = CHR ''L'' then prim NANOARROW_TYPE_UINT64
      else if c = CHR ''e'' then prim NANOARROW_TYPE_HALF_FLOAT
      else if c = CHR ''f'' then prim NANOARROW_TYPE_FLOAT
      else if c = CHR ''g'' then prim NANOARROW_TYPE_DOUBLE
      else if c = CHR ''d'' then parse_decimal vw format
      else if c = CHR ''w'' then
        (if char_at format 1 \<noteq> CHR '':'' \<or> char_at format 2 = CHR 0x00
         then einval (''Expected '' @ sq '':<width>'' @ '' following '' @ sq ''w'')
         else (let (fixed_size, rest) = strtol (drop 2 format) in
           Inr ((ArrowSchemaViewSetPrimitive vw NANOARROW_TYPE_FIXED_SIZE_BINARY)\<lparr>vw_fixed_size := to_int32 fixed_size\<rparr>,
                rest)))
      else if c = CHR ''z'' then prim NANOARROW_TYPE_BINARY
      else if c = CHR ''u'' then prim NANOARROW_TYPE_STRING
      else if c = CHR ''Z'' then prim NANOARROW_TYPE_LARGE_BINARY
      else if c = CHR ''U'' then prim NANOARROW_TYPE_LARGE_STRING
      else if c = CHR ''+'' then parse_nested n_children vw format
      else if c = CHR ''t'' then parse_datetime vw format
      else if c = CHR ''v'' then
        (let c1 = char_at format 1; prim = (\<lambda>t. Inr (ArrowSchemaViewSetPrimitive vw t, drop 2 format)) in
         if c1 = CHR ''u'' then prim NANOARROW_TYPE_STRING_VIEW
         else if c1 = CHR ''z'' then prim NANOARROW_TYPE_BINARY_VIEW
         else einval (''Expected '' @ sq ''u'' @ '', or '' @ sq ''z'' @ '' following '' @ sq ''v'' @ '' but found '' @
                sq (tl format)))
      else einval (''Unknown format: '' @ sq format))"

end
