(* ===== verification/Arrow_Schema.thy ===== *)
theory Arrow_Schema
  imports Arrow_Types
begin

text \<open>
  The schemas of the Arrow C data interface and the functions of nanoarrow that build, copy and view
  them (adbc\_nanoarrow.cpp, ArrowSchema*).  Memory is assumed to suffice here: malloc does not fail.
  A schema that was released, or only allocated, has no readable members but its null release
  callback; reading the others, a null pointer, or past the array of children is None.
\<close>

unbundle bit_operations_syntax

section \<open>Schemas\<close>

text \<open>
  \<open>sc_children\<close> is the array of pointers to children, None when null; a child or dictionary pointer is
  None when null.
\<close>

datatype arrow_schema =
    Released
  | Schema (sc_format: "string option") (sc_name: "string option") (sc_metadata: "byte list option")
      (sc_flags: "64 word") (sc_n_children: int) (sc_children: "arrow_schema option list option")
      (sc_dictionary: "arrow_schema option")

definition ARROW_FLAG_DICTIONARY_ORDERED :: "64 word" where [simp]: "ARROW_FLAG_DICTIONARY_ORDERED = 1"
definition ARROW_FLAG_NULLABLE :: "64 word" where [simp]: "ARROW_FLAG_NULLABLE = 2"
definition ARROW_FLAG_MAP_KEYS_SORTED :: "64 word" where [simp]: "ARROW_FLAG_MAP_KEYS_SORTED = 4"

definition ArrowSchemaInit :: arrow_schema where
  "ArrowSchemaInit = Schema None None None ARROW_FLAG_NULLABLE 0 None None"

text \<open>The setters of one member copy what they are given.\<close>

fun ArrowSchemaSetFormat :: "arrow_schema \<Rightarrow> string option \<Rightarrow> arrow_schema nano" where
  "ArrowSchemaSetFormat Released format = None"
| "ArrowSchemaSetFormat (Schema f n m fl k cs d) format = Some (NANOARROW_OK, Schema format n m fl k cs d)"

fun ArrowSchemaSetName :: "arrow_schema \<Rightarrow> string option \<Rightarrow> arrow_schema nano" where
  "ArrowSchemaSetName Released name = None"
| "ArrowSchemaSetName (Schema f n m fl k cs d) name = Some (NANOARROW_OK, Schema f name m fl k cs d)"

fun ArrowSchemaSetMetadata :: "arrow_schema \<Rightarrow> byte list option \<Rightarrow> arrow_schema nano" where
  "ArrowSchemaSetMetadata Released metadata = None"
| "ArrowSchemaSetMetadata (Schema f n m fl k cs d) metadata = (case metadata of
     None \<Rightarrow> Some (NANOARROW_OK, Schema f n None fl k cs d)
   | Some text_memory \<Rightarrow> do {
       metadata_size \<leftarrow> ArrowMetadataSizeOf metadata;
       copy \<leftarrow> load text_memory 0 (nat metadata_size);
       Some (NANOARROW_OK, Schema f n (Some copy) fl k cs d)
     })"

fun ArrowSchemaAllocateChildren :: "arrow_schema \<Rightarrow> int \<Rightarrow> arrow_schema nano" where
  "ArrowSchemaAllocateChildren Released n_children = None"
| "ArrowSchemaAllocateChildren (Schema f n m fl k cs d) n_children =
     (if cs \<noteq> None then Some (EEXIST, Schema f n m fl k cs d)
      else if n_children > 0 then
        Some (NANOARROW_OK,
              Schema f n m fl n_children (Some (replicate (nat n_children) (Some Released))) d)
      else Some (NANOARROW_OK, Schema f n m fl k cs d))"

fun ArrowSchemaAllocateDictionary :: "arrow_schema \<Rightarrow> arrow_schema nano" where
  "ArrowSchemaAllocateDictionary Released = None"
| "ArrowSchemaAllocateDictionary (Schema f n m fl k cs d) =
     (if d \<noteq> None then Some (EEXIST, Schema f n m fl k cs d)
      else Some (NANOARROW_OK, Schema f n m fl k cs (Some Released)))"

text \<open>A call on child \<open>i\<close>, or a change of its flags.\<close>

fun on_child :: "arrow_schema \<Rightarrow> nat \<Rightarrow> (arrow_schema \<Rightarrow> arrow_schema nano) \<Rightarrow> arrow_schema nano" where
  "on_child Released i op = None"
| "on_child (Schema f n m fl k cs d) i op =
     do {
       children \<leftarrow> cs;
       child \<leftarrow> (if i < length children then children ! i else None);
       (e, child) \<leftarrow> op child;
       Some (e, Schema f n m fl k (Some (children[i := Some child])) d)
     }"

fun not_nullable :: "arrow_schema \<Rightarrow> arrow_schema nano" where
  "not_nullable Released = None"
| "not_nullable (Schema f n m fl k cs d) =
     Some (NANOARROW_OK, Schema f n m (fl AND NOT ARROW_FLAG_NULLABLE) k cs d)"

definition init_schema :: "arrow_schema \<Rightarrow> arrow_schema nano" where
  "init_schema s = Some (NANOARROW_OK, ArrowSchemaInit)"

text \<open>ArrowSchemaInit on the first \<open>n\<close> children.\<close>

fun init_children :: "arrow_schema \<Rightarrow> nat \<Rightarrow> arrow_schema nano" where
  "init_children s 0 = Some (NANOARROW_OK, s)"
| "init_children s (Suc n) = nano_then (init_children s n) (\<lambda>s. on_child s n init_schema)"

section \<open>Setting a type\<close>

text \<open>
  The children a type needs, the type from its template, and a schema made from a type call each other:
  the child of a map is a struct.  RUN\_END\_ENCODED falls through to the default.
\<close>

function ArrowSchemaInitChildrenIfNeeded :: "arrow_schema \<Rightarrow> arrow_type \<Rightarrow> arrow_schema nano"
  and ArrowSchemaSetType :: "arrow_schema \<Rightarrow> arrow_type \<Rightarrow> arrow_schema nano"
  and ArrowSchemaInitFromType :: "arrow_type \<Rightarrow> arrow_schema nano"
where
  "ArrowSchemaInitChildrenIfNeeded s type =
     (if type \<in> {NANOARROW_TYPE_LIST, NANOARROW_TYPE_LARGE_LIST, NANOARROW_TYPE_FIXED_SIZE_LIST,
                NANOARROW_TYPE_LIST_VIEW, NANOARROW_TYPE_LARGE_LIST_VIEW} then
        nano_then (ArrowSchemaAllocateChildren s 1) (\<lambda>s.
        nano_then (on_child s 0 init_schema) (\<lambda>s.
        on_child s 0 (\<lambda>c. ArrowSchemaSetName c (Some ''item''))))
      else if type = NANOARROW_TYPE_MAP then
        nano_then (ArrowSchemaAllocateChildren s 1) (\<lambda>s.
        nano_then (on_child s 0 (\<lambda>c. ArrowSchemaInitFromType NANOARROW_TYPE_STRUCT)) (\<lambda>s.
        nano_then (on_child s 0 (\<lambda>c. ArrowSchemaSetName c (Some ''entries''))) (\<lambda>s.
        nano_then (on_child s 0 not_nullable) (\<lambda>s.
        nano_then (on_child s 0 (\<lambda>c. ArrowSchemaAllocateChildren c 2)) (\<lambda>s.
        nano_then (on_child s 0 (\<lambda>c. on_child c 0 init_schema)) (\<lambda>s.
        nano_then (on_child s 0 (\<lambda>c. on_child c 1 init_schema)) (\<lambda>s.
        nano_then (on_child s 0 (\<lambda>c. on_child c 0 (\<lambda>k. ArrowSchemaSetName k (Some ''key'')))) (\<lambda>s.
        nano_then (on_child s 0 (\<lambda>c. on_child c 0 not_nullable)) (\<lambda>s.
        on_child s 0 (\<lambda>c. on_child c 1 (\<lambda>v. ArrowSchemaSetName v (Some ''value''))))))))))))
      else if type = NANOARROW_TYPE_RUN_END_ENCODED then
        nano_then (ArrowSchemaAllocateChildren s 2) (\<lambda>s.
        nano_then (on_child s 0 init_schema) (\<lambda>s.
        nano_then (on_child s 0 (\<lambda>c. ArrowSchemaSetName c (Some ''run_ends''))) (\<lambda>s.
        nano_then (on_child s 0 not_nullable) (\<lambda>s.
        nano_then (on_child s 1 init_schema) (\<lambda>s.
        on_child s 1 (\<lambda>c. ArrowSchemaSetName c (Some ''values'')))))))
      else Some (NANOARROW_OK, s))"
| "ArrowSchemaSetType s type =
     (if ArrowSchemaFormatTemplate type = None \<and> type \<noteq> NANOARROW_TYPE_UNINITIALIZED then Some (EINVAL, s)
      else nano_then (ArrowSchemaSetFormat s (ArrowSchemaFormatTemplate type)) (\<lambda>s.
        ArrowSchemaInitChildrenIfNeeded s type))"
| "ArrowSchemaInitFromType type =
     (case ArrowSchemaSetType ArrowSchemaInit type of
        None \<Rightarrow> None
      | Some (e, s) \<Rightarrow> if e \<noteq> NANOARROW_OK then Some (e, Released) else Some (NANOARROW_OK, s))"
  by pat_completeness auto
termination
  by (relation "measure (\<lambda>x. case x of
        Inl (s, t) \<Rightarrow> (if t = NANOARROW_TYPE_MAP then 3 else 0)
      | Inr (Inl (s, t)) \<Rightarrow> (if t = NANOARROW_TYPE_MAP then 4 else 1)
      | Inr (Inr t) \<Rightarrow> (if t = NANOARROW_TYPE_MAP then 5 else 2))") auto

declare ArrowSchemaInitChildrenIfNeeded.simps [simp del] ArrowSchemaSetType.simps [simp del]
  ArrowSchemaInitFromType.simps [simp del]

definition ArrowSchemaSetTypeStruct :: "arrow_schema \<Rightarrow> int \<Rightarrow> arrow_schema nano" where
  "ArrowSchemaSetTypeStruct s n_children =
     nano_then (ArrowSchemaSetType s NANOARROW_TYPE_STRUCT) (\<lambda>s.
     nano_then (ArrowSchemaAllocateChildren s n_children) (\<lambda>s.
     init_children s (nat n_children)))"

text \<open>Formats with parameters are printed to a buffer of 64 or 128 bytes; too long a text is ERANGE.\<close>

definition set_printed :: "nat \<Rightarrow> arrow_schema \<Rightarrow> string \<Rightarrow> arrow_schema nano" where
  "set_printed capacity s text_out =
     (if length text_out \<ge> capacity then Some (ERANGE, s) else ArrowSchemaSetFormat s (Some text_out))"

definition ArrowSchemaSetTypeFixedSize :: "arrow_schema \<Rightarrow> arrow_type \<Rightarrow> int \<Rightarrow> arrow_schema nano" where
  "ArrowSchemaSetTypeFixedSize s type fixed_size =
     (if fixed_size \<le> 0 then Some (EINVAL, s)
      else if type = NANOARROW_TYPE_FIXED_SIZE_BINARY then set_printed 64 s (''w:'' @ int_to_string fixed_size)
      else if type = NANOARROW_TYPE_FIXED_SIZE_LIST then
        nano_then (set_printed 64 s (''+w:'' @ int_to_string fixed_size)) (\<lambda>s.
        ArrowSchemaInitChildrenIfNeeded s type)
      else Some (EINVAL, s))"

definition ArrowSchemaSetTypeDecimal :: "arrow_schema \<Rightarrow> arrow_type \<Rightarrow> int \<Rightarrow> int \<Rightarrow> arrow_schema nano" where
  "ArrowSchemaSetTypeDecimal s type decimal_precision decimal_scale =
     (let printed = ''d:'' @ int_to_string decimal_precision @ '','' @ int_to_string decimal_scale in
      if decimal_precision \<le> 0 then Some (EINVAL, s)
      else if type = NANOARROW_TYPE_DECIMAL32 then
        (if decimal_precision > 9 then Some (EINVAL, s) else set_printed 64 s (printed @ '',32''))
      else if type = NANOARROW_TYPE_DECIMAL64 then
        (if decimal_precision > 18 then Some (EINVAL, s) else set_printed 64 s (printed @ '',64''))
      else if type = NANOARROW_TYPE_DECIMAL128 then
        (if decimal_precision > 38 then Some (EINVAL, s) else set_printed 64 s printed)
      else if type = NANOARROW_TYPE_DECIMAL256 then
        (if decimal_precision > 76 then Some (EINVAL, s) else set_printed 64 s (printed @ '',256''))
      else Some (EINVAL, s))"

definition ArrowSchemaSetTypeRunEndEncoded :: "arrow_schema \<Rightarrow> arrow_type \<Rightarrow> arrow_schema nano" where
  "ArrowSchemaSetTypeRunEndEncoded s run_end_type =
     (if run_end_type \<notin> {NANOARROW_TYPE_INT16, NANOARROW_TYPE_INT32, NANOARROW_TYPE_INT64} then Some (EINVAL, s)
      else
        nano_then (ArrowSchemaSetFormat s (ArrowSchemaFormatTemplate NANOARROW_TYPE_RUN_END_ENCODED)) (\<lambda>s.
        nano_then (ArrowSchemaInitChildrenIfNeeded s NANOARROW_TYPE_RUN_END_ENCODED) (\<lambda>s.
        nano_then (on_child s 0 (\<lambda>c. ArrowSchemaSetType c run_end_type)) (\<lambda>s.
        on_child s 1 (\<lambda>c. ArrowSchemaSetType c NANOARROW_TYPE_UNINITIALIZED)))))"

text \<open>A null timezone is None.\<close>

definition ArrowSchemaSetTypeDateTime ::
  "arrow_schema \<Rightarrow> arrow_type \<Rightarrow> time_unit \<Rightarrow> string option \<Rightarrow> arrow_schema nano" where
  "ArrowSchemaSetTypeDateTime s type time_unit timezone =
     (let unit_str = ArrowTimeUnitFormatString time_unit in
      if type = NANOARROW_TYPE_TIME32 then
        (if timezone \<noteq> None then Some (EINVAL, s)
         else if time_unit \<in> {NANOARROW_TIME_UNIT_MICRO, NANOARROW_TIME_UNIT_NANO} then Some (EINVAL, s)
         else set_printed 128 s (''tt'' @ unit_str))
      else if type = NANOARROW_TYPE_TIME64 then
        (if timezone \<noteq> None then Some (EINVAL, s)
         else if time_unit \<in> {NANOARROW_TIME_UNIT_SECOND, NANOARROW_TIME_UNIT_MILLI} then Some (EINVAL, s)
         else set_printed 128 s (''tt'' @ unit_str))
      else if type = NANOARROW_TYPE_TIMESTAMP then
        set_printed 128 s (''ts'' @ unit_str @ '':'' @ (case timezone of None \<Rightarrow> [] | Some tz \<Rightarrow> tz))
      else if type = NANOARROW_TYPE_DURATION then
        (if timezone \<noteq> None then Some (EINVAL, s) else set_printed 128 s (''tD'' @ unit_str))
      else Some (EINVAL, s))"

fun union_type_ids :: "nat \<Rightarrow> string" where
  "union_type_ids 0 = []"
| "union_type_ids (Suc 0) = ''0''"
| "union_type_ids (Suc (Suc n)) = union_type_ids (Suc n) @ '','' @ nat_to_string (Suc n)"

definition ArrowSchemaSetTypeUnion :: "arrow_schema \<Rightarrow> arrow_type \<Rightarrow> int \<Rightarrow> arrow_schema nano" where
  "ArrowSchemaSetTypeUnion s type n_children =
     (if n_children < 0 \<or> n_children > 127 then Some (EINVAL, s)
      else if type \<noteq> NANOARROW_TYPE_SPARSE_UNION \<and> type \<noteq> NANOARROW_TYPE_DENSE_UNION then Some (EINVAL, s)
      else
        nano_then (ArrowSchemaSetFormat s
          (Some ((if type = NANOARROW_TYPE_SPARSE_UNION then ''+us:'' else ''+ud:'') @ union_type_ids (nat n_children))))
        (\<lambda>s. nano_then (ArrowSchemaAllocateChildren s n_children) (\<lambda>s.
        init_children s (nat n_children))))"

section \<open>Copying\<close>

text \<open>
  The copy of each child is put in place of the child that was allocated; an error releases what was
  built.
\<close>

function ArrowSchemaDeepCopy :: "arrow_schema \<Rightarrow> arrow_schema nano"
  and copy_children :: "arrow_schema option list \<Rightarrow> nat \<Rightarrow> nat \<Rightarrow> arrow_schema \<Rightarrow> arrow_schema nano"
where
  "ArrowSchemaDeepCopy Released = None"
| "ArrowSchemaDeepCopy (Schema f n m fl k cs d) =
     (case
        nano_then (ArrowSchemaSetFormat ArrowSchemaInit f) (\<lambda>out.
        nano_then (case out of Released \<Rightarrow> None
                   | Schema f' n' m' fl' k' cs' d' \<Rightarrow> Some (NANOARROW_OK, Schema f' n' m' fl k' cs' d')) (\<lambda>out.
        nano_then (ArrowSchemaSetName out n) (\<lambda>out.
        nano_then (ArrowSchemaSetMetadata out m) (\<lambda>out.
        nano_then (ArrowSchemaAllocateChildren out k) (\<lambda>out.
        nano_then (case cs of None \<Rightarrow> if k > 0 then None else Some (NANOARROW_OK, out)
                   | Some children \<Rightarrow> copy_children children 0 (nat k) out) (\<lambda>out.
        case d of None \<Rightarrow> Some (NANOARROW_OK, out)
        | Some dictionary \<Rightarrow>
            nano_then (ArrowSchemaAllocateDictionary out) (\<lambda>out.
            case ArrowSchemaDeepCopy dictionary of None \<Rightarrow> None
            | Some (e, copy) \<Rightarrow>
                (case out of Released \<Rightarrow> None
                 | Schema f' n' m' fl' k' cs' d' \<Rightarrow> Some (e, Schema f' n' m' fl' k' cs' (Some copy)))))))))) of
        None \<Rightarrow> None
      | Some (e, out) \<Rightarrow> if e \<noteq> NANOARROW_OK then Some (e, Released) else Some (NANOARROW_OK, out))"
| "copy_children children i 0 out = Some (NANOARROW_OK, out)"
| "copy_children [] i (Suc n) out = None"
| "copy_children (None # children) i (Suc n) out = None"
| "copy_children (Some c # children) i (Suc n) out =
     (case ArrowSchemaDeepCopy c of None \<Rightarrow> None
      | Some (e, copy) \<Rightarrow>
          nano_then (on_child out i (\<lambda>_. Some (e, copy))) (\<lambda>out. copy_children children (Suc i) n out))"
  by pat_completeness auto
termination
  by (relation "measure (\<lambda>x. case x of Inl s \<Rightarrow> size s | Inr (cs, i, n, out) \<Rightarrow> size_list (size_option size) cs)")
    auto

end
