(* ===== verification/Arrow_Schema_View.thy ===== *)
theory Arrow_Schema_View
  imports Arrow_Schema
begin

text \<open>
  Reading a schema (adbc\_nanoarrow.cpp, ArrowSchemaView* and ArrowSchemaToString): the checks that make a
  view of it, which accept a schema or explain what is wrong with it, and the summary printed of it.  A
  result is None where the code dereferences a null or dangling pointer.
\<close>

unbundle bit_operations_syntax

definition ArrowCharView :: "string option \<Rightarrow> string_view" where
  "ArrowCharView value_in = (case value_in of
     None \<Rightarrow> null_view
   | Some s \<Rightarrow> \<lparr>sv_data = Some (map of_char s @ [0]), sv_size = int (length s)\<rparr>)"

text \<open>A check that may fail with EINVAL and a message, before what follows.\<close>

definition check_then :: "(string + 'a) option \<Rightarrow> ('a \<Rightarrow> (string + 'b) option) \<Rightarrow> (string + 'b) option" where
  "check_then r f = (case r of None \<Rightarrow> None | Some (Inl m) \<Rightarrow> Some (Inl m) | Some (Inr x) \<Rightarrow> f x)"

lemma check_then_simps [simp]:
  "check_then None f = None" "check_then (Some (Inl m)) f = Some (Inl m)" "check_then (Some (Inr x)) f = f x"
  by (simp_all add: check_then_def)

section \<open>Validation\<close>

fun validate_child_pointers :: "arrow_schema option list \<Rightarrow> nat \<Rightarrow> nat \<Rightarrow> (string + unit) option" where
  "validate_child_pointers children i 0 = Some (Inr ())"
| "validate_child_pointers [] i (Suc n) = None"
| "validate_child_pointers (c # children) i (Suc n) =
     (case c of
        None \<Rightarrow> Some (einval (''Expected valid schema at schema->children['' @ nat_to_string i @ ''] but found NULL''))
      | Some Released \<Rightarrow> Some (einval (''Expected valid schema at schema->children['' @ nat_to_string i @
                          ''] but found a released schema''))
      | Some (Schema _ _ _ _ _ _ _) \<Rightarrow> validate_child_pointers children (Suc i) n)"

fun ArrowSchemaViewValidateNChildren :: "arrow_schema \<Rightarrow> int \<Rightarrow> (string + unit) option" where
  "ArrowSchemaViewValidateNChildren Released n_children = None"
| "ArrowSchemaViewValidateNChildren (Schema f n m fl k cs d) n_children =
     (if n_children \<noteq> - 1 \<and> k \<noteq> n_children
      then Some (einval (''Expected schema with '' @ int_to_string n_children @ '' children but found '' @
                   int_to_string k @ '' children''))
      else if k \<le> 0 then Some (Inr ())
      else (case cs of None \<Rightarrow> None | Some children \<Rightarrow> validate_child_pointers children 0 (nat k)))"

definition ArrowSchemaViewValidateUnion :: "arrow_schema \<Rightarrow> (string + unit) option" where
  "ArrowSchemaViewValidateUnion s = ArrowSchemaViewValidateNChildren s (- 1)"

text \<open>\<open>children[i]\<close> of a schema, through the pointers.\<close>

fun child_at :: "arrow_schema \<Rightarrow> nat \<Rightarrow> arrow_schema option" where
  "child_at Released i = None"
| "child_at (Schema f n m fl k cs d) i =
     do { children \<leftarrow> cs; if i < length children then children ! i else None }"

definition ArrowSchemaViewValidateMap :: "arrow_schema \<Rightarrow> (string + unit) option" where
  "ArrowSchemaViewValidateMap s =
     check_then (ArrowSchemaViewValidateNChildren s 1) (\<lambda>_. do {
       entries \<leftarrow> child_at s 0;
       (case entries of Released \<Rightarrow> None
        | Schema f n m fl k cs d \<Rightarrow>
            if k \<noteq> 2
            then Some (einval (''Expected child of map type to have 2 children but found '' @ int_to_string k))
            else do {
              format \<leftarrow> f;
              if format \<noteq> ''+s''
              then Some (einval (''Expected format of child of map type to be '' @ sq ''+s'' @ '' but found '' @ sq format))
              else if fl AND ARROW_FLAG_NULLABLE \<noteq> 0
              then Some (einval ''Expected child of map type to be non-nullable but was nullable'')
              else do {
                key \<leftarrow> child_at entries 0;
                (case key of Released \<Rightarrow> None
                 | Schema f n m key_flags k cs d \<Rightarrow>
                     if key_flags AND ARROW_FLAG_NULLABLE \<noteq> 0
                     then Some (einval ''Expected key of map type to be non-nullable but was nullable'')
                     else Some (Inr ()))
              }
            })
     })"

text \<open>The last argument is what ViewInit on the dictionary returns.\<close>

definition ArrowSchemaViewValidateDictionary ::
  "arrow_schema \<Rightarrow> schema_view \<Rightarrow> (string + schema_view) option \<Rightarrow> (string + unit) option" where
  "ArrowSchemaViewValidateDictionary s vw dictionary_init =
     (if vw_storage vw \<in> {NANOARROW_TYPE_UINT8, NANOARROW_TYPE_INT8, NANOARROW_TYPE_UINT16, NANOARROW_TYPE_INT16,
          NANOARROW_TYPE_UINT32, NANOARROW_TYPE_INT32, NANOARROW_TYPE_UINT64, NANOARROW_TYPE_INT64}
      then check_then dictionary_init (\<lambda>_. Some (Inr ()))
      else Some (einval (''Expected dictionary schema index type to be an integral type but found '' @
             sq (case sc_format s of None \<Rightarrow> [] | Some f \<Rightarrow> f))))"

text \<open>The number an ArrowType has, for the last message.\<close>

definition plain_types :: "arrow_type list" where
  "plain_types = [NANOARROW_TYPE_NA, NANOARROW_TYPE_BOOL, NANOARROW_TYPE_UINT8, NANOARROW_TYPE_INT8,
     NANOARROW_TYPE_UINT16, NANOARROW_TYPE_INT16, NANOARROW_TYPE_UINT32, NANOARROW_TYPE_INT32,
     NANOARROW_TYPE_UINT64, NANOARROW_TYPE_INT64, NANOARROW_TYPE_HALF_FLOAT, NANOARROW_TYPE_FLOAT,
     NANOARROW_TYPE_DOUBLE, NANOARROW_TYPE_DECIMAL32, NANOARROW_TYPE_DECIMAL64, NANOARROW_TYPE_DECIMAL128,
     NANOARROW_TYPE_DECIMAL256, NANOARROW_TYPE_STRING, NANOARROW_TYPE_LARGE_STRING, NANOARROW_TYPE_BINARY,
     NANOARROW_TYPE_LARGE_BINARY, NANOARROW_TYPE_DATE32, NANOARROW_TYPE_DATE64, NANOARROW_TYPE_INTERVAL_MONTHS,
     NANOARROW_TYPE_INTERVAL_DAY_TIME, NANOARROW_TYPE_INTERVAL_MONTH_DAY_NANO, NANOARROW_TYPE_TIMESTAMP,
     NANOARROW_TYPE_TIME32, NANOARROW_TYPE_TIME64, NANOARROW_TYPE_DURATION, NANOARROW_TYPE_BINARY_VIEW,
     NANOARROW_TYPE_STRING_VIEW]"

text \<open>
  UNINITIALIZED and EXTENSION have no case; the message then has the number of the type, 0 or 32.
\<close>

definition ArrowSchemaViewValidate ::
  "arrow_schema \<Rightarrow> schema_view \<Rightarrow> (string + schema_view) option \<Rightarrow> arrow_type \<Rightarrow> (string + unit) option" where
  "ArrowSchemaViewValidate s vw dictionary_init type =
     (if type \<in> set plain_types then ArrowSchemaViewValidateNChildren s 0
      else if type = NANOARROW_TYPE_FIXED_SIZE_BINARY then
        (if vw_fixed_size vw \<le> 0
         then Some (einval (''Expected size > 0 for fixed size binary but found size '' @ int_to_string (vw_fixed_size vw)))
         else ArrowSchemaViewValidateNChildren s 0)
      else if type \<in> {NANOARROW_TYPE_LIST, NANOARROW_TYPE_LIST_VIEW, NANOARROW_TYPE_LARGE_LIST,
                    NANOARROW_TYPE_LARGE_LIST_VIEW, NANOARROW_TYPE_FIXED_SIZE_LIST}
        then ArrowSchemaViewValidateNChildren s 1
      else if type = NANOARROW_TYPE_RUN_END_ENCODED then ArrowSchemaViewValidateNChildren s 2
      else if type = NANOARROW_TYPE_STRUCT then ArrowSchemaViewValidateNChildren s (- 1)
      else if type \<in> {NANOARROW_TYPE_SPARSE_UNION, NANOARROW_TYPE_DENSE_UNION} then ArrowSchemaViewValidateUnion s
      else if type = NANOARROW_TYPE_MAP then ArrowSchemaViewValidateMap s
      else if type = NANOARROW_TYPE_DICTIONARY then ArrowSchemaViewValidateDictionary s vw dictionary_init
      else Some (einval (''Expected a valid enum ArrowType value but found '' @
             nat_to_string (if vw_type vw = NANOARROW_TYPE_EXTENSION then 32 else 0))))"

section \<open>Views\<close>

text \<open>The view before is what the caller's struct holds; a null schema pointer is None.\<close>

fun ArrowSchemaViewInit :: "schema_view \<Rightarrow> arrow_schema option \<Rightarrow> (string + schema_view) option" where
  "ArrowSchemaViewInit vw None = Some (einval ''Expected non-NULL schema'')"
| "ArrowSchemaViewInit vw (Some Released) = Some (einval ''Expected non-released schema'')"
| "ArrowSchemaViewInit vw (Some (Schema f n m fl k cs d)) =
     (let s = Schema f n m fl k cs d;
          dictionary_init = (case d of None \<Rightarrow> None | Some dictionary \<Rightarrow> ArrowSchemaViewInit vw (Some dictionary))
      in case f of
        None \<Rightarrow> Some (einval (''Error parsing schema->format: Expected a null-terminated string but found NULL''))
      | Some format \<Rightarrow>
          if format = [] then Some (einval ''Error parsing schema->format: Expected a string with size > 0'')
          else (case ArrowSchemaViewParse k vw format of
            Inl child_error \<Rightarrow> Some (einval (''Error parsing schema->format: '' @ child_error))
          | Inr (vw, format_end) \<Rightarrow>
              if format_end \<noteq> []
              then Some (einval (''Error parsing schema->format '' @ sq format @ '': parsed '' @
                     nat_to_string (length format - length format_end) @ ''/'' @ nat_to_string (length format) @
                     '' characters''))
              else
                (let vw = (if d \<noteq> None then vw\<lparr>vw_type := NANOARROW_TYPE_DICTIONARY\<rparr> else vw) in
                 check_then (ArrowSchemaViewValidate s vw dictionary_init (vw_storage vw)) (\<lambda>_.
                 check_then (if vw_storage vw \<noteq> vw_type vw
                             then ArrowSchemaViewValidate s vw dictionary_init (vw_type vw)
                             else Some (Inr ())) (\<lambda>_.
                 if fl AND NOT (ARROW_FLAG_DICTIONARY_ORDERED OR ARROW_FLAG_NULLABLE OR ARROW_FLAG_MAP_KEYS_SORTED) \<noteq> 0
                 then Some (einval ''Unknown ArrowSchema flag'')
                 else if fl AND ARROW_FLAG_DICTIONARY_ORDERED \<noteq> 0 \<and> vw_type vw \<noteq> NANOARROW_TYPE_DICTIONARY
                 then Some (einval ''ARROW_FLAG_DICTIONARY_ORDERED is only relevant for dictionaries'')
                 else if fl AND ARROW_FLAG_MAP_KEYS_SORTED \<noteq> 0 \<and> vw_type vw \<noteq> NANOARROW_TYPE_MAP
                 then Some (einval ''ARROW_FLAG_MAP_KEYS_SORTED is only relevant for a map type'')
                 else
                   (let layout = ArrowLayoutInit (vw_storage vw);
                        layout = (if vw_storage vw = NANOARROW_TYPE_FIXED_SIZE_BINARY
                                  then set_size (vw_fixed_size vw * 8) layout
                                  else if vw_storage vw = NANOARROW_TYPE_FIXED_SIZE_LIST
                                  then layout\<lparr>ly_child := vw_fixed_size vw\<rparr> else layout)
                    in do {
                      (_, name) \<leftarrow> ArrowMetadataGetValue m (ArrowCharView (Some ''ARROW:extension:name'')) (Some null_view);
                      (_, metadata) \<leftarrow> ArrowMetadataGetValue m (ArrowCharView (Some ''ARROW:extension:metadata''))
                        (Some null_view);
                      name \<leftarrow> name;
                      metadata \<leftarrow> metadata;
                      Some (Inr (vw\<lparr>vw_layout := layout, vw_extension_name := name,
                        vw_extension_metadata := metadata\<rparr>))
                    }))))))"

declare ArrowSchemaViewInit.simps [simp del]

section \<open>Printing\<close>

definition ArrowSchemaTypeToStringInternal :: "schema_view \<Rightarrow> string option" where
  "ArrowSchemaTypeToStringInternal vw =
     do {
       type_string \<leftarrow> ArrowTypeString (vw_type vw);
       Some (type_string @
         (if vw_type vw \<in> {NANOARROW_TYPE_DECIMAL32, NANOARROW_TYPE_DECIMAL64, NANOARROW_TYPE_DECIMAL128,
               NANOARROW_TYPE_DECIMAL256}
          then ''('' @ int_to_string (vw_decimal_precision vw) @ '', '' @ int_to_string (vw_decimal_scale vw) @ '')''
          else if vw_type vw = NANOARROW_TYPE_TIMESTAMP
          then ''('' @ sq (ArrowTimeUnitString (vw_time_unit vw)) @ '', '' @ sq (vw_timezone vw) @ '')''
          else if vw_type vw \<in> {NANOARROW_TYPE_TIME32, NANOARROW_TYPE_TIME64, NANOARROW_TYPE_DURATION}
          then ''('' @ sq (ArrowTimeUnitString (vw_time_unit vw)) @ '')''
          else if vw_type vw \<in> {NANOARROW_TYPE_FIXED_SIZE_BINARY, NANOARROW_TYPE_FIXED_SIZE_LIST}
          then ''('' @ int_to_string (vw_fixed_size vw) @ '')''
          else if vw_type vw \<in> {NANOARROW_TYPE_SPARSE_UNION, NANOARROW_TYPE_DENSE_UNION}
          then ''(['' @ vw_union_type_ids vw @ ''])''
          else []))
     }"

text \<open>
  The output so far: the text in the buffer, the bytes that remain of it (the null character included) and the
  characters the whole text needs.  snprintf writes as much as fits and returns what it needs, and
  \<open>ArrowToStringLogChars\<close> does the accounts after it.
\<close>

type_synonym printer = "string \<times> int \<times> int"

definition snprintf :: "int \<Rightarrow> string \<Rightarrow> string \<times> int" where
  "snprintf n piece = (take (nat (n - 1)) piece, int (length piece))"

definition ArrowToStringLogChars :: "string \<times> int \<Rightarrow> printer \<Rightarrow> printer" where
  "ArrowToStringLogChars written p =
     (let (piece, n_chars_last) = written; (out, n_remaining, n_chars) = p;
          n_chars_last = (if n_chars_last < 0 then 0 else n_chars_last)
      in (out @ piece, (if n_remaining - n_chars_last < 0 then 0 else n_remaining - n_chars_last),
          n_chars + n_chars_last))"

definition put :: "string \<Rightarrow> printer \<Rightarrow> printer" where
  "put piece p = ArrowToStringLogChars (snprintf (fst (snd p)) piece) p"

text \<open>The bytes a view shows as \<open>%.*s\<close> prints them.\<close>

definition view_text :: "string_view \<Rightarrow> string" where
  "view_text v = map (\<lambda>b. char_of (unat b)) (takeWhile (\<lambda>b. b \<noteq> 0) (take (nat (sv_size v)) (view_memory v)))"

text \<open>The text put in the buffer of \<open>n\<close> bytes and the characters needed.\<close>

function ArrowSchemaToString :: "schema_view \<Rightarrow> arrow_schema option \<Rightarrow> int \<Rightarrow> bool \<Rightarrow> (string \<times> int) option"
  and children_to_string ::
    "schema_view \<Rightarrow> arrow_schema option list \<Rightarrow> nat \<Rightarrow> nat \<Rightarrow> printer \<Rightarrow> bool \<Rightarrow> printer option"
where
  "ArrowSchemaToString vw0 None n recursive = Some (snprintf n ''[invalid: pointer is null]'')"
| "ArrowSchemaToString vw0 (Some Released) n recursive = Some (snprintf n ''[invalid: schema is released]'')"
| "ArrowSchemaToString vw0 (Some (Schema f nm m fl k cs d)) n recursive =
     do {
       init \<leftarrow> ArrowSchemaViewInit vw0 (Some (Schema f nm m fl k cs d));
       (case init of
          Inl message \<Rightarrow> Some (snprintf n (''[invalid: '' @ message @ '']''))
        | Inr vw \<Rightarrow>
            do {
              let is_extension = sv_size (vw_extension_name vw) > 0;
              let is_dictionary = (d \<noteq> None);
              storage \<leftarrow> (if is_dictionary then ArrowTypeString (vw_storage vw) else Some []);
              let name = view_text (vw_extension_name vw);
              let p = put (if is_extension \<and> is_dictionary then name @ ''{dictionary('' @ storage @ '')<''
                           else if is_extension then name @ ''{''
                           else if is_dictionary then ''dictionary('' @ storage @ '')<''
                           else []) ([], n, 0);
              p \<leftarrow> (case d of
                 None \<Rightarrow> do { t \<leftarrow> ArrowSchemaTypeToStringInternal vw; Some (put t p) }
               | Some dictionary \<Rightarrow>
                   do {
                     w \<leftarrow> ArrowSchemaToString vw0 (Some dictionary) (fst (snd p)) recursive;
                     Some (ArrowToStringLogChars w p)
                   });
              p \<leftarrow> (if recursive \<and> char_at (case f of None \<Rightarrow> [] | Some x \<Rightarrow> x) 0 = CHR ''+''
                   then do {
                     let p = put ''<'' p;
                     p \<leftarrow> (case cs of None \<Rightarrow> if k > 0 then None else Some p
                        | Some children \<Rightarrow> children_to_string vw0 children 0 (nat k) p recursive);
                     Some (put ''>'' p)
                   }
                   else Some p);
              let (out, n_remaining, n_chars) = p;
              let (piece, n_chars_last) = snprintf n_remaining
                    (if is_extension \<and> is_dictionary then ''>}'' else if is_extension then ''}''
                     else if is_dictionary then ''>'' else []);
              Some (out @ piece, if n_chars + n_chars_last > 0 then n_chars + n_chars_last else 0)
            })
     }"
| "children_to_string vw0 children i 0 p recursive = Some p"
| "children_to_string vw0 [] i (Suc left) p recursive = None"
| "children_to_string vw0 (c # children) i (Suc left) p recursive =
     do {
       let p = (if i > 0 then put '', '' p else p);
       let p = (case c of Some (Schema f (Some name) m fl k cs d) \<Rightarrow> put (name @ '': '') p | _ \<Rightarrow> p);
       w \<leftarrow> ArrowSchemaToString vw0 c (fst (snd p)) recursive;
       children_to_string vw0 children (Suc i) left (ArrowToStringLogChars w p) recursive
     }"
  by pat_completeness auto
termination
  by (relation "measure (\<lambda>x. case x of Inl (v, s, n, r) \<Rightarrow> size_option size s
        | Inr (v, cs, i, n, p, r) \<Rightarrow> size_list (size_option size) cs)") auto

end
