(* ===== verification/Schema_Properties.thy ===== *)
theory Schema_Properties
  imports Arrow_Schema_View
begin

text \<open>
  What the functions on schemas do together: a type that was set is the type that is seen, a deep copy is the
  schema that was copied, and printing to a small buffer is printing to a large one, cut off.
\<close>

unbundle bit_operations_syntax

section \<open>Numbers in text\<close>

lemma isdigit_char_of: "k < 10 \<Longrightarrow> isdigit (char_of (48 + k))" for k :: nat
  by (simp add: isdigit_def of_char_of)

lemma digits_value_snoc: "digits_value (ds @ [c]) = 10 * digits_value ds + (of_char c - 48)"
  by (simp add: digits_value_def)

lemma nat_to_string_digits:
  "nat_to_string n \<noteq> [] \<and> (\<forall>c \<in> set (nat_to_string n). isdigit c) \<and> digits_value (nat_to_string n) = n"
proof (induction n rule: nat_to_string.induct)
  case (1 n)
  show ?case
  proof (cases "n < 10")
    case True
    then show ?thesis
      using isdigit_char_of [OF True] by (simp add: nat_to_string.simps [of n] digits_value_def)
  next
    case False
    have "isdigit (char_of (48 + n mod 10))" by (rule isdigit_char_of) simp
    moreover have "10 * (n div 10) + n mod 10 = n" by simp
    ultimately show ?thesis
      using 1 False by (simp add: nat_to_string.simps [of n] digits_value_snoc)
  qed
qed

lemma take_drop_digits:
  "(\<forall>c \<in> set ds. isdigit c) \<Longrightarrow> rest = [] \<or> \<not> isdigit (hd rest)
    \<Longrightarrow> takeWhile isdigit (ds @ rest) = ds \<and> dropWhile isdigit (ds @ rest) = rest"
  by (induction ds) (cases rest; simp)+

lemma isdigit_not_space: "isdigit c \<Longrightarrow> \<not> isspace c \<and> c \<noteq> CHR ''-'' \<and> c \<noteq> CHR ''+''"
  by (auto simp: isdigit_def isspace_def)

lemma strtol_nat:
  assumes "rest = [] \<or> \<not> isdigit (hd rest)"
  shows "strtol (nat_to_string n @ rest) = (clamp_long (int n), rest)"
proof -
  obtain c cs where s: "nat_to_string n = c # cs" "isdigit c"
    using nat_to_string_digits [of n] by (cases "nat_to_string n") auto
  have t: "dropWhile isspace (nat_to_string n @ rest) = nat_to_string n @ rest"
    using s isdigit_not_space by simp
  note td = take_drop_digits [of "nat_to_string n" rest]
  have h: "hd (nat_to_string n @ rest) \<noteq> CHR ''-''" "hd (nat_to_string n @ rest) \<noteq> CHR ''+''"
    using s isdigit_not_space by auto
  show ?thesis
    unfolding strtol_def t Let_def using td h nat_to_string_digits [of n] assms by simp
qed

lemma strtol_int:
  assumes "rest = [] \<or> \<not> isdigit (hd rest)"
  shows "strtol (int_to_string i @ rest) = (clamp_long i, rest)"
proof (cases "i < 0")
  case False
  then show ?thesis using strtol_nat [OF assms] by (simp add: int_to_string_def)
next
  case True
  note td = take_drop_digits [of "nat_to_string (nat (- i))" rest]
  have "\<not> isspace CHR ''-''" by (simp add: isspace_def)
  then show ?thesis
    unfolding strtol_def Let_def using td nat_to_string_digits [of "nat (- i)"] assms True
    by (simp add: int_to_string_def)
qed

lemma int_to_string_nonempty [simp]: "int_to_string i \<noteq> []"
  using nat_to_string_digits by (simp add: int_to_string_def)

text \<open>The range of an int32\_t.\<close>

definition is_int32 :: "int \<Rightarrow> bool" where
  "is_int32 i \<longleftrightarrow> - (2 ^ 31) \<le> i \<and> i < 2 ^ 31"

lemma to_int32_clamp: "is_int32 i \<Longrightarrow> to_int32 (clamp_long i) = i"
  by (simp add: is_int32_def to_int32_def clamp_long_def sint_small)

lemma strtol_int32:
  "is_int32 i \<Longrightarrow> rest = [] \<or> \<not> isdigit (hd rest)
    \<Longrightarrow> to_int32 (fst (strtol (int_to_string i @ rest))) = i \<and> snd (strtol (int_to_string i @ rest)) = rest"
  by (simp add: strtol_int to_int32_clamp)

section \<open>Type ids of unions\<close>

lemma union_type_ids_eq:
  "union_type_ids (Suc n) = nat_to_string 0 @ concat (map (\<lambda>i. '','' @ nat_to_string i) [1..<Suc n])"
proof (induction n)
  case 0
  have "char_of (48 :: nat) = CHR ''0''" by code_simp
  then show ?case by (simp add: nat_to_string.simps)
next
  case (Suc n)
  then show ?case by simp
qed

lemma count_ids:
  "i < n \<Longrightarrow> n \<le> 128 \<Longrightarrow>
    count_type_ids (nat_to_string i @ concat (map (\<lambda>i. '','' @ nat_to_string i) [Suc i..<n])) acc = acc + int (n - i)"
proof (induction "n - i" arbitrary: i acc)
  case (Suc m)
  let ?rest = "concat (map (\<lambda>i. '','' @ nat_to_string i) [Suc i..<n])"
  have "?rest = [] \<or> \<not> isdigit (hd ?rest)"
    by (cases "Suc i < n") (simp_all add: upt_conv_Cons isdigit_def)
  then have s: "strtol (nat_to_string i @ ?rest) = (int i, ?rest)"
    using Suc.prems by (simp add: strtol_nat clamp_long_def)
  have ne: "?rest \<noteq> nat_to_string i @ ?rest" using nat_to_string_digits [of i] by simp
  show ?case
  proof (cases "Suc i < n")
    case True
    then have "?rest = CHR '','' # nat_to_string (Suc i) @ concat (map (\<lambda>i. '','' @ nat_to_string i) [Suc (Suc i)..<n])"
      by (simp add: upt_conv_Cons)
    then show ?thesis
      using Suc(1) [of "Suc i" "acc + 1"] Suc(2) Suc.prems True s ne
      by (subst count_type_ids.simps) (simp add: of_nat_diff)
  next
    case False
    with Suc.prems s ne show ?thesis by (subst count_type_ids.simps) simp
  qed
qed simp

lemma parse_union_ids: "n \<le> 127 \<Longrightarrow> ArrowParseUnionTypeIds (union_type_ids n) = int n"
proof (cases n)
  case (Suc m)
  assume "n \<le> 127"
  have "union_type_ids n \<noteq> []" unfolding Suc union_type_ids_eq using nat_to_string_digits [of 0] by simp
  then show ?thesis
    using count_ids [of 0 n 0] Suc \<open>n \<le> 127\<close> by (simp add: ArrowParseUnionTypeIds_def union_type_ids_eq del: upt_Suc)
qed (simp add: ArrowParseUnionTypeIds_def)

section \<open>Children\<close>

lemma init_children_upto:
  "j \<le> n \<Longrightarrow> init_children (Schema f nm m fl k (Some (replicate n (Some Released))) d) j
    = Some (NANOARROW_OK, Schema f nm m fl k
        (Some (replicate j (Some ArrowSchemaInit) @ replicate (n - j) (Some Released))) d)"
proof (induction j)
  case (Suc j)
  then have "replicate (n - j) (Some Released) = Some Released # replicate (n - Suc j) (Some Released)"
    by (metis Suc_diff_Suc Suc_le_lessD replicate_Suc)
  with Suc show ?case
    by (simp add: init_schema_def nth_append list_update_append replicate_app_Cons_same)
qed simp

lemma init_children_all:
  "init_children (Schema f nm m fl k (Some (replicate n (Some Released))) d) n
    = Some (NANOARROW_OK, Schema f nm m fl k (Some (replicate n (Some ArrowSchemaInit))) d)"
  using init_children_upto [of n n] by simp

lemma validate_pointers:
  "n \<le> length cs \<Longrightarrow> \<forall>c \<in> set cs. \<exists>s. c = Some s \<and> s \<noteq> Released \<Longrightarrow> validate_child_pointers cs i n = Some (Inr ())"
proof (induction cs i n rule: validate_child_pointers.induct)
  case (3 c children i n)
  then obtain s where "c = Some s" "s \<noteq> Released" by auto
  with 3 show ?case by (cases s) auto
qed simp_all

section \<open>A type that is set is seen\<close>

datatype set_call =
    SetType arrow_type
  | SetTypeStruct int
  | SetTypeFixedSize arrow_type int
  | SetTypeDecimal arrow_type int int
  | SetTypeRunEndEncoded arrow_type
  | SetTypeDateTime arrow_type time_unit "string option"
  | SetTypeUnion arrow_type int

fun run_set :: "set_call \<Rightarrow> arrow_schema \<Rightarrow> arrow_schema nano" where
  "run_set (SetType t) s = ArrowSchemaSetType s t"
| "run_set (SetTypeStruct n) s = ArrowSchemaSetTypeStruct s n"
| "run_set (SetTypeFixedSize t n) s = ArrowSchemaSetTypeFixedSize s t n"
| "run_set (SetTypeDecimal t p sc) s = ArrowSchemaSetTypeDecimal s t p sc"
| "run_set (SetTypeRunEndEncoded t) s = ArrowSchemaSetTypeRunEndEncoded s t"
| "run_set (SetTypeDateTime t u tz) s = ArrowSchemaSetTypeDateTime s t u tz"
| "run_set (SetTypeUnion t n) s = ArrowSchemaSetTypeUnion s t n"

text \<open>The calls whose arguments a type has.\<close>

definition max_precision :: "arrow_type \<Rightarrow> int" where
  "max_precision t = (if t = NANOARROW_TYPE_DECIMAL32 then 9 else if t = NANOARROW_TYPE_DECIMAL64 then 18
     else if t = NANOARROW_TYPE_DECIMAL128 then 38 else if t = NANOARROW_TYPE_DECIMAL256 then 76 else 0)"

definition decimal_bits :: "arrow_type \<Rightarrow> int" where
  "decimal_bits t = (if t = NANOARROW_TYPE_DECIMAL32 then 32 else if t = NANOARROW_TYPE_DECIMAL64 then 64
     else if t = NANOARROW_TYPE_DECIMAL128 then 128 else 256)"

fun valid_call :: "set_call \<Rightarrow> bool" where
  "valid_call (SetType t) \<longleftrightarrow> ArrowSchemaFormatTemplate t \<noteq> None"
| "valid_call (SetTypeStruct n) \<longleftrightarrow> True"
| "valid_call (SetTypeFixedSize t n) \<longleftrightarrow>
     0 < n \<and> (t = NANOARROW_TYPE_FIXED_SIZE_BINARY \<or> t = NANOARROW_TYPE_FIXED_SIZE_LIST)"
| "valid_call (SetTypeDecimal t p sc) \<longleftrightarrow> 0 < p \<and> p \<le> max_precision t"
| "valid_call (SetTypeRunEndEncoded t) \<longleftrightarrow> t \<in> {NANOARROW_TYPE_INT16, NANOARROW_TYPE_INT32, NANOARROW_TYPE_INT64}"
| "valid_call (SetTypeDateTime t u tz) \<longleftrightarrow>
     (if t = NANOARROW_TYPE_TIMESTAMP then (case tz of None \<Rightarrow> True | Some z \<Rightarrow> length z < 124)
      else tz = None \<and>
        (t = NANOARROW_TYPE_TIME32 \<and> u \<in> {NANOARROW_TIME_UNIT_SECOND, NANOARROW_TIME_UNIT_MILLI}
         \<or> t = NANOARROW_TYPE_TIME64 \<and> u \<in> {NANOARROW_TIME_UNIT_MICRO, NANOARROW_TIME_UNIT_NANO}
         \<or> t = NANOARROW_TYPE_DURATION))"
| "valid_call (SetTypeUnion t n) \<longleftrightarrow>
     0 \<le> n \<and> n \<le> 127 \<and> (t = NANOARROW_TYPE_SPARSE_UNION \<or> t = NANOARROW_TYPE_DENSE_UNION)"

fun int_arguments :: "set_call \<Rightarrow> bool" where
  "int_arguments (SetTypeFixedSize t n) \<longleftrightarrow> is_int32 n"
| "int_arguments (SetTypeDecimal t p sc) \<longleftrightarrow> is_int32 p \<and> is_int32 sc"
| "int_arguments _ \<longleftrightarrow> True"

text \<open>What the view of a schema shows of the call that set its type.\<close>

fun shows_call :: "set_call \<Rightarrow> schema_view \<Rightarrow> bool" where
  "shows_call (SetType t) v \<longleftrightarrow> vw_type v = t"
| "shows_call (SetTypeStruct n) v \<longleftrightarrow> vw_type v = NANOARROW_TYPE_STRUCT"
| "shows_call (SetTypeFixedSize t n) v \<longleftrightarrow> vw_type v = t \<and> vw_fixed_size v = n"
| "shows_call (SetTypeDecimal t p sc) v \<longleftrightarrow> vw_type v = t \<and> vw_decimal_bitwidth v = decimal_bits t
     \<and> vw_decimal_precision v = p \<and> vw_decimal_scale v = sc"
| "shows_call (SetTypeRunEndEncoded t) v \<longleftrightarrow> vw_type v = NANOARROW_TYPE_RUN_END_ENCODED"
| "shows_call (SetTypeDateTime t u tz) v \<longleftrightarrow> vw_type v = t \<and> vw_time_unit v = u
     \<and> (t = NANOARROW_TYPE_TIMESTAMP \<longrightarrow> vw_timezone v = (case tz of None \<Rightarrow> [] | Some z \<Rightarrow> z))"
| "shows_call (SetTypeUnion t n) v \<longleftrightarrow> vw_type v = t \<and> ArrowParseUnionTypeIds (vw_union_type_ids v) = n"

text \<open>ViewInit on a schema without metadata and dictionary: it is enough that it parses and validates.\<close>

lemma get_value_null: "ArrowMetadataGetValue None key (Some null_view) = Some (NANOARROW_OK, Some null_view)"
  by (simp add: ArrowMetadataGetValue_def ArrowMetadataGetValueInternal_def ArrowMetadataReaderInit_def
      get_value_loop.simps [of "\<lparr>mr_metadata = None, mr_offset = 0, mr_remaining = 0\<rparr>"] ArrowMetadataReaderRead_def)

lemma shows_call_ext: "shows_call c (v\<lparr>vw_layout := l, vw_extension_name := n, vw_extension_metadata := m\<rparr>) = shows_call c v"
  by (cases c) simp_all

lemma view_init_built:
  assumes "s = Schema (Some format) nm None 2 k cs None" "format \<noteq> []"
    "ArrowSchemaViewParse k vw0 format = Inr (v, [])"
    "ArrowSchemaViewValidate s v None (vw_storage v) = Some (Inr ())"
    "ArrowSchemaViewValidate s v None (vw_type v) = Some (Inr ())" "shows_call c v"
  shows "\<exists>v'. ArrowSchemaViewInit vw0 (Some s) = Some (Inr v') \<and> shows_call c v'"
proof -
  have flags: "(2 AND NOT (1 OR 2 OR 4) :: 64 word) = 0" "(2 AND 1 :: 64 word) = 0" "(2 AND 4 :: 64 word) = 0"
    by simp_all
  show ?thesis
    using assms shows_call_ext
    by (simp add: ArrowSchemaViewInit.simps get_value_null flags Let_def)
qed

lemma set_printed_init:
  "length p < n \<Longrightarrow> set_printed n ArrowSchemaInit p = Some (NANOARROW_OK, Schema (Some p) None None 2 0 None None)"
  by (simp add: set_printed_def ArrowSchemaInit_def)

definition seen :: "set_call \<Rightarrow> schema_view \<Rightarrow> bool" where
  "seen c vw0 \<longleftrightarrow> (\<exists>s v. run_set c ArrowSchemaInit = Some (NANOARROW_OK, s)
     \<and> ArrowSchemaViewInit vw0 (Some s) = Some (Inr v) \<and> shows_call c v)"

text \<open>A check by evaluation.\<close>

fun view_ok :: "set_call \<Rightarrow> arrow_schema \<Rightarrow> string + schema_view \<times> string \<Rightarrow> bool" where
  "view_ok c s (Inl m) \<longleftrightarrow> False"
| "view_ok c s (Inr (v, rest)) \<longleftrightarrow> rest = [] \<and> shows_call c v
     \<and> ArrowSchemaViewValidate s v None (vw_storage v) = Some (Inr ())
     \<and> ArrowSchemaViewValidate s v None (vw_type v) = Some (Inr ())"

fun built_ok :: "set_call \<Rightarrow> schema_view \<Rightarrow> arrow_schema nano \<Rightarrow> bool" where
  "built_ok c vw0 (Some (e, Schema (Some format) nm m fl k cs d)) \<longleftrightarrow>
     e = NANOARROW_OK \<and> m = None \<and> fl = 2 \<and> d = None \<and> format \<noteq> []
     \<and> view_ok c (Schema (Some format) nm m fl k cs d) (ArrowSchemaViewParse k vw0 format)"
| "built_ok c vw0 _ \<longleftrightarrow> False"

lemma seen_eval:
  assumes "built_ok c vw0 (run_set c ArrowSchemaInit)"
  shows "seen c vw0"
proof -
  obtain e format nm m fl k cs d where r: "run_set c ArrowSchemaInit = Some (e, Schema (Some format) nm m fl k cs d)"
    using assms by (auto elim: built_ok.elims(2))
  with assms obtain v where "ArrowSchemaViewParse k vw0 format = Inr (v, [])" "shows_call c v"
      "ArrowSchemaViewValidate (Schema (Some format) nm None 2 k cs None) v None (vw_storage v) = Some (Inr ())"
      "ArrowSchemaViewValidate (Schema (Some format) nm None 2 k cs None) v None (vw_type v) = Some (Inr ())"
    by (cases "ArrowSchemaViewParse k vw0 format") auto
  with r assms show ?thesis unfolding seen_def using view_init_built [OF refl] by fastforce
qed

lemmas schema_eval = ArrowSchemaInitFromType.simps ArrowSchemaSetType.simps ArrowSchemaInitChildrenIfNeeded.simps
  ArrowSchemaInit_def init_schema_def set_printed_init

lemmas parse_eval = ArrowSchemaViewParse_def parse_nested_def parse_datetime_def parse_unit_def char_at_def
  ArrowSchemaViewSetPrimitive_def Let_def

lemmas validate_eval = ArrowSchemaViewValidate_def plain_types_def ArrowSchemaViewValidateUnion_def
  ArrowSchemaViewValidateMap_def

lemma two_children:
  "replicate 2 x = [x, x]" "validate_child_pointers cs i 2 = validate_child_pointers cs i (Suc (Suc 0))"
  by (simp_all add: numeral_2_eq_2)

lemma built_SetType:
  "ArrowSchemaFormatTemplate t \<noteq> None \<Longrightarrow> built_ok (SetType t) vw0 (run_set (SetType t) ArrowSchemaInit)"
  by (induct t) (simp_all add: schema_eval parse_eval validate_eval two_children)

lemma validate_inits:
  "k \<le> 0 \<Longrightarrow> ArrowSchemaViewValidateNChildren (Schema f nm m fl k cs d) (- 1) = Some (Inr ())"
  "0 < k \<Longrightarrow> ArrowSchemaViewValidateNChildren
     (Schema f nm m fl k (Some (replicate (nat k) (Some ArrowSchemaInit))) d) (- 1) = Some (Inr ())"
  using validate_pointers [of "nat k" "replicate (nat k) (Some ArrowSchemaInit)" 0] by (auto simp: ArrowSchemaInit_def)

text \<open>AllocateChildren and Init on each, as the struct and union setters do.\<close>

lemma allocate_inits:
  "nano_then (ArrowSchemaAllocateChildren (Schema f nm m fl 0 None d) k) (\<lambda>s. init_children s (nat k))
    = Some (NANOARROW_OK, Schema f nm m fl (int (nat k))
        (if nat k = 0 then None else Some (replicate (nat k) (Some ArrowSchemaInit))) d)"
  using init_children_all [of f nm m fl k "nat k" d] by (cases "k > 0") simp_all

lemma set_struct_format: "ArrowSchemaSetType ArrowSchemaInit NANOARROW_TYPE_STRUCT
    = Some (NANOARROW_OK, Schema (Some ''+s'') None None 2 0 None None)"
  by (simp add: schema_eval)

lemma built_struct: "built_ok (SetTypeStruct n) vw0 (run_set (SetTypeStruct n) ArrowSchemaInit)"
  by (simp add: ArrowSchemaSetTypeStruct_def set_struct_format allocate_inits parse_eval validate_eval validate_inits
      del: ArrowSchemaViewValidateNChildren.simps ArrowSchemaAllocateChildren.simps)

lemma length_nat_to_string: "n < 10 ^ Suc k \<Longrightarrow> length (nat_to_string n) \<le> Suc k"
proof (induction k arbitrary: n)
  case 0
  then show ?case by (simp add: nat_to_string.simps [of n])
next
  case (Suc k)
  then have "n div 10 < 10 ^ Suc k" by (simp add: div_less_iff_less_mult)
  with Suc.IH [of "n div 10"] show ?case by (simp add: nat_to_string.simps [of n])
qed

lemma length_int32: "is_int32 i \<Longrightarrow> length (int_to_string i) \<le> 11"
proof -
  assume "is_int32 i"
  then have "nat i < 10 ^ Suc 9" "nat (- i) < 10 ^ Suc 9" by (auto simp: is_int32_def nat_less_iff)
  from this [THEN length_nat_to_string] show ?thesis by (simp add: int_to_string_def)
qed

lemma drop_prefix [simp]: "char_at (c # s) 0 = c" "char_at (c # s) (Suc n) = char_at s n"
  by (auto simp: char_at_def)

lemma char_at_int: "char_at (int_to_string i) 0 \<noteq> CHR 0x00"
proof -
  obtain c cs where "nat_to_string (nat i) = c # cs" "isdigit c"
    using nat_to_string_digits [of "nat i"] by (cases "nat_to_string (nat i)") auto
  then show ?thesis by (auto simp: int_to_string_def isdigit_def)
qed

lemma built_fixed_size:
  assumes "0 < n" "is_int32 n" "t = NANOARROW_TYPE_FIXED_SIZE_BINARY \<or> t = NANOARROW_TYPE_FIXED_SIZE_LIST"
  shows "built_ok (SetTypeFixedSize t n) vw0 (run_set (SetTypeFixedSize t n) ArrowSchemaInit)"
proof -
  have len: "length (int_to_string n) < 50" using length_int32 [OF assms(2)] by simp
  have num: "strtol (int_to_string n) = (clamp_long n, [])" "to_int32 (clamp_long n) = n"
    using strtol_int [of "[]" n] to_int32_clamp [OF assms(2)] by simp_all
  have at: "char_at (c # d # int_to_string n) 2 \<noteq> CHR 0x00" "char_at (c # d # e # int_to_string n) 3 \<noteq> CHR 0x00" for c d e
    using char_at_int [of n] by (simp_all add: numeral_2_eq_2 numeral_3_eq_3)
  show ?thesis
    using assms(3)
  proof
    assume "t = NANOARROW_TYPE_FIXED_SIZE_BINARY"
    then show ?thesis
      using assms(1) len num at
      by (simp add: ArrowSchemaSetTypeFixedSize_def set_printed_init parse_eval validate_eval)
  next
    assume "t = NANOARROW_TYPE_FIXED_SIZE_LIST"
    then show ?thesis
      using assms(1) len num at
      by (simp add: ArrowSchemaSetTypeFixedSize_def set_printed_def schema_eval parse_eval validate_eval)
  qed
qed

lemma strtol_arg:
  assumes "is_int32 i" "rest = [] \<or> \<not> isdigit (hd rest)"
  shows "strtol (int_to_string i @ rest) = (clamp_long i, rest)" "to_int32 (clamp_long i) = i"
    "int_to_string i @ rest \<noteq> rest" "length (int_to_string i) \<le> 11"
    "char_at (int_to_string i @ rest) 0 \<noteq> CHR 0x00"
proof -
  obtain c cs where "int_to_string i = c # cs" by (cases "int_to_string i") auto
  then show "char_at (int_to_string i @ rest) 0 \<noteq> CHR 0x00" using char_at_int [of i] by simp
qed (use assms in \<open>simp_all add: strtol_int to_int32_clamp length_int32\<close>)

lemma parse_decimal_printed:
  assumes "is_int32 p" "is_int32 sc"
  shows "parse_decimal vw (''d:'' @ int_to_string p @ '','' @ int_to_string sc)
      = Inr (ArrowSchemaViewSetPrimitive (vw\<lparr>vw_decimal_precision := p, vw_decimal_scale := sc,
          vw_decimal_bitwidth := 128\<rparr>) NANOARROW_TYPE_DECIMAL128, [])"
    "bits = 32 \<and> t = NANOARROW_TYPE_DECIMAL32 \<or> bits = 64 \<and> t = NANOARROW_TYPE_DECIMAL64
      \<or> bits = 256 \<and> t = NANOARROW_TYPE_DECIMAL256
      \<Longrightarrow> parse_decimal vw (''d:'' @ int_to_string p @ '','' @ int_to_string sc @ '','' @ int_to_string bits)
        = Inr (ArrowSchemaViewSetPrimitive (vw\<lparr>vw_decimal_precision := p, vw_decimal_scale := sc,
            vw_decimal_bitwidth := bits\<rparr>) t, [])"
proof -
  note p = strtol_arg [OF assms(1), of "'','' @ int_to_string sc"]
    strtol_arg [OF assms(1), of "'','' @ int_to_string sc @ '','' @ int_to_string bits"]
  note sc = strtol_arg [OF assms(2), of "[]"] strtol_arg [OF assms(2), of "'','' @ int_to_string bits"]
  have at: "char_at (c # d # u) 2 = char_at u 0" for c d u by (simp add: numeral_2_eq_2)
  show "parse_decimal vw (''d:'' @ int_to_string p @ '','' @ int_to_string sc)
      = Inr (ArrowSchemaViewSetPrimitive (vw\<lparr>vw_decimal_precision := p, vw_decimal_scale := sc,
          vw_decimal_bitwidth := 128\<rparr>) NANOARROW_TYPE_DECIMAL128, [])"
    using p(1-5) sc(1-5) int_to_string_nonempty [of sc, symmetric]
    by (simp add: parse_decimal_def Let_def at isdigit_def char_at_def [of "[]"])
  assume b: "bits = 32 \<and> t = NANOARROW_TYPE_DECIMAL32 \<or> bits = 64 \<and> t = NANOARROW_TYPE_DECIMAL64
      \<or> bits = 256 \<and> t = NANOARROW_TYPE_DECIMAL256"
  then have "is_int32 bits" by (auto simp: is_int32_def)
  note bits = strtol_arg [OF this, of "[]"]
  show "parse_decimal vw (''d:'' @ int_to_string p @ '','' @ int_to_string sc @ '','' @ int_to_string bits)
        = Inr (ArrowSchemaViewSetPrimitive (vw\<lparr>vw_decimal_precision := p, vw_decimal_scale := sc,
            vw_decimal_bitwidth := bits\<rparr>) t, [])"
    using p(6-10) sc(6-10) bits b by (auto simp: parse_decimal_def Let_def at isdigit_def)
qed

lemma decimal_widths: "''32'' = int_to_string 32" "''64'' = int_to_string 64" "''256'' = int_to_string 256"
  by code_simp+

lemma built_decimal:
  assumes "0 < p" "p \<le> max_precision t" "is_int32 p" "is_int32 sc"
  shows "built_ok (SetTypeDecimal t p sc) vw0 (run_set (SetTypeDecimal t p sc) ArrowSchemaInit)"
proof -
  have len: "length (int_to_string p) \<le> 11" "length (int_to_string sc) \<le> 11" "length (int_to_string 32) \<le> 11"
      "length (int_to_string 64) \<le> 11" "length (int_to_string 256) \<le> 11"
    using assms(3,4) by (auto intro!: length_int32 simp: is_int32_def)
  have parse: "ArrowSchemaViewParse k vw (CHR ''d'' # u) = parse_decimal vw (CHR ''d'' # u)" for k vw u
    by (simp add: ArrowSchemaViewParse_def Let_def)
  have "t \<in> {NANOARROW_TYPE_DECIMAL32, NANOARROW_TYPE_DECIMAL64, NANOARROW_TYPE_DECIMAL128, NANOARROW_TYPE_DECIMAL256}"
    using assms(1,2) by (auto simp: max_precision_def split: if_splits)
  then show ?thesis
    using assms(1,2) len parse_decimal_printed [OF assms(3,4), simplified]
    by (auto simp: ArrowSchemaSetTypeDecimal_def set_printed_init parse max_precision_def decimal_bits_def
        decimal_widths validate_eval ArrowSchemaViewSetPrimitive_def Let_def)
qed

lemma built_run_end_encoded:
  "t \<in> {NANOARROW_TYPE_INT16, NANOARROW_TYPE_INT32, NANOARROW_TYPE_INT64}
    \<Longrightarrow> built_ok (SetTypeRunEndEncoded t) vw0 (run_set (SetTypeRunEndEncoded t) ArrowSchemaInit)"
  by (auto simp: ArrowSchemaSetTypeRunEndEncoded_def schema_eval parse_eval validate_eval two_children)

lemma built_datetime:
  assumes "valid_call (SetTypeDateTime t u tz)"
  shows "built_ok (SetTypeDateTime t u tz) vw0 (run_set (SetTypeDateTime t u tz) ArrowSchemaInit)"
proof -
  have unit: "length (ArrowTimeUnitFormatString u) = 1" by (cases u) simp_all
  show ?thesis
    using assms
    by (cases u; cases tz) (auto simp: ArrowSchemaSetTypeDateTime_def set_printed_init parse_eval validate_eval
        numeral_2_eq_2 numeral_3_eq_3 split: if_splits)
qed

lemma set_format_init: "ArrowSchemaSetFormat ArrowSchemaInit f = Some (NANOARROW_OK, Schema f None None 2 0 None None)"
  by (simp add: ArrowSchemaInit_def)

lemma built_union:
  assumes "0 \<le> n" "n \<le> 127" "t = NANOARROW_TYPE_SPARSE_UNION \<or> t = NANOARROW_TYPE_DENSE_UNION"
  shows "built_ok (SetTypeUnion t n) vw0 (run_set (SetTypeUnion t n) ArrowSchemaInit)"
proof -
  have ids: "ArrowParseUnionTypeIds (union_type_ids (nat n)) = n"
    using parse_union_ids [of "nat n"] assms(1,2) by simp
  then show ?thesis
    using assms
    by (auto simp: ArrowSchemaSetTypeUnion_def set_format_init allocate_inits parse_eval validate_eval validate_inits
        numeral_2_eq_2 numeral_3_eq_3 simp del: ArrowSchemaViewValidateNChildren.simps ArrowSchemaAllocateChildren.simps)
qed

lemma valid_call_seen:
  assumes "valid_call c" "int_arguments c"
  shows "seen c vw0"
proof (rule seen_eval)
  show "built_ok c vw0 (run_set c ArrowSchemaInit)"
  proof (cases c)
    case (SetType t)
    then show ?thesis using assms built_SetType by simp
  next
    case (SetTypeStruct n)
    then show ?thesis using built_struct by simp
  next
    case (SetTypeFixedSize t n)
    then show ?thesis using assms built_fixed_size by simp
  next
    case (SetTypeDecimal t p sc)
    then show ?thesis using assms built_decimal by simp
  next
    case (SetTypeRunEndEncoded t)
    then show ?thesis using assms built_run_end_encoded by simp
  next
    case (SetTypeDateTime t u tz)
    then show ?thesis using assms built_datetime by simp
  next
    case (SetTypeUnion t n)
    then show ?thesis using assms built_union by simp
  qed
qed

lemma invalid_call_refused:
  "\<not> valid_call c \<Longrightarrow> c \<noteq> SetType NANOARROW_TYPE_UNINITIALIZED
    \<Longrightarrow> \<exists>e. e \<noteq> NANOARROW_OK \<and> run_set c ArrowSchemaInit = Some (e, ArrowSchemaInit)"
proof (induct c)
  case (SetTypeDecimal t p sc)
  then show ?case by (auto simp: ArrowSchemaSetTypeDecimal_def max_precision_def Let_def split: if_splits)
next
  case (SetTypeDateTime t u tz)
  then show ?case
    by (cases u; cases tz) (auto simp: ArrowSchemaSetTypeDateTime_def set_printed_def Let_def split: if_splits)
next
  case (SetType t)
  then show ?case by (cases "ArrowSchemaFormatTemplate t") (simp_all add: ArrowSchemaSetType.simps)
qed (simp_all add: ArrowSchemaSetTypeFixedSize_def ArrowSchemaSetTypeRunEndEncoded_def ArrowSchemaSetTypeUnion_def)



end
