(* ===== verification/Schema_Copy.thy ===== *)
theory Schema_Copy
  imports Schema_Properties
begin

text \<open>
  Copies of schemas and their printed form: a deep copy is the schema that was copied, and printing to a buffer of
  any size is cutting off what a large buffer holds.
\<close>

section \<open>Deep copies\<close>

text \<open>
  Schemas a caller may have: metadata, when present, begins with an encoding of pairs, and the pointers to the first
  \<open>n_children\<close> children and to the dictionary lead to schemas not released.
\<close>

lemma child_smaller: "Some s \<in> set (take n l) \<Longrightarrow> size s < size_list (size_option size) l"
  by (induction l arbitrary: n) (auto simp: take_Cons' less_Suc_eq_le split: if_splits intro: less_imp_le trans_le_add2)

function readable :: "arrow_schema \<Rightarrow> bool" where
  "readable Released \<longleftrightarrow> False"
| "readable (Schema f n m fl k cs d) \<longleftrightarrow>
     (case m of None \<Rightarrow> True | Some bs \<Rightarrow> \<exists>es post. fits es \<and> bs = enc_pairs es @ post)
     \<and> (0 < k \<longrightarrow> (case cs of None \<Rightarrow> False
          | Some l \<Rightarrow> nat k \<le> length l \<and> (\<forall>c \<in> set (take (nat k) l). case c of None \<Rightarrow> False | Some s \<Rightarrow> readable s)))
     \<and> (case d of None \<Rightarrow> True | Some s \<Rightarrow> readable s)"
  by pat_completeness auto
termination
  by (relation "measure size") (auto dest: child_smaller)

text \<open>What a copy has of them: no more children than counted, and no bytes after the pairs.\<close>

function exact_copy :: "arrow_schema \<Rightarrow> arrow_schema" where
  "exact_copy Released = Released"
| "exact_copy (Schema f n m fl k cs d) =
     Schema f n
       (case m of None \<Rightarrow> None | Some bs \<Rightarrow> Some (take (nat (case ArrowMetadataSizeOf m of None \<Rightarrow> 0 | Some i \<Rightarrow> i)) bs))
       fl (max 0 k)
       (if k \<le> 0 then None else (case cs of None \<Rightarrow> None | Some l \<Rightarrow> Some (map (map_option exact_copy) (take (nat k) l))))
       (map_option exact_copy d)"
  by pat_completeness auto
termination
  by (relation "measure size") (auto dest: child_smaller)

lemma copy_metadata:
  assumes "case m of None \<Rightarrow> True | Some bs \<Rightarrow> \<exists>es post. fits es \<and> bs = enc_pairs es @ post"
  shows "ArrowSchemaSetMetadata (Schema f n m0 fl k cs d) m = Some (NANOARROW_OK, Schema f n
    (case m of None \<Rightarrow> None | Some bs \<Rightarrow> Some (take (nat (case ArrowMetadataSizeOf m of None \<Rightarrow> 0 | Some i \<Rightarrow> i)) bs)) fl k cs d)"
  using assms by (cases m) (auto simp: metadata_size load_def)

text \<open>The copies put in place of the children that were allocated.\<close>

lemma set_child:
  "i < length l \<Longrightarrow> l ! i \<noteq> None
    \<Longrightarrow> on_child (Schema f n m fl k (Some l) d) i (\<lambda>_. Some (e, c)) = Some (e, Schema f n m fl k (Some (l[i := Some c])) d)"
  by auto

lemma deep_copy_induct:
  "readable s \<Longrightarrow> ArrowSchemaDeepCopy s = Some (NANOARROW_OK, exact_copy s)"
  "left \<le> length children \<Longrightarrow> \<forall>c \<in> set (take left children). case c of None \<Rightarrow> False | Some s \<Rightarrow> readable s
    \<Longrightarrow> i + left = length l \<Longrightarrow> None \<notin> set l \<Longrightarrow> out = Schema f n m fl k (Some l) d
    \<Longrightarrow> copy_children children i left out
      = Some (NANOARROW_OK, Schema f n m fl k (Some (take i l @ map (map_option exact_copy) (take left children))) d)"
proof (induction s and children i left out arbitrary: and f n m fl k l d rule: ArrowSchemaDeepCopy_copy_children.induct)
  case (2 f n m fl k cs d)
  from 2(3) have m: "case m of None \<Rightarrow> True | Some bs \<Rightarrow> \<exists>es post. fits es \<and> bs = enc_pairs es @ post" by simp
  have kids: "copy_children l 0 (nat k) (Schema f' n' m' fl' k' (Some (replicate (nat k) (Some Released))) d')
      = Some (NANOARROW_OK, Schema f' n' m' fl' k' (Some (map (map_option exact_copy) (take (nat k) l))) d')"
    if "cs = Some l" "0 < k" for l f' n' m' fl' k' d'
    using 2(3) that 2(1) [OF that(1) _ _ _ _ refl, of "replicate (nat k) (Some Released)"] by simp
  show ?case
    using 2(3) 2(2) copy_metadata [OF m] kids
    by (cases d; cases cs; cases "0 < k") (simp_all add: ArrowSchemaInit_def del: ArrowSchemaSetMetadata.simps)
next
  case (6 c children i left out)
  have i: "i < length l" using 6(5) by simp
  have "l ! i \<noteq> None" using nth_mem [OF i] 6(6) by metis
  with i have "out = Schema f n m fl k (Some l) d" "i < length l" "l ! i \<noteq> None"
    using 6(7) by simp_all
  moreover have "take (Suc i) (l[i := x]) = take i l @ [x]" for x
    using \<open>i < length l\<close> by (simp add: take_Suc_conv_app_nth)
  moreover have "None \<notin> set (l[i := Some (exact_copy c)])"
    using 6(6) set_update_subset_insert [of l i "Some (exact_copy c)"] by auto
  ultimately show ?case
    using 6(1) 6(2) [OF _ refl, where l = "l[i := Some (exact_copy c)]"] 6(3-6)
    by (simp add: set_child del: on_child.simps)
qed simp_all

lemma exact_copy_readable: "readable s \<Longrightarrow> readable (exact_copy s) \<and> exact_copy (exact_copy s) = exact_copy s"
proof (induction s rule: exact_copy.induct)
  case (2 f n m fl k cs d)
  have m: "\<exists>es. fits es \<and> (case m of None \<Rightarrow> None
        | Some bs \<Rightarrow> Some (take (nat (case ArrowMetadataSizeOf m of None \<Rightarrow> 0 | Some i \<Rightarrow> i)) bs)) = Some (enc_pairs es)"
    if present: "m \<noteq> None"
  proof -
    obtain es post where es: "fits es" "m = Some (enc_pairs es @ post)"
      using 2(3) present by (cases m) auto
    then show ?thesis by (intro exI [of _ es]) (simp add: metadata_size)
  qed
  have kids: "case map_option exact_copy c of None \<Rightarrow> False | Some s \<Rightarrow> readable s"
      "map_option exact_copy (map_option exact_copy c) = map_option exact_copy c"
    if "0 < k" "cs = Some l" "c \<in> set (take (nat k) l)" for l c
    using 2(3) that 2(1) [of l c] by (auto split: option.splits)
  show ?case
  proof (cases "m = None")
    case True
    then show ?thesis using 2(2,3) kids by (cases d; cases cs; cases "0 < k") auto
  next
    case False
    with m obtain es where "fits es" "(case m of None \<Rightarrow> None
        | Some bs \<Rightarrow> Some (take (nat (case ArrowMetadataSizeOf m of None \<Rightarrow> 0 | Some i \<Rightarrow> i)) bs)) = Some (enc_pairs es)"
      by blast
    then show ?thesis
      using 2(2,3) kids metadata_size [of es "[]"] by (cases d; cases cs; cases "0 < k") auto
  qed
qed simp

text \<open>
  C25: A deep copy of a schema that can be read succeeds and is the schema, child by child and with its dictionary,
  names, formats, flags and metadata, less the children beyond those counted and the bytes after the metadata; a copy
  of the copy is the same again.
\<close>

theorem schema_deep_copy:
  assumes "readable s"
  shows "ArrowSchemaDeepCopy s = Some (NANOARROW_OK, exact_copy s)
    \<and> ArrowSchemaDeepCopy (exact_copy s) = Some (NANOARROW_OK, exact_copy s)"
  using deep_copy_induct(1) [OF assms] deep_copy_induct(1) [of "exact_copy s"] exact_copy_readable [OF assms] by simp

lemma two_pairs: "[1, 0, 0, 0, 1, 0, 0, 0, 107, 1, 0, 0, 0, 118, 9] = enc_pairs [([107], [118])] @ [9]"
  by code_simp

theorem schema_deep_copy_witness:
  "ArrowSchemaDeepCopy (Schema (Some ''+s'') None (Some [1, 0, 0, 0, 1, 0, 0, 0, 107, 1, 0, 0, 0, 118, 9]) 0 1
       (Some [Some (Schema (Some ''i'') (Some ''x'') None 2 0 None (Some (Schema (Some ''u'') None None 2 0 None None))),
         None]) None)
    = Some (NANOARROW_OK, Schema (Some ''+s'') None (Some [1, 0, 0, 0, 1, 0, 0, 0, 107, 1, 0, 0, 0, 118]) 0 1
       (Some [Some (Schema (Some ''i'') (Some ''x'') None 2 0 None (Some (Schema (Some ''u'') None None 2 0 None None)))])
       None)"
proof -
  let ?s = "Schema (Some ''+s'') None (Some (enc_pairs [([107], [118])] @ [9])) 0 1
       (Some [Some (Schema (Some ''i'') (Some ''x'') None 2 0 None (Some (Schema (Some ''u'') None None 2 0 None None))),
         None]) None"
  have f: "fits [([107], [118])]" by (simp add: fits_def)
  then have "\<exists>es post. fits es \<and> enc_pairs [([107], [118])] @ [9] = enc_pairs es @ post" by blast
  then have "readable ?s" by simp
  moreover have "enc_pairs [([107], [118])] = [1, 0, 0, 0, 1, 0, 0, 0, 107, 1, 0, 0, 0, 118]" by code_simp
  ultimately show ?thesis
    unfolding two_pairs using schema_deep_copy [of ?s] metadata_size [OF f, of "[9]"] by simp
qed

section \<open>Printing\<close>

text \<open>The text of a schema, with no buffer in sight.\<close>

function schema_text :: "schema_view \<Rightarrow> arrow_schema option \<Rightarrow> bool \<Rightarrow> string option"
  and children_text :: "schema_view \<Rightarrow> arrow_schema option list \<Rightarrow> nat \<Rightarrow> nat \<Rightarrow> bool \<Rightarrow> string option"
where
  "schema_text vw0 None recursive = Some ''[invalid: pointer is null]''"
| "schema_text vw0 (Some Released) recursive = Some ''[invalid: schema is released]''"
| "schema_text vw0 (Some (Schema f nm m fl k cs d)) recursive =
     (case ArrowSchemaViewInit vw0 (Some (Schema f nm m fl k cs d)) of
        None \<Rightarrow> None
      | Some (Inl message) \<Rightarrow> Some (''[invalid: '' @ message @ '']'')
      | Some (Inr vw) \<Rightarrow>
          do {
            storage \<leftarrow> (if d \<noteq> None then ArrowTypeString (vw_storage vw) else Some []);
            type \<leftarrow> (case d of None \<Rightarrow> ArrowSchemaTypeToStringInternal vw
                     | Some dictionary \<Rightarrow> schema_text vw0 (Some dictionary) recursive);
            children \<leftarrow> (if recursive \<and> char_at (case f of None \<Rightarrow> [] | Some x \<Rightarrow> x) 0 = CHR ''+''
              then (case cs of None \<Rightarrow> if k > 0 then None else Some ''<>''
                    | Some l \<Rightarrow> do { t \<leftarrow> children_text vw0 l 0 (nat k) recursive; Some (''<'' @ t @ ''>'') })
              else Some []);
            let extended = (if d \<noteq> None then ''dictionary('' @ storage @ '')<'' @ type @ children @ ''>''
                            else type @ children);
            Some (if sv_size (vw_extension_name vw) > 0 then view_text (vw_extension_name vw) @ ''{'' @ extended @ ''}''
                  else extended)
          })"
| "children_text vw0 children i 0 recursive = Some []"
| "children_text vw0 [] i (Suc left) recursive = None"
| "children_text vw0 (c # children) i (Suc left) recursive =
     do {
       t \<leftarrow> schema_text vw0 c recursive;
       rest \<leftarrow> children_text vw0 children (Suc i) left recursive;
       Some ((if i > 0 then '', '' else []) @
             (case c of Some (Schema f (Some name) m fl k cs d) \<Rightarrow> name @ '': '' | _ \<Rightarrow> []) @ t @ rest)
     }"
  by pat_completeness auto
termination
  by (relation "measure (\<lambda>x. case x of Inl (v, s, r) \<Rightarrow> size_option size s
        | Inr (v, cs, i, n, r) \<Rightarrow> size_list (size_option size) cs)") auto

text \<open>Where the printer is after a text, in a buffer of \<open>n\<close> bytes.\<close>

definition printed :: "int \<Rightarrow> string \<Rightarrow> printer" where
  "printed n t = (take (nat (n - 1)) t, max 0 (n - int (length t)), int (length t))"

lemma log_printed: "0 \<le> n \<Longrightarrow> ArrowToStringLogChars (snprintf (fst (snd (printed n t))) u) (printed n t) = printed n (t @ u)"
  by (auto simp: printed_def snprintf_def ArrowToStringLogChars_def take_append nat_diff_distrib' max_def Let_def)

lemma put_printed: "0 \<le> n \<Longrightarrow> put u (printed n t) = printed n (t @ u)"
  by (simp add: put_def log_printed)

lemma printed_start: "0 \<le> n \<Longrightarrow> ([], n, 0) = printed n []"
  by (simp add: printed_def)

lemma printed_remaining: "0 \<le> fst (snd (printed n t))"
  by (simp add: printed_def)

lemma last_piece:
  "0 \<le> n \<Longrightarrow> (case printed n t of (out, remaining, c) \<Rightarrow>
      case snprintf remaining u of (piece, m) \<Rightarrow> Some (out @ piece, if c + m > 0 then c + m else 0))
    = Some (snprintf n (t @ u))"
  by (auto simp: printed_def snprintf_def take_append nat_diff_distrib' max_def)

lemma to_string_text:
  "0 \<le> n \<Longrightarrow> ArrowSchemaToString vw0 s n r = map_option (snprintf n) (schema_text vw0 s r)"
  "0 \<le> size_out \<Longrightarrow> p = printed size_out t
    \<Longrightarrow> children_to_string vw0 children i left p r
      = map_option (\<lambda>u. printed size_out (t @ u)) (children_text vw0 children i left r)"
proof (induction vw0 s r and vw0 children i left r arbitrary: n and size_out t p
    rule: schema_text_children_text.induct)
  case (3 vw0 f nm m fl k cs d r)
  show ?case
  proof (cases "ArrowSchemaViewInit vw0 (Some (Schema f nm m fl k cs d))")
    case (Some init)
    show ?thesis
    proof (cases init)
      case (Inr vw)
      note init = Some [unfolded Inr]
      let ?storage = "if d \<noteq> None then ArrowTypeString (vw_storage vw) else Some []"
      let ?type = "case d of None \<Rightarrow> ArrowSchemaTypeToStringInternal vw | Some dictionary \<Rightarrow> schema_text vw0 (Some dictionary) r"
      let ?nested = "r \<and> char_at (case f of None \<Rightarrow> [] | Some x \<Rightarrow> x) 0 = CHR ''+''"
      let ?kids = "if ?nested then (case cs of None \<Rightarrow> if k > 0 then None else Some ''<>''
                    | Some l \<Rightarrow> do { t \<leftarrow> children_text vw0 l 0 (nat k) r; Some (''<'' @ t @ ''>'') }) else Some []"
      show ?thesis
      proof (cases ?storage)
        case (Some storage)
        have type: "(case d of None \<Rightarrow> do { t \<leftarrow> ArrowSchemaTypeToStringInternal vw; Some (printed n (u @ t)) }
             | Some dictionary \<Rightarrow> do { w \<leftarrow> ArrowSchemaToString vw0 (Some dictionary) (fst (snd (printed n u))) r;
                 Some (ArrowToStringLogChars w (printed n u)) }) = map_option (\<lambda>t. printed n (u @ t)) ?type" for u
          using 3(1) [OF init refl Some] 3(3)
          by (cases d; cases ?type) (simp_all add: put_printed log_printed printed_remaining)
        have kids: "(if ?nested then do {
                 p \<leftarrow> (case cs of None \<Rightarrow> if k > 0 then None else Some (printed n (u @ ''<''))
                    | Some children \<Rightarrow> children_to_string vw0 children 0 (nat k) (printed n (u @ ''<'')) r);
                 Some (put ''>'' p)
               }
               else Some (printed n u)) = map_option (\<lambda>t. printed n (u @ t)) ?kids" if "?type = Some y" for u y
        proof (cases ?nested)
          case True
          with 3(2) [OF init refl Some that] 3(3) show ?thesis
            by (cases cs; cases "children_text vw0 (the cs) 0 (nat k) r") (simp_all add: put_printed)
        next
          case False
          then show ?thesis by (simp only: if_False) simp
        qed
        let ?extended = "sv_size (vw_extension_name vw) > 0"
        let ?name = "view_text (vw_extension_name vw)"
        let ?opening = "if ?extended \<and> d \<noteq> None then ?name @ ''{dictionary('' @ storage @ '')<''
                           else if ?extended then ?name @ ''{''
                           else if d \<noteq> None then ''dictionary('' @ storage @ '')<''
                           else []"
        have "ArrowSchemaToString vw0 (Some (Schema f nm m fl k cs d)) n r =
          do {
            t \<leftarrow> ?type;
            u \<leftarrow> ?kids;
            Some (snprintf n (?opening @ t @ u @ (if ?extended \<and> d \<noteq> None then ''>}'' else if ?extended then ''}''
                     else if d \<noteq> None then ''>'' else [])))
          }"
        proof (cases ?type)
          case None
          then show ?thesis
            by (simp only: ArrowSchemaToString.simps init Some Let_def Option.bind.simps sum.case option.map
                put_printed [OF 3(3)] printed_start [OF 3(3)] append_Nil type)
        next
          case type_text: (Some t)
          show ?thesis
          proof (cases ?kids)
            case None
            then show ?thesis
              by (simp only: ArrowSchemaToString.simps init Some Let_def Option.bind.simps sum.case option.map
                  put_printed [OF 3(3)] printed_start [OF 3(3)] append_Nil type type_text kids [OF type_text])
          next
            case (Some u)
            then show ?thesis
              by (simp only: ArrowSchemaToString.simps init \<open>?storage = Some storage\<close> Let_def Option.bind.simps sum.case
                  option.map put_printed [OF 3(3)] printed_start [OF 3(3)] append_Nil type type_text kids [OF type_text]
                  last_piece [OF 3(3)]) (simp only: append_assoc)
          qed
        qed
        then show ?thesis using init Some by (cases ?type; cases ?kids) (simp_all add: Let_def)
      qed (simp add: init)
    qed (simp add: Some)
  qed simp
next
  case (6 vw0 c children i left r)
  let ?sep = "if i > 0 then '', '' else []"
  let ?label = "case c of Some (Schema f (Some name) m fl k cs d) \<Rightarrow> name @ '': '' | _ \<Rightarrow> []"
  have sep: "(if i > 0 then put '', '' p else p) = printed size_out (t @ ?sep)"
    using 6(3,4) by (simp add: put_printed)
  have label: "(case c of Some (Schema f (Some name) m fl k cs d) \<Rightarrow> put (name @ '': '') (printed size_out u)
      | _ \<Rightarrow> printed size_out u) = printed size_out (u @ ?label)" for u
    using 6(3) by (auto simp: put_printed split: option.split arrow_schema.split)
  show ?case
    using 6(3)
    by (cases "schema_text vw0 c r"; cases "children_text vw0 children (Suc i) left r")
      (simp_all only: children_to_string.simps Let_def sep label 6(1) printed_remaining option.map Option.bind.simps
        log_printed 6(2) [OF _ 6(3) refl], simp_all)
qed simp_all

text \<open>
  C24: Printing a schema, its extension, dictionary and children included, to a buffer of \<open>n\<close> bytes is one snprintf of
  its whole text: the buffer has the first \<open>n - 1\<close> characters of it, no matter where the pieces it is printed in were cut,
  and the number returned is the length of the whole, so that a second call with one byte more has all of it.
\<close>

theorem schema_printed_cut:
  assumes "0 \<le> n"
  shows "ArrowSchemaToString vw0 s n recursive
    = map_option (\<lambda>full. (take (nat (n - 1)) full, int (length full))) (schema_text vw0 s recursive)"
  using to_string_text(1) [OF assms] by (simp add: snprintf_def [abs_def])

theorem schema_printed_cut_witness:
  "\<forall>vw0. ArrowSchemaToString vw0 (Some (Schema (Some ''+l'') None None 2 1
      (Some [Some (Schema (Some ''i'') (Some ''item'') None 2 0 None None)]) None)) 10 True = Some (''list<item'', 17)"
proof
  fix vw0
  have flags: "(2 AND NOT (1 OR 2 OR 4) :: 64 word) = 0" "(2 AND 1 :: 64 word) = 0" "(2 AND 4 :: 64 word) = 0"
    by simp_all
  have "schema_text vw0 (Some (Schema (Some ''+l'') None None 2 1
      (Some [Some (Schema (Some ''i'') (Some ''item'') None 2 0 None None)]) None)) True = Some ''list<item: int32>''"
    by (simp add: ArrowSchemaViewInit.simps get_value_null [unfolded null_view_def] flags Let_def parse_eval validate_eval
        ArrowSchemaTypeToStringInternal_def null_view_def)
  then show "ArrowSchemaToString vw0 (Some (Schema (Some ''+l'') None None 2 1
      (Some [Some (Schema (Some ''i'') (Some ''item'') None 2 0 None None)]) None)) 10 True = Some (''list<item'', 17)"
    using schema_printed_cut [of 10 vw0 _ True] by (simp del: ArrowSchemaToString.simps schema_text.simps)
qed

end
