(* ===== verification/Adbc_Schemas.thy ===== *)
theory Adbc_Schemas
  imports Schema_Properties
begin

text \<open>
  The schemas of the results of GetInfo and GetObjects (adbc\_utils.cpp), built with the functions of
  nanoarrow, and that they are the schemas adbc.h documents.
\<close>

unbundle bit_operations_syntax

section \<open>Building\<close>

text \<open>
  A call on the schema at a path of children.  CHECK\_NA returns ADBC\_STATUS\_INTERNAL at the first call that
  fails; the message it sets is not modelled.
\<close>

fun at_path :: "nat list \<Rightarrow> (arrow_schema \<Rightarrow> arrow_schema nano) \<Rightarrow> arrow_schema \<Rightarrow> arrow_schema nano" where
  "at_path [] op s = op s"
| "at_path (i # path) op s = on_child s i (at_path path op)"

type_synonym schema_call = "nat list \<times> (arrow_schema \<Rightarrow> arrow_schema nano)"

fun run_calls :: "schema_call list \<Rightarrow> arrow_schema \<Rightarrow> arrow_schema nano" where
  "run_calls [] s = Some (NANOARROW_OK, s)"
| "run_calls ((path, op) # calls) s = nano_then (at_path path op s) (run_calls calls)"

definition set_type :: "arrow_type \<Rightarrow> arrow_schema \<Rightarrow> arrow_schema nano" where
  "set_type t s = ArrowSchemaSetType s t"

definition set_name :: "string \<Rightarrow> arrow_schema \<Rightarrow> arrow_schema nano" where
  "set_name n s = ArrowSchemaSetName s (Some n)"

definition set_struct :: "int \<Rightarrow> arrow_schema \<Rightarrow> arrow_schema nano" where
  "set_struct n s = ArrowSchemaSetTypeStruct s n"

definition set_union :: "arrow_type \<Rightarrow> int \<Rightarrow> arrow_schema \<Rightarrow> arrow_schema nano" where
  "set_union t n s = ArrowSchemaSetTypeUnion s t n"

definition internal_status :: "arrow_schema nano \<Rightarrow> (status \<times> arrow_schema) option" where
  "internal_status r = (case r of None \<Rightarrow> None
     | Some (e, s) \<Rightarrow> Some (if e = NANOARROW_OK then ADBC_STATUS_OK else ADBC_STATUS_INTERNAL, s))"

text \<open>The array that is made from the schema afterwards is not modelled.\<close>

definition info_schema_calls :: "schema_call list" where
  "info_schema_calls =
    [([], set_struct 2),
     ([0], set_type NANOARROW_TYPE_UINT32),
     ([0], set_name ''info_name''),
     ([0], not_nullable),
     ([1], set_union NANOARROW_TYPE_DENSE_UNION 6),
     ([1], set_name ''info_value''),
     ([1, 0], set_type NANOARROW_TYPE_STRING),
     ([1, 0], set_name ''string_value''),
     ([1, 1], set_type NANOARROW_TYPE_BOOL),
     ([1, 1], set_name ''bool_value''),
     ([1, 2], set_type NANOARROW_TYPE_INT64),
     ([1, 2], set_name ''int64_value''),
     ([1, 3], set_type NANOARROW_TYPE_INT32),
     ([1, 3], set_name ''int32_bitmask''),
     ([1, 4], set_type NANOARROW_TYPE_LIST),
     ([1, 4], set_name ''string_list''),
     ([1, 5], set_type NANOARROW_TYPE_MAP),
     ([1, 5], set_name ''int32_to_int32_list_map''),
     ([1, 4, 0], set_type NANOARROW_TYPE_STRING),
     ([1, 5, 0, 0], set_type NANOARROW_TYPE_INT32),
     ([1, 5, 0, 0], not_nullable),
     ([1, 5, 0, 1], set_type NANOARROW_TYPE_LIST),
     ([1, 5, 0, 1, 0], set_type NANOARROW_TYPE_INT32)]"

definition InternalAdbcInitConnectionGetInfoSchema :: "(status \<times> arrow_schema) option" where
  "InternalAdbcInitConnectionGetInfoSchema = internal_status (run_calls info_schema_calls ArrowSchemaInit)"

definition column_schema_calls :: "schema_call list" where
  "column_schema_calls =
    [([0], set_type NANOARROW_TYPE_STRING),
     ([0], set_name ''column_name''),
     ([0], not_nullable),
     ([1], set_type NANOARROW_TYPE_INT32),
     ([1], set_name ''ordinal_position''),
     ([2], set_type NANOARROW_TYPE_STRING),
     ([2], set_name ''remarks''),
     ([3], set_type NANOARROW_TYPE_INT16),
     ([3], set_name ''xdbc_data_type''),
     ([4], set_type NANOARROW_TYPE_STRING),
     ([4], set_name ''xdbc_type_name''),
     ([5], set_type NANOARROW_TYPE_INT32),
     ([5], set_name ''xdbc_column_size''),
     ([6], set_type NANOARROW_TYPE_INT16),
     ([6], set_name ''xdbc_decimal_digits''),
     ([7], set_type NANOARROW_TYPE_INT16),
     ([7], set_name ''xdbc_num_prec_radix''),
     ([8], set_type NANOARROW_TYPE_INT16),
     ([8], set_name ''xdbc_nullable''),
     ([9], set_type NANOARROW_TYPE_STRING),
     ([9], set_name ''xdbc_column_def''),
     ([10], set_type NANOARROW_TYPE_INT16),
     ([10], set_name ''xdbc_sql_data_type''),
     ([11], set_type NANOARROW_TYPE_INT16),
     ([11], set_name ''xdbc_datetime_sub''),
     ([12], set_type NANOARROW_TYPE_INT32),
     ([12], set_name ''xdbc_char_octet_length''),
     ([13], set_type NANOARROW_TYPE_STRING),
     ([13], set_name ''xdbc_is_nullable''),
     ([14], set_type NANOARROW_TYPE_STRING),
     ([14], set_name ''xdbc_scope_catalog''),
     ([15], set_type NANOARROW_TYPE_STRING),
     ([15], set_name ''xdbc_scope_schema''),
     ([16], set_type NANOARROW_TYPE_STRING),
     ([16], set_name ''xdbc_scope_table''),
     ([17], set_type NANOARROW_TYPE_BOOL),
     ([17], set_name ''xdbc_is_autoincrement''),
     ([18], set_type NANOARROW_TYPE_BOOL),
     ([18], set_name ''xdbc_is_generatedcolumn'')]"

definition usage_schema_calls :: "schema_call list" where
  "usage_schema_calls =
    [([0], set_type NANOARROW_TYPE_STRING),
     ([0], set_name ''fk_catalog''),
     ([1], set_type NANOARROW_TYPE_STRING),
     ([1], set_name ''fk_db_schema''),
     ([2], set_type NANOARROW_TYPE_STRING),
     ([2], set_name ''fk_table''),
     ([2], not_nullable),
     ([3], set_type NANOARROW_TYPE_STRING),
     ([3], set_name ''fk_column_name''),
     ([3], not_nullable)]"

definition constraint_schema_calls :: "schema_call list" where
  "constraint_schema_calls =
    [([0], set_type NANOARROW_TYPE_STRING),
     ([0], set_name ''constraint_name''),
     ([1], set_type NANOARROW_TYPE_STRING),
     ([1], set_name ''constraint_type''),
     ([1], not_nullable),
     ([2], set_type NANOARROW_TYPE_LIST),
     ([2], set_name ''constraint_column_names''),
     ([2, 0], set_type NANOARROW_TYPE_STRING),
     ([2], not_nullable),
     ([3], set_type NANOARROW_TYPE_LIST),
     ([3], set_name ''constraint_column_usage''),
     ([3, 0], set_struct 4)]"

text \<open>Calls through a pointer to the schema at a path.\<close>

definition through :: "nat list \<Rightarrow> schema_call list \<Rightarrow> schema_call list" where
  "through path calls = map (\<lambda>(p, op). (path @ p, op)) calls"

definition table_schema_calls :: "schema_call list" where
  "table_schema_calls =
    [([0], set_type NANOARROW_TYPE_STRING),
     ([0], set_name ''table_name''),
     ([0], not_nullable),
     ([1], set_type NANOARROW_TYPE_STRING),
     ([1], set_name ''table_type''),
     ([1], not_nullable),
     ([2], set_type NANOARROW_TYPE_LIST),
     ([2], set_name ''table_columns''),
     ([2, 0], set_struct 19),
     ([3], set_type NANOARROW_TYPE_LIST),
     ([3], set_name ''table_constraints''),
     ([3, 0], set_struct 4)]"

definition objects_schema_calls :: "schema_call list" where
  "objects_schema_calls =
    (let db_schema_schema = [1, 0]; table_schema = db_schema_schema @ [1, 0];
         column_schema = table_schema @ [2, 0]; constraint_schema = table_schema @ [3, 0];
         usage_schema = constraint_schema @ [3, 0]
     in [([], set_struct 2),
         ([0], set_type NANOARROW_TYPE_STRING),
         ([0], set_name ''catalog_name''),
         ([1], set_type NANOARROW_TYPE_LIST),
         ([1], set_name ''catalog_db_schemas''),
         ([1, 0], set_struct 2)] @
        through db_schema_schema
          [([0], set_type NANOARROW_TYPE_STRING),
           ([0], set_name ''db_schema_name''),
           ([1], set_type NANOARROW_TYPE_LIST),
           ([1], set_name ''db_schema_tables''),
           ([1, 0], set_struct 4)] @
        through table_schema table_schema_calls @
        through column_schema column_schema_calls @
        through constraint_schema constraint_schema_calls @
        through usage_schema usage_schema_calls)"

definition InternalAdbcInitConnectionObjectsSchema :: "(status \<times> arrow_schema) option" where
  "InternalAdbcInitConnectionObjectsSchema = internal_status (run_calls objects_schema_calls ArrowSchemaInit)"

section \<open>What adbc.h documents\<close>

text \<open>A field has a name and is nullable unless documented not null.\<close>

datatype field = DocField string field_type bool
and field_type =
    Plain arrow_type
  | ListOf field_type
  | StructOf "field list"
  | DenseUnionOf "field list"
  | MapOf field_type field_type

abbreviation "utf8 \<equiv> Plain NANOARROW_TYPE_STRING"
abbreviation "boolean \<equiv> Plain NANOARROW_TYPE_BOOL"
abbreviation "int16 \<equiv> Plain NANOARROW_TYPE_INT16"
abbreviation "int32 \<equiv> Plain NANOARROW_TYPE_INT32"
abbreviation "int64 \<equiv> Plain NANOARROW_TYPE_INT64"
abbreviation "uint32 \<equiv> Plain NANOARROW_TYPE_UINT32"
abbreviation nullable :: "string \<Rightarrow> field_type \<Rightarrow> field" where "nullable n t \<equiv> DocField n t True"
abbreviation not_null :: "string \<Rightarrow> field_type \<Rightarrow> field" where "not_null n t \<equiv> DocField n t False"

definition documented_info :: field_type where
  "documented_info = StructOf
    [not_null ''info_name'' uint32,
     nullable ''info_value'' (DenseUnionOf
       [nullable ''string_value'' utf8,
        nullable ''bool_value'' boolean,
        nullable ''int64_value'' int64,
        nullable ''int32_bitmask'' int32,
        nullable ''string_list'' (ListOf utf8),
        nullable ''int32_to_int32_list_map'' (MapOf int32 (ListOf int32))])]"

definition USAGE_SCHEMA :: field_type where
  "USAGE_SCHEMA = StructOf
    [nullable ''fk_catalog'' utf8,
     nullable ''fk_db_schema'' utf8,
     not_null ''fk_table'' utf8,
     not_null ''fk_column_name'' utf8]"

definition CONSTRAINT_SCHEMA :: field_type where
  "CONSTRAINT_SCHEMA = StructOf
    [nullable ''constraint_name'' utf8,
     not_null ''constraint_type'' utf8,
     not_null ''constraint_column_names'' (ListOf utf8),
     nullable ''constraint_column_usage'' (ListOf USAGE_SCHEMA)]"

definition COLUMN_SCHEMA :: field_type where
  "COLUMN_SCHEMA = StructOf
    [not_null ''column_name'' utf8,
     nullable ''ordinal_position'' int32,
     nullable ''remarks'' utf8,
     nullable ''xdbc_data_type'' int16,
     nullable ''xdbc_type_name'' utf8,
     nullable ''xdbc_column_size'' int32,
     nullable ''xdbc_decimal_digits'' int16,
     nullable ''xdbc_num_prec_radix'' int16,
     nullable ''xdbc_nullable'' int16,
     nullable ''xdbc_column_def'' utf8,
     nullable ''xdbc_sql_data_type'' int16,
     nullable ''xdbc_datetime_sub'' int16,
     nullable ''xdbc_char_octet_length'' int32,
     nullable ''xdbc_is_nullable'' utf8,
     nullable ''xdbc_scope_catalog'' utf8,
     nullable ''xdbc_scope_schema'' utf8,
     nullable ''xdbc_scope_table'' utf8,
     nullable ''xdbc_is_autoincrement'' boolean,
     nullable ''xdbc_is_generatedcolumn'' boolean]"

definition TABLE_SCHEMA :: field_type where
  "TABLE_SCHEMA = StructOf
    [not_null ''table_name'' utf8,
     not_null ''table_type'' utf8,
     nullable ''table_columns'' (ListOf COLUMN_SCHEMA),
     nullable ''table_constraints'' (ListOf CONSTRAINT_SCHEMA)]"

definition DB_SCHEMA_SCHEMA :: field_type where
  "DB_SCHEMA_SCHEMA = StructOf
    [nullable ''db_schema_name'' utf8,
     nullable ''db_schema_tables'' (ListOf TABLE_SCHEMA)]"

definition documented_objects :: field_type where
  "documented_objects = StructOf
    [nullable ''catalog_name'' utf8,
     nullable ''catalog_db_schemas'' (ListOf DB_SCHEMA_SCHEMA)]"

text \<open>
  The C data interface's schema of a field: the item of a list is called item, the entries of a map are not null
  structs of a not null key and a value.
\<close>

definition flag_of :: "bool \<Rightarrow> 64 word" where
  "flag_of null = (if null then ARROW_FLAG_NULLABLE else 0)"

primrec type_schema :: "string option \<Rightarrow> bool \<Rightarrow> field_type \<Rightarrow> arrow_schema"
  and field_schema :: "field \<Rightarrow> arrow_schema"
where
  "type_schema name null (Plain t) = Schema (ArrowSchemaFormatTemplate t) name None (flag_of null) 0 None None"
| "type_schema name null (ListOf t) =
     Schema (Some ''+l'') name None (flag_of null) 1 (Some [Some (type_schema (Some ''item'') True t)]) None"
| "type_schema name null (StructOf fs) =
     Schema (Some ''+s'') name None (flag_of null) (int (length fs)) (Some (map (\<lambda>f. Some (field_schema f)) fs)) None"
| "type_schema name null (DenseUnionOf fs) =
     Schema (Some (''+ud:'' @ union_type_ids (length fs))) name None (flag_of null) (int (length fs))
       (Some (map (\<lambda>f. Some (field_schema f)) fs)) None"
| "type_schema name null (MapOf k v) =
     Schema (Some ''+m'') name None (flag_of null) 1
       (Some [Some (Schema (Some ''+s'') (Some ''entries'') None 0 2
          (Some [Some (type_schema (Some ''key'') False k), Some (type_schema (Some ''value'') True v)]) None)]) None"
| "field_schema (DocField n t null) = type_schema (Some n) null t"

section \<open>The schemas are as documented\<close>

lemma on_child_then:
  "nano_then (on_child s i f) (\<lambda>s. on_child s i g) = on_child s i (\<lambda>c. nano_then (f c) g)"
  by (cases s)
    (auto simp: nano_then_def split: Option.bind_split option.splits prod.splits if_splits)

lemma at_path_then: "nano_then (at_path p f s) (at_path p g) = at_path p (\<lambda>c. nano_then (f c) g) s"
  by (induction p f s rule: at_path.induct) (simp_all add: on_child_then)

lemma at_path_append: "at_path (p @ q) op = at_path p (at_path q op)"
  by (induction p) (rule ext, simp)+

lemma run_no_calls: "nano_then r (run_calls []) = r"
  by (auto simp: nano_then_def split: option.splits)

lemma run_calls_append: "run_calls (xs @ ys) s = nano_then (run_calls xs s) (run_calls ys)"
  by (induction xs s rule: run_calls.induct) (auto simp: nano_then_def split: option.splits)

lemma run_through: "calls \<noteq> [] \<Longrightarrow> run_calls (through p calls) s = at_path p (run_calls calls) s"
proof (induction calls arbitrary: s)
  case (Cons c calls)
  obtain q op where c: "c = (q, op)" by (cases c)
  show ?case
  proof (cases "calls = []")
    case True
    then show ?thesis
      by (simp add: c through_def at_path_append run_no_calls)
  next
    case False
    with Cons have "run_calls (through p calls) = at_path p (run_calls calls)" by (simp add: fun_eq_iff)
    then have "run_calls (through p (c # calls)) s
        = nano_then (at_path p (at_path q op) s) (at_path p (run_calls calls))"
      by (simp add: c through_def at_path_append)
    then show ?thesis by (simp add: c at_path_then)
  qed
qed simp

text \<open>A struct before its children are given types.\<close>

definition blank :: "string option \<Rightarrow> nat \<Rightarrow> arrow_schema" where
  "blank name n = Schema (Some ''+s'') name None 2 (int n) (Some (replicate n (Some ArrowSchemaInit))) None"

lemma set_struct_blank:
  "0 < n \<Longrightarrow> set_struct n (Schema f name None 2 0 None None) = Some (NANOARROW_OK, blank name (nat n))"
  by (simp add: set_struct_def ArrowSchemaSetTypeStruct_def ArrowSchemaSetType.simps ArrowSchemaInitChildrenIfNeeded.simps
      allocate_inits blank_def del: ArrowSchemaAllocateChildren.simps)

lemmas call_eval = ArrowSchemaSetType.simps ArrowSchemaInitChildrenIfNeeded.simps ArrowSchemaInit_def init_schema_def
  set_type_def set_name_def ArrowSchemaInitFromType.simps set_struct_blank
  flag_of_def

lemma column_calls:
  "run_calls column_schema_calls (blank (Some ''item'') 19) = Some (NANOARROW_OK, type_schema (Some ''item'') True COLUMN_SCHEMA)"
  by (simp add: column_schema_calls_def COLUMN_SCHEMA_def call_eval blank_def numeral_eq_Suc)

lemma usage_calls:
  "run_calls usage_schema_calls (blank (Some ''item'') 4) = Some (NANOARROW_OK, type_schema (Some ''item'') True USAGE_SCHEMA)"
  by (simp add: usage_schema_calls_def USAGE_SCHEMA_def call_eval blank_def numeral_eq_Suc)

lemma calls_nonempty: "usage_schema_calls \<noteq> []" "column_schema_calls \<noteq> []" "table_schema_calls \<noteq> []"
    "constraint_schema_calls \<noteq> []"
  by (simp_all add: usage_schema_calls_def column_schema_calls_def table_schema_calls_def constraint_schema_calls_def)

lemmas through_calls = run_through [OF calls_nonempty(1)] run_through [OF calls_nonempty(2)]
  run_through [OF calls_nonempty(3)] run_through [OF calls_nonempty(4)]

lemma blanks:
  "replicate 2 x = [x, x]" "replicate 4 x = [x, x, x, x]" for x :: "arrow_schema option"
  by (simp_all add: numeral_eq_Suc)

lemma list_update_numeral: "(x # xs)[numeral k := y] = x # xs[pred_numeral k := y]"
  by (simp add: numeral_eq_Suc)

lemma constraint_calls:
  "nano_then (run_calls constraint_schema_calls (blank (Some ''item'') 4)) (run_calls (through [3, 0] usage_schema_calls))
    = Some (NANOARROW_OK, type_schema (Some ''item'') True CONSTRAINT_SCHEMA)"
  unfolding constraint_schema_calls_def CONSTRAINT_SCHEMA_def blank_def blanks
  by (simp add: call_eval through_calls usage_calls list_update_numeral)

definition constraints_and_usage :: "arrow_schema \<Rightarrow> arrow_schema nano" where
  "constraints_and_usage s = nano_then (run_calls constraint_schema_calls s) (run_calls (through [3, 0] usage_schema_calls))"

lemma constraints_blank: "constraints_and_usage (blank (Some ''item'') 4)
    = Some (NANOARROW_OK, type_schema (Some ''item'') True CONSTRAINT_SCHEMA)"
  by (simp add: constraints_and_usage_def constraint_calls)

definition all_of_table :: "arrow_schema \<Rightarrow> arrow_schema nano" where
  "all_of_table s = nano_then (nano_then (run_calls table_schema_calls s) (at_path [2, 0] (run_calls column_schema_calls)))
     (at_path [3, 0] constraints_and_usage)"

lemma table_blank: "all_of_table (blank (Some ''item'') 4) = Some (NANOARROW_OK, type_schema (Some ''item'') True TABLE_SCHEMA)"
  unfolding all_of_table_def table_schema_calls_def TABLE_SCHEMA_def blank_def blanks
  by (simp add: call_eval column_calls constraints_blank list_update_numeral)

lemma through_through: "through p (through q calls) = through (p @ q) calls"
  by (simp add: through_def case_prod_unfold comp_def)

lemma nano_then_assoc: "nano_then r (\<lambda>s. nano_then (f s) g) = nano_then (nano_then r f) g"
  by (auto simp: nano_then_def split: option.splits)

lemma run_all_of_table:
  "run_calls (through p table_schema_calls @ through (p @ [2, 0]) column_schema_calls @
     through (p @ [3, 0]) constraint_schema_calls @ through (p @ [3, 0, 3, 0]) usage_schema_calls) s
    = at_path p all_of_table s"
proof -
  have usage: "run_calls (through [3, 0] usage_schema_calls) = at_path [3, 0] (run_calls usage_schema_calls)"
    by (rule ext) (rule through_calls)
  have "at_path p all_of_table s = nano_then (nano_then (at_path p (run_calls table_schema_calls) s)
      (at_path p (at_path [2, 0] (run_calls column_schema_calls)))) (at_path p (at_path [3, 0] constraints_and_usage))"
    by (simp add: all_of_table_def [abs_def] at_path_then)
  also have "at_path p (at_path [3, 0] constraints_and_usage)
      = (\<lambda>s. nano_then (at_path (p @ [3, 0]) (run_calls constraint_schema_calls) s)
          (at_path (p @ [3, 0]) (run_calls (through [3, 0] usage_schema_calls))))"
    by (simp only: constraints_and_usage_def [abs_def] at_path_then at_path_append [symmetric])
  finally have table: "at_path p all_of_table s = nano_then (nano_then (nano_then (at_path p (run_calls table_schema_calls) s)
      (at_path (p @ [2, 0]) (run_calls column_schema_calls))) (at_path (p @ [3, 0]) (run_calls constraint_schema_calls)))
      (at_path (p @ [3, 0, 3, 0]) (run_calls usage_schema_calls))"
    by (simp only: nano_then_assoc at_path_append [symmetric] usage append.assoc append.simps)
  show ?thesis
    unfolding table by (simp only: run_calls_append [abs_def] through_calls [abs_def] nano_then_assoc)
qed

definition objects_front :: "schema_call list" where
  "objects_front =
    [([], set_struct 2),
     ([0], set_type NANOARROW_TYPE_STRING),
     ([0], set_name ''catalog_name''),
     ([1], set_type NANOARROW_TYPE_LIST),
     ([1], set_name ''catalog_db_schemas''),
     ([1, 0], set_struct 2)] @
    through [1, 0]
      [([0], set_type NANOARROW_TYPE_STRING),
       ([0], set_name ''db_schema_name''),
       ([1], set_type NANOARROW_TYPE_LIST),
       ([1], set_name ''db_schema_tables''),
       ([1, 0], set_struct 4)]"

lemma blank2: "blank name 2 = Schema (Some ''+s'') name None 2 2 (Some [Some ArrowSchemaInit, Some ArrowSchemaInit]) None"
  by (simp add: blank_def blanks)

lemma objects_front:
  "run_calls objects_front ArrowSchemaInit = Some (NANOARROW_OK, Schema (Some ''+s'') None None 2 2
     (Some [Some (Schema (Some ''u'') (Some ''catalog_name'') None 2 0 None None),
       Some (Schema (Some ''+l'') (Some ''catalog_db_schemas'') None 2 1
         (Some [Some (Schema (Some ''+s'') (Some ''item'') None 2 2
           (Some [Some (Schema (Some ''u'') (Some ''db_schema_name'') None 2 0 None None),
             Some (Schema (Some ''+l'') (Some ''db_schema_tables'') None 2 1
               (Some [Some (blank (Some ''item'') 4)]) None)]) None)]) None)]) None)"
  by (simp add: objects_front_def through_def call_eval blank2)

lemma set_union_blank:
  "set_union NANOARROW_TYPE_DENSE_UNION 6 (Schema f name None 2 0 None None)
    = Some (NANOARROW_OK, Schema (Some (''+ud:'' @ union_type_ids 6)) name None 2 6
        (Some [Some ArrowSchemaInit, Some ArrowSchemaInit, Some ArrowSchemaInit, Some ArrowSchemaInit,
          Some ArrowSchemaInit, Some ArrowSchemaInit]) None)"
proof -
  have "replicate 6 x = [x, x, x, x, x, x]" for x :: "arrow_schema option" by (simp add: numeral_eq_Suc)
  then show ?thesis
    using allocate_inits [where k = 6]
    by (simp add: set_union_def ArrowSchemaSetTypeUnion_def del: ArrowSchemaAllocateChildren.simps)
qed

lemma info_calls: "run_calls info_schema_calls ArrowSchemaInit = Some (NANOARROW_OK, type_schema None True documented_info)"
proof -
  have start: "set_struct 2 ArrowSchemaInit = Some (NANOARROW_OK, blank None 2)"
    using set_struct_blank [of 2 None None] by (simp add: ArrowSchemaInit_def)
  have two: "replicate 2 x = [x, x]" for x :: "arrow_schema option" by (simp add: numeral_eq_Suc)
  have ids: "union_type_ids 6 = union_type_ids (Suc (Suc (Suc (Suc (Suc (Suc 0))))))"
    by (simp only: numeral_eq_Suc pred_numeral_simps BitM.simps arith_simps)
  show ?thesis
    unfolding info_schema_calls_def documented_info_def
    by (simp add: start ids blank2 set_union_blank call_eval list_update_numeral two)
qed

text \<open>
  C23: The schema built for the result of GetObjects is the one adbc.h documents, five levels deep, names, types and
  nullability; the one built for GetInfo is too; and building them does not fail.
\<close>

theorem schemas_as_documented:
  "InternalAdbcInitConnectionObjectsSchema = Some (ADBC_STATUS_OK, type_schema None True documented_objects)
   \<and> InternalAdbcInitConnectionGetInfoSchema = Some (ADBC_STATUS_OK, type_schema None True documented_info)"
proof
  have split: "objects_schema_calls = objects_front @ through [1, 0, 1, 0] table_schema_calls @
      through ([1, 0, 1, 0] @ [2, 0]) column_schema_calls @ through ([1, 0, 1, 0] @ [3, 0]) constraint_schema_calls @
      through ([1, 0, 1, 0] @ [3, 0, 3, 0]) usage_schema_calls"
    by (simp add: objects_schema_calls_def objects_front_def Let_def)
  have "run_calls objects_schema_calls ArrowSchemaInit = Some (NANOARROW_OK, type_schema None True documented_objects)"
    unfolding split run_calls_append [of objects_front] objects_front run_all_of_table nano_then_simps
    by (simp add: table_blank documented_objects_def DB_SCHEMA_SCHEMA_def flag_of_def)
  then show "InternalAdbcInitConnectionObjectsSchema = Some (ADBC_STATUS_OK, type_schema None True documented_objects)"
    by (simp add: InternalAdbcInitConnectionObjectsSchema_def internal_status_def)
  show "InternalAdbcInitConnectionGetInfoSchema = Some (ADBC_STATUS_OK, type_schema None True documented_info)"
    by (simp add: InternalAdbcInitConnectionGetInfoSchema_def internal_status_def info_calls)
qed

end
