(* ===== verification/Error_Details.thy ===== *)
theory Error_Details
  imports Arrow_Buffer "HOL-Library.Multiset"
begin

text \<open>
  The errors of drivers (adbc\_utils.cpp): setting one, adding details to it, asking for them and
  releasing it, with every block of memory it owns; and the string builder.  A result is None where
  the behaviour is undefined: a block is freed twice, or memory is read or written outside a block.
\<close>

section \<open>Status codes\<close>

definition InternalAdbcStatusCodeToErrno :: "status \<Rightarrow> errno" where
  "InternalAdbcStatusCodeToErrno code =
     (if code = ADBC_STATUS_OK then NANOARROW_OK
      else if code = ADBC_STATUS_UNKNOWN then EIO
      else if code = ADBC_STATUS_NOT_IMPLEMENTED then ENOTSUP
      else if code = ADBC_STATUS_NOT_FOUND then ENOENT
      else if code = ADBC_STATUS_ALREADY_EXISTS then EEXIST
      else if code = ADBC_STATUS_INVALID_ARGUMENT \<or> code = ADBC_STATUS_INVALID_STATE then EINVAL
      else if code = ADBC_STATUS_INVALID_DATA \<or> code = ADBC_STATUS_INTEGRITY \<or> code = ADBC_STATUS_INTERNAL
        \<or> code = ADBC_STATUS_IO then EIO
      else if code = ADBC_STATUS_CANCELLED then ECANCELED
      else if code = ADBC_STATUS_TIMEOUT then ETIMEDOUT
      else if code = ADBC_STATUS_UNAUTHENTICATED \<or> code = ADBC_STATUS_UNAUTHORIZED then EACCES
      else EIO)"

section \<open>The heap\<close>

text \<open>
  Blocks are numbered as they are asked for; \<open>hp_fails\<close> are those malloc and calloc do not give.  The blocks
  given and not freed are live.
\<close>

record heap =
  hp_next :: nat
  hp_live :: "nat set"
  hp_fails :: "nat set"

definition malloc :: "heap \<Rightarrow> nat option \<times> heap" where
  "malloc h =
     (let p = hp_next h in
      if p \<in> hp_fails h then (None, h\<lparr>hp_next := p + 1\<rparr>)
      else (Some p, h\<lparr>hp_next := p + 1, hp_live := insert p (hp_live h)\<rparr>))"

fun free :: "nat option \<Rightarrow> heap \<Rightarrow> heap option" where
  "free None h = Some h"
| "free (Some p) h = (if p \<in> hp_live h then Some (h\<lparr>hp_live := hp_live h - {p}\<rparr>) else None)"

fun free_all :: "nat option list \<Rightarrow> heap \<Rightarrow> heap option" where
  "free_all [] h = Some h"
| "free_all (p # ps) h = do { h \<leftarrow> free p h; free_all ps h }"

section \<open>Errors\<close>

text \<open>
  A block is its number with what is in it.  The arrays of keys and values hold pointers, None when null, to
  blocks of their own.
\<close>

record error_details =
  dt_self :: nat
  dt_message :: "nat \<times> string"
  dt_keys :: "(nat \<times> (nat \<times> string) option list) option"
  dt_values :: "(nat \<times> (nat \<times> byte list) option list) option"
  dt_lengths :: "(nat \<times> nat list) option"
  dt_count :: nat
  dt_capacity :: nat

datatype private_data = No_Data | Dangling | Details error_details

datatype releaser = No_Release | ReleaseError | ReleaseErrorWithDetails | Other_Release nat

record util_error =
  ue_message :: "(nat \<times> string) option"
  ue_vendor_code :: int
  ue_release :: releaser
  ue_data :: private_data
  ue_driver :: "nat option"

definition PRIVATE_DATA_CODE :: int where
  "PRIVATE_DATA_CODE = - (2 ^ 31)"

definition ADBC_ERROR_INIT :: util_error where
  "ADBC_ERROR_INIT = \<lparr>ue_message = None, ue_vendor_code = PRIVATE_DATA_CODE, ue_release = No_Release,
     ue_data = No_Data, ue_driver = None\<rparr>"

text \<open>An element of an array: None for a null array and past its end.\<close>

definition array_at :: "(nat \<times> 'a list) option \<Rightarrow> nat \<Rightarrow> 'a option" where
  "array_at a i = (case a of None \<Rightarrow> None | Some (_, xs) \<Rightarrow> if i < length xs then Some (xs ! i) else None)"

definition release_with_details :: "util_error \<Rightarrow> heap \<Rightarrow> (util_error \<times> heap) option" where
  "release_with_details e h = (case ue_data e of
     Details d \<Rightarrow>
       do {
         pairs \<leftarrow> those (map (\<lambda>i. do {
           key \<leftarrow> array_at (dt_keys d) i;
           val \<leftarrow> array_at (dt_values d) i;
           Some [map_option fst key, map_option fst val]
         }) [0..<dt_count d]);
         h \<leftarrow> free_all ([Some (fst (dt_message d))] @ concat pairs @
           [map_option fst (dt_keys d), map_option fst (dt_values d), map_option fst (dt_lengths d), Some (dt_self d)]) h;
         Some (ADBC_ERROR_INIT, h)
       }
   | _ \<Rightarrow> None)"

definition release_plain :: "util_error \<Rightarrow> heap \<Rightarrow> (util_error \<times> heap) option" where
  "release_plain e h = do {
     h \<leftarrow> free (map_option fst (ue_message e)) h;
     Some (e\<lparr>ue_message := None, ue_release := No_Release\<rparr>, h)
   }"

text \<open>The call of \<open>error->release\<close>; \<open>other\<close> are the functions of others.\<close>

type_synonym other_release = "nat \<Rightarrow> util_error \<Rightarrow> heap \<Rightarrow> (util_error \<times> heap) option"

definition call_release :: "other_release \<Rightarrow> util_error \<Rightarrow> heap \<Rightarrow> (util_error \<times> heap) option" where
  "call_release other e h = (case ue_release e of
     No_Release \<Rightarrow> None
   | ReleaseError \<Rightarrow> release_plain e h
   | ReleaseErrorWithDetails \<Rightarrow> release_with_details e h
   | Other_Release f \<Rightarrow> other f e h)"

definition kErrorBufferSize :: nat where
  "kErrorBufferSize = 1024"

text \<open>\<open>formatted\<close> is what the format and its arguments print; vsnprintf cuts it to the buffer.\<close>

definition InternalAdbcSetErrorVariadic ::
  "other_release \<Rightarrow> util_error option \<Rightarrow> string \<Rightarrow> heap \<Rightarrow> (util_error option \<times> heap) option" where
  "InternalAdbcSetErrorVariadic other err formatted h = (case err of
     None \<Rightarrow> Some (None, h)
   | Some e \<Rightarrow>
       do {
         (e, h) \<leftarrow> (if ue_release e \<noteq> No_Release then call_release other e h else Some (e, h));
         let text_written = take (kErrorBufferSize - 1) formatted;
         if ue_vendor_code e = PRIVATE_DATA_CODE
         then (case malloc h of
           (None, h) \<Rightarrow> Some (Some (e\<lparr>ue_data := No_Data\<rparr>), h)
         | (Some self, h) \<Rightarrow>
             (case malloc h of
                (None, h) \<Rightarrow> do { h \<leftarrow> free (Some self) h; Some (Some (e\<lparr>ue_data := Dangling\<rparr>), h) }
              | (Some m, h) \<Rightarrow>
                  Some (Some (e\<lparr>ue_message := Some (m, text_written), ue_release := ReleaseErrorWithDetails,
                    ue_data := Details \<lparr>dt_self = self, dt_message = (m, text_written), dt_keys = None,
                      dt_values = None, dt_lengths = None, dt_count = 0, dt_capacity = 0\<rparr>\<rparr>), h)))
         else (case malloc h of
           (None, h) \<Rightarrow> Some (Some (e\<lparr>ue_message := None\<rparr>), h)
         | (Some m, h) \<Rightarrow> Some (Some (e\<lparr>ue_message := Some (m, text_written), ue_release := ReleaseError\<rparr>), h))
       })"

text \<open>
  More room for details: the old entries are copied and the old array freed, for keys, values and lengths in
  turn.  Without memory nothing changes and the new arrays are freed.
\<close>

definition copied :: "nat \<Rightarrow> (nat \<times> 'a list) option \<Rightarrow> nat \<Rightarrow> 'a \<Rightarrow> 'a list option" where
  "copied n old new_capacity zero = (case old of
     None \<Rightarrow> Some (replicate new_capacity zero)
   | Some (_, xs) \<Rightarrow>
       if n \<le> length xs \<and> n \<le> new_capacity then Some (take n xs @ replicate (new_capacity - n) zero)
       else None)"

definition grow_details :: "error_details \<Rightarrow> heap \<Rightarrow> (bool \<times> error_details \<times> heap) option" where
  "grow_details d h =
     (if dt_capacity d \<ge> 2 ^ 30 then None
      else
        (let new_capacity = (if dt_capacity d = 0 then 4 else 2 * dt_capacity d) in
         case malloc h of
           (None, h) \<Rightarrow> Some (False, d, h)
         | (Some new_keys, h) \<Rightarrow>
             (case malloc h of
                (None, h) \<Rightarrow> do { h \<leftarrow> free (Some new_keys) h; Some (False, d, h) }
              | (Some new_values, h) \<Rightarrow>
                  (case malloc h of
                     (None, h) \<Rightarrow> do {
                       h \<leftarrow> free (Some new_keys) h;
                       h \<leftarrow> free (Some new_values) h;
                       Some (False, d, h)
                     }
                   | (Some new_lengths, h) \<Rightarrow> do {
                       keys \<leftarrow> copied (dt_count d) (dt_keys d) new_capacity None;
                       h \<leftarrow> free (map_option fst (dt_keys d)) h;
                       vals \<leftarrow> copied (dt_count d) (dt_values d) new_capacity None;
                       h \<leftarrow> free (map_option fst (dt_values d)) h;
                       lengths \<leftarrow> copied (dt_count d) (dt_lengths d) new_capacity 0;
                       h \<leftarrow> free (map_option fst (dt_lengths d)) h;
                       Some (True, d\<lparr>dt_keys := Some (new_keys, keys), dt_values := Some (new_values, vals),
                         dt_lengths := Some (new_lengths, lengths), dt_capacity := new_capacity\<rparr>, h)
                     }))))"

text \<open>An element of an array is set, within the array.\<close>

definition set_at :: "(nat \<times> 'a list) option \<Rightarrow> nat \<Rightarrow> 'a \<Rightarrow> (nat \<times> 'a list) option option" where
  "set_at a i x = (case a of None \<Rightarrow> None
     | Some (p, xs) \<Rightarrow> if i < length xs then Some (Some (p, xs[i := x])) else None)"

definition store_detail :: "error_details \<Rightarrow> string \<Rightarrow> byte list \<Rightarrow> nat \<Rightarrow> heap \<Rightarrow> (error_details \<times> heap) option" where
  "store_detail d key detail detail_length h = (case malloc h of
     (None, h) \<Rightarrow> Some (d, h)
   | (Some key_data, h) \<Rightarrow>
       (case malloc h of
          (None, h) \<Rightarrow> do { h \<leftarrow> free (Some key_data) h; Some (d, h) }
        | (Some value_data, h) \<Rightarrow> do {
            bytes_copied \<leftarrow> load detail 0 detail_length;
            let index = dt_count d;
            keys \<leftarrow> set_at (dt_keys d) index (Some (key_data, key));
            vals \<leftarrow> set_at (dt_values d) index (Some (value_data, bytes_copied));
            lengths \<leftarrow> set_at (dt_lengths d) index detail_length;
            Some (d\<lparr>dt_keys := keys, dt_values := vals, dt_lengths := lengths, dt_count := index + 1\<rparr>, h)
          }))"

definition InternalAdbcAppendErrorDetail ::
  "util_error \<Rightarrow> string \<Rightarrow> byte list \<Rightarrow> nat \<Rightarrow> heap \<Rightarrow> (util_error \<times> heap) option" where
  "InternalAdbcAppendErrorDetail e key detail detail_length h =
     (if ue_release e \<noteq> ReleaseErrorWithDetails then Some (e, h)
      else (case ue_data e of
        Details d \<Rightarrow>
          do {
            (go_on, d, h) \<leftarrow> (if dt_count d \<ge> dt_capacity d then grow_details d h else Some (True, d, h));
            (d, h) \<leftarrow> (if go_on then store_detail d key detail detail_length h else Some (d, h));
            Some (e\<lparr>ue_data := Details d\<rparr>, h)
          }
      | _ \<Rightarrow> None))"

definition InternalAdbcCommonErrorGetDetailCount :: "util_error \<Rightarrow> int option" where
  "InternalAdbcCommonErrorGetDetailCount e =
     (if ue_release e \<noteq> ReleaseErrorWithDetails then Some 0
      else (case ue_data e of Details d \<Rightarrow> Some (int (dt_count d)) | _ \<Rightarrow> None))"

text \<open>A detail is its key, its value and the length of the value; the pointers are null when there is none.\<close>

type_synonym detail_view = "string option \<times> byte list option \<times> nat"

definition InternalAdbcCommonErrorGetDetail :: "util_error \<Rightarrow> int \<Rightarrow> detail_view option" where
  "InternalAdbcCommonErrorGetDetail e index =
     (if ue_release e \<noteq> ReleaseErrorWithDetails then Some (None, None, 0)
      else (case ue_data e of
        Details d \<Rightarrow>
          if index < 0 \<or> index \<ge> int (dt_count d) then Some (None, None, 0)
          else do {
            key \<leftarrow> array_at (dt_keys d) (nat index);
            val \<leftarrow> array_at (dt_values d) (nat index);
            n \<leftarrow> array_at (dt_lengths d) (nat index);
            Some (map_option snd key, map_option snd val, n)
          }
      | _ \<Rightarrow> None))"

definition InternalAdbcIsCommonError :: "util_error \<Rightarrow> bool" where
  "InternalAdbcIsCommonError e \<longleftrightarrow> ue_release e = ReleaseErrorWithDetails \<or> ue_release e = ReleaseError"

section \<open>The string builder\<close>

text \<open>
  The buffer is its capacity of characters, whatever they are, with the null character that ends the text; memory
  that vsnprintf does not write keeps what it held.  \<open>moved\<close> is what realloc gives, or None.
\<close>

record string_builder =
  sb_buffer :: "string option"
  sb_size :: nat
  sb_capacity :: nat

definition InternalAdbcStringBuilderInit :: "string option \<Rightarrow> string_builder \<Rightarrow> nat \<Rightarrow> string_builder nano" where
  "InternalAdbcStringBuilderInit memory builder initial_size = (case memory of
     None \<Rightarrow> Some (ENOMEM, builder\<lparr>sb_buffer := None\<rparr>)
   | Some m \<Rightarrow> Some (NANOARROW_OK, \<lparr>sb_buffer = Some m, sb_size = 0, sb_capacity = initial_size\<rparr>))"

definition vsnprintf :: "string \<Rightarrow> nat \<Rightarrow> nat \<Rightarrow> string \<Rightarrow> string option" where
  "vsnprintf buffer offset available formatted =
     (let written = (if available = 0 then [] else take (available - 1) formatted @ [CHR 0x00]) in
      if offset + length written \<le> length buffer
      then Some (take offset buffer @ written @ drop (offset + length written) buffer) else None)"

definition InternalAdbcStringBuilderAppend ::
  "(string \<Rightarrow> nat \<Rightarrow> string option) \<Rightarrow> string_builder \<Rightarrow> string \<Rightarrow> string_builder nano" where
  "InternalAdbcStringBuilderAppend realloc builder formatted =
     (let bytes_available = sb_capacity builder - sb_size builder; n = length formatted in
      do {
        buffer \<leftarrow> sb_buffer builder;
        buffer \<leftarrow> vsnprintf buffer (sb_size builder) bytes_available formatted;
        (if n \<ge> bytes_available
         then
           (let bytes_needed = n - bytes_available + 1 in
            case realloc buffer (sb_capacity builder + bytes_needed) of
              None \<Rightarrow> Some (ENOMEM, builder\<lparr>sb_buffer := None\<rparr>)
            | Some buffer \<Rightarrow> do {
                buffer \<leftarrow> vsnprintf buffer (sb_size builder) (n + 1) formatted;
                Some (NANOARROW_OK, \<lparr>sb_buffer = Some buffer, sb_size = sb_size builder + n,
                  sb_capacity = sb_capacity builder + bytes_needed\<rparr>)
              })
         else Some (NANOARROW_OK, builder\<lparr>sb_buffer := Some buffer, sb_size := sb_size builder + n\<rparr>))
      })"

definition InternalAdbcStringBuilderReset :: "string_builder \<Rightarrow> string_builder" where
  "InternalAdbcStringBuilderReset builder = \<lparr>sb_buffer = None, sb_size = 0, sb_capacity = 0\<rparr>"

section \<open>Blocks owned\<close>

definition present :: "nat option list \<Rightarrow> nat list" where
  "present ps = concat (map (\<lambda>p. case p of None \<Rightarrow> [] | Some a \<Rightarrow> [a]) ps)"

lemma present_simps [simp]:
  "present [] = []" "present (None # ps) = present ps" "present (Some a # ps) = a # present ps"
  "present (ps @ qs) = present ps @ present qs"
  by (simp_all add: present_def)

lemma mset_present: "mset ps = mset qs \<Longrightarrow> mset (present ps) = mset (present qs)"
proof -
  have "mset (present ps) = (\<Sum>p\<in>#mset ps. case p of None \<Rightarrow> {#} | Some a \<Rightarrow> {#a#})" for ps
    by (induction ps) (auto split: option.split)
  then show "mset ps = mset qs \<Longrightarrow> ?thesis" by simp
qed

text \<open>The live blocks are those of others and, each once, those pointed to.\<close>

definition owns :: "nat set \<Rightarrow> nat option list \<Rightarrow> heap \<Rightarrow> bool" where
  "owns others ps h \<longleftrightarrow> distinct (present ps) \<and> others \<inter> set (present ps) = {}
     \<and> hp_live h = others \<union> set (present ps) \<and> (\<forall>p \<in> hp_live h. p < hp_next h)"

lemma owns_mset: "owns others ps h \<Longrightarrow> mset ps = mset qs \<Longrightarrow> owns others qs h"
  using mset_present [of ps qs] mset_eq_setD [of "present ps" "present qs"]
    mset_eq_imp_distinct_iff [of "present ps" "present qs"]
  by (simp add: owns_def)

lemma owns_malloc:
  assumes "owns others ps h"
  obtains (failed) h' where "malloc h = (None, h')" "owns others ps h'" "hp_fails h \<noteq> {}" "hp_fails h' = hp_fails h"
  | (given) p h' where "malloc h = (Some p, h')" "owns others (Some p # ps) h'" "hp_fails h' = hp_fails h"
proof (cases "hp_next h \<in> hp_fails h")
  case True
  with assms show ?thesis by (intro failed [of "h\<lparr>hp_next := hp_next h + 1\<rparr>"]) (auto simp: malloc_def owns_def Let_def less_Suc_eq)
next
  case False
  with assms show ?thesis by (intro given [of "hp_next h" "h\<lparr>hp_next := hp_next h + 1, hp_live := insert (hp_next h) (hp_live h)\<rparr>"])
      (auto simp: malloc_def owns_def Let_def less_Suc_eq)
qed

lemma owns_free:
  assumes "owns others ps h" "mset ps = add_mset p (mset qs)"
  obtains h' where "free p h = Some h'" "owns others qs h'" "hp_fails h' = hp_fails h"
proof -
  have "owns others (p # qs) h" using owns_mset [OF assms(1), of "p # qs"] assms(2) by simp
  then show ?thesis by (cases p) (auto simp: owns_def intro!: that)
qed

lemma owns_free_all:
  assumes "owns others ps h" "mset ps = mset rs + mset qs"
  obtains h' where "free_all rs h = Some h'" "owns others qs h'" "hp_fails h' = hp_fails h"
  using assms
proof (induction rs arbitrary: h ps thesis)
  case Nil
  then show ?case using owns_mset [of others ps h qs] by auto
next
  case (Cons r rs)
  obtain h' where h': "free r h = Some h'" "owns others (rs @ qs) h'" "hp_fails h' = hp_fails h"
    using owns_free [OF Cons.prems(2), of r "rs @ qs"] Cons.prems(3) by auto
  obtain h'' where "free_all rs h' = Some h''" "owns others qs h''" "hp_fails h'' = hp_fails h'"
    using Cons.IH [OF _ h'(2)] by auto
  with h' Cons.prems(1) show ?case by simp
qed

section \<open>The details an error holds\<close>

type_synonym entry = "(nat \<times> string) \<times> (nat \<times> byte list)"

definition holds_array :: "nat \<Rightarrow> 'a list \<Rightarrow> 'a \<Rightarrow> (nat \<times> 'a list) option \<Rightarrow> bool" where
  "holds_array capacity xs zero a \<longleftrightarrow>
     (if capacity = 0 then a = None else \<exists>p. a = Some (p, xs @ replicate (capacity - length xs) zero))"

definition holds_details :: "error_details \<Rightarrow> entry list \<Rightarrow> bool" where
  "holds_details d es \<longleftrightarrow> dt_count d = length es \<and> length es \<le> dt_capacity d
     \<and> holds_array (dt_capacity d) (map (Some \<circ> fst) es) None (dt_keys d)
     \<and> holds_array (dt_capacity d) (map (Some \<circ> snd) es) None (dt_values d)
     \<and> holds_array (dt_capacity d) (map (length \<circ> snd \<circ> snd) es) 0 (dt_lengths d)"

definition entry_pointers :: "entry list \<Rightarrow> nat option list" where
  "entry_pointers es = concat (map (\<lambda>(k, v). [Some (fst k), Some (fst v)]) es)"

definition details_pointers :: "error_details \<Rightarrow> entry list \<Rightarrow> nat option list" where
  "details_pointers d es = [Some (fst (dt_message d))] @ entry_pointers es @
     [map_option fst (dt_keys d), map_option fst (dt_values d), map_option fst (dt_lengths d), Some (dt_self d)]"

lemma array_at_held:
  "holds_array capacity xs zero a \<Longrightarrow> length xs \<le> capacity \<Longrightarrow> i < length xs \<Longrightarrow> array_at a i = Some (xs ! i)"
  by (auto simp: holds_array_def array_at_def nth_append split: if_splits)

lemma copied_held:
  "holds_array (length xs) xs zero a \<Longrightarrow> length xs \<le> n \<Longrightarrow> copied (length xs) a n zero = Some (xs @ replicate (n - length xs) zero)"
  by (auto simp: holds_array_def copied_def split: if_splits)

lemma set_at_held:
  "holds_array capacity xs zero a \<Longrightarrow> length xs < capacity \<Longrightarrow> length xs = n \<Longrightarrow>
    \<exists>a'. set_at a n x = Some a' \<and> holds_array capacity (xs @ [x]) zero a' \<and> map_option fst a' = map_option fst a"
proof -
  assume a: "holds_array capacity xs zero a" "length xs < capacity" "length xs = n"
  then have "replicate (capacity - n) zero = zero # replicate (capacity - Suc n) zero"
    by (metis Suc_diff_Suc replicate_Suc)
  with a show ?thesis
    by (auto simp: holds_array_def set_at_def list_update_append split: if_splits)
qed

text \<open>Releasing frees what is owned, and more room and more details are owned.\<close>

lemma those_snoc: "those xs = Some ys \<Longrightarrow> those (xs @ [Some y]) = Some (ys @ [y])"
  by (induction xs arbitrary: ys) (auto split: option.splits)

lemma release_frees:
  assumes "holds_details d es" "owns others (details_pointers d es) h" "ue_data e = Details d"
  obtains h' where "release_with_details e h = Some (ADBC_ERROR_INIT, h')" "owns others [] h'" "hp_fails h' = hp_fails h"
proof -
  have "those (map (\<lambda>i. do {
           key \<leftarrow> array_at (dt_keys d) i;
           val \<leftarrow> array_at (dt_values d) i;
           Some [map_option fst key, map_option fst val]
         }) [0..<n]) = Some (map (\<lambda>(k, v). [Some (fst k), Some (fst v)]) (take n es))" if "n \<le> length es" for n
    using that
  proof (induction n)
    case (Suc n)
    have "array_at (dt_keys d) n = Some (Some (fst (es ! n)))" "array_at (dt_values d) n = Some (Some (snd (es ! n)))"
      using Suc.prems assms(1) array_at_held [of "dt_capacity d" "map (Some \<circ> fst) es" None "dt_keys d" n]
        array_at_held [of "dt_capacity d" "map (Some \<circ> snd) es" None "dt_values d" n]
      by (simp_all add: holds_details_def)
    with Suc show ?case by (simp add: those_snoc take_Suc_conv_app_nth case_prod_unfold)
  qed simp
  note pairs = this [OF order_refl]
  have n: "dt_count d = length es" using assms(1) by (simp add: holds_details_def)
  have release: "release_with_details e h = do { h \<leftarrow> free_all (details_pointers d es) h; Some (ADBC_ERROR_INIT, h) }"
    unfolding release_with_details_def assms(3) details_pointers_def entry_pointers_def private_data.case n pairs
    by simp
  obtain h' where "free_all (details_pointers d es) h = Some h'" "owns others [] h'" "hp_fails h' = hp_fails h"
    using owns_free_all [OF assms(2), of "details_pointers d es" "[]"] by (metis add.right_neutral mset.simps(1))
  with release show ?thesis by (intro that [of h']) simp_all
qed

lemma grow_owns:
  assumes "holds_details d es" "owns others (details_pointers d es) h" "dt_count d = dt_capacity d" "dt_capacity d < 2 ^ 30"
  obtains (failed) h' where "grow_details d h = Some (False, d, h')" "owns others (details_pointers d es) h'"
      "hp_fails h \<noteq> {}" "hp_fails h' = hp_fails h"
  | (grown) d' h' where "grow_details d h = Some (True, d', h')" "owns others (details_pointers d' es) h'"
      "holds_details d' es" "dt_count d' < dt_capacity d'" "dt_message d' = dt_message d" "hp_fails h' = hp_fails h"
proof -
  let ?new = "if dt_capacity d = 0 then 4 else 2 * dt_capacity d"
  let ?ps = "details_pointers d es"
  from assms(2) show thesis
  proof (cases rule: owns_malloc)
    case (failed h1)
    then show ?thesis using that(1) assms(4) by (simp add: grow_details_def Let_def)
  next
    case (given k h1)
    note g1 = given
    from g1(2) show ?thesis
    proof (cases rule: owns_malloc)
      case (failed h2)
      obtain h3 where "free (Some k) h2 = Some h3" "owns others ?ps h3" "hp_fails h3 = hp_fails h2"
        using owns_free [OF failed(2), of "Some k" ?ps] by auto
      then show ?thesis using that(1) assms(4) g1 failed by (simp add: grow_details_def Let_def del: free.simps)
    next
      case (given v h2)
      note g2 = given
      from g2(2) show ?thesis
      proof (cases rule: owns_malloc)
        case (failed h3)
        obtain h4 where h4: "free (Some k) h3 = Some h4" "owns others (Some v # ?ps) h4" "hp_fails h4 = hp_fails h3"
          using owns_free [OF failed(2), of "Some k" "Some v # ?ps"] by (auto simp: ac_simps)
        obtain h5 where "free (Some v) h4 = Some h5" "owns others ?ps h5" "hp_fails h5 = hp_fails h4"
          using owns_free [OF h4(2), of "Some v" ?ps] by auto
        then show ?thesis using that(1) assms(4) g1 g2 failed h4 by (simp add: grow_details_def Let_def del: free.simps)
      next
        case (given l h3)
        note g3 = given
        let ?rest = "[Some (fst (dt_message d))] @ entry_pointers es @ [Some (dt_self d)]"
        let ?k = "map_option fst (dt_keys d)" and ?v = "map_option fst (dt_values d)" and ?l = "map_option fst (dt_lengths d)"
        obtain h4 where h4: "free ?k h3 = Some h4" "owns others ([Some l, Some v, Some k] @ ?rest @ [?v, ?l]) h4"
            "hp_fails h4 = hp_fails h3"
          using owns_free [OF g3(2), of ?k "[Some l, Some v, Some k] @ ?rest @ [?v, ?l]"]
          by (auto simp: details_pointers_def ac_simps)
        obtain h5 where h5: "free ?v h4 = Some h5" "owns others ([Some l, Some v, Some k] @ ?rest @ [?l]) h5"
            "hp_fails h5 = hp_fails h4"
          using owns_free [OF h4(2), of ?v "[Some l, Some v, Some k] @ ?rest @ [?l]"] by (auto simp: ac_simps)
        obtain h6 where h6: "free ?l h5 = Some h6" "owns others ([Some l, Some v, Some k] @ ?rest) h6"
            "hp_fails h6 = hp_fails h5"
          using owns_free [OF h5(2), of ?l "[Some l, Some v, Some k] @ ?rest"] by (auto simp: ac_simps)
        have n: "dt_count d = length es" "length es = dt_capacity d" "length es \<le> ?new" "length es < ?new" "?new \<noteq> 0"
          using assms(1,3) by (auto simp: holds_details_def)
        let ?d = "d\<lparr>dt_keys := Some (k, map (Some \<circ> fst) es @ replicate (?new - length es) None),
            dt_values := Some (v, map (Some \<circ> snd) es @ replicate (?new - length es) None),
            dt_lengths := Some (l, map (length \<circ> snd \<circ> snd) es @ replicate (?new - length es) 0), dt_capacity := ?new\<rparr>"
        have "copied (dt_count d) (dt_keys d) ?new None = Some (map (Some \<circ> fst) es @ replicate (?new - length es) None)"
            "copied (dt_count d) (dt_values d) ?new None = Some (map (Some \<circ> snd) es @ replicate (?new - length es) None)"
            "copied (dt_count d) (dt_lengths d) ?new 0
              = Some (map (length \<circ> snd \<circ> snd) es @ replicate (?new - length es) 0)"
          using assms(1) n copied_held [of "map (Some \<circ> fst) es" None "dt_keys d" ?new]
            copied_held [of "map (Some \<circ> snd) es" None "dt_values d" ?new]
            copied_held [of "map (length \<circ> snd \<circ> snd) es" 0 "dt_lengths d" ?new]
          by (simp_all add: holds_details_def del: One_nat_def)
        then have "grow_details d h = Some (True, ?d, h6)"
          using assms(4) g1 g2 g3 h4 h5 h6 by (simp add: grow_details_def Let_def del: free.simps)
        moreover have "owns others (details_pointers ?d es) h6"
          using owns_mset [OF h6(2), of "details_pointers ?d es"] by (simp add: details_pointers_def ac_simps)
        moreover have "holds_details ?d es" using n by (auto simp: holds_details_def holds_array_def)
        ultimately show ?thesis using that(2) n g1 g2 g3 h4 h5 h6 by simp
      qed
    qed
  qed
qed

lemma store_owns:
  assumes "holds_details d es" "owns others (details_pointers d es) h" "dt_count d < dt_capacity d"
  obtains (failed) h' where "store_detail d key detail (length detail) h = Some (d, h')"
      "owns others (details_pointers d es) h'" "hp_fails h \<noteq> {}" "hp_fails h' = hp_fails h"
  | (stored) d' h' k v where "store_detail d key detail (length detail) h = Some (d', h')"
      "owns others (details_pointers d' (es @ [((k, key), (v, detail))])) h'"
      "holds_details d' (es @ [((k, key), (v, detail))])" "dt_message d' = dt_message d" "hp_fails h' = hp_fails h"
      "dt_capacity d' = dt_capacity d"
proof -
  let ?ps = "details_pointers d es"
  from assms(2) show thesis
  proof (cases rule: owns_malloc)
    case (failed h1)
    then show ?thesis using that(1) by (simp add: store_detail_def)
  next
    case (given k h1)
    note g1 = given
    from g1(2) show ?thesis
    proof (cases rule: owns_malloc)
      case (failed h2)
      obtain h3 where "free (Some k) h2 = Some h3" "owns others ?ps h3" "hp_fails h3 = hp_fails h2"
        using owns_free [OF failed(2), of "Some k" ?ps] by auto
      then show ?thesis using that(1) g1 failed by (simp add: store_detail_def del: free.simps)
    next
      case (given v h2)
      have n: "dt_count d = length es" "length es < dt_capacity d" using assms(1,3) by (simp_all add: holds_details_def)
      obtain ks where ks: "set_at (dt_keys d) (length es) (Some (k, key)) = Some ks"
          "holds_array (dt_capacity d) (map (Some \<circ> fst) es @ [Some (k, key)]) None ks"
          "map_option fst ks = map_option fst (dt_keys d)"
        using set_at_held [of "dt_capacity d" "map (Some \<circ> fst) es" None "dt_keys d" "length es" "Some (k, key)"]
          assms(1) n by (auto simp: holds_details_def)
      obtain vs where vs: "set_at (dt_values d) (length es) (Some (v, detail)) = Some vs"
          "holds_array (dt_capacity d) (map (Some \<circ> snd) es @ [Some (v, detail)]) None vs"
          "map_option fst vs = map_option fst (dt_values d)"
        using set_at_held [of "dt_capacity d" "map (Some \<circ> snd) es" None "dt_values d" "length es" "Some (v, detail)"]
          assms(1) n by (auto simp: holds_details_def)
      obtain ls where ls: "set_at (dt_lengths d) (length es) (length detail) = Some ls"
          "holds_array (dt_capacity d) (map (length \<circ> snd \<circ> snd) es @ [length detail]) 0 ls"
          "map_option fst ls = map_option fst (dt_lengths d)"
        using set_at_held [of "dt_capacity d" "map (length \<circ> snd \<circ> snd) es" 0 "dt_lengths d" "length es" "length detail"]
          assms(1) n by (auto simp: holds_details_def)
      let ?d = "d\<lparr>dt_keys := ks, dt_values := vs, dt_lengths := ls, dt_count := length es + 1\<rparr>"
      let ?es = "es @ [((k, key), (v, detail))]"
      have "store_detail d key detail (length detail) h = Some (?d, h2)"
        using g1 given ks vs ls n by (simp add: store_detail_def load_def)
      moreover have "owns others (details_pointers ?d ?es) h2"
        using owns_mset [OF given(2), of "details_pointers ?d ?es"] ks vs ls
        by (simp add: details_pointers_def entry_pointers_def ac_simps)
      moreover have "holds_details ?d ?es" using n ks vs ls by (simp add: holds_details_def)
      ultimately show ?thesis using that(2) g1 given by simp
    qed
  qed
qed

section \<open>Errors over their life\<close>

text \<open>What a client sees of an error: nothing when it is not set, or its message and its details.\<close>

type_synonym error_content = "(string \<times> (string \<times> byte list) list) option"

fun holds_error :: "util_error \<Rightarrow> error_content \<Rightarrow> nat option list \<Rightarrow> bool" where
  "holds_error e c ps \<longleftrightarrow> (case ue_release e of
     No_Release \<Rightarrow> c = None \<and> ps = [] \<and> ue_message e = None
   | ReleaseError \<Rightarrow> ue_vendor_code e \<noteq> PRIVATE_DATA_CODE
       \<and> (\<exists>m t. ue_message e = Some (m, t) \<and> c = Some (t, []) \<and> ps = [Some m])
   | ReleaseErrorWithDetails \<Rightarrow> ue_vendor_code e = PRIVATE_DATA_CODE
       \<and> (\<exists>d es. ue_data e = Details d \<and> holds_details d es \<and> ue_message e = Some (dt_message d)
          \<and> c = Some (snd (dt_message d), map (\<lambda>(k, v). (snd k, snd v)) es) \<and> ps = details_pointers d es)
   | Other_Release f \<Rightarrow> False)"

declare holds_error.simps [simp del]

datatype error_op = SetError string | AddDetail string "byte list" | Release

fun run_error_op :: "other_release \<Rightarrow> error_op \<Rightarrow> util_error \<times> heap \<Rightarrow> (util_error \<times> heap) option" where
  "run_error_op other (SetError formatted) (e, h) =
     (case InternalAdbcSetErrorVariadic other (Some e) formatted h of Some (Some e, h) \<Rightarrow> Some (e, h) | _ \<Rightarrow> None)"
| "run_error_op other (AddDetail key detail) (e, h) = InternalAdbcAppendErrorDetail e key detail (length detail) h"
| "run_error_op other Release (e, h) = (if ue_release e = No_Release then Some (e, h) else call_release other e h)"

fun run_error_ops :: "other_release \<Rightarrow> error_op list \<Rightarrow> util_error \<times> heap \<Rightarrow> (util_error \<times> heap) option" where
  "run_error_ops other [] s = Some s"
| "run_error_ops other (op # ops) s = do { s \<leftarrow> run_error_op other op s; run_error_ops other ops s }"

text \<open>The same on contents, when there is memory and when there is none; only errors of version 1.1 have details.\<close>

fun content_op :: "bool \<Rightarrow> error_op \<Rightarrow> error_content \<Rightarrow> error_content" where
  "content_op detailed (SetError t) c = Some (take 1023 t, [])"
| "content_op detailed (AddDetail k v) c =
     (case c of Some (t, ds) \<Rightarrow> Some (t, if detailed then ds @ [(k, v)] else ds) | None \<Rightarrow> None)"
| "content_op detailed Release c = None"

fun failed_op :: "error_op \<Rightarrow> error_content \<Rightarrow> error_content" where
  "failed_op (SetError t) c = None"
| "failed_op (AddDetail k v) c = c"
| "failed_op Release c = None"

lemma release_error:
  assumes "holds_error e c ps" "owns others ps h" "ue_release e \<noteq> No_Release"
  obtains e' h' where "call_release other e h = Some (e', h')" "owns others [] h'" "hp_fails h' = hp_fails h"
    "holds_error e' None []" "ue_vendor_code e' = ue_vendor_code e" "ue_release e' = No_Release" "ue_message e' = None"
proof (cases "ue_release e")
  case ReleaseError
  with assms(1) obtain m t where m: "ue_message e = Some (m, t)" "ps = [Some m]" "ue_vendor_code e \<noteq> PRIVATE_DATA_CODE"
    by (auto simp: holds_error.simps)
  obtain h' where h': "free (Some m) h = Some h'" "owns others [] h'" "hp_fails h' = hp_fails h"
    using owns_free [OF assms(2), of "Some m" "[]"] m by auto
  let ?e = "e\<lparr>ue_message := None, ue_release := No_Release\<rparr>"
  have "call_release other e h = Some (?e, h')"
    using ReleaseError m h' by (simp add: call_release_def release_plain_def del: free.simps)
  with h' show ?thesis by (intro that [of ?e h']) (simp_all add: holds_error.simps)
next
  case ReleaseErrorWithDetails
  with assms(1) obtain d es where d: "ue_data e = Details d" "holds_details d es" "ps = details_pointers d es"
      "ue_vendor_code e = PRIVATE_DATA_CODE"
    by (auto simp: holds_error.simps)
  obtain h' where "release_with_details e h = Some (ADBC_ERROR_INIT, h')" "owns others [] h'" "hp_fails h' = hp_fails h"
    using release_frees [OF d(2) _ d(1), of others h] assms(2) d(3) by metis
  with ReleaseErrorWithDetails d show ?thesis
    by (intro that [of ADBC_ERROR_INIT h']) (simp_all add: call_release_def ADBC_ERROR_INIT_def holds_error.simps)
next
  case (Other_Release f)
  with assms(1) show ?thesis by (simp add: holds_error.simps)
qed (use assms(3) in simp)

text \<open>What each operation makes of an error, of what it owns and of the heap.\<close>

definition op_result :: "error_op \<Rightarrow> nat set \<Rightarrow> util_error \<Rightarrow> error_content \<Rightarrow> heap \<Rightarrow> util_error \<times> heap \<Rightarrow> bool" where
  "op_result op others e c h r \<longleftrightarrow> (case r of (e', h') \<Rightarrow>
     ue_vendor_code e' = ue_vendor_code e \<and> hp_fails h' = hp_fails h
     \<and> (\<exists>c' ps'. holds_error e' c' ps' \<and> owns others ps' h'
        \<and> (c' = content_op (ue_vendor_code e = PRIVATE_DATA_CODE) op c \<or> hp_fails h \<noteq> {} \<and> c' = failed_op op c)))"

lemma set_unset:
  assumes "owns others [] h" "ue_release e = No_Release" "ue_message e = None"
  shows "\<exists>r. run_error_op other (SetError t) (e, h) = Some r \<and> op_result (SetError t) others e c h r"
proof -
  let ?t = "take (kErrorBufferSize - 1) t"
  have len: "kErrorBufferSize - 1 = 1023" by (simp add: kErrorBufferSize_def)
  show ?thesis
    using assms(1)
  proof (cases rule: owns_malloc)
    case (failed h1)
    then show ?thesis
      using assms(2,3) by (cases "ue_vendor_code e = PRIVATE_DATA_CODE")
        (auto simp: InternalAdbcSetErrorVariadic_def op_result_def holds_error.simps)
  next
    case (given p h1)
    note g1 = given
    show ?thesis
    proof (cases "ue_vendor_code e = PRIVATE_DATA_CODE")
      case False
      then show ?thesis
        using assms(2,3) g1 len
        by (auto simp: InternalAdbcSetErrorVariadic_def op_result_def holds_error.simps Let_def)
    next
      case True
      from g1(2) show ?thesis
      proof (cases rule: owns_malloc)
        case (failed h2)
        obtain h3 where h3: "free (Some p) h2 = Some h3" "owns others [] h3" "hp_fails h3 = hp_fails h2"
          using owns_free [OF failed(2), of "Some p" "[]"] by auto
        then have "run_error_op other (SetError t) (e, h) = Some (e\<lparr>ue_data := Dangling\<rparr>, h3)"
          using assms(2) g1 failed True by (simp add: InternalAdbcSetErrorVariadic_def Let_def del: free.simps)
        then show ?thesis
          using assms(2,3) g1 failed h3 by (auto simp: op_result_def holds_error.simps)
      next
        case (given m h2)
        let ?d = "\<lparr>dt_self = p, dt_message = (m, ?t), dt_keys = None, dt_values = None, dt_lengths = None, dt_count = 0,
            dt_capacity = 0\<rparr>"
        let ?e = "e\<lparr>ue_message := Some (m, ?t), ue_release := ReleaseErrorWithDetails, ue_data := Details ?d\<rparr>"
        have "run_error_op other (SetError t) (e, h) = Some (?e, h2)"
          using assms(2) g1 given True by (simp add: InternalAdbcSetErrorVariadic_def Let_def)
        moreover have "owns others (details_pointers ?d []) h2"
          using given(2) by (simp add: owns_def details_pointers_def entry_pointers_def)
        moreover have "holds_details ?d []" by (simp add: holds_details_def holds_array_def)
        then have "holds_error ?e (Some (?t, [])) (details_pointers ?d [])" using True by (simp add: holds_error.simps)
        ultimately show ?thesis
          using g1 given len by (intro exI [of _ "(?e, h2)"]) (auto simp: op_result_def)
      qed
    qed
  qed
qed

lemma add_detail:
  assumes "holds_error e c ps" "owns others ps h" "\<forall>t ds. c = Some (t, ds) \<longrightarrow> length ds < 2 ^ 29"
  shows "\<exists>r. run_error_op other (AddDetail key detail) (e, h) = Some r \<and> op_result (AddDetail key detail) others e c h r"
proof (cases "ue_release e = ReleaseErrorWithDetails")
  case False
  with assms(1) have "content_op (ue_vendor_code e = PRIVATE_DATA_CODE) (AddDetail key detail) c = c"
    by (auto simp: holds_error.simps split: releaser.splits)
  with False assms(1,2) show ?thesis by (auto simp: InternalAdbcAppendErrorDetail_def op_result_def)
next
  case True
  with assms(1) obtain d es where d: "ue_data e = Details d" "holds_details d es" "ue_message e = Some (dt_message d)"
      "c = Some (snd (dt_message d), map (\<lambda>(k, v). (snd k, snd v)) es)" "ps = details_pointers d es"
      "ue_vendor_code e = PRIVATE_DATA_CODE"
    by (auto simp: holds_error.simps)
  have held: "holds_error (e\<lparr>ue_data := Details d'\<rparr>) (Some (snd (dt_message d), map (\<lambda>(k, v). (snd k, snd v)) es'))
      (details_pointers d' es')" if "holds_details d' es'" "dt_message d' = dt_message d" for d' es'
    using that d True by (auto simp: holds_error.simps)
  have stored: "\<exists>r. (case store_detail d' key detail (length detail) h' of None \<Rightarrow> None
        | Some (d, h) \<Rightarrow> Some (e\<lparr>ue_data := Details d\<rparr>, h)) = Some r \<and> op_result (AddDetail key detail) others e c h r"
    if d': "holds_details d' es" "owns others (details_pointers d' es) h'" "dt_count d' < dt_capacity d'"
      "dt_message d' = dt_message d" "hp_fails h' = hp_fails h" for d' h'
    using d'(1-3)
  proof (cases rule: store_owns [where key = key and detail = detail])
    case (failed h2)
    then show ?thesis using d d' held [OF d'(1,4)] by (auto simp: op_result_def)
  next
    case (stored d2 h2 k v)
    then show ?thesis using d d' held [OF stored(3)] by (auto simp: op_result_def)
  qed
  show ?thesis
  proof (cases "dt_count d \<ge> dt_capacity d")
    case False
    with stored [OF d(2) _ _ refl refl] assms(2) d True show ?thesis
      by (simp add: InternalAdbcAppendErrorDetail_def case_prod_unfold split: option.splits)
  next
    case full: True
    have "dt_count d = dt_capacity d" "dt_capacity d < 2 ^ 30"
      using full d(2) assms(3) d(4) by (auto simp: holds_details_def)
    from d(2) assms(2) [unfolded d(5)] this show ?thesis
    proof (cases rule: grow_owns)
      case (failed h1)
      then show ?thesis
        using d True full held [OF d(2) refl] by (auto simp: InternalAdbcAppendErrorDetail_def op_result_def)
    next
      case (grown d1 h1)
      with stored [of d1 h1] d True full show ?thesis
        by (simp add: InternalAdbcAppendErrorDetail_def case_prod_unfold split: option.splits)
    qed
  qed
qed

lemma error_op:
  assumes "holds_error e c ps" "owns others ps h" "\<forall>t ds. c = Some (t, ds) \<longrightarrow> length ds < 2 ^ 29"
  shows "\<exists>r. run_error_op other op (e, h) = Some r \<and> op_result op others e c h r"
proof (cases op)
  case (AddDetail key detail)
  then show ?thesis using add_detail [OF assms] by simp
next
  case Release
  show ?thesis
  proof (cases "ue_release e = No_Release")
    case True
    then show ?thesis using assms(1,2) Release by (auto simp: op_result_def holds_error.simps)
  next
    case False
    from assms(1,2) this obtain e' h' where "call_release other e h = Some (e', h')" "owns others [] h'"
        "hp_fails h' = hp_fails h" "holds_error e' None []" "ue_vendor_code e' = ue_vendor_code e"
      by (rule release_error)
    then show ?thesis using Release False by (auto simp: op_result_def)
  qed
next
  case (SetError t)
  show ?thesis
  proof (cases "ue_release e = No_Release")
    case True
    with assms(1,2) have "owns others [] h" "ue_message e = None" by (simp_all add: holds_error.simps)
    from set_unset [OF this(1) True this(2)] show ?thesis by (auto simp: SetError op_result_def)
  next
    case False
    from assms(1,2) this obtain e' h' where r: "call_release other e h = Some (e', h')" "owns others [] h'"
        "hp_fails h' = hp_fails h" "ue_vendor_code e' = ue_vendor_code e" "ue_release e' = No_Release" "ue_message e' = None"
      by (rule release_error)
    have "run_error_op other (SetError t) (e, h) = run_error_op other (SetError t) (e', h')"
      using False r by (simp add: InternalAdbcSetErrorVariadic_def)
    with set_unset [OF r(2,5,6)] r show ?thesis by (auto simp: SetError op_result_def)
  qed
qed

lemma content_op_length:
  "c' = content_op detailed op c \<or> c' = failed_op op c \<Longrightarrow> \<forall>t ds. c = Some (t, ds) \<longrightarrow> length ds \<le> n
    \<Longrightarrow> \<forall>t ds. c' = Some (t, ds) \<longrightarrow> length ds \<le> Suc n"
  by (cases op) (auto split: option.splits if_splits)

lemma error_ops:
  "holds_error e c ps \<Longrightarrow> owns others ps h \<Longrightarrow> \<forall>t ds. c = Some (t, ds) \<longrightarrow> length ds \<le> n
    \<Longrightarrow> n + length ops \<le> 2 ^ 29
    \<Longrightarrow> \<exists>e' h' c' ps'. run_error_ops other ops (e, h) = Some (e', h') \<and> holds_error e' c' ps' \<and> owns others ps' h'
      \<and> (hp_fails h = {} \<longrightarrow> c' = fold (content_op (ue_vendor_code e = PRIVATE_DATA_CODE)) ops c)"
proof (induction ops arbitrary: e h c ps n)
  case (Cons op ops)
  have "\<forall>t ds. c = Some (t, ds) \<longrightarrow> length ds < 2 ^ 29" using Cons.prems(3,4) by fastforce
  from error_op [OF Cons.prems(1,2) this] obtain e1 h1 c1 ps1 where
    r: "run_error_op other op (e, h) = Some (e1, h1)" "ue_vendor_code e1 = ue_vendor_code e" "hp_fails h1 = hp_fails h"
      "holds_error e1 c1 ps1" "owns others ps1 h1"
      "c1 = content_op (ue_vendor_code e = PRIVATE_DATA_CODE) op c \<or> hp_fails h \<noteq> {} \<and> c1 = failed_op op c"
    by (fastforce simp: op_result_def)
  have "\<forall>t ds. c1 = Some (t, ds) \<longrightarrow> length ds \<le> Suc n"
    using content_op_length [of c1 _ op c n] r(6) Cons.prems(3) by blast
  from Cons.IH [OF r(4,5) this] Cons.prems(4) r show ?case by auto
qed auto

text \<open>What the functions that ask for details answer.\<close>

lemma shown_details:
  assumes "holds_error e c ps"
  shows "map_option snd (ue_message e) = map_option fst c"
    "InternalAdbcCommonErrorGetDetailCount e = Some (case c of None \<Rightarrow> 0 | Some (t, ds) \<Rightarrow> int (length ds))"
    "InternalAdbcCommonErrorGetDetail e i = Some (case c of
       Some (t, ds) \<Rightarrow>
         if 0 \<le> i \<and> i < int (length ds)
         then (Some (fst (ds ! nat i)), Some (snd (ds ! nat i)), length (snd (ds ! nat i))) else (None, None, 0)
     | None \<Rightarrow> (None, None, 0))"
proof -
  show "map_option snd (ue_message e) = map_option fst c"
    using assms by (auto simp: holds_error.simps split: releaser.splits)
  show "InternalAdbcCommonErrorGetDetailCount e = Some (case c of None \<Rightarrow> 0 | Some (t, ds) \<Rightarrow> int (length ds))"
    using assms by (auto simp: holds_error.simps InternalAdbcCommonErrorGetDetailCount_def holds_details_def
        split: releaser.splits)
  show "InternalAdbcCommonErrorGetDetail e i = Some (case c of
       Some (t, ds) \<Rightarrow>
         if 0 \<le> i \<and> i < int (length ds)
         then (Some (fst (ds ! nat i)), Some (snd (ds ! nat i)), length (snd (ds ! nat i))) else (None, None, 0)
     | None \<Rightarrow> (None, None, 0))"
  proof (cases "ue_release e = ReleaseErrorWithDetails")
    case False
    with assms show ?thesis
      by (auto simp: holds_error.simps InternalAdbcCommonErrorGetDetail_def split: releaser.splits)
  next
    case True
    with assms obtain d es where d: "ue_data e = Details d" "holds_details d es"
        "c = Some (snd (dt_message d), map (\<lambda>(k, v). (snd k, snd v)) es)"
      by (auto simp: holds_error.simps)
    then have "dt_count d = length es" by (simp add: holds_details_def)
    moreover have "array_at (dt_keys d) n = Some (Some (fst (es ! n)))" "array_at (dt_values d) n = Some (Some (snd (es ! n)))"
        "array_at (dt_lengths d) n = Some (length (snd (snd (es ! n))))" if "n < length es" for n
      using that d(2) array_at_held [of "dt_capacity d" "map (Some \<circ> fst) es" None "dt_keys d" n]
        array_at_held [of "dt_capacity d" "map (Some \<circ> snd) es" None "dt_values d" n]
        array_at_held [of "dt_capacity d" "map (length \<circ> snd \<circ> snd) es" 0 "dt_lengths d" n]
      by (simp_all add: holds_details_def)
    ultimately show ?thesis
      using d True by (auto simp: InternalAdbcCommonErrorGetDetail_def case_prod_unfold nat_less_iff)
  qed
qed

text \<open>
  C17: Whatever is done with an error, setting it, adding details, releasing it, in any order and with any allocation
  failing, no block is freed twice and no memory outside one is touched, and releasing it in the end leaves exactly the
  blocks that were live before.  While there is memory, what it shows is its last message, cut to 1023 characters, and
  the details added since, each with its key, value and length, when the client asked for details with the vendor code.
\<close>

theorem error_details_kept:
  assumes "\<forall>p \<in> hp_live h. p < hp_next h" "length ops \<le> 2 ^ 29"
  shows "\<exists>e h' e'' h''. run_error_ops other ops (ADBC_ERROR_INIT\<lparr>ue_vendor_code := vc\<rparr>, h) = Some (e, h')
    \<and> run_error_op other Release (e, h') = Some (e'', h'') \<and> hp_live h'' = hp_live h
    \<and> (hp_fails h = {} \<longrightarrow>
        (let c = fold (content_op (vc = PRIVATE_DATA_CODE)) ops None in
         map_option snd (ue_message e) = map_option fst c
         \<and> InternalAdbcCommonErrorGetDetailCount e = Some (case c of None \<Rightarrow> 0 | Some (t, ds) \<Rightarrow> int (length ds))
         \<and> (\<forall>i. InternalAdbcCommonErrorGetDetail e i = Some (case c of
              Some (t, ds) \<Rightarrow>
                if 0 \<le> i \<and> i < int (length ds)
                then (Some (fst (ds ! nat i)), Some (snd (ds ! nat i)), length (snd (ds ! nat i))) else (None, None, 0)
            | None \<Rightarrow> (None, None, 0)))))"
proof -
  let ?e = "ADBC_ERROR_INIT\<lparr>ue_vendor_code := vc\<rparr>"
  have "holds_error ?e None []" by (simp add: holds_error.simps ADBC_ERROR_INIT_def)
  moreover have "owns (hp_live h) [] h" using assms(1) by (simp add: owns_def)
  ultimately have "\<exists>e h' c ps. run_error_ops other ops (?e, h) = Some (e, h') \<and> holds_error e c ps
      \<and> owns (hp_live h) ps h' \<and> (hp_fails h = {} \<longrightarrow> c = fold (content_op (vc = PRIVATE_DATA_CODE)) ops None)"
    using error_ops [of ?e None "[]" "hp_live h" h 0 ops other] assms(2) by simp
  then obtain e h' c ps where r: "run_error_ops other ops (?e, h) = Some (e, h')" "holds_error e c ps"
      "owns (hp_live h) ps h'" "hp_fails h = {} \<longrightarrow> c = fold (content_op (vc = PRIVATE_DATA_CODE)) ops None"
    by blast
  have "\<exists>e'' h''. run_error_op other Release (e, h') = Some (e'', h'') \<and> hp_live h'' = hp_live h"
  proof (cases "ue_release e = No_Release")
    case True
    with r show ?thesis by (auto simp: holds_error.simps owns_def)
  next
    case False
    from r(2,3) this obtain e'' h'' where "call_release other e h' = Some (e'', h'')" "owns (hp_live h) [] h''"
      by (rule release_error)
    then show ?thesis using False by (auto simp: owns_def)
  qed
  with r shown_details [OF r(2)] show ?thesis by (auto simp: Let_def)
qed

theorem error_details_kept_witness:
  "\<exists>e h'. run_error_ops (\<lambda>_ _ _. None) [SetError ''lost'', SetError ''no table'', AddDetail ''k'' [1, 2], AddDetail ''l'' []]
        (ADBC_ERROR_INIT, \<lparr>hp_next = 5, hp_live = {1, 3}, hp_fails = {}\<rparr>) = Some (e, h')
      \<and> map_option snd (ue_message e) = Some ''no table'' \<and> InternalAdbcCommonErrorGetDetailCount e = Some 2
      \<and> InternalAdbcCommonErrorGetDetail e 0 = Some (Some ''k'', Some [1, 2], 2)"
proof -
  have init: "ADBC_ERROR_INIT\<lparr>ue_vendor_code := PRIVATE_DATA_CODE\<rparr> = ADBC_ERROR_INIT" by (simp add: ADBC_ERROR_INIT_def)
  let ?ops = "[SetError ''lost'', SetError ''no table'', AddDetail ''k'' [1, 2], AddDetail ''l'' []]"
  let ?ds = "[(''k'', [1, 2 :: byte]), (''l'', [])]"
  let ?h = "\<lparr>hp_next = 5, hp_live = {1, 3}, hp_fails = {}\<rparr>"
  obtain e h' where r: "run_error_ops (\<lambda>_ _ _. None) ?ops (ADBC_ERROR_INIT, ?h) = Some (e, h')"
      "map_option snd (ue_message e) = Some ''no table''" "InternalAdbcCommonErrorGetDetailCount e = Some 2"
      "\<forall>i. InternalAdbcCommonErrorGetDetail e i = Some (if 0 \<le> i \<and> i < 2
         then (Some (fst (?ds ! nat i)), Some (snd (?ds ! nat i)), length (snd (?ds ! nat i))) else (None, None, 0))"
    using error_details_kept [of ?h ?ops "\<lambda>_ _ _. None" PRIVATE_DATA_CODE] by (auto simp: init Let_def)
  from r(4) have "InternalAdbcCommonErrorGetDetail e 0 = Some (Some ''k'', Some [1, 2], 2)" by simp
  with r show ?thesis by blast
qed

section \<open>Building strings\<close>

fun append_all :: "(string \<Rightarrow> nat \<Rightarrow> string option) \<Rightarrow> string_builder \<Rightarrow> string list \<Rightarrow> string_builder nano" where
  "append_all realloc b [] = Some (NANOARROW_OK, b)"
| "append_all realloc b (t # ts) = nano_then (InternalAdbcStringBuilderAppend realloc b t) (\<lambda>b. append_all realloc b ts)"

text \<open>realloc gives a block of the size asked for that begins with the old one, or nothing.\<close>

definition reallocates :: "(string \<Rightarrow> nat \<Rightarrow> string option) \<Rightarrow> bool" where
  "reallocates realloc \<longleftrightarrow> (\<forall>b n. length b \<le> n \<longrightarrow>
     (case realloc b n of None \<Rightarrow> True | Some b' \<Rightarrow> length b' = n \<and> take (length b) b' = b))"

definition builds :: "string_builder \<Rightarrow> string \<Rightarrow> bool" where
  "builds b t \<longleftrightarrow> (\<exists>m. sb_buffer b = Some m \<and> length m = sb_capacity b \<and> sb_size b = length t \<and> length t \<le> length m
     \<and> take (length t) m = t)"

lemma vsnprintf_fits:
  "length m = offset + available \<Longrightarrow> take offset m = t \<Longrightarrow> length f < available
    \<Longrightarrow> \<exists>m'. vsnprintf m offset available f = Some m' \<and> length m' = length m \<and> take (offset + length f) m' = t @ f
      \<and> m' ! (offset + length f) = CHR 0x00"
  by (auto simp: vsnprintf_def Let_def nth_append)

lemma vsnprintf_cut:
  "length m = offset + available \<Longrightarrow> take offset m = t
    \<Longrightarrow> \<exists>m'. vsnprintf m offset available f = Some m' \<and> length m' = length m \<and> take offset m' = t"
  by (auto simp: vsnprintf_def Let_def)

lemma append_builds:
  assumes "reallocates realloc" "builds b t"
  shows "(\<exists>b'. InternalAdbcStringBuilderAppend realloc b f = Some (NANOARROW_OK, b') \<and> builds b' (t @ f)
      \<and> (\<exists>m. sb_buffer b' = Some m \<and> length (t @ f) < length m \<and> m ! length (t @ f) = CHR 0x00))
    \<or> (\<exists>b'. InternalAdbcStringBuilderAppend realloc b f = Some (ENOMEM, b') \<and> sb_buffer b' = None)"
proof -
  obtain m where m: "sb_buffer b = Some m" "length m = sb_capacity b" "sb_size b = length t" "length t \<le> length m"
      "take (length t) m = t"
    using assms(2) by (auto simp: builds_def)
  let ?a = "sb_capacity b - length t"
  have a: "length m = length t + ?a" using m by simp
  show ?thesis
  proof (cases "length f < ?a")
    case True
    obtain m' where m': "vsnprintf m (length t) ?a f = Some m'" "length m' = length m"
        "take (length t + length f) m' = t @ f" "m' ! (length t + length f) = CHR 0x00"
      using vsnprintf_fits [OF a m(5) True] by auto
    let ?b = "b\<lparr>sb_buffer := Some m', sb_size := length t + length f\<rparr>"
    have "InternalAdbcStringBuilderAppend realloc b f = Some (NANOARROW_OK, ?b)"
      using m m' True by (simp add: InternalAdbcStringBuilderAppend_def Let_def)
    moreover have "builds ?b (t @ f)" using m m' True by (simp add: builds_def)
    ultimately show ?thesis using m m' True by auto
  next
    case False
    obtain m' where m': "vsnprintf m (length t) ?a f = Some m'" "length m' = length m" "take (length t) m' = t"
      using vsnprintf_cut [OF a m(5)] by blast
    let ?n = "sb_capacity b + (length f - ?a + 1)"
    show ?thesis
    proof (cases "realloc m' ?n")
      case None
      then show ?thesis using m m' False by (simp add: InternalAdbcStringBuilderAppend_def Let_def)
    next
      case (Some r)
      have "length m' \<le> ?n" using m m' by simp
      then have "case realloc m' ?n of None \<Rightarrow> True | Some b' \<Rightarrow> length b' = ?n \<and> take (length m') b' = m'"
        using assms(1) unfolding reallocates_def by blast
      then have r: "length r = ?n" "take (length m') r = m'" unfolding Some by simp_all
      have "take (length t) r = t" using r(2) m'(2,3) m(4) by (metis min.absorb1 take_take)
      moreover have len: "length r = length t + (length f + 1)" using r(1) False m by simp
      ultimately obtain m2 where m2: "vsnprintf r (length t) (length f + 1) f = Some m2" "length m2 = length r"
          "take (length t + length f) m2 = t @ f" "m2 ! (length t + length f) = CHR 0x00"
        using vsnprintf_fits [of r "length t" "length f + 1" t f] by auto
      let ?b = "\<lparr>sb_buffer = Some m2, sb_size = length t + length f, sb_capacity = ?n\<rparr>"
      have "InternalAdbcStringBuilderAppend realloc b f = Some (NANOARROW_OK, ?b)"
        using m m' m2 Some False by (simp add: InternalAdbcStringBuilderAppend_def Let_def)
      moreover have "builds ?b (t @ f)" using m2 r len by (simp add: builds_def)
      ultimately show ?thesis using m2 len by auto
    qed
  qed
qed

lemma append_all_builds:
  "reallocates realloc \<Longrightarrow> builds b t \<Longrightarrow>
    (\<exists>b'. append_all realloc b ts = Some (NANOARROW_OK, b') \<and> builds b' (t @ concat ts)
      \<and> (ts \<noteq> [] \<longrightarrow> (\<exists>m. sb_buffer b' = Some m \<and> length (t @ concat ts) < length m \<and> m ! length (t @ concat ts) = CHR 0x00)))
    \<or> (\<exists>b'. append_all realloc b ts = Some (ENOMEM, b') \<and> sb_buffer b' = None)"
proof (induction ts arbitrary: b t)
  case (Cons f ts)
  from append_builds [OF Cons.prems, of f] show ?case
  proof
    assume "\<exists>b'. InternalAdbcStringBuilderAppend realloc b f = Some (NANOARROW_OK, b') \<and> builds b' (t @ f)
      \<and> (\<exists>m. sb_buffer b' = Some m \<and> length (t @ f) < length m \<and> m ! length (t @ f) = CHR 0x00)"
    then obtain b' where b': "InternalAdbcStringBuilderAppend realloc b f = Some (NANOARROW_OK, b')" "builds b' (t @ f)"
        "\<exists>m. sb_buffer b' = Some m \<and> length (t @ f) < length m \<and> m ! length (t @ f) = CHR 0x00" by blast
    show ?thesis
    proof (cases "ts = []")
      case True
      with b' show ?thesis by simp
    next
      case False
      with Cons.IH [OF Cons.prems(1) b'(2)] b'(1) show ?thesis by simp
    qed
  next
    assume "\<exists>b'. InternalAdbcStringBuilderAppend realloc b f = Some (ENOMEM, b') \<and> sb_buffer b' = None"
    then show ?thesis by auto
  qed
qed simp

text \<open>
  Texts appended to a new string builder, whatever its first size, end up one after the other in its buffer, with the
  null character after them and the size their length, through every move to a larger buffer; or the builder reports
  ENOMEM and has no buffer.
\<close>

theorem string_builder_concat:
  assumes "reallocates realloc" "length memory = initial_size" "ts \<noteq> []"
  shows "\<exists>b0 e b. InternalAdbcStringBuilderInit (Some memory) old initial_size = Some (NANOARROW_OK, b0)
    \<and> append_all realloc b0 ts = Some (e, b)
    \<and> (e = NANOARROW_OK \<and> sb_size b = length (concat ts)
         \<and> (\<exists>m. sb_buffer b = Some m \<and> length m = sb_capacity b \<and> sb_size b < length m
              \<and> take (sb_size b) m = concat ts \<and> m ! sb_size b = CHR 0x00)
       \<or> e = ENOMEM \<and> sb_buffer b = None)"
proof -
  let ?b = "\<lparr>sb_buffer = Some memory, sb_size = 0, sb_capacity = initial_size\<rparr>"
  have "builds ?b []" using assms(2) by (simp add: builds_def)
  from append_all_builds [OF assms(1) this, of ts] assms(3) show ?thesis
    by (auto simp: InternalAdbcStringBuilderInit_def builds_def)
qed

theorem string_builder_concat_witness:
  "\<forall>old. \<exists>b0 e b. InternalAdbcStringBuilderInit (Some ''xy'') old 2 = Some (NANOARROW_OK, b0)
    \<and> append_all (\<lambda>b n. Some (b @ replicate (n - length b) CHR 0x20)) b0 [''SELECT '', [], ''1''] = Some (e, b)
    \<and> (e = NANOARROW_OK \<and> sb_size b = length ''SELECT 1''
         \<and> (\<exists>m. sb_buffer b = Some m \<and> length m = sb_capacity b \<and> sb_size b < length m
              \<and> take (sb_size b) m = ''SELECT 1'' \<and> m ! sb_size b = CHR 0x00)
       \<or> e = ENOMEM \<and> sb_buffer b = None)"
proof -
  have "reallocates (\<lambda>b n. Some (b @ replicate (n - length b) CHR 0x20))" by (simp add: reallocates_def)
  from string_builder_concat [OF this, of "''xy''" 2 "[''SELECT '', [], ''1'']"] show ?thesis
    by (simp del: append_all.simps)
qed

end
