(* ===== verification/Arrow_Bits.thy ===== *)
theory Arrow_Bits
  imports Arrow_Buffer
begin

text \<open>
  The bit operations and bitmaps of nanoarrow (adbc\_nanoarrow.h): validity bitmaps are filled, read
  and counted a byte at a time with masks from tables.  Offsets are natural numbers, so that the
  shifts and masks of 3 bits that select a byte and a bit are quotient and remainder by 8.  Reading or
  writing a byte outside the bits is None.
\<close>

unbundle bit_operations_syntax

section \<open>The tables\<close>

definition kBitmask :: "byte list" where
  "kBitmask = [1, 2, 4, 8, 16, 32, 64, 128]"

definition kFlippedBitmask :: "byte list" where
  "kFlippedBitmask = [254, 253, 251, 247, 239, 223, 191, 127]"

definition kPrecedingBitmask :: "byte list" where
  "kPrecedingBitmask = [0, 1, 3, 7, 15, 31, 63, 127]"

definition kTrailingBitmask :: "byte list" where
  "kTrailingBitmask = [255, 254, 252, 248, 240, 224, 192, 128]"

definition kBytePopcount :: "nat list" where
  "kBytePopcount = [
    0, 1, 1, 2, 1, 2, 2, 3, 1, 2, 2, 3, 2, 3, 3, 4, 1, 2, 2, 3, 2, 3, 3, 4, 2, 3, 3, 4, 3, 4, 4, 5, 1, 2, 2, 3, 2,
    3, 3, 4, 2, 3, 3, 4, 3, 4, 4, 5, 2, 3, 3, 4, 3, 4, 4, 5, 3, 4, 4, 5, 4, 5, 5, 6, 1, 2, 2, 3, 2, 3, 3, 4, 2, 3,
    3, 4, 3, 4, 4, 5, 2, 3, 3, 4, 3, 4, 4, 5, 3, 4, 4, 5, 4, 5, 5, 6, 2, 3, 3, 4, 3, 4, 4, 5, 3, 4, 4, 5, 4, 5, 5,
    6, 3, 4, 4, 5, 4, 5, 5, 6, 4, 5, 5, 6, 5, 6, 6, 7, 1, 2, 2, 3, 2, 3, 3, 4, 2, 3, 3, 4, 3, 4, 4, 5, 2, 3, 3, 4,
    3, 4, 4, 5, 3, 4, 4, 5, 4, 5, 5, 6, 2, 3, 3, 4, 3, 4, 4, 5, 3, 4, 4, 5, 4, 5, 5, 6, 3, 4, 4, 5, 4, 5, 5, 6, 4,
    5, 5, 6, 5, 6, 6, 7, 2, 3, 3, 4, 3, 4, 4, 5, 3, 4, 4, 5, 4, 5, 5, 6, 3, 4, 4, 5, 4, 5, 5, 6, 4, 5, 5, 6, 5, 6,
    6, 7, 3, 4, 4, 5, 4, 5, 5, 6, 4, 5, 5, 6, 5, 6, 6, 7, 4, 5, 5, 6, 5, 6, 6, 7, 5, 6, 6, 7, 6, 7, 7, 8]"

section \<open>Bits\<close>

definition byte_at :: "byte list \<Rightarrow> nat \<Rightarrow> byte option" where
  "byte_at bits k = (if k < length bits then Some (bits ! k) else None)"

definition set_byte :: "byte list \<Rightarrow> nat \<Rightarrow> byte \<Rightarrow> byte list option" where
  "set_byte bits k b = (if k < length bits then Some (bits[k := b]) else None)"

definition ArrowRoundUpToMultipleOf8 :: "nat \<Rightarrow> nat" where
  "ArrowRoundUpToMultipleOf8 n = (n + 7) div 8 * 8"

definition ArrowBytesForBits :: "nat \<Rightarrow> nat" where
  "ArrowBytesForBits n = n div 8 + (if n mod 8 \<noteq> 0 then 1 else 0)"

definition ArrowBitGet :: "byte list \<Rightarrow> nat \<Rightarrow> byte option" where
  "ArrowBitGet bits i = do { b \<leftarrow> byte_at bits (i div 8); Some (drop_bit (i mod 8) b AND 1) }"

definition ArrowBitSet :: "byte list \<Rightarrow> nat \<Rightarrow> byte list option" where
  "ArrowBitSet bits i =
     do { b \<leftarrow> byte_at bits (i div 8); set_byte bits (i div 8) (b OR kBitmask ! (i mod 8)) }"

definition ArrowBitClear :: "byte list \<Rightarrow> nat \<Rightarrow> byte list option" where
  "ArrowBitClear bits i =
     do { b \<leftarrow> byte_at bits (i div 8); set_byte bits (i div 8) (b AND kFlippedBitmask ! (i mod 8)) }"

definition ArrowBitSetTo :: "byte list \<Rightarrow> nat \<Rightarrow> byte \<Rightarrow> byte list option" where
  "ArrowBitSetTo bits i bit_is_set =
     do {
       b \<leftarrow> byte_at bits (i div 8);
       set_byte bits (i div 8)
         (b XOR (((- (if bit_is_set \<noteq> 0 then 1 else 0)) XOR b) AND kBitmask ! (i mod 8)))
     }"

text \<open>The two statements that keep the bits of a byte under a mask and fill the others.\<close>

definition mask_fill :: "byte list \<Rightarrow> nat \<Rightarrow> byte \<Rightarrow> byte \<Rightarrow> byte list option" where
  "mask_fill bits k keep fill_byte =
     do { b \<leftarrow> byte_at bits k; set_byte bits k ((b AND keep) OR (fill_byte AND NOT keep)) }"

definition ArrowBitsSetTo :: "byte list \<Rightarrow> nat \<Rightarrow> nat \<Rightarrow> byte \<Rightarrow> byte list option" where
  "ArrowBitsSetTo bits start_offset n bits_are_set =
     (if n = 0 then Some bits else
      let i_begin = start_offset;
          i_end = start_offset + n;
          fill_byte = - bits_are_set;
          bytes_begin = i_begin div 8;
          bytes_end = i_end div 8 + 1;
          first_byte_mask = kPrecedingBitmask ! (i_begin mod 8);
          last_byte_mask = kTrailingBitmask ! (i_end mod 8)
      in if bytes_end = bytes_begin + 1 then
           mask_fill bits bytes_begin
             (if i_end mod 8 = 0 then first_byte_mask else first_byte_mask OR last_byte_mask) fill_byte
         else do {
           bits \<leftarrow> mask_fill bits bytes_begin first_byte_mask fill_byte;
           bits \<leftarrow> (if bytes_end - bytes_begin > 2
             then store bits (bytes_begin + 1) (replicate (bytes_end - bytes_begin - 2) fill_byte)
             else Some bits);
           if i_end mod 8 = 0 then Some bits
           else mask_fill bits (bytes_end - 1) last_byte_mask fill_byte
         })"

definition popcount_of :: "byte \<Rightarrow> nat" where
  "popcount_of b = kBytePopcount ! unat b"

fun count_middle :: "byte list \<Rightarrow> nat \<Rightarrow> nat \<Rightarrow> nat option" where
  "count_middle bits k 0 = Some 0"
| "count_middle bits k (Suc n) =
     do { b \<leftarrow> byte_at bits k; rest \<leftarrow> count_middle bits (Suc k) n; Some (popcount_of b + rest) }"

definition ArrowBitCountSet :: "byte list \<Rightarrow> nat \<Rightarrow> nat \<Rightarrow> nat option" where
  "ArrowBitCountSet bits start_offset n =
     (if n = 0 then Some 0 else
      let i_begin = start_offset;
          i_end = start_offset + n;
          i_last_valid = i_end - 1;
          bytes_begin = i_begin div 8;
          bytes_last_valid = i_last_valid div 8
      in if bytes_begin = bytes_last_valid then
           (let first_byte_mask = kPrecedingBitmask ! (i_end mod 8);
                last_byte_mask = kTrailingBitmask ! (i_begin mod 8);
                only_byte_mask =
                  (if i_end mod 8 = 0 then last_byte_mask else first_byte_mask AND last_byte_mask)
            in do { b \<leftarrow> byte_at bits bytes_begin; Some (popcount_of (b AND only_byte_mask)) })
         else
           (let first_byte_mask = kPrecedingBitmask ! (i_begin mod 8);
                last_byte_mask = (if i_end mod 8 = 0 then 0 else kTrailingBitmask ! (i_end mod 8))
            in do {
              b0 \<leftarrow> byte_at bits bytes_begin;
              middle \<leftarrow> count_middle bits (bytes_begin + 1) (bytes_last_valid - (bytes_begin + 1));
              b1 \<leftarrow> byte_at bits bytes_last_valid;
              Some (popcount_of (b0 AND NOT first_byte_mask) + middle
                    + popcount_of (b1 AND NOT last_byte_mask))
            }))"

section \<open>What the masks select\<close>

text \<open>Bit \<open>i\<close> of a bitmap, and the order of bit positions by byte and bit.\<close>

definition bit_of :: "byte list \<Rightarrow> nat \<Rightarrow> bool" where
  "bit_of bits i = bit (bits ! (i div 8)) (i mod 8)"

lemma less_8_cases: "(j :: nat) < 8 \<Longrightarrow> j = 0 \<or> j = 1 \<or> j = 2 \<or> j = 3 \<or> j = 4 \<or> j = 5 \<or> j = 6 \<or> j = 7"
  by linarith

lemma bit_kBitmask: "p < 8 \<Longrightarrow> j < 8 \<Longrightarrow> bit (kBitmask ! p) j \<longleftrightarrow> j = p"
  by (drule less_8_cases [of p], drule less_8_cases [of j]) (elim disjE; simp add: kBitmask_def bit_numeral_word_iff)

lemma bit_kFlippedBitmask: "p < 8 \<Longrightarrow> j < 8 \<Longrightarrow> bit (kFlippedBitmask ! p) j \<longleftrightarrow> j \<noteq> p"
  by (drule less_8_cases [of p], drule less_8_cases [of j]) (elim disjE; simp add: kFlippedBitmask_def)

lemma bit_kPrecedingBitmask: "p < 8 \<Longrightarrow> j < 8 \<Longrightarrow> bit (kPrecedingBitmask ! p) j \<longleftrightarrow> j < p"
  by (drule less_8_cases [of p], drule less_8_cases [of j]) (elim disjE; simp add: kPrecedingBitmask_def)

lemma bit_kTrailingBitmask: "p < 8 \<Longrightarrow> j < 8 \<Longrightarrow> bit (kTrailingBitmask ! p) j \<longleftrightarrow> p \<le> j"
  by (drule less_8_cases [of p], drule less_8_cases [of j]) (elim disjE; simp add: kTrailingBitmask_def)

text \<open>The table of the numbers of set bits against a count by halving.\<close>

fun ones :: "nat \<Rightarrow> nat" where
  "ones n = (if n = 0 then 0 else n mod 2 + ones (n div 2))"

declare ones.simps [simp del]

lemma ones_simps:
  "ones 0 = 0" "ones (Suc 0) = 1" "ones 1 = 1"
  "ones (numeral (num.Bit0 k)) = ones (numeral k)"
  "ones (numeral (num.Bit1 k)) = Suc (ones (numeral k))"
  by (simp_all add: ones.simps [of "Suc 0"] ones.simps [of 0] ones.simps [of "numeral (num.Bit0 k)"]
      ones.simps [of "numeral (num.Bit1 k)"] numeral_Bit0_div_2 numeral_Bit1_div_2)

lemma ones_table: "map ones [0..<256] = kBytePopcount"
  unfolding kBytePopcount_def
  by (simp add: ones_simps upt_rec [of 0 256] upt_rec [of "Suc 0" 256] numeral_2_eq_2 [symmetric])

lemma ones_bits: "n < 2 ^ k \<Longrightarrow> ones n = length (filter (\<lambda>j. odd (n div 2 ^ j)) [0..<k])"
proof (induction k arbitrary: n)
  case 0
  then show ?case by (simp add: ones_simps)
next
  case (Suc k)
  have "filter (\<lambda>j. odd (n div 2 ^ j)) [0..<Suc k]
      = (if odd n then [0] else []) @ map Suc (filter (\<lambda>j. odd (n div 2 div 2 ^ j)) [0..<k])"
    by (simp add: upt_conv_Cons map_Suc_upt [symmetric] filter_map comp_def div_mult2_eq del: upt_Suc)
  moreover have "ones n = n mod 2 + ones (n div 2)"
    by (cases "n = 0") (simp_all add: ones_simps ones.simps [of n])
  ultimately show ?case
    using Suc.IH [of "n div 2"] Suc.prems by (auto simp: odd_iff_mod_2_eq_one)
qed

lemma popcount_of: "popcount_of b = length (filter (bit b) [0..<8])"
proof -
  have "unat b < 2 ^ 8" using unsigned_less [of b] by simp
  moreover from this have "popcount_of b = ones (unat b)"
    by (simp add: popcount_of_def ones_table [symmetric] del: upt_rec_numeral)
  ultimately show ?thesis
    by (simp only: ones_bits bit_iff_odd [symmetric] bit_unsigned_iff) (auto intro!: arg_cong [where f = length] filter_cong simp: bit_imp_le_length)
qed

section \<open>One bit\<close>

lemma bit_of_update:
  "k < length bits \<Longrightarrow> i < 8 * length bits
    \<Longrightarrow> bit_of (bits[k := b]) i = (if i div 8 = k then bit b (i mod 8) else bit_of bits i)"
  by (auto simp: bit_of_def nth_list_update)

lemma bit_get: "i < 8 * length bits \<Longrightarrow> ArrowBitGet bits i = Some (of_bool (bit_of bits i))"
  by (auto simp: ArrowBitGet_def byte_at_def bit_of_def and_one_eq bit_iff_odd_drop_bit mod_2_eq_odd)

lemma bit_set_to:
  assumes "i < 8 * length bits"
  shows "\<exists>bits'. ArrowBitSetTo bits i v = Some bits' \<and> length bits' = length bits
    \<and> (\<forall>j < 8 * length bits. bit_of bits' j = (if j = i then v \<noteq> 0 else bit_of bits j))"
proof -
  let ?w = "bits ! (i div 8) XOR (((- (if v \<noteq> 0 then 1 else 0)) XOR bits ! (i div 8)) AND kBitmask ! (i mod 8))"
  have k: "i div 8 < length bits" using assms by auto
  have "bit_of (bits[i div 8 := ?w]) j = (if j = i then v \<noteq> 0 else bit_of bits j)"
    if "j < 8 * length bits" for j
  proof -
    have "j = i \<longleftrightarrow> j div 8 = i div 8 \<and> j mod 8 = i mod 8"
      by (metis mult_div_mod_eq)
    then show ?thesis
      using that k by (auto simp: bit_of_def nth_list_update bit_xor_iff bit_and_iff bit_not_iff bit_kBitmask)
  qed
  then show ?thesis using k by (simp add: ArrowBitSetTo_def byte_at_def set_byte_def del: word_neg_numeral_alt)
qed

section \<open>Runs of bits\<close>

lemma mask_fill:
  assumes "k < length bits"
  shows "\<exists>bits'. mask_fill bits k keep fill_byte = Some bits' \<and> length bits' = length bits
    \<and> (\<forall>i < 8 * length bits. bit_of bits' i =
         (if i div 8 = k \<and> \<not> bit keep (i mod 8) then bit fill_byte (i mod 8) else bit_of bits i))"
  using assms
  by (auto simp: mask_fill_def byte_at_def set_byte_def bit_of_def nth_list_update bit_or_iff bit_and_iff
      bit_not_iff)

lemma store_fill:
  assumes "k + n \<le> length bits"
  shows "\<exists>bits'. store bits k (replicate n fill_byte) = Some bits' \<and> length bits' = length bits
    \<and> (\<forall>i < 8 * length bits. bit_of bits' i =
         (if k \<le> i div 8 \<and> i div 8 < k + n then bit fill_byte (i mod 8) else bit_of bits i))"
  using assms by (auto simp: store_def bit_of_def nth_append)

lemma byte_order: "s \<le> i \<longleftrightarrow> s div 8 < i div 8 \<or> s div 8 = i div 8 \<and> s mod 8 \<le> i mod 8"
  for s i :: nat
proof -
  have "8 * a + p \<le> 8 * c + r \<longleftrightarrow> a < c \<or> a = c \<and> p \<le> r" if "p < 8" "r < 8" for a p c r :: nat
    using that by auto
  from this [of "s mod 8" "i mod 8" "s div 8" "i div 8"] show ?thesis by simp
qed

lemma byte_order_less: "i < e \<longleftrightarrow> i div 8 < e div 8 \<or> i div 8 = e div 8 \<and> i mod 8 < e mod 8"
  for i e :: nat
proof -
  have "8 * a + p < 8 * c + r \<longleftrightarrow> a < c \<or> a = c \<and> p < r" if "p < 8" "r < 8" for a p c r :: nat
    using that by auto
  from this [of "i mod 8" "e mod 8" "i div 8" "e div 8"] show ?thesis by simp
qed

lemma byte_end:
  fixes e n :: nat
  assumes "e \<le> 8 * n"
  shows "e div 8 \<le> n" and "e mod 8 \<noteq> 0 \<Longrightarrow> e div 8 < n"
proof -
  have "e div 8 \<le> 8 * n div 8" using assms by (rule div_le_mono)
  then show le: "e div 8 \<le> n" by simp
  show "e div 8 < n" if "e mod 8 \<noteq> 0"
  proof (rule ccontr)
    assume "\<not> e div 8 < n"
    then have "e = 8 * n + e mod 8" using le by (metis le_neq_implies_less mult_div_mod_eq)
    with assms that show False by linarith
  qed
qed

text \<open>
  Setting a run of bits: \<open>run_set bits bits' P v\<close> says that \<open>bits'\<close> is \<open>bits\<close> with the positions that
  satisfy P set to v.  A run is from bit p of byte a to before bit q of byte b.
\<close>

definition run_set :: "byte list \<Rightarrow> byte list \<Rightarrow> (nat \<Rightarrow> bool) \<Rightarrow> byte \<Rightarrow> bool" where
  "run_set bits bits' P v \<longleftrightarrow> length bits' = length bits \<and>
    (\<forall>i < 8 * length bits. bit_of bits' i = (if P i then v = 1 else bit_of bits i))"

definition in_run :: "nat \<Rightarrow> nat \<Rightarrow> nat \<Rightarrow> nat \<Rightarrow> nat \<Rightarrow> bool" where
  "in_run a p b q i \<longleftrightarrow> (a < i div 8 \<or> a = i div 8 \<and> p \<le> i mod 8)
      \<and> (i div 8 < b \<or> i div 8 = b \<and> i mod 8 < q)"

lemma run_setI:
  assumes "length bits' = length bits"
    "\<And>i k j. i < 8 * length bits \<Longrightarrow> k = i div 8 \<Longrightarrow> j = i mod 8 \<Longrightarrow> j < 8
      \<Longrightarrow> bit_of bits' i = (if P i then v = 1 else bit_of bits i)"
  shows "run_set bits bits' P v"
  using assms by (simp add: run_set_def)

lemma fill_bit: "v = 0 \<or> v = 1 \<Longrightarrow> j < 8 \<Longrightarrow> bit (- v :: byte) j \<longleftrightarrow> v = 1"
  by auto

lemma fill_single:
  assumes "p < q" "q < 8" "b < length bits" "v = 0 \<or> v = 1"
  shows "\<exists>bits'. mask_fill bits b (kPrecedingBitmask ! p OR kTrailingBitmask ! q) (- v) = Some bits'
    \<and> run_set bits bits' (in_run b p b q) v"
proof -
  obtain bits' where m: "mask_fill bits b (kPrecedingBitmask ! p OR kTrailingBitmask ! q) (- v) = Some bits'"
      "length bits' = length bits"
      "\<And>i. i < 8 * length bits \<Longrightarrow> bit_of bits' i = (if i div 8 = b
         \<and> \<not> bit (kPrecedingBitmask ! p OR kTrailingBitmask ! q) (i mod 8)
         then bit (- v) (i mod 8) else bit_of bits i)"
    using mask_fill [OF assms(3)] by blast
  have "run_set bits bits' (in_run b p b q) v"
  proof (rule run_setI [OF m(2)])
    fix i k j assume "i < 8 * length bits" and kj: "k = i div 8" "j = i mod 8" "j < 8"
    then show "bit_of bits' i = (if in_run b p b q i then v = 1 else bit_of bits i)"
      using m(3) [of i] assms unfolding in_run_def kj(1,2) [symmetric]
      by (auto simp: bit_or_iff bit_kPrecedingBitmask bit_kTrailingBitmask fill_bit)
  qed
  with m(1) show ?thesis by blast
qed

lemma fill_first_middle:
  assumes "p < 8" "a < b" "b \<le> length bits" "v = 0 \<or> v = 1"
  shows "\<exists>bits1 bits2. mask_fill bits a (kPrecedingBitmask ! p) (- v) = Some bits1
    \<and> (if b + 1 - a > 2 then store bits1 (a + 1) (replicate (b + 1 - a - 2) (- v)) else Some bits1) = Some bits2
    \<and> run_set bits bits2 (in_run a p b 0) v"
proof -
  have "a < length bits" using assms by simp
  from mask_fill [OF this] obtain bits1 where m1:
      "mask_fill bits a (kPrecedingBitmask ! p) (- v) = Some bits1" "length bits1 = length bits"
      "\<And>i. i < 8 * length bits \<Longrightarrow> bit_of bits1 i = (if i div 8 = a
         \<and> \<not> bit (kPrecedingBitmask ! p) (i mod 8) then bit (- v) (i mod 8) else bit_of bits i)"
    by blast
  obtain bits2 where m2: "(if b + 1 - a > 2 then store bits1 (a + 1) (replicate (b + 1 - a - 2) (- v))
        else Some bits1) = Some bits2" "length bits2 = length bits"
      "\<And>i. i < 8 * length bits \<Longrightarrow> bit_of bits2 i = (if a < i div 8 \<and> i div 8 < b
         then bit (- v) (i mod 8) else bit_of bits1 i)"
  proof (cases "b + 1 - a > 2")
    case True
    then show thesis
      using store_fill [of "a + 1" "b + 1 - a - 2" bits1 "- v"] assms(3) m1(2) that by (auto simp: Suc_le_eq)
  next
    case False
    then have "\<not> (a < k \<and> k < b)" for k by auto
    then show thesis using False m1(2) by (intro that [of bits1]) (simp_all del: de_Morgan_conj)
  qed
  have "run_set bits bits2 (in_run a p b 0) v"
  proof (rule run_setI [OF m2(2)])
    fix i k j assume "i < 8 * length bits" and kj: "k = i div 8" "j = i mod 8" "j < 8"
    then show "bit_of bits2 i = (if in_run a p b 0 i then v = 1 else bit_of bits i)"
      using m1(3) [of i] m2(3) [of i] assms unfolding in_run_def kj(1,2) [symmetric]
      by (auto simp: bit_kPrecedingBitmask fill_bit)
  qed
  with m1(1) m2(1) show ?thesis by blast
qed

lemma fill_last:
  assumes "run_set bits bits2 (in_run a p b 0) v" "a < b" "b < length bits" "q < 8" "v = 0 \<or> v = 1"
  shows "\<exists>bits3. mask_fill bits2 b (kTrailingBitmask ! q) (- v) = Some bits3
    \<and> run_set bits bits3 (in_run a p b q) v"
proof -
  note m2 = assms(1) [unfolded run_set_def]
  have "b < length bits2" using m2 assms(3) by simp
  from mask_fill [OF this, of "kTrailingBitmask ! q" "- v", unfolded m2 [THEN conjunct1]]
  obtain bits3 where m3:
      "mask_fill bits2 b (kTrailingBitmask ! q) (- v) = Some bits3" "length bits3 = length bits"
      "\<And>i. i < 8 * length bits \<Longrightarrow> bit_of bits3 i = (if i div 8 = b
         \<and> \<not> bit (kTrailingBitmask ! q) (i mod 8) then bit (- v) (i mod 8) else bit_of bits2 i)"
    by blast
  have "run_set bits bits3 (in_run a p b q) v"
  proof (rule run_setI [OF m3(2)])
    fix i k j assume i: "i < 8 * length bits" and kj: "k = i div 8" "j = i mod 8" "j < 8"
    then show "bit_of bits3 i = (if in_run a p b q i then v = 1 else bit_of bits i)"
      using m3(3) [OF i] m2 [THEN conjunct2, rule_format, OF i] assms unfolding in_run_def kj(1,2) [symmetric]
      by (auto simp: bit_kTrailingBitmask fill_bit)
  qed
  with m3(1) show ?thesis by blast
qed

lemma bits_set_to:
  assumes "start + n \<le> 8 * length bits" "v = 0 \<or> v = 1"
  shows "\<exists>bits'. ArrowBitsSetTo bits start n v = Some bits'
    \<and> run_set bits bits' (\<lambda>i. start \<le> i \<and> i < start + n) v"
proof (cases "n = 0")
  case True
  then show ?thesis by (auto simp: ArrowBitsSetTo_def run_set_def)
next
  case False
  define a p b q where "a = start div 8" and "p = start mod 8"
    and "b = (start + n) div 8" and "q = (start + n) mod 8"
  note defs = a_def [symmetric] p_def [symmetric] b_def [symmetric] q_def [symmetric]
  have range: "(\<lambda>i. start \<le> i \<and> i < start + n) = in_run a p b q"
    by (rule ext) (simp only: in_run_def byte_order [of start] byte_order_less [of _ "start + n"] defs)
  have pq: "p < 8" "q < 8" by (auto simp: p_def q_def)
  have ab: "a < b \<or> a = b \<and> p < q"
    using byte_order_less [of start "start + n"] False by (simp add: defs)
  have bL: "b \<le> length bits" "q \<noteq> 0 \<Longrightarrow> b < length bits"
    using byte_end [OF assms(1)] by (auto simp: defs)
  show ?thesis
  proof (cases "a = b")
    case True
    with ab bL pq fill_single [of p q b bits v] False assms(2) show ?thesis
      unfolding range by (auto simp: ArrowBitsSetTo_def Let_def defs)
  next
    case neq: False
    with ab have ab': "a < b" by simp
    from fill_first_middle [OF pq(1) ab' bL(1) assms(2)] obtain bits1 bits2 where
      m: "mask_fill bits a (kPrecedingBitmask ! p) (- v) = Some bits1"
        "(if b + 1 - a > 2 then store bits1 (a + 1) (replicate (b + 1 - a - 2) (- v)) else Some bits1) = Some bits2"
      and run: "run_set bits bits2 (in_run a p b 0) v" by blast
    show ?thesis
    proof (cases "q = 0")
      case True
      then show ?thesis
        using m run False neq unfolding range
        by (cases "b + 1 - a > 2") (simp_all add: ArrowBitsSetTo_def Let_def defs)
    next
      case q: False
      with fill_last [OF run ab' bL(2) pq(2) assms(2)] m False neq show ?thesis
        unfolding range by (auto simp: ArrowBitsSetTo_def Let_def defs)
    qed
  qed
qed

section \<open>Counting\<close>

definition bit_count :: "byte list \<Rightarrow> nat \<Rightarrow> nat \<Rightarrow> nat" where
  "bit_count bits s e = length (filter (bit_of bits) [s..<e])"

lemma bit_count_split: "s \<le> m \<Longrightarrow> m \<le> e \<Longrightarrow> bit_count bits s e = bit_count bits s m + bit_count bits m e"
  unfolding bit_count_def
  by (metis filter_append le_iff_add length_append upt_add_eq_append)

lemma popcount_byte:
  assumes "p \<le> q" "q \<le> 8" "\<And>j. j < 8 \<Longrightarrow> bit keep j \<longleftrightarrow> p \<le> j \<and> j < q"
  shows "popcount_of (bits ! k AND keep) = bit_count bits (8 * k + p) (8 * k + q)"
proof -
  let ?J = "{j. bit (bits ! k AND keep) j} \<inter> set [0..<8]"
  have "bit_count bits (8 * k + p) (8 * k + q) = card ({i. bit_of bits i} \<inter> set [8 * k + p..<8 * k + q])"
    unfolding bit_count_def by (rule distinct_length_filter) simp
  also have "{i. bit_of bits i} \<inter> set [8 * k + p..<8 * k + q] = (+) (8 * k) ` ?J"
  proof (intro equalityI subsetI)
    fix i assume i: "i \<in> {i. bit_of bits i} \<inter> set [8 * k + p..<8 * k + q]"
    then obtain j where j: "i = 8 * k + j" "p \<le> j" "j < q"
      by (metis IntD2 add_le_cancel_left add_less_cancel_left atLeastLessThan_iff le_Suc_ex le_add1 le_trans set_upt)
    then have "bit (bits ! k) j" using i assms(2) by (simp add: bit_of_def)
    with j assms show "i \<in> (+) (8 * k) ` ?J" by (auto simp: bit_and_iff)
  next
    fix i assume "i \<in> (+) (8 * k) ` ?J"
    with assms show "i \<in> {i. bit_of bits i} \<inter> set [8 * k + p..<8 * k + q]"
      by (auto simp: bit_and_iff bit_of_def)
  qed
  also have "card \<dots> = card ?J" by (simp add: card_image)
  also have "card ?J = popcount_of (bits ! k AND keep)"
    unfolding popcount_of by (rule distinct_length_filter [symmetric]) simp
  finally show ?thesis by simp
qed

lemma count_middle:
  "k + n \<le> length bits \<Longrightarrow> count_middle bits k n = Some (bit_count bits (8 * k) (8 * (k + n)))"
proof (induction n arbitrary: k)
  case (Suc n)
  have "popcount_of (bits ! k) = bit_count bits (8 * k) (8 * k + 8)"
    using popcount_byte [of 0 8 "- 1" bits k] by simp
  then show ?case
    using Suc bit_count_split [of "8 * k" "8 * k + 8" "8 * (k + Suc n)"]
    by (simp add: byte_at_def ac_simps)
qed (simp add: bit_count_def)

lemma bit_count_set:
  assumes "start + n \<le> 8 * length bits"
  shows "ArrowBitCountSet bits start n = Some (bit_count bits start (start + n))"
proof (cases "n = 0")
  case True
  then show ?thesis by (simp add: ArrowBitCountSet_def bit_count_def)
next
  case False
  define e where "e = start + n"
  define a p b r where "a = start div 8" and "p = start mod 8" and "b = (e - Suc 0) div 8" and "r = (e - Suc 0) mod 8"
  have e8: "e = 8 * b + Suc r" and s8: "start = 8 * a + p" and pr: "p < 8" "r < 8"
    using False by (auto simp: e_def a_def p_def b_def r_def)
  have ab: "a < b \<or> a = b \<and> p \<le> r"
    using byte_order [of start "e - Suc 0"] False unfolding a_def p_def b_def r_def e_def by linarith
  have bL: "b < length bits" using assms e8 by (simp add: e_def)
  have q: "e mod 8 = (if r = 7 then 0 else Suc r)"
    using e8 pr(2) by (auto simp: mod_Suc)
  show ?thesis
  proof (cases "a = b")
    case True
    let ?keep = "if e mod 8 = 0 then kTrailingBitmask ! p else kPrecedingBitmask ! (e mod 8) AND kTrailingBitmask ! p"
    have "bit ?keep j \<longleftrightarrow> p \<le> j \<and> j < Suc r" if "j < 8" for j
      using that pr q by (auto simp: bit_and_iff bit_kPrecedingBitmask bit_kTrailingBitmask)
    then have "popcount_of (bits ! b AND ?keep) = bit_count bits start e"
      using popcount_byte [of p "Suc r" ?keep bits b] True ab pr e8 s8 by simp
    then show ?thesis
      using False True bL
      by (cases "e mod 8 = 0") (simp_all add: ArrowBitCountSet_def Let_def byte_at_def e_def [symmetric]
          a_def [symmetric] b_def [symmetric] p_def [symmetric])
  next
    case neq: False
    with ab have ab': "a < b" by simp
    let ?last = "if e mod 8 = 0 then 0 else kTrailingBitmask ! (e mod 8)"
    have "bit (NOT (kPrecedingBitmask ! p)) j \<longleftrightarrow> p \<le> j \<and> j < 8" if "j < 8" for j
      using that pr by (auto simp: bit_not_iff bit_kPrecedingBitmask)
    then have f: "popcount_of (bits ! a AND NOT (kPrecedingBitmask ! p)) = bit_count bits start (8 * (a + 1))"
      using popcount_byte [of p 8 "NOT (kPrecedingBitmask ! p)" bits a] pr s8 by (simp add: add.commute)
    have m: "count_middle bits (a + 1) (b - (a + 1)) = Some (bit_count bits (8 * (a + 1)) (8 * b))"
      using count_middle [of "a + 1" "b - (a + 1)" bits] ab' bL by simp
    have "bit (NOT ?last) j \<longleftrightarrow> 0 \<le> j \<and> j < Suc r" if "j < 8" for j
      using that pr q by (auto simp: bit_not_iff bit_kTrailingBitmask)
    then have l: "popcount_of (bits ! b AND NOT ?last) = bit_count bits (8 * b) e"
      using popcount_byte [of 0 "Suc r" "NOT ?last" bits b] pr e8 by simp
    have "bit_count bits start e = bit_count bits start (8 * (a + 1)) + bit_count bits (8 * (a + 1)) (8 * b)
        + bit_count bits (8 * b) e"
      using bit_count_split [of start "8 * (a + 1)" e bits] bit_count_split [of "8 * (a + 1)" "8 * b" e bits]
        ab' e8 s8 pr by simp
    then show ?thesis
      using False neq ab' bL f m l
      by (simp add: ArrowBitCountSet_def Let_def byte_at_def e_def [symmetric] a_def [symmetric] b_def [symmetric]
          p_def [symmetric])
  qed
qed

section \<open>Bitmaps\<close>

record arrow_bitmap =
  bm_buffer :: arrow_buffer
  bm_size :: nat

definition ArrowBitmapInit :: arrow_bitmap where
  "ArrowBitmapInit = \<lparr>bm_buffer = ArrowBufferInit, bm_size = 0\<rparr>"

definition ArrowBitmapMove :: "arrow_bitmap \<Rightarrow> arrow_bitmap \<times> arrow_bitmap" where
  "ArrowBitmapMove src =
     (let (src_buffer, dst_buffer) = ArrowBufferMove (bm_buffer src) in
      (\<lparr>bm_buffer = src_buffer, bm_size = 0\<rparr>, \<lparr>bm_buffer = dst_buffer, bm_size = bm_size src\<rparr>))"

definition ArrowBitmapReset :: "arrow_bitmap \<Rightarrow> arrow_bitmap" where
  "ArrowBitmapReset bm = \<lparr>bm_buffer = ArrowBufferReset (bm_buffer bm), bm_size = 0\<rparr>"

definition ArrowBitmapReserve :: "reallocate \<Rightarrow> arrow_bitmap \<Rightarrow> nat \<Rightarrow> arrow_bitmap nano" where
  "ArrowBitmapReserve re bm additional_size_bits =
     (let min_capacity_bits = bm_size bm + additional_size_bits;
          min_capacity_bytes = int (ArrowBytesForBits min_capacity_bits);
          current_size_bytes = ab_size (bm_buffer bm);
          current_capacity_bytes = ab_capacity (bm_buffer bm)
      in if min_capacity_bytes \<le> current_capacity_bytes then Some (NANOARROW_OK, bm)
         else (case ArrowBufferReserve re (bm_buffer bm) (min_capacity_bytes - current_size_bytes) of (e, buffer) \<Rightarrow>
           if e \<noteq> NANOARROW_OK then Some (e, bm\<lparr>bm_buffer := buffer\<rparr>)
           else do {
             d \<leftarrow> ab_data buffer;
             d' \<leftarrow> set_byte d (nat (ab_capacity buffer - 1)) 0;
             Some (NANOARROW_OK, bm\<lparr>bm_buffer := buffer\<lparr>ab_data := Some d'\<rparr>\<rparr>)
           }))"

definition ArrowBitmapResize ::
  "reallocate \<Rightarrow> arrow_bitmap \<Rightarrow> int \<Rightarrow> bool \<Rightarrow> errno \<times> arrow_bitmap" where
  "ArrowBitmapResize re bm new_size_bits shrink_to_fit =
     (if new_size_bits < 0 then (EINVAL, bm)
      else (case ArrowBufferResize re (bm_buffer bm) (int (ArrowBytesForBits (nat new_size_bits))) shrink_to_fit of
        (e, buffer) \<Rightarrow>
          if e \<noteq> NANOARROW_OK then (e, bm\<lparr>bm_buffer := buffer\<rparr>)
          else (NANOARROW_OK, \<lparr>bm_buffer = buffer, bm_size = nat new_size_bits\<rparr>)))"

text \<open>Setting no bits touches no memory, so the pointer may then be null.\<close>

definition ArrowBitmapAppendUnsafe :: "arrow_bitmap \<Rightarrow> byte \<Rightarrow> nat \<Rightarrow> arrow_bitmap option" where
  "ArrowBitmapAppendUnsafe bm bits_are_set n =
     do {
       data \<leftarrow> (if n = 0 then Some (ab_data (bm_buffer bm))
                else do { d \<leftarrow> ab_data (bm_buffer bm); d' \<leftarrow> ArrowBitsSetTo d (bm_size bm) n bits_are_set;
                          Some (Some d') });
       Some \<lparr>bm_buffer = (bm_buffer bm)\<lparr>ab_data := data, ab_size := int (ArrowBytesForBits (bm_size bm + n))\<rparr>,
             bm_size = bm_size bm + n\<rparr>
     }"

definition ArrowBitmapAppend :: "reallocate \<Rightarrow> arrow_bitmap \<Rightarrow> byte \<Rightarrow> nat \<Rightarrow> arrow_bitmap nano" where
  "ArrowBitmapAppend re bm bits_are_set n =
     nano_then (ArrowBitmapReserve re bm n)
       (\<lambda>bm. map_option (Pair NANOARROW_OK) (ArrowBitmapAppendUnsafe bm bits_are_set n))"

text \<open>The invariant of a bitmap and the booleans it holds.\<close>

definition bm_wf :: "arrow_bitmap \<Rightarrow> bool" where
  "bm_wf bm \<longleftrightarrow> ab_wf (bm_buffer bm) \<and> ab_size (bm_buffer bm) = int (ArrowBytesForBits (bm_size bm))"

definition bm_bits :: "arrow_bitmap \<Rightarrow> bool list" where
  "bm_bits bm = map (bit_of (ab_bytes (bm_buffer bm))) [0..<bm_size bm]"

lemma bytes_for_bits: "n \<le> 8 * ArrowBytesForBits n"
  by (auto simp: ArrowBytesForBits_def)

lemma bytes_for_bits_eq: "ArrowBytesForBits n = (n + 7) div 8"
  unfolding ArrowBytesForBits_def by presburger

lemma bytes_for_bits_split: "t < 8 \<Longrightarrow> ArrowBytesForBits (8 * k + t) = k + (if t = 0 then 0 else 1)"
  by (simp add: ArrowBytesForBits_def)

lemma bytes_for_bits_mono: "n \<le> m \<Longrightarrow> ArrowBytesForBits n \<le> ArrowBytesForBits m"
  by (simp add: bytes_for_bits_eq div_le_mono)

lemma bit_of_take: "i < 8 * n \<Longrightarrow> bit_of (take n d) i = bit_of d i"
  by (simp add: bit_of_def)

lemma bm_bits_block:
  assumes "bm_wf bm"
  shows "bm_bits bm = map (bit_of (ab_block (bm_buffer bm))) [0..<bm_size bm]"
  using assms bytes_for_bits [of "bm_size bm"]
  by (auto simp: bm_bits_def bm_wf_def ab_bytes_def bit_of_take)

lemma bm_wf_Init [simp]: "bm_wf ArrowBitmapInit" and bm_bits_Init [simp]: "bm_bits ArrowBitmapInit = []"
  by (simp_all add: bm_wf_def bm_bits_def ArrowBitmapInit_def ArrowBufferInit_def ab_wf_def ab_block_def
      ArrowBytesForBits_def)

text \<open>The bits before a position.\<close>

definition bits_upto :: "byte list \<Rightarrow> nat \<Rightarrow> bool list" where
  "bits_upto d m = map (bit_of d) [0..<m]"

lemma run_set_upto:
  assumes "run_set d d' (\<lambda>i. m \<le> i \<and> i < m + n) v" "m + n \<le> 8 * length d"
  shows "bits_upto d' (m + n) = bits_upto d m @ replicate n (v = 1)"
proof -
  have "map (bit_of d') [0..<m] = map (bit_of d) [0..<m]"
    using assms by (intro map_cong) (auto simp: run_set_def)
  moreover have "map (bit_of d') [m..<m + n] = map (\<lambda>_. v = 1) [m..<m + n]"
    using assms by (intro map_cong) (auto simp: run_set_def)
  ultimately show ?thesis
    by (simp only: bits_upto_def upt_add_eq_append [OF le0] map_append map_replicate_const length_upt
        diff_add_inverse)
qed

text \<open>Appending to memory that was reserved.\<close>

lemma bitmap_append_unsafe:
  assumes "bm_wf bm" "int (ArrowBytesForBits (bm_size bm + n)) \<le> ab_capacity (bm_buffer bm)" "v = 0 \<or> v = 1"
  shows "\<exists>bm'. ArrowBitmapAppendUnsafe bm v n = Some bm' \<and> bm_wf bm'
    \<and> bm_bits bm' = bm_bits bm @ replicate n (v = 1)"
proof (cases "n = 0")
  case True
  with assms(1) show ?thesis
    by (auto simp: ArrowBitmapAppendUnsafe_def bm_wf_def ab_wf_def ab_block_def bm_bits_def ab_bytes_def)
next
  case False
  let ?m = "bm_size bm" and ?B = "bm_buffer bm"
  have pos: "0 < ArrowBytesForBits (?m + n)" using bytes_for_bits [of "?m + n"] False by linarith
  with assms(1,2) obtain d where d: "ab_data ?B = Some d" "int (length d) = ab_capacity ?B"
    by (cases "ab_data ?B") (auto simp: bm_wf_def ab_wf_def ab_block_def)
  have fit: "?m + n \<le> 8 * length d"
    using bytes_for_bits [of "?m + n"] assms(2) d(2) by linarith
  from bits_set_to [OF fit assms(3)] obtain d' where
    d': "ArrowBitsSetTo d ?m n v = Some d'" "run_set d d' (\<lambda>i. ?m \<le> i \<and> i < ?m + n) v" by blast
  let ?bm = "\<lparr>bm_buffer = ?B\<lparr>ab_data := Some d', ab_size := int (ArrowBytesForBits (?m + n))\<rparr>, bm_size = ?m + n\<rparr>"
  have "ArrowBitmapAppendUnsafe bm v n = Some ?bm"
    using False d d'(1) by (simp add: ArrowBitmapAppendUnsafe_def)
  moreover have wf: "bm_wf ?bm"
    using assms(2) d d'(2) by (simp add: bm_wf_def ab_wf_def ab_block_def run_set_def)
  moreover have "bm_bits ?bm = bm_bits bm @ replicate n (v = 1)"
    unfolding bm_bits_block [OF wf] bm_bits_block [OF assms(1)]
    using run_set_upto [OF d'(2) fit] d(1) by (simp add: ab_block_def bits_upto_def)
  ultimately show ?thesis by blast
qed

context byte_allocator begin

text \<open>Reserving keeps the bits: the byte it clears lies behind them.\<close>

lemma bitmap_reserve:
  assumes "bm_wf bm"
  shows "\<exists>e bm'. ArrowBitmapReserve reallocate bm n = Some (e, bm')
    \<and> (e = NANOARROW_OK \<and> bm_wf bm' \<and> bm_bits bm' = bm_bits bm \<and> bm_size bm' = bm_size bm
         \<and> int (ArrowBytesForBits (bm_size bm + n)) \<le> ab_capacity (bm_buffer bm')
       \<or> e = ENOMEM)"
proof (cases "int (ArrowBytesForBits (bm_size bm + n)) \<le> ab_capacity (bm_buffer bm)")
  case True
  with assms show ?thesis by (simp add: ArrowBitmapReserve_def Let_def)
next
  case False
  let ?B = "bm_buffer bm" and ?need = "int (ArrowBytesForBits (bm_size bm + n))"
  have wf: "ab_wf ?B" using assms by (simp add: bm_wf_def)
  obtain e B where r: "ArrowBufferReserve reallocate ?B (?need - ab_size ?B) = (e, B)" by force
  have "0 \<le> ?need - ab_size ?B" using False wf by (simp add: ab_wf_def)
  note R = reserve [OF wf this r]
  show ?thesis
  proof (cases "e = NANOARROW_OK")
    case True
    with R have B: "ab_wf B" "ab_bytes B = ab_bytes ?B" "ab_size B = ab_size ?B" "?need \<le> ab_capacity B" by auto
    then obtain d where d: "ab_data B = Some d" "int (length d) = ab_capacity B"
      using False wf by (cases "ab_data B") (auto simp: ab_wf_def ab_block_def)
    let ?k = "nat (ab_capacity B - 1)" and ?bm = "\<lambda>d. bm\<lparr>bm_buffer := B\<lparr>ab_data := Some d\<rparr>\<rparr>"
    have k: "?k < length d" "nat (ab_size B) \<le> ?k"
      using False wf B d by (auto simp: ab_wf_def)
    have "ArrowBitmapReserve reallocate bm n = Some (NANOARROW_OK, ?bm (d[?k := 0]))"
      using False r True d k(1) by (simp add: ArrowBitmapReserve_def Let_def set_byte_def)
    moreover have "bm_wf (?bm (d[?k := 0]))"
      using assms B d by (simp add: bm_wf_def ab_wf_def ab_block_def)
    moreover have "bm_bits (?bm (d[?k := 0])) = bm_bits bm"
      using B(2) d k by (simp add: bm_bits_def ab_bytes_def ab_block_def)
    ultimately show ?thesis using B(4) by auto
  next
    case False
    with R show ?thesis using \<open>\<not> ?need \<le> _\<close> r by (auto simp: ArrowBitmapReserve_def Let_def)
  qed
qed

lemma bitmap_append:
  assumes "bm_wf bm" "v = 0 \<or> v = 1"
  shows "\<exists>e bm'. ArrowBitmapAppend reallocate bm v n = Some (e, bm')
    \<and> (e = NANOARROW_OK \<and> bm_wf bm' \<and> bm_bits bm' = bm_bits bm @ replicate n (v = 1) \<or> e = ENOMEM)"
proof -
  from bitmap_reserve [OF assms(1), of n] obtain e b1 where
    r: "ArrowBitmapReserve reallocate bm n = Some (e, b1)"
      "e = NANOARROW_OK \<and> bm_wf b1 \<and> bm_bits b1 = bm_bits bm \<and> bm_size b1 = bm_size bm
        \<and> int (ArrowBytesForBits (bm_size bm + n)) \<le> ab_capacity (bm_buffer b1) \<or> e = ENOMEM" by blast
  then show ?thesis
    using bitmap_append_unsafe [of b1 n v] assms(2) by (auto simp: ArrowBitmapAppend_def)
qed

end

section \<open>Appending booleans from bytes\<close>

text \<open>
  The values are a list of the memory they are read from, each reduced to its low byte, to which the
  results are reduced too; \<open>n_values\<close> is the number the caller states.
\<close>

definition ArrowBitmapPackInt8 :: "byte list \<Rightarrow> byte" where
  "ArrowBitmapPackInt8 values =
     (values ! 0 OR ((values ! 1 + 0x1) AND 0x2) OR ((values ! 2 + 0x3) AND 0x4)
      OR ((values ! 3 + 0x7) AND 0x8) OR ((values ! 4 + 0xf) AND 0x10) OR ((values ! 5 + 0x1f) AND 0x20)
      OR ((values ! 6 + 0x3f) AND 0x40) OR ((values ! 7 + 0x7f) AND 0x80))"

fun set_bits :: "byte list \<Rightarrow> nat \<Rightarrow> byte list \<Rightarrow> nat \<Rightarrow> byte list option" where
  "set_bits bits i values 0 = Some bits"
| "set_bits bits i [] (Suc k) = None"
| "set_bits bits i (v # values) (Suc k) =
     do { bits \<leftarrow> ArrowBitSetTo bits i v; set_bits bits (Suc i) values k }"

fun pack_full :: "byte list \<Rightarrow> nat \<Rightarrow> byte list \<Rightarrow> nat \<Rightarrow> byte list option" where
  "pack_full bits out_cursor values 0 = Some bits"
| "pack_full bits out_cursor values (Suc n) =
     (if length values < 8 then None
      else do {
        bits \<leftarrow> set_byte bits out_cursor (ArrowBitmapPackInt8 values);
        pack_full bits (Suc out_cursor) (drop 8 values) n
      })"

definition ArrowBitmapAppendInt8Unsafe :: "arrow_bitmap \<Rightarrow> byte list \<Rightarrow> nat \<Rightarrow> arrow_bitmap option" where
  "ArrowBitmapAppendInt8Unsafe bm values n_values =
     (if n_values = 0 then Some bm
      else do {
        d0 \<leftarrow> ab_data (bm_buffer bm);
        let out_i_cursor = bm_size bm;
        let out_cursor = bm_size bm div 8;
        let n_partial_bits =
          (if out_i_cursor mod 8 \<noteq> 0 then ArrowRoundUpToMultipleOf8 out_i_cursor - out_i_cursor else 0);
        d1 \<leftarrow> set_bits d0 out_i_cursor values n_partial_bits;
        let out_i_cursor = out_i_cursor + n_partial_bits;
        let out_cursor = (if bm_size bm mod 8 \<noteq> 0 then out_cursor + 1 else out_cursor);
        let values = drop n_partial_bits values;
        let n_remaining = int n_values - int n_partial_bits;
        let n_full_bytes = nat n_remaining div 8;
        d2 \<leftarrow> pack_full d1 out_cursor values n_full_bytes;
        let out_i_cursor = out_i_cursor + n_full_bytes * 8;
        let out_cursor = out_cursor + n_full_bytes;
        let values = drop (8 * n_full_bytes) values;
        let n_remaining = n_remaining - int n_full_bytes * 8;
        (d3, out_cursor) \<leftarrow>
          (if n_remaining > 0
           then do {
             d \<leftarrow> set_byte d2 out_cursor 0;
             d \<leftarrow> set_bits d out_i_cursor values (nat n_remaining);
             Some (d, out_cursor + 1)
           }
           else Some (d2, out_cursor));
        Some \<lparr>bm_buffer = (bm_buffer bm)\<lparr>ab_data := Some d3, ab_size := int out_cursor\<rparr>,
              bm_size = bm_size bm + n_values\<rparr>
      })"

definition ArrowBitmapAppendInt32Unsafe :: "arrow_bitmap \<Rightarrow> 32 word list \<Rightarrow> nat \<Rightarrow> arrow_bitmap option" where
  "ArrowBitmapAppendInt32Unsafe bm values n_values =
     ArrowBitmapAppendInt8Unsafe bm (map ucast values) n_values"

text \<open>How the loops extend the bits before a position.\<close>

lemma set_bits_upto:
  "i + k \<le> 8 * length d \<Longrightarrow> k \<le> length vs \<Longrightarrow> \<exists>d'. set_bits d i vs k = Some d' \<and> length d' = length d
     \<and> bits_upto d' (i + k) = bits_upto d i @ map (\<lambda>v. v \<noteq> 0) (take k vs)"
proof (induction d i vs k rule: set_bits.induct)
  case (3 d i v vs k)
  then have i: "i < 8 * length d" by simp
  from bit_set_to [OF i, of v] obtain d1 where d1: "ArrowBitSetTo d i v = Some d1" "length d1 = length d"
    "\<forall>j < 8 * length d. bit_of d1 j = (if j = i then v \<noteq> 0 else bit_of d j)" by blast
  have "bits_upto d1 (Suc i) = bits_upto d i @ [v \<noteq> 0]"
    using d1(3) i by (simp add: bits_upto_def)
  with 3 d1(1,2) show ?case by fastforce
qed (auto simp: bits_upto_def)

lemma set_bits_short: "length vs < k \<Longrightarrow> set_bits d i vs k = None"
  by (induction d i vs k rule: set_bits.induct) (auto split: Option.bind_splits)

lemma bit_pack:
  assumes "set (take 8 vs) \<subseteq> {0, 1}" "8 \<le> length vs" "j < 8"
  shows "bit (ArrowBitmapPackInt8 vs) j \<longleftrightarrow> vs ! j \<noteq> 0"
proof -
  have 01: "vs ! k = 0 \<or> vs ! k = 1" if "k < 8" for k
    using assms(1,2) that nth_mem [of k "take 8 vs"] by auto
  have m: "(v + (2 ^ k - 1)) AND 2 ^ k = (if v = 1 then 2 ^ k else 0)" if "v = 0 \<or> v = 1" "k < 8" for v :: byte and k
    using that less_8_cases [OF that(2)] by (elim disjE) simp_all
  note mk = m [OF 01, of 1 1] m [OF 01, of 2 2] m [OF 01, of 3 3] m [OF 01, of 4 4] m [OF 01, of 5 5]
    m [OF 01, of 6 6] m [OF 01, of 7 7]
  have "ArrowBitmapPackInt8 vs = vs ! 0 OR (if vs ! 1 = 1 then 2 else 0)
      OR (if vs ! 2 = 1 then 4 else 0) OR (if vs ! 3 = 1 then 8 else 0) OR (if vs ! 4 = 1 then 16 else 0)
      OR (if vs ! 5 = 1 then 32 else 0) OR (if vs ! 6 = 1 then 64 else 0) OR (if vs ! 7 = 1 then 128 else 0)"
    using mk by (simp add: ArrowBitmapPackInt8_def)
  then show ?thesis
    using 01 [of 0] 01 [OF assms(3)] less_8_cases [OF assms(3)]
    by (elim disjE) (auto simp: bit_or_iff)
qed

lemma pack_full_upto:
  "k + n \<le> length d \<Longrightarrow> 8 * n \<le> length vs \<Longrightarrow> set (take (8 * n) vs) \<subseteq> {0, 1}
   \<Longrightarrow> \<exists>d'. pack_full d k vs n = Some d' \<and> length d' = length d
     \<and> bits_upto d' (8 * (k + n)) = bits_upto d (8 * k) @ map (\<lambda>v. v \<noteq> 0) (take (8 * n) vs)"
proof (induction n arbitrary: d k vs)
  case (Suc n)
  have len: "k < length d" "8 \<le> length vs" using Suc.prems by simp_all
  have first: "set (take 8 vs) \<subseteq> {0, 1}" "set (take (8 * n) (drop 8 vs)) \<subseteq> {0, 1}"
  proof -
    have "take (8 * Suc n) vs = take 8 vs @ take (8 * n) (drop 8 vs)"
      by (metis add.commute mult_Suc_right take_add)
    then show "set (take 8 vs) \<subseteq> {0, 1}" "set (take (8 * n) (drop 8 vs)) \<subseteq> {0, 1}"
      using Suc.prems(3) by (metis le_sup_iff set_append)+
  qed
  let ?d = "d[k := ArrowBitmapPackInt8 vs]"
  have "map (bit_of ?d) [8 * k..<8 * k + 8] = map (\<lambda>v. v \<noteq> 0) (take 8 vs)"
  proof (rule nth_equalityI)
    fix j assume "j < length (map (bit_of ?d) [8 * k..<8 * k + 8])"
    then have "j < 8" by simp
    then show "map (bit_of ?d) [8 * k..<8 * k + 8] ! j = map (\<lambda>v. v \<noteq> 0) (take 8 vs) ! j"
      using len bit_pack [OF first(1) len(2)] by (simp add: bit_of_def)
  qed (use len in simp)
  moreover have "map (bit_of ?d) [0..<8 * k] = map (bit_of d) [0..<8 * k]"
    by (rule map_cong) (auto simp: bit_of_def)
  ultimately have d: "bits_upto ?d (8 * (k + 1)) = bits_upto d (8 * k) @ map (\<lambda>v. v \<noteq> 0) (take 8 vs)"
    by (simp only: bits_upto_def distrib_left mult_1_right upt_add_eq_append [OF le0] map_append)
  have "Suc k + n \<le> length ?d" "8 * n \<le> length (drop 8 vs)" using Suc.prems by simp_all
  from Suc.IH [OF this first(2)] obtain d' where
    d': "pack_full ?d (Suc k) (drop 8 vs) n = Some d'" "length d' = length d"
      "bits_upto d' (8 * (Suc k + n)) = bits_upto ?d (8 * Suc k) @ map (\<lambda>v. v \<noteq> 0) (take (8 * n) (drop 8 vs))"
    unfolding length_list_update by blast
  have "pack_full d k vs (Suc n) = Some d'"
    using d'(1) len by (simp add: set_byte_def)
  moreover have "take (8 * Suc n) vs = take 8 vs @ take (8 * n) (drop 8 vs)"
    by (metis add.commute mult_Suc_right take_add)
  ultimately show ?case
    using d' d by simp
qed (simp add: bits_upto_def)

text \<open>The values the partial byte at the end of the bitmap still takes.\<close>

definition partial_bits :: "arrow_bitmap \<Rightarrow> nat" where
  "partial_bits bm = (if bm_size bm mod 8 = 0 then 0 else 8 - bm_size bm mod 8)"

lemma round_up: "m mod 8 \<noteq> 0 \<Longrightarrow> ArrowRoundUpToMultipleOf8 m - m = 8 - m mod 8"
proof -
  assume r: "m mod 8 \<noteq> 0"
  define a r where "a = m div 8" and "r = m mod 8"
  then have m: "m = 8 * a + r" "r < 8" by simp_all
  from r have "8 * a + r + 7 = (r - 1) + 8 * Suc a" by (simp add: r_def)
  then have "(8 * a + r + 7) div 8 = Suc a" using m(2) by (simp only: div_mult_self2)
  with m show ?thesis by (simp add: ArrowRoundUpToMultipleOf8_def)
qed

lemma bitmap_append_int8_reads_past:
  assumes "ab_data (bm_buffer bm) = Some d" "0 < length vs" "length vs < partial_bits bm"
  shows "ArrowBitmapAppendInt8Unsafe bm vs (length vs) = None"
  using assms by (auto simp: ArrowBitmapAppendInt8Unsafe_def Let_def partial_bits_def round_up set_bits_short
      split: if_splits)

lemma last_byte_upto:
  assumes "vs \<noteq> [] \<longrightarrow> k < length d" "length vs < 8"
  shows "\<exists>d'. (if 0 < length vs
      then do { d \<leftarrow> set_byte d k 0; d \<leftarrow> set_bits d (8 * k) vs (length vs); Some (d, k + 1) }
      else Some (d, k)) = Some (d', ArrowBytesForBits (8 * k + length vs))
    \<and> length d' = length d \<and> bits_upto d' (8 * k + length vs) = bits_upto d (8 * k) @ map (\<lambda>v. v \<noteq> 0) vs"
proof (cases "vs = []")
  case False
  with assms(1) have k: "k < length d" by simp
  let ?d = "d[k := 0]"
  have keep: "bits_upto ?d (8 * k) = bits_upto d (8 * k)"
    unfolding bits_upto_def by (rule map_cong) (auto simp: bit_of_def)
  have fit: "8 * k + length vs \<le> 8 * length ?d" using k assms(2) by simp
  have "ArrowBytesForBits (8 * k + length vs) = k + 1"
    using False assms(2) by (simp add: ArrowBytesForBits_def)
  with set_bits_upto [OF fit order_refl] k False show ?thesis
    by (auto simp: set_byte_def keep)
qed (simp add: ArrowBytesForBits_def)

lemma append_cursor:
  "8 * (if bm_size bm mod 8 \<noteq> 0 then bm_size bm div 8 + 1 else bm_size bm div 8) = bm_size bm + partial_bits bm"
proof -
  obtain a r where "bm_size bm = 8 * a + r" "r < 8"
    by (metis mod_less_divisor mult_div_mod_eq zero_less_numeral)
  then show ?thesis by (simp add: partial_bits_def)
qed

text \<open>The three parts put together.\<close>

lemma append_int8_bits:
  assumes "vs \<noteq> []" "set vs \<subseteq> {0, 1}" "partial_bits bm \<le> length vs" "ab_data (bm_buffer bm) = Some d"
    and fits: "ArrowBytesForBits (bm_size bm + length vs) \<le> length d"
  shows "\<exists>d'. ArrowBitmapAppendInt8Unsafe bm vs (length vs) = Some \<lparr>bm_buffer = (bm_buffer bm)\<lparr>ab_data := Some d',
        ab_size := int (ArrowBytesForBits (bm_size bm + length vs))\<rparr>, bm_size = bm_size bm + length vs\<rparr>
    \<and> length d' = length d \<and> bits_upto d' (bm_size bm + length vs) = bits_upto d (bm_size bm) @ map (\<lambda>v. v \<noteq> 0) vs"
proof -
  define m np where "m = bm_size bm" and "np = partial_bits bm"
  define rest where "rest = drop np vs"
  define full where "full = length rest div 8"
  define tail where "tail = drop (8 * full) rest"
  define oc where "oc = (if m mod 8 \<noteq> 0 then m div 8 + 1 else m div 8)"
  have oc: "8 * oc = m + np" unfolding oc_def m_def np_def by (rule append_cursor)
  have np: "(if m mod 8 \<noteq> 0 then ArrowRoundUpToMultipleOf8 m - m else 0) = np"
    by (simp add: np_def partial_bits_def m_def round_up)
  have rest: "length vs = np + length rest" using assms(3) by (simp add: rest_def np_def)
  have tail: "length rest = 8 * full + length tail" "length tail < 8"
    by (simp_all add: tail_def full_def minus_mult_div_eq_mod)
  have len: "m + length vs = 8 * (oc + full) + length tail" using oc rest tail(1) by simp
  have bytes: "oc + full + (if tail \<noteq> [] then 1 else 0) \<le> length d"
    using fits unfolding m_def [symmetric] len bytes_for_bits_split [OF tail(2)] by (simp split: if_splits)
  have "m + np \<le> 8 * length d" using oc bytes by simp
  from set_bits_upto [OF this, of vs] rest obtain d1 where
    d1: "set_bits d m vs np = Some d1" "length d1 = length d"
      "bits_upto d1 (8 * oc) = bits_upto d m @ map (\<lambda>v. v \<noteq> 0) (take np vs)" unfolding oc by auto
  have "set (take (8 * full) rest) \<subseteq> {0, 1}"
    using assms(2) unfolding rest_def by (meson order_trans set_drop_subset set_take_subset)
  with pack_full_upto [of oc full d1 rest] bytes d1(2) tail(1) obtain d2 where
    d2: "pack_full d1 oc rest full = Some d2" "length d2 = length d"
      "bits_upto d2 (8 * (oc + full)) = bits_upto d1 (8 * oc) @ map (\<lambda>v. v \<noteq> 0) (take (8 * full) rest)"
    by (auto split: if_splits)
  have "tail \<noteq> [] \<longrightarrow> oc + full < length d2" using bytes d2(2) by auto
  from last_byte_upto [OF this tail(2)] obtain d3 where
    d3: "(if 0 < length tail then do { d \<leftarrow> set_byte d2 (oc + full) 0;
        d \<leftarrow> set_bits d (8 * (oc + full)) tail (length tail); Some (d, oc + full + 1) }
        else Some (d2, oc + full)) = Some (d3, ArrowBytesForBits (m + length vs))"
      "length d3 = length d" "bits_upto d3 (m + length vs) = bits_upto d2 (8 * (oc + full)) @ map (\<lambda>v. v \<noteq> 0) tail"
    unfolding len d2(2) by blast
  have "int (length vs) - int np = int (length rest)" using rest by simp
  then have ints: "nat (int (length vs) - int np) div 8 = full"
      "int (length vs) - int np - int full * 8 = int (length tail)" "m + np + full * 8 = 8 * (oc + full)"
    using tail oc by (simp_all only: nat_int full_def [symmetric]) simp_all
  have "take np vs @ take (8 * full) rest @ tail = vs"
    by (simp only: tail_def append_take_drop_id) (simp only: rest_def append_take_drop_id)
  then have "bits_upto d3 (m + length vs) = bits_upto d m @ map (\<lambda>v. v \<noteq> 0) vs"
    using d1(3) d2(3) d3(3) by (metis append.assoc map_append)
  moreover have "ArrowBitmapAppendInt8Unsafe bm vs (length vs) = Some \<lparr>bm_buffer = (bm_buffer bm)\<lparr>ab_data := Some d3,
        ab_size := int (ArrowBytesForBits (m + length vs))\<rparr>, bm_size = m + length vs\<rparr>"
    using assms(1,4) d1(1) d2(1) d3(1)
    unfolding ArrowBitmapAppendInt8Unsafe_def Let_def m_def [symmetric] np oc_def [symmetric] ints
      rest_def [symmetric] tail_def [symmetric] nat_int of_nat_0_less_iff
    by (simp split del: if_split)
  ultimately show ?thesis using d3(2) unfolding m_def by blast
qed

lemma bitmap_append_int8:
  assumes wf: "bm_wf bm" and v01: "set vs \<subseteq> {0, 1}"
    and cap: "int (ArrowBytesForBits (bm_size bm + length vs)) \<le> ab_capacity (bm_buffer bm)"
    and enough: "partial_bits bm \<le> length vs"
  shows "\<exists>bm'. ArrowBitmapAppendInt8Unsafe bm vs (length vs) = Some bm' \<and> bm_wf bm'
    \<and> bm_bits bm' = bm_bits bm @ map (\<lambda>v. v \<noteq> 0) vs"
proof (cases "vs = []")
  case True
  with wf show ?thesis by (simp add: ArrowBitmapAppendInt8Unsafe_def)
next
  case False
  let ?m = "bm_size bm" and ?B = "bm_buffer bm"
  have "0 < ArrowBytesForBits (?m + length vs)"
    using bytes_for_bits [of "?m + length vs"] False by (metis add_gr_0 length_greater_0_conv mult_0_right neq0_conv not_le)
  with wf cap obtain d where d: "ab_data ?B = Some d" "int (length d) = ab_capacity ?B"
    by (cases "ab_data ?B") (auto simp: bm_wf_def ab_wf_def ab_block_def)
  with cap have "ArrowBytesForBits (?m + length vs) \<le> length d" by simp
  from append_int8_bits [OF False v01 enough d(1) this] obtain d' where
    d': "ArrowBitmapAppendInt8Unsafe bm vs (length vs) = Some \<lparr>bm_buffer = ?B\<lparr>ab_data := Some d',
        ab_size := int (ArrowBytesForBits (?m + length vs))\<rparr>, bm_size = ?m + length vs\<rparr>" (is "_ = Some ?bm")
      "length d' = length d" "bits_upto d' (?m + length vs) = bits_upto d ?m @ map (\<lambda>v. v \<noteq> 0) vs" by blast
  have wf': "bm_wf ?bm"
    using cap d d'(2) by (simp add: bm_wf_def ab_wf_def ab_block_def)
  then have "bm_bits ?bm = bm_bits bm @ map (\<lambda>v. v \<noteq> 0) vs"
    using bm_bits_block [OF wf'] bm_bits_block [OF wf] d(1) d'(3) by (simp add: ab_block_def bits_upto_def)
  with d'(1) wf' show ?thesis by blast
qed

section \<open>Properties\<close>

text \<open>
  C22: The functions that set and count a run of bits a byte at a time, with masks at both ends, do what a
  loop over the bits does: setting changes exactly the bits of the run, and counting gives the number of
  set bits in it.  Neither touches a byte outside the bits.
\<close>

theorem bit_runs_by_bit:
  assumes "start + n \<le> 8 * length bits" "v = 0 \<or> v = 1"
  shows "(\<exists>bits'. ArrowBitsSetTo bits start n v = Some bits' \<and> length bits' = length bits
      \<and> (\<forall>i < 8 * length bits. bit_of bits' i =
           (if start \<le> i \<and> i < start + n then v = 1 else bit_of bits i)))
    \<and> ArrowBitCountSet bits start n = Some (length (filter (bit_of bits) [start..<start + n]))"
  using bits_set_to [OF assms] bit_count_set [OF assms(1)] by (auto simp: run_set_def bit_count_def)

lemma bit_runs_by_bit_witness:
  "(\<exists>bits'. ArrowBitsSetTo [255, 255, 255] 3 18 0 = Some bits' \<and> length bits' = length [255, 255, 255 :: byte]
      \<and> (\<forall>i < 8 * length [255, 255, 255 :: byte]. bit_of bits' i =
           (if 3 \<le> i \<and> i < 3 + 18 then (0 :: byte) = 1 else bit_of [255, 255, 255] i)))
    \<and> ArrowBitCountSet [255, 255, 255] 3 18 = Some (length (filter (bit_of [255, 255, 255]) [3..<3 + 18]))"
  by (rule bit_runs_by_bit) simp_all

text \<open>Runs appended one after the other, to the first error.\<close>

fun append_runs :: "reallocate \<Rightarrow> (bool \<times> nat) list \<Rightarrow> arrow_bitmap \<Rightarrow> arrow_bitmap nano" where
  "append_runs re [] bm = Some (NANOARROW_OK, bm)"
| "append_runs re ((b, n) # runs) bm = nano_then (ArrowBitmapAppend re bm (of_bool b) n) (append_runs re runs)"

lemma append_runs:
  "bm_wf bm \<Longrightarrow> \<exists>e bm'. append_runs (ArrowBufferAllocatorMallocReallocate memory) runs bm = Some (e, bm')
    \<and> (e = NANOARROW_OK \<and> bm_wf bm' \<and> bm_bits bm' = bm_bits bm @ concat (map (\<lambda>(b, n). replicate n b) runs)
       \<or> e = ENOMEM)"
proof (induction runs arbitrary: bm)
  case (Cons r runs)
  obtain b n where r: "r = (b, n)" by (cases r)
  from malloc.bitmap_append [OF Cons.prems, of "of_bool b" memory n] obtain e bm1 where
    "ArrowBitmapAppend (ArrowBufferAllocatorMallocReallocate memory) bm (of_bool b) n = Some (e, bm1)"
    "e = NANOARROW_OK \<and> bm_wf bm1 \<and> bm_bits bm1 = bm_bits bm @ replicate n b \<or> e = ENOMEM" by auto
  then show ?case using Cons.IH [of bm1] by (auto simp: r)
qed simp

text \<open>
  C21: A bitmap built by appending runs of equal bits, over the default allocator, never accesses memory
  outside its block; unless the memory runs out it then holds exactly the bits appended, in order, and
  counting its set bits gives the number of true ones.
\<close>

theorem bitmap_holds_runs:
  "\<exists>e bm. append_runs (ArrowBufferAllocatorMallocReallocate memory) runs ArrowBitmapInit = Some (e, bm)
    \<and> (e = NANOARROW_OK \<and> bm_bits bm = concat (map (\<lambda>(b, n). replicate n b) runs)
         \<and> ArrowBitCountSet (ab_block (bm_buffer bm)) 0 (bm_size bm)
             = Some (length (filter id (concat (map (\<lambda>(b, n). replicate n b) runs))))
       \<or> e = ENOMEM)"
proof -
  from append_runs [OF bm_wf_Init, of memory runs] obtain e bm where
    run: "append_runs (ArrowBufferAllocatorMallocReallocate memory) runs ArrowBitmapInit = Some (e, bm)"
      "e = NANOARROW_OK \<and> bm_wf bm \<and> bm_bits bm = concat (map (\<lambda>(b, n). replicate n b) runs) \<or> e = ENOMEM"
    by auto
  have "ArrowBitCountSet (ab_block (bm_buffer bm)) 0 (bm_size bm) = Some (length (filter id (bm_bits bm)))"
    if wf: "bm_wf bm"
  proof -
    have "bm_size bm \<le> 8 * length (ab_block (bm_buffer bm))"
      using wf bytes_for_bits [of "bm_size bm"] by (simp add: bm_wf_def ab_wf_def)
    then show ?thesis
      using bit_count_set [of 0 "bm_size bm"] bm_bits_block [OF wf]
      by (simp add: bit_count_def filter_map)
  qed
  with run show ?thesis by auto
qed

text \<open>
  Values 0 or 1 appended eight to a byte, after room for them was reserved: the bitmap holds its old
  bits and then the values, unless they are fewer than the bits free in the last byte; then the loop that
  fills that byte reads past the end of the values.
\<close>

theorem bitmap_append_values:
  assumes "bm_wf bm" "set vs \<subseteq> {0, 1}" "vs \<noteq> []"
    and "ArrowBitmapReserve (ArrowBufferAllocatorMallocReallocate memory) bm (length vs) = Some (NANOARROW_OK, bm1)"
  shows "if bm_size bm mod 8 \<noteq> 0 \<and> length vs < 8 - bm_size bm mod 8
    then ArrowBitmapAppendInt8Unsafe bm1 vs (length vs) = None
    else (\<exists>bm2. ArrowBitmapAppendInt8Unsafe bm1 vs (length vs) = Some bm2 \<and> bm_wf bm2
           \<and> bm_bits bm2 = bm_bits bm @ map (\<lambda>v. v \<noteq> 0) vs)"
proof -
  from malloc.bitmap_reserve [OF assms(1), of memory "length vs"] assms(4)
  have bm1: "bm_wf bm1" "bm_bits bm1 = bm_bits bm" "bm_size bm1 = bm_size bm"
      "int (ArrowBytesForBits (bm_size bm1 + length vs)) \<le> ab_capacity (bm_buffer bm1)" by auto
  have "0 < ArrowBytesForBits (bm_size bm1 + length vs)"
    using bytes_for_bits [of "bm_size bm1 + length vs"] assms(3)
    by (metis add_gr_0 length_greater_0_conv mult_0_right neq0_conv not_le)
  with bm1 obtain d where "ab_data (bm_buffer bm1) = Some d"
    by (cases "ab_data (bm_buffer bm1)") (auto simp: bm_wf_def ab_wf_def ab_block_def)
  then show ?thesis
    using bitmap_append_int8_reads_past [of bm1 d vs] bitmap_append_int8 [OF bm1(1) assms(2) bm1(4)] assms(3) bm1
    by (auto simp: partial_bits_def)
qed

lemma bitmap_append_values_witness:
  "let bm = \<lparr>bm_buffer = \<lparr>ab_data = Some [5], ab_size = 1, ab_capacity = 1\<rparr>, bm_size = 3\<rparr> in
   (case ArrowBitmapReserve (ArrowBufferAllocatorMallocReallocate (\<lambda>n. Some (\<lambda>i. 0))) bm 1 of
      None \<Rightarrow> False | Some (e, bm1) \<Rightarrow> ArrowBitmapAppendInt8Unsafe bm1 [1] 1 = None)"
  using bitmap_append_values [of "\<lparr>bm_buffer = \<lparr>ab_data = Some [5], ab_size = 1, ab_capacity = 1\<rparr>, bm_size = 3\<rparr>"
      "[1]" "\<lambda>n. Some (\<lambda>i. 0)" "\<lparr>bm_buffer = \<lparr>ab_data = Some [5], ab_size = 1, ab_capacity = 1\<rparr>, bm_size = 3\<rparr>"]
  by (simp add: bm_wf_def ab_wf_def ab_block_def ArrowBytesForBits_def ArrowBitmapReserve_def)

end
