(* ===== verification/Arrow_Decimal.thy ===== *)
theory Arrow_Decimal
  imports Arrow_Types
begin

text \<open>
  Decimal numbers (adbc\_nanoarrow.h, the inline functions on ArrowDecimal; adbc\_nanoarrow.cpp,
  ArrowDecimal*): two's complement numbers of 32, 64, 128 or 256 bits in 64-bit words, on little-endian
  machines; their digits are appended to a buffer and read from text.  A number of 32 bits has no words of
  its own and lives in the low half of the first word.
\<close>

unbundle bit_operations_syntax

section \<open>The number\<close>

record arrow_decimal =
  dc_words :: "64 word list"
  dc_precision :: int
  dc_scale :: int
  dc_n_words :: nat
  dc_high_word_index :: nat
  dc_low_word_index :: nat

definition ArrowDecimalInit :: "nat \<Rightarrow> int \<Rightarrow> int \<Rightarrow> arrow_decimal" where
  "ArrowDecimalInit bitwidth precision scale =
     (let n_words = bitwidth div 8 div 8 in
      \<lparr>dc_words = replicate 4 0, dc_precision = precision, dc_scale = scale, dc_n_words = n_words,
       dc_high_word_index = (if n_words > 0 then n_words - 1 else 0), dc_low_word_index = 0\<rparr>)"

text \<open>The 32 bits copied out of the words and into them by memcpy.\<close>

definition low32 :: "arrow_decimal \<Rightarrow> 32 word" where
  "low32 d = ucast (dc_words d ! 0)"

definition set_low32 :: "32 word \<Rightarrow> arrow_decimal \<Rightarrow> arrow_decimal" where
  "set_low32 w d = d\<lparr>dc_words := (dc_words d)[0 := (dc_words d ! 0 AND NOT 0xFFFFFFFF) OR ucast w]\<rparr>"

definition ArrowDecimalGetIntUnsafe :: "arrow_decimal \<Rightarrow> int" where
  "ArrowDecimalGetIntUnsafe d =
     (if dc_n_words d = 0 then sint (low32 d) else sint (dc_words d ! dc_low_word_index d))"

definition ArrowDecimalGetBytes :: "arrow_decimal \<Rightarrow> byte list" where
  "ArrowDecimalGetBytes d =
     (if dc_n_words d = 0 then le_bytes (low32 d) else concat (map le_bytes (take (dc_n_words d) (dc_words d))))"

text \<open>The high word shifted right by 63 is 0 or -1, and 1 is set in it.\<close>

definition ArrowDecimalSign :: "arrow_decimal \<Rightarrow> int" where
  "ArrowDecimalSign d =
     (if dc_n_words d = 0 then (if ArrowDecimalGetIntUnsafe d \<ge> 0 then 1 else - 1)
      else 1 OR drop_bit 63 (sint (dc_words d ! dc_high_word_index d)))"

definition ArrowDecimalSetInt :: "arrow_decimal \<Rightarrow> int \<Rightarrow> arrow_decimal" where
  "ArrowDecimalSetInt d value =
     (if dc_n_words d = 0 then set_low32 (word_of_int value) d
      else d\<lparr>dc_words := (replicate (dc_n_words d) (if value < 0 then - 1 else 0) @ drop (dc_n_words d) (dc_words d))
               [dc_low_word_index d := word_of_int value]\<rparr>)"

text \<open>The loop that complements the words and carries a one through them.\<close>

fun negate_words :: "64 word \<Rightarrow> 64 word list \<Rightarrow> 64 word list" where
  "negate_words carry [] = []"
| "negate_words carry (w # ws) =
     (let elem = NOT w + carry in elem # negate_words (carry AND (if elem = 0 then 1 else 0)) ws)"

text \<open>The smallest number of 32 bits has no negative: overflow.\<close>

definition ArrowDecimalNegate :: "arrow_decimal \<Rightarrow> arrow_decimal option" where
  "ArrowDecimalNegate d =
     (if dc_n_words d = 0
      then (if sint (low32 d) = - (2 ^ 31) then None else Some (set_low32 (- low32 d) d))
      else Some (d\<lparr>dc_words := negate_words 1 (take (dc_n_words d) (dc_words d)) @ drop (dc_n_words d) (dc_words d)\<rparr>))"

text \<open>The bytes are those of memory from the pointer on.\<close>

definition ArrowDecimalSetBytes :: "arrow_decimal \<Rightarrow> byte list \<Rightarrow> arrow_decimal option" where
  "ArrowDecimalSetBytes d value =
     (if dc_n_words d = 0 then map_option (\<lambda>bs. set_low32 (of_le_bytes bs) d) (load value 0 4)
      else map_option (\<lambda>bs. d\<lparr>dc_words := map (\<lambda>i. of_le_bytes (take 8 (drop (8 * i) bs))) [0..<dc_n_words d]
                                @ drop (dc_n_words d) (dc_words d)\<rparr>)
             (load value 0 (8 * dc_n_words d)))"

section \<open>Reading digits\<close>

definition kUInt32PowersOfTen :: "64 word list" where
  "kUInt32PowersOfTen = [1, 10, 100, 1000, 10000, 100000, 1000000, 10000000, 100000000, 1000000000]"

text \<open>One pass over the words: multiply by the multiple and add the chunk, carrying the high half on.\<close>

fun multiply_add :: "64 word \<Rightarrow> 32 word \<Rightarrow> 32 word list \<Rightarrow> 32 word list" where
  "multiply_add multiple chunk [] = []"
| "multiply_add multiple chunk (w # ws) =
     (let tmp = ucast w * multiple + ucast chunk
      in ucast (tmp AND 0xFFFFFFFF) # multiply_add multiple (ucast (drop_bit 32 tmp)) ws)"

definition text_of :: "byte list \<Rightarrow> string" where
  "text_of bs = map (\<lambda>b. char_of (unat b)) bs"

fun ShiftAndAdd :: "byte list \<Rightarrow> 32 word list \<Rightarrow> 32 word list" where
  "ShiftAndAdd value out =
     (if value = [] then out
      else
        (let group_size = (if length value > 9 then 9 else length value);
             multiple = kUInt32PowersOfTen ! group_size;
             chunk = word_of_int (fst (strtol (text_of (take group_size value))))
         in ShiftAndAdd (drop group_size value) (multiply_add multiple chunk out)))"

declare ShiftAndAdd.simps [simp del]

text \<open>The check that what follows the sign are digits; the memory is that from the pointer on.\<close>

fun all_digits :: "byte list \<Rightarrow> nat \<Rightarrow> bool option" where
  "all_digits value 0 = Some True"
| "all_digits [] (Suc n) = None"
| "all_digits (c # cs) (Suc n) = (if c < 48 \<or> c > 57 then Some False else all_digits cs n)"

fun pair_words :: "32 word list \<Rightarrow> 64 word list" where
  "pair_words (lo # hi # ws) = (ucast lo OR push_bit 32 (ucast hi)) # pair_words ws"
| "pair_words _ = []"

definition ArrowDecimalSetDigits :: "arrow_decimal \<Rightarrow> string_view \<Rightarrow> arrow_decimal nano" where
  "ArrowDecimalSetDigits d value =
     do {
       memory \<leftarrow> sv_data value;
       first \<leftarrow> (case memory of [] \<Rightarrow> None | c # _ \<Rightarrow> Some c);
       let is_negative = (first = 45);
       let has_sign = (if is_negative \<or> first = 43 then 1 else 0 :: nat);
       let memory = drop has_sign memory;
       let n = nat (sv_size value - int has_sign);
       digits \<leftarrow> all_digits memory n;
       if \<not> digits then Some (EINVAL, d)
       else
         (let value = dropWhile (\<lambda>c. c = 48) (take n memory);
              n_words32 = (if dc_n_words d > 0 then dc_n_words d * 2 else 1);
              words32 = ShiftAndAdd value (replicate n_words32 0);
              d = (if dc_n_words d > 0
                   then d\<lparr>dc_words := pair_words words32 @ drop (dc_n_words d) (dc_words d)\<rparr>
                   else set_low32 (hd words32) d)
          in if is_negative then map_option (Pair NANOARROW_OK) (ArrowDecimalNegate d)
             else Some (NANOARROW_OK, d))
     }"

section \<open>Printing digits\<close>

text \<open>Both halves of a word divided by a thousand million, with the remainder of the words above.\<close>

definition divide_word :: "32 word \<Rightarrow> 64 word \<Rightarrow> 64 word \<times> 32 word" where
  "divide_word remainder elem =
     (let k1e9 = 1000000000;
          hi = drop_bit 32 elem; lo = elem AND 0xFFFFFFFF;
          dividend_hi = push_bit 32 (ucast remainder) OR hi;
          quotient_hi = dividend_hi div k1e9;
          remainder = ucast (dividend_hi mod k1e9) :: 32 word;
          dividend_lo = push_bit 32 (ucast remainder) OR lo;
          quotient_lo = dividend_lo div k1e9;
          remainder = ucast (dividend_lo mod k1e9) :: 32 word
      in (push_bit 32 quotient_hi OR quotient_lo, remainder))"

text \<open>The inner loop, from the most significant word, which comes first here, down to the least.\<close>

fun divide_words :: "32 word \<Rightarrow> 64 word list \<Rightarrow> 64 word list \<times> 32 word" where
  "divide_words remainder [] = ([], remainder)"
| "divide_words remainder (w # ws) =
     (let (q, remainder) = divide_word remainder w; (qs, remainder) = divide_words remainder ws
      in (q # qs, remainder))"

text \<open>The outer loop; a tenth segment does not fit the array.  Segments come least significant first.\<close>

function (sequential) digit_segments :: "64 word list \<Rightarrow> 32 word list \<Rightarrow> 32 word list option" where
  "digit_segments ws segments =
     (let (qs, remainder) = divide_words 0 ws in
      if length segments \<ge> 9 then None
      else if hd qs \<noteq> 0 then digit_segments qs (segments @ [remainder])
      else if tl qs = [] then Some (segments @ [remainder])
      else digit_segments (tl qs) (segments @ [remainder]))"
  by pat_completeness auto
termination by (relation "measure (\<lambda>(ws, segments). 9 - length segments)") auto

declare digit_segments.simps [simp del]

text \<open>snprintf to the end of the buffer: its characters and the null are written, and the size grows by the former.\<close>

definition print_at_end :: "arrow_buffer \<Rightarrow> int \<Rightarrow> string \<Rightarrow> arrow_buffer option" where
  "print_at_end b n text =
     (let bytes = map of_char (take (nat (n - 1)) text) @ [0] in
      do {
        memory \<leftarrow> ab_data b;
        memory \<leftarrow> store memory (nat (ab_size b)) bytes;
        Some (b\<lparr>ab_data := Some memory, ab_size := ab_size b + int (length text)\<rparr>)
      })"

definition pad9 :: "string \<Rightarrow> string" where
  "pad9 s = replicate (9 - length s) (CHR ''0'') @ s"

fun print_segments :: "32 word list \<Rightarrow> arrow_buffer \<Rightarrow> arrow_buffer option" where
  "print_segments [] b = Some b"
| "print_segments (s # segments) b =
     do { b \<leftarrow> print_at_end b 21 (pad9 (nat_to_string (unat s))); print_segments segments b }"

definition ArrowDecimalAppendDigitsToBuffer ::
  "reallocate \<Rightarrow> arrow_decimal \<Rightarrow> arrow_buffer \<Rightarrow> arrow_buffer nano" where
  "ArrowDecimalAppendDigitsToBuffer re d b =
     (if dc_n_words d = 0 then
        nano_then (Some (ArrowBufferReserve re b 16)) (\<lambda>b.
          map_option (Pair NANOARROW_OK)
            (print_at_end b (ab_capacity b - ab_size b) (int_to_string (sint (low32 d)))))
      else
        (let is_negative = (ArrowDecimalSign d < 0);
             words_little_endian = take (dc_n_words d) (dc_words d);
             words_little_endian = (if is_negative then negate_words 1 words_little_endian else words_little_endian);
             most_significant_first = dropWhile (\<lambda>w. w = 0) (rev words_little_endian)
         in if most_significant_first = [] then ArrowBufferAppendInt re b (48 :: 8 word)
            else do {
              segments \<leftarrow> digit_segments most_significant_first [];
              nano_then (Some (ArrowBufferReserve re b (int (length segments) * 9 + 1 + 21 - 9))) (\<lambda>b. do {
                b \<leftarrow> (if is_negative
                     then do {
                       memory \<leftarrow> ab_data b;
                       memory \<leftarrow> store memory (nat (ab_size b)) [45];
                       Some (b\<lparr>ab_data := Some memory, ab_size := ab_size b + 1\<rparr>)
                     }
                     else Some b);
                b \<leftarrow> print_at_end b 21 (nat_to_string (unat (last segments)));
                b \<leftarrow> print_segments (rev (butlast segments)) b;
                Some (NANOARROW_OK, b)
              })
            }))"

fun append_zeros :: "reallocate \<Rightarrow> nat \<Rightarrow> arrow_buffer \<Rightarrow> arrow_buffer nano" where
  "append_zeros re 0 b = Some (NANOARROW_OK, b)"
| "append_zeros re (Suc n) b = nano_then (ArrowBufferAppendInt re b (48 :: 8 word)) (append_zeros re n)"

definition ArrowDecimalAppendStringToBuffer ::
  "reallocate \<Rightarrow> arrow_decimal \<Rightarrow> arrow_buffer \<Rightarrow> arrow_buffer nano" where
  "ArrowDecimalAppendStringToBuffer re d b =
     (let buffer_size = ab_size b in
      nano_then (ArrowDecimalAppendDigitsToBuffer re d b) (\<lambda>b.
      let digits_size = ab_size b - buffer_size in
      if dc_scale d \<le> 0 then append_zeros re (nat (- dc_scale d)) b
      else do {
        memory \<leftarrow> ab_data b;
        first \<leftarrow> (case memory of [] \<Rightarrow> None | c # _ \<Rightarrow> Some c);
        let is_negative = (if first = 45 then 1 else 0);
        let num_digits = digits_size - is_negative;
        if num_digits \<le> dc_scale d then
          (let num_zeros_after_decimal = dc_scale d - num_digits in
           nano_then (Some (ArrowBufferResize re b (ab_size b + num_zeros_after_decimal + 2) False)) (\<lambda>b. do {
             memory \<leftarrow> ab_data b;
             let digits_start = nat is_negative;
             moved \<leftarrow> load memory digits_start (nat num_digits);
             memory \<leftarrow> store memory (digits_start + nat num_zeros_after_decimal + 2) moved;
             memory \<leftarrow> store memory digits_start (48 # 46 # replicate (nat num_zeros_after_decimal) 48);
             Some (NANOARROW_OK, b\<lparr>ab_data := Some memory\<rparr>)
           }))
        else
          nano_then (Some (ArrowBufferResize re b (ab_size b + 1) False)) (\<lambda>b. do {
            memory \<leftarrow> ab_data b;
            let decimal_point_to_be = ab_size b - 1 - dc_scale d;
            moved \<leftarrow> (if decimal_point_to_be < 0 then None
                     else load memory (nat decimal_point_to_be) (nat (dc_scale d)));
            memory \<leftarrow> store memory (nat decimal_point_to_be + 1) moved;
            memory \<leftarrow> store memory (nat decimal_point_to_be) [46];
            Some (NANOARROW_OK, b\<lparr>ab_data := Some memory\<rparr>)
          })
      }))"

end
