(* ===== verification/Arrow_Array_View.thy ===== *)
theory Arrow_Array_View
  imports Arrow_Bits Arrow_Schema_View Arrow_Decimal
begin

text \<open>
  Views of arrays (adbc\_nanoarrow.cpp, ArrowArrayView*; adbc\_nanoarrow.h, the inline functions on
  ArrowArrayView): making one from a schema, attaching an array of the Arrow C data interface to it, the
  three levels of validation, and the functions that read values.  A buffer is the memory from its pointer
  on; the size of a buffer is what the view holds in \<open>size_bytes\<close>, -1 while it is unknown, so that memory
  and the belief about it are two things.  None is an access outside the memory, through a null pointer, or
  a signed overflow.  Memory suffices: malloc fails for a negative size only.
\<close>

unbundle bit_operations_syntax

section \<open>Views and arrays\<close>

record buffer_view =
  bf_data :: block
  bf_size :: int

text \<open>
  The members of a view but its children and its dictionary.  \<open>v_variadic\<close> are the pointers from
  \<open>variadic_buffers\<close> on.
\<close>

record view_data =
  v_offset :: int
  v_length :: int
  v_null_count :: int
  v_storage :: arrow_type
  v_layout :: arrow_layout
  v_buffers :: "buffer_view list"
  v_type_id_map :: "int list option"
  v_n_variadic :: int
  v_variadic :: "block list option"
  v_variadic_sizes :: block

text \<open>\<open>n_children\<close> is the number of children, which are never null once allocated; no children are the null pointer.\<close>

datatype array_view = View (av_data: view_data) (av_children: "array_view list") (av_dictionary: "array_view option")

text \<open>An array as a producer hands it over.  \<open>ar_buffers\<close> and \<open>ar_children\<close> are the arrays of pointers.\<close>

datatype arrow_array = Array (ar_length: int) (ar_null_count: int) (ar_offset: int) (ar_n_buffers: int)
  (ar_n_children: int) (ar_buffers: "block list") (ar_children: "arrow_array option list")
  (ar_dictionary: "arrow_array option")

text \<open>A result with a message when it is not OK, and the object changed.\<close>

type_synonym 's checked = "(string option \<times> 's) option"

definition fails :: "string \<Rightarrow> 's \<Rightarrow> 's checked" where
  "fails m s = Some (Some (snd (ArrowErrorSet m)), s)"

definition passes :: "'s \<Rightarrow> 's checked" where
  "passes s = Some (None, s)"

definition ok_then :: "'s checked \<Rightarrow> ('s \<Rightarrow> 's checked) \<Rightarrow> 's checked" where
  "ok_then r f = (case r of None \<Rightarrow> None | Some (Some m, s) \<Rightarrow> Some (Some m, s) | Some (None, s) \<Rightarrow> f s)"

text \<open>The loop over the children and the call on the dictionary.\<close>

fun on_children :: "('a \<Rightarrow> 'a checked) \<Rightarrow> 'a list \<Rightarrow> 'a list checked" where
  "on_children f [] = passes []"
| "on_children f (c # cs) =
     (case f c of None \<Rightarrow> None | Some (Some m, c) \<Rightarrow> Some (Some m, c # cs)
      | Some (None, c) \<Rightarrow>
          (case on_children f cs of None \<Rightarrow> None | Some (e, cs) \<Rightarrow> Some (e, c # cs)))"

definition on_dictionary :: "('a \<Rightarrow> 'a checked) \<Rightarrow> 'a option \<Rightarrow> 'a option checked" where
  "on_dictionary f d = (case d of None \<Rightarrow> passes None
     | Some c \<Rightarrow> (case f c of None \<Rightarrow> None | Some (e, c) \<Rightarrow> Some (e, Some c)))"

lemma on_children_cong [fundef_cong]:
  "xs = ys \<Longrightarrow> (\<And>x. x \<in> set ys \<Longrightarrow> f x = g x) \<Longrightarrow> on_children f xs = on_children g ys"
proof (induction ys arbitrary: xs)
  case (Cons y ys)
  then show ?case using Cons.IH [of ys] by (auto split: option.splits prod.splits)
qed simp

lemma on_dictionary_cong [fundef_cong]:
  "d = d' \<Longrightarrow> (\<And>x. x \<in> set_option d' \<Longrightarrow> f x = g x) \<Longrightarrow> on_dictionary f d = on_dictionary g d'"
  by (auto simp: on_dictionary_def split: option.splits)

text \<open>Both, after the node itself.\<close>

definition on_rest :: "(array_view \<Rightarrow> array_view checked) \<Rightarrow> array_view \<Rightarrow> array_view checked" where
  "on_rest f v =
     (case on_children f (av_children v) of None \<Rightarrow> None
      | Some (Some m, cs) \<Rightarrow> Some (Some m, View (av_data v) cs (av_dictionary v))
      | Some (None, cs) \<Rightarrow>
          (case on_dictionary f (av_dictionary v) of None \<Rightarrow> None
           | Some (e, dictionary) \<Rightarrow> Some (e, View (av_data v) cs dictionary)))"

lemma on_rest_cong [fundef_cong]:
  assumes "v = v'" "\<And>x. x \<in> set (av_children v') \<Longrightarrow> f x = g x"
    "\<And>x. x \<in> set_option (av_dictionary v') \<Longrightarrow> f x = g x"
  shows "on_rest f v = on_rest g v'"
proof -
  have "on_children f (av_children v) = on_children g (av_children v')"
    "on_dictionary f (av_dictionary v) = on_dictionary g (av_dictionary v')"
    using assms by (auto intro!: on_children_cong on_dictionary_cong)
  then show ?thesis by (simp only: on_rest_def assms(1))
qed

lemma size_child: "x \<in> set (av_children v) \<Longrightarrow> size x < size v"
  by (cases v) (auto dest: size_list_estimation' [where f = size, OF _ order_refl] simp: less_Suc_eq_le trans_le_add1)

lemma size_dictionary: "x \<in> set_option (av_dictionary v) \<Longrightarrow> size x < size v"
  by (cases v) (auto split: option.splits)

section \<open>Memory\<close>

text \<open>A result that is representable in 64 bits; overflow of signed numbers is undefined.\<close>

definition int64 :: "int \<Rightarrow> int option" where
  "int64 i = (if - (2 ^ 63) \<le> i \<and> i < 2 ^ 63 then Some i else None)"

text \<open>Element \<open>i\<close> of an array of elements of \<open>n\<close> bytes.\<close>

definition element :: "block \<Rightarrow> nat \<Rightarrow> int \<Rightarrow> byte list option" where
  "element b n i = do { d \<leftarrow> b; if i < 0 then None else load d (n * nat i) n }"

definition as_int8 :: "block \<Rightarrow> int \<Rightarrow> int option" where
  "as_int8 b i = map_option (\<lambda>bs. sint (of_le_bytes bs :: 8 word)) (element b 1 i)"
definition as_int16 :: "block \<Rightarrow> int \<Rightarrow> int option" where
  "as_int16 b i = map_option (\<lambda>bs. sint (of_le_bytes bs :: 16 word)) (element b 2 i)"
definition as_int32 :: "block \<Rightarrow> int \<Rightarrow> int option" where
  "as_int32 b i = map_option (\<lambda>bs. sint (of_le_bytes bs :: 32 word)) (element b 4 i)"
definition as_int64 :: "block \<Rightarrow> int \<Rightarrow> int option" where
  "as_int64 b i = map_option (\<lambda>bs. sint (of_le_bytes bs :: 64 word)) (element b 8 i)"
definition as_uint8 :: "block \<Rightarrow> int \<Rightarrow> int option" where
  "as_uint8 b i = map_option (\<lambda>bs. uint (of_le_bytes bs :: 8 word)) (element b 1 i)"
definition as_uint16 :: "block \<Rightarrow> int \<Rightarrow> int option" where
  "as_uint16 b i = map_option (\<lambda>bs. uint (of_le_bytes bs :: 16 word)) (element b 2 i)"
definition as_uint32 :: "block \<Rightarrow> int \<Rightarrow> int option" where
  "as_uint32 b i = map_option (\<lambda>bs. uint (of_le_bytes bs :: 32 word)) (element b 4 i)"
definition as_uint64 :: "block \<Rightarrow> int \<Rightarrow> int option" where
  "as_uint64 b i = map_option (\<lambda>bs. uint (of_le_bytes bs :: 64 word)) (element b 8 i)"

text \<open>ArrowBitGet through a pointer.\<close>

definition bit_at :: "block \<Rightarrow> int \<Rightarrow> int option" where
  "bit_at b i = do { d \<leftarrow> b; if i < 0 then None else map_option uint (ArrowBitGet d (nat i)) }"

definition buffer :: "view_data \<Rightarrow> nat \<Rightarrow> buffer_view" where
  "buffer d i = (v_buffers d) ! i"

definition set_buffer_size :: "nat \<Rightarrow> int \<Rightarrow> view_data \<Rightarrow> view_data" where
  "set_buffer_size i n d = d\<lparr>v_buffers := (v_buffers d)[i := (buffer d i)\<lparr>bf_size := n\<rparr>]\<rparr>"

definition buffer_kind :: "view_data \<Rightarrow> nat \<Rightarrow> buffer_type" where
  "buffer_kind d i = ly_type (v_layout d) ! i"

definition element_bits :: "view_data \<Rightarrow> nat \<Rightarrow> int" where
  "element_bits d i = ly_bits (v_layout d) ! i"

text \<open>The functions of the same names on any number; they round towards minus infinity by shifts and masks.\<close>

definition RoundUpToMultipleOf8 :: "int \<Rightarrow> int option" where
  "RoundUpToMultipleOf8 n = map_option (\<lambda>m. m div 8 * 8) (int64 (n + 7))"

definition BytesForBits :: "int \<Rightarrow> int" where
  "BytesForBits bits = bits div 8 + (if bits mod 8 \<noteq> 0 then 1 else 0)"

section \<open>Making a view\<close>

definition ArrowArrayViewInitFromType :: "arrow_type \<Rightarrow> array_view" where
  "ArrowArrayViewInitFromType storage_type =
     View \<lparr>v_offset = 0, v_length = 0, v_null_count = 0, v_storage = storage_type,
           v_layout = ArrowLayoutInit storage_type,
           v_buffers = replicate 3 \<lparr>bf_data = None, bf_size = 0\<rparr>, v_type_id_map = None,
           v_n_variadic = 0, v_variadic = None, v_variadic_sizes = None\<rparr> [] None"

definition ArrowArrayViewReset :: "array_view \<Rightarrow> array_view" where
  "ArrowArrayViewReset v = ArrowArrayViewInitFromType NANOARROW_TYPE_UNINITIALIZED"

definition ArrowArrayViewMove :: "array_view \<Rightarrow> array_view \<times> array_view" where
  "ArrowArrayViewMove src = (ArrowArrayViewInitFromType NANOARROW_TYPE_UNINITIALIZED, src)"

definition ArrowArrayViewAllocateChildren :: "array_view \<Rightarrow> int \<Rightarrow> errno \<times> array_view" where
  "ArrowArrayViewAllocateChildren v n_children =
     (if av_children v \<noteq> [] then (EINVAL, v)
      else if n_children = 0 then (NANOARROW_OK, v)
      else if n_children < 0 then (ENOMEM, v)
      else (NANOARROW_OK, View (av_data v)
              (replicate (nat n_children) (ArrowArrayViewInitFromType NANOARROW_TYPE_UNINITIALIZED)) (av_dictionary v)))"

definition ArrowArrayViewAllocateDictionary :: "array_view \<Rightarrow> errno \<times> array_view" where
  "ArrowArrayViewAllocateDictionary v =
     (if av_dictionary v \<noteq> None then (EINVAL, v)
      else (NANOARROW_OK, View (av_data v) (av_children v)
              (Some (ArrowArrayViewInitFromType NANOARROW_TYPE_UNINITIALIZED))))"

text \<open>_ArrowParseUnionTypeIds with the array it writes: the number it returns and what was written.\<close>

function write_type_ids :: "string \<Rightarrow> int list \<Rightarrow> int \<times> int list" where
  "write_type_ids type_ids out =
     (let (type_id, end_ptr) = strtol type_ids in
      if end_ptr = type_ids \<or> type_id < 0 \<or> type_id > 127 then (- 1, out)
      else if end_ptr = [] then (int (length out) + 1, out @ [type_id])
      else if hd end_ptr \<noteq> CHR '','' then (- 1, out @ [type_id])
      else write_type_ids (tl end_ptr) (out @ [type_id]))"
  by pat_completeness auto
termination
proof (relation "measure (\<lambda>(s, i). length s)", goal_cases)
  case (2 s i p n rest)
  then show ?case using strtol_rest [of s] by (cases "strtol s"; cases rest) auto
qed simp

declare write_type_ids.simps [simp del]

text \<open>
  The map from type ids to children and, from 128 on, from children to type ids.  The loop counts in an
  int8\_t: from 128 children on it never ends, as None.
\<close>

definition union_map :: "string \<Rightarrow> int list option" where
  "union_map type_ids =
     (let (n, ids) = (if type_ids = [] then (0, []) else write_type_ids type_ids []) in
      if length ids > 128 \<or> n \<ge> 128 then None
      else
        (let m = replicate 128 (- 1) @ ids @ replicate (128 - length ids) (- 1) in
         Some (fold (\<lambda>child_index m. m[nat (m ! nat (128 + child_index)) := child_index]) [0..n - 1] m)))"

text \<open>
  A failure below resets the view; a failure to read the schema leaves it as it was.  The children of the
  schema are read through the pointers.
\<close>

definition with_data :: "(view_data \<Rightarrow> view_data) \<Rightarrow> array_view \<Rightarrow> array_view" where
  "with_data f v = View (f (av_data v)) (av_children v) (av_dictionary v)"

definition reset_on_failure :: "array_view checked \<Rightarrow> array_view checked" where
  "reset_on_failure r = (case r of None \<Rightarrow> None
     | Some (Some m, v) \<Rightarrow> Some (Some m, ArrowArrayViewReset v) | Some (None, v) \<Rightarrow> Some (None, v))"

fun ArrowArrayViewInitFromSchema :: "schema_view \<Rightarrow> array_view \<Rightarrow> arrow_schema option \<Rightarrow> array_view checked"
  and init_view_children ::
    "schema_view \<Rightarrow> array_view list \<Rightarrow> arrow_schema option list \<Rightarrow> array_view list checked"
where
  "ArrowArrayViewInitFromSchema vw v None =
     (case ArrowSchemaViewInit vw None of None \<Rightarrow> None | Some (Inl m) \<Rightarrow> Some (Some m, v) | Some (Inr _) \<Rightarrow> None)"
| "ArrowArrayViewInitFromSchema vw v (Some Released) =
     (case ArrowSchemaViewInit vw (Some Released) of None \<Rightarrow> None | Some (Inl m) \<Rightarrow> Some (Some m, v)
      | Some (Inr _) \<Rightarrow> None)"
| "ArrowArrayViewInitFromSchema vw v (Some (Schema f n m fl k cs d)) =
     (case ArrowSchemaViewInit vw (Some (Schema f n m fl k cs d)) of None \<Rightarrow> None
      | Some (Inl message) \<Rightarrow> Some (Some message, v)
      | Some (Inr schema_view) \<Rightarrow>
          (let v = with_data (\<lambda>d. d\<lparr>v_layout := vw_layout schema_view\<rparr>)
                     (ArrowArrayViewInitFromType (vw_storage schema_view));
               (e, v) = ArrowArrayViewAllocateChildren v k
           in if e \<noteq> NANOARROW_OK
              then fails ''ArrowArrayViewAllocateChildren() failed'' (ArrowArrayViewReset v)
              else
                ok_then
                  (reset_on_failure
                    (case cs of
                       None \<Rightarrow> if k > 0 then None else passes v
                     | Some schemas \<Rightarrow>
                         (case init_view_children vw (av_children v) schemas of None \<Rightarrow> None
                          | Some (e, children) \<Rightarrow> Some (e, View (av_data v) children (av_dictionary v))))) (\<lambda>v.
                ok_then
                  (reset_on_failure
                    (case d of
                       None \<Rightarrow> passes v
                     | Some dictionary \<Rightarrow>
                         (case snd (ArrowArrayViewAllocateDictionary v) of View data children allocated \<Rightarrow>
                          (case ArrowArrayViewInitFromSchema vw
                                  (ArrowArrayViewInitFromType NANOARROW_TYPE_UNINITIALIZED) (Some dictionary) of
                             None \<Rightarrow> None
                           | Some (e, dv) \<Rightarrow> Some (e, View data children (Some dv)))))) (\<lambda>v.
                if v_storage (av_data v) \<in> {NANOARROW_TYPE_SPARSE_UNION, NANOARROW_TYPE_DENSE_UNION}
                then (case union_map (vw_union_type_ids schema_view) of None \<Rightarrow> None
                      | Some type_id_map \<Rightarrow> passes (with_data (\<lambda>d. d\<lparr>v_type_id_map := Some type_id_map\<rparr>) v))
                else passes v))))"
| "init_view_children vw [] schemas = passes []"
| "init_view_children vw (v # vs) [] = None"
| "init_view_children vw (v # vs) (s # schemas) =
     (case ArrowArrayViewInitFromSchema vw v s of None \<Rightarrow> None
      | Some (Some m, v) \<Rightarrow> Some (Some m, v # vs)
      | Some (None, v) \<Rightarrow>
          (case init_view_children vw vs schemas of None \<Rightarrow> None | Some (e, vs) \<Rightarrow> Some (e, v # vs)))"

section \<open>Floating-point numbers\<close>

text \<open>
  Floating-point numbers are their bits.  Converting one to an integer drops the fraction, and is undefined
  for what is not finite.
\<close>

definition ArrowFloatToHalfFloat :: "32 word \<Rightarrow> 16 word" where
  "ArrowFloatToHalfFloat b =
     (let sn = ucast (drop_bit 31 b AND 0x1) :: 16 word;
          exp = ucast (drop_bit 23 b AND 0xff) :: 16 word;
          res = exp - 127 + 15;
          fc = ucast (drop_bit 13 b) AND 0x3ff :: 16 word;
          (res, fc) =
            (if exp = 0 then (0, fc)
             else if exp = 0xff then (0x1f, fc)
             else if sint res > 0x1e then (0x1f, 0)
             else if sint res < 0x01 then (0, 0)
             else (res, fc))
      in push_bit 15 sn OR push_bit 10 res OR fc)"

definition ArrowHalfFloatToFloat :: "16 word \<Rightarrow> 32 word" where
  "ArrowHalfFloatToFloat v =
     (let sn = ucast (drop_bit 15 v AND 0x1) :: 32 word;
          exp = ucast (drop_bit 10 v AND 0x1f) :: 32 word;
          res = exp + 127 - 15;
          fc = ucast (v AND 0x3ff) :: 32 word;
          res = (if exp = 0 then 0 else if exp = 0x1f then 0xff else res)
      in push_bit 31 sn OR push_bit 23 res OR push_bit 13 fc)"

definition truncate_bits :: "nat \<Rightarrow> nat \<Rightarrow> int \<Rightarrow> int option" where
  "truncate_bits exponent_bits fraction_bits b =
     (let fraction = b mod 2 ^ fraction_bits;
          exponent = b div 2 ^ fraction_bits mod 2 ^ exponent_bits;
          sign = b div 2 ^ (fraction_bits + exponent_bits);
          significand = (if exponent = 0 then fraction else 2 ^ fraction_bits + fraction);
          shift = (if exponent = 0 then 1 else exponent) - (2 ^ (exponent_bits - 1) - 1) - int fraction_bits;
          magnitude = (if shift \<ge> 0 then significand * 2 ^ nat shift else significand div 2 ^ nat (- shift))
      in if exponent = 2 ^ exponent_bits - 1 then None
         else Some (if sign = 1 then - magnitude else magnitude))"

definition double_to_int :: "int \<Rightarrow> int option" where
  "double_to_int b = truncate_bits 11 52 b"
definition float_to_int :: "int \<Rightarrow> int option" where
  "float_to_int b = truncate_bits 8 23 b"

definition half_to_int :: "int \<Rightarrow> int option" where
  "half_to_int b = float_to_int (uint (ArrowHalfFloatToFloat (word_of_int b)))"

text \<open>The conversion to an unsigned number; what has no value in it is undefined.\<close>

definition uint64 :: "int \<Rightarrow> int option" where
  "uint64 i = (if 0 \<le> i \<and> i < 2 ^ 64 then Some i else None)"

section \<open>Reading values\<close>

text \<open>The number at a place, which for a floating-point type is converted with the function given.\<close>

definition number_at :: "(int \<Rightarrow> int option) \<Rightarrow> view_data \<Rightarrow> int \<Rightarrow> int option" where
  "number_at convert d i =
     (let data = bf_data (buffer d 1); i = i + v_offset d in
      (case v_storage d of
         NANOARROW_TYPE_INT64 \<Rightarrow> as_int64 data i
       | NANOARROW_TYPE_UINT64 \<Rightarrow> as_uint64 data i
       | NANOARROW_TYPE_INTERVAL_MONTHS \<Rightarrow> as_int32 data i
       | NANOARROW_TYPE_INT32 \<Rightarrow> as_int32 data i
       | NANOARROW_TYPE_UINT32 \<Rightarrow> as_uint32 data i
       | NANOARROW_TYPE_INT16 \<Rightarrow> as_int16 data i
       | NANOARROW_TYPE_UINT16 \<Rightarrow> as_uint16 data i
       | NANOARROW_TYPE_INT8 \<Rightarrow> as_int8 data i
       | NANOARROW_TYPE_UINT8 \<Rightarrow> as_uint8 data i
       | NANOARROW_TYPE_DOUBLE \<Rightarrow> do { b \<leftarrow> as_uint64 data i; n \<leftarrow> double_to_int b; convert n }
       | NANOARROW_TYPE_FLOAT \<Rightarrow> do { b \<leftarrow> as_uint32 data i; n \<leftarrow> float_to_int b; convert n }
       | NANOARROW_TYPE_HALF_FLOAT \<Rightarrow> do { b \<leftarrow> as_uint16 data i; n \<leftarrow> half_to_int b; convert n }
       | NANOARROW_TYPE_BOOL \<Rightarrow> bit_at data i
       | _ \<Rightarrow> None))"

definition has_numbers :: "arrow_type \<Rightarrow> bool" where
  "has_numbers t \<longleftrightarrow> t \<in> {NANOARROW_TYPE_INT64, NANOARROW_TYPE_UINT64, NANOARROW_TYPE_INTERVAL_MONTHS,
     NANOARROW_TYPE_INT32, NANOARROW_TYPE_UINT32, NANOARROW_TYPE_INT16, NANOARROW_TYPE_UINT16, NANOARROW_TYPE_INT8,
     NANOARROW_TYPE_UINT8, NANOARROW_TYPE_DOUBLE, NANOARROW_TYPE_FLOAT, NANOARROW_TYPE_HALF_FLOAT, NANOARROW_TYPE_BOOL}"

text \<open>As the result has 64 bits, an unsigned one above them is wrapped, and for unsigned ones a negative one.\<close>

definition ArrowArrayViewGetIntUnsafe :: "view_data \<Rightarrow> int \<Rightarrow> int option" where
  "ArrowArrayViewGetIntUnsafe d i =
     (if has_numbers (v_storage d)
      then map_option (\<lambda>n. sint (word_of_int n :: 64 word)) (number_at int64 d i) else Some (2 ^ 63 - 1))"

definition ArrowArrayViewGetUIntUnsafe :: "view_data \<Rightarrow> int \<Rightarrow> int option" where
  "ArrowArrayViewGetUIntUnsafe d i =
     (if has_numbers (v_storage d)
      then map_option (\<lambda>n. uint (word_of_int n :: 64 word)) (number_at uint64 d i) else Some (2 ^ 64 - 1))"

definition ArrowArrayViewIsNull :: "view_data \<Rightarrow> int \<Rightarrow> bool option" where
  "ArrowArrayViewIsNull d i =
     (let validity_buffer = bf_data (buffer d 0); i = i + v_offset d in
      if v_storage d = NANOARROW_TYPE_NA then Some True
      else if v_storage d \<in> {NANOARROW_TYPE_DENSE_UNION, NANOARROW_TYPE_SPARSE_UNION} then Some False
      else if validity_buffer = None then Some False
      else map_option (\<lambda>b. b = 0) (bit_at validity_buffer i))"

definition ArrowArrayViewComputeNullCount :: "view_data \<Rightarrow> int option" where
  "ArrowArrayViewComputeNullCount d =
     (if v_length d = 0 then Some 0
      else if v_storage d = NANOARROW_TYPE_NA then Some (v_length d)
      else if v_storage d \<in> {NANOARROW_TYPE_DENSE_UNION, NANOARROW_TYPE_SPARSE_UNION} then Some 0
      else (case bf_data (buffer d 0) of
         None \<Rightarrow> Some 0
       | Some validity_buffer \<Rightarrow>
           map_option (\<lambda>n. v_length d - int n)
             (ArrowBitCountSet validity_buffer (nat (v_offset d)) (nat (v_length d)))))"

definition ArrowArrayViewUnionTypeId :: "view_data \<Rightarrow> int \<Rightarrow> int option" where
  "ArrowArrayViewUnionTypeId d i =
     (if v_storage d \<in> {NANOARROW_TYPE_DENSE_UNION, NANOARROW_TYPE_SPARSE_UNION}
      then as_int8 (bf_data (buffer d 0)) (v_offset d + i) else Some (- 1))"

definition ArrowArrayViewUnionChildIndex :: "view_data \<Rightarrow> int \<Rightarrow> int option" where
  "ArrowArrayViewUnionChildIndex d i =
     do {
       type_id \<leftarrow> ArrowArrayViewUnionTypeId d i;
       (case v_type_id_map d of
          None \<Rightarrow> Some type_id
        | Some m \<Rightarrow> if 0 \<le> type_id \<and> nat type_id < length m then Some (m ! nat type_id) else None)
     }"

definition ArrowArrayViewUnionChildOffset :: "view_data \<Rightarrow> int \<Rightarrow> int option" where
  "ArrowArrayViewUnionChildOffset d i =
     (if v_storage d = NANOARROW_TYPE_DENSE_UNION then as_int32 (bf_data (buffer d 1)) (v_offset d + i)
      else if v_storage d = NANOARROW_TYPE_SPARSE_UNION then Some (v_offset d + i)
      else Some (- 1))"

definition ArrowArrayViewListChildOffset :: "view_data \<Rightarrow> int \<Rightarrow> int option" where
  "ArrowArrayViewListChildOffset d i =
     (if v_storage d \<in> {NANOARROW_TYPE_LIST, NANOARROW_TYPE_MAP, NANOARROW_TYPE_LIST_VIEW}
      then as_int32 (bf_data (buffer d 1)) i
      else if v_storage d \<in> {NANOARROW_TYPE_LARGE_LIST, NANOARROW_TYPE_LARGE_LIST_VIEW}
      then as_int64 (bf_data (buffer d 1)) i
      else Some (- 1))"

text \<open>
  Pointer arithmetic: the memory from a byte of a block on.  The null pointer moved by zero is null;
  moving before the start or past the end is undefined.
\<close>

definition advance :: "block \<Rightarrow> int \<Rightarrow> block option" where
  "advance b n = (case b of None \<Rightarrow> if n = 0 then Some None else None
     | Some d \<Rightarrow> if 0 \<le> n \<and> n \<le> int (length d) then Some (Some (drop (nat n) d)) else None)"

text \<open>A binary view has 16 bytes: the size, then the bytes or a prefix, a buffer and an offset.\<close>

definition ArrowArrayViewGetBytesFromViewArrayUnsafe :: "view_data \<Rightarrow> int \<Rightarrow> buffer_view option" where
  "ArrowArrayViewGetBytesFromViewArrayUnsafe d i =
     do {
       bv \<leftarrow> element (bf_data (buffer d 1)) 16 i;
       let size = sint (of_le_bytes (take 4 bv) :: 32 word);
       if size \<le> 12 then Some \<lparr>bf_data = Some (drop 4 bv), bf_size = size\<rparr>
       else do {
         let buffer_index = sint (of_le_bytes (take 4 (drop 8 bv)) :: 32 word);
         let offset = sint (of_le_bytes (drop 12 bv) :: 32 word);
         pointers \<leftarrow> v_variadic d;
         data \<leftarrow> (if 0 \<le> buffer_index \<and> nat buffer_index < length pointers
                then Some (pointers ! nat buffer_index) else None);
         data \<leftarrow> advance data offset;
         Some \<lparr>bf_data = data, bf_size = size\<rparr>
       }
     }"

definition bytes_between :: "(block \<Rightarrow> int \<Rightarrow> int option) \<Rightarrow> view_data \<Rightarrow> int \<Rightarrow> buffer_view option" where
  "bytes_between as_offset d i =
     do {
       from \<leftarrow> as_offset (bf_data (buffer d 1)) i;
       to \<leftarrow> as_offset (bf_data (buffer d 1)) (i + 1);
       data \<leftarrow> advance (bf_data (buffer d 2)) from;
       Some \<lparr>bf_data = data, bf_size = to - from\<rparr>
     }"

definition ArrowArrayViewGetBytesUnsafe :: "view_data \<Rightarrow> int \<Rightarrow> buffer_view option" where
  "ArrowArrayViewGetBytesUnsafe d i =
     (let i = i + v_offset d in
      if v_storage d \<in> {NANOARROW_TYPE_STRING, NANOARROW_TYPE_BINARY} then bytes_between as_int32 d i
      else if v_storage d \<in> {NANOARROW_TYPE_LARGE_STRING, NANOARROW_TYPE_LARGE_BINARY} then bytes_between as_int64 d i
      else if v_storage d = NANOARROW_TYPE_FIXED_SIZE_BINARY then
        (let size = element_bits d 1 div 8 in
         map_option (\<lambda>data. \<lparr>bf_data = data, bf_size = size\<rparr>) (advance (bf_data (buffer d 1)) (i * size)))
      else if v_storage d \<in> {NANOARROW_TYPE_STRING_VIEW, NANOARROW_TYPE_BINARY_VIEW}
      then ArrowArrayViewGetBytesFromViewArrayUnsafe d i
      else Some \<lparr>bf_data = None, bf_size = 0\<rparr>)"

definition ArrowArrayViewGetStringUnsafe :: "view_data \<Rightarrow> int \<Rightarrow> string_view option" where
  "ArrowArrayViewGetStringUnsafe d i =
     map_option (\<lambda>b. \<lparr>sv_data = bf_data b, sv_size = bf_size b\<rparr>) (ArrowArrayViewGetBytesUnsafe d i)"

record arrow_interval =
  iv_type :: arrow_type
  iv_months :: int
  iv_days :: int
  iv_ms :: int
  iv_ns :: int

definition ArrowIntervalInit :: "arrow_type \<Rightarrow> arrow_interval" where
  "ArrowIntervalInit t = \<lparr>iv_type = t, iv_months = 0, iv_days = 0, iv_ms = 0, iv_ns = 0\<rparr>"

definition ArrowArrayViewGetIntervalUnsafe :: "view_data \<Rightarrow> int \<Rightarrow> arrow_interval \<Rightarrow> arrow_interval option" where
  "ArrowArrayViewGetIntervalUnsafe d i out =
     (let data = bf_data (buffer d 1); i = v_offset d + i;
          int32_of = (\<lambda>bs. sint (of_le_bytes bs :: 32 word)); int64_of = (\<lambda>bs. sint (of_le_bytes bs :: 64 word))
      in if v_storage d = NANOARROW_TYPE_INTERVAL_MONTHS
         then map_option (\<lambda>bs. out\<lparr>iv_months := int32_of bs\<rparr>) (element data 4 i)
         else if v_storage d = NANOARROW_TYPE_INTERVAL_DAY_TIME
         then map_option (\<lambda>bs. out\<lparr>iv_days := int32_of (take 4 bs), iv_ms := int32_of (drop 4 bs)\<rparr>) (element data 8 i)
         else if v_storage d = NANOARROW_TYPE_INTERVAL_MONTH_DAY_NANO
         then map_option (\<lambda>bs. out\<lparr>iv_months := int32_of (take 4 bs), iv_days := int32_of (take 4 (drop 4 bs)),
                iv_ns := int64_of (drop 8 bs)\<rparr>) (element data 16 i)
         else Some out)"

text \<open>Copying as many bytes as the decimal has words, from the place of the element.\<close>

definition ArrowArrayViewGetDecimalUnsafe :: "view_data \<Rightarrow> int \<Rightarrow> arrow_decimal \<Rightarrow> arrow_decimal option" where
  "ArrowArrayViewGetDecimalUnsafe d i out =
     (let i = i + v_offset d;
          copy = (\<lambda>size. do { p \<leftarrow> advance (bf_data (buffer d 1)) (i * size); p \<leftarrow> p; ArrowDecimalSetBytes out p })
      in if v_storage d = NANOARROW_TYPE_DECIMAL32 then copy 4
         else if v_storage d = NANOARROW_TYPE_DECIMAL64 then copy 8
         else if v_storage d = NANOARROW_TYPE_DECIMAL128 then copy 16
         else if v_storage d = NANOARROW_TYPE_DECIMAL256 then copy 32
         else Some (out\<lparr>dc_words := replicate 4 0\<rparr>))"

section \<open>The buffers of a view\<close>

definition binary_view_types :: "arrow_type list" where
  "binary_view_types = [NANOARROW_TYPE_BINARY_VIEW, NANOARROW_TYPE_STRING_VIEW]"

definition ArrowArrayViewGetNumBuffers :: "view_data \<Rightarrow> int" where
  "ArrowArrayViewGetNumBuffers d =
     (if v_storage d \<in> set binary_view_types then 2 + v_n_variadic d + 1
      else int (length (takeWhile (\<lambda>t. t \<noteq> NANOARROW_BUFFER_TYPE_NONE) (take 3 (ly_type (v_layout d))))))"

text \<open>The index is not negative, by the contract of these functions.\<close>

definition ArrowArrayViewGetBufferView :: "view_data \<Rightarrow> nat \<Rightarrow> buffer_view option" where
  "ArrowArrayViewGetBufferView d i =
     (if v_storage d \<in> set binary_view_types then
        (if i < 2 then Some (buffer d i)
         else if int i \<ge> v_n_variadic d + 2
         then Some \<lparr>bf_data = v_variadic_sizes d, bf_size = v_n_variadic d * 8\<rparr>
         else do {
           pointers \<leftarrow> v_variadic d;
           data \<leftarrow> (if i - 2 < length pointers then Some (pointers ! (i - 2)) else None);
           size \<leftarrow> as_int64 (v_variadic_sizes d) (int i - 2);
           Some \<lparr>bf_data = data, bf_size = size\<rparr>
         })
      else if i \<ge> 3 then Some \<lparr>bf_data = None, bf_size = 0\<rparr>
      else Some (buffer d i))"

definition ArrowArrayViewGetBufferType :: "view_data \<Rightarrow> nat \<Rightarrow> buffer_type" where
  "ArrowArrayViewGetBufferType d i =
     (if v_storage d \<in> set binary_view_types then
        (if i < 2 then buffer_kind d i
         else if int i = v_n_variadic d + 2 then NANOARROW_BUFFER_TYPE_VARIADIC_SIZE
         else NANOARROW_BUFFER_TYPE_VARIADIC_DATA)
      else if i \<ge> 3 then NANOARROW_BUFFER_TYPE_NONE else buffer_kind d i)"

definition ArrowArrayViewGetBufferDataType :: "view_data \<Rightarrow> nat \<Rightarrow> arrow_type" where
  "ArrowArrayViewGetBufferDataType d i =
     (if v_storage d \<in> set binary_view_types then
        (if i < 2 then ly_data_type (v_layout d) ! i
         else if int i \<ge> v_n_variadic d + 2 then NANOARROW_TYPE_INT64
         else if v_storage d = NANOARROW_TYPE_BINARY_VIEW then NANOARROW_TYPE_BINARY
         else NANOARROW_TYPE_STRING)
      else if i \<ge> 3 then NANOARROW_TYPE_UNINITIALIZED else ly_data_type (v_layout d) ! i)"

definition ArrowArrayViewGetBufferElementSizeBits :: "view_data \<Rightarrow> nat \<Rightarrow> int" where
  "ArrowArrayViewGetBufferElementSizeBits d i =
     (if v_storage d \<in> set binary_view_types then
        (if i < 2 then element_bits d i else if int i \<ge> v_n_variadic d + 2 then 64 else 0)
      else if i \<ge> 3 then 0 else element_bits d i)"

section \<open>Sizes from a length\<close>

definition length_size :: "view_data \<Rightarrow> int \<Rightarrow> nat \<Rightarrow> int option" where
  "length_size d n i =
     (let element_size_bytes = element_bits d i div 8 in
      (case buffer_kind d i of
         NANOARROW_BUFFER_TYPE_VALIDITY \<Rightarrow> Some (BytesForBits n)
       | NANOARROW_BUFFER_TYPE_DATA_OFFSET \<Rightarrow>
           do { m \<leftarrow> int64 (n + 1); int64 ((if n \<noteq> 0 then element_size_bytes else 0) * m) }
       | NANOARROW_BUFFER_TYPE_DATA \<Rightarrow>
           do { bits \<leftarrow> int64 (element_bits d i * n); bits \<leftarrow> RoundUpToMultipleOf8 bits; Some (bits div 8) }
       | NANOARROW_BUFFER_TYPE_TYPE_ID \<Rightarrow> int64 (element_size_bytes * n)
       | NANOARROW_BUFFER_TYPE_UNION_OFFSET \<Rightarrow> int64 (element_size_bytes * n)
       | NANOARROW_BUFFER_TYPE_VIEW_OFFSET \<Rightarrow> int64 (element_size_bytes * n)
       | NANOARROW_BUFFER_TYPE_SIZE \<Rightarrow> int64 (element_size_bytes * n)
       | _ \<Rightarrow> Some 0))"

fun ArrowArrayViewSetLength :: "array_view \<Rightarrow> int \<Rightarrow> array_view option" where
  "ArrowArrayViewSetLength (View d cs dictionary) n =
     do {
       size0 \<leftarrow> length_size d n 0;
       size1 \<leftarrow> length_size d n 1;
       size2 \<leftarrow> length_size d n 2;
       let d' = set_buffer_size 2 size2 (set_buffer_size 1 size1 (set_buffer_size 0 size0 d));
       cs' \<leftarrow> (if v_storage d \<in> {NANOARROW_TYPE_STRUCT, NANOARROW_TYPE_SPARSE_UNION}
              then those (map (\<lambda>c. ArrowArrayViewSetLength c n) cs)
              else if v_storage d = NANOARROW_TYPE_FIXED_SIZE_LIST then
                (case cs of [] \<Rightarrow> Some []
                 | c # rest \<Rightarrow>
                     do { m \<leftarrow> int64 (n * ly_child (v_layout d)); c' \<leftarrow> ArrowArrayViewSetLength c m; Some (c' # rest) })
              else Some cs);
       Some (View d' cs' dictionary)
     }"

section \<open>Attaching an array\<close>

text \<open>The pointers of the fixed buffers; a buffer that is not null has an unknown size.\<close>

fun attach_buffers :: "nat \<Rightarrow> block list \<Rightarrow> buffer_view list \<Rightarrow> buffer_view list option" where
  "attach_buffers 0 pointers views = Some views"
| "attach_buffers (Suc n) (p # pointers) (v # views) =
     map_option (Cons \<lparr>bf_data = p, bf_size = (if p = None then 0 else - 1)\<rparr>) (attach_buffers n pointers views)"
| "attach_buffers (Suc n) _ _ = None"

text \<open>What is taken from the array itself, with the number of buffers required.\<close>

definition attach_array :: "view_data \<Rightarrow> arrow_array \<Rightarrow> (view_data \<times> int) option" where
  "attach_array d a =
     (let is_view = v_storage d \<in> set binary_view_types;
          nfixed_buf = (if is_view then 2 else 3 :: nat);
          required = length (takeWhile (\<lambda>t. t \<noteq> NANOARROW_BUFFER_TYPE_NONE) (take nfixed_buf (ly_type (v_layout d))));
          d = d\<lparr>v_offset := ar_offset a, v_length := ar_length a, v_null_count := ar_null_count a,
                v_variadic_sizes := None, v_variadic := None, v_n_variadic := 0\<rparr>
      in do {
        views \<leftarrow> attach_buffers required (ar_buffers a) (v_buffers d);
        let d = d\<lparr>v_buffers := views\<rparr>;
        if is_view then
          (let nvariadic_buf = to_int32 (ar_n_buffers a - 2 - 1); last_buffer = ar_n_buffers a - 1 in
           if 0 \<le> last_buffer \<and> nat last_buffer < length (ar_buffers a)
           then Some (d\<lparr>v_n_variadic := nvariadic_buf, v_variadic := Some (drop 2 (ar_buffers a)),
                        v_variadic_sizes := ar_buffers a ! nat last_buffer\<rparr>, int required + (nvariadic_buf + 1))
           else None)
        else Some (d, int required)
      })"

fun ArrowArrayViewSetArrayInternal :: "array_view \<Rightarrow> arrow_array option \<Rightarrow> array_view checked"
  and set_child_arrays :: "array_view list \<Rightarrow> arrow_array option list \<Rightarrow> array_view list checked"
where
  "ArrowArrayViewSetArrayInternal v None = None"
| "ArrowArrayViewSetArrayInternal (View d cs dictionary) (Some a) =
     (case attach_array d a of None \<Rightarrow> None
      | Some (d, buffers_required) \<Rightarrow>
          if buffers_required \<noteq> ar_n_buffers a
          then fails (''Expected array with '' @ int_to_string buffers_required @ '' buffer(s) but found '' @
                 int_to_string (ar_n_buffers a) @ '' buffer(s)'') (View d cs dictionary)
          else if int (length cs) \<noteq> ar_n_children a
          then fails (''Expected '' @ int_to_string (int (length cs)) @ '' children but found '' @
                 int_to_string (ar_n_children a) @ '' children'') (View d cs dictionary)
          else
            (case set_child_arrays cs (ar_children a) of None \<Rightarrow> None
             | Some (Some m, cs) \<Rightarrow> Some (Some m, View d cs dictionary)
             | Some (None, cs) \<Rightarrow>
                 (case ar_dictionary a of
                    None \<Rightarrow>
                      if dictionary \<noteq> None then fails ''Expected dictionary but found NULL'' (View d cs dictionary)
                      else passes (View d cs dictionary)
                  | Some array_dictionary \<Rightarrow>
                      (case dictionary of
                         None \<Rightarrow> fails ''Expected NULL dictionary but found dictionary member'' (View d cs dictionary)
                       | Some dv \<Rightarrow>
                           (case ArrowArrayViewSetArrayInternal dv (Some array_dictionary) of None \<Rightarrow> None
                            | Some (e, dv) \<Rightarrow> Some (e, View d cs (Some dv)))))))"
| "set_child_arrays [] arrays = passes []"
| "set_child_arrays (v # vs) [] = None"
| "set_child_arrays (v # vs) (a # arrays) =
     (case ArrowArrayViewSetArrayInternal v a of None \<Rightarrow> None
      | Some (Some m, v) \<Rightarrow> Some (Some m, v # vs)
      | Some (None, v) \<Rightarrow>
          (case set_child_arrays vs arrays of None \<Rightarrow> None | Some (e, vs) \<Rightarrow> Some (e, v # vs)))"

end
