(* ===== verification/Arrow_Array_Validation.thy ===== *)
theory Arrow_Array_Validation
  imports Arrow_Array_View
begin

text \<open>
  The three levels of validation of a view of an array (adbc\_nanoarrow.cpp, ArrowArrayViewValidate*).
  Minimal validation checks what needs no buffer to be read, and sets the sizes of the buffers that are
  unknown; default validation reads the first and last offsets; full validation reads every offset and
  type id.
\<close>

section \<open>Minimal validation\<close>

text \<open>The size a buffer needs for the elements before the end of the array.\<close>

definition min_buffer_size :: "view_data \<Rightarrow> int \<Rightarrow> nat \<Rightarrow> int option" where
  "min_buffer_size d n i =
     (let element_size_bytes = element_bits d i div 8; present = (if n \<noteq> 0 then 1 else 0) in
      (case buffer_kind d i of
         NANOARROW_BUFFER_TYPE_VALIDITY \<Rightarrow> Some (BytesForBits n)
       | NANOARROW_BUFFER_TYPE_SIZE \<Rightarrow> int64 (element_size_bytes * n)
       | NANOARROW_BUFFER_TYPE_DATA_OFFSET \<Rightarrow>
           do { m \<leftarrow> int64 (n + 1); int64 (present * element_size_bytes * m) }
       | NANOARROW_BUFFER_TYPE_VIEW_OFFSET \<Rightarrow> int64 (present * element_size_bytes * n)
       | NANOARROW_BUFFER_TYPE_DATA \<Rightarrow>
           do { bits \<leftarrow> int64 (element_bits d i * n); bits \<leftarrow> RoundUpToMultipleOf8 bits; Some (bits div 8) }
       | _ \<Rightarrow> int64 (element_size_bytes * n)))"

definition needs_no_check :: "view_data \<Rightarrow> nat \<Rightarrow> bool" where
  "needs_no_check d i \<longleftrightarrow>
     buffer_kind d i = NANOARROW_BUFFER_TYPE_VALIDITY \<and> v_null_count d = 0 \<and> bf_size (buffer d i) = 0
     \<or> buffer_kind d i \<in> {NANOARROW_BUFFER_TYPE_VARIADIC_DATA, NANOARROW_BUFFER_TYPE_VARIADIC_SIZE,
          NANOARROW_BUFFER_TYPE_NONE}"

text \<open>The text printed for a type; printing a null pointer is undefined.\<close>

definition too_small :: "view_data \<Rightarrow> nat \<Rightarrow> int \<Rightarrow> view_data checked" where
  "too_small d i n =
     do {
       name \<leftarrow> ArrowTypeString (v_storage d);
       fails (''Expected '' @ name @ '' array buffer '' @ nat_to_string i @ '' to have size >= '' @ int_to_string n @
         '' bytes but found buffer with '' @ int_to_string (bf_size (buffer d i)) @ '' bytes'') d
     }"

text \<open>An unknown size is assigned, a known one must be enough.\<close>

definition assign_or_check :: "nat \<Rightarrow> int \<Rightarrow> view_data \<Rightarrow> view_data checked" where
  "assign_or_check i n d =
     (if bf_size (buffer d i) = - 1 then passes (set_buffer_size i n d)
      else if bf_size (buffer d i) < n then too_small d i n
      else passes d)"

definition check_buffer :: "nat \<Rightarrow> view_data \<Rightarrow> view_data checked" where
  "check_buffer i d =
     (if needs_no_check d i then passes d
      else do { n \<leftarrow> min_buffer_size d (v_offset d + v_length d) i; assign_or_check i n d })"

definition expected_children :: "view_data \<Rightarrow> string \<Rightarrow> array_view list \<Rightarrow> view_data checked" where
  "expected_children d expected cs =
     do {
       name \<leftarrow> ArrowTypeString (v_storage d);
       fails (''Expected '' @ expected @ name @ '' array but found '' @ int_to_string (int (length cs)) @
         '' child arrays'') d
     }"

definition check_n_children :: "view_data \<Rightarrow> array_view list \<Rightarrow> view_data checked" where
  "check_n_children d cs =
     (if v_storage d \<in> {NANOARROW_TYPE_LIST, NANOARROW_TYPE_LARGE_LIST, NANOARROW_TYPE_FIXED_SIZE_LIST,
          NANOARROW_TYPE_MAP, NANOARROW_TYPE_LIST_VIEW, NANOARROW_TYPE_LARGE_LIST_VIEW}
      then (if length cs \<noteq> 1 then expected_children d ''1 child of '' cs else passes d)
      else if v_storage d = NANOARROW_TYPE_RUN_END_ENCODED
      then (if length cs \<noteq> 2 then expected_children d ''2 children for '' cs else passes d)
      else passes d)"

text \<open>The loop over the children of a struct or a sparse union.\<close>

fun check_struct_children :: "int \<Rightarrow> nat \<Rightarrow> array_view list \<Rightarrow> view_data \<Rightarrow> view_data checked" where
  "check_struct_children n i [] d = passes d"
| "check_struct_children n i (c # cs) d =
     (if v_length (av_data c) < n
      then fails (''Expected struct child '' @ nat_to_string (i + 1) @ '' to have length >= '' @ int_to_string n @
             '' but found child with length '' @ int_to_string (v_length (av_data c))) d
      else check_struct_children n (i + 1) cs d)"

definition run_end_limit :: "arrow_type \<Rightarrow> int option" where
  "run_end_limit t = (if t = NANOARROW_TYPE_INT16 then Some (2 ^ 15 - 1)
     else if t = NANOARROW_TYPE_INT32 then Some (2 ^ 31 - 1)
     else if t = NANOARROW_TYPE_INT64 then Some (2 ^ 63 - 1) else None)"

definition check_run_ends :: "view_data \<Rightarrow> array_view list \<Rightarrow> view_data checked" where
  "check_run_ends d cs =
     (case cs of [run_ends, vals] \<Rightarrow>
        (let re = av_data run_ends; ve = av_data vals; n = v_offset d + v_length d in
         do {
           name \<leftarrow> ArrowTypeString (v_storage re);
           (case run_end_limit (v_storage re) of
              None \<Rightarrow>
                fails (''Run-end encoded array only supports INT16, INT32 or INT64 run-ends but found run-ends type '' @ name) d
            | Some max_length \<Rightarrow>
                if n > max_length
                then fails (''Offset + length of a run-end encoded array must fit in a value of the run end type '' @ name @
                       '' but is '' @ int_to_string (v_offset d) @ '' + '' @ int_to_string (v_length d)) d
                else if v_length re > v_length ve
                then fails (''Length of run_ends is greater than the length of values: '' @ int_to_string (v_length re) @
                       '' > '' @ int_to_string (v_length ve)) d
                else if v_length re = 0 \<and> v_length ve \<noteq> 0
                then fails (''Run-end encoded array has zero length '' @ int_to_string (v_length ve) @
                       '', but values array has non-zero length'') d
                else if v_null_count re \<noteq> 0
                then fails (''Null count must be 0 for run ends array, but is '' @ int_to_string (v_null_count re)) d
                else passes d)
         })
      | _ \<Rightarrow> fails (''Expected 2 children for run-end encoded array but found '' @ int_to_string (int (length cs))) d)"

definition check_fixed_size_child :: "view_data \<Rightarrow> array_view list \<Rightarrow> view_data checked" where
  "check_fixed_size_child d cs =
     do {
       child_min_length \<leftarrow> int64 ((v_offset d + v_length d) * ly_child (v_layout d));
       child \<leftarrow> (case cs of [] \<Rightarrow> None | c # _ \<Rightarrow> Some (av_data c));
       if v_length child < child_min_length
       then fails (''Expected child of fixed_size_list array to have length >= '' @ int_to_string child_min_length @
              '' but found array with length '' @ int_to_string (v_length child)) d
       else passes d
     }"

definition check_child_lengths :: "view_data \<Rightarrow> array_view list \<Rightarrow> view_data checked" where
  "check_child_lengths d cs =
     (if v_storage d \<in> {NANOARROW_TYPE_SPARSE_UNION, NANOARROW_TYPE_STRUCT}
      then check_struct_children (v_offset d + v_length d) 0 cs d
      else if v_storage d = NANOARROW_TYPE_FIXED_SIZE_LIST then check_fixed_size_child d cs
      else if v_storage d = NANOARROW_TYPE_RUN_END_ENCODED then check_run_ends d cs
      else passes d)"

definition minimal_node :: "view_data \<Rightarrow> array_view list \<Rightarrow> view_data checked" where
  "minimal_node d cs =
     (if v_length d < 0 then fails (''Expected length >= 0 but found length '' @ int_to_string (v_length d)) d
      else if v_offset d < 0 then fails (''Expected offset >= 0 but found offset '' @ int_to_string (v_offset d)) d
      else if v_offset d + v_length d > 2 ^ 63 - 1 then fails ''Offset + length is > INT64_MAX'' d
      else
        ok_then (check_buffer 0 d) (\<lambda>d.
        ok_then (check_buffer 1 d) (\<lambda>d.
        ok_then (check_n_children d cs) (\<lambda>d. check_child_lengths d cs))))"

text \<open>The node, then its children and its dictionary.\<close>

fun ArrowArrayViewValidateMinimal :: "array_view \<Rightarrow> array_view checked" where
  "ArrowArrayViewValidateMinimal (View d cs dictionary) =
     (case minimal_node d cs of None \<Rightarrow> None
      | Some (Some m, d) \<Rightarrow> Some (Some m, View d cs dictionary)
      | Some (None, d) \<Rightarrow> on_rest ArrowArrayViewValidateMinimal (View d cs dictionary))"

section \<open>Default validation\<close>

text \<open>The first and the last offset, negative ones refused, and what is to be done with the last one.\<close>

definition with_last_offset ::
  "(block \<Rightarrow> int \<Rightarrow> int option) \<Rightarrow> (int \<Rightarrow> view_data checked) \<Rightarrow> view_data \<Rightarrow> view_data checked" where
  "with_last_offset as_offset f d =
     do {
       first_offset \<leftarrow> as_offset (bf_data (buffer d 1)) (v_offset d);
       if first_offset < 0
       then fails (''Expected first offset >= 0 but found '' @ int_to_string first_offset) d
       else do {
         last_offset \<leftarrow> as_offset (bf_data (buffer d 1)) (v_offset d + v_length d);
         if last_offset < 0
         then fails (''Expected last offset >= 0 but found '' @ int_to_string last_offset) d
         else f last_offset
       }
     }"

definition check_data_buffer :: "(block \<Rightarrow> int \<Rightarrow> int option) \<Rightarrow> view_data \<Rightarrow> view_data checked" where
  "check_data_buffer as_offset d =
     (if bf_size (buffer d 1) \<noteq> 0
      then with_last_offset as_offset (\<lambda>last_offset. assign_or_check 2 last_offset d) d
      else if bf_size (buffer d 2) = - 1 then passes (set_buffer_size 2 0 d)
      else passes d)"

definition check_list_child ::
  "(block \<Rightarrow> int \<Rightarrow> int option) \<Rightarrow> view_data \<Rightarrow> array_view list \<Rightarrow> view_data checked" where
  "check_list_child as_offset d cs =
     (if bf_size (buffer d 1) \<noteq> 0
      then with_last_offset as_offset (\<lambda>last_offset. do {
             child \<leftarrow> (case cs of [] \<Rightarrow> None | c # _ \<Rightarrow> Some (av_data c));
             name \<leftarrow> ArrowTypeString (v_storage d);
             if v_length child < last_offset
             then fails (''Expected child of '' @ name @ '' array to have length >= '' @ int_to_string last_offset @
                    '' but found array with length '' @ int_to_string (v_length child)) d
             else passes d
           }) d
      else passes d)"

definition check_run_end_values :: "view_data \<Rightarrow> array_view list \<Rightarrow> view_data checked" where
  "check_run_end_values d cs =
     do {
       re \<leftarrow> (case cs of [] \<Rightarrow> None | c # _ \<Rightarrow> Some (av_data c));
       if v_length re = 0 then passes d
       else do {
         first_run_end \<leftarrow> ArrowArrayViewGetIntUnsafe re 0;
         if first_run_end < 1
         then fails (''All run ends must be greater than 0 but the first run end is '' @ int_to_string first_run_end) d
         else do {
           last_run_end \<leftarrow> ArrowArrayViewGetIntUnsafe re (v_length re - 1);
           if last_run_end < v_offset d + v_length d
           then fails (''Last run end is '' @ int_to_string last_run_end @ '' but it should be >= ('' @
                  int_to_string (v_offset d) @ '' + '' @ int_to_string (v_length d) @ '')'') d
           else passes d
         }
       }
     }"

definition default_node :: "view_data \<Rightarrow> array_view list \<Rightarrow> view_data checked" where
  "default_node d cs =
     (if v_storage d \<in> {NANOARROW_TYPE_STRING, NANOARROW_TYPE_BINARY} then check_data_buffer as_int32 d
      else if v_storage d \<in> {NANOARROW_TYPE_LARGE_STRING, NANOARROW_TYPE_LARGE_BINARY} then check_data_buffer as_int64 d
      else if v_storage d = NANOARROW_TYPE_STRUCT then check_struct_children (v_offset d + v_length d) 0 cs d
      else if v_storage d \<in> {NANOARROW_TYPE_LIST, NANOARROW_TYPE_MAP} then check_list_child as_int32 d cs
      else if v_storage d = NANOARROW_TYPE_LARGE_LIST then check_list_child as_int64 d cs
      else if v_storage d = NANOARROW_TYPE_RUN_END_ENCODED then check_run_end_values d cs
      else passes d)"

text \<open>
  Default validation calls minimal validation on the whole tree, and itself on the children of what that
  returns: the number of nodes, which no validation changes, is the measure.
\<close>

fun nodes :: "array_view \<Rightarrow> nat" where
  "nodes (View d cs dictionary) = Suc (sum_list (map nodes cs) + (case dictionary of None \<Rightarrow> 0 | Some v \<Rightarrow> nodes v))"

lemma nodes_children: "x \<in> set cs \<Longrightarrow> nodes x \<le> sum_list (map nodes cs)"
  by (simp add: member_le_sum_list)

lemma on_children_map:
  assumes "\<And>c e c'. c \<in> set cs \<Longrightarrow> f c = Some (e, c') \<Longrightarrow> g c' = g c" "on_children f cs = Some (e, cs')"
  shows "map g cs' = map g cs"
  using assms
proof (induction cs arbitrary: e cs')
  case (Cons c cs)
  show ?case
  proof (cases "f c")
    case None
    with Cons.prems(2) show ?thesis by simp
  next
    case (Some r)
    obtain e1 c1 where r: "r = (e1, c1)" by force
    have g: "g c1 = g c" using Cons.prems(1) [of c] Some r by simp
    show ?thesis
    proof (cases e1)
      case None
      then obtain e2 cs2 where "on_children f cs = Some (e2, cs2)" "cs' = c1 # cs2"
        using Cons.prems(2) Some r by (auto split: option.splits)
      then show ?thesis using Cons.IH [of e2 cs2] Cons.prems(1) g by simp
    next
      case (Some m)
      then show ?thesis using Cons.prems(2) \<open>f c = Some r\<close> r g by auto
    qed
  qed
qed (simp add: passes_def)

lemma on_dictionary_Some:
  assumes "on_dictionary f d = Some (e, d')"
  shows "d = None \<and> e = None \<and> d' = None \<or> (\<exists>x x'. d = Some x \<and> f x = Some (e, x') \<and> d' = Some x')"
  using assms by (auto simp: on_dictionary_def passes_def split: option.splits)

lemma on_rest_nodes:
  assumes "\<And>c e c'. c \<in> set (av_children v) \<Longrightarrow> f c = Some (e, c') \<Longrightarrow> nodes c' = nodes c"
    "\<And>c e c'. av_dictionary v = Some c \<Longrightarrow> f c = Some (e, c') \<Longrightarrow> nodes c' = nodes c"
    "on_rest f v = Some (e, v')"
  shows "nodes v' = nodes v"
proof (cases v)
  case v: (View d cs dictionary)
  obtain e1 cs1 where cs1: "on_children f cs = Some (e1, cs1)"
    using assms(3) v by (auto simp: on_rest_def split: option.splits)
  have m: "map nodes cs1 = map nodes cs"
    using on_children_map [OF _ cs1, of nodes] assms(1) v by auto
  show ?thesis
  proof (cases e1)
    case None
    with assms(3) v cs1 obtain dictionary' where
      "on_dictionary f dictionary = Some (e, dictionary')" "v' = View d cs1 dictionary'"
      by (auto simp: on_rest_def split: option.splits)
    with on_dictionary_Some [OF this(1)] consider "dictionary = None" "dictionary' = None"
      | x x' where "dictionary = Some x" "f x = Some (e, x')" "dictionary' = Some x'" by blast
    then show ?thesis
    proof cases
      case 2
      then have "nodes x' = nodes x" using assms(2) [of x e x'] v by simp
      then show ?thesis using 2 v m \<open>v' = _\<close> by simp
    qed (use v m \<open>v' = _\<close> in simp)
  next
    case (Some m)
    with assms(3) v cs1 \<open>map nodes cs1 = map nodes cs\<close> show ?thesis by (auto simp: on_rest_def)
  qed
qed

lemma minimal_nodes: "ArrowArrayViewValidateMinimal v = Some (e, v') \<Longrightarrow> nodes v' = nodes v"
proof (induction v arbitrary: e v' rule: ArrowArrayViewValidateMinimal.induct)
  case (1 d cs dictionary)
  obtain e1 d1 where n: "minimal_node d cs = Some (e1, d1)"
    using 1(3) by (auto split: option.splits)
  show ?case
  proof (cases e1)
    case None
    then have "on_rest ArrowArrayViewValidateMinimal (View d1 cs dictionary) = Some (e, v')"
      using 1(3) n by simp
    moreover have "\<And>c e c'. c \<in> set cs \<Longrightarrow> ArrowArrayViewValidateMinimal c = Some (e, c') \<Longrightarrow> nodes c' = nodes c"
      using 1(1) n None by auto
    moreover have "\<And>c e c'. dictionary = Some c \<Longrightarrow> ArrowArrayViewValidateMinimal c = Some (e, c') \<Longrightarrow> nodes c' = nodes c"
      using 1(2) n None by auto
    ultimately show ?thesis
      using on_rest_nodes [of "View d1 cs dictionary" ArrowArrayViewValidateMinimal e v'] by auto
  next
    case (Some m)
    then show ?thesis using 1(3) n by auto
  qed
qed

function ArrowArrayViewValidateDefault :: "array_view \<Rightarrow> array_view checked" where
  "ArrowArrayViewValidateDefault v =
     (case ArrowArrayViewValidateMinimal v of None \<Rightarrow> None
      | Some (Some m, v) \<Rightarrow> Some (Some m, v)
      | Some (None, View d cs dictionary) \<Rightarrow>
          (case default_node d cs of None \<Rightarrow> None
           | Some (Some m, d) \<Rightarrow> Some (Some m, View d cs dictionary)
           | Some (None, d) \<Rightarrow> on_rest ArrowArrayViewValidateDefault (View d cs dictionary)))"
  by auto
termination
proof (relation "measure nodes", goal_cases)
  case (2 v r e w d cs dictionary r' e' d' x)
  then have "nodes w = nodes v" using minimal_nodes [of v None w] by simp
  with 2 nodes_children [of x cs] show ?case by simp
next
  case (3 v r e w d cs dictionary r' e' d' x)
  then have "nodes w = nodes v" using minimal_nodes [of v None w] by simp
  with 3 show ?case by simp
qed simp

declare ArrowArrayViewValidateDefault.simps [simp del]

definition ArrowArrayViewSetArray :: "array_view \<Rightarrow> arrow_array option \<Rightarrow> array_view checked" where
  "ArrowArrayViewSetArray v a = ok_then (ArrowArrayViewSetArrayInternal v a) ArrowArrayViewValidateDefault"

definition ArrowArrayViewSetArrayMinimal :: "array_view \<Rightarrow> arrow_array option \<Rightarrow> array_view checked" where
  "ArrowArrayViewSetArrayMinimal v a = ok_then (ArrowArrayViewSetArrayInternal v a) ArrowArrayViewValidateMinimal"

section \<open>Full validation\<close>

text \<open>The pointer moved by elements before they are read; nothing of the view changes from here on.\<close>

definition slice :: "nat \<Rightarrow> block \<Rightarrow> int \<Rightarrow> block" where
  "slice n b i = map_option (drop (n * nat i)) b"

fun increasing_from :: "(int \<Rightarrow> int option) \<Rightarrow> int \<Rightarrow> nat \<Rightarrow> unit checked" where
  "increasing_from elem i 0 = passes ()"
| "increasing_from elem i (Suc n) =
     do {
       x \<leftarrow> elem i;
       y \<leftarrow> elem (i - 1);
       if x < y then fails (''['' @ int_to_string i @ ''] Expected element size >= 0'') ()
       else increasing_from elem (i + 1) n
     }"

definition ArrowAssertIncreasingInt32 :: "buffer_view \<Rightarrow> unit checked" where
  "ArrowAssertIncreasingInt32 b =
     (if bf_size b \<le> 4 then passes () else increasing_from (as_int32 (bf_data b)) 1 (nat (bf_size b div 4) - 1))"

definition ArrowAssertIncreasingInt64 :: "buffer_view \<Rightarrow> unit checked" where
  "ArrowAssertIncreasingInt64 b =
     (if bf_size b \<le> 8 then passes () else increasing_from (as_int64 (bf_data b)) 1 (nat (bf_size b div 8) - 1))"

text \<open>A loop that checks every element from \<open>i\<close> on.\<close>

fun check_each :: "(int \<Rightarrow> unit checked) \<Rightarrow> int \<Rightarrow> nat \<Rightarrow> unit checked" where
  "check_each f i 0 = passes ()"
| "check_each f i (Suc n) = ok_then (f i) (\<lambda>_. check_each f (i + 1) n)"

definition ArrowAssertRangeInt8 :: "buffer_view \<Rightarrow> int \<Rightarrow> int \<Rightarrow> unit checked" where
  "ArrowAssertRangeInt8 b min_value max_value =
     check_each (\<lambda>i. do {
       x \<leftarrow> as_int8 (bf_data b) i;
       if x < min_value \<or> x > max_value
       then fails (''['' @ int_to_string i @ ''] Expected buffer value between '' @ int_to_string min_value @ '' and '' @
              int_to_string max_value @ '' but found value '' @ int_to_string x) ()
       else passes ()
     }) 0 (nat (bf_size b))"

fun int8_in :: "int \<Rightarrow> int list \<Rightarrow> nat \<Rightarrow> bool option" where
  "int8_in x vals 0 = Some False"
| "int8_in x [] (Suc n) = None"
| "int8_in x (y # vals) (Suc n) = (if x = y then Some True else int8_in x vals n)"

definition ArrowAssertInt8In :: "buffer_view \<Rightarrow> int list \<Rightarrow> nat \<Rightarrow> unit checked" where
  "ArrowAssertInt8In b vals n_values =
     check_each (\<lambda>i. do {
       x \<leftarrow> as_int8 (bf_data b) i;
       item_found \<leftarrow> int8_in x vals n_values;
       if \<not> item_found
       then fails (''['' @ int_to_string i @ ''] Unexpected buffer value '' @ int_to_string x) ()
       else passes ()
     }) 0 (nat (bf_size b))"

text \<open>The index is an int8\_t: a comparison of more than 127 ids that does not end before never ends.\<close>

fun ids_are_indices :: "int list \<Rightarrow> int \<Rightarrow> nat \<Rightarrow> bool option" where
  "ids_are_indices ids i 0 = Some True"
| "ids_are_indices [] i (Suc n) = None"
| "ids_are_indices (x # ids) i (Suc n) =
     (if i > 127 then None else if x \<noteq> i then Some False else ids_are_indices ids (i + 1) n)"

definition ArrowParsedUnionTypeIdsWillEqualChildIndices :: "int list \<Rightarrow> nat \<Rightarrow> nat \<Rightarrow> bool option" where
  "ArrowParsedUnionTypeIdsWillEqualChildIndices type_ids n_type_ids n_children =
     (if n_type_ids \<noteq> n_children then Some False else ids_are_indices type_ids 0 n_type_ids)"

definition full_offsets :: "view_data \<Rightarrow> nat \<Rightarrow> unit checked" where
  "full_offsets d i =
     (if buffer_kind d i \<noteq> NANOARROW_BUFFER_TYPE_DATA_OFFSET \<or> v_length d = 0 then passes ()
      else if element_bits d i = 32
      then ArrowAssertIncreasingInt32 \<lparr>bf_data = slice 4 (bf_data (buffer d i)) (v_offset d), bf_size = (v_length d + 1) * 4\<rparr>
      else ArrowAssertIncreasingInt64 \<lparr>bf_data = slice 8 (bf_data (buffer d i)) (v_offset d), bf_size = (v_length d + 1) * 8\<rparr>)"

text \<open>The cast of the last index to int8\_t.\<close>

definition to_int8 :: "int \<Rightarrow> int" where
  "to_int8 i = sint (word_of_int i :: 8 word)"

definition full_type_ids :: "view_data \<Rightarrow> array_view list \<Rightarrow> unit checked" where
  "full_type_ids d cs =
     (if v_storage d \<notin> {NANOARROW_TYPE_DENSE_UNION, NANOARROW_TYPE_SPARSE_UNION} then passes ()
      else
        (let sliced_type_ids = \<lparr>bf_data = (if v_length d > 0 then slice 1 (bf_data (buffer d 0)) (v_offset d) else None),
                                bf_size = v_length d\<rparr>
         in case v_type_id_map d of
              None \<Rightarrow> fails ''Insufficient information provided for validation of union array'' ()
            | Some m \<Rightarrow> do {
                equal \<leftarrow> ArrowParsedUnionTypeIdsWillEqualChildIndices m (length cs) (length cs);
                if equal then ArrowAssertRangeInt8 sliced_type_ids 0 (to_int8 (int (length cs) - 1))
                else ArrowAssertInt8In sliced_type_ids (drop 128 m) (length cs)
              }))"

definition full_union_offsets :: "view_data \<Rightarrow> array_view list \<Rightarrow> unit checked" where
  "full_union_offsets d cs =
     (if v_storage d = NANOARROW_TYPE_DENSE_UNION \<and> v_type_id_map d \<noteq> None
      then check_each (\<lambda>i. do {
             child_id \<leftarrow> ArrowArrayViewUnionChildIndex d i;
             offset \<leftarrow> ArrowArrayViewUnionChildOffset d i;
             child \<leftarrow> (if 0 \<le> child_id \<and> nat child_id < length cs then Some (av_data (cs ! nat child_id)) else None);
             if offset < 0 \<or> offset > v_length child
             then fails (''['' @ int_to_string i @ ''] Expected union offset for child id '' @ int_to_string child_id @
                    '' to be between 0 and '' @ int_to_string (v_length child) @ '' but found offset value '' @
                    int_to_string offset) ()
             else passes ()
           }) 0 (nat (v_length d))
      else passes ())"

fun run_ends_increase :: "view_data \<Rightarrow> int \<Rightarrow> int \<Rightarrow> nat \<Rightarrow> unit checked" where
  "run_ends_increase re last_run_end i 0 = passes ()"
| "run_ends_increase re last_run_end i (Suc n) =
     do {
       run_end \<leftarrow> ArrowArrayViewGetIntUnsafe re i;
       if run_end \<le> last_run_end
       then fails (''Every run end must be strictly greater than the previous run end, but run_ends['' @ int_to_string i @
              '' is '' @ int_to_string run_end @ '' and run_ends['' @ int_to_string (i - 1) @ ''] is '' @
              int_to_string last_run_end) ()
       else run_ends_increase re run_end (i + 1) n
     }"

definition full_run_ends :: "view_data \<Rightarrow> array_view list \<Rightarrow> unit checked" where
  "full_run_ends d cs =
     (if v_storage d \<noteq> NANOARROW_TYPE_RUN_END_ENCODED then passes ()
      else do {
        re \<leftarrow> (case cs of [] \<Rightarrow> None | c # _ \<Rightarrow> Some (av_data c));
        if v_length re > 0
        then do {
          first \<leftarrow> ArrowArrayViewGetIntUnsafe re 0;
          run_ends_increase re first 1 (nat (v_length re) - 1)
        }
        else passes ()
      })"

definition full_list_views :: "view_data \<Rightarrow> array_view list \<Rightarrow> unit checked" where
  "full_list_views d cs =
     (if v_storage d \<notin> {NANOARROW_TYPE_LIST_VIEW, NANOARROW_TYPE_LARGE_LIST_VIEW} then passes ()
      else do {
        child \<leftarrow> (case cs of [] \<Rightarrow> None | c # _ \<Rightarrow> Some (av_data c));
        let as_offset = (if v_storage d = NANOARROW_TYPE_LIST_VIEW then as_int32 else as_int64);
        check_each (\<lambda>i. do {
          offset \<leftarrow> as_offset (bf_data (buffer d 1)) i;
          size \<leftarrow> as_offset (bf_data (buffer d 2)) i;
          if offset < 0
          then fails (''Invalid negative offset '' @ int_to_string offset @ '' at index '' @ int_to_string i) ()
          else if size < 0
          then fails (''Invalid negative size '' @ int_to_string size @ '' at index '' @ int_to_string i) ()
          else do {
            end_offset \<leftarrow> int64 (offset + size);
            if end_offset > v_length child
            then fails (''Offset: '' @ int_to_string offset @ '' + size: '' @ int_to_string size @ '' at index: '' @
                   int_to_string i @ '' exceeds length of child view: '' @ int_to_string (v_length child)) ()
            else passes ()
          }
        }) (v_offset d) (nat (v_length d))
      })"

definition full_node :: "view_data \<Rightarrow> array_view list \<Rightarrow> unit checked" where
  "full_node d cs =
     ok_then (full_offsets d 0) (\<lambda>_.
     ok_then (full_offsets d 1) (\<lambda>_.
     ok_then (full_offsets d 2) (\<lambda>_.
     ok_then (full_type_ids d cs) (\<lambda>_.
     ok_then (full_union_offsets d cs) (\<lambda>_.
     ok_then (full_run_ends d cs) (\<lambda>_. full_list_views d cs))))))"

fun check_all :: "('a \<Rightarrow> unit checked) \<Rightarrow> 'a list \<Rightarrow> unit checked" where
  "check_all f [] = passes ()"
| "check_all f (c # cs) = ok_then (f c) (\<lambda>_. check_all f cs)"

lemma check_all_cong [fundef_cong]:
  "xs = ys \<Longrightarrow> (\<And>x. x \<in> set ys \<Longrightarrow> f x = g x) \<Longrightarrow> check_all f xs = check_all g ys"
proof (induction ys arbitrary: xs)
  case (Cons y ys)
  then show ?case using Cons.IH [of ys] by simp
qed simp

fun ArrowArrayViewValidateFull :: "array_view \<Rightarrow> unit checked" where
  "ArrowArrayViewValidateFull (View d cs dictionary) =
     ok_then (full_node d cs) (\<lambda>_.
     ok_then (check_all ArrowArrayViewValidateFull cs) (\<lambda>_.
     case dictionary of None \<Rightarrow> passes () | Some v \<Rightarrow> ArrowArrayViewValidateFull v))"

datatype validation_level = NANOARROW_VALIDATION_LEVEL_NONE | NANOARROW_VALIDATION_LEVEL_MINIMAL
  | NANOARROW_VALIDATION_LEVEL_DEFAULT | NANOARROW_VALIDATION_LEVEL_FULL

definition ArrowArrayViewValidate :: "array_view \<Rightarrow> validation_level \<Rightarrow> array_view checked" where
  "ArrowArrayViewValidate v validation_level = (case validation_level of
     NANOARROW_VALIDATION_LEVEL_NONE \<Rightarrow> passes v
   | NANOARROW_VALIDATION_LEVEL_MINIMAL \<Rightarrow> ArrowArrayViewValidateMinimal v
   | NANOARROW_VALIDATION_LEVEL_DEFAULT \<Rightarrow> ArrowArrayViewValidateDefault v
   | NANOARROW_VALIDATION_LEVEL_FULL \<Rightarrow>
       ok_then (ArrowArrayViewValidateDefault v) (\<lambda>v.
         map_option (\<lambda>(e, _). (e, v)) (ArrowArrayViewValidateFull v)))"

end
