(* ===== verification/Array_Safety.thy ===== *)
theory Array_Safety
  imports Arrow_Array_Validation
begin

text \<open>
  What full validation is worth: an array that passed it is read without an access outside its buffers.  The
  producer's part is that buffers which are not null are as long as the columnar format requires.
\<close>

lemma ok_then_simps [simp]:
  "ok_then None f = None" "ok_then (Some (None, s)) f = f s" "ok_then (Some (Some m, s)) f = Some (Some m, s)"
  by (simp_all add: ok_then_def)

lemma ok_then_Some:
  assumes "ok_then r f = Some (None, s')"
  obtains s where "r = Some (None, s)" "f s = Some (None, s')"
  using assms by (auto simp: ok_then_def split: option.splits)

section \<open>The contract of the producer\<close>

text \<open>The last offset of the array, 0 when there are none.\<close>

definition last_offset :: "view_data \<Rightarrow> int" where
  "last_offset d =
     (let n = v_offset d + v_length d in
      if n = 0 then 0
      else (case (if element_bits d 1 = 32 then as_int32 else as_int64) (bf_data (buffer d 1)) n of
              None \<Rightarrow> 0 | Some k \<Rightarrow> k))"

text \<open>The bytes the format requires of a buffer for the elements before the end of the array.\<close>

definition required :: "view_data \<Rightarrow> nat \<Rightarrow> int" where
  "required d i =
     (let n = v_offset d + v_length d; bytes = element_bits d i div 8 in
      (case buffer_kind d i of
         NANOARROW_BUFFER_TYPE_NONE \<Rightarrow> 0
       | NANOARROW_BUFFER_TYPE_VALIDITY \<Rightarrow> (n + 7) div 8
       | NANOARROW_BUFFER_TYPE_DATA_OFFSET \<Rightarrow> if n = 0 then 0 else bytes * (n + 1)
       | NANOARROW_BUFFER_TYPE_DATA \<Rightarrow> if i = 2 then last_offset d else (element_bits d i * n + 7) div 8
       | _ \<Rightarrow> bytes * n))"

text \<open>Sizes in bits and numbers of elements do not overflow 64 bits.\<close>

definition tame :: "view_data \<Rightarrow> bool" where
  "tame d \<longleftrightarrow> (let n = v_offset d + v_length d in
     (\<forall>bits \<in> set (ly_bits (v_layout d)). bits * (n + 1) + 8 < 2 ^ 63) \<and> n + 1 < 2 ^ 63
     \<and> - (2 ^ 63) \<le> n * ly_child (v_layout d) \<and> n * ly_child (v_layout d) < 2 ^ 63)"

text \<open>
  Buffers are long enough; the sizes of a list view are there, which validation does not look at; and the ends of
  the lists of a large list view, which it computes without a check, fit 64 bits.
\<close>

definition long_enough :: "view_data \<Rightarrow> bool" where
  "long_enough d \<longleftrightarrow>
     (\<forall>i \<in> {0, 1, 2}. case bf_data (buffer d i) of None \<Rightarrow> True | Some b \<Rightarrow> required d i \<le> int (length b))
     \<and> (v_storage d \<in> {NANOARROW_TYPE_LIST_VIEW, NANOARROW_TYPE_LARGE_LIST_VIEW} \<longrightarrow>
          bf_data (buffer d 2) \<noteq> None)
     \<and> (v_storage d = NANOARROW_TYPE_LARGE_LIST_VIEW \<longrightarrow>
          list_all (\<lambda>i. case (as_int64 (bf_data (buffer d 1)) i, as_int64 (bf_data (buffer d 2)) i) of
              (Some a, Some b) \<Rightarrow> a + b < 2 ^ 63 | _ \<Rightarrow> True)
            [v_offset d..v_offset d + v_length d - 1])"

fun as_the_format_requires :: "array_view \<Rightarrow> bool" where
  "as_the_format_requires (View d cs dictionary) \<longleftrightarrow> tame d \<and> long_enough d
     \<and> list_all as_the_format_requires cs
     \<and> (case dictionary of None \<Rightarrow> True | Some v \<Rightarrow> as_the_format_requires v)"

section \<open>The shape of a view\<close>

text \<open>Every type id of the map is one of a child.\<close>

definition map_ok :: "int list \<Rightarrow> nat \<Rightarrow> bool" where
  "map_ok m n \<longleftrightarrow> length m = 256 \<and> n < 128
     \<and> (\<forall>j < n. 0 \<le> m ! (128 + j) \<and> m ! (128 + j) < 128
          \<and> 0 \<le> m ! nat (m ! (128 + j)) \<and> m ! nat (m ! (128 + j)) < int n)"

definition shaped :: "view_data \<Rightarrow> nat \<Rightarrow> bool" where
  "shaped d n_children \<longleftrightarrow> v_storage d \<noteq> NANOARROW_TYPE_UNINITIALIZED \<and> length (v_buffers d) = 3
     \<and> ly_type (v_layout d) = ly_type (ArrowLayoutInit (v_storage d))
     \<and> (if v_storage d = NANOARROW_TYPE_FIXED_SIZE_BINARY
        then (\<exists>w \<ge> 0. ly_bits (v_layout d) = [1, 8 * w, 0])
        else ly_bits (v_layout d) = ly_bits (ArrowLayoutInit (v_storage d)))
     \<and> (v_storage d \<in> {NANOARROW_TYPE_DENSE_UNION, NANOARROW_TYPE_SPARSE_UNION} \<longrightarrow>
          (\<exists>m. v_type_id_map d = Some m \<and> map_ok m n_children))
     \<and> (\<forall>i < 3. ly_type (v_layout d) ! i = NANOARROW_BUFFER_TYPE_NONE \<longrightarrow> bf_data (buffer d i) = None)"

text \<open>A null pointer has size 0; any other buffer has the size required, or an unknown one.\<close>

definition sized :: "view_data \<Rightarrow> bool" where
  "sized d \<longleftrightarrow> (\<forall>i < 3. case bf_data (buffer d i) of
     None \<Rightarrow> bf_size (buffer d i) = 0
   | Some b \<Rightarrow> bf_size (buffer d i) = - 1 \<or> bf_size (buffer d i) = required d i)"

fun conforming :: "array_view \<Rightarrow> bool" where
  "conforming (View d cs dictionary) \<longleftrightarrow> shaped d (length cs) \<and> sized d \<and> tame d \<and> long_enough d
     \<and> list_all conforming cs \<and> (case dictionary of None \<Rightarrow> True | Some v \<Rightarrow> conforming v)"

section \<open>What does not depend on sizes\<close>

definition unsized :: "view_data \<Rightarrow> view_data" where
  "unsized d = d\<lparr>v_buffers := map (\<lambda>b. b\<lparr>bf_size := 0\<rparr>) (v_buffers d)\<rparr>"

lemma unsized_fields:
  assumes "unsized d' = unsized d"
  shows "v_offset d' = v_offset d" "v_length d' = v_length d" "v_null_count d' = v_null_count d"
    "v_storage d' = v_storage d" "v_layout d' = v_layout d" "v_type_id_map d' = v_type_id_map d"
    "length (v_buffers d') = length (v_buffers d)" "v_variadic d' = v_variadic d"
    "i < length (v_buffers d) \<Longrightarrow> bf_data (buffer d' i) = bf_data (buffer d i)"
proof -
  have "f (unsized d') = f (unsized d)" for f :: "view_data \<Rightarrow> 'a" using assms by simp
  note F = this
  show "v_offset d' = v_offset d" "v_length d' = v_length d" "v_null_count d' = v_null_count d"
    "v_storage d' = v_storage d" "v_layout d' = v_layout d" "v_type_id_map d' = v_type_id_map d"
    "v_variadic d' = v_variadic d"
    using arg_cong [OF assms, of v_offset] arg_cong [OF assms, of v_length] arg_cong [OF assms, of v_null_count]
      arg_cong [OF assms, of v_storage] arg_cong [OF assms, of v_layout] arg_cong [OF assms, of v_type_id_map]
      arg_cong [OF assms, of v_variadic]
    by (simp_all add: unsized_def)
  have m: "map (\<lambda>b. b\<lparr>bf_size := 0\<rparr>) (v_buffers d') = map (\<lambda>b. b\<lparr>bf_size := 0\<rparr>) (v_buffers d)"
    using arg_cong [OF assms, of v_buffers] by (simp add: unsized_def)
  show l: "length (v_buffers d') = length (v_buffers d)" using arg_cong [OF m, of length] by simp
  assume i: "i < length (v_buffers d)"
  then have "(v_buffers d' ! i)\<lparr>bf_size := 0\<rparr> = (v_buffers d ! i)\<lparr>bf_size := 0\<rparr>"
    using arg_cong [OF m, of "\<lambda>bs. bs ! i"] l by simp
  from arg_cong [OF this, of bf_data] show "bf_data (buffer d' i) = bf_data (buffer d i)"
    by (simp add: buffer_def)
qed

lemma unsized_set: "unsized (set_buffer_size i n d) = unsized d"
  by (simp add: unsized_def set_buffer_size_def map_update buffer_def)
    (metis (no_types, lifting) buffer_view.surjective buffer_view.update_convs(2) list_update_beyond list_update_id
      map_update not_less)

lemma buffer_set:
  "buffer (set_buffer_size i n d) j = (if i = j \<and> i < length (v_buffers d) then (buffer d i)\<lparr>bf_size := n\<rparr> else buffer d j)"
  by (cases "i < length (v_buffers d)")
    (auto simp: buffer_def set_buffer_size_def nth_list_update list_update_beyond nth_list_update_neq)

lemma unsized_required:
  assumes "unsized d' = unsized d" "length (v_buffers d) = 3" shows "required d' i = required d i"
proof -
  note F = unsized_fields [OF assms(1)]
  have "element_bits d' = element_bits d" "buffer_kind d' = buffer_kind d"
    using F by (simp_all add: fun_eq_iff element_bits_def buffer_kind_def)
  moreover have "bf_data (buffer d' 1) = bf_data (buffer d 1)" using F(9) [of 1] assms(2) by simp
  from this have "last_offset d' = last_offset d"
    by (simp only: last_offset_def F calculation)
  ultimately show ?thesis using F by (simp only: required_def)
qed

lemma unsized_node:
  assumes "unsized d' = unsized d" "length (v_buffers d) = 3"
  shows "tame d' = tame d" "long_enough d' = long_enough d" "shaped d' n = shaped d n"
proof -
  note F = unsized_fields [OF assms(1)]
  have "required d' = required d" using unsized_required [OF assms] by (simp add: fun_eq_iff)
  moreover have "bf_data (buffer d' 0) = bf_data (buffer d 0)" "bf_data (buffer d' 1) = bf_data (buffer d 1)"
    "bf_data (buffer d' 2) = bf_data (buffer d 2)"
    using F assms(2) by simp_all
  ultimately show "long_enough d' = long_enough d" using F by (simp only: long_enough_def ball_simps insert_iff fun_eq_iff)
  show "tame d' = tame d" "shaped d' n = shaped d n" using F assms(2) by (simp_all add: tame_def shaped_def)
qed

section \<open>Memory that is long enough\<close>

lemma element_Some:
  assumes "b = Some d" "0 \<le> i" "int n * (i + 1) \<le> int (length d)"
  shows "\<exists>bs. element b n i = Some bs \<and> length bs = n"
proof -
  have "int (n * nat i + n) \<le> int (length d)" using assms(2,3) by (simp add: algebra_simps)
  then have "n * nat i + n \<le> length d" by linarith
  then show ?thesis using assms(1,2) by (simp add: element_def load_def)
qed

lemma as_int_Some:
  assumes "b = Some d" "0 \<le> i"
  shows "i + 1 \<le> int (length d) \<Longrightarrow> as_int8 b i \<noteq> None" "i + 1 \<le> int (length d) \<Longrightarrow> as_uint8 b i \<noteq> None"
    "2 * (i + 1) \<le> int (length d) \<Longrightarrow> as_int16 b i \<noteq> None" "2 * (i + 1) \<le> int (length d) \<Longrightarrow> as_uint16 b i \<noteq> None"
    "4 * (i + 1) \<le> int (length d) \<Longrightarrow> as_int32 b i \<noteq> None" "4 * (i + 1) \<le> int (length d) \<Longrightarrow> as_uint32 b i \<noteq> None"
    "8 * (i + 1) \<le> int (length d) \<Longrightarrow> as_int64 b i \<noteq> None" "8 * (i + 1) \<le> int (length d) \<Longrightarrow> as_uint64 b i \<noteq> None"
  using element_Some [OF assms, of 1] element_Some [OF assms, of 2] element_Some [OF assms, of 4]
    element_Some [OF assms, of 8]
  by (auto simp: as_int8_def as_uint8_def as_int16_def as_uint16_def as_int32_def as_uint32_def as_int64_def as_uint64_def)

lemma bit_at_Some:
  assumes "b = Some d" "0 \<le> i" "(i + 8) div 8 \<le> int (length d)"
  shows "bit_at b i \<noteq> None"
proof -
  have "i div 8 < int (length d)" using assms(3) by presburger
  then have "nat i div 8 < length d" using assms(2)
    by (metis div_pos_pos_trivial nat_div_distrib nat_less_iff nat_numeral pos_imp_zdiv_nonneg_iff zero_less_numeral zero_le_numeral)
  then show ?thesis using assms(1,2) by (simp add: bit_at_def ArrowBitGet_def byte_at_def)
qed

lemma slice_reads:
  assumes "0 \<le> off" "0 \<le> i"
  shows "as_int8 (slice 1 b off) i = as_int8 b (off + i)" "as_int32 (slice 4 b off) i = as_int32 b (off + i)"
    "as_int64 (slice 8 b off) i = as_int64 b (off + i)"
proof -
  have "element (slice n b off) n i = element b n (off + i)" for n
  proof (cases b)
    case (Some d)
    have e: "n * nat (off + i) = n * nat off + n * nat i" using assms by (simp add: nat_add_distrib algebra_simps)
    show ?thesis
    proof (cases "n * nat off + n * nat i + n \<le> length d")
      case True
      then show ?thesis using Some assms e by (simp add: element_def slice_def load_def add.commute add.assoc)
    next
      case False
      then show ?thesis using Some assms e by (cases "n = 0") (auto simp: element_def slice_def load_def)
    qed
  qed (simp add: element_def slice_def)
  then show "as_int8 (slice 1 b off) i = as_int8 b (off + i)" "as_int32 (slice 4 b off) i = as_int32 b (off + i)"
    "as_int64 (slice 8 b off) i = as_int64 b (off + i)"
    by (simp_all add: as_int8_def as_int32_def as_int64_def)
qed

section \<open>The buffers after minimal validation\<close>

lemma layout_init:
  "\<exists>k0 k1 k2 b0 b1 b2. ly_type (ArrowLayoutInit t) = [k0, k1, k2] \<and> ly_bits (ArrowLayoutInit t) = [b0, b1, b2]
    \<and> k0 \<in> {NANOARROW_BUFFER_TYPE_NONE, NANOARROW_BUFFER_TYPE_VALIDITY, NANOARROW_BUFFER_TYPE_TYPE_ID}
    \<and> k1 \<in> {NANOARROW_BUFFER_TYPE_NONE, NANOARROW_BUFFER_TYPE_DATA, NANOARROW_BUFFER_TYPE_DATA_OFFSET,
         NANOARROW_BUFFER_TYPE_UNION_OFFSET, NANOARROW_BUFFER_TYPE_VIEW_OFFSET}
    \<and> k2 \<in> {NANOARROW_BUFFER_TYPE_NONE, NANOARROW_BUFFER_TYPE_DATA, NANOARROW_BUFFER_TYPE_SIZE}
    \<and> b0 \<in> {0, 1, 8} \<and> 0 \<le> b1"
  unfolding ArrowLayoutInit_def Let_def set_buffer_def set_size_def by (simp split: if_split)

lemma shapedD:
  assumes "shaped d n"
  shows "v_storage d \<noteq> NANOARROW_TYPE_UNINITIALIZED" "length (v_buffers d) = 3"
    "ly_type (v_layout d) = ly_type (ArrowLayoutInit (v_storage d))"
    "v_storage d = NANOARROW_TYPE_FIXED_SIZE_BINARY \<Longrightarrow> \<exists>w \<ge> 0. ly_bits (v_layout d) = [1, 8 * w, 0]"
    "v_storage d \<noteq> NANOARROW_TYPE_FIXED_SIZE_BINARY \<Longrightarrow> ly_bits (v_layout d) = ly_bits (ArrowLayoutInit (v_storage d))"
    "v_storage d \<in> {NANOARROW_TYPE_DENSE_UNION, NANOARROW_TYPE_SPARSE_UNION} \<Longrightarrow>
       \<exists>m. v_type_id_map d = Some m \<and> map_ok m n"
    "i < 3 \<Longrightarrow> buffer_kind d i = NANOARROW_BUFFER_TYPE_NONE \<Longrightarrow> bf_data (buffer d i) = None"
  using assms unfolding buffer_kind_def shaped_def by (simp_all only: simp_thms if_True if_False)

lemma layout_shapes:
  assumes "shaped d n"
  shows "buffer_kind d 0 \<in> {NANOARROW_BUFFER_TYPE_NONE, NANOARROW_BUFFER_TYPE_VALIDITY, NANOARROW_BUFFER_TYPE_TYPE_ID}"
    "buffer_kind d 1 \<in> {NANOARROW_BUFFER_TYPE_NONE, NANOARROW_BUFFER_TYPE_DATA, NANOARROW_BUFFER_TYPE_DATA_OFFSET,
       NANOARROW_BUFFER_TYPE_UNION_OFFSET, NANOARROW_BUFFER_TYPE_VIEW_OFFSET}"
    "element_bits d 0 \<in> {0, 1, 8}" "0 \<le> element_bits d 1"
    "ly_bits (v_layout d) = [element_bits d 0, element_bits d 1, element_bits d 2]"
proof -
  obtain k0 k1 k2 b0 b1 b2 where k: "ly_type (ArrowLayoutInit (v_storage d)) = [k0, k1, k2]"
    "ly_bits (ArrowLayoutInit (v_storage d)) = [b0, b1, b2]"
    and K: "k0 \<in> {NANOARROW_BUFFER_TYPE_NONE, NANOARROW_BUFFER_TYPE_VALIDITY, NANOARROW_BUFFER_TYPE_TYPE_ID}"
      "k1 \<in> {NANOARROW_BUFFER_TYPE_NONE, NANOARROW_BUFFER_TYPE_DATA, NANOARROW_BUFFER_TYPE_DATA_OFFSET,
         NANOARROW_BUFFER_TYPE_UNION_OFFSET, NANOARROW_BUFFER_TYPE_VIEW_OFFSET}" "b0 \<in> {0, 1, 8}" "0 \<le> b1"
    using layout_init [of "v_storage d"] by (elim exE conjE) (rule that)
  note T = shapedD(3) [OF assms]
  have t: "ly_type (v_layout d) = [k0, k1, k2]" using T k(1) by simp
  obtain c0 c1 c2 where c: "ly_bits (v_layout d) = [c0, c1, c2]" "c0 \<in> {0, 1, 8}" "0 \<le> c1"
  proof (cases "v_storage d = NANOARROW_TYPE_FIXED_SIZE_BINARY")
    case True
    then obtain w where "w \<ge> 0" "ly_bits (v_layout d) = [1, 8 * w, 0]" using shapedD(4) [OF assms] by blast
    then show ?thesis by (intro that [of 1 "8 * w" 0]) simp_all
  next
    case False
    with k(2) have "ly_bits (v_layout d) = [b0, b1, b2]" using shapedD(5) [OF assms] by simp
    then show ?thesis using K by (intro that [of b0 b1 b2]) simp_all
  qed
  have k_eq: "buffer_kind d 0 = k0" "buffer_kind d 1 = k1" by (simp_all add: buffer_kind_def t)
  have b_eq: "element_bits d 0 = c0" "element_bits d 1 = c1" "element_bits d 2 = c2" by (simp_all add: element_bits_def c(1))
  show "buffer_kind d 0 \<in> {NANOARROW_BUFFER_TYPE_NONE, NANOARROW_BUFFER_TYPE_VALIDITY, NANOARROW_BUFFER_TYPE_TYPE_ID}"
    "buffer_kind d 1 \<in> {NANOARROW_BUFFER_TYPE_NONE, NANOARROW_BUFFER_TYPE_DATA, NANOARROW_BUFFER_TYPE_DATA_OFFSET,
       NANOARROW_BUFFER_TYPE_UNION_OFFSET, NANOARROW_BUFFER_TYPE_VIEW_OFFSET}"
    "element_bits d 0 \<in> {0, 1, 8}" "0 \<le> element_bits d 1"
    "ly_bits (v_layout d) = [element_bits d 0, element_bits d 1, element_bits d 2]"
    unfolding k_eq b_eq using K c by simp_all
qed

lemma tameD:
  assumes "tame d"
  shows "bits \<in> set (ly_bits (v_layout d)) \<Longrightarrow> bits * (v_offset d + v_length d + 1) + 8 < 2 ^ 63"
    "v_offset d + v_length d + 1 < 2 ^ 63"
    "int64 ((v_offset d + v_length d) * ly_child (v_layout d)) = Some ((v_offset d + v_length d) * ly_child (v_layout d))"
  using assms by (simp_all add: tame_def Let_def int64_def)

lemma BytesForBits: "BytesForBits n = (n + 7) div 8"
proof -
  obtain r where r: "n mod 8 = r" "0 \<le> r" "r < 8" by simp
  then consider "r = 0" | "r = 1" | "r = 2" | "r = 3" | "r = 4" | "r = 5" | "r = 6" | "r = 7" by linarith
  then have "(r + 7) div 8 = (if r \<noteq> 0 then 1 else 0)" by cases simp_all
  moreover have "(n + 7) div 8 = n div 8 + (r + 7) div 8" using r(1) div_add1_eq [of n 7 8] by simp
  ultimately show ?thesis by (simp add: BytesForBits_def r(1))
qed

lemma sizes_fit:
  fixes b n :: int
  assumes "0 \<le> b" "0 \<le> n" "b * (n + 1) + 8 < 2 ^ 63" "n + 1 < 2 ^ 63"
  shows "int64 (b div 8 * n) = Some (b div 8 * n)" "int64 (b div 8 * (n + 1)) = Some (b div 8 * (n + 1))"
    "int64 (b * n) = Some (b * n)" "int64 (b * n + 7) = Some (b * n + 7)" "int64 (n + 1) = Some (n + 1)"
    "int64 0 = Some 0"
proof -
  obtain e where e: "b div 8 = e" "0 \<le> e" "e \<le> b" using assms(1) by simp
  have "e * (n + 1) \<le> b * (n + 1)" by (rule mult_right_mono) (use e assms in auto)
  moreover have "e * (n + 1) = e * n + e" "b * (n + 1) = b * n + b" by (simp_all add: algebra_simps)
  moreover have "0 \<le> e * n" "0 \<le> b * n" using e assms by simp_all
  ultimately obtain p q where pq: "e * n = p" "b * n = q" "0 \<le> p" "0 \<le> q" "p + e < 2 ^ 63" "q + 8 < 2 ^ 63"
      "e * (n + 1) = p + e"
    using assms(1,3) e by simp
  then show "int64 (b div 8 * n) = Some (b div 8 * n)" "int64 (b div 8 * (n + 1)) = Some (b div 8 * (n + 1))"
    "int64 (b * n) = Some (b * n)" "int64 (b * n + 7) = Some (b * n + 7)" "int64 (n + 1) = Some (n + 1)"
    "int64 0 = Some 0"
    using e assms(2,4) unfolding e(1) pq(1,2,7) int64_def by simp_all
qed

lemma min_size_required:
  assumes "shaped d k" "tame d" "0 \<le> v_offset d" "0 \<le> v_length d" "i < 2" "buffer_kind d i \<noteq> NANOARROW_BUFFER_TYPE_NONE"
  shows "min_buffer_size d (v_offset d + v_length d) i = Some (required d i)"
proof -
  obtain n where n: "v_offset d + v_length d = n" "0 \<le> n" using assms(3,4) by simp
  obtain b where b: "element_bits d i = b" by simp
  note L = layout_shapes [OF assms(1)]
  have i: "i = 0 \<or> i = 1" using assms(5) by auto
  have "b \<in> set (ly_bits (v_layout d))" unfolding L(5) using i b by auto
  note t = tameD(1) [OF assms(2) this, unfolded n(1)] tameD(2) [OF assms(2), unfolded n(1)]
  have "0 \<le> b" using i L(3,4) b by auto
  note m = sizes_fit [OF this n(2) t]
  note v = BytesForBits [of n]
  have k: "buffer_kind d i \<in> {NANOARROW_BUFFER_TYPE_VALIDITY, NANOARROW_BUFFER_TYPE_TYPE_ID, NANOARROW_BUFFER_TYPE_DATA,
      NANOARROW_BUFFER_TYPE_DATA_OFFSET, NANOARROW_BUFFER_TYPE_UNION_OFFSET, NANOARROW_BUFFER_TYPE_VIEW_OFFSET}"
    using L(1,2) i assms(6) by blast
  have i2: "i \<noteq> 2" using assms(5) by simp
  from k show ?thesis
    unfolding min_buffer_size_def required_def n(1) b Let_def
    by (elim insertE) (simp_all add: m v i2 RoundUpToMultipleOf8_def)
qed

lemma type_string: "t \<noteq> NANOARROW_TYPE_UNINITIALIZED \<Longrightarrow> \<exists>name. ArrowTypeString t = Some name"
  by (cases t) simp_all

lemma required_nonneg:
  assumes "shaped d k" "0 \<le> v_offset d" "0 \<le> v_length d" "i < 2"
  shows "0 \<le> required d i"
proof -
  obtain n where n: "v_offset d + v_length d = n" "0 \<le> n" using assms(2,3) by simp
  have "0 \<le> element_bits d i" using layout_shapes(3,4) [OF assms(1)] assms(4) by (cases "i = 0") (auto simp: less_2_cases_iff)
  then obtain b where b: "element_bits d i = b" "0 \<le> b" by simp
  have "0 \<le> b * n" using b n by simp
  then have "0 \<le> b div 8 * n" "0 \<le> b div 8 * (n + 1)" "0 \<le> (b * n + 7) div 8" "0 \<le> (n + 7) div 8"
    using b n by (simp_all del: zero_le_mult_iff) (simp_all add: pos_imp_zdiv_nonneg_iff)
  then show ?thesis using assms(4)
    unfolding required_def n(1) b(1) Let_def by (cases "buffer_kind d i") simp_all
qed

lemma sized_set:
  assumes "sized d" "length (v_buffers d) = 3" "i < 3" "bf_data (buffer d i) \<noteq> None"
  shows "sized (set_buffer_size i (required d i) d)"
proof -
  have "required (set_buffer_size i (required d i) d) j = required d j" for j
    by (rule unsized_required [OF unsized_set assms(2)])
  then show ?thesis using assms unfolding sized_def by (auto simp: buffer_set split: option.splits)
qed

text \<open>The size of a buffer is the one required; only a validity bitmap may be missing where one is.\<close>

definition known :: "view_data \<Rightarrow> nat \<Rightarrow> bool" where
  "known d i \<longleftrightarrow> buffer_kind d i = NANOARROW_BUFFER_TYPE_NONE \<or> bf_size (buffer d i) = required d i
     \<or> buffer_kind d i = NANOARROW_BUFFER_TYPE_VALIDITY \<and> bf_data (buffer d i) = None"

lemma buffer_sized: "sized d \<Longrightarrow> i < 3 \<Longrightarrow> bf_data (buffer d i) = None \<Longrightarrow> bf_size (buffer d i) = 0"
  "sized d \<Longrightarrow> i < 3 \<Longrightarrow> bf_data (buffer d i) = Some b \<Longrightarrow>
     bf_size (buffer d i) = - 1 \<or> bf_size (buffer d i) = required d i"
  by (auto simp: sized_def split: option.splits)

lemma assign_or_check:
  assumes "shaped d k" "sized d" "i < 3" "bf_data (buffer d i) = None \<Longrightarrow> 0 \<le> required d i"
  shows "\<exists>e d'. assign_or_check i (required d i) d = Some (e, d') \<and> unsized d' = unsized d \<and> sized d'
    \<and> (\<forall>j. j \<noteq> i \<longrightarrow> buffer d' j = buffer d j) \<and> (e = None \<longrightarrow> bf_size (buffer d' i) = required d i)"
proof -
  note S = shapedD(1,2) [OF assms(1)]
  consider "bf_size (buffer d i) = - 1" | "bf_size (buffer d i) \<noteq> - 1" "bf_size (buffer d i) < required d i"
    | "bf_size (buffer d i) \<noteq> - 1" "\<not> bf_size (buffer d i) < required d i" by blast
  then show ?thesis
  proof cases
    case 1
    then have "bf_data (buffer d i) \<noteq> None" using buffer_sized(1) [OF assms(2,3)] by auto
    then have "sized (set_buffer_size i (required d i) d)" by (rule sized_set [OF assms(2) S(2) assms(3)])
    then show ?thesis using 1 assms(3) S(2)
      by (simp add: assign_or_check_def passes_def unsized_set buffer_set)
  next
    case 2
    obtain name where "ArrowTypeString (v_storage d) = Some name" using type_string [OF S(1)] by blast
    then show ?thesis using 2 assms(2) by (simp add: assign_or_check_def too_small_def fails_def)
  next
    case 3
    then have "bf_size (buffer d i) = required d i"
      using buffer_sized [OF assms(2,3)] assms(4) by (cases "bf_data (buffer d i)") auto
    then show ?thesis using 3 assms(2) by (simp add: assign_or_check_def passes_def)
  qed
qed

lemma check_buffer:
  assumes "shaped d k" "sized d" "tame d" "0 \<le> v_offset d" "0 \<le> v_length d" "i < 2"
  shows "\<exists>e d'. check_buffer i d = Some (e, d') \<and> unsized d' = unsized d \<and> sized d'
    \<and> (\<forall>j. j \<noteq> i \<longrightarrow> buffer d' j = buffer d j) \<and> (e = None \<longrightarrow> known d' i)"
proof (cases "needs_no_check d i")
  case True
  have "buffer_kind d i \<notin> {NANOARROW_BUFFER_TYPE_VARIADIC_DATA, NANOARROW_BUFFER_TYPE_VARIADIC_SIZE}"
    using layout_shapes(1,2) [OF assms(1)] assms(6) by (cases "i = 0") (auto simp: less_2_cases_iff)
  then consider "buffer_kind d i = NANOARROW_BUFFER_TYPE_NONE"
    | "buffer_kind d i = NANOARROW_BUFFER_TYPE_VALIDITY" "bf_size (buffer d i) = 0"
    using True unfolding needs_no_check_def by blast
  then have "known d i"
  proof cases
    case 2
    then show ?thesis using buffer_sized [OF assms(2), of i] assms(6)
      by (cases "bf_data (buffer d i)") (auto simp: known_def)
  qed (simp add: known_def)
  then show ?thesis using True assms(2) by (simp add: check_buffer_def passes_def)
next
  case False
  then have k: "buffer_kind d i \<noteq> NANOARROW_BUFFER_TYPE_NONE" by (auto simp: needs_no_check_def)
  have "i < 3" using assms(6) by simp
  from assign_or_check [OF assms(1,2) this required_nonneg [OF assms(1,4,5,6)]]
  obtain e d' where a: "assign_or_check i (required d i) d = Some (e, d')" "unsized d' = unsized d" "sized d'"
    "\<forall>j. j \<noteq> i \<longrightarrow> buffer d' j = buffer d j" "e = None \<Longrightarrow> bf_size (buffer d' i) = required d i" by blast
  moreover have "required d' i = required d i" by (rule unsized_required [OF a(2) shapedD(2) [OF assms(1)]])
  ultimately show ?thesis
    using False by (simp add: check_buffer_def min_size_required [OF assms(1,3,4,5,6) k] known_def)
qed

section \<open>The children after minimal validation\<close>

definition list_types :: "arrow_type set" where
  "list_types = {NANOARROW_TYPE_LIST, NANOARROW_TYPE_LARGE_LIST, NANOARROW_TYPE_FIXED_SIZE_LIST,
     NANOARROW_TYPE_MAP, NANOARROW_TYPE_LIST_VIEW, NANOARROW_TYPE_LARGE_LIST_VIEW}"

definition run_end_types :: "arrow_type set" where
  "run_end_types = {NANOARROW_TYPE_INT16, NANOARROW_TYPE_INT32, NANOARROW_TYPE_INT64}"

text \<open>What a view knows of its children by minimal validation, from their members alone.\<close>

definition children_fit :: "view_data \<Rightarrow> view_data list \<Rightarrow> bool" where
  "children_fit d ds \<longleftrightarrow> (let n = v_offset d + v_length d in
     (v_storage d \<in> list_types \<longrightarrow> length ds = 1)
     \<and> (v_storage d \<in> {NANOARROW_TYPE_SPARSE_UNION, NANOARROW_TYPE_STRUCT} \<longrightarrow> (\<forall>c \<in> set ds. n \<le> v_length c))
     \<and> (v_storage d = NANOARROW_TYPE_FIXED_SIZE_LIST \<longrightarrow> n * ly_child (v_layout d) \<le> v_length (hd ds))
     \<and> (v_storage d = NANOARROW_TYPE_RUN_END_ENCODED \<longrightarrow> length ds = 2 \<and> v_storage (hd ds) \<in> run_end_types))"

lemma check_struct_children:
  "\<exists>e. check_struct_children n i cs d = Some (e, d) \<and> (e = None \<longrightarrow> (\<forall>c \<in> set cs. n \<le> v_length (av_data c)))"
  by (induction cs arbitrary: i) (auto simp: passes_def fails_def)

lemma check_n_children:
  assumes "v_storage d \<noteq> NANOARROW_TYPE_UNINITIALIZED"
  shows "\<exists>e. check_n_children d cs = Some (e, d) \<and> (e = None \<longrightarrow> (v_storage d \<in> list_types \<longrightarrow> length cs = 1)
    \<and> (v_storage d = NANOARROW_TYPE_RUN_END_ENCODED \<longrightarrow> length cs = 2))"
proof -
  obtain name where "ArrowTypeString (v_storage d) = Some name" using type_string [OF assms] by blast
  then show ?thesis
    by (auto simp: check_n_children_def expected_children_def fails_def passes_def list_types_def)
qed

lemma check_run_ends:
  assumes "length cs = 2" "\<forall>c \<in> set cs. v_storage (av_data c) \<noteq> NANOARROW_TYPE_UNINITIALIZED"
  shows "\<exists>e. check_run_ends d cs = Some (e, d) \<and> (e = None \<longrightarrow> v_storage (av_data (hd cs)) \<in> run_end_types)"
proof -
  obtain a b where cs: "cs = [a, b]" using assms(1) by (auto simp: length_Suc_conv numeral_2_eq_2)
  then obtain name where "ArrowTypeString (v_storage (av_data a)) = Some name"
    using type_string assms(2) by (metis list.set_intros(1))
  then show ?thesis using cs
    by (simp add: check_run_ends_def Let_def run_end_limit_def run_end_types_def fails_def passes_def split: if_split)
qed

lemma check_child_lengths:
  assumes "v_storage d \<in> list_types \<Longrightarrow> length cs = 1" "v_storage d = NANOARROW_TYPE_RUN_END_ENCODED \<Longrightarrow> length cs = 2"
    "tame d" "\<forall>c \<in> set cs. v_storage (av_data c) \<noteq> NANOARROW_TYPE_UNINITIALIZED"
  shows "\<exists>e. check_child_lengths d cs = Some (e, d) \<and> (e = None \<longrightarrow> children_fit d (map av_data cs))"
proof -
  consider (st) "v_storage d \<in> {NANOARROW_TYPE_SPARSE_UNION, NANOARROW_TYPE_STRUCT}"
    | (fsl) "v_storage d = NANOARROW_TYPE_FIXED_SIZE_LIST" | (ree) "v_storage d = NANOARROW_TYPE_RUN_END_ENCODED"
    | (other) "v_storage d \<notin> {NANOARROW_TYPE_SPARSE_UNION, NANOARROW_TYPE_STRUCT, NANOARROW_TYPE_FIXED_SIZE_LIST,
        NANOARROW_TYPE_RUN_END_ENCODED}" by blast
  then show ?thesis
  proof cases
    case st
    then show ?thesis using check_struct_children [of "v_offset d + v_length d" 0 cs d]
      by (auto simp: check_child_lengths_def children_fit_def list_types_def)
  next
    case fsl
    then have "length cs = 1" using assms(1) by (simp add: list_types_def)
    then obtain c where "cs = [c]" by (auto simp: length_Suc_conv)
    then show ?thesis using fsl tameD(3) [OF assms(3)]
      by (simp add: check_child_lengths_def check_fixed_size_child_def children_fit_def fails_def passes_def)
  next
    case ree
    with assms(2) have l: "length cs = 2" by simp
    then have "hd (map av_data cs) = av_data (hd cs)" by (cases cs) auto
    with ree l check_run_ends [OF l assms(4), of d] show ?thesis
      by (auto simp: check_child_lengths_def children_fit_def list_types_def)
  next
    case other
    then show ?thesis using assms(1) by (simp add: check_child_lengths_def children_fit_def passes_def)
  qed
qed

section \<open>Minimal validation of a whole view\<close>

definition minimal_facts :: "view_data \<Rightarrow> view_data list \<Rightarrow> bool" where
  "minimal_facts d ds \<longleftrightarrow> 0 \<le> v_offset d \<and> 0 \<le> v_length d \<and> known d 0 \<and> known d 1 \<and> children_fit d ds"

lemma minimal_node:
  assumes "shaped d (length cs)" "sized d" "tame d" "\<forall>c \<in> set cs. v_storage (av_data c) \<noteq> NANOARROW_TYPE_UNINITIALIZED"
  shows "\<exists>e d'. minimal_node d cs = Some (e, d') \<and> unsized d' = unsized d \<and> sized d'
    \<and> (e = None \<longrightarrow> minimal_facts d' (map av_data cs))"
proof (cases "v_length d < 0 \<or> v_offset d < 0")
  case True
  then show ?thesis using assms(2) by (auto simp: minimal_node_def fails_def)
next
  case False
  then have pos: "0 \<le> v_offset d" "0 \<le> v_length d" "\<not> v_offset d + v_length d > 2 ^ 63 - 1"
    using tameD(2) [OF assms(3)] by auto
  have three: "length (v_buffers d) = 3" by (rule shapedD(2) [OF assms(1)])
  obtain e0 d0 where c0: "check_buffer 0 d = Some (e0, d0)" "unsized d0 = unsized d" "sized d0"
    "e0 = None \<Longrightarrow> known d0 0"
    using check_buffer [OF assms(1-3) pos(1,2), of 0] by auto
  have d0: "shaped d0 (length cs)" "tame d0" "0 \<le> v_offset d0" "0 \<le> v_length d0"
    using unsized_node [OF c0(2) three] unsized_fields [OF c0(2)] assms(1,3) pos by simp_all
  obtain e1 d1 where c1: "check_buffer 1 d0 = Some (e1, d1)" "unsized d1 = unsized d0" "sized d1"
    "\<forall>j. j \<noteq> 1 \<longrightarrow> buffer d1 j = buffer d0 j" "e1 = None \<Longrightarrow> known d1 1"
    using check_buffer [OF d0(1) c0(3) d0(2-4), of 1] by auto
  have u1: "unsized d1 = unsized d" using c0(2) c1(2) by simp
  note F1 = unsized_fields [OF u1] and N1 = unsized_node [OF u1 three]
  have st: "v_storage d1 \<noteq> NANOARROW_TYPE_UNINITIALIZED" using F1(4) shapedD(1) [OF assms(1)] by simp
  obtain e2 where c2: "check_n_children d1 cs = Some (e2, d1)"
    "e2 = None \<Longrightarrow> v_storage d1 \<in> list_types \<Longrightarrow> length cs = 1"
    "e2 = None \<Longrightarrow> v_storage d1 = NANOARROW_TYPE_RUN_END_ENCODED \<Longrightarrow> length cs = 2"
    using check_n_children [OF st, of cs] by auto
  have known0: "known d1 0" if "e0 = None"
  proof -
    have "required d1 0 = required d0 0"
      by (rule unsized_required [OF c1(2)]) (use unsized_fields(7) [OF c0(2)] three in simp)
    moreover have "v_layout d1 = v_layout d0" using F1(5) unsized_fields(5) [OF c0(2)] by simp
    ultimately show ?thesis using c0(4) [OF that] c1(4) by (simp add: known_def buffer_kind_def)
  qed
  have eq: "minimal_node d cs = ok_then (check_buffer 0 d) (\<lambda>d. ok_then (check_buffer 1 d) (\<lambda>d.
      ok_then (check_n_children d cs) (\<lambda>d. check_child_lengths d cs)))"
    using pos by (simp add: minimal_node_def)
  consider (a) "e0 \<noteq> None" | (b) "e0 = None" "e1 \<noteq> None" | (c) "e0 = None" "e1 = None" "e2 \<noteq> None"
    | (d) "e0 = None" "e1 = None" "e2 = None" by blast
  then show ?thesis
  proof cases
    case d
    have "tame d1" using N1(1) assms(3) by simp
    from check_child_lengths [OF c2(2,3) [OF d(3)] this assms(4)] obtain e3 where
      c3: "check_child_lengths d1 cs = Some (e3, d1)" "e3 = None \<Longrightarrow> children_fit d1 (map av_data cs)" by auto
    then show ?thesis using d c0(1) c1(1,3,5) c2(1) u1 known0 F1(1,2) pos unfolding eq
      by (simp add: minimal_facts_def)
  qed (use c0 c1 c2 u1 in \<open>auto simp: eq\<close>)
qed

lemma on_children_safe:
  assumes "\<And>c. c \<in> set cs \<Longrightarrow> P c \<and> (\<exists>e c'. f c = Some (e, c') \<and> unsized (av_data c') = unsized (av_data c) \<and> P c'
      \<and> (e = None \<longrightarrow> Q c'))"
  shows "\<exists>e cs'. on_children f cs = Some (e, cs')
    \<and> map (\<lambda>c. unsized (av_data c)) cs' = map (\<lambda>c. unsized (av_data c)) cs \<and> list_all P cs'
    \<and> (e = None \<longrightarrow> list_all Q cs')"
  using assms
proof (induction cs)
  case (Cons c cs)
  obtain e c' where c: "f c = Some (e, c')" "unsized (av_data c') = unsized (av_data c)" "P c'" "e = None \<longrightarrow> Q c'"
    using Cons.prems [of c] by auto
  obtain e1 cs' where cs: "on_children f cs = Some (e1, cs')" "list_all P cs'" "e1 = None \<longrightarrow> list_all Q cs'"
      "map (\<lambda>c. unsized (av_data c)) cs' = map (\<lambda>c. unsized (av_data c)) cs"
    using Cons.IH Cons.prems by auto
  have "list_all P cs" using Cons.prems by (simp add: list_all_iff)
  then show ?case using c cs by (cases e) auto
qed (simp add: passes_def)

lemma on_rest_safe:
  assumes "\<And>c. c \<in> set cs \<or> dictionary = Some c \<Longrightarrow> P c \<and> (\<exists>e c'. f c = Some (e, c')
      \<and> unsized (av_data c') = unsized (av_data c) \<and> P c' \<and> (e = None \<longrightarrow> Q c'))"
  shows "\<exists>e cs' dictionary'. on_rest f (View d cs dictionary) = Some (e, View d cs' dictionary')
    \<and> map (\<lambda>c. unsized (av_data c)) cs' = map (\<lambda>c. unsized (av_data c)) cs \<and> list_all P cs'
    \<and> (case dictionary' of None \<Rightarrow> True | Some v \<Rightarrow> P v)
    \<and> (e = None \<longrightarrow> list_all Q cs' \<and> (case dictionary' of None \<Rightarrow> True | Some v \<Rightarrow> Q v))"
proof -
  obtain e cs' where cs: "on_children f cs = Some (e, cs')" "list_all P cs'" "e = None \<longrightarrow> list_all Q cs'"
      "map (\<lambda>c. unsized (av_data c)) cs' = map (\<lambda>c. unsized (av_data c)) cs"
    using on_children_safe [of cs P f Q] assms by blast
  show ?thesis
  proof (cases e)
    case None
    show ?thesis
    proof (cases dictionary)
      case (Some v)
      then obtain e1 v' where "f v = Some (e1, v')" "P v'" "e1 = None \<longrightarrow> Q v'" using assms [of v] by auto
      then show ?thesis using cs None Some by (simp add: on_rest_def on_dictionary_def)
    qed (use cs \<open>e = None\<close> in \<open>simp add: on_rest_def on_dictionary_def passes_def\<close>)
  next
    case (Some m)
    then show ?thesis using cs assms by (auto simp: on_rest_def split: option.splits)
  qed
qed

lemma children_fit_unsized:
  assumes "map unsized ds' = map unsized ds" shows "children_fit d ds' = children_fit d ds"
proof -
  have l: "length ds' = length ds" using arg_cong [OF assms, of length] by simp
  have u: "v_length (unsized c) = v_length c" "v_storage (unsized c) = v_storage c" for c by (simp_all add: unsized_def)
  have "map v_length ds' = map v_length ds" "map v_storage ds' = map v_storage ds"
    using arg_cong [OF assms, of "map v_length"] arg_cong [OF assms, of "map v_storage"] by (simp_all add: o_def u)
  note m = this
  have s: "v_length ` set ds' = v_length ` set ds" using arg_cong [OF m(1), of set] by simp
  have a: "(\<forall>c \<in> set es. n \<le> v_length c) = (\<forall>k \<in> v_length ` set es. n \<le> k)" for es n by blast
  have "v_length (hd ds') = v_length (hd ds) \<and> v_storage (hd ds') = v_storage (hd ds)"
    using m l by (cases ds; cases ds') auto
  then show ?thesis unfolding children_fit_def l a s by simp
qed

fun minimally_valid :: "array_view \<Rightarrow> bool" where
  "minimally_valid (View d cs dictionary) \<longleftrightarrow> minimal_facts d (map av_data cs) \<and> list_all minimally_valid cs
     \<and> (case dictionary of None \<Rightarrow> True | Some v \<Rightarrow> minimally_valid v)"

lemma conforming_storage: "conforming v \<Longrightarrow> v_storage (av_data v) \<noteq> NANOARROW_TYPE_UNINITIALIZED"
  by (cases v) (auto simp: shaped_def)

lemma validate_minimal:
  "conforming v \<Longrightarrow> \<exists>e v'. ArrowArrayViewValidateMinimal v = Some (e, v') \<and> unsized (av_data v') = unsized (av_data v)
    \<and> conforming v' \<and> (e = None \<longrightarrow> minimally_valid v')"
proof (induction v rule: ArrowArrayViewValidateMinimal.induct)
  case (1 d cs dictionary)
  have c: "shaped d (length cs)" "sized d" "tame d" "long_enough d" "list_all conforming cs"
    "case dictionary of None \<Rightarrow> True | Some v \<Rightarrow> conforming v" using 1(3) by simp_all
  then have st: "\<forall>c \<in> set cs. v_storage (av_data c) \<noteq> NANOARROW_TYPE_UNINITIALIZED"
    using conforming_storage by (simp add: list_all_iff)
  obtain e d' where n: "minimal_node d cs = Some (e, d')" "unsized d' = unsized d" "sized d'"
    "e = None \<longrightarrow> minimal_facts d' (map av_data cs)"
    using minimal_node [OF c(1-3) st] by blast
  note N = unsized_node [OF n(2) shapedD(2) [OF c(1)]]
  show ?case
  proof (cases e)
    case (Some m)
    then show ?thesis using n c N by simp
  next
    case None
    have "\<And>x. x \<in> set cs \<or> dictionary = Some x \<Longrightarrow> conforming x \<and> (\<exists>e x'. ArrowArrayViewValidateMinimal x = Some (e, x')
      \<and> unsized (av_data x') = unsized (av_data x) \<and> conforming x' \<and> (e = None \<longrightarrow> minimally_valid x'))"
      using 1(1) [OF n(1) [unfolded None] refl] 1(2) [OF n(1) [unfolded None] refl] c(5,6)
      by (auto simp: list_all_iff)
    then obtain e1 cs' dictionary' where r: "on_rest ArrowArrayViewValidateMinimal (View d' cs dictionary) = Some (e1, View d' cs' dictionary')"
      "map (\<lambda>c. unsized (av_data c)) cs' = map (\<lambda>c. unsized (av_data c)) cs" "list_all conforming cs'"
      "case dictionary' of None \<Rightarrow> True | Some v \<Rightarrow> conforming v"
      "e1 = None \<longrightarrow> list_all minimally_valid cs' \<and> (case dictionary' of None \<Rightarrow> True | Some v \<Rightarrow> minimally_valid v)"
      using on_rest_safe [of cs dictionary conforming ArrowArrayViewValidateMinimal minimally_valid d'] by blast
    have "length cs' = length cs" using arg_cong [OF r(2), of length] by simp
    moreover have "children_fit d' (map av_data cs') = children_fit d' (map av_data cs)"
      by (rule children_fit_unsized) (use r(2) in \<open>simp add: o_def\<close>)
    ultimately show ?thesis using n None r N c by (simp add: minimal_facts_def)
  qed
qed

section \<open>Reading through known buffers\<close>

lemma long_enoughD:
  assumes "long_enough d" shows "i \<in> {0, 1, 2} \<Longrightarrow> bf_data (buffer d i) = Some b \<Longrightarrow> required d i \<le> int (length b)"
proof -
  assume a: "i \<in> {0, 1, 2}" "bf_data (buffer d i) = Some b"
  from assms have "\<forall>i \<in> {0, 1, 2}. case bf_data (buffer d i) of None \<Rightarrow> True | Some b \<Rightarrow> required d i \<le> int (length b)"
    unfolding long_enough_def by (rule conjunct1)
  from bspec [OF this a(1)] show ?thesis using a(2) by simp
qed

text \<open>A buffer that must hold something is there and long enough.\<close>

lemma known_buffer:
  assumes "sized d" "long_enough d" "known d i" "i < 2" "0 < required d i"
    "buffer_kind d i \<notin> {NANOARROW_BUFFER_TYPE_NONE, NANOARROW_BUFFER_TYPE_VALIDITY}"
  obtains b where "bf_data (buffer d i) = Some b" "required d i \<le> int (length b)"
proof (cases "bf_data (buffer d i)")
  case None
  then show ?thesis using assms buffer_sized(1) [OF assms(1), of i] by (auto simp: known_def)
next
  case (Some b)
  moreover have "i \<in> {0, 1, 2}" using assms(4) by auto
  ultimately show ?thesis using long_enoughD [OF assms(2)] Some by (intro that [of b]) simp_all
qed

text \<open>The bits of the elements of a type, from its layout.\<close>

definition width :: "arrow_type \<Rightarrow> int" where
  "width t = ly_bits (ArrowLayoutInit t) ! 1"

lemma layout_of:
  assumes "shaped d k" "v_storage d \<noteq> NANOARROW_TYPE_FIXED_SIZE_BINARY"
  shows "element_bits d i = ly_bits (ArrowLayoutInit (v_storage d)) ! i"
    "buffer_kind d i = ly_type (ArrowLayoutInit (v_storage d)) ! i"
  using shapedD [OF assms(1)] assms(2) by (simp_all add: element_bits_def buffer_kind_def)

definition float_types :: "arrow_type set" where
  "float_types = {NANOARROW_TYPE_DOUBLE, NANOARROW_TYPE_FLOAT, NANOARROW_TYPE_HALF_FLOAT}"

lemma layout_data:
  "t \<in> {NANOARROW_TYPE_INT64, NANOARROW_TYPE_UINT64, NANOARROW_TYPE_INTERVAL_DAY_TIME, NANOARROW_TYPE_DECIMAL64} \<Longrightarrow>
     ly_type (ArrowLayoutInit t) ! 1 = NANOARROW_BUFFER_TYPE_DATA \<and> ly_bits (ArrowLayoutInit t) ! 1 = 64"
  "t \<in> {NANOARROW_TYPE_INT32, NANOARROW_TYPE_UINT32, NANOARROW_TYPE_INTERVAL_MONTHS, NANOARROW_TYPE_DECIMAL32} \<Longrightarrow>
     ly_type (ArrowLayoutInit t) ! 1 = NANOARROW_BUFFER_TYPE_DATA \<and> ly_bits (ArrowLayoutInit t) ! 1 = 32"
  "t \<in> {NANOARROW_TYPE_INT16, NANOARROW_TYPE_UINT16} \<Longrightarrow>
     ly_type (ArrowLayoutInit t) ! 1 = NANOARROW_BUFFER_TYPE_DATA \<and> ly_bits (ArrowLayoutInit t) ! 1 = 16"
  "t \<in> {NANOARROW_TYPE_INT8, NANOARROW_TYPE_UINT8} \<Longrightarrow>
     ly_type (ArrowLayoutInit t) ! 1 = NANOARROW_BUFFER_TYPE_DATA \<and> ly_bits (ArrowLayoutInit t) ! 1 = 8"
  "t = NANOARROW_TYPE_BOOL \<Longrightarrow>
     ly_type (ArrowLayoutInit t) ! 1 = NANOARROW_BUFFER_TYPE_DATA \<and> ly_bits (ArrowLayoutInit t) ! 1 = 1"
  "t \<in> {NANOARROW_TYPE_DECIMAL128, NANOARROW_TYPE_INTERVAL_MONTH_DAY_NANO} \<Longrightarrow>
     ly_type (ArrowLayoutInit t) ! 1 = NANOARROW_BUFFER_TYPE_DATA \<and> ly_bits (ArrowLayoutInit t) ! 1 = 128"
  "t = NANOARROW_TYPE_DECIMAL256 \<Longrightarrow>
     ly_type (ArrowLayoutInit t) ! 1 = NANOARROW_BUFFER_TYPE_DATA \<and> ly_bits (ArrowLayoutInit t) ! 1 = 256"
  by (auto simp: ArrowLayoutInit_def set_buffer_def set_size_def)

lemma layout_offsets:
  "t \<in> {NANOARROW_TYPE_STRING, NANOARROW_TYPE_BINARY} \<Longrightarrow> ly_type (ArrowLayoutInit t) =
     [NANOARROW_BUFFER_TYPE_VALIDITY, NANOARROW_BUFFER_TYPE_DATA_OFFSET, NANOARROW_BUFFER_TYPE_DATA]
     \<and> ly_bits (ArrowLayoutInit t) = [1, 32, 0]"
  "t \<in> {NANOARROW_TYPE_LARGE_STRING, NANOARROW_TYPE_LARGE_BINARY} \<Longrightarrow> ly_type (ArrowLayoutInit t) =
     [NANOARROW_BUFFER_TYPE_VALIDITY, NANOARROW_BUFFER_TYPE_DATA_OFFSET, NANOARROW_BUFFER_TYPE_DATA]
     \<and> ly_bits (ArrowLayoutInit t) = [1, 64, 0]"
  "t \<in> {NANOARROW_TYPE_LIST, NANOARROW_TYPE_MAP} \<Longrightarrow> ly_type (ArrowLayoutInit t) =
     [NANOARROW_BUFFER_TYPE_VALIDITY, NANOARROW_BUFFER_TYPE_DATA_OFFSET, NANOARROW_BUFFER_TYPE_NONE]
     \<and> ly_bits (ArrowLayoutInit t) = [1, 32, 0]"
  "t = NANOARROW_TYPE_LARGE_LIST \<Longrightarrow> ly_type (ArrowLayoutInit t) =
     [NANOARROW_BUFFER_TYPE_VALIDITY, NANOARROW_BUFFER_TYPE_DATA_OFFSET, NANOARROW_BUFFER_TYPE_NONE]
     \<and> ly_bits (ArrowLayoutInit t) = [1, 64, 0]"
  "t = NANOARROW_TYPE_LIST_VIEW \<Longrightarrow> ly_type (ArrowLayoutInit t) =
     [NANOARROW_BUFFER_TYPE_VALIDITY, NANOARROW_BUFFER_TYPE_VIEW_OFFSET, NANOARROW_BUFFER_TYPE_SIZE]
     \<and> ly_bits (ArrowLayoutInit t) = [1, 32, 32]"
  "t = NANOARROW_TYPE_LARGE_LIST_VIEW \<Longrightarrow> ly_type (ArrowLayoutInit t) =
     [NANOARROW_BUFFER_TYPE_VALIDITY, NANOARROW_BUFFER_TYPE_VIEW_OFFSET, NANOARROW_BUFFER_TYPE_SIZE]
     \<and> ly_bits (ArrowLayoutInit t) = [1, 64, 64]"
  "t = NANOARROW_TYPE_DENSE_UNION \<Longrightarrow> ly_type (ArrowLayoutInit t) =
     [NANOARROW_BUFFER_TYPE_TYPE_ID, NANOARROW_BUFFER_TYPE_UNION_OFFSET, NANOARROW_BUFFER_TYPE_NONE]
     \<and> ly_bits (ArrowLayoutInit t) = [8, 32, 0]"
  "t = NANOARROW_TYPE_SPARSE_UNION \<Longrightarrow> ly_type (ArrowLayoutInit t) =
     [NANOARROW_BUFFER_TYPE_TYPE_ID, NANOARROW_BUFFER_TYPE_NONE, NANOARROW_BUFFER_TYPE_NONE]
     \<and> ly_bits (ArrowLayoutInit t) = [8, 0, 0]"
  by (auto simp: ArrowLayoutInit_def set_buffer_def set_size_def)

text \<open>The elements of a data buffer whose width is whole bytes.\<close>

lemma data_elements:
  assumes "sized d" "long_enough d" "known d 1" "0 \<le> v_offset d" "0 \<le> i" "i < v_length d"
    "buffer_kind d 1 = NANOARROW_BUFFER_TYPE_DATA" "element_bits d 1 = 8 * w" "0 \<le> w"
  obtains b where "bf_data (buffer d 1) = Some b" "w * (v_offset d + i + 1) \<le> int (length b)"
  | "w = 0" "bf_data (buffer d 1) = None"
proof -
  have r: "required d 1 = w * (v_offset d + v_length d)" using assms(7,8) by (simp add: required_def Let_def mult.assoc)
  have le: "w * (v_offset d + i + 1) \<le> w * (v_offset d + v_length d)" by (rule mult_left_mono) (use assms(6,9) in simp_all)
  show ?thesis
  proof (cases "w = 0")
    case True
    then show ?thesis using that by (cases "bf_data (buffer d 1)") auto
  next
    case False
    then have "0 < required d 1" using assms(4-6,9) unfolding r by simp
    with known_buffer [OF assms(1-3)] assms(7) obtain b where
      "bf_data (buffer d 1) = Some b" "required d 1 \<le> int (length b)" by auto
    then show ?thesis using that(1) r le by simp
  qed
qed

lemma int_readable:
  assumes "shaped d k" "sized d" "long_enough d" "known d 1" "0 \<le> v_offset d" "0 \<le> i" "i < v_length d"
    "v_storage d \<notin> float_types"
  shows "\<exists>n. ArrowArrayViewGetIntUnsafe d i = Some n"
proof (cases "has_numbers (v_storage d)")
  case True
  then have nf: "v_storage d \<noteq> NANOARROW_TYPE_FIXED_SIZE_BINARY" by (auto simp: has_numbers_def)
  note L = layout_of [OF assms(1) nf, of 1]
  note E = data_elements [OF assms(2-7)]
  have o: "0 \<le> i + v_offset d" "v_offset d + i = i + v_offset d" using assms(5,6) by simp_all
  consider (w64) "v_storage d \<in> {NANOARROW_TYPE_INT64, NANOARROW_TYPE_UINT64}"
    | (w32) "v_storage d \<in> {NANOARROW_TYPE_INT32, NANOARROW_TYPE_UINT32, NANOARROW_TYPE_INTERVAL_MONTHS}"
    | (w16) "v_storage d \<in> {NANOARROW_TYPE_INT16, NANOARROW_TYPE_UINT16}"
    | (w8) "v_storage d \<in> {NANOARROW_TYPE_INT8, NANOARROW_TYPE_UINT8}" | (bool) "v_storage d = NANOARROW_TYPE_BOOL"
    using True assms(8) by (auto simp: has_numbers_def float_types_def)
  then have "number_at int64 d i \<noteq> None"
  proof cases
    case w64
    then obtain b where "bf_data (buffer d 1) = Some b" "8 * (i + v_offset d + 1) \<le> int (length b)"
      using E [of 8] L layout_data(1) [of "v_storage d"] o by auto
    then show ?thesis using w64 as_int_Some(7,8) [OF _ o(1)] by (auto simp: number_at_def Let_def)
  next
    case w32
    then obtain b where "bf_data (buffer d 1) = Some b" "4 * (i + v_offset d + 1) \<le> int (length b)"
      using E [of 4] L layout_data(2) [of "v_storage d"] o by auto
    then show ?thesis using w32 as_int_Some(5,6) [OF _ o(1)] by (auto simp: number_at_def Let_def)
  next
    case w16
    then obtain b where "bf_data (buffer d 1) = Some b" "2 * (i + v_offset d + 1) \<le> int (length b)"
      using E [of 2] L layout_data(3) [of "v_storage d"] o by auto
    then show ?thesis using w16 as_int_Some(3,4) [OF _ o(1)] by (auto simp: number_at_def Let_def)
  next
    case w8
    then obtain b where "bf_data (buffer d 1) = Some b" "i + v_offset d + 1 \<le> int (length b)"
      using E [of 1] L layout_data(4) [of "v_storage d"] o by auto
    then show ?thesis using w8 as_int_Some(1,2) [OF _ o(1)] by (auto simp: number_at_def Let_def)
  next
    case bool
    then have k: "buffer_kind d 1 = NANOARROW_BUFFER_TYPE_DATA" "required d 1 = (v_offset d + v_length d + 7) div 8"
      using L layout_data(5) by (simp_all add: required_def Let_def)
    have "(i + v_offset d + 8) div 8 \<le> (v_offset d + v_length d + 7) div 8" by (rule zdiv_mono1) (use assms(7) in auto)
    moreover have "0 < (i + v_offset d + 8) div 8" using o by (simp add: pos_imp_zdiv_pos_iff)
    ultimately have pos: "0 < required d 1" "(i + v_offset d + 8) div 8 \<le> required d 1" using k(2) by simp_all
    obtain b where "bf_data (buffer d 1) = Some b" "required d 1 \<le> int (length b)"
      by (rule known_buffer [OF assms(2-4) _ pos(1)]) (use k(1) in simp_all)
    with pos(2) have "bf_data (buffer d 1) = Some b" "(i + v_offset d + 8) div 8 \<le> int (length b)" by simp_all
    then show ?thesis using bool bit_at_Some [OF _ o(1)] by (auto simp: number_at_def Let_def)
  qed
  then show ?thesis using True by (auto simp: ArrowArrayViewGetIntUnsafe_def)
qed (simp add: ArrowArrayViewGetIntUnsafe_def)

section \<open>Default validation\<close>

text \<open>The reader of the offsets of a type, and their width in bytes.\<close>

definition offset_reader :: "arrow_type \<Rightarrow> block \<Rightarrow> int \<Rightarrow> int option" where
  "offset_reader t = (if t \<in> {NANOARROW_TYPE_STRING, NANOARROW_TYPE_BINARY, NANOARROW_TYPE_LIST, NANOARROW_TYPE_MAP,
     NANOARROW_TYPE_LIST_VIEW} then as_int32 else as_int64)"

definition offset_types :: "arrow_type set" where
  "offset_types = {NANOARROW_TYPE_STRING, NANOARROW_TYPE_BINARY, NANOARROW_TYPE_LARGE_STRING, NANOARROW_TYPE_LARGE_BINARY,
     NANOARROW_TYPE_LIST, NANOARROW_TYPE_MAP, NANOARROW_TYPE_LARGE_LIST}"

definition offset_at :: "view_data \<Rightarrow> int \<Rightarrow> int option" where
  "offset_at d i = offset_reader (v_storage d) (bf_data (buffer d 1)) i"

lemma offsets_readable:
  assumes "shaped d k" "sized d" "long_enough d" "known d 1" "0 \<le> v_offset d" "0 \<le> v_length d" "v_storage d \<in> offset_types"
    "v_offset d + v_length d \<noteq> 0" "0 \<le> i" "i \<le> v_offset d + v_length d"
  shows "\<exists>a. offset_at d i = Some a"
proof -
  obtain n where n: "v_offset d + v_length d = n" "0 < n" using assms(5,6,8) by simp
  have nf: "v_storage d \<noteq> NANOARROW_TYPE_FIXED_SIZE_BINARY" using assms(7) by (auto simp: offset_types_def)
  note L = layout_of [OF assms(1) nf, of 1]
  define w :: nat where "w = (if v_storage d \<in> {NANOARROW_TYPE_STRING, NANOARROW_TYPE_BINARY, NANOARROW_TYPE_LIST,
      NANOARROW_TYPE_MAP, NANOARROW_TYPE_LIST_VIEW} then 4 else 8)"
  have k: "buffer_kind d 1 = NANOARROW_BUFFER_TYPE_DATA_OFFSET" "element_bits d 1 = 8 * int w"
    unfolding L using assms(7) layout_offsets(1-4) [of "v_storage d"] by (auto simp: offset_types_def w_def)
  have r: "required d 1 = int w * (n + 1)" using k n by (simp add: required_def n(1) Let_def)
  then have pos: "0 < required d 1" using n(2) by (simp add: w_def)
  obtain b where b: "bf_data (buffer d 1) = Some b" "required d 1 \<le> int (length b)"
    by (rule known_buffer [OF assms(2-4) _ pos]) (use k(1) in simp_all)
  have "int w * (i + 1) \<le> int w * (n + 1)" by (rule mult_left_mono) (use assms(10) n in auto)
  then have "int w * (i + 1) \<le> int (length b)" using b(2) r by simp
  then show ?thesis using as_int_Some(5,7) [OF b(1) assms(9)]
    unfolding offset_at_def offset_reader_def by (auto simp: w_def split: if_splits)
qed

text \<open>What the offsets promise: the first and the last are not negative, and the last within the data or the child.\<close>

definition last_within :: "view_data \<Rightarrow> view_data list \<Rightarrow> int \<Rightarrow> bool" where
  "last_within d ds b \<longleftrightarrow>
     (if v_storage d \<in> list_types then b \<le> v_length (hd ds)
      else (case bf_data (buffer d 2) of None \<Rightarrow> b = 0 | Some data \<Rightarrow> b \<le> int (length data)))"

definition default_facts :: "view_data \<Rightarrow> view_data list \<Rightarrow> bool" where
  "default_facts d ds \<longleftrightarrow> (v_storage d \<in> offset_types \<and> v_offset d + v_length d \<noteq> 0 \<longrightarrow>
     (\<exists>a b. offset_at d (v_offset d) = Some a \<and> offset_at d (v_offset d + v_length d) = Some b
        \<and> 0 \<le> a \<and> 0 \<le> b \<and> last_within d ds b))
   \<and> (v_storage d = NANOARROW_TYPE_RUN_END_ENCODED \<and> v_length (hd ds) \<noteq> 0 \<longrightarrow>
        (\<exists>l. ArrowArrayViewGetIntUnsafe (hd ds) (v_length (hd ds) - 1) = Some l \<and> v_offset d + v_length d \<le> l))"

lemma string_third:
  assumes "sized d" "long_enough d" "bf_size (buffer d 2) = required d 2"
  shows "case bf_data (buffer d 2) of None \<Rightarrow> required d 2 = 0 | Some data \<Rightarrow> required d 2 \<le> int (length data)"
proof (cases "bf_data (buffer d 2)")
  case None
  then show ?thesis using buffer_sized(1) [OF assms(1), of 2] assms(3) by simp
next
  case (Some data)
  then show ?thesis using long_enoughD [OF assms(2), of 2] by simp
qed

lemma offsets_size:
  assumes "shaped d k" "sized d" "known d 1" "0 \<le> v_offset d" "0 \<le> v_length d" "v_storage d \<in> offset_types"
  shows "bf_size (buffer d 1) = 0 \<longleftrightarrow> v_offset d + v_length d = 0"
proof -
  have nf: "v_storage d \<noteq> NANOARROW_TYPE_FIXED_SIZE_BINARY" using assms(6) by (auto simp: offset_types_def)
  note L = layout_of [OF assms(1) nf, of 1]
  have k: "buffer_kind d 1 = NANOARROW_BUFFER_TYPE_DATA_OFFSET" "element_bits d 1 \<in> {32, 64}"
    unfolding L using assms(6) layout_offsets(1-4) [of "v_storage d"] by (auto simp: offset_types_def)
  have "bf_size (buffer d 1) = required d 1" using assms(3) k(1) by (simp add: known_def)
  also have "... = 0 \<longleftrightarrow> v_offset d + v_length d = 0" using k assms(4,5) by (auto simp: required_def Let_def)
  finally show ?thesis .
qed

lemma check_strings:
  assumes "shaped d k" "sized d" "long_enough d" "known d 1" "0 \<le> v_offset d" "0 \<le> v_length d"
    "v_storage d \<in> offset_types - list_types"
  shows "\<exists>e d'. check_data_buffer (offset_reader (v_storage d)) d = Some (e, d') \<and> unsized d' = unsized d \<and> sized d'
    \<and> (\<forall>j. j \<noteq> 2 \<longrightarrow> buffer d' j = buffer d j) \<and> (e = None \<longrightarrow> default_facts d' ds)"
proof -
  have st: "v_storage d \<in> offset_types" using assms(7) by simp
  have nf: "v_storage d \<noteq> NANOARROW_TYPE_FIXED_SIZE_BINARY" using st by (auto simp: offset_types_def)
  note L2 = layout_of [OF assms(1) nf, of 2] and L1 = layout_of [OF assms(1) nf, of 1]
  have k2: "buffer_kind d 2 = NANOARROW_BUFFER_TYPE_DATA"
    "offset_reader (v_storage d) = (if element_bits d 1 = 32 then as_int32 else as_int64)"
    unfolding L1 L2 using assms(7) layout_offsets(1-2) [of "v_storage d"]
    by (auto simp: offset_types_def list_types_def offset_reader_def)
  have three: "length (v_buffers d) = 3" by (rule shapedD(2) [OF assms(1)])
  note Z = offsets_size [OF assms(1,2,4,5,6) st]
  show ?thesis
  proof (cases "v_offset d + v_length d = 0")
    case True
    then have r: "required d 2 = 0" using k2(1) by (simp add: required_def last_offset_def Let_def)
    show ?thesis
    proof (cases "bf_size (buffer d 2) = - 1")
      case unknown: True
      then have "bf_data (buffer d 2) \<noteq> None" using buffer_sized(1) [OF assms(2), of 2] by auto
      then have "sized (set_buffer_size 2 0 d)" using sized_set [OF assms(2) three, of 2] r by simp
      moreover have "default_facts (set_buffer_size 2 0 d) ds"
        using True unsized_fields(1,2,4) [OF unsized_set [of 2 0 d]] st
        by (auto simp: default_facts_def offset_types_def)
      ultimately show ?thesis using unknown Z True by (simp add: check_data_buffer_def passes_def unsized_set buffer_set)
    next
      case False
      then show ?thesis using True Z assms(2) st
        by (auto simp: check_data_buffer_def passes_def default_facts_def offset_types_def)
    qed
  next
    case False
    obtain a b where ab: "offset_at d (v_offset d) = Some a" "offset_at d (v_offset d + v_length d) = Some b"
      using offsets_readable [OF assms(1-6) st False] assms(5,6) by fastforce
    have r: "required d 2 = b"
      using ab(2) False k2 by (simp add: required_def last_offset_def offset_at_def Let_def)
    have eq: "check_data_buffer (offset_reader (v_storage d)) d =
      (if a < 0 then fails (''Expected first offset >= 0 but found '' @ int_to_string a) d
       else if b < 0 then fails (''Expected last offset >= 0 but found '' @ int_to_string b) d
       else assign_or_check 2 (required d 2) d)"
      using Z False ab by (simp add: check_data_buffer_def with_last_offset_def offset_at_def r)
    show ?thesis
    proof (cases "a < 0 \<or> b < 0")
      case True
      then show ?thesis using assms(2) unfolding eq by (auto simp: fails_def)
    next
      case pos: False
      then have "\<And>x. 0 \<le> required d 2" using r by simp
      with assign_or_check [OF assms(1,2), of 2] obtain e d' where
        c: "assign_or_check 2 (required d 2) d = Some (e, d')" "unsized d' = unsized d" "sized d'"
          "\<forall>j. j \<noteq> 2 \<longrightarrow> buffer d' j = buffer d j" "e = None \<Longrightarrow> bf_size (buffer d' 2) = required d 2" by auto
      note F = unsized_fields [OF c(2)]
      have le: "long_enough d'" using unsized_node(2) [OF c(2) three] assms(3) by simp
      have r': "required d' 2 = b" using unsized_required [OF c(2) three] r by simp
      have "default_facts d' ds" if "e = None"
      proof -
        have "last_within d' ds b"
          using string_third [OF c(3) le] c(5) [OF that] r r' F(4) assms(7)
          by (simp add: last_within_def split: option.splits)
        moreover have "offset_at d' i = offset_at d i" for i using F(4) c(4) by (simp add: offset_at_def)
        ultimately show ?thesis using ab pos F(1,2,4) st by (auto simp: default_facts_def offset_types_def)
      qed
      then show ?thesis using c pos unfolding eq by auto
    qed
  qed
qed

lemma check_lists:
  assumes "shaped d k" "sized d" "long_enough d" "known d 1" "0 \<le> v_offset d" "0 \<le> v_length d"
    "v_storage d \<in> offset_types \<inter> list_types" "length cs = 1"
  shows "\<exists>e. check_list_child (offset_reader (v_storage d)) d cs = Some (e, d)
    \<and> (e = None \<longrightarrow> default_facts d (map av_data cs))"
proof -
  have st: "v_storage d \<in> offset_types" using assms(7) by simp
  obtain c where cs: "cs = [c]" using assms(8) by (auto simp: length_Suc_conv)
  obtain name where name: "ArrowTypeString (v_storage d) = Some name"
    using type_string [OF shapedD(1) [OF assms(1)]] by blast
  note Z = offsets_size [OF assms(1,2,4,5,6) st]
  show ?thesis
  proof (cases "v_offset d + v_length d = 0")
    case True
    then show ?thesis using Z st by (auto simp: check_list_child_def passes_def default_facts_def offset_types_def)
  next
    case False
    obtain a b where ab: "offset_at d (v_offset d) = Some a" "offset_at d (v_offset d + v_length d) = Some b"
      using offsets_readable [OF assms(1-6) st False] assms(5,6) by fastforce
    have "default_facts d [av_data c]" if "0 \<le> a" "0 \<le> b" "b \<le> v_length (av_data c)"
      using that ab assms(7) by (auto simp: default_facts_def last_within_def offset_types_def)
    then show ?thesis using Z False ab name cs
      by (auto simp: check_list_child_def with_last_offset_def offset_at_def fails_def passes_def)
  qed
qed

lemma int_unsized:
  assumes "unsized d' = unsized d" "length (v_buffers d) = 3"
  shows "ArrowArrayViewGetIntUnsafe d' i = ArrowArrayViewGetIntUnsafe d i"
  using unsized_fields [OF assms(1)] assms(2)
  by (simp add: ArrowArrayViewGetIntUnsafe_def number_at_def)

lemma run_ends_readable:
  assumes "conforming re" "minimally_valid re" "v_storage (av_data re) \<in> run_end_types" "0 \<le> i" "i < v_length (av_data re)"
  shows "\<exists>n. ArrowArrayViewGetIntUnsafe (av_data re) i = Some n"
proof (cases re)
  case (View d cs dictionary)
  then show ?thesis using assms int_readable [of d "length cs" i]
    by (auto simp: minimal_facts_def run_end_types_def float_types_def)
qed

lemma check_run_end_values:
  assumes "list_all conforming cs" "list_all minimally_valid cs" "length cs = 2"
    "v_storage (av_data (hd cs)) \<in> run_end_types" "v_storage d = NANOARROW_TYPE_RUN_END_ENCODED"
  shows "\<exists>e. check_run_end_values d cs = Some (e, d) \<and> (e = None \<longrightarrow> default_facts d (map av_data cs))"
proof -
  obtain re ve where cs: "cs = [re, ve]" using assms(3) by (auto simp: length_Suc_conv numeral_2_eq_2)
  have nt: "v_storage d \<notin> offset_types" using assms(5) by (simp add: offset_types_def)
  show ?thesis
  proof (cases "v_length (av_data re) = 0")
    case True
    then show ?thesis using cs nt by (simp add: check_run_end_values_def passes_def default_facts_def)
  next
    case False
    moreover have "0 \<le> v_length (av_data re)" using assms(2) cs by (cases re) (simp add: minimal_facts_def)
    ultimately have len: "0 < v_length (av_data re)" by simp
    then obtain a l where "ArrowArrayViewGetIntUnsafe (av_data re) 0 = Some a"
      "ArrowArrayViewGetIntUnsafe (av_data re) (v_length (av_data re) - 1) = Some l"
      using run_ends_readable [of re] assms(1,2,4) cs by fastforce
    then show ?thesis using False cs nt
      by (simp add: check_run_end_values_def default_facts_def fails_def passes_def)
  qed
qed

lemma default_node:
  assumes "shaped d (length cs)" "sized d" "long_enough d" "minimal_facts d (map av_data cs)"
    "list_all conforming cs" "list_all minimally_valid cs"
  shows "\<exists>e d'. default_node d cs = Some (e, d') \<and> unsized d' = unsized d \<and> sized d'
    \<and> (\<forall>j. j \<noteq> 2 \<longrightarrow> buffer d' j = buffer d j) \<and> (e = None \<longrightarrow> default_facts d' (map av_data cs))"
proof -
  have M: "0 \<le> v_offset d" "0 \<le> v_length d" "known d 1" "children_fit d (map av_data cs)"
    using assms(4) by (simp_all add: minimal_facts_def)
  consider (s32) "v_storage d \<in> {NANOARROW_TYPE_STRING, NANOARROW_TYPE_BINARY}"
    | (s64) "v_storage d \<in> {NANOARROW_TYPE_LARGE_STRING, NANOARROW_TYPE_LARGE_BINARY}"
    | (l32) "v_storage d \<in> {NANOARROW_TYPE_LIST, NANOARROW_TYPE_MAP}" | (l64) "v_storage d = NANOARROW_TYPE_LARGE_LIST"
    | (st) "v_storage d = NANOARROW_TYPE_STRUCT" | (ree) "v_storage d = NANOARROW_TYPE_RUN_END_ENCODED"
    | (other) "v_storage d \<notin> offset_types" "v_storage d \<noteq> NANOARROW_TYPE_STRUCT"
        "v_storage d \<noteq> NANOARROW_TYPE_RUN_END_ENCODED"
    by (auto simp: offset_types_def)
  then show ?thesis
  proof cases
    case s32
    then have "v_storage d \<in> offset_types - list_types" by (auto simp: offset_types_def list_types_def)
    from check_strings [OF assms(1-3) M(3,1,2) this] s32 show ?thesis by (auto simp: default_node_def offset_reader_def)
  next
    case s64
    then have "v_storage d \<in> offset_types - list_types" by (auto simp: offset_types_def list_types_def)
    from check_strings [OF assms(1-3) M(3,1,2) this] s64 show ?thesis by (auto simp: default_node_def offset_reader_def)
  next
    case l32
    then have l: "v_storage d \<in> offset_types \<inter> list_types" by (auto simp: offset_types_def list_types_def)
    then have "length cs = 1" using M(4) by (simp add: children_fit_def Let_def)
    from check_lists [OF assms(1-3) M(3,1,2) l this] l32 assms(2) show ?thesis
      by (auto simp: default_node_def offset_reader_def)
  next
    case l64
    then have l: "v_storage d \<in> offset_types \<inter> list_types" by (auto simp: offset_types_def list_types_def)
    then have "length cs = 1" using M(4) by (simp add: children_fit_def Let_def)
    from check_lists [OF assms(1-3) M(3,1,2) l this] l64 assms(2) show ?thesis
      by (auto simp: default_node_def offset_reader_def)
  next
    case st
    then have "default_facts d (map av_data cs)" by (simp add: default_facts_def offset_types_def)
    then show ?thesis using st assms(2) check_struct_children [of "v_offset d + v_length d" 0 cs d]
      by (auto simp: default_node_def)
  next
    case ree
    then have l: "length cs = 2" "v_storage (av_data (hd cs)) \<in> run_end_types"
      using M(4) by (cases cs; auto simp: children_fit_def Let_def)+
    from check_run_end_values [OF assms(5,6) l ree] ree assms(2) show ?thesis by (auto simp: default_node_def)
  next
    case other
    then show ?thesis using assms(2) by (auto simp: default_node_def passes_def default_facts_def offset_types_def)
  qed
qed

fun default_valid :: "array_view \<Rightarrow> bool" where
  "default_valid (View d cs dictionary) \<longleftrightarrow> minimal_facts d (map av_data cs) \<and> default_facts d (map av_data cs)
     \<and> list_all default_valid cs \<and> (case dictionary of None \<Rightarrow> True | Some v \<Rightarrow> default_valid v)"

lemma default_facts_unsized:
  assumes "map unsized ds' = map unsized ds" "\<forall>c \<in> set ds. length (v_buffers c) = 3" "default_facts d ds"
    "v_storage d \<in> list_types \<union> {NANOARROW_TYPE_RUN_END_ENCODED} \<Longrightarrow> ds \<noteq> []"
  shows "default_facts d ds'"
proof (cases ds)
  case Nil
  then show ?thesis using assms by (auto simp: default_facts_def last_within_def)
next
  case (Cons c cs)
  then obtain c' cs' where ds': "ds' = c' # cs'" "unsized c' = unsized c" using assms(1) by auto
  have "ArrowArrayViewGetIntUnsafe c' i = ArrowArrayViewGetIntUnsafe c i" for i
    by (rule int_unsized [OF ds'(2)]) (use assms(2) Cons in simp)
  moreover have "last_within d ds' = last_within d ds"
    using unsized_fields(2) [OF ds'(2)] by (simp add: fun_eq_iff Cons ds'(1) last_within_def)
  ultimately show ?thesis using assms(3) unsized_fields(2) [OF ds'(2)] by (simp add: Cons ds'(1) default_facts_def)
qed

lemma validate_default:
  "conforming v \<Longrightarrow> \<exists>e v'. ArrowArrayViewValidateDefault v = Some (e, v') \<and> unsized (av_data v') = unsized (av_data v)
    \<and> conforming v' \<and> (e = None \<longrightarrow> default_valid v')"
proof (induction v rule: ArrowArrayViewValidateDefault.induct)
  case (1 v)
  obtain e1 v1 where m: "ArrowArrayViewValidateMinimal v = Some (e1, v1)" "unsized (av_data v1) = unsized (av_data v)"
    "conforming v1" "e1 = None \<Longrightarrow> minimally_valid v1"
    using validate_minimal [OF 1(3)] by auto
  show ?case
  proof (cases e1)
    case (Some msg)
    then show ?thesis using m by (simp add: ArrowArrayViewValidateDefault.simps [of v])
  next
    case None
    obtain d cs dictionary where v1: "v1 = View d cs dictionary" by (cases v1)
    have c: "shaped d (length cs)" "sized d" "tame d" "long_enough d" "list_all conforming cs"
      "case dictionary of None \<Rightarrow> True | Some v \<Rightarrow> conforming v" using m(3) v1 by simp_all
    have mv: "minimal_facts d (map av_data cs)" "list_all minimally_valid cs" using m(4) None v1 by simp_all
    have three: "length (v_buffers d) = 3" by (rule shapedD(2) [OF c(1)])
    obtain e2 d' where n: "default_node d cs = Some (e2, d')" "unsized d' = unsized d" "sized d'"
      "\<forall>j. j \<noteq> 2 \<longrightarrow> buffer d' j = buffer d j" "e2 = None \<longrightarrow> default_facts d' (map av_data cs)"
      using default_node [OF c(1,2,4) mv(1) c(5) mv(2)] by blast
    note N = unsized_node [OF n(2) three]
    have step: "ArrowArrayViewValidateDefault v = (case e2 of Some m \<Rightarrow> Some (Some m, View d' cs dictionary)
        | None \<Rightarrow> on_rest ArrowArrayViewValidateDefault (View d' cs dictionary))"
      using m(1) None v1 n(1) by (simp add: ArrowArrayViewValidateDefault.simps [of v] split: option.split)
    show ?thesis
    proof (cases e2)
      case (Some msg)
      then show ?thesis using step n c N m(2) v1 by simp
    next
      case e2: None
      have "\<And>x. x \<in> set cs \<or> dictionary = Some x \<Longrightarrow> conforming x \<and> (\<exists>e x'. ArrowArrayViewValidateDefault x = Some (e, x')
        \<and> unsized (av_data x') = unsized (av_data x) \<and> conforming x' \<and> (e = None \<longrightarrow> default_valid x'))"
        using 1(1) [OF m(1) [unfolded None v1] refl refl refl n(1) [unfolded e2] refl refl]
          1(2) [OF m(1) [unfolded None v1] refl refl refl n(1) [unfolded e2] refl refl] c(5,6)
        by (auto simp: list_all_iff)
      then obtain e3 cs' dictionary' where r: "on_rest ArrowArrayViewValidateDefault (View d' cs dictionary) = Some (e3, View d' cs' dictionary')"
        "map (\<lambda>c. unsized (av_data c)) cs' = map (\<lambda>c. unsized (av_data c)) cs" "list_all conforming cs'"
        "case dictionary' of None \<Rightarrow> True | Some v \<Rightarrow> conforming v"
        "e3 = None \<longrightarrow> list_all default_valid cs' \<and> (case dictionary' of None \<Rightarrow> True | Some v \<Rightarrow> default_valid v)"
        using on_rest_safe [of cs dictionary conforming ArrowArrayViewValidateDefault default_valid d'] by blast
      have l: "length cs' = length cs" using arg_cong [OF r(2), of length] by simp
      have u: "map unsized (map av_data cs') = map unsized (map av_data cs)" using r(2) by (simp add: o_def)
      have "minimal_facts d' (map av_data cs')"
      proof -
        have "children_fit d' (map av_data cs)" using mv(1) unsized_fields [OF n(2)] by (simp add: minimal_facts_def children_fit_def)
        moreover have "known d' 0" "known d' 1"
          using mv(1) n(4) unsized_required [OF n(2) three] unsized_fields(5) [OF n(2)]
          by (simp_all add: minimal_facts_def known_def buffer_kind_def)
        ultimately show ?thesis using mv(1) unsized_fields(1,2) [OF n(2)] children_fit_unsized [OF u, of d']
          by (simp add: minimal_facts_def)
      qed
      moreover have "default_facts d' (map av_data cs')"
      proof (rule default_facts_unsized [OF u])
        show "\<forall>c \<in> set (map av_data cs). length (v_buffers c) = 3"
        proof (clarsimp)
          fix c assume "c \<in> set cs"
          then have "conforming c" using c(5) by (simp add: list_all_iff)
          then show "length (v_buffers (av_data c)) = 3" by (cases c) (auto simp: shaped_def)
        qed
        show "default_facts d' (map av_data cs)" using n(5) e2 by simp
        show "map av_data cs \<noteq> []" if "v_storage d' \<in> list_types \<union> {NANOARROW_TYPE_RUN_END_ENCODED}"
          using that mv(1) unsized_fields(4) [OF n(2)] by (auto simp: minimal_facts_def children_fit_def Let_def)
      qed
      ultimately show ?thesis using step e2 r n c N l m(2) v1 by simp
    qed
  qed
qed

end
