(* ===== verification/Array_Readable.thy ===== *)
theory Array_Readable
  imports Array_Safety
begin

text \<open>
  Full validation, and what follows from it: every value of the array can be read, and every list, union and run
  refers to elements its children have.
\<close>

section \<open>Loops that check every element\<close>

lemma increasing_from:
  assumes "\<forall>j. i - 1 \<le> j \<and> j < i + int n \<longrightarrow> elem j \<noteq> None"
  shows "\<exists>e. increasing_from elem i n = Some (e, ())
    \<and> (e = None \<longrightarrow> (\<forall>j. i \<le> j \<and> j < i + int n \<longrightarrow> (\<exists>x y. elem (j - 1) = Some x \<and> elem j = Some y \<and> x \<le> y)))"
  using assms
proof (induction n arbitrary: i)
  case (Suc n)
  have "elem (i - 1) \<noteq> None" "elem i \<noteq> None" using Suc.prems by simp_all
  then obtain x y where xy: "elem (i - 1) = Some x" "elem i = Some y" by blast
  obtain e where e: "increasing_from elem (i + 1) n = Some (e, ())"
    "e = None \<longrightarrow> (\<forall>j. i + 1 \<le> j \<and> j < i + 1 + int n \<longrightarrow> (\<exists>x y. elem (j - 1) = Some x \<and> elem j = Some y \<and> x \<le> y))"
    using Suc.IH [of "i + 1"] Suc.prems by auto
  show ?case
  proof (cases "y < x")
    case False
    have "\<exists>x y. elem (j - 1) = Some x \<and> elem j = Some y \<and> x \<le> y" if "e = None" "i \<le> j" "j < i + int (Suc n)" for j
    proof (cases "j = i")
      case True
      then show ?thesis using xy False by simp
    next
      case False
      then show ?thesis using e(2) that by simp
    qed
    then show ?thesis using e(1) xy False by simp
  qed (use xy in \<open>simp add: fails_def\<close>)
qed (simp add: passes_def)

lemma check_each:
  assumes "\<forall>j. i \<le> j \<and> j < i + int n \<longrightarrow> (\<exists>e. f j = Some (e, ()))"
  shows "\<exists>e. check_each f i n = Some (e, ()) \<and> (e = None \<longrightarrow> (\<forall>j. i \<le> j \<and> j < i + int n \<longrightarrow> f j = Some (None, ())))"
  using assms
proof (induction n arbitrary: i)
  case (Suc n)
  obtain e0 where e0: "f i = Some (e0, ())" using Suc.prems by auto
  obtain e where e: "check_each f (i + 1) n = Some (e, ())"
    "e = None \<longrightarrow> (\<forall>j. i + 1 \<le> j \<and> j < i + 1 + int n \<longrightarrow> f j = Some (None, ()))"
    using Suc.IH [of "i + 1"] Suc.prems by auto
  show ?case
  proof (cases e0)
    case None
    have "f j = Some (None, ())" if "e = None" "i \<le> j" "j < i + int (Suc n)" for j
      using e(2) that e0 None by (cases "j = i") simp_all
    then show ?thesis using e(1) e0 None by simp
  qed (use e0 in simp)
qed (auto simp: passes_def)

lemma ids_are_indices:
  assumes "i + int n \<le> 128" "n \<le> length ids"
  shows "\<exists>b. ids_are_indices ids i n = Some b \<and> (b \<longrightarrow> (\<forall>j < n. ids ! j = i + int j))"
  using assms
proof (induction n arbitrary: ids i)
  case (Suc n)
  then obtain x rest where ids: "ids = x # rest" by (cases ids) auto
  obtain b where b: "ids_are_indices rest (i + 1) n = Some b" "b \<longrightarrow> (\<forall>j < n. rest ! j = i + 1 + int j)"
    using Suc.IH [of "i + 1" rest] Suc.prems ids by auto
  show ?case
  proof (cases "x = i")
    case True
    have "(x # rest) ! j = i + int j" if "b" "j < Suc n" for j
      using that b(2) True by (cases j) auto
    then show ?thesis using True b(1) Suc.prems ids by simp
  next
    case False
    then have "ids_are_indices ids i (Suc n) = Some False" using Suc.prems(1) ids by simp
    then show ?thesis by blast
  qed
next
  case 0
  show ?case by (rule exI [of _ True]) simp
qed

lemma int8_in: "n \<le> length vals \<Longrightarrow> int8_in x vals n = Some (x \<in> set (take n vals))"
  by (induction x vals n rule: int8_in.induct) auto

lemma to_int8: "- 128 \<le> i \<Longrightarrow> i < 128 \<Longrightarrow> to_int8 i = i"
  by (simp add: to_int8_def signed_of_int signed_take_bit_int_eq_self)

section \<open>Offsets\<close>

lemma kind_offsets: "ly_type (ArrowLayoutInit t) ! 1 = NANOARROW_BUFFER_TYPE_DATA_OFFSET \<longleftrightarrow> t \<in> offset_types"
  "ly_type (ArrowLayoutInit t) ! 0 \<noteq> NANOARROW_BUFFER_TYPE_DATA_OFFSET"
  "ly_type (ArrowLayoutInit t) ! 2 \<noteq> NANOARROW_BUFFER_TYPE_DATA_OFFSET"
  by (cases t; simp add: ArrowLayoutInit_def set_buffer_def set_size_def offset_types_def)+

definition offsets_increase :: "view_data \<Rightarrow> bool" where
  "offsets_increase d \<longleftrightarrow> (v_storage d \<in> offset_types \<longrightarrow>
     (\<forall>i. v_offset d \<le> i \<and> i < v_offset d + v_length d \<longrightarrow>
        (\<exists>x y. offset_at d i = Some x \<and> offset_at d (i + 1) = Some y \<and> x \<le> y)))"

lemma full_offsets_none:
  assumes "shaped d k" "i \<in> {0, 2}" shows "full_offsets d i = Some (None, ())"
  using kind_offsets(2,3) [of "v_storage d"] shapedD(3) [OF assms(1)] assms(2)
  by (auto simp: full_offsets_def buffer_kind_def passes_def)

lemma full_offsets:
  assumes "shaped d k" "sized d" "long_enough d" "known d 1" "0 \<le> v_offset d" "0 \<le> v_length d"
  shows "\<exists>e. full_offsets d 1 = Some (e, ()) \<and> (e = None \<longrightarrow> offsets_increase d)"
proof (cases "v_storage d \<in> offset_types \<and> v_length d \<noteq> 0")
  case False
  then show ?thesis
    using kind_offsets(1) [of "v_storage d"] shapedD(3) [OF assms(1)]
    by (auto simp: full_offsets_def buffer_kind_def passes_def offsets_increase_def)
next
  case True
  then have st: "v_storage d \<in> offset_types" "v_length d \<noteq> 0" by simp_all
  have nz: "v_offset d + v_length d \<noteq> 0" using assms(5,6) st(2) by simp
  have nf: "v_storage d \<noteq> NANOARROW_TYPE_FIXED_SIZE_BINARY" using st by (auto simp: offset_types_def)
  note L = layout_of [OF assms(1) nf, of 1]
  have k: "buffer_kind d 1 = NANOARROW_BUFFER_TYPE_DATA_OFFSET"
    "offset_reader (v_storage d) = (if element_bits d 1 = 32 then as_int32 else as_int64)"
    unfolding L using st layout_offsets(1-4) [of "v_storage d"]
    by (auto simp: offset_types_def offset_reader_def)
  define elem where "elem = (\<lambda>i. offset_at d (v_offset d + i))"
  have eq: "full_offsets d 1 = increasing_from elem 1 (nat (v_length d))"
  proof -
    have s: "as_int32 (slice 4 (bf_data (buffer d 1)) (v_offset d)) i = as_int32 (bf_data (buffer d 1)) (v_offset d + i)"
      "as_int64 (slice 8 (bf_data (buffer d 1)) (v_offset d)) i = as_int64 (bf_data (buffer d 1)) (v_offset d + i)"
      if "0 \<le> i" for i using slice_reads [OF assms(5) that] by simp_all
    have c: "increasing_from f i n = increasing_from g i n" if "\<And>j. 0 \<le> j \<Longrightarrow> f j = g j" "1 \<le> i" for f g i n
      using that(2)
    proof (induction n arbitrary: i)
      case (Suc n)
      then have "increasing_from f (i + 1) n = increasing_from g (i + 1) n" "f i = g i" "f (i - 1) = g (i - 1)"
        using that(1) by simp_all
      then show ?case by (simp only: increasing_from.simps)
    qed simp
    have n: "nat ((v_length d + 1) * 4 div 4) - 1 = nat (v_length d)" "nat ((v_length d + 1) * 8 div 8) - 1 = nat (v_length d)"
      using assms(6) by simp_all
    have g: "\<not> (v_length d + 1) * 4 \<le> 4" "\<not> (v_length d + 1) * 8 \<le> 8" using assms(6) st(2) by simp_all
    show ?thesis
    proof (cases "element_bits d 1 = 32")
      case True
      then have "elem = (\<lambda>i. as_int32 (bf_data (buffer d 1)) (v_offset d + i))"
        by (simp add: elem_def offset_at_def k(2))
      then have "increasing_from (as_int32 (slice 4 (bf_data (buffer d 1)) (v_offset d))) 1 m = increasing_from elem 1 m" for m
        by (intro c) (simp_all add: s del: One_nat_def)
      then show ?thesis using True k(1) st(2) g(1) n(1)
        by (simp add: full_offsets_def ArrowAssertIncreasingInt32_def)
    next
      case False
      then have "elem = (\<lambda>i. as_int64 (bf_data (buffer d 1)) (v_offset d + i))"
        by (simp add: elem_def offset_at_def k(2))
      then have "increasing_from (as_int64 (slice 8 (bf_data (buffer d 1)) (v_offset d))) 1 m = increasing_from elem 1 m" for m
        by (intro c) (simp_all add: s del: One_nat_def)
      then show ?thesis using False k(1) st(2) g(2) n(2)
        by (simp add: full_offsets_def ArrowAssertIncreasingInt64_def)
    qed
  qed
  have "\<forall>j. 1 - 1 \<le> j \<and> j < 1 + int (nat (v_length d)) \<longrightarrow> elem j \<noteq> None"
    using offsets_readable [OF assms st(1) nz] assms(5,6) unfolding elem_def by fastforce
  from increasing_from [OF this] obtain e where e: "full_offsets d 1 = Some (e, ())"
    "e = None \<longrightarrow> (\<forall>j. 1 \<le> j \<and> j < 1 + v_length d \<longrightarrow> (\<exists>x y. elem (j - 1) = Some x \<and> elem j = Some y \<and> x \<le> y))"
    unfolding eq using assms(6) by auto
  have "offsets_increase d" if "e = None"
    unfolding offsets_increase_def
  proof (intro impI allI)
    fix i assume "v_offset d \<le> i \<and> i < v_offset d + v_length d"
    then have j: "1 \<le> i - v_offset d + 1" "i - v_offset d + 1 < 1 + v_length d" by simp_all
    have "v_offset d + (i - v_offset d + 1 - 1) = i" "v_offset d + (i - v_offset d + 1) = i + 1" by simp_all
    with e(2) that j show "\<exists>x y. offset_at d i = Some x \<and> offset_at d (i + 1) = Some y \<and> x \<le> y"
      unfolding elem_def by (metis (no_types, lifting))
  qed
  with e(1) show ?thesis by blast
qed

section \<open>Unions\<close>

definition union_types :: "arrow_type set" where
  "union_types = {NANOARROW_TYPE_DENSE_UNION, NANOARROW_TYPE_SPARSE_UNION}"

text \<open>Every value of a union is in a child, and for a dense one at a place that is not past the child's end.\<close>

definition union_values_placed :: "view_data \<Rightarrow> view_data list \<Rightarrow> bool" where
  "union_values_placed d ds \<longleftrightarrow> (v_storage d \<in> union_types \<longrightarrow>
     (\<forall>i. 0 \<le> i \<and> i < v_length d \<longrightarrow> (\<exists>k j. ArrowArrayViewUnionChildIndex d i = Some k
        \<and> ArrowArrayViewUnionChildOffset d i = Some j \<and> 0 \<le> k \<and> nat k < length ds \<and> 0 \<le> j
        \<and> (if v_storage d = NANOARROW_TYPE_DENSE_UNION then j \<le> v_length (ds ! nat k) else j < v_length (ds ! nat k)))))"

lemma union_layout:
  assumes "shaped d k" "v_storage d \<in> union_types"
  shows "buffer_kind d 0 = NANOARROW_BUFFER_TYPE_TYPE_ID" "element_bits d 0 = 8"
    "v_storage d = NANOARROW_TYPE_DENSE_UNION \<Longrightarrow> buffer_kind d 1 = NANOARROW_BUFFER_TYPE_UNION_OFFSET \<and> element_bits d 1 = 32"
proof -
  have nf: "v_storage d \<noteq> NANOARROW_TYPE_FIXED_SIZE_BINARY" using assms(2) by (auto simp: union_types_def)
  note L = layout_of [OF assms(1) nf]
  show "buffer_kind d 0 = NANOARROW_BUFFER_TYPE_TYPE_ID" "element_bits d 0 = 8"
    "v_storage d = NANOARROW_TYPE_DENSE_UNION \<Longrightarrow> buffer_kind d 1 = NANOARROW_BUFFER_TYPE_UNION_OFFSET \<and> element_bits d 1 = 32"
    using assms(2) layout_offsets(7,8) [of "v_storage d"] unfolding L by (auto simp: union_types_def)
qed

lemma type_ids_readable:
  assumes "shaped d k" "sized d" "long_enough d" "known d 0" "0 \<le> v_offset d" "v_storage d \<in> union_types" "0 \<le> i" "i < v_length d"
  shows "\<exists>t. as_int8 (bf_data (buffer d 0)) (v_offset d + i) = Some t"
proof -
  note U = union_layout [OF assms(1,6)]
  have r: "required d 0 = v_offset d + v_length d" using U(1,2) by (simp add: required_def Let_def)
  then have pos: "0 < required d 0" using assms(5,7,8) by simp
  obtain b where b: "bf_data (buffer d 0) = Some b" "required d 0 \<le> int (length b)"
    by (rule known_buffer [OF assms(2-4) _ pos]) (use U(1) in simp_all)
  have "0 \<le> v_offset d + i" "v_offset d + i + 1 \<le> int (length b)" using assms(5,7,8) b(2) r by simp_all
  with as_int_Some(1) [OF b(1)] show ?thesis by blast
qed

text \<open>The type ids are checked one way or another, so that the map leads to a child.\<close>

lemma full_type_ids:
  assumes "shaped d (length cs)" "sized d" "long_enough d" "known d 0" "0 \<le> v_offset d" "0 \<le> v_length d"
  shows "\<exists>e. full_type_ids d cs = Some (e, ()) \<and> (e = None \<longrightarrow> v_storage d \<in> union_types \<longrightarrow>
    (\<forall>i. 0 \<le> i \<and> i < v_length d \<longrightarrow> (\<exists>k. ArrowArrayViewUnionChildIndex d i = Some k \<and> 0 \<le> k \<and> nat k < length cs)))"
proof (cases "v_storage d \<in> union_types")
  case False
  then show ?thesis by (auto simp: full_type_ids_def union_types_def passes_def)
next
  case True
  then have u: "v_storage d \<in> {NANOARROW_TYPE_DENSE_UNION, NANOARROW_TYPE_SPARSE_UNION}" by (simp add: union_types_def)
  obtain m where m: "v_type_id_map d = Some m" "map_ok m (length cs)" using shapedD(6) [OF assms(1) u] by blast
  have M: "length m = 256" "length cs < 128"
    "\<And>j. j < length cs \<Longrightarrow> 0 \<le> m ! (128 + j) \<and> m ! (128 + j) < 128 \<and> 0 \<le> m ! nat (m ! (128 + j)) \<and> m ! nat (m ! (128 + j)) < int (length cs)"
    using m(2) by (simp_all add: map_ok_def)
  define ids where "ids = (\<lambda>i. as_int8 (if v_length d > 0 then slice 1 (bf_data (buffer d 0)) (v_offset d) else None) i)"
  have ids: "\<exists>t. ids i = Some t \<and> ArrowArrayViewUnionTypeId d i = Some t" if "0 \<le> i" "i < 0 + int (nat (v_length d))" for i
  proof -
    have "i < v_length d" using that assms(6) by simp
    then show ?thesis
      using type_ids_readable [OF assms(1-5) True that(1)] slice_reads(1) [OF assms(5) that(1)] that(1) u
      by (auto simp: ids_def ArrowArrayViewUnionTypeId_def)
  qed
  have index: "ArrowArrayViewUnionChildIndex d i = Some (m ! nat t)"
    if "ArrowArrayViewUnionTypeId d i = Some t" "0 \<le> t" "t < 128" for i t
    using that m(1) M(1) by (simp add: ArrowArrayViewUnionChildIndex_def)
  obtain eq where eq: "ArrowParsedUnionTypeIdsWillEqualChildIndices m (length cs) (length cs) = Some eq"
    "eq \<Longrightarrow> \<forall>j < length cs. m ! j = int j"
    using ids_are_indices [of 0 "length cs" m] M(1,2) by (auto simp: ArrowParsedUnionTypeIdsWillEqualChildIndices_def)
  show ?thesis
  proof (cases eq)
    case True
    define f where "f = (\<lambda>i. do {
       x \<leftarrow> ids i;
       if x < 0 \<or> x > int (length cs) - 1
       then fails (''['' @ int_to_string i @ ''] Expected buffer value between '' @ int_to_string 0 @ '' and '' @
              int_to_string (int (length cs) - 1) @ '' but found value '' @ int_to_string x) ()
       else passes ()
     })"
    have "full_type_ids d cs = check_each f 0 (nat (v_length d))"
      using u m(1) eq(1) True M(2) to_int8 [of "int (length cs) - 1"]
      by (simp add: full_type_ids_def ArrowAssertRangeInt8_def f_def ids_def)
    moreover have "\<forall>j. 0 \<le> j \<and> j < 0 + int (nat (v_length d)) \<longrightarrow> (\<exists>e. f j = Some (e, ()))"
      using ids by (fastforce simp: f_def fails_def passes_def)
    ultimately obtain e where e: "full_type_ids d cs = Some (e, ())"
      "e = None \<longrightarrow> (\<forall>j. 0 \<le> j \<and> j < 0 + int (nat (v_length d)) \<longrightarrow> f j = Some (None, ()))"
      using check_each [of 0 "nat (v_length d)" f] by auto
    have "\<exists>k. ArrowArrayViewUnionChildIndex d i = Some k \<and> 0 \<le> k \<and> nat k < length cs"
      if ok: "e = None" and i: "0 \<le> i" "i < v_length d" for i
    proof -
      obtain t where t: "ids i = Some t" "ArrowArrayViewUnionTypeId d i = Some t" using ids [OF i(1)] i(2) assms(6) by auto
      have "f i = Some (None, ())" using e(2) ok i by simp
      then have r: "0 \<le> t" "t < int (length cs)" using t(1) by (auto simp: f_def fails_def split: if_splits)
      then have "m ! nat t = t" using eq(2) [OF True] by simp
      then show ?thesis using index [OF t(2)] r M(2) by simp
    qed
    then show ?thesis using e(1) by blast
  next
    case False
    define f where "f = (\<lambda>i. do {
       x \<leftarrow> ids i;
       item_found \<leftarrow> int8_in x (drop 128 m) (length cs);
       if \<not> item_found
       then fails (''['' @ int_to_string i @ ''] Unexpected buffer value '' @ int_to_string x) ()
       else passes ()
     })"
    have "full_type_ids d cs = check_each f 0 (nat (v_length d))"
      using u m(1) eq(1) False by (simp add: full_type_ids_def ArrowAssertInt8In_def f_def ids_def)
    moreover have I: "int8_in x (drop 128 m) (length cs) = Some (x \<in> set (take (length cs) (drop 128 m)))" for x
      by (rule int8_in) (use M in simp)
    then have "\<forall>j. 0 \<le> j \<and> j < 0 + int (nat (v_length d)) \<longrightarrow> (\<exists>e. f j = Some (e, ()))"
      using ids by (fastforce simp: f_def fails_def passes_def)
    ultimately obtain e where e: "full_type_ids d cs = Some (e, ())"
      "e = None \<longrightarrow> (\<forall>j. 0 \<le> j \<and> j < 0 + int (nat (v_length d)) \<longrightarrow> f j = Some (None, ()))"
      using check_each [of 0 "nat (v_length d)" f] by auto
    have "\<exists>k. ArrowArrayViewUnionChildIndex d i = Some k \<and> 0 \<le> k \<and> nat k < length cs"
      if ok: "e = None" and i: "0 \<le> i" "i < v_length d" for i
    proof -
      obtain t where t: "ids i = Some t" "ArrowArrayViewUnionTypeId d i = Some t" using ids [OF i(1)] i(2) assms(6) by auto
      have "f i = Some (None, ())" using e(2) ok i by simp
      then have "t \<in> set (take (length cs) (drop 128 m))" using t(1) I by (auto simp: f_def fails_def split: if_splits)
      then obtain j where "j < length cs" "t = m ! (128 + j)" using M(1,2) by (auto simp: in_set_conv_nth)
      then show ?thesis using index [OF t(2)] M(3) [of j] by auto
    qed
    then show ?thesis using e(1) by blast
  qed
qed

lemma union_offsets_readable:
  assumes "shaped d k" "sized d" "long_enough d" "known d 1" "0 \<le> v_offset d" "v_storage d \<in> union_types" "0 \<le> i" "i < v_length d"
  shows "\<exists>j. ArrowArrayViewUnionChildOffset d i = Some j"
proof (cases "v_storage d = NANOARROW_TYPE_DENSE_UNION")
  case True
  note U = union_layout(3) [OF assms(1,6) True]
  have r: "required d 1 = 4 * (v_offset d + v_length d)" using U by (simp add: required_def Let_def)
  then have pos: "0 < required d 1" using assms(5,7,8) by simp
  obtain b where b: "bf_data (buffer d 1) = Some b" "required d 1 \<le> int (length b)"
    by (rule known_buffer [OF assms(2-4) _ pos]) (use U in simp_all)
  have "0 \<le> v_offset d + i" "4 * (v_offset d + i + 1) \<le> int (length b)" using assms(5,7,8) b(2) r by simp_all
  with as_int_Some(5) [OF b(1)] True show ?thesis by (simp add: ArrowArrayViewUnionChildOffset_def)
qed (simp add: ArrowArrayViewUnionChildOffset_def)

lemma full_union_offsets:
  assumes "shaped d (length cs)" "sized d" "long_enough d" "known d 1" "0 \<le> v_offset d" "0 \<le> v_length d"
    "v_storage d \<in> union_types \<longrightarrow>
      (\<forall>i. 0 \<le> i \<and> i < v_length d \<longrightarrow> (\<exists>k. ArrowArrayViewUnionChildIndex d i = Some k \<and> 0 \<le> k \<and> nat k < length cs))"
    "children_fit d (map av_data cs)"
  shows "\<exists>e. full_union_offsets d cs = Some (e, ()) \<and> (e = None \<longrightarrow> union_values_placed d (map av_data cs))"
proof (cases "v_storage d = NANOARROW_TYPE_DENSE_UNION")
  case False
  have "union_values_placed d (map av_data cs)"
    unfolding union_values_placed_def
  proof (intro impI allI)
    fix i assume u: "v_storage d \<in> union_types" and i: "0 \<le> i \<and> i < v_length d"
    with False have sp: "v_storage d = NANOARROW_TYPE_SPARSE_UNION" by (auto simp: union_types_def)
    obtain k where k: "ArrowArrayViewUnionChildIndex d i = Some k" "0 \<le> k" "nat k < length cs" using assms(7) u i by blast
    have "v_offset d + v_length d \<le> v_length (av_data (cs ! nat k))"
      using assms(8) sp k(3) by (auto simp: children_fit_def Let_def list_types_def)
    then show "\<exists>k j. ArrowArrayViewUnionChildIndex d i = Some k \<and> ArrowArrayViewUnionChildOffset d i = Some j
        \<and> 0 \<le> k \<and> nat k < length (map av_data cs) \<and> 0 \<le> j
        \<and> (if v_storage d = NANOARROW_TYPE_DENSE_UNION then j \<le> v_length (map av_data cs ! nat k)
           else j < v_length (map av_data cs ! nat k))"
      using k i sp assms(5) by (simp add: ArrowArrayViewUnionChildOffset_def)
  qed
  then show ?thesis using False by (simp add: full_union_offsets_def passes_def)
next
  case True
  then have u: "v_storage d \<in> union_types" by (simp add: union_types_def)
  then obtain m where m: "v_type_id_map d = Some m" using shapedD(6) [OF assms(1)] by (auto simp: union_types_def)
  define f where "f = (\<lambda>i. do {
             child_id \<leftarrow> ArrowArrayViewUnionChildIndex d i;
             offset \<leftarrow> ArrowArrayViewUnionChildOffset d i;
             child \<leftarrow> (if 0 \<le> child_id \<and> nat child_id < length cs then Some (av_data (cs ! nat child_id)) else None);
             if offset < 0 \<or> offset > v_length child
             then fails (''['' @ int_to_string i @ ''] Expected union offset for child id '' @ int_to_string child_id @
                    '' to be between 0 and '' @ int_to_string (v_length child) @ '' but found offset value '' @
                    int_to_string offset) ()
             else passes ()
           })"
  have eq: "full_union_offsets d cs = check_each f 0 (nat (v_length d))"
    using True m by (simp add: full_union_offsets_def f_def)
  have val: "\<exists>k j. ArrowArrayViewUnionChildIndex d i = Some k \<and> ArrowArrayViewUnionChildOffset d i = Some j \<and> 0 \<le> k \<and> nat k < length cs"
    if "0 \<le> i" "i < v_length d" for i
    using assms(7) u that union_offsets_readable [OF assms(1-5) u that] by blast
  have "\<exists>e. f j = Some (e, ())" if "0 \<le> j" "j < v_length d" for j
    using val [OF that] by (auto simp: f_def fails_def passes_def)
  then have "\<forall>j. 0 \<le> j \<and> j < 0 + int (nat (v_length d)) \<longrightarrow> (\<exists>e. f j = Some (e, ()))" by simp
  from check_each [OF this] obtain e where e: "check_each f 0 (nat (v_length d)) = Some (e, ())"
    "e = None \<longrightarrow> (\<forall>j. 0 \<le> j \<and> j < 0 + int (nat (v_length d)) \<longrightarrow> f j = Some (None, ()))" by blast
  have "union_values_placed d (map av_data cs)" if "e = None"
    unfolding union_values_placed_def
  proof (intro impI allI)
    fix i assume i: "0 \<le> i \<and> i < v_length d"
    obtain k j where kj: "ArrowArrayViewUnionChildIndex d i = Some k" "ArrowArrayViewUnionChildOffset d i = Some j"
      "0 \<le> k" "nat k < length cs" using val i by blast
    have "f i = Some (None, ())" using e(2) that i by simp
    then have "0 \<le> j" "j \<le> v_length (av_data (cs ! nat k))" using kj by (auto simp: f_def fails_def split: if_splits)
    then show "\<exists>k j. ArrowArrayViewUnionChildIndex d i = Some k \<and> ArrowArrayViewUnionChildOffset d i = Some j
        \<and> 0 \<le> k \<and> nat k < length (map av_data cs) \<and> 0 \<le> j
        \<and> (if v_storage d = NANOARROW_TYPE_DENSE_UNION then j \<le> v_length (map av_data cs ! nat k)
           else j < v_length (map av_data cs ! nat k))"
      using kj True by simp
  qed
  then show ?thesis using e(1) eq by auto
qed

section \<open>Runs and list views\<close>

lemma run_ends_increase:
  assumes "\<forall>j. i \<le> j \<and> j < i + int n \<longrightarrow> ArrowArrayViewGetIntUnsafe re j \<noteq> None"
  shows "\<exists>e. run_ends_increase re r0 i n = Some (e, ())"
  using assms
proof (induction n arbitrary: i r0)
  case (Suc n)
  then obtain r where "ArrowArrayViewGetIntUnsafe re i = Some r" by fastforce
  moreover have "\<exists>e. run_ends_increase re r (i + 1) n = Some (e, ())" by (rule Suc.IH) (use Suc.prems in auto)
  ultimately show ?case by (simp add: fails_def)
qed (simp add: passes_def)

lemma full_run_ends:
  assumes "list_all conforming cs" "list_all minimally_valid cs" "children_fit d (map av_data cs)"
  shows "\<exists>e. full_run_ends d cs = Some (e, ())"
proof (cases "v_storage d = NANOARROW_TYPE_RUN_END_ENCODED")
  case True
  then have "length cs = 2" "v_storage (av_data (hd cs)) \<in> run_end_types"
    using assms(3) by (cases cs; auto simp: children_fit_def Let_def)+
  then obtain re ve where cs: "cs = [re, ve]" "v_storage (av_data re) \<in> run_end_types"
    by (auto simp: length_Suc_conv numeral_2_eq_2)
  have R: "\<exists>n. ArrowArrayViewGetIntUnsafe (av_data re) i = Some n" if "0 \<le> i" "i < v_length (av_data re)" for i
    using run_ends_readable [of re i] assms(1,2) cs that by simp
  show ?thesis
  proof (cases "v_length (av_data re) > 0")
    case pos: True
    then obtain a where "ArrowArrayViewGetIntUnsafe (av_data re) 0 = Some a" using R [of 0] by auto
    moreover have "\<exists>e. run_ends_increase (av_data re) a 1 (nat (v_length (av_data re)) - 1) = Some (e, ())"
      by (rule run_ends_increase) (use R pos in fastforce)
    ultimately show ?thesis using True cs pos by (simp add: full_run_ends_def)
  qed (use True cs in \<open>simp add: full_run_ends_def passes_def\<close>)
qed (simp add: full_run_ends_def passes_def)

definition view_types :: "arrow_type set" where
  "view_types = {NANOARROW_TYPE_LIST_VIEW, NANOARROW_TYPE_LARGE_LIST_VIEW}"

definition size_at :: "view_data \<Rightarrow> int \<Rightarrow> int option" where
  "size_at d i = offset_reader (v_storage d) (bf_data (buffer d 2)) i"

definition list_views_placed :: "view_data \<Rightarrow> view_data list \<Rightarrow> bool" where
  "list_views_placed d ds \<longleftrightarrow> (v_storage d \<in> view_types \<longrightarrow>
     (\<forall>i. v_offset d \<le> i \<and> i < v_offset d + v_length d \<longrightarrow>
        (\<exists>a b. offset_at d i = Some a \<and> size_at d i = Some b \<and> 0 \<le> a \<and> 0 \<le> b \<and> a + b \<le> v_length (hd ds))))"

lemma list_view_values:
  assumes "shaped d k" "sized d" "long_enough d" "known d 1" "0 \<le> v_offset d" "v_storage d \<in> view_types"
    "v_offset d \<le> i" "i < v_offset d + v_length d"
  shows "\<exists>a b. offset_at d i = Some a \<and> size_at d i = Some b \<and> (0 \<le> a \<longrightarrow> 0 \<le> b \<longrightarrow> a + b < 2 ^ 63)"
proof -
  obtain n where n: "v_offset d + v_length d = n" "0 < n" using assms(5,7,8) by simp
  have nf: "v_storage d \<noteq> NANOARROW_TYPE_FIXED_SIZE_BINARY" using assms(6) by (auto simp: view_types_def)
  note L = layout_of [OF assms(1) nf]
  define w :: nat where "w = (if v_storage d = NANOARROW_TYPE_LIST_VIEW then 4 else 8)"
  have k: "buffer_kind d 1 = NANOARROW_BUFFER_TYPE_VIEW_OFFSET" "element_bits d 1 = 8 * int w"
    "buffer_kind d 2 = NANOARROW_BUFFER_TYPE_SIZE" "element_bits d 2 = 8 * int w"
    unfolding L using assms(6) layout_offsets(5,6) [of "v_storage d"] by (auto simp: view_types_def w_def)
  have r: "required d 1 = int w * n" "required d 2 = int w * n" using k by (simp_all add: required_def n(1) Let_def)
  then have pos: "0 < required d 1" using n(2) by (simp add: w_def)
  obtain b1 where b1: "bf_data (buffer d 1) = Some b1" "required d 1 \<le> int (length b1)"
    by (rule known_buffer [OF assms(2-4) _ pos]) (use k(1) in simp_all)
  have "bf_data (buffer d 2) \<noteq> None" using assms(3,6) by (auto simp: long_enough_def view_types_def)
  then obtain b2 where b2: "bf_data (buffer d 2) = Some b2" "required d 2 \<le> int (length b2)"
    using long_enoughD [OF assms(3), of 2] by auto
  have i0: "0 \<le> i" using assms(5,7) by simp
  have "int w * (i + 1) \<le> int w * n" by (rule mult_left_mono) (use assms(8) n in auto)
  then have le: "int w * (i + 1) \<le> int (length b1)" "int w * (i + 1) \<le> int (length b2)" using b1(2) b2(2) r by simp_all
  show ?thesis
  proof (cases "v_storage d = NANOARROW_TYPE_LIST_VIEW")
    case True
    then obtain a b where ab: "as_int32 (bf_data (buffer d 1)) i = Some a" "as_int32 (bf_data (buffer d 2)) i = Some b"
      using as_int_Some(5) [OF b1(1) i0] as_int_Some(5) [OF b2(1) i0] le by (auto simp: w_def)
    have "x < 2 ^ 31" if "as_int32 c j = Some x" for c j x
      using that sint_less [of "of_le_bytes _ :: 32 word"] by (auto simp: as_int32_def)
    from this [OF ab(1)] this [OF ab(2)] show ?thesis using ab True by (simp add: offset_at_def size_at_def offset_reader_def)
  next
    case False
    then have t: "v_storage d = NANOARROW_TYPE_LARGE_LIST_VIEW" using assms(6) by (simp add: view_types_def)
    then obtain a b where ab: "as_int64 (bf_data (buffer d 1)) i = Some a" "as_int64 (bf_data (buffer d 2)) i = Some b"
      using as_int_Some(7) [OF b1(1) i0] as_int_Some(7) [OF b2(1) i0] le by (auto simp: w_def)
    have "i \<in> set [v_offset d..v_offset d + v_length d - 1]" using assms(7,8) by simp
    then have "a + b < 2 ^ 63" using assms(3) t ab unfolding long_enough_def list_all_iff by fastforce
    then show ?thesis using ab t by (simp add: offset_at_def size_at_def offset_reader_def)
  qed
qed

lemma full_list_views:
  assumes "shaped d k" "sized d" "long_enough d" "known d 1" "0 \<le> v_offset d" "0 \<le> v_length d"
    "children_fit d (map av_data cs)"
  shows "\<exists>e. full_list_views d cs = Some (e, ()) \<and> (e = None \<longrightarrow> list_views_placed d (map av_data cs))"
proof (cases "v_storage d \<in> view_types")
  case False
  then show ?thesis by (auto simp: full_list_views_def list_views_placed_def view_types_def passes_def)
next
  case True
  then have "length cs = 1" using assms(7) by (auto simp: children_fit_def Let_def view_types_def list_types_def)
  then obtain c where cs: "cs = [c]" by (auto simp: length_Suc_conv)
  define f where "f = (\<lambda>i. do {
          offset \<leftarrow> offset_at d i;
          size \<leftarrow> size_at d i;
          if offset < 0
          then fails (''Invalid negative offset '' @ int_to_string offset @ '' at index '' @ int_to_string i) ()
          else if size < 0
          then fails (''Invalid negative size '' @ int_to_string size @ '' at index '' @ int_to_string i) ()
          else do {
            end_offset \<leftarrow> int64 (offset + size);
            if end_offset > v_length (av_data c)
            then fails (''Offset: '' @ int_to_string offset @ '' + size: '' @ int_to_string size @ '' at index: '' @
                   int_to_string i @ '' exceeds length of child view: '' @ int_to_string (v_length (av_data c))) ()
            else passes ()
          }
        })"
  have r: "offset_reader (v_storage d) = (if v_storage d = NANOARROW_TYPE_LIST_VIEW then as_int32 else as_int64)"
    using True by (auto simp: offset_reader_def view_types_def)
  have eq: "full_list_views d cs = check_each f (v_offset d) (nat (v_length d))"
    using True cs by (simp add: full_list_views_def f_def view_types_def offset_at_def size_at_def r)
  note V = list_view_values [OF assms(1-5) True]
  have vals: "\<exists>e. f j = Some (e, ()) \<and> (e = None \<longrightarrow> (\<exists>a b. offset_at d j = Some a \<and> size_at d j = Some b \<and> 0 \<le> a \<and> 0 \<le> b
      \<and> a + b \<le> v_length (av_data c)))"
    if "v_offset d \<le> j" "j < v_offset d + v_length d" for j
    using V [OF that] by (auto simp: f_def fails_def passes_def int64_def)
  then have "\<forall>j. v_offset d \<le> j \<and> j < v_offset d + int (nat (v_length d)) \<longrightarrow> (\<exists>e. f j = Some (e, ()))"
    using assms(6) by fastforce
  from check_each [OF this] obtain e where e: "check_each f (v_offset d) (nat (v_length d)) = Some (e, ())"
    "e = None \<longrightarrow> (\<forall>j. v_offset d \<le> j \<and> j < v_offset d + int (nat (v_length d)) \<longrightarrow> f j = Some (None, ()))" by blast
  have "list_views_placed d (map av_data cs)" if "e = None"
    unfolding list_views_placed_def
  proof (intro impI allI)
    fix i assume i: "v_offset d \<le> i \<and> i < v_offset d + v_length d"
    then have "f i = Some (None, ())" using e(2) that assms(6) by simp
    with vals [of i] i cs show "\<exists>a b. offset_at d i = Some a \<and> size_at d i = Some b \<and> 0 \<le> a \<and> 0 \<le> b
        \<and> a + b \<le> v_length (hd (map av_data cs))" by auto
  qed
  then show ?thesis using e(1) eq by auto
qed

section \<open>A view that passed full validation\<close>

definition full_facts :: "view_data \<Rightarrow> view_data list \<Rightarrow> bool" where
  "full_facts d ds \<longleftrightarrow> offsets_increase d \<and> union_values_placed d ds \<and> list_views_placed d ds"

lemma full_node:
  assumes "shaped d (length cs)" "sized d" "long_enough d" "minimal_facts d (map av_data cs)"
    "list_all conforming cs" "list_all minimally_valid cs"
  shows "\<exists>e. full_node d cs = Some (e, ()) \<and> (e = None \<longrightarrow> full_facts d (map av_data cs))"
proof -
  have M: "0 \<le> v_offset d" "0 \<le> v_length d" "known d 0" "known d 1" "children_fit d (map av_data cs)"
    using assms(4) by (simp_all add: minimal_facts_def)
  note n = full_offsets_none [OF assms(1)]
  obtain e1 where e1: "full_offsets d 1 = Some (e1, ())" "e1 = None \<longrightarrow> offsets_increase d"
    using full_offsets [OF assms(1-3) M(4,1,2)] by blast
  obtain e2 where e2: "full_type_ids d cs = Some (e2, ())" "e2 = None \<longrightarrow> v_storage d \<in> union_types \<longrightarrow>
    (\<forall>i. 0 \<le> i \<and> i < v_length d \<longrightarrow> (\<exists>k. ArrowArrayViewUnionChildIndex d i = Some k \<and> 0 \<le> k \<and> nat k < length cs))"
    using full_type_ids [OF assms(1-3) M(3,1,2)] by blast
  obtain e4 where e4: "full_run_ends d cs = Some (e4, ())" using full_run_ends [OF assms(5,6) M(5)] by blast
  obtain e5 where e5: "full_list_views d cs = Some (e5, ())" "e5 = None \<longrightarrow> list_views_placed d (map av_data cs)"
    using full_list_views [OF assms(1-3) M(4,1,2,5)] by blast
  consider (a) "e1 \<noteq> None" | (b) "e1 = None" "e2 \<noteq> None" | (c) "e1 = None" "e2 = None" by blast
  then show ?thesis
  proof cases
    case c
    obtain e3 where e3: "full_union_offsets d cs = Some (e3, ())" "e3 = None \<longrightarrow> union_values_placed d (map av_data cs)"
      using full_union_offsets [OF assms(1-3) M(4,1,2) _ M(5)] e2(2) c(2) by blast
    show ?thesis
      using n e1 e2 e3 e4 e5 c by (cases e3; cases e4) (auto simp: full_node_def full_facts_def)
  qed (use n e1 e2 in \<open>auto simp: full_node_def\<close>)
qed

lemma default_minimally_valid: "default_valid v \<Longrightarrow> minimally_valid v"
proof (induction v rule: default_valid.induct)
  case (1 d cs dictionary)
  then show ?case by (cases dictionary) (auto simp: list_all_iff)
qed

section \<open>Reading every value\<close>

text \<open>What a pointer and a size claim is memory that is there.\<close>

definition in_memory :: "buffer_view \<Rightarrow> bool" where
  "in_memory b = (case bf_data b of None \<Rightarrow> bf_size b = 0 | Some d \<Rightarrow> 0 \<le> bf_size b \<and> bf_size b \<le> int (length d))"

definition decimal_bits :: "arrow_type \<Rightarrow> nat" where
  "decimal_bits t = (if t = NANOARROW_TYPE_DECIMAL32 then 32 else if t = NANOARROW_TYPE_DECIMAL64 then 64
     else if t = NANOARROW_TYPE_DECIMAL128 then 128 else 256)"

text \<open>The value itself, of the kind of the type.\<close>

definition value_readable :: "view_data \<Rightarrow> int \<Rightarrow> bool" where
  "value_readable d i \<longleftrightarrow>
     ArrowArrayViewIsNull d i \<noteq> None
     \<and> (v_storage d \<notin> float_types \<longrightarrow> ArrowArrayViewGetIntUnsafe d i \<noteq> None)
     \<and> (v_storage d \<notin> set binary_view_types \<longrightarrow>
          (case ArrowArrayViewGetBytesUnsafe d i of None \<Rightarrow> False | Some b \<Rightarrow> in_memory b))
     \<and> ArrowArrayViewGetIntervalUnsafe d i (ArrowIntervalInit (v_storage d)) \<noteq> None
     \<and> ArrowArrayViewGetDecimalUnsafe d i (ArrowDecimalInit (decimal_bits (v_storage d)) 0 0) \<noteq> None"

text \<open>The elements of children it refers to; \<open>ds\<close> are the children's data.\<close>

definition children_readable :: "view_data \<Rightarrow> view_data list \<Rightarrow> int \<Rightarrow> bool" where
  "children_readable d ds i \<longleftrightarrow> (let j = v_offset d + i in
     (v_storage d \<in> offset_types \<inter> list_types \<longrightarrow>
        (case (ArrowArrayViewListChildOffset d j, ArrowArrayViewListChildOffset d (j + 1)) of
           (Some a, Some b) \<Rightarrow> 0 \<le> a \<and> a \<le> b \<and> b \<le> v_length (hd ds) | _ \<Rightarrow> False))
     \<and> (v_storage d \<in> view_types \<longrightarrow>
        (case (ArrowArrayViewListChildOffset d j, size_at d j) of
           (Some a, Some n) \<Rightarrow> 0 \<le> a \<and> 0 \<le> n \<and> a + n \<le> v_length (hd ds) | _ \<Rightarrow> False))
     \<and> (v_storage d = NANOARROW_TYPE_STRUCT \<longrightarrow> (\<forall>c \<in> set ds. j < v_length c))
     \<and> (v_storage d = NANOARROW_TYPE_FIXED_SIZE_LIST \<and> 0 \<le> ly_child (v_layout d) \<longrightarrow>
          (j + 1) * ly_child (v_layout d) \<le> v_length (hd ds))
     \<and> (v_storage d \<in> union_types \<longrightarrow>
        (case (ArrowArrayViewUnionChildIndex d i, ArrowArrayViewUnionChildOffset d i) of
           (Some k, Some m) \<Rightarrow> 0 \<le> k \<and> nat k < length ds \<and> 0 \<le> m
             \<and> (if v_storage d = NANOARROW_TYPE_DENSE_UNION then m \<le> v_length (ds ! nat k)
                else m < v_length (ds ! nat k)) | _ \<Rightarrow> False))
     \<and> (v_storage d = NANOARROW_TYPE_RUN_END_ENCODED \<and> 0 < v_length (hd ds) \<longrightarrow>
          list_ex (\<lambda>k. case ArrowArrayViewGetIntUnsafe (hd ds) k of None \<Rightarrow> False | Some r \<Rightarrow> j < r)
            [0..v_length (hd ds) - 1]))"

fun readable :: "array_view \<Rightarrow> bool" where
  "readable (View d cs dictionary) \<longleftrightarrow> ArrowArrayViewComputeNullCount d \<noteq> None
     \<and> list_all (\<lambda>i. value_readable d i \<and> children_readable d (map av_data cs) i) [0..v_length d - 1]
     \<and> list_all readable cs \<and> (case dictionary of None \<Rightarrow> True | Some v \<Rightarrow> readable v)"

lemma validity_long:
  assumes "shaped d k" "long_enough d" "v_storage d \<notin> union_types" "v_storage d \<noteq> NANOARROW_TYPE_NA"
    "bf_data (buffer d 0) = Some b"
  shows "(v_offset d + v_length d + 7) div 8 \<le> int (length b)"
proof -
  have nu: "ly_type (ArrowLayoutInit t) ! 0 = NANOARROW_BUFFER_TYPE_TYPE_ID \<longleftrightarrow> t \<in> union_types" for t
    by (cases t; simp add: ArrowLayoutInit_def set_buffer_def set_size_def union_types_def)
  then have "buffer_kind d 0 \<noteq> NANOARROW_BUFFER_TYPE_TYPE_ID"
    using shapedD(3) [OF assms(1)] assms(3) by (simp add: buffer_kind_def)
  moreover have "buffer_kind d 0 \<noteq> NANOARROW_BUFFER_TYPE_NONE" using shapedD(7) [OF assms(1), of 0] assms(5) by auto
  ultimately have "buffer_kind d 0 = NANOARROW_BUFFER_TYPE_VALIDITY" using layout_shapes(1) [OF assms(1)] by blast
  then have "required d 0 = (v_offset d + v_length d + 7) div 8" by (simp add: required_def Let_def)
  then show ?thesis using long_enoughD [OF assms(2) _ assms(5)] by simp
qed

lemma is_null_readable:
  assumes "shaped d k" "long_enough d" "0 \<le> v_offset d" "0 \<le> i" "i < v_length d"
  shows "ArrowArrayViewIsNull d i \<noteq> None"
proof (cases "v_storage d \<in> insert NANOARROW_TYPE_NA union_types \<or> bf_data (buffer d 0) = None")
  case True
  then show ?thesis by (auto simp: ArrowArrayViewIsNull_def union_types_def)
next
  case False
  then obtain b where b: "bf_data (buffer d 0) = Some b" by auto
  have "(i + v_offset d + 8) div 8 \<le> (v_offset d + v_length d + 7) div 8" by (rule zdiv_mono1) (use assms(5) in auto)
  also have "... \<le> int (length b)" by (rule validity_long [OF assms(1,2) _ _ b]) (use False in auto)
  finally have "bit_at (bf_data (buffer d 0)) (i + v_offset d) \<noteq> None"
    using bit_at_Some [OF b] assms(3,4) by simp
  then show ?thesis by (auto simp: ArrowArrayViewIsNull_def Let_def)
qed

lemma null_count_readable:
  assumes "shaped d k" "long_enough d" "0 \<le> v_offset d" "0 \<le> v_length d"
  shows "ArrowArrayViewComputeNullCount d \<noteq> None"
proof (cases "v_storage d \<in> insert NANOARROW_TYPE_NA union_types \<or> bf_data (buffer d 0) = None")
  case True
  then show ?thesis by (auto simp: ArrowArrayViewComputeNullCount_def union_types_def)
next
  case False
  then obtain b where b: "bf_data (buffer d 0) = Some b" by auto
  obtain n where n: "v_offset d + v_length d = n" by simp
  have "(n + 7) div 8 \<le> int (length b)" using validity_long [OF assms(1,2) _ _ b] False n by auto
  then have "n \<le> 8 * int (length b)" by linarith
  then have "nat (v_offset d) + nat (v_length d) \<le> 8 * length b" using n assms(3,4) by linarith
  from bit_count_set [OF this] b show ?thesis by (simp add: ArrowArrayViewComputeNullCount_def)
qed

lemma increasing_chain:
  assumes "\<forall>i. (l :: int) \<le> i \<and> i < u \<longrightarrow> (\<exists>x y. f i = Some x \<and> f (i + 1) = Some y \<and> (x :: int) \<le> y)"
    "l \<le> i" "i \<le> j" "j \<le> u" "f i = Some x" "f j = Some y"
  shows "x \<le> y"
  using assms(3,4,6)
proof (induction j arbitrary: y rule: int_ge_induct)
  case base
  then show ?case using assms(5) by simp
next
  case (step j)
  have "l \<le> j" "j < u" using assms(2) step.hyps step.prems(1) by simp_all
  with assms(1) obtain z z' where z: "f j = Some z" "f (j + 1) = Some z'" "z \<le> z'" by blast
  have "x \<le> z" using step.IH [of z] step.prems(1) z(1) by simp
  with z(2,3) step.prems(2) show ?case by simp
qed

text \<open>Offsets that increase from a first that is not negative to a last that is within stay between both.\<close>

lemma offsets_between:
  assumes "offsets_increase d" "default_facts d ds" "v_storage d \<in> offset_types" "0 \<le> v_offset d" "0 \<le> i" "i < v_length d"
  obtains a b l where "offset_at d (v_offset d + i) = Some a" "offset_at d (v_offset d + i + 1) = Some b"
    "0 \<le> a" "a \<le> b" "b \<le> l" "last_within d ds l"
proof -
  have nz: "v_offset d + v_length d \<noteq> 0" using assms(4-6) by simp
  obtain f l where fl: "offset_at d (v_offset d) = Some f" "offset_at d (v_offset d + v_length d) = Some l"
    "0 \<le> f" "last_within d ds l" using assms(2,3) nz unfolding default_facts_def by blast
  have inc: "\<forall>i. v_offset d \<le> i \<and> i < v_offset d + v_length d \<longrightarrow>
      (\<exists>x y. offset_at d i = Some x \<and> offset_at d (i + 1) = Some y \<and> x \<le> y)"
    using assms(1,3) by (simp add: offsets_increase_def)
  from this [rule_format, of "v_offset d + i"] obtain a b where
    ab: "offset_at d (v_offset d + i) = Some a" "offset_at d (v_offset d + i + 1) = Some b" "a \<le> b"
    using assms(5,6) by auto
  have "f \<le> a" by (rule increasing_chain [OF inc _ _ _ fl(1) ab(1)]) (use assms(5,6) in simp_all)
  moreover have "b \<le> l" by (rule increasing_chain [OF inc _ _ _ ab(2) fl(2)]) (use assms(5,6) in simp_all)
  ultimately show thesis using that ab fl(3,4) by simp
qed

lemma bytes_readable:
  assumes "shaped d k" "sized d" "long_enough d" "known d 1" "0 \<le> v_offset d" "0 \<le> i" "i < v_length d"
    "offsets_increase d" "default_facts d ds" "v_storage d \<notin> set binary_view_types"
  shows "\<exists>b. ArrowArrayViewGetBytesUnsafe d i = Some b \<and> in_memory b"
proof -
  have ai: "i + v_offset d = v_offset d + i" by simp
  consider (str) "v_storage d \<in> offset_types - list_types" | (fsb) "v_storage d = NANOARROW_TYPE_FIXED_SIZE_BINARY"
    | (other) "v_storage d \<notin> offset_types - list_types" "v_storage d \<noteq> NANOARROW_TYPE_FIXED_SIZE_BINARY" by blast
  then show ?thesis
  proof cases
    case str
    then obtain a b l where o: "offset_at d (v_offset d + i) = Some a" "offset_at d (v_offset d + i + 1) = Some b"
      "0 \<le> a" "a \<le> b" "b \<le> l" "last_within d ds l"
      using offsets_between [OF assms(8,9) _ assms(5-7)] by blast
    have eq: "ArrowArrayViewGetBytesUnsafe d i = map_option (\<lambda>data. \<lparr>bf_data = data, bf_size = b - a\<rparr>)
        (advance (bf_data (buffer d 2)) a)"
    proof -
      have "ArrowArrayViewGetBytesUnsafe d i = bytes_between (offset_reader (v_storage d)) d (v_offset d + i)"
        using str by (auto simp: ArrowArrayViewGetBytesUnsafe_def offset_reader_def offset_types_def list_types_def ai)
      also have "... = map_option (\<lambda>data. \<lparr>bf_data = data, bf_size = b - a\<rparr>) (advance (bf_data (buffer d 2)) a)"
        using o(1,2) by (simp add: bytes_between_def offset_at_def map_option_case bind_eq_None_conv split: option.split)
      finally show ?thesis .
    qed
    show ?thesis
    proof (cases "bf_data (buffer d 2)")
      case None
      then have "l = 0" using o(6) str by (simp add: last_within_def)
      then have "a = 0" "b = 0" using o by simp_all
      then show ?thesis using None eq by (simp add: advance_def in_memory_def)
    next
      case (Some data)
      then have "l \<le> int (length data)" using o(6) str by (simp add: last_within_def)
      then show ?thesis using Some eq o(3-5) by (simp add: advance_def in_memory_def)
    qed
  next
    case fsb
    then obtain w where w: "0 \<le> w" "ly_bits (v_layout d) = [1, 8 * w, 0]" using shapedD(4) [OF assms(1)] by blast
    have k: "buffer_kind d 1 = NANOARROW_BUFFER_TYPE_DATA" "element_bits d 1 = 8 * w"
      using shapedD(3) [OF assms(1)] fsb w(2)
      by (simp_all add: buffer_kind_def element_bits_def ArrowLayoutInit_def set_buffer_def)
    have eq: "ArrowArrayViewGetBytesUnsafe d i =
        map_option (\<lambda>data. \<lparr>bf_data = data, bf_size = w\<rparr>) (advance (bf_data (buffer d 1)) ((v_offset d + i) * w))"
      using fsb k(2) by (simp add: ArrowArrayViewGetBytesUnsafe_def ai)
    show ?thesis
    proof (rule data_elements [OF assms(2-7) k w(1)])
      fix b assume b: "bf_data (buffer d 1) = Some b" "w * (v_offset d + i + 1) \<le> int (length b)"
      obtain m where m: "(v_offset d + i) * w = m" by simp
      have "0 \<le> m" using w(1) assms(5,6) m by (metis add_nonneg_nonneg mult_nonneg_nonneg)
      moreover have "m + w \<le> int (length b)" using b(2) m by (simp add: algebra_simps)
      ultimately have "advance (bf_data (buffer d 1)) m = Some (Some (drop (nat m) b))"
        "int (length (drop (nat m) b)) = int (length b) - m" using w(1) b(1) by (simp_all add: advance_def)
      then show ?thesis using w(1) \<open>m + w \<le> _\<close> unfolding eq m by (simp add: in_memory_def)
    next
      assume "w = 0" "bf_data (buffer d 1) = None"
      then show ?thesis by (simp add: eq advance_def in_memory_def)
    qed
  next
    case other
    then show ?thesis using assms(10)
      by (auto simp: ArrowArrayViewGetBytesUnsafe_def offset_types_def list_types_def binary_view_types_def in_memory_def)
  qed
qed

lemma elements_readable:
  assumes "shaped d k" "sized d" "long_enough d" "known d 1" "0 \<le> v_offset d" "0 \<le> i" "i < v_length d"
    "ly_type (ArrowLayoutInit (v_storage d)) ! 1 = NANOARROW_BUFFER_TYPE_DATA"
    "ly_bits (ArrowLayoutInit (v_storage d)) ! 1 = 8 * int w" "0 < w" "v_storage d \<noteq> NANOARROW_TYPE_FIXED_SIZE_BINARY"
  shows "\<exists>b. bf_data (buffer d 1) = Some b \<and> int w * (v_offset d + i) + int w \<le> int (length b)"
proof -
  note L = layout_of [OF assms(1,11), of 1]
  have k: "buffer_kind d 1 = NANOARROW_BUFFER_TYPE_DATA" "element_bits d 1 = 8 * int w" unfolding L using assms(8,9) by simp_all
  have w: "0 \<le> int w" by simp
  show ?thesis
    by (rule data_elements [OF assms(2-7) k w]) (use assms(10) in \<open>simp_all add: algebra_simps\<close>)
qed

lemma interval_readable:
  assumes "shaped d k" "sized d" "long_enough d" "known d 1" "0 \<le> v_offset d" "0 \<le> i" "i < v_length d"
  shows "ArrowArrayViewGetIntervalUnsafe d i out \<noteq> None"
proof -
  have E: "element (bf_data (buffer d 1)) w (v_offset d + i) \<noteq> None"
    if t: "ly_type (ArrowLayoutInit (v_storage d)) ! 1 = NANOARROW_BUFFER_TYPE_DATA"
      "ly_bits (ArrowLayoutInit (v_storage d)) ! 1 = 8 * int w" "0 < w" "v_storage d \<noteq> NANOARROW_TYPE_FIXED_SIZE_BINARY" for w
  proof -
    obtain b where b: "bf_data (buffer d 1) = Some b" "int w * (v_offset d + i) + int w \<le> int (length b)"
      using elements_readable [OF assms t] by blast
    then have "int w * (v_offset d + i + 1) \<le> int (length b)" by (simp add: algebra_simps)
    from element_Some [OF b(1) _ this] assms(5,6) show ?thesis by auto
  qed
  show ?thesis
    using E [of 4] E [of 8] E [of 16] layout_data(1,2,6) [of "v_storage d"]
    unfolding ArrowArrayViewGetIntervalUnsafe_def Let_def by (auto split: if_splits)
qed

lemma decimal_readable:
  assumes "shaped d k" "sized d" "long_enough d" "known d 1" "0 \<le> v_offset d" "0 \<le> i" "i < v_length d"
  shows "ArrowArrayViewGetDecimalUnsafe d i (ArrowDecimalInit (decimal_bits (v_storage d)) p s) \<noteq> None"
proof -
  let ?t = "v_storage d"
  define copied where "copied w dec =
    (do { p \<leftarrow> advance (bf_data (buffer d 1)) ((i + v_offset d) * w); p \<leftarrow> p; ArrowDecimalSetBytes dec p })" for w dec
  have G: "ArrowArrayViewGetDecimalUnsafe d i dec =
     (if ?t = NANOARROW_TYPE_DECIMAL32 then copied 4 dec else if ?t = NANOARROW_TYPE_DECIMAL64 then copied 8 dec
      else if ?t = NANOARROW_TYPE_DECIMAL128 then copied 16 dec else if ?t = NANOARROW_TYPE_DECIMAL256 then copied 32 dec
      else Some (dec\<lparr>dc_words := replicate 4 0\<rparr>))" for dec
    by (simp add: ArrowArrayViewGetDecimalUnsafe_def copied_def Let_def)
  have E: "\<exists>out. copied (int w) dec = Some out"
    if t: "ly_type (ArrowLayoutInit ?t) ! 1 = NANOARROW_BUFFER_TYPE_DATA" "ly_bits (ArrowLayoutInit ?t) ! 1 = 8 * int w" "0 < w"
      "?t \<noteq> NANOARROW_TYPE_FIXED_SIZE_BINARY" "w = (if dc_n_words dec = 0 then 4 else 8 * dc_n_words dec)" for w dec
  proof -
    obtain b where b: "bf_data (buffer d 1) = Some b" "int w * (v_offset d + i) + int w \<le> int (length b)"
      using elements_readable [OF assms t(1-4)] by blast
    obtain m where m: "(i + v_offset d) * int w = m" "int w * (v_offset d + i) = m" by (simp add: algebra_simps)
    have "0 \<le> m" using assms(5,6) m(2) by (metis add_nonneg_nonneg mult_nonneg_nonneg of_nat_0_le_iff)
    then have "advance (bf_data (buffer d 1)) m = Some (Some (drop (nat m) b))" "w \<le> length (drop (nat m) b)"
      using b unfolding m(2) by (simp_all add: advance_def)
    then show ?thesis unfolding copied_def m(1) using t(5)
      by (cases "dc_n_words dec = 0") (simp_all add: ArrowDecimalSetBytes_def load_def)
  qed
  show ?thesis
  proof (cases "?t \<in> {NANOARROW_TYPE_DECIMAL32, NANOARROW_TYPE_DECIMAL64, NANOARROW_TYPE_DECIMAL128, NANOARROW_TYPE_DECIMAL256}")
    case True
    then consider "?t = NANOARROW_TYPE_DECIMAL32" | "?t = NANOARROW_TYPE_DECIMAL64" | "?t = NANOARROW_TYPE_DECIMAL128"
      | "?t = NANOARROW_TYPE_DECIMAL256" by blast
    then show ?thesis
    proof cases
      case 1
      have "ly_type (ArrowLayoutInit ?t) ! 1 = NANOARROW_BUFFER_TYPE_DATA" "ly_bits (ArrowLayoutInit ?t) ! 1 = 8 * int 4"
        unfolding 1 by (simp_all add: ArrowLayoutInit_def set_buffer_def set_size_def)
      moreover have "(0 :: nat) < 4" by simp
      moreover have "?t \<noteq> NANOARROW_TYPE_FIXED_SIZE_BINARY" unfolding 1 by simp
      moreover have "4 = (if dc_n_words (ArrowDecimalInit 32 p s) = 0 then 4 else 8 * dc_n_words (ArrowDecimalInit 32 p s))"
        by (simp add: ArrowDecimalInit_def)
      ultimately obtain out where "copied (int 4) (ArrowDecimalInit 32 p s) = Some out" using E by blast
      then show ?thesis unfolding G decimal_bits_def 1 by simp
    next
      case 2
      have "ly_type (ArrowLayoutInit ?t) ! 1 = NANOARROW_BUFFER_TYPE_DATA" "ly_bits (ArrowLayoutInit ?t) ! 1 = 8 * int 8"
        unfolding 2 by (simp_all add: ArrowLayoutInit_def set_buffer_def set_size_def)
      moreover have "(0 :: nat) < 8" by simp
      moreover have "?t \<noteq> NANOARROW_TYPE_FIXED_SIZE_BINARY" unfolding 2 by simp
      moreover have "8 = (if dc_n_words (ArrowDecimalInit 64 p s) = 0 then 4 else 8 * dc_n_words (ArrowDecimalInit 64 p s))"
        by (simp add: ArrowDecimalInit_def)
      ultimately obtain out where "copied (int 8) (ArrowDecimalInit 64 p s) = Some out" using E by blast
      then show ?thesis unfolding G decimal_bits_def 2 by simp
    next
      case 3
      have "ly_type (ArrowLayoutInit ?t) ! 1 = NANOARROW_BUFFER_TYPE_DATA" "ly_bits (ArrowLayoutInit ?t) ! 1 = 8 * int 16"
        unfolding 3 by (simp_all add: ArrowLayoutInit_def set_buffer_def set_size_def)
      moreover have "(0 :: nat) < 16" by simp
      moreover have "?t \<noteq> NANOARROW_TYPE_FIXED_SIZE_BINARY" unfolding 3 by simp
      moreover have "16 = (if dc_n_words (ArrowDecimalInit 128 p s) = 0 then 4 else 8 * dc_n_words (ArrowDecimalInit 128 p s))"
        by (simp add: ArrowDecimalInit_def)
      ultimately obtain out where "copied (int 16) (ArrowDecimalInit 128 p s) = Some out" using E by blast
      then show ?thesis unfolding G decimal_bits_def 3 by simp
    next
      case 4
      have "ly_type (ArrowLayoutInit ?t) ! 1 = NANOARROW_BUFFER_TYPE_DATA" "ly_bits (ArrowLayoutInit ?t) ! 1 = 8 * int 32"
        unfolding 4 by (simp_all add: ArrowLayoutInit_def set_buffer_def set_size_def)
      moreover have "(0 :: nat) < 32" by simp
      moreover have "?t \<noteq> NANOARROW_TYPE_FIXED_SIZE_BINARY" unfolding 4 by simp
      moreover have "32 = (if dc_n_words (ArrowDecimalInit 256 p s) = 0 then 4 else 8 * dc_n_words (ArrowDecimalInit 256 p s))"
        by (simp add: ArrowDecimalInit_def)
      ultimately obtain out where "copied (int 32) (ArrowDecimalInit 256 p s) = Some out" using E by blast
      then show ?thesis unfolding G decimal_bits_def 4 by simp
    qed
  qed (simp add: G)
qed

lemma list_offset_at:
  "v_storage d \<in> offset_types \<inter> list_types \<union> view_types \<Longrightarrow> ArrowArrayViewListChildOffset d i = offset_at d i"
  by (auto simp: ArrowArrayViewListChildOffset_def offset_at_def offset_reader_def offset_types_def list_types_def view_types_def)

lemma value_readable:
  assumes "shaped d k" "sized d" "long_enough d" "minimal_facts d ds" "default_facts d ds" "offsets_increase d"
    "0 \<le> i" "i < v_length d"
  shows "value_readable d i"
proof -
  have M: "0 \<le> v_offset d" "known d 1" using assms(4) by (simp_all add: minimal_facts_def)
  note A = assms(1-3) M(2,1) assms(7,8)
  have "v_storage d \<notin> float_types \<Longrightarrow> ArrowArrayViewGetIntUnsafe d i \<noteq> None" using int_readable [OF A] by auto
  moreover have "v_storage d \<notin> set binary_view_types \<Longrightarrow>
      (case ArrowArrayViewGetBytesUnsafe d i of None \<Rightarrow> False | Some b \<Rightarrow> in_memory b)"
    using bytes_readable [OF A assms(6,5)] by auto
  ultimately show ?thesis
    using is_null_readable [OF assms(1,3) M(1) assms(7,8)] interval_readable [OF A] decimal_readable [OF A]
    unfolding value_readable_def by blast
qed

lemma children_readable:
  assumes "shaped d k" "minimal_facts d ds" "default_facts d ds" "full_facts d ds" "0 \<le> i" "i < v_length d"
  shows "children_readable d ds i"
proof -
  define j where "j = v_offset d + i"
  have M: "0 \<le> v_offset d" "children_fit d ds" using assms(2) by (simp_all add: minimal_facts_def)
  have F: "offsets_increase d" "union_values_placed d ds" "list_views_placed d ds" using assms(4) by (simp_all add: full_facts_def)
  have l: "case (ArrowArrayViewListChildOffset d j, ArrowArrayViewListChildOffset d (j + 1)) of
           (Some a, Some b) \<Rightarrow> 0 \<le> a \<and> a \<le> b \<and> b \<le> v_length (hd ds) | _ \<Rightarrow> False"
    if t: "v_storage d \<in> offset_types \<inter> list_types"
  proof -
    obtain a b l where "offset_at d j = Some a" "offset_at d (j + 1) = Some b" "0 \<le> a" "a \<le> b" "b \<le> l" "last_within d ds l"
      using offsets_between [OF F(1) assms(3) _ M(1) assms(5,6)] t unfolding j_def by blast
    then show ?thesis using t list_offset_at [of d] by (simp add: last_within_def)
  qed
  have v: "case (ArrowArrayViewListChildOffset d j, size_at d j) of
           (Some a, Some n) \<Rightarrow> 0 \<le> a \<and> 0 \<le> n \<and> a + n \<le> v_length (hd ds) | _ \<Rightarrow> False" if t: "v_storage d \<in> view_types"
  proof -
    have "v_offset d \<le> j \<and> j < v_offset d + v_length d" using assms(5,6) by (simp add: j_def)
    with F(3) t obtain a b where "offset_at d j = Some a" "size_at d j = Some b" "0 \<le> a" "0 \<le> b" "a + b \<le> v_length (hd ds)"
      unfolding list_views_placed_def by blast
    then show ?thesis using t list_offset_at [of d] by simp
  qed
  have s: "\<forall>c \<in> set ds. j < v_length c" if "v_storage d = NANOARROW_TYPE_STRUCT"
    using M(2) that assms(6) by (fastforce simp: children_fit_def Let_def list_types_def j_def)
  have f: "(j + 1) * ly_child (v_layout d) \<le> v_length (hd ds)"
    if t: "v_storage d = NANOARROW_TYPE_FIXED_SIZE_LIST" "0 \<le> ly_child (v_layout d)"
  proof -
    have "(j + 1) * ly_child (v_layout d) \<le> (v_offset d + v_length d) * ly_child (v_layout d)"
      by (rule mult_right_mono) (use assms(6) t in \<open>simp_all add: j_def\<close>)
    also have "... \<le> v_length (hd ds)" using M(2) t by (simp add: children_fit_def Let_def)
    finally show ?thesis .
  qed
  have u: "case (ArrowArrayViewUnionChildIndex d i, ArrowArrayViewUnionChildOffset d i) of
           (Some k, Some m) \<Rightarrow> 0 \<le> k \<and> nat k < length ds \<and> 0 \<le> m
             \<and> (if v_storage d = NANOARROW_TYPE_DENSE_UNION then m \<le> v_length (ds ! nat k)
                else m < v_length (ds ! nat k)) | _ \<Rightarrow> False" if t: "v_storage d \<in> union_types"
  proof -
    from F(2) t assms(5,6) obtain k m where "ArrowArrayViewUnionChildIndex d i = Some k"
      "ArrowArrayViewUnionChildOffset d i = Some m" "0 \<le> k" "nat k < length ds" "0 \<le> m"
      "if v_storage d = NANOARROW_TYPE_DENSE_UNION then m \<le> v_length (ds ! nat k) else m < v_length (ds ! nat k)"
      unfolding union_values_placed_def by blast
    then show ?thesis by simp
  qed
  have r: "list_ex (\<lambda>k. case ArrowArrayViewGetIntUnsafe (hd ds) k of None \<Rightarrow> False | Some r \<Rightarrow> j < r)
            [0..v_length (hd ds) - 1]" if t: "v_storage d = NANOARROW_TYPE_RUN_END_ENCODED" "0 < v_length (hd ds)"
  proof -
    obtain l where "ArrowArrayViewGetIntUnsafe (hd ds) (v_length (hd ds) - 1) = Some l" "v_offset d + v_length d \<le> l"
      using assms(3) t unfolding default_facts_def by auto
    then show ?thesis using t(2) assms(6) by (auto simp: list_ex_iff j_def intro!: bexI [of _ "v_length (hd ds) - 1"])
  qed
  show ?thesis
    unfolding children_readable_def j_def [symmetric] Let_def using l v s f u r by blast
qed

lemma check_all_safe:
  assumes "\<And>c. c \<in> set cs \<Longrightarrow> \<exists>e. f c = Some (e, ()) \<and> (e = None \<longrightarrow> Q c)"
  shows "\<exists>e. check_all f cs = Some (e, ()) \<and> (e = None \<longrightarrow> list_all Q cs)"
  using assms
proof (induction cs)
  case (Cons c cs)
  obtain e where "f c = Some (e, ())" "e = None \<longrightarrow> Q c" using Cons.prems [of c] by auto
  moreover obtain e' where "check_all f cs = Some (e', ())" "e' = None \<longrightarrow> list_all Q cs" using Cons.IH Cons.prems by auto
  ultimately show ?case by (cases e) auto
qed (simp add: passes_def)

lemma validate_full:
  "conforming v \<Longrightarrow> default_valid v \<Longrightarrow>
     \<exists>e. ArrowArrayViewValidateFull v = Some (e, ()) \<and> (e = None \<longrightarrow> readable v)"
proof (induction v rule: ArrowArrayViewValidateFull.induct)
  case (1 d cs dictionary)
  have c: "shaped d (length cs)" "sized d" "long_enough d" "list_all conforming cs"
    "case dictionary of None \<Rightarrow> True | Some v \<Rightarrow> conforming v" using 1(3) by simp_all
  have v: "minimal_facts d (map av_data cs)" "default_facts d (map av_data cs)" "list_all default_valid cs"
    "case dictionary of None \<Rightarrow> True | Some v \<Rightarrow> default_valid v" using 1(4) by simp_all
  then have mv: "list_all minimally_valid cs" using default_minimally_valid by (auto simp: list_all_iff)
  obtain e1 where e1: "full_node d cs = Some (e1, ())" "e1 = None \<longrightarrow> full_facts d (map av_data cs)"
    using full_node [OF c(1-3) v(1) c(4) mv] by blast
  have "\<And>x. x \<in> set cs \<Longrightarrow> \<exists>e. ArrowArrayViewValidateFull x = Some (e, ()) \<and> (e = None \<longrightarrow> readable x)"
    using 1(1) c(4) v(3) by (simp add: list_all_iff)
  then obtain e2 where e2: "check_all ArrowArrayViewValidateFull cs = Some (e2, ())" "e2 = None \<longrightarrow> list_all readable cs"
    using check_all_safe [of cs ArrowArrayViewValidateFull readable] by blast
  obtain e3 where e3: "(case dictionary of None \<Rightarrow> passes () | Some v \<Rightarrow> ArrowArrayViewValidateFull v) = Some (e3, ())"
    "e3 = None \<longrightarrow> (case dictionary of None \<Rightarrow> True | Some v \<Rightarrow> readable v)"
    using 1(2) c(5) v(4) by (cases dictionary) (auto simp: passes_def)
  have M: "0 \<le> v_offset d" "0 \<le> v_length d" using v(1) by (simp_all add: minimal_facts_def)
  have "readable (View d cs dictionary)" if "e1 = None" "e2 = None" "e3 = None"
  proof -
    have F: "full_facts d (map av_data cs)" using e1(2) that by simp
    then have "offsets_increase d" by (simp add: full_facts_def)
    then have "\<forall>i. 0 \<le> i \<and> i < v_length d \<longrightarrow> value_readable d i \<and> children_readable d (map av_data cs) i"
      using value_readable [OF c(1-3) v(1,2)] children_readable [OF c(1) v(1,2) F] by blast
    then show ?thesis using null_count_readable [OF c(1,3) M] e2(2) e3(2) that by (simp add: list_all_iff)
  qed
  then show ?case using e1(1) e2(1) e3(1) by (cases e1; cases e2; cases e3) auto
qed

lemma validated_readable:
  assumes "conforming v"
  shows "\<exists>e v'. ArrowArrayViewValidate v NANOARROW_VALIDATION_LEVEL_FULL = Some (e, v') \<and> (e = None \<longrightarrow> readable v')"
proof -
  obtain e v' where v: "ArrowArrayViewValidateDefault v = Some (e, v')" "conforming v'" "e = None \<Longrightarrow> default_valid v'"
    using validate_default [OF assms] by blast
  show ?thesis
  proof (cases e)
    case None
    with v(2,3) obtain e' where "ArrowArrayViewValidateFull v' = Some (e', ())" "e' = None \<longrightarrow> readable v'"
      using validate_full by blast
    then show ?thesis using v(1) None by (simp add: ArrowArrayViewValidate_def)
  qed (use v(1) in \<open>simp add: ArrowArrayViewValidate_def\<close>)
qed

end
