(* ===== verification/Array_Attach.thy ===== *)
theory Array_Attach
  imports Array_Readable
begin

text \<open>
  From a schema to an array that is read: the view a schema gives has the shape the schema's type asks for,
  attaching an array keeps it, and so validation applies to every array attached to a view made from a schema.
\<close>

section \<open>What the view of a schema promises\<close>

lemma parse_decimal_storage:
  "parse_decimal vw format = Inr (w, rest) \<Longrightarrow> vw_storage w \<notin> union_types"
  by (auto simp: parse_decimal_def Let_def ArrowSchemaViewSetPrimitive_def union_types_def
      split: if_splits prod.splits)

lemma parse_datetime_storage:
  "parse_datetime vw format = Inr (w, rest) \<Longrightarrow> vw_storage w \<notin> union_types"
  by (auto simp: parse_datetime_def Let_def ArrowSchemaViewSetPrimitive_def union_types_def
      split: if_splits option.splits)

lemma parse_nested_union:
  "parse_nested k vw format = Inr (w, rest) \<Longrightarrow> vw_storage w \<in> union_types \<Longrightarrow>
     ArrowParseUnionTypeIds (vw_union_type_ids w) = k"
  by (auto simp: parse_nested_def Let_def ArrowSchemaViewSetPrimitive_def union_types_def
      split: if_splits prod.splits)

lemma parse_union:
  "ArrowSchemaViewParse k vw format = Inr (w, rest) \<Longrightarrow> vw_storage w \<in> union_types \<Longrightarrow>
     ArrowParseUnionTypeIds (vw_union_type_ids w) = k"
  using parse_decimal_storage parse_datetime_storage parse_nested_union
  by (auto simp: ArrowSchemaViewParse_def Let_def ArrowSchemaViewSetPrimitive_def union_types_def
      split: if_splits prod.splits)

lemma validated_storage:
  "ArrowSchemaViewValidate s vw i t = Some (Inr u) \<Longrightarrow>
     t \<noteq> NANOARROW_TYPE_UNINITIALIZED \<and> (t = NANOARROW_TYPE_FIXED_SIZE_BINARY \<longrightarrow> 0 < vw_fixed_size vw)"
  by (auto simp: ArrowSchemaViewValidate_def plain_types_def split: if_splits)

definition layout_fits :: "arrow_type \<Rightarrow> arrow_layout \<Rightarrow> bool" where
  "layout_fits t l \<longleftrightarrow> t \<noteq> NANOARROW_TYPE_UNINITIALIZED \<and> ly_type l = ly_type (ArrowLayoutInit t)
     \<and> (if t = NANOARROW_TYPE_FIXED_SIZE_BINARY then (\<exists>w \<ge> 0. ly_bits l = [1, 8 * w, 0])
        else ly_bits l = ly_bits (ArrowLayoutInit t))"

lemma layout_of_storage:
  assumes "t \<noteq> NANOARROW_TYPE_UNINITIALIZED" "t = NANOARROW_TYPE_FIXED_SIZE_BINARY \<longrightarrow> 0 < n"
  shows "layout_fits t (if t = NANOARROW_TYPE_FIXED_SIZE_BINARY then set_size (n * 8) (ArrowLayoutInit t)
     else if t = NANOARROW_TYPE_FIXED_SIZE_LIST then (ArrowLayoutInit t)\<lparr>ly_child := n\<rparr> else ArrowLayoutInit t)"
  using assms by (auto simp: layout_fits_def ArrowLayoutInit_def set_size_def set_buffer_def intro!: exI [of _ n])

lemma check_then_Inr:
  assumes "check_then r f = Some (Inr x)"
  obtains y where "r = Some (Inr y)" "f y = Some (Inr x)"
  using assms by (auto simp: check_then_def split: option.splits sum.splits)

lemma view_init:
  assumes "ArrowSchemaViewInit vw (Some (Schema f n m fl k cs d)) = Some (Inr w)"
  shows "layout_fits (vw_storage w) (vw_layout w)"
    "vw_storage w \<in> union_types \<Longrightarrow> ArrowParseUnionTypeIds (vw_union_type_ids w) = k"
proof -
  obtain format where f: "f = Some format" using assms by (cases f) (simp_all add: ArrowSchemaViewInit.simps)
  have ne: "format \<noteq> []" using assms f by (auto simp: ArrowSchemaViewInit.simps)
  obtain p rest where P: "ArrowSchemaViewParse k vw format = Inr (p, rest)"
    using assms f ne by (cases "ArrowSchemaViewParse k vw format") (auto simp: ArrowSchemaViewInit.simps)
  have r: "rest = []" using assms f ne P by (cases rest) (simp_all add: ArrowSchemaViewInit.simps)
  define q where "q = (if d \<noteq> None then p\<lparr>vw_type := NANOARROW_TYPE_DICTIONARY\<rparr> else p)"
  have q: "vw_storage q = vw_storage p" "vw_union_type_ids q = vw_union_type_ids p" by (simp_all add: q_def)
  note S = assms [simplified ArrowSchemaViewInit.simps Let_def f P r option.case sum.case prod.case ne if_False
      simp_thms not_True_eq_False not_False_eq_True q_def [symmetric]]
  obtain u where "ArrowSchemaViewValidate (Schema f n m fl k cs d) q
      (case d of None \<Rightarrow> None | Some dictionary \<Rightarrow> ArrowSchemaViewInit vw (Some dictionary)) (vw_storage q) = Some (Inr u)"
    using S by (elim check_then_Inr) (auto simp: f)
  from validated_storage [OF this] have V: "vw_storage q \<noteq> NANOARROW_TYPE_UNINITIALIZED"
    "vw_storage q = NANOARROW_TYPE_FIXED_SIZE_BINARY \<longrightarrow> 0 < vw_fixed_size q" by simp_all
  obtain name metadata where w: "w = q\<lparr>vw_layout :=
      (if vw_storage q = NANOARROW_TYPE_FIXED_SIZE_BINARY then set_size (vw_fixed_size q * 8) (ArrowLayoutInit (vw_storage q))
       else if vw_storage q = NANOARROW_TYPE_FIXED_SIZE_LIST then (ArrowLayoutInit (vw_storage q))\<lparr>ly_child := vw_fixed_size q\<rparr>
       else ArrowLayoutInit (vw_storage q)), vw_extension_name := name, vw_extension_metadata := metadata\<rparr>"
    using S by (elim check_then_Inr) (auto split: if_splits bind_splits prod.splits simp: q)
  show "layout_fits (vw_storage w) (vw_layout w)" using layout_of_storage [OF V] unfolding w by simp
  show "vw_storage w \<in> union_types \<Longrightarrow> ArrowParseUnionTypeIds (vw_union_type_ids w) = k"
    using parse_union [OF P] q unfolding w by simp
qed

section \<open>The map of type ids\<close>

lemma write_type_ids_count: "fst (write_type_ids s out) = count_type_ids s (int (length out))"
proof (induction s out rule: write_type_ids.induct)
  case (1 s out)
  show ?case
    using 1 by (subst write_type_ids.simps, subst count_type_ids.simps) (auto simp: Let_def add.commute split: prod.splits)
qed

lemma write_type_ids_written:
  "fst (write_type_ids s out) \<noteq> - 1 \<Longrightarrow> list_all (\<lambda>i. 0 \<le> i \<and> i < 128) out \<Longrightarrow>
     int (length (snd (write_type_ids s out))) = fst (write_type_ids s out)
     \<and> list_all (\<lambda>i. 0 \<le> i \<and> i < 128) (snd (write_type_ids s out))"
proof (induction s out rule: write_type_ids.induct)
  case (1 s out)
  obtain i rest where r: "strtol s = (i, rest)" by (cases "strtol s")
  have c: "\<not> (rest = s \<or> i < 0 \<or> i > 127)" using 1(2) by (subst (asm) write_type_ids.simps) (auto simp: r)
  show ?case
  proof (cases "rest = []")
    case True
    then have "write_type_ids s out = (int (length out) + 1, out @ [i])"
      using c by (subst write_type_ids.simps) (simp add: r)
    then show ?thesis using 1(3) c by simp
  next
    case False
    have h: "hd rest = CHR '',''" using 1(2) c False by (subst (asm) write_type_ids.simps) (auto simp: r split: if_splits)
    have w: "write_type_ids s out = write_type_ids (tl rest) (out @ [i])"
      using c False h by (subst write_type_ids.simps) (simp add: r)
    show ?thesis unfolding w by (rule 1(1) [OF r [symmetric] refl c False]) (use h 1(2,3) c w in auto)
  qed
qed

lemma length_mapped: "length (fold (\<lambda>c m. m[nat (m ! nat (128 + c)) := c]) cs m) = length m" for m :: "int list"
  by (induction cs arbitrary: m) simp_all

lemma mapped_back:
  assumes "length m = 256" "\<forall>j < n. 0 \<le> m ! (128 + j) \<and> m ! (128 + j) < 128" "n \<le> 128" "k \<le> n"
    "m' = fold (\<lambda>c m. m[nat (m ! nat (128 + c)) := c]) [0..int k - 1] m"
  shows "(\<forall>j < n. m' ! (128 + j) = m ! (128 + j))
     \<and> (\<forall>j < k. 0 \<le> m' ! nat (m ! (128 + j)) \<and> m' ! nat (m ! (128 + j)) < int k)"
  using assms(4,5)
proof (induction k arbitrary: m')
  case (Suc k)
  define b where "b = fold (\<lambda>c m. m[nat (m ! nat (128 + c)) := c]) [0..int k - 1] m"
  have u: "[0..int (Suc k) - 1] = [0..int k - 1] @ [int k]"
    using upto_rec2 [of 0 "int k"] by simp
  have B: "\<forall>j < n. b ! (128 + j) = m ! (128 + j)"
    "\<forall>j < k. 0 \<le> b ! nat (m ! (128 + j)) \<and> b ! nat (m ! (128 + j)) < int k"
    using Suc.IH [OF _ b_def] Suc.prems(1) by simp_all
  have n: "nat (128 + int k) = 128 + k" by simp
  obtain t where t: "m ! (128 + k) = int t" "t < 128" using assms(2) Suc.prems(1)
    by (metis Suc_le_lessD of_nat_less_numeral_iff zero_le_imp_eq_int)
  have m': "m' = b[t := int k]" using Suc.prems(1) B(1) t unfolding Suc.prems(2) u by (simp add: b_def [symmetric] n)
  have l: "length b = 256" using assms(1) by (simp add: b_def length_mapped)
  have "m' ! (128 + j) = m ! (128 + j)" if "j < n" for j
    using that B(1) t(2) by (simp add: m' nth_list_update_neq)
  moreover have "0 \<le> m' ! nat (m ! (128 + j)) \<and> m' ! nat (m ! (128 + j)) < int (Suc k)" if j: "j < Suc k" for j
  proof (cases "nat (m ! (128 + j)) = t")
    case True
    then show ?thesis using l t(2) by (simp add: m')
  next
    case False
    with t(1) j have "j < k" by (cases "j = k") auto
    with B(2) False show ?thesis by (fastforce simp: m' nth_list_update_neq)
  qed
  ultimately show ?case by blast
qed simp

lemma union_map_ok:
  assumes "union_map ids = Some m" "ArrowParseUnionTypeIds ids = int k"
  shows "map_ok m k"
proof -
  define w where "w = (if ids = [] then (0, []) else write_type_ids ids [])"
  obtain n written where nw: "w = (n, written)" by (cases w)
  have n: "n = int k" "int (length written) = n" "list_all (\<lambda>i. 0 \<le> i \<and> i < 128) written"
    using assms(2) nw write_type_ids_count [of ids "[]"] write_type_ids_written [of ids "[]"]
    by (auto simp: w_def ArrowParseUnionTypeIds_def split: if_splits)
  let ?m = "replicate 128 (- 1) @ written @ replicate (128 - length written) (- 1)"
  have m: "m = fold (\<lambda>c m. m[nat (m ! nat (128 + c)) := c]) [0..int k - 1] ?m" and k: "k < 128"
    using assms(1) n(1,2) nw by (auto simp: union_map_def w_def [symmetric] split: if_splits)
  have l: "length ?m = 256" using n(1,2) k by simp
  have i: "\<forall>j < k. 0 \<le> ?m ! (128 + j) \<and> ?m ! (128 + j) < 128"
    using n by (auto simp: nth_append list_all_length)
  show ?thesis
    using mapped_back [OF l i _ order_refl m] i k l length_mapped by (simp add: map_ok_def m [symmetric]) (simp add: m length_mapped l)
qed

section \<open>Views from schemas\<close>

text \<open>The shape of every node, and no stale sizes.\<close>

fun in_shape :: "array_view \<Rightarrow> bool" where
  "in_shape (View d cs dictionary) \<longleftrightarrow> shaped d (length cs) \<and> sized d \<and> list_all in_shape cs
     \<and> (case dictionary of None \<Rightarrow> True | Some v \<Rightarrow> in_shape v)"

lemma conforming_in_shape: "conforming v \<longleftrightarrow> in_shape v \<and> as_the_format_requires v"
  by (induction v rule: conforming.induct) (auto simp: list_all_iff split: option.splits)

lemma node_in_shape:
  assumes "layout_fits t l" "t \<in> union_types \<Longrightarrow> \<exists>m. tm = Some m \<and> map_ok m n"
  shows "shaped ((av_data (ArrowArrayViewInitFromType t))\<lparr>v_layout := l, v_type_id_map := tm\<rparr>) n
     \<and> sized ((av_data (ArrowArrayViewInitFromType t))\<lparr>v_layout := l, v_type_id_map := tm\<rparr>)"
  using assms by (auto simp: shaped_def sized_def layout_fits_def ArrowArrayViewInitFromType_def buffer_def union_types_def
      nth_replicate less_Suc_eq numeral_3_eq_3)

lemma allocated_children:
  assumes "ArrowArrayViewAllocateChildren (View d [] None) k = (NANOARROW_OK, v)"
  shows "0 \<le> k" "v = View d (replicate (nat k) (ArrowArrayViewInitFromType NANOARROW_TYPE_UNINITIALIZED)) None"
  using assms by (auto simp: ArrowArrayViewAllocateChildren_def split: if_splits)

lemma reset_passes: "reset_on_failure r = Some (None, v) \<longleftrightarrow> r = Some (None, v)"
  by (auto simp: reset_on_failure_def split: option.splits)

text \<open>What a success consists of.\<close>

lemma init_from_schema:
  assumes "ArrowArrayViewInitFromSchema vw v (Some (Schema f n m fl k cs d)) = Some (None, v')"
  obtains w kids dictionary tm where
    "ArrowSchemaViewInit vw (Some (Schema f n m fl k cs d)) = Some (Inr w)" "0 \<le> k"
    "case cs of None \<Rightarrow> k = 0 \<and> kids = []
     | Some schemas \<Rightarrow> init_view_children vw
         (replicate (nat k) (ArrowArrayViewInitFromType NANOARROW_TYPE_UNINITIALIZED)) schemas = Some (None, kids)"
    "case d of None \<Rightarrow> dictionary = None
     | Some schema \<Rightarrow> \<exists>dv. dictionary = Some dv \<and>
         ArrowArrayViewInitFromSchema vw (ArrowArrayViewInitFromType NANOARROW_TYPE_UNINITIALIZED) (Some schema) = Some (None, dv)"
    "vw_storage w \<in> union_types \<Longrightarrow> \<exists>type_id_map. union_map (vw_union_type_ids w) = Some type_id_map \<and> tm = Some type_id_map"
    "v' = View ((av_data (ArrowArrayViewInitFromType (vw_storage w)))\<lparr>v_layout := vw_layout w, v_type_id_map := tm\<rparr>)
       kids dictionary"
proof -
  obtain w where w: "ArrowSchemaViewInit vw (Some (Schema f n m fl k cs d)) = Some (Inr w)"
    using assms by (auto split: option.splits sum.splits)
  define d0 where "d0 = (av_data (ArrowArrayViewInitFromType (vw_storage w)))\<lparr>v_layout := vw_layout w\<rparr>"
  have d0: "with_data (\<lambda>d. d\<lparr>v_layout := vw_layout w\<rparr>) (ArrowArrayViewInitFromType (vw_storage w)) = View d0 [] None"
    "v_storage d0 = vw_storage w" "v_type_id_map d0 = None"
    by (simp_all add: with_data_def d0_def ArrowArrayViewInitFromType_def)
  obtain e a where a: "ArrowArrayViewAllocateChildren (View d0 [] None) k = (e, a)"
    by (cases "ArrowArrayViewAllocateChildren (View d0 [] None) k")
  have e: "e = NANOARROW_OK"
    by (rule ccontr) (use assms w a d0(1) in \<open>simp add: Let_def fails_def\<close>)
  note A = allocated_children [OF a [unfolded e]]
  note S = assms [unfolded ArrowArrayViewInitFromSchema.simps w, simplified option.case sum.case Let_def d0(1) a
      prod.case e, simplified]
  obtain v1 where v1: "(case cs of None \<Rightarrow> if k > 0 then None else passes a
      | Some schemas \<Rightarrow> (case init_view_children vw (av_children a) schemas of None \<Rightarrow> None
          | Some (e, children) \<Rightarrow> Some (e, View (av_data a) children (av_dictionary a)))) = Some (None, v1)"
    and R: "ok_then (reset_on_failure (case d of None \<Rightarrow> passes v1
        | Some dictionary \<Rightarrow> (case snd (ArrowArrayViewAllocateDictionary v1) of View data children allocated \<Rightarrow>
            (case ArrowArrayViewInitFromSchema vw (ArrowArrayViewInitFromType NANOARROW_TYPE_UNINITIALIZED)
               (Some dictionary) of None \<Rightarrow> None | Some (e, dv) \<Rightarrow> Some (e, View data children (Some dv)))))) (\<lambda>v.
        if v_storage (av_data v) \<in> {NANOARROW_TYPE_SPARSE_UNION, NANOARROW_TYPE_DENSE_UNION}
        then (case union_map (vw_union_type_ids w) of None \<Rightarrow> None
              | Some type_id_map \<Rightarrow> passes (with_data (\<lambda>d. d\<lparr>v_type_id_map := Some type_id_map\<rparr>) v))
        else passes v) = Some (None, v')"
    by (rule ok_then_Some [OF S]; rule that; simp add: reset_passes del: ok_then_simps)
  obtain kids where kids: "v1 = View d0 kids None"
    "case cs of None \<Rightarrow> k = 0 \<and> kids = []
     | Some schemas \<Rightarrow> init_view_children vw
         (replicate (nat k) (ArrowArrayViewInitFromType NANOARROW_TYPE_UNINITIALIZED)) schemas = Some (None, kids)"
    using v1 A by (cases cs) (auto simp: passes_def split: if_splits option.splits)
  obtain v2 where v2: "(case d of None \<Rightarrow> passes v1
      | Some dictionary \<Rightarrow> (case snd (ArrowArrayViewAllocateDictionary v1) of View data children allocated \<Rightarrow>
          (case ArrowArrayViewInitFromSchema vw (ArrowArrayViewInitFromType NANOARROW_TYPE_UNINITIALIZED)
             (Some dictionary) of None \<Rightarrow> None | Some (e, dv) \<Rightarrow> Some (e, View data children (Some dv))))) = Some (None, v2)"
    and U: "(if v_storage (av_data v2) \<in> {NANOARROW_TYPE_SPARSE_UNION, NANOARROW_TYPE_DENSE_UNION}
        then (case union_map (vw_union_type_ids w) of None \<Rightarrow> None
              | Some type_id_map \<Rightarrow> passes (with_data (\<lambda>d. d\<lparr>v_type_id_map := Some type_id_map\<rparr>) v2))
        else passes v2) = Some (None, v')"
    by (rule ok_then_Some [OF R]; rule that; simp only: reset_passes)
  obtain dictionary where dictionary: "v2 = View d0 kids dictionary" "case d of None \<Rightarrow> dictionary = None
     | Some schema \<Rightarrow> \<exists>dv. dictionary = Some dv \<and>
         ArrowArrayViewInitFromSchema vw (ArrowArrayViewInitFromType NANOARROW_TYPE_UNINITIALIZED) (Some schema) = Some (None, dv)"
    using v2 unfolding kids(1) by (cases d) (auto simp: passes_def ArrowArrayViewAllocateDictionary_def split: option.splits)
  obtain tm where "vw_storage w \<in> union_types \<Longrightarrow> \<exists>type_id_map. union_map (vw_union_type_ids w) = Some type_id_map \<and> tm = Some type_id_map"
    "v' = View (d0\<lparr>v_type_id_map := tm\<rparr>) kids dictionary"
  proof (cases "vw_storage w \<in> union_types")
    case True
    then obtain m where "union_map (vw_union_type_ids w) = Some m" "v' = View (d0\<lparr>v_type_id_map := Some m\<rparr>) kids dictionary"
      using U d0(2) by (auto simp: dictionary(1) with_data_def union_types_def passes_def split: option.splits)
    then show ?thesis using that [of "Some m"] by blast
  next
    case False
    then have "v' = View (d0\<lparr>v_type_id_map := None\<rparr>) kids dictionary"
      using U d0(2,3) by (auto simp: dictionary(1) union_types_def passes_def)
    then show ?thesis using that [of None] False by blast
  qed
  then show ?thesis using that w A(1) kids(2) dictionary(2) by (simp only: d0_def) blast
qed

lemma init_in_shape:
  "ArrowArrayViewInitFromSchema vw v s = Some (None, v') \<Longrightarrow> in_shape v'"
  "init_view_children vw vs schemas = Some (None, vs') \<Longrightarrow> length vs' = length vs \<and> list_all in_shape vs'"
proof (induction vw v s and vw vs schemas arbitrary: v' and vs'
    rule: ArrowArrayViewInitFromSchema_init_view_children.induct)
  case (3 vw v f n m fl k cs d)
  from 3(3) show ?case
  proof (rule init_from_schema, goal_cases)
    case (1 w kids dictionary tm)
    define d0 where "d0 = (av_data (ArrowArrayViewInitFromType (vw_storage w)))\<lparr>v_layout := vw_layout w\<rparr>"
    have a: "ArrowArrayViewAllocateChildren
        (with_data (v_layout_update (\<lambda>_. vw_layout w)) (ArrowArrayViewInitFromType (vw_storage w))) k =
      (NANOARROW_OK, View d0 (replicate (nat k) (ArrowArrayViewInitFromType NANOARROW_TYPE_UNINITIALIZED)) None)"
      using 1(2) by (auto simp: ArrowArrayViewAllocateChildren_def with_data_def ArrowArrayViewInitFromType_def d0_def)
    have k: "int (length kids) = k \<and> list_all in_shape kids"
    proof (cases cs)
      case (Some schemas)
      then show ?thesis using 3(1) [OF 1(1) refl refl refl a [symmetric] _ Some] 1(2,3) by fastforce
    qed (use 1(3) in simp)
    have dv: "case dictionary of None \<Rightarrow> True | Some v \<Rightarrow> in_shape v"
    proof (cases d)
      case (Some schema)
      then show ?thesis
        using 3(2) [OF 1(1) refl refl refl a [symmetric] _ Some, of "ArrowArrayViewInitFromType NANOARROW_TYPE_UNINITIALIZED"] 1(4)
        by (cases "snd (ArrowArrayViewAllocateDictionary (ArrowArrayViewInitFromType NANOARROW_TYPE_UNINITIALIZED))") auto
    qed (use 1(4) in simp)
    note V = view_init [OF 1(1)]
    have "\<exists>m. tm = Some m \<and> map_ok m (length kids)" if u: "vw_storage w \<in> union_types"
      using 1(5) [OF u] V(2) [OF u] k union_map_ok [of _ _ "length kids"] by auto
    from node_in_shape [OF V(1) this] k dv show ?case unfolding 1(6) by simp
  qed
next
  case (6 vw v vs s schemas)
  then show ?case by (auto split: option.splits prod.splits)
qed (auto simp: passes_def split: option.splits sum.splits)

section \<open>Attaching an array\<close>

lemma attached_buffers:
  "attach_buffers n pointers views = Some views' \<Longrightarrow> length views' = length views
     \<and> (\<forall>i < n. \<exists>p. views' ! i = \<lparr>bf_data = p, bf_size = (if p = None then 0 else - 1)\<rparr>)
     \<and> (\<forall>i \<ge> n. views' ! i = views ! i)"
proof (induction n pointers views arbitrary: views' rule: attach_buffers.induct)
  case (2 n p pointers v views)
  then obtain rest where r: "attach_buffers n pointers views = Some rest"
    "views' = \<lparr>bf_data = p, bf_size = (if p = None then 0 else - 1)\<rparr> # rest" by auto
  note IH = 2(1) [OF r(1)]
  show ?case
  proof (intro conjI allI impI)
    fix i assume "i < Suc n"
    then show "\<exists>p. views' ! i = \<lparr>bf_data = p, bf_size = (if p = None then 0 else - 1)\<rparr>"
      using IH r(2) by (cases i) auto
  next
    fix i assume "Suc n \<le> i"
    then show "views' ! i = (v # views) ! i" using IH r(2) by (cases i) auto
  qed (use IH r(2) in simp)
qed auto

lemma kinds_in_front:
  assumes "i < 3" "\<not> i < length (takeWhile (\<lambda>t. t \<noteq> NANOARROW_BUFFER_TYPE_NONE)
      (take (if t \<in> set binary_view_types then 2 else 3) (ly_type (ArrowLayoutInit t))))"
  shows "ly_type (ArrowLayoutInit t) ! i = NANOARROW_BUFFER_TYPE_NONE"
  using assms by (cases t; simp add: ArrowLayoutInit_def set_buffer_def set_size_def binary_view_types_def
      less_Suc_eq numeral_3_eq_3 numeral_2_eq_2; elim disjE; simp)

lemma kinds_before:
  "i < length (takeWhile (\<lambda>t. t \<noteq> NANOARROW_BUFFER_TYPE_NONE) (take n ks)) \<Longrightarrow> ks ! i \<noteq> NANOARROW_BUFFER_TYPE_NONE"
  using nth_mem [of i "takeWhile (\<lambda>t. t \<noteq> NANOARROW_BUFFER_TYPE_NONE) (take n ks)"]
  by (auto dest!: set_takeWhileD simp: takeWhile_nth)
    (metis length_takeWhile_le less_le_trans nth_take length_take min_less_iff_conj)

lemma attached_node:
  assumes "shaped d n" "sized d" "attach_array d a = Some (d', buffers_required)"
  shows "shaped d' n" "sized d'"
proof -
  define ks where "ks = ly_type (ArrowLayoutInit (v_storage d))"
  define r where "r = length (takeWhile (\<lambda>t. t \<noteq> NANOARROW_BUFFER_TYPE_NONE)
      (take (if v_storage d \<in> set binary_view_types then 2 else 3) ks))"
  note L = shapedD [OF assms(1)]
  have k: "ly_type (v_layout d) = ks" using L(3) by (simp add: ks_def)
  obtain views where views: "attach_buffers r (ar_buffers a) (v_buffers d) = Some views" "v_buffers d' = views"
    and s: "v_storage d' = v_storage d" "v_layout d' = v_layout d" "v_type_id_map d' = v_type_id_map d"
    using assms(3) unfolding attach_array_def Let_def k r_def by (auto split: bind_splits if_splits)
  note B = attached_buffers [OF views(1)]
  have N: "buffer d' i = buffer d i \<and> bf_data (buffer d i) = None" if "i < 3" "\<not> i < r" for i
    using B that views(2) kinds_in_front [of i "v_storage d"] L(7) [of i] k
    by (auto simp: buffer_def r_def ks_def buffer_kind_def)
  have D: "ks ! i \<noteq> NANOARROW_BUFFER_TYPE_NONE" if "i < r" for i using kinds_before that unfolding r_def by blast
  have "bf_data (buffer d' i) = None" if "i < 3" "ks ! i = NANOARROW_BUFFER_TYPE_NONE" for i
    using N [of i] D [of i] that by (cases "i < r") simp_all
  then show "shaped d' n" using assms(1) s B views(2) k unfolding shaped_def by simp
  show "sized d'"
    unfolding sized_def
  proof (intro allI impI)
    fix i :: nat assume i: "i < 3"
    show "case bf_data (buffer d' i) of None \<Rightarrow> bf_size (buffer d' i) = 0
      | Some b \<Rightarrow> bf_size (buffer d' i) = - 1 \<or> bf_size (buffer d' i) = required d' i"
    proof (cases "i < r")
      case True
      with B views(2) obtain p where "buffer d' i = \<lparr>bf_data = p, bf_size = (if p = None then 0 else - 1)\<rparr>"
        by (auto simp: buffer_def)
      then show ?thesis by (cases p) auto
    next
      case False
      then show ?thesis using N [OF i] buffer_sized [OF assms(2) i] by simp
    qed
  qed
qed

lemma attach_in_shape:
  "ArrowArrayViewSetArrayInternal v a = Some (None, v') \<Longrightarrow> in_shape v \<Longrightarrow> in_shape v'"
  "set_child_arrays vs arrays = Some (None, vs') \<Longrightarrow> list_all in_shape vs \<Longrightarrow>
     length vs' = length vs \<and> list_all in_shape vs'"
proof (induction v a and vs arrays arbitrary: v' and vs' rule: ArrowArrayViewSetArrayInternal_set_child_arrays.induct)
  case (2 d cs dictionary a)
  obtain d' r where d': "attach_array d a = Some (d', r)" using 2(3) by (auto split: option.splits)
  have c: "r = ar_n_buffers a" "int (length cs) = ar_n_children a"
    using 2(3) d' by (auto simp: fails_def split: if_splits)
  obtain cs' where cs': "set_child_arrays cs (ar_children a) = Some (None, cs')"
    using 2(3) d' c by (auto split: option.splits)
  have k: "length cs' = length cs" "list_all in_shape cs'"
    using 2(1) [OF d' refl] c cs' 2(4) by auto
  have n: "shaped d' (length cs)" "sized d'" using attached_node [OF _ _ d'] 2(4) by auto
  obtain dv where "v' = View d' cs' dv" "case dv of None \<Rightarrow> True | Some v \<Rightarrow> in_shape v"
  proof (cases "ar_dictionary a")
    case None
    then have "v' = View d' cs' None" using 2(3) d' c cs' by (auto simp: fails_def passes_def split: if_splits)
    then show ?thesis using that by simp
  next
    case (Some ad)
    then obtain w dv where "dictionary = Some w" "ArrowArrayViewSetArrayInternal w (Some ad) = Some (None, dv)"
      "v' = View d' cs' (Some dv)"
      using 2(3) d' c cs' by (auto simp: fails_def split: option.splits)
    moreover from this have "in_shape dv" using 2(2) [OF d' refl _ _ cs' refl _ Some] c 2(4) by auto
    ultimately show ?thesis using that by simp
  qed
  with k n show ?case by simp
next
  case (5 v vs a arrays)
  then show ?case by (auto split: option.splits prod.splits)
qed (auto simp: passes_def)

end
