(* ===== verification/Array_Properties.thy ===== *)
theory Array_Properties
  imports Array_Attach
begin

text \<open>
  The arrays a driver hands over, end to end: a view is made from the schema, the array is attached with
  default validation, validated in full and then read.
\<close>


definition lists_schema :: arrow_schema where
  "lists_schema = Schema (Some ''+l'') None None 2 1
     (Some [Some (Schema (Some ''i'') None None 2 0 None None)]) None"

text \<open>The lists 7, 8 and 9.\<close>

definition lists_array :: arrow_array where
  "lists_array = Array 2 0 0 2 1 [None, Some [0, 0, 0, 0, 2, 0, 0, 0, 3, 0, 0, 0]]
     [Some (Array 3 0 0 2 0 [None, Some [7, 0, 0, 0, 8, 0, 0, 0, 9, 0, 0, 0]] [] None)] None"

definition some_view :: schema_view where
  "some_view = \<lparr>vw_type = NANOARROW_TYPE_NA, vw_storage = NANOARROW_TYPE_NA,
     vw_layout = ArrowLayoutInit NANOARROW_TYPE_NA, vw_extension_name = null_view, vw_extension_metadata = null_view,
     vw_fixed_size = 0, vw_decimal_bitwidth = 0, vw_decimal_precision = 0, vw_decimal_scale = 0,
     vw_time_unit = NANOARROW_TIME_UNIT_SECOND, vw_timezone = [], vw_union_type_ids = []\<rparr>"

definition lists_view :: array_view where
  "lists_view = snd (the (ArrowArrayViewInitFromSchema some_view
     (ArrowArrayViewInitFromType NANOARROW_TYPE_UNINITIALIZED) (Some lists_schema)))"

lemma lists_view: "ArrowArrayViewInitFromSchema some_view
    (ArrowArrayViewInitFromType NANOARROW_TYPE_UNINITIALIZED) (Some lists_schema) = Some (None, lists_view)"
  by code_simp

definition lists_attached :: array_view where
  "lists_attached = snd (the (ArrowArrayViewSetArrayInternal lists_view (Some lists_array)))"

lemma lists_attached:
  "ArrowArrayViewSetArrayInternal lists_view (Some lists_array) = Some (None, lists_attached)"
  by code_simp

lemma lists_required: "as_the_format_requires lists_attached"
  by code_simp

definition lists_valid :: array_view where
  "lists_valid = snd (the (ArrowArrayViewSetArray lists_view (Some lists_array)))"

lemma lists_valid:
  "ArrowArrayViewSetArray lists_view (Some lists_array) = Some (None, lists_valid)"
  by code_simp

lemma lists_passed:
  "ArrowArrayViewValidate lists_valid NANOARROW_VALIDATION_LEVEL_FULL = Some (None, lists_valid)"
  by code_simp


section \<open>What full validation lets through\<close>

definition one_number :: arrow_array where
  "one_number = Array 1 0 0 2 0 [None, Some [7, 0, 0, 0]] [] None"

text \<open>A dense union of one element, whose offset is one past the end of the child.\<close>

definition past_end :: "array_view checked" where
  "past_end =
     ok_then (ArrowArrayViewInitFromSchema some_view (ArrowArrayViewInitFromType NANOARROW_TYPE_UNINITIALIZED)
       (Some (Schema (Some ''+ud:0'') None None 2 1 (Some [Some (Schema (Some ''i'') None None 2 0 None None)]) None))) (\<lambda>v.
     ok_then (ArrowArrayViewSetArray v (Some (Array 1 0 0 2 1 [Some [0], Some [1, 0, 0, 0]] [Some one_number] None))) (\<lambda>v.
     ArrowArrayViewValidate v NANOARROW_VALIDATION_LEVEL_FULL))"

lemma union_offset_past_end:
  "\<exists>v. past_end = Some (None, v) \<and> ArrowArrayViewUnionChildOffset (av_data v) 0 = Some 1
     \<and> ArrowArrayViewGetIntUnsafe (av_data (hd (av_children v))) 1 = None"
proof -
  have "past_end = Some (None, snd (the past_end))" "ArrowArrayViewUnionChildOffset (av_data (snd (the past_end))) 0 = Some 1"
    "ArrowArrayViewGetIntUnsafe (av_data (hd (av_children (snd (the past_end))))) 1 = None"
    by code_simp+
  then show ?thesis by blast
qed

text \<open>A run-end encoded array of five elements and no runs.\<close>

definition no_runs :: "array_view checked" where
  "no_runs =
     ok_then (ArrowArrayViewInitFromSchema some_view (ArrowArrayViewInitFromType NANOARROW_TYPE_UNINITIALIZED)
       (Some (Schema (Some ''+r'') None None 2 2 (Some [Some (Schema (Some ''i'') None None 2 0 None None),
          Some (Schema (Some ''i'') None None 2 0 None None)]) None))) (\<lambda>v.
     ok_then (ArrowArrayViewSetArray v (Some (Array 5 0 0 0 2 []
         [Some (Array 0 0 0 2 0 [None, None] [] None), Some (Array 0 0 0 2 0 [None, None] [] None)] None))) (\<lambda>v.
     ArrowArrayViewValidate v NANOARROW_VALIDATION_LEVEL_FULL))"

lemma runs_missing: "\<exists>v. no_runs = Some (None, v) \<and> v_length (av_data v) = 5"
proof -
  have "no_runs = Some (None, snd (the no_runs))" "v_length (av_data (snd (the no_runs))) = 5" by code_simp+
  then show ?thesis by blast
qed

end
