(* ===== verification/Decimal_Properties.thy ===== *)
theory Decimal_Properties
  imports Arrow_Decimal Schema_Properties
begin

text \<open>
  Decimals as the numbers they stand for: reading digits gives the number written, cut to the width, and
  printing gives its numeral.
\<close>

unbundle bit_operations_syntax

section \<open>Numbers of several words\<close>

text \<open>Least significant word first.\<close>

fun number32 :: "32 word list \<Rightarrow> int" where
  "number32 [] = 0"
| "number32 (w # ws) = uint w + 2 ^ 32 * number32 ws"

fun number64 :: "64 word list \<Rightarrow> int" where
  "number64 [] = 0"
| "number64 (w # ws) = uint w + 2 ^ 64 * number64 ws"

lemma number32_range: "0 \<le> number32 ws \<and> number32 ws < 2 ^ (32 * length ws)"
proof (induction ws)
  case (Cons w ws)
  have "0 \<le> uint w" "uint w < 2 ^ 32" using uint_lt2p [of w] by simp_all
  moreover have "2 ^ 32 * (number32 ws + 1) \<le> 2 ^ 32 * 2 ^ (32 * length ws)"
    using Cons.IH by (intro mult_left_mono) simp_all
  moreover have "(2 :: int) ^ (32 * length (w # ws)) = 2 ^ 32 * 2 ^ (32 * length ws)" by (simp add: power_add)
  ultimately show ?case using Cons.IH by (simp add: algebra_simps)
qed simp

lemma number64_range: "0 \<le> number64 ws \<and> number64 ws < 2 ^ (64 * length ws)"
proof (induction ws)
  case (Cons w ws)
  have "0 \<le> uint w" "uint w < 2 ^ 64" using uint_lt2p [of w] by simp_all
  moreover have "2 ^ 64 * (number64 ws + 1) \<le> 2 ^ 64 * 2 ^ (64 * length ws)"
    using Cons.IH by (intro mult_left_mono) simp_all
  moreover have "(2 :: int) ^ (64 * length (w # ws)) = 2 ^ 64 * 2 ^ (64 * length ws)" by (simp add: power_add)
  ultimately show ?case using Cons.IH by (simp add: algebra_simps)
qed simp

text \<open>A digit and a carry.\<close>

lemma carry_on:
  fixes a b P Q :: int
  assumes "0 < P" "0 < Q"
  shows "a mod P + P * ((b + a div P) mod Q) = (a + P * b) mod (P * Q)"
proof -
  have "(a + P * b) mod (P * Q) = P * ((a + P * b) div P mod Q) + (a + P * b) mod P"
    using assms by (subst zmod_zmult2_eq) simp_all
  then show ?thesis using assms by (simp add: add.commute)
qed

lemma take_uint: "take_bit 64 (uint w) = uint w" for w :: "64 word"
  by (rule take_bit_int_eq_self) (use uint_lt2p [of w] in simp_all)

lemma long_division:
  fixes a b K P :: int
  assumes "K \<noteq> 0"
  shows "(a * P + b) div K = a div K * P + (a mod K * P + b) div K" "(a * P + b) mod K = (a mod K * P + b) mod K"
proof -
  define q r where "q = a div K" and "r = a mod K"
  then have "a = q * K + r" by simp
  then have "a * P + b = (r * P + b) + q * P * K" by (simp add: algebra_simps)
  then have e: "a * P + b = (a mod K * P + b) + a div K * P * K" by (simp only: q_def r_def)
  show "(a * P + b) div K = a div K * P + (a mod K * P + b) div K" "(a * P + b) mod K = (a mod K * P + b) mod K"
    using assms unfolding e by simp_all
qed

lemma thousand_million_pos: "(10 :: int) ^ 9 \<noteq> 0"
  by simp

lemma uint_pos: "w \<noteq> 0 \<Longrightarrow> 1 \<le> uint w"
  using uint_0_iff [of w] uint_ge_0 [of w] by linarith

lemma uint_low: "uint (w AND 0xFFFFFFFF) = uint w mod 2 ^ 32" for w :: "64 word"
proof -
  have "w AND 0xFFFFFFFF = take_bit 32 w" by (simp add: take_bit_eq_mask mask_eq_exp_minus_1)
  then show ?thesis by (simp only: unsigned_take_bit_eq) (simp add: take_bit_eq_mod)
qed

lemma uint_high: "uint (drop_bit 32 w) = uint w div 2 ^ 32" for w :: "64 word"
  by (subst unsigned_drop_bit_eq) (simp add: drop_bit_eq_div take_uint)

lemma low_half: "uint (ucast (w AND 0xFFFFFFFF) :: 32 word) = uint w mod 2 ^ 32" for w :: "64 word"
proof -
  have "uint (ucast (w AND 0xFFFFFFFF) :: 32 word) = take_bit 32 (uint w mod 2 ^ 32)"
    by (simp only: unsigned_ucast_eq uint_low) simp
  then show ?thesis by (simp add: take_bit_eq_mod)
qed

lemma high_half: "uint (ucast (drop_bit 32 w) :: 32 word) = uint w div 2 ^ 32" for w :: "64 word"
proof -
  have "uint w div 2 ^ 32 < 2 ^ 32" using uint_lt2p [of w] by (simp add: div_less_iff_less_mult)
  moreover note uint_high [of w]
  moreover have "0 \<le> uint w div 2 ^ 32" by (simp add: pos_imp_zdiv_nonneg_iff)
  ultimately show ?thesis by (simp add: unsigned_ucast_eq take_bit_int_eq_self)
qed

lemma joined:
  fixes a lo :: "64 word"
  assumes "uint a < 2 ^ 32" "uint lo < 2 ^ 32"
  shows "uint (push_bit 32 a OR lo) = uint a * 2 ^ 32 + uint lo"
proof -
  have "uint a * 2 ^ 32 < 2 ^ 64" using assms(1) by simp
  then have "uint (push_bit 32 a) = push_bit 32 (uint a)"
    by (subst unsigned_push_bit_eq) (simp add: push_bit_eq_mult take_bit_int_eq_self)
  then have "uint (push_bit 32 a OR lo) = concat_bit 32 (uint lo) (uint a)"
    using assms(2) by (simp add: unsigned_or_eq concat_bit_def or.commute take_bit_int_eq_self)
  then show ?thesis using assms(2) by (simp add: concat_bit_eq take_bit_int_eq_self push_bit_eq_mult)
qed

lemma ucast32: "uint (ucast (w :: 32 word) :: 64 word) = uint w" "uint (ucast (w :: 32 word) :: 64 word) < 2 ^ 32"
  using uint_lt2p [of w] by (simp_all add: unsigned_ucast_eq take_bit_int_eq_self)

section \<open>Reading\<close>

lemma multiply_add:
  assumes "uint m \<le> 10 ^ 9"
  shows "number32 (multiply_add m c ws) = (number32 ws * uint m + uint c) mod 2 ^ (32 * length ws)
    \<and> length (multiply_add m c ws) = length ws"
proof (induction ws arbitrary: c)
  case (Cons w ws)
  define t where "t = ucast w * m + ucast c"
  have "uint w * uint m \<le> (2 ^ 32 - 1) * 10 ^ 9"
    using uint_lt2p [of w] assms by (intro mult_mono) simp_all
  moreover have "uint c < 2 ^ 32" using uint_lt2p [of c] by simp
  ultimately have "uint w * uint m + uint c < 2 ^ 64" by simp
  then have t: "uint t = uint w * uint m + uint c"
    by (simp add: t_def uint_word_ariths ucast32 mod_add_left_eq mod_pos_pos_trivial del: mod_mod_trivial)
  let ?P = "2 ^ 32 :: int" and ?Q = "2 ^ (32 * length ws) :: int"
  have "number32 (multiply_add m c (w # ws)) =
      uint t mod ?P + ?P * ((number32 ws * uint m + uint t div ?P) mod ?Q)"
    using Cons.IH [of "ucast (drop_bit 32 t)"] low_half [of t] high_half [of t] by (simp add: t_def [symmetric] Let_def)
  also have "... = (uint t + ?P * (number32 ws * uint m)) mod (?P * ?Q)" by (rule carry_on) simp_all
  also have "... = (number32 (w # ws) * uint m + uint c) mod 2 ^ (32 * length (w # ws))"
    by (simp add: t power_add algebra_simps)
  finally show ?case using Cons.IH by (simp add: Let_def)
qed simp

lemma digits_value_append: "digits_value (xs @ ys) = digits_value xs * 10 ^ length ys + digits_value ys"
proof (induction ys rule: rev_induct)
  case (snoc y ys)
  have "digits_value (xs @ ys @ [y]) = 10 * digits_value (xs @ ys) + (of_char y - 48)"
    using digits_value_snoc [of "xs @ ys" y] by simp
  then show ?case using snoc.IH by (simp add: digits_value_snoc algebra_simps)
qed (simp add: digits_value_def)

lemma digits_value_less: "list_all isdigit ds \<Longrightarrow> digits_value ds < 10 ^ length ds"
proof (induction ds rule: rev_induct)
  case (snoc c cs)
  then have "digits_value cs < 10 ^ length cs" "of_char c < (58 :: nat)" by (auto simp: isdigit_def less_Suc_eq_le)
  then show ?case by (simp add: digits_value_snoc)
qed (simp add: digits_value_def)

lemma strtol_digits:
  assumes "list_all isdigit ds" "ds \<noteq> []" "length ds \<le> 9"
  shows "strtol ds = (int (digits_value ds), [])"
proof -
  obtain c cs where ds: "ds = c # cs" using assms(2) by (cases ds) auto
  then have c: "\<not> isspace c" "c \<noteq> CHR ''-''" "c \<noteq> CHR ''+''" using assms(1) isdigit_not_space [of c] by simp_all
  have td: "takeWhile isdigit ds = ds" "dropWhile isdigit ds = []" using assms(1) by (auto simp: list_all_iff takeWhile_eq_all_conv)
  have "(10 :: nat) ^ length ds \<le> 10 ^ 9" using assms(3) by (rule power_increasing) simp
  then have "clamp_long (int (digits_value ds)) = int (digits_value ds)"
    using digits_value_less [OF assms(1)] by (simp add: clamp_long_def)
  moreover have "dropWhile isspace ds = ds" "hd ds = c" using ds c by simp_all
  ultimately show ?thesis by (simp add: strtol_def td c assms(2))
qed

lemma powers_of_ten:
  assumes "k \<le> 9"
  shows "uint (kUInt32PowersOfTen ! k) = 10 ^ k"
proof -
  have "list_all (\<lambda>k. uint (kUInt32PowersOfTen ! k) = 10 ^ k) [0..<10]" by code_simp
  then show ?thesis using assms by (simp add: list_all_iff)
qed

lemma mod_step: "((a mod m) * b + c) mod m = (a * b + c) mod m" for a b c m :: int
  by (metis mod_add_left_eq mod_mult_left_eq)

lemma ShiftAndAdd:
  "list_all isdigit (text_of ds) \<Longrightarrow>
     number32 (ShiftAndAdd ds ws) = (number32 ws * 10 ^ length ds + int (digits_value (text_of ds))) mod 2 ^ (32 * length ws)
     \<and> length (ShiftAndAdd ds ws) = length ws"
proof (induction ds ws rule: ShiftAndAdd.induct)
  case (1 ds ws)
  show ?case
  proof (cases "ds = []")
    case True
    then show ?thesis using number32_range [of ws]
      by (simp add: ShiftAndAdd.simps [of _ ws] text_of_def digits_value_def mod_pos_pos_trivial)
  next
    case False
    define k where "k = (if length ds > 9 then 9 else length ds)"
    let ?g = "text_of (take k ds)" and ?rest = "text_of (drop k ds)"
    define m where "m = kUInt32PowersOfTen ! k"
    define c where "c = (word_of_int (fst (strtol ?g)) :: 32 word)"
    have s: "ShiftAndAdd ds ws = ShiftAndAdd (drop k ds) (multiply_add m c ws)"
      using False by (subst ShiftAndAdd.simps) (simp add: k_def m_def c_def Let_def)
    have k: "0 < k" "k \<le> 9" "k \<le> length ds" using False by (auto simp: k_def)
    have t: "text_of ds = ?g @ ?rest" by (simp add: text_of_def flip: map_append)
    then have g: "list_all isdigit ?g" "list_all isdigit ?rest" using 1(2) by simp_all
    have l: "length ?g = k" "length ?rest = length ds - k" using k by (simp_all add: text_of_def)
    have m: "uint m = 10 ^ k" unfolding m_def by (rule powers_of_ten) (rule k)
    have "(10 :: nat) ^ k \<le> 10 ^ 9" using k by (intro power_increasing) simp_all
    then have v: "int (digits_value ?g) < 2 ^ 32" using digits_value_less [OF g(1)] l by simp
    have "?g \<noteq> []" using l(1) k(1) by auto
    then have "fst (strtol ?g) = int (digits_value ?g)" using strtol_digits [OF g(1)] l k by simp
    then have c: "uint c = int (digits_value ?g)"
      using v unfolding c_def by (simp only: uint_word_of_int) (simp add: mod_pos_pos_trivial)
    have "uint m \<le> 10 ^ 9" unfolding m using k(2) by (intro power_increasing) simp_all
    note M = multiply_add [OF this, of c ws]
    have "number32 (ShiftAndAdd ds ws) = (number32 (multiply_add m c ws) * 10 ^ (length ds - k) + int (digits_value ?rest)) mod 2 ^ (32 * length ws)"
      "length (ShiftAndAdd ds ws) = length ws"
      unfolding s using 1(1) [OF False k_def m_def c_def] g(2) M by simp_all
    moreover have "(number32 ws * 10 ^ k + int (digits_value ?g)) * 10 ^ (length ds - k) + int (digits_value ?rest)
        = number32 ws * 10 ^ length ds + int (digits_value (text_of ds))"
      using k l by (simp add: t digits_value_append algebra_simps flip: power_add)
    ultimately show ?thesis using M by (simp add: mod_step m c)
  qed
qed

lemma pair_words: "even (length ws) \<Longrightarrow> number64 (pair_words ws) = number32 ws \<and> length (pair_words ws) = length ws div 2"
proof (induction ws rule: pair_words.induct)
  case (1 lo hi ws)
  have "uint (ucast lo OR push_bit 32 (ucast hi) :: 64 word) = uint hi * 2 ^ 32 + uint lo"
    using joined [of "ucast hi" "ucast lo"] ucast32 by (simp add: or.commute)
  then show ?case using 1 by (simp add: algebra_simps)
qed simp_all

lemma negate_words:
  "c \<in> {0, 1} \<Longrightarrow> number64 (negate_words c ws) = (2 ^ (64 * length ws) - 1 - number64 ws + uint c) mod 2 ^ (64 * length ws)
     \<and> length (negate_words c ws) = length ws"
proof (induction ws arbitrary: c)
  case (Cons w ws)
  define e where "e = NOT w + c"
  define c' where "c' = (c AND (if e = 0 then 1 else 0))"
  let ?P = "2 ^ 64 :: int" and ?Q = "2 ^ (64 * length ws) :: int"
  have c: "uint c \<in> {0, 1}" using Cons.prems by auto
  have n: "uint (NOT w) = ?P - 1 - uint w"
    by (subst unsigned_not_eq) (simp add: take_bit_not_eq_mask_diff mask_eq_exp_minus_1 take_uint)
  then have e: "uint e = (?P - 1 - uint w + uint c) mod ?P" unfolding e_def by (subst uint_word_ariths) (simp add: n)
  have w: "0 \<le> uint w" "uint w < ?P" using uint_lt2p [of w] by simp_all
  have c': "c' \<in> {0, 1}" "uint c' = (?P - 1 - uint w + uint c) div ?P"
  proof -
    have "e = 0 \<longleftrightarrow> uint e = 0" by (simp add: uint_0_iff)
    then have z: "c = 1 \<Longrightarrow> e = 0 \<longleftrightarrow> uint w = 0" using e w zdvd_imp_le [of ?P "uint w"] by (auto simp: le_less)
    show "c' \<in> {0, 1}" using Cons.prems by (auto simp: c'_def)
    consider "c = 0" | "c = 1" "uint w = 0" | "c = 1" "0 < uint w" using Cons.prems w(1) by (auto simp: le_less)
    then show "uint c' = (?P - 1 - uint w + uint c) div ?P"
    proof cases
      case 1
      have "(?P - 1 - uint w) div ?P = 0" using w by (intro div_pos_pos_trivial) linarith+
      then show ?thesis by (simp add: 1 c'_def)
    next
      case 2
      then show ?thesis using z by (simp add: c'_def)
    next
      case 3
      have "(?P - 1 - uint w + 1) div ?P = 0" using w 3(2) by (intro div_pos_pos_trivial) linarith+
      then show ?thesis using 3 z by (simp add: c'_def)
    qed
  qed
  have "number64 (negate_words c (w # ws)) = (?P - 1 - uint w + uint c) mod ?P
      + ?P * ((?Q - 1 - number64 ws + (?P - 1 - uint w + uint c) div ?P) mod ?Q)"
    using Cons.IH [OF c'(1)] by (simp add: e_def [symmetric] c'_def [symmetric] Let_def e c'(2))
  also have "... = (?P - 1 - uint w + uint c + ?P * (?Q - 1 - number64 ws)) mod (?P * ?Q)" by (rule carry_on) simp_all
  also have "... = (2 ^ (64 * length (w # ws)) - 1 - number64 (w # ws) + uint c) mod 2 ^ (64 * length (w # ws))"
    by (simp add: power_add algebra_simps)
  finally show ?case using Cons.IH [OF c'(1)] by (simp add: e_def [symmetric] c'_def [symmetric] Let_def)
qed simp

section \<open>Decimals\<close>

text \<open>The bits of a decimal, its bits as a number, and that number as two's complement.\<close>

definition decimal_width :: "arrow_decimal \<Rightarrow> nat" where
  "decimal_width d = (if dc_n_words d = 0 then 32 else 64 * dc_n_words d)"

definition unsigned_value :: "arrow_decimal \<Rightarrow> int" where
  "unsigned_value d = (if dc_n_words d = 0 then uint (low32 d) else number64 (take (dc_n_words d) (dc_words d)))"

text \<open>A number cut to a width.\<close>

definition wrapped :: "nat \<Rightarrow> int \<Rightarrow> int" where
  "wrapped n i = (i + 2 ^ (n - 1)) mod 2 ^ n - 2 ^ (n - 1)"

definition decimal_value :: "arrow_decimal \<Rightarrow> int" where
  "decimal_value d = wrapped (decimal_width d) (unsigned_value d)"

definition decimal_ok :: "arrow_decimal \<Rightarrow> bool" where
  "decimal_ok d \<longleftrightarrow> dc_n_words d \<in> {0, 1, 2, 4} \<and> length (dc_words d) = 4 \<and> dc_low_word_index d = 0
     \<and> dc_high_word_index d = dc_n_words d - 1"

lemma decimal_ok_Init:
  "bitwidth \<in> {32, 64, 128, 256} \<Longrightarrow> decimal_ok (ArrowDecimalInit bitwidth p s) \<and> decimal_width (ArrowDecimalInit bitwidth p s) = bitwidth"
  by (auto simp: decimal_ok_def decimal_width_def ArrowDecimalInit_def)

lemma wrapped_mod: "wrapped n (i mod 2 ^ n) = wrapped n i"
  by (simp add: wrapped_def mod_add_left_eq)

lemma wrapped_same:
  assumes "0 < n" "- (2 ^ (n - 1)) \<le> i" "i < 2 ^ (n - 1)"
  shows "wrapped n i = i"
proof -
  have "(2 :: int) ^ n = 2 * 2 ^ (n - 1)" using assms(1) by (cases n) simp_all
  then show ?thesis using assms(2,3) by (simp add: wrapped_def mod_pos_pos_trivial)
qed

lemma mask32: "(0xFFFFFFFF :: 64 word) = mask 32"
  by (simp add: mask_eq_exp_minus_1)

lemma low32_set: "length (dc_words d) = 4 \<Longrightarrow> low32 (set_low32 w d) = w"
  unfolding set_low32_def mask32 by (rule bit_word_eqI) (auto simp: low32_def bit_simps)

lemma set_low32_ok: "decimal_ok (set_low32 w d) = decimal_ok d" "dc_n_words (set_low32 w d) = dc_n_words d"
  "decimal_width (set_low32 w d) = decimal_width d"
  by (simp_all add: decimal_ok_def set_low32_def decimal_width_def)

lemma negated:
  assumes "decimal_ok d" "dc_n_words d = 0 \<Longrightarrow> unsigned_value d \<noteq> 2 ^ 31"
  shows "\<exists>d'. ArrowDecimalNegate d = Some d' \<and> decimal_ok d' \<and> decimal_width d' = decimal_width d
    \<and> unsigned_value d' = (- unsigned_value d) mod 2 ^ decimal_width d"
proof (cases "dc_n_words d = 0")
  case True
  have l: "length (dc_words d) = 4" using assms(1) by (simp add: decimal_ok_def)
  have "sint (low32 d) \<noteq> - (2 ^ 31)"
  proof
    assume "sint (low32 d) = - (2 ^ 31)"
    then have "word_of_int (sint (low32 d)) = (word_of_int (- (2 ^ 31)) :: 32 word)" by simp
    then have "low32 d = word_of_int (- (2 ^ 31))" by simp
    then have "uint (low32 d) = 2 ^ 31" by simp
    then show False using assms(2) True by (simp add: unsigned_value_def)
  qed
  moreover have "uint (- low32 d) = (- uint (low32 d)) mod 2 ^ 32" by (subst uint_word_ariths) simp
  ultimately show ?thesis
    using True assms(1) l by (simp add: ArrowDecimalNegate_def set_low32_ok unsigned_value_def low32_set decimal_width_def)
next
  case False
  let ?ws = "take (dc_n_words d) (dc_words d)"
  have l: "length ?ws = dc_n_words d" "dc_n_words d \<le> 4" "length (dc_words d) = 4"
    using assms(1) by (auto simp: decimal_ok_def)
  have "number64 (negate_words 1 ?ws) = (- number64 ?ws) mod 2 ^ (64 * dc_n_words d)"
    using negate_words [of 1 ?ws] l(1) by (simp add: mod_diff_left_eq flip: mod_diff_left_eq)
  then show ?thesis
    using False assms(1) l negate_words [of 1 ?ws]
    by (simp add: ArrowDecimalNegate_def decimal_ok_def unsigned_value_def decimal_width_def)
qed

section \<open>Setting the digits\<close>

abbreviation bytes_of :: "string \<Rightarrow> byte list" where
  "bytes_of s \<equiv> map of_char s"

lemma unat_byte: "unat (of_char c :: byte) = of_char c"
proof -
  have "(of_char c :: byte) = of_nat (of_char c)" by (rule of_nat_of_char [symmetric])
  then have "unat (of_char c :: byte) = of_char c mod 256" by (simp only: unat_of_nat) simp
  then show ?thesis by simp
qed

lemma text_of_bytes [simp]: "text_of (bytes_of s) = s"
  by (simp add: text_of_def unat_byte map_idI)

lemma digit_byte: "isdigit c \<Longrightarrow> \<not> (of_char c :: byte) < 48 \<and> \<not> (of_char c :: byte) > 57"
  by (simp add: word_less_nat_alt unat_byte isdigit_def not_less)

lemma byte_is: "(of_char c :: byte) = of_char d \<longleftrightarrow> c = d"
  using of_char_eq_iff [of c d, where 'a = nat] unat_byte [of c] unat_byte [of d] by metis

lemma zero_byte: "(of_char c :: byte) = 48 \<longleftrightarrow> c = CHR ''0''"
  using byte_is [of c "CHR ''0''"] by simp

lemma all_digits: "list_all isdigit ds \<Longrightarrow> all_digits (bytes_of ds @ rest) (length ds) = Some True"
  by (induction ds) (simp_all add: digit_byte)

lemma leading_zeros:
  "dropWhile (\<lambda>c. c = 48) (bytes_of ds) = bytes_of (dropWhile (\<lambda>c. c = CHR ''0'') ds)"
  by (induction ds) (simp_all add: zero_byte)

lemma leading_zeros_value: "digits_value (dropWhile (\<lambda>c. c = CHR ''0'') ds) = digits_value ds"
proof (induction ds)
  case (Cons c cs)
  have "digits_value (CHR ''0'' # cs) = digits_value cs" by (simp add: digits_value_def)
  then show ?case using Cons by simp
qed simp

lemma number32_zeros: "number32 (replicate n 0) = 0"
  by (induction n) simp_all

text \<open>The digits without the sign.\<close>

definition with_digits :: "arrow_decimal \<Rightarrow> 32 word list \<Rightarrow> arrow_decimal" where
  "with_digits d words32 =
     (if dc_n_words d > 0 then d\<lparr>dc_words := pair_words words32 @ drop (dc_n_words d) (dc_words d)\<rparr>
      else set_low32 (hd words32) d)"

lemma with_digits:
  assumes "decimal_ok d" "length ws = (if dc_n_words d > 0 then dc_n_words d * 2 else 1)"
  shows "decimal_ok (with_digits d ws) \<and> decimal_width (with_digits d ws) = decimal_width d
    \<and> unsigned_value (with_digits d ws) = number32 ws"
proof (cases "dc_n_words d = 0")
  case True
  then obtain w where "ws = [w]" using assms(2) by (auto simp: length_Suc_conv)
  moreover have "length (dc_words d) = 4" using assms(1) by (simp add: decimal_ok_def)
  ultimately show ?thesis
    using True assms(1) by (simp add: with_digits_def set_low32_ok unsigned_value_def low32_set)
next
  case False
  then have "number64 (pair_words ws) = number32 ws" "length (pair_words ws) = dc_n_words d"
    using pair_words [of ws] assms(2) by simp_all
  moreover have "dc_n_words d \<le> 4" "length (dc_words d) = 4" using assms(1) by (auto simp: decimal_ok_def)
  ultimately show ?thesis
    using False assms(1) by (simp add: with_digits_def decimal_ok_def decimal_width_def unsigned_value_def)
qed

lemma set_digits:
  assumes d: "decimal_ok d" and ds: "list_all isdigit ds" and sign: "sign \<in> {[], ''-'', ''+''}" "sign @ ds \<noteq> []"
    and v: "v = (if sign = ''-'' then - 1 else 1) * int (digits_value ds)"
    and min: "\<not> (dc_n_words d = 0 \<and> sign = ''-'' \<and> v mod 2 ^ 32 = 2 ^ 31)"
  shows "\<exists>d'. ArrowDecimalSetDigits d \<lparr>sv_data = Some (bytes_of (sign @ ds) @ rest), sv_size = int (length (sign @ ds))\<rparr>
      = Some (NANOARROW_OK, d') \<and> decimal_ok d' \<and> decimal_width d' = decimal_width d
    \<and> decimal_value d' = wrapped (decimal_width d) v"
proof -
  let ?zs = "dropWhile (\<lambda>c. c = CHR ''0'') ds"
  define n where "n = (if dc_n_words d > 0 then dc_n_words d * 2 else 1)"
  define ws where "ws = ShiftAndAdd (bytes_of ?zs) (replicate n 0)"
  define d1 where "d1 = with_digits d ws"
  have w: "decimal_width d = 32 * n" by (auto simp: decimal_width_def n_def)
  have "list_all isdigit ?zs" using ds by (auto simp: list_all_iff dest: set_dropWhileD)
  then have ws: "number32 ws = int (digits_value ds) mod 2 ^ (32 * n)" "length ws = n"
    using ShiftAndAdd [of "bytes_of ?zs" "replicate n 0"] by (simp_all add: ws_def leading_zeros_value number32_zeros)
  have d1: "decimal_ok d1" "decimal_width d1 = decimal_width d"
    "unsigned_value d1 = int (digits_value ds) mod 2 ^ decimal_width d"
    using with_digits [OF d, of ws] ws w by (simp_all add: d1_def n_def)
  obtain first memory where f: "bytes_of (sign @ ds) @ rest = first # memory"
    using sign(2) by (cases "sign @ ds") auto
  have s: "first = 45 \<longleftrightarrow> sign = ''-''"
    "drop (if first = 45 \<or> first = 43 then 1 else 0) (first # memory) = bytes_of ds @ rest"
    "nat (int (length (sign @ ds)) - int (if first = 45 \<or> first = 43 then 1 else 0)) = length ds"
  proof -
    have "first = 45 \<longleftrightarrow> sign = ''-''" "first = 43 \<longleftrightarrow> sign = ''+''"
      using f sign ds byte_is [of _ "CHR ''-''"] byte_is [of _ "CHR ''+''"] isdigit_not_space
      by (cases ds; fastforce)+
    then show "first = 45 \<longleftrightarrow> sign = ''-''"
      "drop (if first = 45 \<or> first = 43 then 1 else 0) (first # memory) = bytes_of ds @ rest"
      "nat (int (length (sign @ ds)) - int (if first = 45 \<or> first = 43 then 1 else 0)) = length ds"
      using f [symmetric] sign(1) by auto
  qed
  have S: "ArrowDecimalSetDigits d \<lparr>sv_data = Some (bytes_of (sign @ ds) @ rest), sv_size = int (length (sign @ ds))\<rparr>
      = (if sign = ''-'' then map_option (Pair NANOARROW_OK) (ArrowDecimalNegate d1) else Some (NANOARROW_OK, d1))"
    unfolding ArrowDecimalSetDigits_def Let_def string_view.simps f Option.bind.simps list.case s(2,3) all_digits [OF ds]
    using s(1) by (simp add: leading_zeros d1_def with_digits_def ws_def n_def)
  have pos: "0 < decimal_width d" by (simp add: decimal_width_def)
  show ?thesis
  proof (cases "sign = ''-''")
    case True
    have "int (digits_value ds) = - v" using v True by simp
    then have u: "unsigned_value d1 = (- v) mod 2 ^ decimal_width d" using d1(3) by simp
    have "unsigned_value d1 \<noteq> 2 ^ 31" if "dc_n_words d1 = 0"
    proof
      assume "unsigned_value d1 = 2 ^ 31"
      moreover have "decimal_width d = 32" using that d1(2) by (simp add: decimal_width_def split: if_splits)
      ultimately have "(- v) mod 2 ^ 32 = 2 ^ 31" using u by simp
      then have "v mod 2 ^ 32 = (- (2 ^ 31)) mod 2 ^ 32" by (metis add.inverse_inverse mod_minus_eq)
      moreover have "dc_n_words d = 0" using \<open>decimal_width d = 32\<close> by (auto simp: decimal_width_def split: if_splits)
      ultimately show False using min True by simp
    qed
    with negated [OF d1(1)] obtain d' where d': "ArrowDecimalNegate d1 = Some d'" "decimal_ok d'"
      "decimal_width d' = decimal_width d1" "unsigned_value d' = (- unsigned_value d1) mod 2 ^ decimal_width d1" by blast
    have "unsigned_value d' = v mod 2 ^ decimal_width d"
      using d'(4) d1(2) by (simp add: u mod_minus_eq)
    then have "decimal_value d' = wrapped (decimal_width d) v"
      using d'(3) d1(2) by (simp add: decimal_value_def wrapped_mod)
    then show ?thesis using S True d' d1(2) by simp
  next
    case False
    then have "decimal_value d1 = wrapped (decimal_width d) v"
      using d1(2,3) v by (simp add: decimal_value_def wrapped_mod)
    then show ?thesis using S False d1(1,2) by simp
  qed
qed

section \<open>Printing the digits\<close>

text \<open>Words with the most significant one first, as the division goes through them.\<close>

fun number_msf :: "64 word list \<Rightarrow> int" where
  "number_msf [] = 0"
| "number_msf (w # ws) = uint w * 2 ^ (64 * length ws) + number_msf ws"

lemma number_msf_append: "number_msf (us @ vs) = number_msf us * 2 ^ (64 * length vs) + number_msf vs"
  by (induction us) (simp_all add: power_add algebra_simps)

lemma number_msf_rev: "number_msf (rev ws) = number64 ws"
  by (induction ws) (simp_all add: number_msf_append)

lemma number_msf_range: "0 \<le> number_msf ws \<and> number_msf ws < 2 ^ (64 * length ws)"
  using number64_range [of "rev ws"] number_msf_rev [of "rev ws"] by simp

lemma number_msf_zeros: "number_msf (dropWhile (\<lambda>w. w = 0) ws) = number_msf ws"
  by (induction ws) simp_all

lemma divide_word:
  assumes "uint r < 10 ^ 9" "divide_word r w = (q, r')"
  shows "uint q = (uint r * 2 ^ 64 + uint w) div 10 ^ 9 \<and> uint r' = (uint r * 2 ^ 64 + uint w) mod 10 ^ 9"
proof -
  define k :: "64 word" where "k = 1000000000"
  have k: "uint k = 10 ^ 9" by (simp add: k_def)
  define hi where "hi = uint w div 2 ^ 32"
  define lo where "lo = uint w mod 2 ^ 32"
  have w: "uint w = hi * 2 ^ 32 + lo" "0 \<le> hi" "hi < 2 ^ 32" "0 \<le> lo" "lo < 2 ^ 32"
    using uint_lt2p [of w] by (simp_all add: hi_def lo_def div_less_iff_less_mult pos_imp_zdiv_nonneg_iff)
  have step: "uint (push_bit 32 (ucast s) OR x) = uint s * 2 ^ 32 + uint x" if "uint x < 2 ^ 32" for s :: "32 word" and x :: "64 word"
    using joined [of "ucast s" x] ucast32 that by simp
  have H: "uint (drop_bit 32 w) = hi" "uint (w AND 0xFFFFFFFF) = lo" using uint_high [of w] uint_low [of w] by (simp_all add: hi_def lo_def)
  have mod: "uint (ucast (x mod k) :: 32 word) = uint x mod 10 ^ 9" for x :: "64 word"
  proof -
    have "uint (x mod k) = uint x mod 10 ^ 9" by (simp only: uint_mod k)
    moreover have "0 \<le> uint x mod 10 ^ 9" "uint x mod 10 ^ 9 < (2 :: int) ^ 32"
      using pos_mod_bound [of "10 ^ 9" "uint x"] by simp_all
    ultimately show ?thesis by (simp add: unsigned_ucast_eq take_bit_int_eq_self)
  qed
  have small: "uint x div 10 ^ 9 < 2 ^ 32" if "uint x < 10 ^ 9 * 2 ^ 32" for x :: "64 word"
    using that by (simp add: div_less_iff_less_mult)
  define dh where "dh = push_bit 32 (ucast r) OR drop_bit 32 w"
  have dh: "uint dh = uint r * 2 ^ 32 + hi" using step [of "drop_bit 32 w" r] H w by (simp add: dh_def)
  define r1 where "r1 = (ucast (dh mod k) :: 32 word)"
  have r1: "uint r1 = uint dh mod 10 ^ 9" by (simp only: r1_def mod)
  then have r1s: "uint r1 < 10 ^ 9" by simp
  define dl where "dl = push_bit 32 (ucast r1) OR (w AND 0xFFFFFFFF)"
  have dl: "uint dl = uint r1 * 2 ^ 32 + lo" using step [of "w AND 0xFFFFFFFF" r1] H w by (simp add: dl_def)
  have q: "q = push_bit 32 (dh div k) OR (dl div k)" "r' = ucast (dl mod k)"
    using assms(2) by (simp_all add: divide_word_def Let_def dh_def r1_def dl_def k_def)
  have "uint dh < 10 ^ 9 * 2 ^ 32" "uint dl < 10 ^ 9 * 2 ^ 32" using dh dl assms(1) r1s w by simp_all
  then have "uint (dh div k) < 2 ^ 32" "uint (dl div k) < 2 ^ 32" using small by (simp_all only: uint_div k)
  then have uq: "uint q = uint dh div 10 ^ 9 * 2 ^ 32 + uint dl div 10 ^ 9"
    using joined [of "dh div k" "dl div k"] by (simp only: q uint_div k)
  have e: "uint r * 2 ^ 64 + uint w = uint dh * 2 ^ 32 + lo" using dh w by simp
  have "uint r' = uint dl mod 10 ^ 9" by (simp only: q mod)
  moreover have "uint dl = uint dh mod 10 ^ 9 * 2 ^ 32 + lo" by (simp only: dl r1)
  ultimately show ?thesis by (simp only: e uq long_division [OF thousand_million_pos, of "uint dh" "2 ^ 32" lo] simp_thms)
qed

lemma divide_words:
  assumes "uint r < 10 ^ 9" "divide_words r ws = (qs, r')"
  shows "number_msf qs = (uint r * 2 ^ (64 * length ws) + number_msf ws) div 10 ^ 9
    \<and> uint r' = (uint r * 2 ^ (64 * length ws) + number_msf ws) mod 10 ^ 9 \<and> length qs = length ws"
  using assms
proof (induction r ws arbitrary: qs r' rule: divide_words.induct)
  case (2 r w ws)
  obtain q s where q: "divide_word r w = (q, s)" by force
  obtain ps where ps: "divide_words s ws = (ps, r')" "qs = q # ps" using 2(3) q by (auto split: prod.splits)
  note D = divide_word [OF 2(2) q]
  let ?a = "uint r * 2 ^ 64 + uint w" and ?P = "2 ^ (64 * length ws) :: int"
  have "uint s < 10 ^ 9" using D by simp
  note IH = 2(1) [OF refl q [symmetric] this ps(1)]
  have e: "uint r * 2 ^ (64 * length (w # ws)) + number_msf (w # ws) = ?a * ?P + number_msf ws"
    by (simp add: power_add algebra_simps)
  have "number_msf qs = ?a div 10 ^ 9 * ?P + (?a mod 10 ^ 9 * ?P + number_msf ws) div 10 ^ 9"
    "uint r' = (?a mod 10 ^ 9 * ?P + number_msf ws) mod 10 ^ 9" "length qs = length (w # ws)"
    using IH D by (simp_all only: ps(2) number_msf.simps list.size)
  then show ?case unfolding e by (simp only: long_division [OF thousand_million_pos, of ?a ?P "number_msf ws"] simp_thms)
qed (simp add: mod_pos_pos_trivial)

text \<open>The digits of a number to the base of a thousand million, least significant first.\<close>

fun thousand_millions :: "nat \<Rightarrow> nat list" where
  "thousand_millions n = (if n < 10 ^ 9 then [n] else n mod 10 ^ 9 # thousand_millions (n div 10 ^ 9))"

declare thousand_millions.simps [simp del]

lemma top_word_left:
  assumes "number_msf (w # ws) = n" "ws \<noteq> []" "w \<noteq> 0" "number_msf (0 # qs) = n div 10 ^ 9" "length qs = length ws"
  shows "hd qs \<noteq> 0"
proof
  assume z: "hd qs = 0"
  obtain v vs where qs: "qs = v # vs" using assms(2,5) by (cases qs) auto
  let ?P = "2 ^ (64 * length vs) :: int"
  have "n div 10 ^ 9 < ?P" using assms(4) z qs number_msf_range [of vs] by simp
  then have "n < ?P * 10 ^ 9" by (simp add: div_less_iff_less_mult)
  also have "... \<le> ?P * 2 ^ 64" by simp
  also have "... = 2 ^ (64 * length ws)" using assms(5) qs by (simp add: power_add flip: assms(5))
  also have "... \<le> uint w * 2 ^ (64 * length ws)" using uint_pos [OF assms(3)] by simp
  also have "... \<le> n" using assms(1) number_msf_range [of ws] by simp
  finally show False by simp
qed

lemma digit_segments:
  "number_msf ws = int n \<Longrightarrow> ws \<noteq> [] \<Longrightarrow> hd ws \<noteq> 0 \<Longrightarrow> length segments + length (thousand_millions n) \<le> 9 \<Longrightarrow>
     digit_segments ws segments = Some (segments @ map of_nat (thousand_millions n))"
proof (induction n arbitrary: ws segments rule: thousand_millions.induct)
  case (1 n)
  obtain qs r where d: "divide_words 0 ws = (qs, r)" by force
  have D: "number_msf qs = int n div 10 ^ 9" "uint r = int n mod 10 ^ 9" "length qs = length ws"
    using divide_words [OF _ d] 1(2) by simp_all
  have r: "r = of_nat (n mod 10 ^ 9)"
  proof -
    have "uint r = int (n mod 10 ^ 9)" using D(2) by (simp add: zmod_int)
    then have "word_of_int (uint r) = (word_of_int (int (n mod 10 ^ 9)) :: 32 word)" by (rule arg_cong)
    then show ?thesis by (simp only: word_of_int_uint of_int_of_nat_eq)
  qed
  have l: "length segments < 9" using 1(5) by (simp add: thousand_millions.simps [of n] split: if_splits)
  obtain w us where ws: "ws = w # us" using 1(3) by (cases ws) auto
  obtain q ps where qs: "qs = q # ps" "length ps = length us" using D(3) ws by (cases qs) auto
  show ?case
  proof (cases "n < 10 ^ 9")
    case True
    have "us = []"
    proof (rule ccontr)
      assume "us \<noteq> []"
      have "1 * 2 ^ (64 * length us) \<le> uint w * 2 ^ (64 * length us)"
        using 1(4) ws by (intro mult_right_mono) (simp_all add: uint_pos)
      moreover have "(2 :: int) ^ 64 \<le> 2 ^ (64 * length us)"
        using \<open>us \<noteq> []\<close> by (intro power_increasing) (auto simp: Suc_le_eq)
      moreover have "int n = uint w * 2 ^ (64 * length us) + number_msf us" using 1(2) ws by simp
      moreover have "int n < 2 ^ 64" using True by simp
      ultimately show False using number_msf_range [of us] by linarith
    qed
    moreover have "uint q = 0" using D(1) True qs calculation by simp
    ultimately have "q = 0" "ps = []" using qs by (simp_all add: uint_0_iff)
    then show ?thesis using True l r d qs
      by (subst digit_segments.simps) (simp add: thousand_millions.simps [of n])
  next
    case False
    then have n: "0 < n div 10 ^ 9" "number_msf qs = int (n div 10 ^ 9)" using D(1) by (simp_all add: div_greater_zero_iff zdiv_int)
    have t: "thousand_millions n = n mod 10 ^ 9 # thousand_millions (n div 10 ^ 9)"
      using False by (simp add: thousand_millions.simps [of n])
    then have s: "length (segments @ [r]) + length (thousand_millions (n div 10 ^ 9)) \<le> 9" using 1(5) by simp
    show ?thesis
    proof (cases "q = 0")
      case True
      then have p: "number_msf ps = int (n div 10 ^ 9)" using n(2) qs by simp
      then have "ps \<noteq> []" using n(1) by auto
      moreover have "hd ps \<noteq> 0"
        by (rule top_word_left [of w us "int n"])
          (use 1(2,4) ws qs True D(1) calculation in \<open>auto simp: zdiv_int\<close>)
      ultimately have "digit_segments ps (segments @ [r]) = Some ((segments @ [r]) @ map of_nat (thousand_millions (n div 10 ^ 9)))"
        using 1(1) [OF False p _ _ s] by simp
      then show ?thesis using l d qs True \<open>ps \<noteq> []\<close> by (subst digit_segments.simps) (simp add: t r)
    next
      case q: False
      then have "digit_segments qs (segments @ [r]) = Some ((segments @ [r]) @ map of_nat (thousand_millions (n div 10 ^ 9)))"
        using 1(1) [OF False n(2) _ _ s] qs by simp
      then show ?thesis using l d qs q by (subst digit_segments.simps) (simp add: t r)
    qed
  qed
qed

lemma thousand_millions_length: "n < 10 ^ (9 * Suc k) \<Longrightarrow> length (thousand_millions n) \<le> Suc k"
proof (induction k arbitrary: n)
  case (Suc k)
  have "n div 10 ^ 9 < 10 ^ (9 * Suc k)" using Suc.prems by (simp add: div_less_iff_less_mult power_add)
  then show ?case using Suc.IH [of "n div 10 ^ 9"] by (simp add: thousand_millions.simps [of n])
qed (simp add: thousand_millions.simps)

section \<open>Numerals\<close>

fun last_digits :: "nat \<Rightarrow> nat \<Rightarrow> string" where
  "last_digits 0 n = []"
| "last_digits (Suc k) n = last_digits k (n div 10) @ [char_of (48 + n mod 10)]"

lemma nat_to_string_split: "10 ^ k \<le> n \<Longrightarrow> nat_to_string n = nat_to_string (n div 10 ^ k) @ last_digits k n"
proof (induction k arbitrary: n)
  case (Suc k)
  have "10 ^ k \<le> n div 10" using Suc.prems by (simp add: less_eq_div_iff_mult_less_eq mult.commute)
  moreover have "\<not> n < 10"
  proof -
    have "(10 :: nat) \<le> 10 ^ Suc k" by simp
    then show ?thesis using Suc.prems by linarith
  qed
  ultimately show ?case using Suc.IH [of "n div 10"] by (simp add: nat_to_string.simps [of n] div_mult2_eq)
qed simp

lemma last_digits_mod: "last_digits k (n mod 10 ^ k) = last_digits k n"
proof (induction k arbitrary: n)
  case (Suc k)
  have "n mod 10 ^ Suc k div 10 = n div 10 mod 10 ^ k" by (simp add: mod_mult2_eq)
  moreover have "n mod 10 ^ Suc k mod 10 = n mod 10" by (simp add: mod_mult2_eq)
  ultimately show ?case using Suc.IH [of "n div 10"] by simp
qed simp

lemma last_digits_padded:
  "n < 10 ^ Suc k \<Longrightarrow> last_digits (Suc k) n = replicate (Suc k - length (nat_to_string n)) (CHR ''0'') @ nat_to_string n"
proof (induction k arbitrary: n)
  case 0
  then show ?case by (simp add: nat_to_string.simps [of n])
next
  case (Suc k)
  have "n div 10 < 10 ^ Suc k" using Suc.prems by (simp add: div_less_iff_less_mult)
  note IH = Suc.IH [OF this]
  show ?case
  proof (cases "n < 10")
    case True
    have "char_of (48 :: nat) = CHR ''0''" by code_simp
    then have "last_digits (Suc k) 0 = replicate (Suc k) (CHR ''0'')"
      using IH True by (simp add: nat_to_string.simps [of 0] replicate_append_same)
    then show ?thesis using True by (simp add: nat_to_string.simps [of n])
  next
    case False
    then show ?thesis using IH by (simp add: nat_to_string.simps [of n])
  qed
qed

lemma pad9_mod: "pad9 (nat_to_string (n mod 10 ^ 9)) = last_digits 9 n"
proof -
  have "n mod 10 ^ 9 < 10 ^ Suc 8" by simp
  then have "last_digits 9 (n mod 10 ^ 9) = pad9 (nat_to_string (n mod 10 ^ 9))"
    using last_digits_padded [of "n mod 10 ^ 9" 8] by (simp only: pad9_def) simp
  then show ?thesis using last_digits_mod [of 9 n] by simp
qed

lemma thousand_millions_nonempty [simp]: "thousand_millions n \<noteq> []"
  by (simp add: thousand_millions.simps [of n])

lemma thousand_millions_less: "x \<in> set (thousand_millions n) \<Longrightarrow> x < 10 ^ 9"
  by (induction n rule: thousand_millions.induct) (subst (asm) thousand_millions.simps, auto split: if_splits)

lemma segments_text:
  "nat_to_string (last (thousand_millions n)) @ concat (map (\<lambda>x. pad9 (nat_to_string x)) (rev (butlast (thousand_millions n))))
     = nat_to_string n"
proof (induction n rule: thousand_millions.induct)
  case (1 n)
  show ?case
  proof (cases "n < 10 ^ 9")
    case False
    then show ?thesis using 1 nat_to_string_split [of 9 n] pad9_mod [of n]
      by (subst (1 2) thousand_millions.simps) simp
  qed (simp add: thousand_millions.simps [of n])
qed

section \<open>Signs and magnitudes\<close>

lemma wrapped_cases:
  assumes "0 < n" "0 \<le> u" "u < 2 ^ n"
  shows "wrapped n u = (if u < 2 ^ (n - 1) then u else u - 2 ^ n)"
proof -
  have p: "(2 :: int) ^ n = 2 * 2 ^ (n - 1)" using assms(1) by (cases n) simp_all
  show ?thesis
  proof (cases "u < 2 ^ (n - 1)")
    case True
    then show ?thesis using assms(2) p by (simp add: wrapped_def mod_pos_pos_trivial)
  next
    case False
    have "(u + 2 ^ (n - 1)) mod 2 ^ n = (u + 2 ^ (n - 1) - 2 ^ n) mod 2 ^ n" by simp
    also have "... = u + 2 ^ (n - 1) - 2 ^ n" using False assms(3) p by (intro mod_pos_pos_trivial) linarith+
    finally show ?thesis using False p by (simp add: wrapped_def)
  qed
qed

lemma sint_wrapped: "sint w = wrapped LENGTH('a) (uint w)" for w :: "'a::len word"
  by (simp add: sint_uint signed_take_bit_eq_take_bit_shift take_bit_eq_mod wrapped_def)

lemma unsigned_value_range:
  assumes "decimal_ok d" shows "0 \<le> unsigned_value d \<and> unsigned_value d < 2 ^ decimal_width d"
proof (cases "dc_n_words d = 0")
  case True
  then show ?thesis using uint_lt2p [of "low32 d"] by (simp add: unsigned_value_def decimal_width_def)
next
  case False
  then show ?thesis using number64_range [of "take (dc_n_words d) (dc_words d)"] assms
    by (auto simp: unsigned_value_def decimal_width_def decimal_ok_def)
qed

lemma number64_append: "number64 (us @ vs) = number64 us + 2 ^ (64 * length us) * number64 vs"
  by (induction us) (simp_all add: power_add algebra_simps)

lemma sign_of:
  assumes "decimal_ok d" "dc_n_words d \<noteq> 0"
  shows "ArrowDecimalSign d < 0 \<longleftrightarrow> 2 ^ (decimal_width d - 1) \<le> unsigned_value d"
proof -
  obtain n where n: "dc_n_words d = Suc n" using assms(2) by (cases "dc_n_words d") auto
  let ?high = "dc_words d ! n" and ?low = "take n (dc_words d)"
  have l: "n < length (dc_words d)" using assms(1) n by (auto simp: decimal_ok_def)
  let ?P = "2 ^ (64 * n) :: int"
  have u: "unsigned_value d = number64 ?low + ?P * uint ?high"
    using l n by (simp add: unsigned_value_def take_Suc_conv_app_nth number64_append)
  have r: "0 \<le> number64 ?low" "number64 ?low < ?P" using number64_range [of ?low] l by simp_all
  have w: "2 ^ (decimal_width d - 1) = ?P * (2 ^ 63 :: int)" by (simp add: decimal_width_def n power_add)
  have "2 ^ 63 \<le> uint ?high \<longleftrightarrow> ?P * 2 ^ 63 \<le> unsigned_value d"
  proof
    assume "2 ^ 63 \<le> uint ?high"
    then have "?P * 2 ^ 63 \<le> ?P * uint ?high" by (intro mult_left_mono) simp_all
    then show "?P * 2 ^ 63 \<le> unsigned_value d" using r u by linarith
  next
    assume *: "?P * 2 ^ 63 \<le> unsigned_value d"
    show "2 ^ 63 \<le> uint ?high"
    proof (rule ccontr)
      assume "\<not> ?thesis"
      then have "uint ?high + 1 \<le> 2 ^ 63" by simp
      then have "?P * (uint ?high + 1) \<le> ?P * 2 ^ 63" by (rule mult_left_mono) simp
      moreover have "?P * (uint ?high + 1) = ?P * uint ?high + ?P" by (simp add: distrib_left)
      ultimately show False using * r u by linarith
    qed
  qed
  moreover have "ArrowDecimalSign d < 0 \<longleftrightarrow> sint ?high < 0"
    using assms(1) n by (simp add: ArrowDecimalSign_def decimal_ok_def)
  moreover have "sint ?high < 0 \<longleftrightarrow> 2 ^ 63 \<le> uint ?high"
    using wrapped_cases [of 64 "uint ?high"] uint_lt2p [of ?high] by (simp add: sint_wrapped not_less)
  ultimately show ?thesis using w by simp
qed

section \<open>The end of a buffer\<close>

lemma print_at_end:
  assumes "ab_wf b" "int (length s) < n" "ab_size b + int (length s) + 1 \<le> ab_capacity b"
  shows "\<exists>b'. print_at_end b n s = Some b' \<and> ab_wf b' \<and> ab_bytes b' = ab_bytes b @ bytes_of s
    \<and> ab_capacity b' = ab_capacity b \<and> ab_size b' = ab_size b + int (length s)"
proof -
  have c: "0 \<le> ab_size b" "int (length (ab_block b)) = ab_capacity b" using assms(1) by (simp_all add: ab_wf_def)
  then have "ab_block b \<noteq> []" using assms(3) by auto
  then obtain m where m: "ab_data b = Some m" "ab_block b = m" by (cases "ab_data b") (auto simp: ab_block_def)
  obtain k where k: "ab_size b = int k" using c(1) by (metis zero_le_imp_eq_int)
  have t: "take (nat (n - 1)) s = s" using assms(2) by simp
  have "k + Suc (length s) \<le> length m" using assms(3) c(2) m(2) k by simp
  then show ?thesis
    unfolding print_at_end_def Let_def t m(1)
    using m k c(2) by (simp add: store_def ab_wf_def ab_bytes_def ab_block_def)
qed

lemma print_segments:
  "ab_wf b \<Longrightarrow> (\<forall>x \<in> set xs. x < 10 ^ 9) \<Longrightarrow> ab_size b + 9 * int (length xs) + 1 \<le> ab_capacity b \<Longrightarrow>
     \<exists>b'. print_segments (map of_nat xs) b = Some b' \<and> ab_wf b'
       \<and> ab_bytes b' = ab_bytes b @ bytes_of (concat (map (\<lambda>x. pad9 (nat_to_string x)) xs))"
proof (induction xs arbitrary: b)
  case (Cons x xs)
  let ?s = "pad9 (nat_to_string x)"
  have x: "unat (of_nat x :: 32 word) = x" using Cons.prems(2) by (simp add: unat_of_nat)
  have "length (nat_to_string x) \<le> 9" using length_nat_to_string [of x 8] Cons.prems(2) by simp
  then have l: "length ?s = 9" by (simp add: pad9_def)
  then have "ab_size b + int (length ?s) + 1 \<le> ab_capacity b" "int (length ?s) < 21" using Cons.prems(3) by simp_all
  then obtain b1 where b1: "print_at_end b 21 ?s = Some b1" "ab_wf b1" "ab_bytes b1 = ab_bytes b @ bytes_of ?s"
    "ab_capacity b1 = ab_capacity b" "ab_size b1 = ab_size b + 9"
    using print_at_end [OF Cons.prems(1), of ?s 21] l by auto
  then show ?case using Cons.IH [OF b1(2)] Cons.prems(2,3) x by (simp add: b1(1))
qed simp

text \<open>What the words are worth without the sign, most significant first.\<close>

definition magnitude_words :: "arrow_decimal \<Rightarrow> 64 word list" where
  "magnitude_words d =
     (let ws = take (dc_n_words d) (dc_words d)
      in dropWhile (\<lambda>w. w = 0) (rev (if ArrowDecimalSign d < 0 then negate_words 1 ws else ws)))"

lemma magnitude_words:
  assumes "decimal_ok d" "dc_n_words d \<noteq> 0"
  shows "number_msf (magnitude_words d) = \<bar>decimal_value d\<bar>" "ArrowDecimalSign d < 0 \<longleftrightarrow> decimal_value d < 0"
    "\<bar>decimal_value d\<bar> < 10 ^ 81"
proof -
  let ?ws = "take (dc_n_words d) (dc_words d)"
  let ?W = "2 ^ decimal_width d :: int" and ?H = "2 ^ (decimal_width d - 1) :: int"
  have l: "length ?ws = dc_n_words d" "dc_n_words d \<le> 4" using assms(1) by (auto simp: decimal_ok_def)
  have u: "unsigned_value d = number64 ?ws" "decimal_width d = 64 * length ?ws"
    using assms(2) l by (simp_all add: unsigned_value_def decimal_width_def)
  have U: "0 \<le> unsigned_value d" "unsigned_value d < ?W" using unsigned_value_range [OF assms(1)] by simp_all
  have "0 < decimal_width d" using assms(2) by (simp add: decimal_width_def)
  then have WH: "?W = 2 * ?H" by (cases "decimal_width d") simp_all
  have v: "decimal_value d = (if unsigned_value d < ?H then unsigned_value d else unsigned_value d - ?W)"
    unfolding decimal_value_def using \<open>0 < decimal_width d\<close> U by (rule wrapped_cases)
  have s: "ArrowDecimalSign d < 0 \<longleftrightarrow> \<not> unsigned_value d < ?H" using sign_of [OF assms] by (simp only: not_less)
  show n: "ArrowDecimalSign d < 0 \<longleftrightarrow> decimal_value d < 0" using s v U by (simp split: if_splits)
  have m: "number_msf (magnitude_words d) = number64 (if ArrowDecimalSign d < 0 then negate_words 1 ?ws else ?ws)"
    by (simp add: magnitude_words_def Let_def number_msf_zeros number_msf_rev)
  show "number_msf (magnitude_words d) = \<bar>decimal_value d\<bar>"
  proof (cases "ArrowDecimalSign d < 0")
    case True
    have "number64 (negate_words 1 ?ws) = (?W - unsigned_value d) mod ?W"
      using negate_words [of 1 ?ws] u by simp
    also have "... = ?W - unsigned_value d"
    proof (rule mod_pos_pos_trivial)
      have "0 < ?H" "?H \<le> unsigned_value d" using True s by (simp, simp only: not_less)
      then show "0 \<le> ?W - unsigned_value d" "?W - unsigned_value d < ?W" using U by linarith+
    qed
    finally show ?thesis using True s v U by (simp add: m)
  next
    case False
    then show ?thesis using s v U u by (simp add: m)
  qed
  have "?H \<le> 2 ^ 255"
    using l \<open>0 < decimal_width d\<close> u(2) by (intro power_increasing) simp_all
  also have "... < (10 :: int) ^ 81" by simp
  finally show "\<bar>decimal_value d\<bar> < 10 ^ 81" using v U WH by (auto simp: abs_less_iff split: if_splits)
qed

lemma append_sign:
  assumes "ab_wf b" "ab_size b + 1 \<le> ab_capacity b"
  shows "\<exists>m m'. ab_data b = Some m \<and> store m (nat (ab_size b)) [45] = Some m'
    \<and> ab_wf (b\<lparr>ab_data := Some m', ab_size := ab_size b + 1\<rparr>)
    \<and> ab_bytes (b\<lparr>ab_data := Some m', ab_size := ab_size b + 1\<rparr>) = ab_bytes b @ bytes_of ''-''"
proof -
  have c: "0 \<le> ab_size b" "int (length (ab_block b)) = ab_capacity b" using assms(1) by (simp_all add: ab_wf_def)
  then have "ab_block b \<noteq> []" using assms(2) by auto
  then obtain m where m: "ab_data b = Some m" "ab_block b = m" by (cases "ab_data b") (auto simp: ab_block_def)
  obtain k where k: "ab_size b = int k" using c(1) by (metis zero_le_imp_eq_int)
  have "k + 1 \<le> length m" using assms(2) c(2) m(2) k by simp
  then show ?thesis using m k c(2) by (simp add: store_def ab_wf_def ab_bytes_def ab_block_def nat_add_distrib)
qed

lemma print_number:
  fixes n :: nat
  defines "segments \<equiv> map of_nat (thousand_millions n) :: 32 word list"
  assumes "ab_wf b" "ab_size b + int (length segments) * 9 + 1 \<le> ab_capacity b"
  shows "\<exists>b1 b2. print_at_end b 21 (nat_to_string (unat (last segments))) = Some b1
    \<and> print_segments (rev (butlast segments)) b1 = Some b2 \<and> ab_wf b2 \<and> ab_bytes b2 = ab_bytes b @ bytes_of (nat_to_string n)"
proof -
  let ?t = "thousand_millions n" and ?s = "nat_to_string (last (thousand_millions n))"
  have lt: "last ?t < 10 ^ 9" using thousand_millions_less [of "last ?t" n] by simp
  then have u: "unat (last segments) = last ?t" by (simp add: segments_def last_map unat_of_nat)
  have l: "length ?s \<le> 9" using length_nat_to_string [of "last ?t" 8] lt by simp
  have len: "length segments = Suc (length (butlast ?t))" by (simp add: segments_def)
  obtain b1 where b1: "print_at_end b 21 ?s = Some b1" "ab_wf b1" "ab_bytes b1 = ab_bytes b @ bytes_of ?s"
    "ab_capacity b1 = ab_capacity b" "ab_size b1 = ab_size b + int (length ?s)"
    using print_at_end [OF assms(2), of ?s 21] assms(3) l len by auto
  have "ab_size b1 + 9 * int (length (rev (butlast ?t))) + 1 \<le> ab_capacity b1"
  proof -
    obtain k where k: "length (butlast ?t) = k" by blast
    then show ?thesis using assms(3) l b1(4,5) unfolding len k length_rev by simp
  qed
  moreover have "\<forall>x \<in> set (rev (butlast ?t)). x < 10 ^ 9" using thousand_millions_less by (auto dest: in_set_butlastD)
  ultimately obtain b2 where "print_segments (map of_nat (rev (butlast ?t))) b1 = Some b2" "ab_wf b2"
    "ab_bytes b2 = ab_bytes b1 @ bytes_of (concat (map (\<lambda>x. pad9 (nat_to_string x)) (rev (butlast ?t))))"
    using print_segments [OF b1(2)] by blast
  moreover have "rev (butlast segments) = map of_nat (rev (butlast ?t))" by (simp only: segments_def map_butlast [symmetric] rev_map)
  ultimately show ?thesis using b1(1,3) u segments_text [of n] by (auto simp flip: map_append)
qed

lemma append_digits:
  assumes d: "decimal_ok d" and b: "ab_wf b"
  shows "\<exists>e b'. ArrowDecimalAppendDigitsToBuffer (ArrowBufferAllocatorMallocReallocate memory) d b = Some (e, b') \<and> ab_wf b'
    \<and> (e = NANOARROW_OK \<and> ab_bytes b' = ab_bytes b @ bytes_of (int_to_string (decimal_value d))
       \<or> e = ENOMEM \<and> ab_bytes b' = [])"
proof (cases "dc_n_words d = 0")
  case True
  let ?s = "int_to_string (sint (low32 d))"
  have v: "decimal_value d = sint (low32 d)"
    using True by (simp add: decimal_value_def decimal_width_def unsigned_value_def sint_wrapped)
  have "is_int32 (sint (low32 d))" using sint_range_size [of "low32 d"] by (simp add: is_int32_def word_size)
  then have l: "length ?s \<le> 11" by (rule length_int32)
  obtain e b1 where r: "ArrowBufferReserve (ArrowBufferAllocatorMallocReallocate memory) b 16 = (e, b1)" by force
  note R = malloc.reserve [OF b _ r]
  show ?thesis
  proof (cases "e = NANOARROW_OK")
    case e: True
    then obtain b2 where "print_at_end b1 (ab_capacity b1 - ab_size b1) ?s = Some b2" "ab_wf b2"
      "ab_bytes b2 = ab_bytes b1 @ bytes_of ?s"
      using print_at_end [of b1 ?s "ab_capacity b1 - ab_size b1"] R l by auto
    then show ?thesis using True R e r v by (simp add: ArrowDecimalAppendDigitsToBuffer_def)
  next
    case False
    then show ?thesis using True R r by (simp add: ArrowDecimalAppendDigitsToBuffer_def)
  qed
next
  case False
  let ?v = "decimal_value d" and ?re = "ArrowBufferAllocatorMallocReallocate memory"
  define n where "n = nat \<bar>?v\<bar>"
  note M = magnitude_words [OF d False]
  have ml: "dropWhile (\<lambda>w. w = 0) (rev (if ArrowDecimalSign d < 0 then negate_words 1 (take (dc_n_words d) (dc_words d))
      else take (dc_n_words d) (dc_words d))) = magnitude_words d"
    by (simp add: magnitude_words_def Let_def)
  show ?thesis
  proof (cases "magnitude_words d = []")
    case True
    then have "?v = 0" using M(1) by simp
    moreover have "le_bytes (48 :: 8 word) = bytes_of ''0''" by code_simp
    moreover have "int_to_string 0 = ''0''" by code_simp
    ultimately show ?thesis unfolding ArrowDecimalAppendDigitsToBuffer_def Let_def ml
      using True False malloc.append_int [OF b, of memory "48 :: 8 word"] by simp
  next
    case nz: False
    define t where "t = thousand_millions n"
    have hd: "hd (magnitude_words d) \<noteq> 0"
      using nz unfolding ml [symmetric] by (rule hd_dropWhile)
    have nv: "number_msf (magnitude_words d) = int n" using M(1) by (simp add: n_def)
    have "n < 10 ^ (9 * Suc 8)" using M(3) by (simp add: n_def nat_less_iff)
    then have tl: "length t \<le> 9" using thousand_millions_length [of n 8] by (simp add: t_def)
    have D: "digit_segments (magnitude_words d) [] = Some (map of_nat t)"
      using digit_segments [OF nv nz hd, of "[]"] tl by (simp add: t_def)
    obtain e b1 where r: "ArrowBufferReserve ?re b (int (length t) * 9 + 1 + 21 - 9) = (e, b1)" by force
    have R: "ab_wf b1 \<and> (e = NANOARROW_OK \<and> ab_bytes b1 = ab_bytes b \<and> ab_size b1 = ab_size b
           \<and> ab_size b + (int (length t) * 9 + 1 + 21 - 9) \<le> ab_capacity b1 \<or> e = ENOMEM \<and> ab_bytes b1 = [])"
      by (rule malloc.reserve [OF b _ r]) simp
    show ?thesis
    proof (cases "e = NANOARROW_OK")
      case True
      show ?thesis
      proof (cases "ArrowDecimalSign d < 0")
        case neg: True
        then have v: "int_to_string ?v = ''-'' @ nat_to_string n" using M(2) by (simp add: int_to_string_def n_def)
        have "ab_size b1 + 1 \<le> ab_capacity b1" using R True by auto
        then obtain m m' where s: "ab_data b1 = Some m" "store m (nat (ab_size b1)) [45] = Some m'"
          "ab_wf (b1\<lparr>ab_data := Some m', ab_size := ab_size b1 + 1\<rparr>)"
          "ab_bytes (b1\<lparr>ab_data := Some m', ab_size := ab_size b1 + 1\<rparr>) = ab_bytes b1 @ bytes_of ''-''"
          using append_sign R by blast
        obtain b2 b3 where "print_at_end (b1\<lparr>ab_data := Some m', ab_size := ab_size b1 + 1\<rparr>) 21
            (nat_to_string (unat (last (map of_nat t :: 32 word list)))) = Some b2"
          "print_segments (rev (butlast (map of_nat t))) b2 = Some b3" "ab_wf b3"
          "ab_bytes b3 = ab_bytes b1 @ bytes_of ''-'' @ bytes_of (nat_to_string n)"
          using print_number [OF s(3), of n] R True s(4) by (auto simp: t_def)
        then show ?thesis unfolding ArrowDecimalAppendDigitsToBuffer_def Let_def ml
          using False nz R r True neg s(1,2) v by (simp add: D)
      next
        case pos: False
        then have v: "int_to_string ?v = nat_to_string n" using M(2) by (simp add: int_to_string_def n_def)
        obtain b2 b3 where "print_at_end b1 21 (nat_to_string (unat (last (map of_nat t :: 32 word list)))) = Some b2"
          "print_segments (rev (butlast (map of_nat t))) b2 = Some b3" "ab_wf b3"
          "ab_bytes b3 = ab_bytes b1 @ bytes_of (nat_to_string n)"
          using print_number [of b1 n] R True by (auto simp: t_def)
        then show ?thesis unfolding ArrowDecimalAppendDigitsToBuffer_def Let_def ml
          using False nz R r True pos v by (simp add: D)
      qed
    next
      case e: False
      then show ?thesis unfolding ArrowDecimalAppendDigitsToBuffer_def Let_def ml
        using False nz R r by (simp add: D)
    qed
  qed
qed

text \<open>
  C19: A decimal of 32, 64, 128 or 256 bits set from digits with or without a sign (ArrowDecimalSetDigits) is the
  number written, leading zeros included, when it fits the width, and its digits appended to any buffer
  (ArrowDecimalAppendDigitsToBuffer) are the numeral of that number, unless the memory runs out.  The smallest
  number of 32 bits is left out: negating it overflows.
\<close>

theorem decimal_digits_roundtrip:
  assumes "bitwidth \<in> {32, 64, 128, 256}"
    and "list_all isdigit ds" "sign \<in> {[], ''-'', ''+''}" "sign @ ds \<noteq> []"
    and "v = (if sign = ''-'' then - 1 else 1) * int (digits_value ds)"
    and "- (2 ^ (bitwidth - 1)) \<le> v" "v < 2 ^ (bitwidth - 1)" "bitwidth = 32 \<longrightarrow> v \<noteq> - (2 ^ 31)"
    and "ab_wf b"
  shows "\<exists>d. ArrowDecimalSetDigits (ArrowDecimalInit bitwidth p s)
        \<lparr>sv_data = Some (bytes_of (sign @ ds) @ rest), sv_size = int (length (sign @ ds))\<rparr> = Some (NANOARROW_OK, d)
      \<and> decimal_value d = v
      \<and> (\<exists>e b'. ArrowDecimalAppendDigitsToBuffer (ArrowBufferAllocatorMallocReallocate memory) d b = Some (e, b')
           \<and> (e = NANOARROW_OK \<and> ab_bytes b' = ab_bytes b @ bytes_of (int_to_string v) \<or> e = ENOMEM))"
proof -
  let ?d = "ArrowDecimalInit bitwidth p s"
  have d: "decimal_ok ?d" "decimal_width ?d = bitwidth" using decimal_ok_Init [OF assms(1)] by simp_all
  have "\<not> (dc_n_words ?d = 0 \<and> sign = ''-'' \<and> v mod 2 ^ 32 = 2 ^ 31)"
  proof
    assume *: "dc_n_words ?d = 0 \<and> sign = ''-'' \<and> v mod 2 ^ 32 = 2 ^ 31"
    then have b32: "bitwidth = 32" using assms(1) by (auto simp: ArrowDecimalInit_def)
    have "v \<noteq> 0" using * by auto
    moreover have "v \<le> 0" using * assms(5) by simp
    ultimately have "(v + 2 ^ 32) mod 2 ^ 32 = v + 2 ^ 32" using assms(6) b32 by (intro mod_pos_pos_trivial) simp_all
    then show False using * assms(8) b32 by simp
  qed
  with set_digits [OF d(1) assms(2-5)] obtain d' where d':
    "ArrowDecimalSetDigits ?d \<lparr>sv_data = Some (bytes_of (sign @ ds) @ rest), sv_size = int (length (sign @ ds))\<rparr>
       = Some (NANOARROW_OK, d')" "decimal_ok d'" "decimal_value d' = wrapped bitwidth v"
    using d(2) by auto
  moreover have "wrapped bitwidth v = v" using assms(1,6,7) by (intro wrapped_same) auto
  ultimately show ?thesis using append_digits [OF d'(2) assms(9), of memory] by auto
qed

theorem decimal_digits_roundtrip_witness:
  "\<exists>d. ArrowDecimalSetDigits (ArrowDecimalInit 128 38 0)
      \<lparr>sv_data = Some (bytes_of ''-00340282366920938463463''), sv_size = 24\<rparr> = Some (NANOARROW_OK, d)
    \<and> decimal_value d = - 340282366920938463463
    \<and> (\<exists>e b. ArrowDecimalAppendDigitsToBuffer (ArrowBufferAllocatorMallocReallocate (\<lambda>n. Some (\<lambda>i. 0))) d ArrowBufferInit
           = Some (e, b)
         \<and> (e = NANOARROW_OK \<and> ab_bytes b = bytes_of ''-340282366920938463463'' \<or> e = ENOMEM))"
proof -
  let ?ds = "''00340282366920938463463''" and ?v = "- 340282366920938463463 :: int"
  have p: "(128 :: nat) \<in> {32, 64, 128, 256}" "''-'' \<in> {[], ''-'', ''+''}" "''-'' @ ?ds \<noteq> []"
    "- (2 ^ (128 - 1)) \<le> ?v" "?v < 2 ^ (128 - 1)" "(128 :: nat) = 32 \<longrightarrow> ?v \<noteq> - (2 ^ 31)"
    by simp_all
  have ds: "list_all isdigit ?ds" by code_simp
  have v: "?v = (if ''-'' = ''-'' then - 1 else 1) * int (digits_value ?ds)" by (simp add: digits_value_def)
  have t: "bytes_of (''-'' @ ?ds) @ [] = bytes_of ''-00340282366920938463463''"
    by (simp only: append_Cons append_Nil append_Nil2)
  have l: "int (length (''-'' @ ?ds)) = 24" by code_simp
  have n: "int_to_string ?v = ''-340282366920938463463''"
    by (simp add: int_to_string_def nat_to_string.simps char_of_def bit_0)
  show ?thesis
    using decimal_digits_roundtrip [OF p(1) ds p(2,3) v p(4-6) ab_wf_Init, of 38 0 "[]" "\<lambda>n. Some (\<lambda>i. 0)"]
    unfolding t l n ab_bytes_Init append_Nil .
qed

end
