(* ===== verification/Spec2Isabelle.thy ===== *)
theory Spec2Isabelle
  imports Insert_Properties Extension Options_Properties Loading_Properties Driver_Errors Composition
    Schema_Copy Adbc_Schemas Error_Details Arrow_Bits Arrow_Metadata
    Array_Properties Decimal_Properties
begin

text \<open>
  A verification library for the ADBC client extension of DuckDB: the extension (src/*.cpp and
  src/include), and what it is built with (src/adbc-vendor): the ADBC driver manager, the Arrow library
  nanoarrow and the helpers of the C API.

  \<^bold>\<open>The program.\<close>  ATTACH with type ADBC makes an \<open>AdbcCatalog\<close> with a pool of connections.  Its
  schema and table entries are looked up lazily through the metadata functions of ADBC and cached; a
  table is read by the Arrow scan function, which pushes projections into SQL text; INSERT and CREATE
  TABLE AS run two threads, DuckDB's pipeline and a thread that executes the ADBC statement, which share
  a buffer.  All of it calls the ADBC C API, which the driver manager implements: it resolves the options
  of a database (profiles, URIs), finds and opens the driver's library through manifests and search
  paths, completes the driver's table of functions and passes calls on to it.

  \<^bold>\<open>The theories of the extension.\<close>
  \<^item> Adbc\_Prelude: statuses, exceptions, the calls and replies of the C API as the extension makes them,
    case-insensitive maps, buffers; the named theorem collections and general lemmas.
  \<^item> Adbc\_Util (adbc\_util.hpp): the status texts, the checking macro, the owning handle, and the class
    \<open>AdbcConnection\<close>.  \<open>handle_contract\<close> is what the API promises about handles; the no-leak properties
    rest on it.
  \<^item> Connection\_Pool (adbc\_connection\_pool.cpp/hpp): the pool and the leases, with exclusive ownership,
    the capacity bound and the shutdown.
  \<^item> Insert\_Buffer, Insert\_Protocol, Insert\_Properties (adbc\_insert.cpp/hpp): the operations on the
    shared buffer under its mutex; the two threads as a step relation whose steps are the critical
    sections, with sleeping, notification and spurious wake-ups; its invariants by rule induction, and
    the properties: order, completeness, no lost wake-up, no deadlock, the bound of the buffer, the count
    of rows.
  \<^item> Adbc\_Objects (adbc\_catalog.cpp, adbc\_table\_entry.cpp): the readers of the raw Arrow buffers of
    GetObjects and GetStatistics, where reading past a buffer is an error value.
  \<^item> Scan (adbc\_scan.cpp/hpp): the factory of Arrow streams, bind, scan and projection pushdown.
  \<^item> Schema\_Entry (adbc\_schema\_entry.cpp, adbc\_table\_entry.cpp), Catalog and Plan (adbc\_catalog.cpp):
    the caches of tables and schemas, and the planning of INSERT and CREATE TABLE AS over a tree of
    operators.
  \<^item> Attached: all statements against an attached database as one transition function, from ATTACH to
    DETACH.
  \<^item> Extension (adbc\_transaction.cpp, adbc\_storage.cpp, adbc\_extension.cpp, adbc\_execute.cpp,
    adbc\_clear\_cache.cpp): transactions, ATTACH options, settings, and the table functions.

  \<^bold>\<open>The theories of the driver manager.\<close>
  \<^item> Driver\_Options (adbc\_driver\_manager.cpp, adbc\_driver\_manager\_profiles.cpp): errors, path lists,
    driver URIs, profiles with their environment variables, and the resolution of the options;
    Options\_Properties proves them: no option of the caller is overridden, values expand, lists parse.
  \<^item> Driver\_Loading (adbc\_driver\_manager\_driver\_loading.cpp): manifests, search paths, \<open>dlopen\<close> with
    its retry, the default entrypoint; Loading\_Properties: a loader is complete on every path that
    succeeds, DuckDB's own library is never opened.
  \<^item> Driver\_Table (adbc\_driver\_manager\_api.cpp, adbc\_driver\_manager.cpp): the stubs, the completion of
    the table of functions over the ADBC versions, loading and releasing a driver.
  \<^item> Driver\_Api and Driver\_Connections (adbc\_driver\_manager\_api.cpp): the functions on databases,
    connections, statements and streams.  An object holds null, a temporary structure of the manager or
    the driver's data, as its \<open>private_data\<close> does; the memory counts the temporary structures and keeps
    the loaded drivers by address, so that dangling pointers, null pointers and leaks are visible.
    Api\_Properties: the table of a loaded driver is full, and the life of a database is clean.
  \<^item> Driver\_Errors: the details of errors and the errors of streams.
  \<^item> Composition: the C API of the extension's model built from the functions of the driver manager.  It
    satisfies \<open>handle_contract\<close>, so that what is proved of the extension for any such API holds with the
    driver manager below it, and a connection of the extension opens and closes cleanly through it.

  \<^bold>\<open>The theories of the Arrow library and of the C API helpers.\<close>
  \<^item> Arrow\_Buffer (adbc\_nanoarrow.h, adbc\_nanoarrow.cpp): growable buffers and their allocators.  An
    appended buffer holds what it held and what was appended, unless the memory runs out.
  \<^item> Arrow\_Bits (adbc\_nanoarrow.h): bits, runs of bits and bitmaps.  The functions that work on whole
    bytes with masks agree with loops over the bits; bitmaps hold the runs and values appended.
  \<^item> Arrow\_Metadata (adbc\_nanoarrow.cpp): the reader and the builder of key-value metadata on the bytes;
    the builder refines append, set and remove on a list of pairs.
  \<^item> Arrow\_Types, Arrow\_Schema, Arrow\_Schema\_View (adbc\_nanoarrow.h, adbc\_nanoarrow.cpp): the types, their
    format strings and layouts; schemas with the functions that set, initialise and copy them; the
    parser of formats, the validation and the printing.
  \<^item> Schema\_Properties and Schema\_Copy: a type that was set is the type a view shows, for every setter; a
    deep copy is the schema copied; printing to a small buffer is printing to a large one, cut off.
  \<^item> Arrow\_Decimal (adbc\_nanoarrow.h, adbc\_nanoarrow.cpp): decimals of 32 to 256 bits, their digits read and
    printed.  Decimal\_Properties: the words as numbers; reading digits gives the number cut to the width, by
    multiplication and addition with carries, and printing gives its numeral, by division through the words.
  \<^item> Arrow\_Array\_View and Arrow\_Array\_Validation (adbc\_nanoarrow.h, adbc\_nanoarrow.cpp): views of arrays, made
    from a schema and attached to an array, the getters that read values, and the three levels of validation.
    The memory a pointer leads to and the size the view believes it has are two things, so that a read
    outside of the memory is visible.
  \<^item> Array\_Safety, Array\_Readable, Array\_Attach and Array\_Properties: the contract of a producer of arrays
    (\<open>as_the_format_requires\<close>: buffers are null or as long as the columnar format asks), the shape of a view
    made from a schema, and the proof that an array which full validation passes is read inside its memory.
    Validation does not look at three things, which the contract and the statement therefore name: the sizes of
    list views, overflow of sizes, and the indices inside of string views and dictionaries.
  \<^item> Adbc\_Schemas (adbc\_utils.cpp): the schemas of the results of GetInfo and GetObjects, equal to the
    ones adbc.h documents.
  \<^item> Error\_Details (adbc\_utils.cpp): the errors of drivers with their details, on a heap of numbered
    blocks where any allocation may fail: no block is leaked, freed twice or overrun.  And the string
    builder.

  \<^bold>\<open>Conventions.\<close>  A call of the C API is a function from a call and a world to a reply and a world; the
  properties quantify over it.  C++ exceptions are the left of a sum; null dereferences and undefined
  behaviour are exceptions too, so a proof that a result is on the right excludes them.  Counters of
  rows are 64-bit words and indices of columns are words as in the code.  Loops over lists are
  structural; the loops that run until the driver ends a stream (\<open>get_next\<close>, the scan) are iterated with
  fuel, and the properties say that the number of buffered chunks and one, or the number of rows and
  one, is enough.  Splitting a path list and an entrypoint's words terminates by the length of the text.
  The driver manager is modelled as it is compiled for Linux without conda.

  The functions of nanoarrow return an error number and the object changed (the type \<open>nano\<close>); None is
  undefined behaviour, an access outside a block or through a null or dangling pointer, so that a result
  that is Some excludes it.  Pointers into memory are the list of the bytes from there on.  Only the
  memory of Error\_Details is a store of blocks with addresses, since there the question is who frees
  what; allocation is an argument of the functions, which may refuse at any time.

  \<^bold>\<open>Parameters.\<close>  The drivers (and for the extension the whole C API), DuckDB's type population, case
  folding and Arrow conversion, the environment, the file system, \<open>dlopen\<close> and \<open>dlsym\<close>, and the TOML
  library.  What is assumed of them is a named hypothesis: \<open>handle_contract\<close> and \<open>driver_contract\<close> are the
  documentation of adbc.h on \<open>private_data\<close>.

  \<^bold>\<open>Not modelled.\<close>  Of nanoarrow the building and the comparison of arrays and array streams, the getter of
  floating-point values, which converts to double, and failures of malloc while schemas and views are built; of adbc\_utils.cpp the functions that append to
  or read such arrays (AppendInfo*, GetObjectsData*); the branches for Windows, macOS and conda; the registration of
  functions and settings with DuckDB, which is a list of library calls; the overrides that only throw
  NotImplementedException; serialisation of TOML.  The error passed through the functions of Driver\_Api
  carries its message and release callback only; the pointer to its driver is treated in Driver\_Errors
  on its own.  Each call of Composition starts from a zeroed error.  The memory model of C++ is
  sequentially consistent here: all shared state of the threads is under one mutex.
\<close>

end
